(* ===== verification/Prelude.thy ===== *)
theory Prelude
  imports Complex_Main "HOL-Library.Multiset" "HOL-Library.Stream"
begin

text \<open>
  The shared base of the development: the collections of hints the component proofs use,
  the C++ result type \<^verbatim>\<open>std::expected<T, E>\<close> as a sum, index-checked
  vector access, the tape of pseudo-random draws, and generic lemmas on lists.
\<close>

section \<open>Collections of hints\<close>

named_theorems geom_simps \<open>unfolding rules of vectors, points, poses and boxes\<close>
named_theorems state_simps \<open>unfolding rules of state-passing operations\<close>
named_theorems inv_intros \<open>preservation rules of component invariants\<close>

section \<open>Results\<close>

text \<open>
  \<^verbatim>\<open>std::expected<T, E>\<close> is \<open>'e + 't\<close>: \<open>Inl\<close> carries the error,
  \<open>Inr\<close> the value. \<open>and_then\<close> is the member function of that name.
\<close>

definition and_then :: "'e + 'a \<Rightarrow> ('a \<Rightarrow> 'e + 'b) \<Rightarrow> 'e + 'b" where
  "and_then r f = (case r of Inl e \<Rightarrow> Inl e | Inr x \<Rightarrow> f x)"

lemma and_then_simps [simp]:
  "and_then (Inl e) f = Inl e"
  "and_then (Inr x) f = f x"
  by (simp_all add: and_then_def)

lemma and_then_eq_Inr: "and_then r f = Inr y \<longleftrightarrow> (\<exists>x. r = Inr x \<and> f x = Inr y)"
  by (cases r) auto

section \<open>Vectors\<close>

text \<open>Access to a vector at an index that the code has checked, or has not: \<open>None\<close> is out of range.\<close>

definition at_opt :: "'a list \<Rightarrow> nat \<Rightarrow> 'a option" where
  "at_opt xs i = (if i < length xs then Some (xs ! i) else None)"

lemma at_opt_Some [simp]: "at_opt xs i = Some x \<longleftrightarrow> i < length xs \<and> xs ! i = x"
  by (auto simp: at_opt_def)

lemma at_opt_None [simp]: "at_opt xs i = None \<longleftrightarrow> length xs \<le> i"
  by (auto simp: at_opt_def)

lemma nth_append_left [simp]: "i < length xs \<Longrightarrow> (xs @ ys) ! i = xs ! i"
  by (simp add: nth_append)

section \<open>Pseudo-random draws\<close>

text \<open>
  \<^verbatim>\<open>std::mt19937\<close> with the standard distributions is read as a tape of unit draws
  \<open>u \<in> [0, 1)\<close>: every use of a distribution consumes the head of the tape and maps it to
  the requested law. The theorems quantify over all tapes, so they hold for every seed.
\<close>

type_synonym rng = "real stream"

definition unit_tape :: "rng \<Rightarrow> bool" where
  "unit_tape r \<longleftrightarrow> (\<forall>n. 0 \<le> r !! n \<and> r !! n < 1)"

definition draw_unit :: "rng \<Rightarrow> real \<times> rng" where
  "draw_unit r = (shd r, stl r)"

definition draw_uniform :: "real \<Rightarrow> real \<Rightarrow> rng \<Rightarrow> real \<times> rng" where
  "draw_uniform a b r = (a + (b - a) * shd r, stl r)"

definition draw_exponential :: "real \<Rightarrow> rng \<Rightarrow> real \<times> rng" where
  "draw_exponential rate r = (- ln (1 - shd r) / rate, stl r)"

definition draw_index :: "nat \<Rightarrow> rng \<Rightarrow> nat \<times> rng" where
  "draw_index n r = (nat \<lfloor>shd r * real n\<rfloor>, stl r)"

text \<open>\<^verbatim>\<open>std::discrete_distribution\<close>: the first index whose cumulative weight exceeds the draw.\<close>

fun pick_weighted :: "real list \<Rightarrow> real \<Rightarrow> nat" where
  "pick_weighted [] x = 0"
| "pick_weighted [w] x = 0"
| "pick_weighted (w # v # ws) x = (if x < w then 0 else Suc (pick_weighted (v # ws) (x - w)))"

definition draw_discrete :: "real list \<Rightarrow> rng \<Rightarrow> nat \<times> rng" where
  "draw_discrete ws r = (pick_weighted ws (shd r * sum_list ws), stl r)"

lemma unit_tape_shd: "unit_tape r \<Longrightarrow> 0 \<le> shd r \<and> shd r < 1"
  unfolding unit_tape_def by (metis snth.simps(1))

lemma unit_tape_stl [intro]: "unit_tape r \<Longrightarrow> unit_tape (stl r)"
  unfolding unit_tape_def by (metis snth.simps(2))

lemma unit_tape_sconst [simp]: "unit_tape (sconst c) \<longleftrightarrow> 0 \<le> c \<and> c < 1"
  by (simp add: unit_tape_def)

lemma draw_index_less:
  assumes "unit_tape r" "0 < n" shows "fst (draw_index n r) < n"
proof -
  from unit_tape_shd[OF assms(1)] have u: "0 \<le> shd r" "shd r < 1" by auto
  with assms(2) have "shd r * real n < real n" by simp
  then show ?thesis using u assms(2)
    by (simp add: draw_index_def floor_less_iff nat_less_iff)
qed

lemma pick_weighted_less: "ws \<noteq> [] \<Longrightarrow> pick_weighted ws x < length ws"
  by (induction ws x rule: pick_weighted.induct) auto

lemma draw_uniform_bounds:
  assumes "unit_tape r" "a \<le> b"
  shows "a \<le> fst (draw_uniform a b r) \<and> fst (draw_uniform a b r) \<le> b"
proof -
  from unit_tape_shd[OF assms(1)] have u: "0 \<le> shd r" "shd r < 1" by auto
  have "(b - a) * shd r \<le> (b - a) * 1" using assms(2) u by (intro mult_left_mono) auto
  then show ?thesis using assms(2) u by (simp add: draw_uniform_def)
qed

section \<open>Step relations\<close>

text \<open>
  The contract of a component described by steps: an invariant that its starts satisfy and its
  steps keep; and, for the components that must come to an end, a measure that every step
  lowers and a step from every state that is not final.
\<close>

locale invariant_system =
  fixes start :: "'s \<Rightarrow> bool" and step :: "'s \<Rightarrow> 's \<Rightarrow> bool" and inv :: "'s \<Rightarrow> bool"
  assumes start_inv: "start s \<Longrightarrow> inv s"
    and step_inv: "inv s \<Longrightarrow> step s t \<Longrightarrow> inv t"
begin

lemma steps_inv: "step\<^sup>*\<^sup>* s t \<Longrightarrow> inv s \<Longrightarrow> inv t"
  by (induction rule: rtranclp_induct) (auto intro: step_inv)

lemma reachable_inv: "start s \<Longrightarrow> step\<^sup>*\<^sup>* s t \<Longrightarrow> inv t"
  using steps_inv start_inv by blast

end

locale terminating_system = invariant_system start step inv
  for start :: "'s \<Rightarrow> bool" and step :: "'s \<Rightarrow> 's \<Rightarrow> bool" and inv :: "'s \<Rightarrow> bool" +
  fixes rank :: "'s \<Rightarrow> nat" and final :: "'s \<Rightarrow> bool"
  assumes step_rank: "inv s \<Longrightarrow> step s t \<Longrightarrow> rank t < rank s"
    and progress: "inv s \<Longrightarrow> \<not> final s \<Longrightarrow> \<exists>t. step s t"
begin

lemma reaches_final: "inv s \<Longrightarrow> \<exists>t. step\<^sup>*\<^sup>* s t \<and> final t"
proof (induction "rank s" arbitrary: s rule: less_induct)
  case less
  show ?case
  proof (cases "final s")
    case False
    then obtain t where t: "step s t" using progress less.prems by blast
    with less step_rank step_inv obtain u where "step\<^sup>*\<^sup>* t u" "final u" by blast
    with t show ?thesis by (blast intro: converse_rtranclp_into_rtranclp)
  qed blast
qed

lemma run_length: "(step ^^ n) s t \<Longrightarrow> inv s \<Longrightarrow> n + rank t \<le> rank s \<and> inv t"
proof (induction n arbitrary: t)
  case (Suc n)
  then obtain u where u: "(step ^^ n) s u" "step u t" by auto
  with Suc have "n + rank u \<le> rank s" "inv u" by auto
  with u(2) step_rank[of u t] step_inv[of u t] show ?case by auto
qed simp

lemma no_long_run: "inv s \<Longrightarrow> rank s < n \<Longrightarrow> \<not> (step ^^ n) s t"
  using run_length by fastforce

lemma stuck_is_final: "inv s \<Longrightarrow> step\<^sup>*\<^sup>* s t \<Longrightarrow> (\<forall>u. \<not> step t u) \<Longrightarrow> final t"
  using steps_inv progress by blast

end

end
