(* ===== verification/CoreBase.thy ===== *)
theory CoreBase
  imports Prelude
begin

text \<open>
  \<^verbatim>\<open>core/base\<close>: the error record and its rendering (\<^verbatim>\<open>result.hpp\<close>), splitting
  and joining of strings (\<^verbatim>\<open>string_utils.hpp\<close>), the cyclic successor of an enumeration
  (\<^verbatim>\<open>enum_helper.hpp\<close>) and the real-time pacer (\<^verbatim>\<open>real_time_pacer.hpp\<close>).
\<close>

section \<open>Errors\<close>

datatype error_code =
  CONFIG | FILE_IO | SIM | SENSOR | IPC | RPC | DOMAIN | OVERFLOW | TIMEOUT | CANCELLED
  | TRANSFORM | WORKER | WORLD | EVENT_BUS | EVENT_BUS_REGISTERED | OUT_OF_MEMORY | UNKNOWN

record error =
  code :: error_code
  msg :: string
  ctx_stack :: "string list"

fun code_string :: "error_code \<Rightarrow> string" where
  "code_string CONFIG = ''CONFIG''"
| "code_string FILE_IO = ''FILE_IO''"
| "code_string SIM = ''SIM''"
| "code_string SENSOR = ''SENSOR''"
| "code_string IPC = ''IPC''"
| "code_string RPC = ''RPC''"
| "code_string DOMAIN = ''DOMAIN''"
| "code_string OVERFLOW = ''OVERFLOW''"
| "code_string TIMEOUT = ''TIMEOUT''"
| "code_string CANCELLED = ''CANCELLED''"
| "code_string UNKNOWN = ''UNKNOWN''"
| "code_string _ = ''INVALID''"

definition newline :: string where
  "newline = [CHR 10]"

definition error_to_string :: "error \<Rightarrow> string" where
  "error_to_string e =
     fold (\<lambda>c out. out @ ''-> '' @ c @ newline) (rev (ctx_stack e))
       (''['' @ code_string (code e) @ ''] '' @ msg e @ ''.'' @ newline @ ''Context:'' @ newline)"

definition make_error :: "error_code \<Rightarrow> string \<Rightarrow> string \<Rightarrow> error" where
  "make_error c m ctx = \<lparr>code = c, msg = m, ctx_stack = [ctx]\<rparr>"

text \<open>The name/value pairs of \<open>make_context\<close>, already formatted as strings.\<close>

fun context_pairs :: "(string \<times> string) list \<Rightarrow> string" where
  "context_pairs [] = []"
| "context_pairs [(n, v)] = n @ ''='' @ v"
| "context_pairs ((n, v) # p # ps) = n @ ''='' @ v @ '', '' @ context_pairs (p # ps)"

definition make_context :: "string \<Rightarrow> (string \<times> string) list \<Rightarrow> string" where
  "make_context func args = func @ ''('' @ context_pairs args @ '')''"

definition make_error_from :: "error \<Rightarrow> error_code \<Rightarrow> string \<Rightarrow> error" where
  "make_error_from err new_code new_ctx =
     err\<lparr>ctx_stack := ctx_stack err @ [''Error: '' @ code_string (code err) @ newline @ ''-> '' @ new_ctx],
         code := new_code\<rparr>"

definition error_eq :: "error \<Rightarrow> error \<Rightarrow> bool" where
  "error_eq e f \<longleftrightarrow> code e = code f \<and> msg e = msg f"

section \<open>Splitting and joining\<close>

fun find_char :: "char \<Rightarrow> string \<Rightarrow> nat option" where
  "find_char d [] = None"
| "find_char d (c # cs) = (if c = d then Some 0 else map_option Suc (find_char d cs))"

definition find_from :: "string \<Rightarrow> char \<Rightarrow> nat \<Rightarrow> nat option" where
  "find_from s d start = map_option (\<lambda>p. start + p) (find_char d (drop start s))"

lemma find_char_Some: "find_char d s = Some p \<Longrightarrow>
    p < length s \<and> s = take p s @ d # drop (Suc p) s \<and> d \<notin> set (take p s)"
  by (induction s arbitrary: p) (auto split: if_splits)

lemma find_char_None: "find_char d s = None \<longleftrightarrow> d \<notin> set s"
  by (induction s) auto

function split_loop :: "string \<Rightarrow> char \<Rightarrow> nat \<Rightarrow> string list \<Rightarrow> string list" where
  "split_loop s d start result =
     (case find_from s d start of
        None \<Rightarrow> result @ [drop start s]
      | Some p \<Rightarrow> split_loop s d (p + 1) (result @ [take (p - start) (drop start s)]))"
  by pat_completeness auto
termination
  by (relation "measure (\<lambda>(s, d, start, result). length s - start)")
    (auto simp: find_from_def dest!: find_char_Some)

declare split_loop.simps [simp del]

definition split :: "string \<Rightarrow> char \<Rightarrow> string list" where
  "split s d = split_loop s d 0 []"

definition join :: "string list \<Rightarrow> string \<Rightarrow> string" where
  "join parts delimiter =
     (if parts = [] then []
      else fold (\<lambda>p oss. oss @ p @ delimiter) (butlast parts) [] @ last parts)"

text \<open>The reference functions: structural recursion on the text and on the parts.\<close>

fun split_ref :: "char \<Rightarrow> string \<Rightarrow> string list" where
  "split_ref d [] = [[]]"
| "split_ref d (c # cs) =
     (if c = d then [] # split_ref d cs
      else (c # hd (split_ref d cs)) # tl (split_ref d cs))"

fun join_ref :: "string list \<Rightarrow> string \<Rightarrow> string" where
  "join_ref [] d = []"
| "join_ref [p] d = p"
| "join_ref (p # q # ps) d = p @ d @ join_ref (q # ps) d"

lemma split_ref_nonempty [simp]: "split_ref d s \<noteq> []"
  by (cases s) auto

lemma split_ref_free: "d \<notin> set s \<Longrightarrow> split_ref d s = [s]"
  by (induction s) auto

lemma split_ref_append: "d \<notin> set u \<Longrightarrow> split_ref d (u @ d # v) = u # split_ref d v"
  by (induction u) auto

lemma split_loop_ref: "split_loop s d start result = result @ split_ref d (drop start s)"
proof (induction s d start result rule: split_loop.induct)
  case (1 s d start result)
  show ?case
  proof (cases "find_char d (drop start s)")
    case None
    then have "find_from s d start = None" by (simp add: find_from_def)
    with None show ?thesis
      by (subst split_loop.simps) (simp add: find_char_None split_ref_free)
  next
    case (Some p)
    then have d: "drop start s = take p (drop start s) @ d # drop (Suc p) (drop start s)"
      and free: "d \<notin> set (take p (drop start s))" by (auto dest: find_char_Some)
    have "find_from s d start = Some (start + p)" using Some by (simp add: find_from_def)
    from 1[OF this] this
    have "split_loop s d start result =
        result @ take p (drop start s) # split_ref d (drop (Suc p) (drop start s))"
      by (subst split_loop.simps) (simp add: add.commute)
    also have "\<dots> = result @ split_ref d (drop start s)"
      by (subst (2) d) (simp add: split_ref_append[OF free])
    finally show ?thesis .
  qed
qed

lemma split_eq: "split s d = split_ref d s"
  by (simp add: split_def split_loop_ref)

lemma join_eq: "join parts d = join_ref parts d"
proof -
  have "fold (\<lambda>p oss. oss @ p @ d) (butlast ps) acc @ last ps = acc @ join_ref ps d" if "ps \<noteq> []" for ps acc
    using that by (induction ps d arbitrary: acc rule: join_ref.induct) auto
  from this[of parts "[]"] show ?thesis by (simp add: join_def)
qed

lemma join_ref_cons: "ps \<noteq> [] \<Longrightarrow> join_ref (p # ps) d = p @ d @ join_ref ps d"
  by (cases ps) auto

lemma join_split_ref: "join_ref (split_ref d s) [d] = s"
proof (induction s)
  case (Cons c s)
  have "join_ref ((c # hd (split_ref d s)) # tl (split_ref d s)) [d] = c # join_ref (split_ref d s) [d]"
    by (cases "split_ref d s"; cases "tl (split_ref d s)") (auto simp: join_ref_cons)
  with Cons show ?case by (auto simp: join_ref_cons)
qed simp

lemma split_join_ref:
  "ps \<noteq> [] \<Longrightarrow> \<forall>p \<in> set ps. d \<notin> set p \<Longrightarrow> split_ref d (join_ref ps [d]) = ps"
  by (induction ps "[d]" rule: join_ref.induct) (auto simp: split_ref_free split_ref_append)

section \<open>The cyclic successor\<close>

definition next_enum :: "nat \<Rightarrow> nat \<Rightarrow> nat" where
  "next_enum e n = (e + 1) mod n"

lemma next_enum_less: "0 < n \<Longrightarrow> next_enum e n < n"
  by (simp add: next_enum_def)

lemma next_enum_cycle: "e < n \<Longrightarrow> ((\<lambda>e. next_enum e n) ^^ n) e = e"
proof -
  have "((\<lambda>e. next_enum e n) ^^ k) e = (e + k) mod n" if "e < n" for k
    using that by (induction k) (auto simp: next_enum_def mod_Suc_eq)
  then show "e < n \<Longrightarrow> ?thesis" by simp
qed

section \<open>The pacer\<close>

text \<open>
  Wall-clock readings are arguments; the sleep the code asks for is part of the result
  (\<open>0\<close> when it does not sleep).
\<close>

record pacer =
  real_time_factor :: real
  enabled :: bool
  last_sim_time :: real
  expected_wall_elapsed_s :: real
  wall_origin :: real

definition make_pacer :: "real \<Rightarrow> real \<Rightarrow> pacer" where
  "make_pacer factor now =
     \<lparr>real_time_factor = factor, enabled = (factor > 0), last_sim_time = 0,
      expected_wall_elapsed_s = 0, wall_origin = now\<rparr>"

definition pacer_reset :: "real \<Rightarrow> real \<Rightarrow> pacer \<Rightarrow> pacer" where
  "pacer_reset initial_sim_time now p =
     p\<lparr>last_sim_time := initial_sim_time, expected_wall_elapsed_s := 0, wall_origin := now\<rparr>"

definition pace :: "real \<Rightarrow> real \<Rightarrow> pacer \<Rightarrow> real \<times> pacer" where
  "pace sim_time now p =
     (if \<not> enabled p then (0, p\<lparr>last_sim_time := sim_time\<rparr>)
      else let sim_dt = max (sim_time - last_sim_time p) 0;
               expected = expected_wall_elapsed_s p + sim_dt / real_time_factor p;
               sleep_s = expected - (now - wall_origin p)
           in (if sleep_s > 0 then sleep_s else 0,
               p\<lparr>expected_wall_elapsed_s := expected, last_sim_time := sim_time\<rparr>))"

lemma pace_waits:
  assumes "enabled p" "real_time_factor p > 0" "last_sim_time p \<le> sim_time"
    and "expected_wall_elapsed_s p = (last_sim_time p - t0) / real_time_factor p"
  shows "(sim_time - t0) / real_time_factor p \<le> now + fst (pace sim_time now p) - wall_origin p"
    and "expected_wall_elapsed_s (snd (pace sim_time now p)) = (sim_time - t0) / real_time_factor p"
proof -
  have "expected_wall_elapsed_s p + max (sim_time - last_sim_time p) 0 / real_time_factor p =
      (sim_time - t0) / real_time_factor p"
    using assms by (simp add: max_def diff_divide_distrib)
  with assms(1) show "(sim_time - t0) / real_time_factor p \<le> now + fst (pace sim_time now p) - wall_origin p"
    "expected_wall_elapsed_s (snd (pace sim_time now p)) = (sim_time - t0) / real_time_factor p"
    by (simp_all add: pace_def Let_def)
qed

section \<open>Properties\<close>

text \<open>Splitting a text agrees with its recursive reference; joining the parts gives the text back,
  and splitting a join of parts without the delimiter gives the parts back.\<close>

theorem split_join_inverse:
  assumes "parts \<noteq> []" "\<forall>p \<in> set parts. d \<notin> set p"
  shows "split s d = split_ref d s \<and> join (split s d) [d] = s \<and> split (join parts [d]) d = parts"
  using assms by (simp add: split_eq join_eq join_split_ref split_join_ref)

theorem split_join_inverse_witness:
  "join (split ''/a//b'' (CHR ''/'')) ''/'' = ''/a//b'' \<and>
   split (join [''x'', [], ''y''] ''/'') (CHR ''/'') = [''x'', [], ''y'']"
proof -
  have "[''x'', [], ''y''] \<noteq> []" "\<forall>p \<in> set [''x'', [], ''y'']. CHR ''/'' \<notin> set p" by simp_all
  from split_join_inverse[OF this, of "''/a//b''"] show ?thesis by blast
qed

definition pace_run :: "(real \<times> real) list \<Rightarrow> pacer \<Rightarrow> pacer" where
  "pace_run calls p = fold (\<lambda>(sim, now) q. snd (pace sim now q)) calls p"

lemma pace_keeps [simp]:
  "enabled (snd (pace t now p)) = enabled p" "real_time_factor (snd (pace t now p)) = real_time_factor p"
  "wall_origin (snd (pace t now p)) = wall_origin p" "last_sim_time (snd (pace t now p)) = t"
  by (simp_all add: pace_def Let_def)

lemma pace_run_expected:
  assumes "sorted (last_sim_time p # map fst calls)" "enabled p" "real_time_factor p > 0"
    and "expected_wall_elapsed_s p = (last_sim_time p - t0) / real_time_factor p"
  shows "expected_wall_elapsed_s (pace_run calls p) = (last_sim_time (pace_run calls p) - t0) / real_time_factor p \<and>
    enabled (pace_run calls p) \<and> real_time_factor (pace_run calls p) = real_time_factor p \<and>
    wall_origin (pace_run calls p) = wall_origin p \<and>
    last_sim_time (pace_run calls p) = last (last_sim_time p # map fst calls)"
  using assms
proof (induction calls arbitrary: p)
  case (Cons c calls)
  obtain t now where c: "c = (t, now)" by (cases c)
  have "expected_wall_elapsed_s (snd (pace t now p)) = (t - t0) / real_time_factor p"
    using Cons.prems c by (intro pace_waits(2)) auto
  with Cons.IH[of "snd (pace t now p)"] Cons.prems c show ?case
    by (cases calls) (auto simp: pace_run_def)
qed (simp add: pace_run_def)

text \<open>After every pace call, waiting as long as it asks for, the wall clock has advanced by at
  least the simulated time since the reset divided by the real-time factor, for every sequence of
  earlier calls.\<close>

theorem pacer_never_runs_ahead:
  assumes "0 < factor" "sorted (t0 # map fst calls @ [t])"
  shows "(t - t0) / factor \<le>
    now + fst (pace t now (pace_run calls (pacer_reset t0 origin (make_pacer factor w)))) - origin"
proof -
  let ?p = "pacer_reset t0 origin (make_pacer factor w)"
  have r: "expected_wall_elapsed_s (pace_run calls ?p) = (last_sim_time (pace_run calls ?p) - t0) / factor"
    "enabled (pace_run calls ?p)" "real_time_factor (pace_run calls ?p) = factor"
    "wall_origin (pace_run calls ?p) = origin" "last_sim_time (pace_run calls ?p) = last (t0 # map fst calls)"
    using pace_run_expected[of ?p calls t0] assms
    by (auto simp: pacer_reset_def make_pacer_def sorted_append)
  have "last (t0 # map fst calls) \<le> t"
    using assms(2) last_in_set[of "t0 # map fst calls"] by (auto simp: sorted_append)
  with pace_waits(1)[of "pace_run calls ?p" t t0 now] r assms(1) show ?thesis by simp
qed

theorem pacer_never_runs_ahead_witness:
  "(3 - 0) / 2 \<le> 1 + fst (pace 3 1 (pace_run [(1, 1/2)] (pacer_reset 0 0 (make_pacer 2 0)))) - (0 :: real)"
  by (rule pacer_never_runs_ahead) simp_all

end
