(* ===== verification/Names.thy ===== *)
theory Names
  imports CoreBase "HOL-Library.Word"
begin

text \<open>
  The names of the instances of a world: decimal formatting as \<^verbatim>\<open>std::format\<close> does it, and the
  search for an unused name (\<^verbatim>\<open>register_existing_name\<close> and \<^verbatim>\<open>make_instance_name\<close> of
  \<^verbatim>\<open>sim/world.cpp\<close>). The search counts up a 32-bit counter until the name is new; it ends as long
  as fewer names are used than the counter has values.
\<close>

section \<open>Decimal numbers\<close>

definition digit_char :: "nat \<Rightarrow> char" where
  "digit_char d = char_of (48 + d)"

fun digits :: "nat \<Rightarrow> string" where
  "digits n = (if n < 10 then [digit_char n] else digits (n div 10) @ [digit_char (n mod 10)])"

declare digits.simps [simp del]

definition digits_value :: "string \<Rightarrow> nat" where
  "digits_value s = fold (\<lambda>c a. a * 10 + (of_char c - 48)) s 0"

lemma digit_char_value: "d < 10 \<Longrightarrow> of_char (digit_char d) - 48 = d"
  by (simp add: digit_char_def of_char_of)

lemma digits_value_digits: "digits_value (digits n) = n"
proof (induction n rule: digits.induct)
  case (1 n)
  show ?case
  proof (cases "n < 10")
    case True
    then show ?thesis by (subst digits.simps) (simp add: digits_value_def digit_char_value)
  next
    case False
    with 1 have "digits_value (digits (n div 10)) = n div 10" by blast
    then show ?thesis using False by (subst digits.simps) (simp add: digits_value_def digit_char_value)
  qed
qed

lemma digits_inj: "digits m = digits n \<longleftrightarrow> m = n"
  by (metis digits_value_digits)

text \<open>\<^verbatim>\<open>{:04d}\<close> pads with zeros to four places.\<close>

definition digits4 :: "nat \<Rightarrow> string" where
  "digits4 n = replicate (4 - length (digits n)) (CHR ''0'') @ digits n"

section \<open>The name table\<close>

record name_table =
  used_names :: "string set"
  suffix_counts :: "string \<Rightarrow> 32 word option"

definition empty_names :: name_table where
  "empty_names = \<lparr>used_names = {}, suffix_counts = Map.empty\<rparr>"

text \<open>\<^verbatim>\<open>try_emplace\<close> on the counters.\<close>

definition count_from_one :: "string \<Rightarrow> name_table \<Rightarrow> name_table" where
  "count_from_one s t = (if suffix_counts t s = None then t\<lparr>suffix_counts := (suffix_counts t)(s \<mapsto> 1)\<rparr> else t)"

definition register_existing_name :: "string \<Rightarrow> name_table \<Rightarrow> name_table" where
  "register_existing_name s t =
     (if s = [] then t else count_from_one s (t\<lparr>used_names := insert s (used_names t)\<rparr>))"

definition suffixed :: "string \<Rightarrow> 32 word \<Rightarrow> string" where
  "suffixed b c = b @ ''-'' @ digits (unat c)"

text \<open>The loop; \<open>None\<close> would be a search that never ends.\<close>

partial_function (option) fresh_loop :: "string \<Rightarrow> string set \<Rightarrow> 32 word \<Rightarrow> (string \<times> 32 word) option" where
  "fresh_loop b used c =
     (if suffixed b c \<notin> used then Some (suffixed b c, c + 1) else fresh_loop b used (c + 1))"

definition make_instance_name :: "string \<Rightarrow> name_table \<Rightarrow> (string \<times> name_table) option" where
  "make_instance_name desired t =
     (let b = (if desired = [] then ''object'' else desired)
      in if b \<notin> used_names t
         then Some (b, count_from_one b (t\<lparr>used_names := insert b (used_names t)\<rparr>))
         else let c0 = (case suffix_counts t b of None \<Rightarrow> 0 | Some c \<Rightarrow> c);
                  c = (if c0 = 0 then 1 else c0)
              in (case fresh_loop b (used_names t) c of
                    None \<Rightarrow> None
                  | Some (candidate, c') \<Rightarrow>
                      Some (candidate, count_from_one candidate
                        (t\<lparr>used_names := insert candidate (used_names t), suffix_counts := (suffix_counts t)(b \<mapsto> c')\<rparr>))))"

section \<open>The search ends\<close>

lemma suffixed_inj: "suffixed b c = suffixed b c' \<longleftrightarrow> c = c'"
  by (auto simp: suffixed_def digits_inj dest: unsigned_word_eqI)

lemma fresh_loop_finds:
  "suffixed b (c + of_nat n) \<notin> used \<Longrightarrow> \<exists>m \<le> n. suffixed b (c + of_nat m) \<notin> used \<and>
     fresh_loop b used c = Some (suffixed b (c + of_nat m), c + of_nat m + 1)"
proof (induction n arbitrary: c)
  case 0
  then show ?case by (subst fresh_loop.simps) simp
next
  case (Suc n)
  show ?case
  proof (cases "suffixed b c \<notin> used")
    case True
    then show ?thesis by (intro exI[of _ 0]) (subst fresh_loop.simps, simp)
  next
    case False
    have "suffixed b (c + 1 + of_nat n) \<notin> used" using Suc.prems by (simp add: add.assoc)
    from Suc.IH[OF this] obtain m where m: "m \<le> n" "suffixed b (c + 1 + of_nat m) \<notin> used"
      "fresh_loop b used (c + 1) = Some (suffixed b (c + 1 + of_nat m), c + 1 + of_nat m + 1)" by blast
    have "fresh_loop b used c = fresh_loop b used (c + 1)" using False by (subst fresh_loop.simps) simp
    then show ?thesis using m by (intro exI[of _ "Suc m"]) (simp add: add.assoc)
  qed
qed

lemma fresh_exists:
  assumes "finite used" "card used < 2 ^ 32" shows "\<exists>n. suffixed b (c + of_nat n) \<notin> used"
proof (rule ccontr)
  assume "\<not> ?thesis"
  then have "suffixed b (c + of_nat n) \<in> used" for n by blast
  then have "suffixed b (c + of_nat (unat (w - c))) \<in> used" for w by blast
  then have "suffixed b w \<in> used" for w by simp
  then have "range (suffixed b) \<subseteq> used" by blast
  moreover have "inj (suffixed b)" by (simp add: inj_def suffixed_inj)
  then have "card (range (suffixed b)) = CARD(32 word)" by (rule card_image)
  ultimately have "CARD(32 word) \<le> card used" using assms(1) card_mono by metis
  with assms(2) show False by (simp add: card_word)
qed

lemma used_count_from_one [simp]: "used_names (count_from_one s t) = used_names t"
  by (simp add: count_from_one_def)

lemma make_instance_name_new:
  assumes "finite (used_names t)" "card (used_names t) < 2 ^ 32"
  shows "\<exists>name t'. make_instance_name desired t = Some (name, t') \<and> name \<notin> used_names t \<and>
    used_names t' = insert name (used_names t) \<and>
    (desired \<noteq> [] \<and> desired \<notin> used_names t \<longrightarrow> name = desired)"
proof (cases "(if desired = [] then ''object'' else desired) \<notin> used_names t")
  case True
  then show ?thesis by (auto simp: make_instance_name_def Let_def)
next
  case False
  let ?b = "if desired = [] then ''object'' else desired"
  let ?c0 = "case suffix_counts t ?b of None \<Rightarrow> 0 | Some c \<Rightarrow> c"
  let ?c = "if ?c0 = 0 then 1 else ?c0"
  obtain n where "suffixed ?b (?c + of_nat n) \<notin> used_names t" using fresh_exists[OF assms] by blast
  from fresh_loop_finds[OF this] obtain m where
    "suffixed ?b (?c + of_nat m) \<notin> used_names t"
    "fresh_loop ?b (used_names t) ?c = Some (suffixed ?b (?c + of_nat m), ?c + of_nat m + 1)" by blast
  with False show ?thesis by (auto simp: make_instance_name_def Let_def)
qed

text \<open>C36: As long as fewer names are in use than the 32-bit counter has values, the search for an
  instance name ends with a name that was not in use and now is; it is the name asked for when that
  is not empty and not in use.\<close>

theorem make_instance_name_fresh:
  assumes "finite (used_names t)" "card (used_names t) < 2 ^ 32"
  shows "\<exists>name t'. make_instance_name desired t = Some (name, t') \<and> name \<notin> used_names t \<and>
    used_names t' = insert name (used_names t) \<and>
    (desired \<noteq> [] \<and> desired \<notin> used_names t \<longrightarrow> name = desired)"
  by (rule make_instance_name_new[OF assms])

theorem make_instance_name_fresh_witness:
  "\<exists>name t'. make_instance_name ''box'' \<lparr>used_names = {''box'', ''box-1''}, suffix_counts = [''box'' \<mapsto> 1]\<rparr> = Some (name, t') \<and>
     name \<notin> {''box'', ''box-1''}"
  using make_instance_name_fresh[of "\<lparr>used_names = {''box'', ''box-1''}, suffix_counts = [''box'' \<mapsto> 1]\<rparr>" "''box''"]
  by auto

end
