(* ===== verification/Geometry.thy ===== *)
theory Geometry
  imports Prelude
begin

text \<open>
  Vectors, points, planar poses and boxes: \<^verbatim>\<open>core/math/primitives.hpp\<close>,
  \<^verbatim>\<open>core/math/numeric.hpp\<close>, \<^verbatim>\<open>core/math/pose.hpp\<close> with
  \<^verbatim>\<open>pose.cpp\<close>, and \<^verbatim>\<open>core/geom/aabb.hpp\<close>. A \<^verbatim>\<open>double\<close> is read as
  a real number: rounding, NaN and the infinities are not part of the model.
\<close>

section \<open>Plane vectors and points\<close>

definition k_eps :: real where
  "k_eps = 1 / 1000000000"

lemma k_eps_small: "0 < k_eps" "k_eps < 1"
  by (simp_all add: k_eps_def)

record vec2 =
  vx :: real
  vy :: real

record point2 =
  px :: real
  py :: real

abbreviation vec :: "real \<Rightarrow> real \<Rightarrow> vec2" where
  "vec a b \<equiv> \<lparr>vx = a, vy = b\<rparr>"

abbreviation pt :: "real \<Rightarrow> real \<Rightarrow> point2" where
  "pt a b \<equiv> \<lparr>px = a, py = b\<rparr>"

definition vec_add :: "vec2 \<Rightarrow> vec2 \<Rightarrow> vec2" where
  "vec_add a b = vec (vx a + vx b) (vy a + vy b)"

definition vec_sub :: "vec2 \<Rightarrow> vec2 \<Rightarrow> vec2" where
  "vec_sub a b = vec (vx a - vx b) (vy a - vy b)"

definition vec_scale :: "vec2 \<Rightarrow> real \<Rightarrow> vec2" where
  "vec_scale a s = vec (vx a * s) (vy a * s)"

definition vec_div :: "vec2 \<Rightarrow> real \<Rightarrow> vec2" where
  "vec_div a s = vec (vx a / s) (vy a / s)"

definition vec_neg :: "vec2 \<Rightarrow> vec2" where
  "vec_neg a = vec (- vx a) (- vy a)"

definition vec_dot :: "vec2 \<Rightarrow> vec2 \<Rightarrow> real" where
  "vec_dot a b = vx a * vx b + vy a * vy b"

definition vec_length_sq :: "vec2 \<Rightarrow> real" where
  "vec_length_sq a = vec_dot a a"

definition vec_length :: "vec2 \<Rightarrow> real" where
  "vec_length a = sqrt (vec_length_sq a)"

definition vec_normalized :: "vec2 \<Rightarrow> vec2" where
  "vec_normalized a = (if vec_length a > k_eps then vec_div a (vec_length a) else vec 0 0)"

definition point_sub :: "point2 \<Rightarrow> point2 \<Rightarrow> vec2" where
  "point_sub a b = vec (px a - px b) (py a - py b)"

definition point_add :: "point2 \<Rightarrow> vec2 \<Rightarrow> point2" where
  "point_add p v = pt (px p + vx v) (py p + vy v)"

definition distance_sq :: "point2 \<Rightarrow> point2 \<Rightarrow> real" where
  "distance_sq a b = vec_dot (point_sub a b) (point_sub a b)"

definition distance :: "point2 \<Rightarrow> point2 \<Rightarrow> real" where
  "distance a b = sqrt (distance_sq a b)"

lemmas vec_defs [geom_simps] =
  vec_add_def vec_sub_def vec_scale_def vec_div_def vec_neg_def vec_dot_def
  vec_length_sq_def point_sub_def point_add_def distance_sq_def

lemma vec_length_sq_nonneg [simp]: "0 \<le> vec_length_sq a"
  by (simp add: geom_simps)

lemma vec_length_nonneg [simp]: "0 \<le> vec_length a"
  by (simp add: vec_length_def)

lemma vec_length_square: "vec_length a * vec_length a = vec_length_sq a"
  by (simp add: vec_length_def)

lemma distance_nonneg [simp]: "0 \<le> distance a b"
  by (simp add: distance_def geom_simps)

lemma distance_self [simp]: "distance a a = 0"
  by (simp add: distance_def geom_simps)

lemma distance_le_iff: "0 \<le> r \<Longrightarrow> distance a b \<le> r \<longleftrightarrow> distance_sq a b \<le> r\<^sup>2"
  by (metis distance_def real_sqrt_abs abs_of_nonneg real_sqrt_le_iff)

lemma vec_normalized_length:
  assumes "vec_length a > k_eps" shows "vec_length (vec_normalized a) = 1"
proof -
  have pos: "vec_length a > 0" using assms by (simp add: k_eps_def)
  have "vec_length_sq (vec_normalized a) = vec_length_sq a / (vec_length a * vec_length a)"
    using assms by (simp add: vec_normalized_def geom_simps add_divide_distrib)
  also have "\<dots> = 1" using pos by (simp add: vec_length_square[symmetric])
  finally show ?thesis by (simp add: vec_length_def)
qed

section \<open>Angles\<close>

text \<open>
  The two loops of \<^verbatim>\<open>normalize_angle\<close>: subtract \<open>2\<pi>\<close> while above \<open>\<pi>\<close>, then add
  \<open>2\<pi>\<close> while below \<open>-\<pi>\<close>.
\<close>

function wrap_down :: "real \<Rightarrow> real" where
  "wrap_down a = (if a > pi then wrap_down (a - 2 * pi) else a)"
  by pat_completeness auto
termination
proof (relation "measure (\<lambda>a. nat \<lceil>a\<rceil>)")
  fix a :: real assume a: "a > pi"
  have "a - 2 * pi \<le> a - 1" using pi_ge_two by linarith
  then have "\<lceil>a - 2 * pi\<rceil> \<le> \<lceil>a - 1\<rceil>" by (rule ceiling_mono)
  then have "\<lceil>a - 2 * pi\<rceil> \<le> \<lceil>a\<rceil> - 1" by simp
  moreover have "0 < \<lceil>a\<rceil>" using a pi_ge_two by linarith
  ultimately show "(a - 2 * pi, a) \<in> measure (\<lambda>a. nat \<lceil>a\<rceil>)" by simp
qed simp

function wrap_up :: "real \<Rightarrow> real" where
  "wrap_up a = (if a < - pi then wrap_up (a + 2 * pi) else a)"
  by pat_completeness auto
termination
proof (relation "measure (\<lambda>a. nat \<lceil>- a\<rceil>)")
  fix a :: real assume a: "a < - pi"
  have "- (a + 2 * pi) \<le> - a - 1" using pi_ge_two by linarith
  then have "\<lceil>- (a + 2 * pi)\<rceil> \<le> \<lceil>- a - 1\<rceil>" by (rule ceiling_mono)
  then have "\<lceil>- (a + 2 * pi)\<rceil> \<le> \<lceil>- a\<rceil> - 1" by simp
  moreover have "0 < \<lceil>- a\<rceil>" using a pi_ge_two by linarith
  ultimately show "(a + 2 * pi, a) \<in> measure (\<lambda>a. nat \<lceil>- a\<rceil>)" by simp
qed simp

declare wrap_down.simps [simp del] wrap_up.simps [simp del]

definition normalize_angle :: "real \<Rightarrow> real" where
  "normalize_angle a = wrap_up (wrap_down a)"

lemma wrap_down_le: "wrap_down a \<le> pi"
  by (induction a rule: wrap_down.induct) (subst wrap_down.simps, auto)

lemma wrap_down_gt: "a > - pi \<Longrightarrow> wrap_down a > - pi"
proof (induction a rule: wrap_down.induct)
  case (1 a)
  then show ?case by (subst wrap_down.simps) auto
qed

lemma wrap_down_id: "a \<le> pi \<Longrightarrow> wrap_down a = a"
  by (subst wrap_down.simps) simp

lemma wrap_up_ge: "wrap_up a \<ge> - pi"
  by (induction a rule: wrap_up.induct) (subst wrap_up.simps, auto)

lemma wrap_up_le: "a \<le> pi \<Longrightarrow> wrap_up a \<le> pi"
proof (induction a rule: wrap_up.induct)
  case (1 a)
  then show ?case by (subst wrap_up.simps) auto
qed

lemma wrap_up_id: "- pi \<le> a \<Longrightarrow> wrap_up a = a"
  by (subst wrap_up.simps) simp

lemma wrap_down_turns: "\<exists>k::int. wrap_down a = a + 2 * pi * k"
proof (induction a rule: wrap_down.induct)
  case (1 a)
  show ?case
  proof (cases "a > pi")
    case True
    with "1.IH" obtain k :: int where "wrap_down (a - 2 * pi) = a - 2 * pi + 2 * pi * k" by blast
    then have "wrap_down a = a + 2 * pi * (k - 1)"
      using True by (subst wrap_down.simps) (simp add: algebra_simps)
    then show ?thesis by (metis of_int_1 of_int_diff)
  next
    case False
    then have "wrap_down a = a + 2 * pi * (0 :: int)" by (simp add: wrap_down_id)
    then show ?thesis by blast
  qed
qed

lemma wrap_up_turns: "\<exists>k::int. wrap_up a = a + 2 * pi * k"
proof (induction a rule: wrap_up.induct)
  case (1 a)
  show ?case
  proof (cases "a < - pi")
    case True
    with "1.IH" obtain k :: int where "wrap_up (a + 2 * pi) = a + 2 * pi + 2 * pi * k" by blast
    then have "wrap_up a = a + 2 * pi * (k + 1)"
      using True by (subst wrap_up.simps) (simp add: algebra_simps)
    then show ?thesis by (metis of_int_1 of_int_add)
  next
    case False
    then have "wrap_up a = a + 2 * pi * (0 :: int)" by (simp add: wrap_up_id)
    then show ?thesis by blast
  qed
qed

lemma normalize_angle_bounds: "- pi \<le> normalize_angle a \<and> normalize_angle a \<le> pi"
  by (simp add: normalize_angle_def wrap_up_ge wrap_up_le wrap_down_le)

lemma normalize_angle_turns: "\<exists>k::int. normalize_angle a = a + 2 * pi * k"
proof -
  obtain k :: int where k: "wrap_down a = a + 2 * pi * k" using wrap_down_turns by blast
  obtain j :: int where "wrap_up (wrap_down a) = wrap_down a + 2 * pi * j"
    using wrap_up_turns by blast
  with k have "normalize_angle a = a + 2 * pi * (k + j)"
    by (simp add: normalize_angle_def algebra_simps)
  then show ?thesis by (metis of_int_add)
qed

lemma normalize_angle_id: "- pi \<le> a \<Longrightarrow> a \<le> pi \<Longrightarrow> normalize_angle a = a"
  by (simp add: normalize_angle_def wrap_down_id wrap_up_id)

lemma normalize_angle_cos: "cos (normalize_angle a) = cos a"
proof -
  obtain k :: int where "normalize_angle a = a + 2 * pi * k"
    using normalize_angle_turns by blast
  then show ?thesis by (simp add: cos_add cos_int_2pin sin_int_2pin)
qed

section \<open>The two-argument arc tangent\<close>

text \<open>\<^verbatim>\<open>std::atan2\<close> of the standard library, \<open>0\<close> at the origin.\<close>

definition atan2 :: "real \<Rightarrow> real \<Rightarrow> real" where
  "atan2 y x =
     (if x > 0 then arctan (y / x)
      else if x < 0 then (if y \<ge> 0 then arctan (y / x) + pi else arctan (y / x) - pi)
      else if y > 0 then pi / 2 else if y < 0 then - (pi / 2) else 0)"

lemma atan2_bounds: "- pi \<le> atan2 y x \<and> atan2 y x \<le> pi"
proof -
  have a: "- (pi / 2) < arctan t \<and> arctan t < pi / 2" for t using arctan_bounded by blast
  have "arctan (y / x) \<le> 0" if "x < 0" "y \<ge> 0" using that by (simp add: divide_nonneg_neg)
  moreover have "arctan (y / x) \<ge> 0" if "x < 0" "y < 0" using that by (simp add: divide_nonpos_neg)
  ultimately show ?thesis using a[of "y / x"] pi_gt_zero
    by (auto simp: atan2_def)
qed

end
