(* ===== verification/Boxes.thy ===== *)
theory Boxes
  imports Geometry
begin

text \<open>
  Planar poses (\<^verbatim>\<open>Pose2\<close> of \<^verbatim>\<open>core/math/pose.hpp\<close>) and axis-aligned boxes
  (\<^verbatim>\<open>AABB2\<close> of \<^verbatim>\<open>core/geom/aabb.hpp\<close>): composition and inverse of poses, the order
  structure of boxes, and the fact the collision code rests on, that the transformed box
  of a shape covers every transformed point of it.
\<close>

section \<open>Poses\<close>

record pose2 =
  pos :: point2
  yaw :: real

definition pose_compose :: "pose2 \<Rightarrow> pose2 \<Rightarrow> pose2" where
  "pose_compose p q =
     (let c = cos (yaw p); s = sin (yaw p);
          xr = c * px (pos q) - s * py (pos q);
          yr = s * px (pos q) + c * py (pos q)
      in \<lparr>pos = pt (px (pos p) + xr) (py (pos p) + yr), yaw = yaw p + yaw q\<rparr>)"

definition transform_point_cs :: "pose2 \<Rightarrow> point2 \<Rightarrow> real \<Rightarrow> real \<Rightarrow> point2" where
  "transform_point_cs p a c s =
     (let xr = c * px a - s * py a; yr = s * px a + c * py a
      in pt (px (pos p) + xr) (py (pos p) + yr))"

definition transform_point :: "pose2 \<Rightarrow> point2 \<Rightarrow> point2" where
  "transform_point p a =
     (let c = cos (yaw p); s = sin (yaw p);
          xr = c * px a - s * py a; yr = s * px a + c * py a
      in pt (px (pos p) + xr) (py (pos p) + yr))"

definition transform_vector :: "pose2 \<Rightarrow> vec2 \<Rightarrow> vec2" where
  "transform_vector p v =
     (let c = cos (yaw p); s = sin (yaw p)
      in vec (c * vx v - s * vy v) (s * vx v + c * vy v))"

definition inverse_transform_point :: "pose2 \<Rightarrow> point2 \<Rightarrow> point2" where
  "inverse_transform_point p a =
     (let c = cos (yaw p); s = sin (yaw p); dx = px a - px (pos p); dy = py a - py (pos p)
      in pt (c * dx + s * dy) (- s * dx + c * dy))"

definition inverse_transform_vector :: "pose2 \<Rightarrow> vec2 \<Rightarrow> vec2" where
  "inverse_transform_vector p v =
     (let c = cos (yaw p); s = sin (yaw p)
      in vec (c * vx v + s * vy v) (- s * vx v + c * vy v))"

lemmas pose_defs [geom_simps] =
  pose_compose_def transform_point_cs_def transform_point_def transform_vector_def
  inverse_transform_point_def inverse_transform_vector_def Let_def

lemma cos_sin_one: "cos a * cos a + sin a * sin (a::real) = 1"
  using sin_cos_squared_add2[of a] by (simp add: power2_eq_square add.commute)

lemma rotate_unrotate:
  fixes a x y :: real
  shows "cos a * (cos a * x + sin a * y) - sin a * (- sin a * x + cos a * y) = x"
    and "sin a * (cos a * x + sin a * y) + cos a * (- sin a * x + cos a * y) = y"
    and "cos a * (cos a * x - sin a * y) + sin a * (sin a * x + cos a * y) = x"
    and "- sin a * (cos a * x - sin a * y) + cos a * (sin a * x + cos a * y) = y"
proof -
  have *: "cos a * cos a + sin a * sin a = 1" by (rule cos_sin_one)
  show "cos a * (cos a * x + sin a * y) - sin a * (- sin a * x + cos a * y) = x"
    "sin a * (cos a * x + sin a * y) + cos a * (- sin a * x + cos a * y) = y"
    "cos a * (cos a * x - sin a * y) + sin a * (sin a * x + cos a * y) = x"
    "- sin a * (cos a * x - sin a * y) + cos a * (sin a * x + cos a * y) = y"
    using * by algebra+
qed

lemma transform_inverse_point [simp]: "transform_point p (inverse_transform_point p a) = a"
  using rotate_unrotate[of "yaw p" "px a - px (pos p)" "py a - py (pos p)"]
  by (simp add: geom_simps)

lemma inverse_transform_transform_point [simp]:
  "inverse_transform_point p (transform_point p a) = a"
  using rotate_unrotate[of "yaw p" "px a" "py a"] by (simp add: geom_simps)

lemma transform_inverse_vector [simp]: "transform_vector p (inverse_transform_vector p v) = v"
  using rotate_unrotate[of "yaw p" "vx v" "vy v"] by (simp add: geom_simps)

lemma inverse_transform_transform_vector [simp]:
  "inverse_transform_vector p (transform_vector p v) = v"
  using rotate_unrotate[of "yaw p" "vx v" "vy v"] by (simp add: geom_simps)

lemma transform_point_compose:
  "transform_point (pose_compose p q) a = transform_point p (transform_point q a)"
  by (simp add: geom_simps cos_add sin_add algebra_simps)

lemma transform_point_cs_eq: "transform_point_cs p a (cos (yaw p)) (sin (yaw p)) = transform_point p a"
  by (simp add: geom_simps)

lemma transform_vector_length_sq: "vec_length_sq (transform_vector p v) = vec_length_sq v"
proof -
  let ?c = "cos (yaw p)" and ?s = "sin (yaw p)"
  have "(?c * vx v - ?s * vy v) * (?c * vx v - ?s * vy v) + (?s * vx v + ?c * vy v) * (?s * vx v + ?c * vy v)
      = (?c * ?c + ?s * ?s) * (vx v * vx v + vy v * vy v)" by algebra
  then show ?thesis by (simp add: geom_simps cos_sin_one)
qed

lemma point_sub_transform:
  "point_sub (transform_point p a) (transform_point p b) = transform_vector p (point_sub a b)"
  by (simp add: geom_simps algebra_simps)

lemma distance_transform: "distance (transform_point p a) (transform_point p b) = distance a b"
  using transform_vector_length_sq[of p "point_sub a b"]
  by (simp add: distance_def distance_sq_def point_sub_transform vec_length_sq_def)

section \<open>Boxes\<close>

record aabb2 =
  bmin :: point2
  bmax :: point2

definition aabb_center :: "aabb2 \<Rightarrow> point2" where
  "aabb_center b = pt ((px (bmin b) + px (bmax b)) * (1/2)) ((py (bmin b) + py (bmax b)) * (1/2))"

definition aabb_contains :: "aabb2 \<Rightarrow> point2 \<Rightarrow> bool" where
  "aabb_contains b p \<longleftrightarrow>
     (px p \<ge> px (bmin b) \<and> px p \<le> px (bmax b)) \<and> (py p \<ge> py (bmin b) \<and> py p \<le> py (bmax b))"

definition aabb_contains_box :: "aabb2 \<Rightarrow> aabb2 \<Rightarrow> bool" where
  "aabb_contains_box b i \<longleftrightarrow>
     px (bmin i) \<ge> px (bmin b) \<and> py (bmin i) \<ge> py (bmin b) \<and>
     px (bmax i) \<le> px (bmax b) \<and> py (bmax i) \<le> py (bmax b)"

definition aabb_fit_in :: "aabb2 \<Rightarrow> aabb2 \<Rightarrow> bool" where
  "aabb_fit_in b u \<longleftrightarrow>
     px (bmin b) \<ge> px (bmin u) \<and> py (bmin b) \<ge> py (bmin u) \<and>
     px (bmax b) \<le> px (bmax u) \<and> py (bmax b) \<le> py (bmax u)"

definition aabb_intersects :: "aabb2 \<Rightarrow> aabb2 \<Rightarrow> bool" where
  "aabb_intersects b u \<longleftrightarrow>
     (px (bmin b) \<le> px (bmax u) \<and> px (bmax b) \<ge> px (bmin u)) \<and>
     (py (bmin b) \<le> py (bmax u) \<and> py (bmax b) \<ge> py (bmin u))"

definition aabb_merge :: "aabb2 \<Rightarrow> aabb2 \<Rightarrow> aabb2" where
  "aabb_merge b u =
     \<lparr>bmin = pt (min (px (bmin b)) (px (bmin u))) (min (py (bmin b)) (py (bmin u))),
      bmax = pt (max (px (bmax b)) (px (bmax u))) (max (py (bmax b)) (py (bmax u)))\<rparr>"

definition aabb_longest_axis :: "aabb2 \<Rightarrow> nat" where
  "aabb_longest_axis b =
     (let sx = px (bmax b) - px (bmin b); sy = py (bmax b) - py (bmin b)
      in if sx > sy then 0 else 1)"

definition aabb_expand :: "aabb2 \<Rightarrow> point2 \<Rightarrow> aabb2" where
  "aabb_expand b p =
     \<lparr>bmin = pt (min (px p) (px (bmin b))) (min (py p) (py (bmin b))),
      bmax = pt (max (px p) (px (bmax b))) (max (py p) (py (bmax b)))\<rparr>"

definition aabb_transform :: "aabb2 \<Rightarrow> pose2 \<Rightarrow> aabb2" where
  "aabb_transform b p =
     (let c = cos (yaw p); s = sin (yaw p);
          c00 = pt (px (bmin b)) (py (bmin b)); c10 = pt (px (bmax b)) (py (bmin b));
          c01 = pt (px (bmin b)) (py (bmax b)); c11 = pt (px (bmax b)) (py (bmax b));
          o0 = transform_point_cs p c00 c s;
          out = \<lparr>bmin = o0, bmax = o0\<rparr>
      in aabb_expand (aabb_expand (aabb_expand out (transform_point_cs p c10 c s))
           (transform_point_cs p c01 c s)) (transform_point_cs p c11 c s))"

lemmas aabb_defs =
  aabb_center_def aabb_contains_def aabb_contains_box_def aabb_fit_in_def
  aabb_intersects_def aabb_merge_def aabb_expand_def

text \<open>A box as the code builds it: its lower corner is below its upper corner.\<close>

definition aabb_valid :: "aabb2 \<Rightarrow> bool" where
  "aabb_valid b \<longleftrightarrow> px (bmin b) \<le> px (bmax b) \<and> py (bmin b) \<le> py (bmax b)"

lemma contains_box_eq_fit_in: "aabb_contains_box b i = aabb_fit_in i b"
  by (auto simp: aabb_defs)

lemma contains_box_refl [simp]: "aabb_contains_box b b"
  by (simp add: aabb_defs)

lemma contains_box_trans: "aabb_contains_box a b \<Longrightarrow> aabb_contains_box b c \<Longrightarrow> aabb_contains_box a c"
  by (auto simp: aabb_defs)

lemma contains_box_contains: "aabb_contains_box b i \<Longrightarrow> aabb_contains i p \<Longrightarrow> aabb_contains b p"
  by (auto simp: aabb_defs)

lemma merge_contains_left [simp]: "aabb_contains_box (aabb_merge a b) a"
  and merge_contains_right [simp]: "aabb_contains_box (aabb_merge a b) b"
  by (simp_all add: aabb_defs)

lemma merge_least:
  "aabb_contains_box u a \<Longrightarrow> aabb_contains_box u b \<Longrightarrow> aabb_contains_box u (aabb_merge a b)"
  by (auto simp: aabb_defs)

lemma merge_comm: "aabb_merge a b = aabb_merge b a"
  by (simp add: aabb_defs min.commute max.commute)

lemma merge_assoc: "aabb_merge (aabb_merge a b) c = aabb_merge a (aabb_merge b c)"
  by (simp add: aabb_defs min.assoc max.assoc)

lemma merge_idem [simp]: "aabb_merge a a = a"
  by (cases a, cases "bmin a", cases "bmax a") (simp add: aabb_defs)

lemma intersects_sym: "aabb_intersects a b = aabb_intersects b a"
  by (auto simp: aabb_defs)

lemma intersects_mono: "aabb_contains_box b i \<Longrightarrow> aabb_intersects i q \<Longrightarrow> aabb_intersects b q"
  by (auto simp: aabb_defs)

lemma intersects_iff_common_point:
  assumes "aabb_valid a" "aabb_valid b"
  shows "aabb_intersects a b \<longleftrightarrow> (\<exists>p. aabb_contains a p \<and> aabb_contains b p)"
proof
  assume "aabb_intersects a b"
  then have "aabb_contains a (pt (max (px (bmin a)) (px (bmin b))) (max (py (bmin a)) (py (bmin b))))
    \<and> aabb_contains b (pt (max (px (bmin a)) (px (bmin b))) (max (py (bmin a)) (py (bmin b))))"
    using assms by (auto simp: aabb_defs aabb_valid_def)
  then show "\<exists>p. aabb_contains a p \<and> aabb_contains b p" by blast
qed (auto simp: aabb_defs)

lemma expand_contains [simp]: "aabb_contains (aabb_expand b p) p"
  and expand_contains_box [simp]: "aabb_contains_box (aabb_expand b p) b"
  by (simp_all add: aabb_defs)

lemma aabb_valid_point [simp]: "aabb_valid \<lparr>bmin = p, bmax = p\<rparr>"
  by (simp add: aabb_valid_def)

lemma aabb_valid_expand [simp]: "aabb_valid b \<Longrightarrow> aabb_valid (aabb_expand b p)"
  by (auto simp: aabb_valid_def aabb_defs)

lemma aabb_valid_merge [simp]: "aabb_valid a \<Longrightarrow> aabb_valid b \<Longrightarrow> aabb_valid (aabb_merge a b)"
  by (auto simp: aabb_valid_def aabb_defs)

lemma aabb_valid_transform [simp]: "aabb_valid (aabb_transform b p)"
  by (simp add: aabb_transform_def Let_def)

lemma transform_contains_corners:
  "aabb_contains (aabb_transform b p) (transform_point p (pt (px (bmin b)) (py (bmin b))))"
  "aabb_contains (aabb_transform b p) (transform_point p (pt (px (bmax b)) (py (bmin b))))"
  "aabb_contains (aabb_transform b p) (transform_point p (pt (px (bmin b)) (py (bmax b))))"
  "aabb_contains (aabb_transform b p) (transform_point p (pt (px (bmax b)) (py (bmax b))))"
  by (simp_all add: aabb_transform_def Let_def transform_point_cs_eq aabb_defs
        le_max_iff_disj min_le_iff_disj)

text \<open>An affine function of a point is bounded over a box by its values at the corners.\<close>

lemma affine_le_corners:
  fixes u w k lo hi x y :: real
  assumes "lo \<le> x" "x \<le> hi" "lo' \<le> y" "y \<le> hi'"
    and "k + u * lo + w * lo' \<le> m" "k + u * hi + w * lo' \<le> m"
    and "k + u * lo + w * hi' \<le> m" "k + u * hi + w * hi' \<le> m"
  shows "k + u * x + w * y \<le> m"
proof -
  have "u * x \<le> max (u * lo) (u * hi)"
    using assms(1,2) by (cases "0 \<le> u") (auto simp: le_max_iff_disj mult_left_mono mult_left_mono_neg)
  moreover have "w * y \<le> max (w * lo') (w * hi')"
    using assms(3,4) by (cases "0 \<le> w") (auto simp: le_max_iff_disj mult_left_mono mult_left_mono_neg)
  ultimately show ?thesis using assms(5-8) by (auto simp: max_def split: if_splits)
qed

lemma affine_ge_corners:
  fixes u w k lo hi x y :: real
  assumes "lo \<le> x" "x \<le> hi" "lo' \<le> y" "y \<le> hi'"
    and "m \<le> k + u * lo + w * lo'" "m \<le> k + u * hi + w * lo'"
    and "m \<le> k + u * lo + w * hi'" "m \<le> k + u * hi + w * hi'"
  shows "m \<le> k + u * x + w * y"
  using affine_le_corners[of lo x hi lo' y hi' "- k" "- u" "- w" "- m"] assms by simp

lemma aabb_transform_covers:
  assumes "aabb_contains b a"
  shows "aabb_contains (aabb_transform b p) (transform_point p a)"
proof -
  let ?c = "cos (yaw p)" and ?s = "sin (yaw p)" and ?t = "aabb_transform b p"
  have x: "px (bmin b) \<le> px a" "px a \<le> px (bmax b)" and y: "py (bmin b) \<le> py a" "py a \<le> py (bmax b)"
    using assms by (auto simp: aabb_contains_def)
  note corner = transform_contains_corners[of b p, unfolded aabb_contains_def transform_point_def Let_def, simplified]
  have "px (pos p) + ?c * px a + (- ?s) * py a \<le> px (bmax ?t)"
    using corner by (intro affine_le_corners[OF x y]) auto
  moreover have "px (bmin ?t) \<le> px (pos p) + ?c * px a + (- ?s) * py a"
    using corner by (intro affine_ge_corners[OF x y]) auto
  moreover have "py (pos p) + ?s * px a + ?c * py a \<le> py (bmax ?t)"
    using corner by (intro affine_le_corners[OF x y]) auto
  moreover have "py (bmin ?t) \<le> py (pos p) + ?s * px a + ?c * py a"
    using corner by (intro affine_ge_corners[OF x y]) auto
  ultimately show ?thesis by (simp add: aabb_contains_def transform_point_def Let_def)
qed

section \<open>Properties\<close>

text \<open>A pose and its inverse transform undo each other on points and vectors, composition of poses
  is composition of transforms, and a pose keeps distances.\<close>

theorem pose_laws:
  "transform_point p (inverse_transform_point p a) = a \<and> inverse_transform_point p (transform_point p a) = a \<and>
   transform_vector p (inverse_transform_vector p v) = v \<and> inverse_transform_vector p (transform_vector p v) = v \<and>
   transform_point (pose_compose p q) a = transform_point p (transform_point q a) \<and>
   distance (transform_point p a) (transform_point p b) = distance a b"
  by (simp add: transform_point_compose distance_transform)

text \<open>The loops of normalize_angle end in the interval from -pi to pi with the same angle up to
  whole turns, and normalizing twice is normalizing once.\<close>

theorem normalize_angle_correct:
  "- pi \<le> normalize_angle a \<and> normalize_angle a \<le> pi \<and> (\<exists>k :: int. normalize_angle a = a + 2 * pi * k) \<and>
   normalize_angle (normalize_angle a) = normalize_angle a"
  using normalize_angle_bounds[of a] normalize_angle_turns[of a] normalize_angle_id[of "normalize_angle a"] by simp

end
