(* ===== verification/Planar.thy ===== *)
theory Planar
  imports Boxes
begin

text \<open>
  The planar helpers of \<^verbatim>\<open>core/math/numeric.hpp\<close> that the collision and spawning
  code calls: z-range overlap, edge normals, centroids, closest points, the ray-parity test
  and the segment/circle occlusion test. A polygon is the list of its vertices; the loops
  over its edges are folds over the list of edges.
\<close>

section \<open>Scalars\<close>

definition clamp :: "real \<Rightarrow> real \<Rightarrow> real \<Rightarrow> real" where
  "clamp x lo hi = (if x < lo then lo else if hi < x then hi else x)"

lemma clamp_bounds: "lo \<le> hi \<Longrightarrow> lo \<le> clamp x lo hi \<and> clamp x lo hi \<le> hi"
  by (simp add: clamp_def)

lemma clamp_id: "lo \<le> x \<Longrightarrow> x \<le> hi \<Longrightarrow> clamp x lo hi = x"
  by (simp add: clamp_def)

definition cxx_sign :: "real \<Rightarrow> int" where
  "cxx_sign v = (if 0 < v then 1 else 0) - (if v < 0 then 1 else 0)"

definition deg_to_rad :: "real \<Rightarrow> real" where
  "deg_to_rad d = d * pi / 180"

definition rad_to_deg :: "real \<Rightarrow> real" where
  "rad_to_deg r = r * 180 / pi"

definition safe_divide :: "real \<Rightarrow> real \<Rightarrow> real" where
  "safe_divide num den = (if \<bar>den\<bar> < k_eps then 0 else num / den)"

definition normalize_range :: "real \<Rightarrow> real \<Rightarrow> real \<Rightarrow> real" where
  "normalize_range v lo hi = (if hi \<le> lo then 0 else (v - lo) / (hi - lo))"

definition map_range :: "real \<Rightarrow> real \<Rightarrow> real \<Rightarrow> real \<Rightarrow> real \<Rightarrow> real" where
  "map_range v from_min from_max to_min to_max =
     (let n = normalize_range v from_min from_max in to_min + n * (to_max - to_min))"

definition z_ranges_overlap :: "real \<Rightarrow> real \<Rightarrow> real \<Rightarrow> real \<Rightarrow> bool" where
  "z_ranges_overlap a_min a_max b_min b_max =
     (let (a0, a1) = (if a_min > a_max then (a_max, a_min) else (a_min, a_max));
          (b0, b1) = (if b_min > b_max then (b_max, b_min) else (b_min, b_max))
      in a0 \<le> b1 \<and> a1 \<ge> b0)"

lemma rad_deg_roundtrip: "rad_to_deg (deg_to_rad d) = d"
  by (simp add: rad_to_deg_def deg_to_rad_def)

lemma z_ranges_overlap_common:
  "z_ranges_overlap a b c d \<longleftrightarrow>
     (\<exists>z. min a b \<le> z \<and> z \<le> max a b \<and> min c d \<le> z \<and> z \<le> max c d)"
proof
  assume "z_ranges_overlap a b c d"
  then have "min a b \<le> max (min a b) (min c d) \<and> max (min a b) (min c d) \<le> max a b \<and>
      min c d \<le> max (min a b) (min c d) \<and> max (min a b) (min c d) \<le> max c d"
    by (auto simp: z_ranges_overlap_def split: if_splits)
  then show "\<exists>z. min a b \<le> z \<and> z \<le> max a b \<and> min c d \<le> z \<and> z \<le> max c d" by blast
qed (auto simp: z_ranges_overlap_def split: if_splits)

lemma z_ranges_overlap_sym: "z_ranges_overlap a b c d = z_ranges_overlap c d a b"
  unfolding z_ranges_overlap_common by auto

section \<open>Edges\<close>

text \<open>The pairs \<open>(poly[i], poly[(i + 1) % n])\<close>, and the pairs \<open>(poly[i], poly[j])\<close> of the loops with \<open>j = i++\<close>.\<close>

definition edges_next :: "point2 list \<Rightarrow> (point2 \<times> point2) list" where
  "edges_next v = zip v (rotate1 v)"

definition edges_prev :: "point2 list \<Rightarrow> (point2 \<times> point2) list" where
  "edges_prev v = (if v = [] then [] else zip v (last v # butlast v))"

lemma edges_next_nth:
  assumes "i < length v" shows "edges_next v ! i = (v ! i, v ! (Suc i mod length v))"
  using assms by (simp add: edges_next_def nth_rotate1)

lemma length_edges_next [simp]: "length (edges_next v) = length v"
  by (simp add: edges_next_def)

definition cross_product :: "vec2 \<Rightarrow> vec2 \<Rightarrow> real" where
  "cross_product a b = vx a * vy b - vy a * vx b"

definition point_on_segment :: "point2 \<Rightarrow> point2 \<Rightarrow> point2 \<Rightarrow> bool" where
  "point_on_segment s1 s2 p =
     (if \<bar>cross_product (point_sub s2 s1) (point_sub p s1)\<bar> > k_eps then False
      else let minx = min (px s1) (px s2) - k_eps; maxx = max (px s1) (px s2) + k_eps;
               miny = min (py s1) (py s2) - k_eps; maxy = max (py s1) (py s2) + k_eps
           in px p \<ge> minx \<and> px p \<le> maxx \<and> py p \<ge> miny \<and> py p \<le> maxy)"

definition edge_normal :: "point2 \<Rightarrow> point2 \<Rightarrow> vec2" where
  "edge_normal a b =
     (let edge = point_sub b a; lsq = vec_length_sq edge
      in if lsq \<le> k_eps then vec 0 0
         else let n = vec (- vy edge) (vx edge); len = vec_length n
              in if len \<le> k_eps then vec 0 0 else vec_div n len)"

definition centroid :: "point2 list \<Rightarrow> point2" where
  "centroid poly =
     (let s = fold (\<lambda>p acc. vec_add acc (vec (px p) (py p))) poly (vec 0 0);
          s = (if poly = [] then s else vec_div s (real (length poly)))
      in pt (vx s) (vy s))"

lemma edge_normal_unit:
  "edge_normal a b = vec 0 0 \<or> vec_length_sq (edge_normal a b) = 1"
proof -
  define n where "n = vec (- vy (point_sub b a)) (vx (point_sub b a))"
  show ?thesis
  proof (cases "vec_length_sq (point_sub b a) \<le> k_eps \<or> vec_length n \<le> k_eps")
    case True
    then show ?thesis by (auto simp: edge_normal_def Let_def n_def)
  next
    case False
    then have e: "edge_normal a b = vec_normalized n" and l: "vec_length n > k_eps"
      by (auto simp: edge_normal_def Let_def n_def vec_normalized_def)
    from vec_normalized_length[OF l] have "vec_length_sq (vec_normalized n) = 1"
      by (metis vec_length_square mult_1)
    then show ?thesis by (simp add: e)
  qed
qed

section \<open>Closest points\<close>

definition closest_point_on_segment :: "point2 \<Rightarrow> point2 \<Rightarrow> point2 \<Rightarrow> point2" where
  "closest_point_on_segment a b p =
     (let ab = point_sub b a; ab_len_sq = vec_length_sq ab
      in if ab_len_sq \<le> k_eps then a
         else let t = clamp (vec_dot (point_sub p a) ab / ab_len_sq) 0 1
              in pt (px a + vx ab * t) (py a + vy ab * t))"

definition closest_step :: "point2 \<Rightarrow> point2 \<times> point2 \<Rightarrow> point2 \<times> real \<Rightarrow> point2 \<times> real" where
  "closest_step p e st =
     (let cand = closest_point_on_segment (fst e) (snd e) p; d = distance_sq cand p
      in if d < snd st then (cand, d) else st)"

definition closest_point_on_polygon :: "point2 list \<Rightarrow> point2 \<Rightarrow> point2" where
  "closest_point_on_polygon poly p =
     (case poly of [] \<Rightarrow> p
      | front # _ \<Rightarrow> fst (fold (closest_step p) (edges_next poly) (front, distance_sq front p)))"

text \<open>The segment from \<open>a\<close> to \<open>b\<close>, by its parameter.\<close>

definition segment_at :: "point2 \<Rightarrow> point2 \<Rightarrow> real \<Rightarrow> point2" where
  "segment_at a b t = pt (px a + (px b - px a) * t) (py a + (py b - py a) * t)"

lemma closest_point_on_segment_minimal:
  assumes len: "vec_length_sq (point_sub b a) > k_eps" and u: "0 \<le> u" "u \<le> 1"
  shows "distance_sq (closest_point_on_segment a b p) p \<le> distance_sq (segment_at a b u) p"
proof -
  define L where "L = vec_length_sq (point_sub b a)"
  define D where "D = vec_dot (point_sub p a) (point_sub b a)"
  define t where "t = clamp (D / L) 0 1"
  have L: "L > 0" using len by (simp add: L_def k_eps_def)
  have t: "0 \<le> t" "t \<le> 1" using clamp_bounds[of 0 1 "D / L"] by (auto simp: t_def)
  have expand: "distance_sq (segment_at a b w) p = vec_length_sq (point_sub p a) - 2 * w * D + w * w * L" for w
    unfolding L_def D_def by (simp add: geom_simps segment_at_def algebra_simps)
  have eq: "closest_point_on_segment a b p = segment_at a b t"
    using len by (simp add: closest_point_on_segment_def segment_at_def t_def D_def L_def Let_def
        point_sub_def)
  have "(u - t) * ((u + t) * L - 2 * D) \<ge> 0"
  proof -
    consider "D / L < 0" | "1 < D / L" | "0 \<le> D / L" "D / L \<le> 1" by linarith
    then show ?thesis
    proof cases
      case 1
      then have t0: "t = 0" and D: "D < 0" using L by (auto simp: t_def clamp_def divide_less_0_iff)
      have "0 \<le> u * L" using u L by simp
      with D have "0 \<le> u * (u * L - 2 * D)" using u by (intro mult_nonneg_nonneg) auto
      with t0 show ?thesis by simp
    next
      case 2
      then have t1: "t = 1" by (simp add: t_def clamp_def)
      from 2 have "L < D" using L by (simp add: pos_less_divide_eq)
      moreover have "(u + 1) * L \<le> 2 * L" using u L by (intro mult_right_mono) auto
      ultimately have "(u - 1) * ((u + 1) * L - 2 * D) \<ge> 0"
        using u by (intro mult_nonpos_nonpos) auto
      then show ?thesis by (simp add: t1)
    next
      case 3
      then have "t = D / L" by (simp add: t_def clamp_def)
      then have "D = t * L" using L by simp
      then have "(u - t) * ((u + t) * L - 2 * D) = (u - t) * (u - t) * L" by (simp add: algebra_simps)
      moreover have "0 \<le> (u - t) * (u - t) * L" using L by simp
      ultimately show ?thesis by linarith
    qed
  qed
  then have "t * t * L - 2 * t * D \<le> u * u * L - 2 * u * D" by (simp add: algebra_simps)
  then show ?thesis unfolding eq expand by simp
qed

lemma closest_fold_min:
  assumes "snd st = distance_sq (fst st) p"
  shows "let r = fold (closest_step p) es st in
    snd r = distance_sq (fst r) p \<and> snd r \<le> snd st \<and>
    (\<forall>e \<in> set es. snd r \<le> distance_sq (closest_point_on_segment (fst e) (snd e) p) p)"
  using assms
proof (induction es arbitrary: st)
  case (Cons e es)
  let ?st = "closest_step p e st"
  have inv: "snd ?st = distance_sq (fst ?st) p" and le: "snd ?st \<le> snd st"
    "snd ?st \<le> distance_sq (closest_point_on_segment (fst e) (snd e) p) p"
    using Cons.prems by (auto simp: closest_step_def Let_def)
  from Cons.IH[OF inv] le show ?case by (auto simp: Let_def)
qed simp

section \<open>Parity test and occlusion\<close>

definition parity_flip :: "real \<Rightarrow> point2 \<Rightarrow> point2 \<times> point2 \<Rightarrow> bool \<Rightarrow> bool" where
  "parity_flip eps p e inside =
     (let p_i = fst e; p_j = snd e;
          intersect = ((py p_i > py p) \<noteq> (py p_j > py p)) \<and>
            px p < (px p_j - px p_i) * (py p - py p_i) / ((py p_j - py p_i) + eps) + px p_i
      in if intersect then \<not> inside else inside)"

definition point_in_polygon :: "point2 list \<Rightarrow> point2 \<Rightarrow> bool" where
  "point_in_polygon poly p =
     (if poly = [] then False else fold (parity_flip k_eps p) (edges_prev poly) False)"

definition segment_intersects_circle :: "point2 \<Rightarrow> point2 \<Rightarrow> point2 \<Rightarrow> real \<Rightarrow> bool" where
  "segment_intersects_circle st en center radius =
     (if radius \<le> 0 then False
      else let dx = px en - px st; dy = py en - py st; seg_len2 = dx * dx + dy * dy
           in if seg_len2 \<le> 1 / 1000000 then False
              else let t = ((px center - px st) * dx + (py center - py st) * dy) / seg_len2
                   in if t \<le> 0 \<or> t \<ge> 1 then False
                      else let closest_x = px st + t * dx; closest_y = py st + t * dy;
                               dist_x = px center - closest_x; dist_y = py center - closest_y;
                               dist2 = dist_x * dist_x + dist_y * dist_y
                           in if dist2 > radius * radius then False
                              else let center_dist2 = (px center - px st) * (px center - px st)
                                         + (py center - py st) * (py center - py st);
                                       candidate_dist2 = (px en - px st) * (px en - px st)
                                         + (py en - py st) * (py en - py st)
                                   in center_dist2 < candidate_dist2)"

lemma segment_intersects_circle_sound:
  assumes "segment_intersects_circle st en c r"
  shows "\<exists>t. 0 < t \<and> t < 1 \<and> distance (segment_at st en t) c \<le> r"
proof -
  define dx where "dx = px en - px st"
  define dy where "dy = py en - py st"
  define t where "t = ((px c - px st) * dx + (py c - py st) * dy) / (dx * dx + dy * dy)"
  have r: "r > 0" and t: "0 < t" "t < 1"
    and d: "(px c - (px st + t * dx)) * (px c - (px st + t * dx)) +
            (py c - (py st + t * dy)) * (py c - (py st + t * dy)) \<le> r * r"
    using assms unfolding segment_intersects_circle_def Let_def dx_def[symmetric] dy_def[symmetric]
      t_def[symmetric] by (auto split: if_splits)
  have "distance_sq (segment_at st en t) c \<le> r\<^sup>2"
    using d by (simp add: geom_simps segment_at_def dx_def dy_def power2_eq_square algebra_simps)
  then have "distance (segment_at st en t) c \<le> r" using r by (simp add: distance_le_iff)
  with t show ?thesis by blast
qed

end
