(* ===== verification/Ackermann.thy ===== *)
theory Ackermann
  imports Planar
begin

text \<open>
  The vehicle model: \<^verbatim>\<open>core/kinematics/*.hpp\<close>, \<^verbatim>\<open>kinematics/ackermann.hpp\<close> and
  \<^verbatim>\<open>ackermann.cpp\<close>. One step applies the speed command under the gear and slew limits, the
  steering command under its rate limit, and integrates the pose by the midpoint rule.
\<close>

record motion_caps =
  max_speed :: real
  max_accel :: real
  max_decel :: real
  cmd_rate_hz :: real
  cmd_delay_s :: real
  accel_noise_std :: real
  steer_noise_std :: real

record ackermann_caps =
  caps_fwd :: motion_caps
  caps_rev :: motion_caps
  wheel_base :: real
  max_steer_angle :: real
  max_steer_rate :: real
  min_turn_radius :: real
  gear_hold_time_s :: real

record ackermann_command =
  cmd_steer :: real
  cmd_speed :: real
  cmd_reverse :: bool

record ackermann_state =
  ack_pose :: pose2
  speed :: real
  steering :: real

record ackermann_model =
  caps :: ackermann_caps
  state :: ackermann_state
  reverse_gear :: bool
  gear_hold_remaining_s :: real

definition zero_pose :: pose2 where
  "zero_pose = \<lparr>pos = pt 0 0, yaw = 0\<rparr>"

definition make_model :: "ackermann_caps \<Rightarrow> ackermann_model" where
  "make_model c = \<lparr>caps = c, state = \<lparr>ack_pose = zero_pose, speed = 0, steering = 0\<rparr>,
     reverse_gear = False, gear_hold_remaining_s = 0\<rparr>"

definition ackermann_reset :: "ackermann_state \<Rightarrow> ackermann_model \<Rightarrow> ackermann_model" where
  "ackermann_reset s m = m\<lparr>state := s, reverse_gear := (speed s < 0), gear_hold_remaining_s := 0\<rparr>"

definition gear_hold_time_remaining :: "ackermann_model \<Rightarrow> real" where
  "gear_hold_time_remaining m = max 0 (gear_hold_remaining_s m)"

definition select_gear :: "real \<Rightarrow> real \<Rightarrow> bool \<Rightarrow> ackermann_model \<Rightarrow> ackermann_model" where
  "select_gear dt_s desired_speed reverse_gear_cmd m =
     (let hold = (if gear_hold_remaining_s m > 0 then max 0 (gear_hold_remaining_s m - dt_s)
                  else gear_hold_remaining_s m)
      in if desired_speed > 0 \<and> reverse_gear_cmd \<noteq> reverse_gear m \<and> hold \<le> 0
         then m\<lparr>reverse_gear := reverse_gear_cmd,
                gear_hold_remaining_s := max 0 (gear_hold_time_s (caps m))\<rparr>
         else m\<lparr>gear_hold_remaining_s := hold\<rparr>)"

definition target_speed_of :: "real \<Rightarrow> ackermann_model \<Rightarrow> real" where
  "target_speed_of desired_speed m =
     (let signed_desired = (if reverse_gear m then - desired_speed else desired_speed)
      in if signed_desired \<ge> 0 then clamp signed_desired 0 (max_speed (caps_fwd (caps m)))
         else clamp signed_desired (- max_speed (caps_rev (caps m))) 0)"

definition apply_speed_command :: "real \<Rightarrow> real \<Rightarrow> bool \<Rightarrow> ackermann_model \<Rightarrow> ackermann_model" where
  "apply_speed_command dt_s desired_speed0 reverse_gear_cmd m0 =
     (let desired_speed = max 0 desired_speed0;
          m = select_gear dt_s desired_speed reverse_gear_cmd m0;
          fwd = caps_fwd (caps m); rev = caps_rev (caps m);
          v = speed (state m);
          speed_error = target_speed_of desired_speed m - v;
          accel_limit_pos = (if v \<ge> 0 then max_accel fwd else max_decel rev);
          accel_limit_neg = (if v \<ge> 0 then - max_decel fwd else - max_accel rev);
          accel = clamp (speed_error / dt_s) accel_limit_neg accel_limit_pos;
          v1 = v + accel * dt_s;
          v2 = (if v1 \<ge> 0 then clamp v1 0 (max_speed fwd) else clamp v1 (- max_speed rev) 0)
      in m\<lparr>state := (state m)\<lparr>speed := v2\<rparr>\<rparr>)"

definition apply_steering_command :: "real \<Rightarrow> real \<Rightarrow> ackermann_model \<Rightarrow> ackermann_model" where
  "apply_steering_command dt_s desired_steering m =
     (let limit = max_steer_angle (caps m);
          target_steering = clamp desired_steering (- limit) limit;
          steer_error = target_steering - steering (state m);
          max_delta_steer = max_steer_rate (caps m) * dt_s;
          delta_steer = clamp steer_error (- max_delta_steer) max_delta_steer
      in m\<lparr>state := (state m)\<lparr>steering := clamp (steering (state m) + delta_steer) (- limit) limit\<rparr>\<rparr>)"

definition integrate_pose :: "real \<Rightarrow> ackermann_model \<Rightarrow> ackermann_model" where
  "integrate_pose dt_s m =
     (let v = speed (state m); theta = yaw (ack_pose (state m)); delta = steering (state m);
          l = wheel_base (caps m);
          omega = (if \<bar>delta\<bar> < 1 / 1000000 then 0 else (v / l) * tan delta);
          theta_mid = theta + 1/2 * omega * dt_s;
          dx = v * cos theta_mid * dt_s; dy = v * sin theta_mid * dt_s; dtheta = omega * dt_s;
          p = pos (ack_pose (state m))
      in m\<lparr>state := (state m)\<lparr>ack_pose :=
             \<lparr>pos = pt (px p + dx) (py p + dy), yaw = wrap_up (wrap_down (theta + dtheta))\<rparr>\<rparr>\<rparr>)"

definition ackermann_step :: "real \<Rightarrow> ackermann_command \<Rightarrow> ackermann_model \<Rightarrow> ackermann_model" where
  "ackermann_step dt_s cmd m =
     integrate_pose dt_s (apply_steering_command dt_s (cmd_steer cmd)
       (apply_speed_command dt_s (cmd_speed cmd) (cmd_reverse cmd) m))"

section \<open>The envelope\<close>

definition caps_ok :: "ackermann_caps \<Rightarrow> bool" where
  "caps_ok c \<longleftrightarrow> 0 \<le> max_speed (caps_fwd c) \<and> 0 \<le> max_speed (caps_rev c) \<and>
     0 \<le> max_accel (caps_fwd c) \<and> 0 \<le> max_accel (caps_rev c) \<and>
     0 \<le> max_decel (caps_fwd c) \<and> 0 \<le> max_decel (caps_rev c) \<and>
     0 \<le> max_steer_angle c \<and> 0 \<le> max_steer_rate c"

definition ackermann_inv :: "ackermann_model \<Rightarrow> bool" where
  "ackermann_inv m \<longleftrightarrow>
     - max_speed (caps_rev (caps m)) \<le> speed (state m) \<and> speed (state m) \<le> max_speed (caps_fwd (caps m)) \<and>
     \<bar>steering (state m)\<bar> \<le> max_steer_angle (caps m) \<and>
     - pi \<le> yaw (ack_pose (state m)) \<and> yaw (ack_pose (state m)) \<le> pi \<and>
     0 \<le> gear_hold_remaining_s m"

lemma select_gear_keeps [simp]:
  "state (select_gear dt d r m) = state m" "caps (select_gear dt d r m) = caps m"
  by (simp_all add: select_gear_def Let_def)

lemma apply_speed_keeps [simp]:
  "caps (apply_speed_command dt d r m) = caps m"
  "ack_pose (state (apply_speed_command dt d r m)) = ack_pose (state m)"
  "steering (state (apply_speed_command dt d r m)) = steering (state m)"
  "reverse_gear (apply_speed_command dt d r m) = reverse_gear (select_gear dt (max 0 d) r m)"
  "gear_hold_remaining_s (apply_speed_command dt d r m) = gear_hold_remaining_s (select_gear dt (max 0 d) r m)"
  by (simp_all add: apply_speed_command_def Let_def)

lemma apply_steering_keeps [simp]:
  "caps (apply_steering_command dt d m) = caps m"
  "ack_pose (state (apply_steering_command dt d m)) = ack_pose (state m)"
  "speed (state (apply_steering_command dt d m)) = speed (state m)"
  "reverse_gear (apply_steering_command dt d m) = reverse_gear m"
  "gear_hold_remaining_s (apply_steering_command dt d m) = gear_hold_remaining_s m"
  by (simp_all add: apply_steering_command_def Let_def)

lemma integrate_pose_keeps [simp]:
  "caps (integrate_pose dt m) = caps m"
  "speed (state (integrate_pose dt m)) = speed (state m)"
  "steering (state (integrate_pose dt m)) = steering (state m)"
  "reverse_gear (integrate_pose dt m) = reverse_gear m"
  "gear_hold_remaining_s (integrate_pose dt m) = gear_hold_remaining_s m"
  by (simp_all add: integrate_pose_def Let_def)

lemma integrate_pose_yaw: "- pi \<le> yaw (ack_pose (state (integrate_pose dt m))) \<and>
    yaw (ack_pose (state (integrate_pose dt m))) \<le> pi"
  using wrap_up_ge wrap_up_le[OF wrap_down_le] by (simp add: integrate_pose_def Let_def)

lemma target_speed_bounds:
  assumes "caps_ok (caps m)"
  shows "- max_speed (caps_rev (caps m)) \<le> target_speed_of d m \<and>
     target_speed_of d m \<le> max_speed (caps_fwd (caps m))"
  using assms by (auto simp: target_speed_of_def caps_ok_def clamp_def Let_def)

text \<open>A slew towards a target never passes it and never moves faster than the limits.\<close>

lemma slew:
  fixes v dt lo hi target :: real
  assumes "0 < dt" "lo \<le> 0" "0 \<le> hi"
  defines "w \<equiv> v + clamp ((target - v) / dt) lo hi * dt"
  shows "min v target \<le> w \<and> w \<le> max v target \<and> lo * dt \<le> w - v \<and> w - v \<le> hi * dt"
proof -
  consider "(target - v) / dt < lo" | "hi < (target - v) / dt"
    | "lo \<le> (target - v) / dt" "(target - v) / dt \<le> hi" by linarith
  then show ?thesis
  proof cases
    case 1
    then have w: "w = v + lo * dt" by (simp add: w_def clamp_def)
    have "target - v < lo * dt" using 1 assms(1) by (simp add: pos_divide_less_eq)
    moreover have "lo * dt \<le> 0" "0 \<le> hi * dt" using assms by (auto simp: mult_nonpos_nonneg)
    ultimately show ?thesis using w by auto
  next
    case 2
    then have w: "w = v + hi * dt" using assms by (simp add: w_def clamp_def)
    have "hi * dt < target - v" using 2 assms(1) by (simp add: pos_less_divide_eq)
    moreover have "lo * dt \<le> 0" "0 \<le> hi * dt" using assms by (auto simp: mult_nonpos_nonneg)
    ultimately show ?thesis using w by auto
  next
    case 3
    then have w: "w = target" using assms(1) by (simp add: w_def clamp_def)
    have "lo * dt \<le> target - v" "target - v \<le> hi * dt" using 3 assms(1)
      by (simp_all add: pos_le_divide_eq pos_divide_le_eq)
    then show ?thesis using w by auto
  qed
qed

lemma apply_speed_spec:
  fixes d :: real and r :: bool
  assumes "caps_ok (caps m)" "0 < dt"
    and "- max_speed (caps_rev (caps m)) \<le> speed (state m)" "speed (state m) \<le> max_speed (caps_fwd (caps m))"
  defines "v \<equiv> speed (state m)" and "w \<equiv> speed (state (apply_speed_command dt d r m))"
    and "tgt \<equiv> target_speed_of (max 0 d) (select_gear dt (max 0 d) r m)"
  shows "min v tgt \<le> w \<and> w \<le> max v tgt \<and>
     (if v \<ge> 0 then - max_decel (caps_fwd (caps m)) * dt \<le> w - v \<and> w - v \<le> max_accel (caps_fwd (caps m)) * dt
      else - max_accel (caps_rev (caps m)) * dt \<le> w - v \<and> w - v \<le> max_decel (caps_rev (caps m)) * dt)"
proof -
  let ?hi = "if v \<ge> 0 then max_accel (caps_fwd (caps m)) else max_decel (caps_rev (caps m))"
  let ?lo = "if v \<ge> 0 then - max_decel (caps_fwd (caps m)) else - max_accel (caps_rev (caps m))"
  define w0 where "w0 = v + clamp ((tgt - v) / dt) ?lo ?hi * dt"
  have "?lo \<le> 0" "0 \<le> ?hi" using assms(1) by (auto simp: caps_ok_def)
  from slew[OF assms(2) this, of v tgt]
  have w0: "min v tgt \<le> w0" "w0 \<le> max v tgt" "?lo * dt \<le> w0 - v" "w0 - v \<le> ?hi * dt"
    by (auto simp: w0_def)
  have t: "- max_speed (caps_rev (caps m)) \<le> tgt" "tgt \<le> max_speed (caps_fwd (caps m))"
    using target_speed_bounds[of "select_gear dt (max 0 d) r m" "max 0 d"] assms(1) by (auto simp: tgt_def)
  have "w = (if w0 \<ge> 0 then clamp w0 0 (max_speed (caps_fwd (caps m)))
      else clamp w0 (- max_speed (caps_rev (caps m))) 0)"
    by (simp add: w_def apply_speed_command_def Let_def w0_def v_def tgt_def)
  also have "\<dots> = w0"
    using w0(1,2) t assms(3,4) unfolding v_def[symmetric]
    by (auto simp: clamp_def min_def max_def split: if_splits)
  finally show ?thesis using w0 by (auto split: if_splits)
qed

lemma apply_steering_spec:
  assumes "caps_ok (caps m)" "0 \<le> dt" "\<bar>steering (state m)\<bar> \<le> max_steer_angle (caps m)"
  shows "\<bar>steering (state (apply_steering_command dt d m))\<bar> \<le> max_steer_angle (caps m) \<and>
    \<bar>steering (state (apply_steering_command dt d m)) - steering (state m)\<bar> \<le> max_steer_rate (caps m) * dt"
proof -
  have "0 \<le> max_steer_rate (caps m) * dt" "0 \<le> max_steer_angle (caps m)"
    using assms by (auto simp: caps_ok_def)
  then show ?thesis using assms(3) by (auto simp: apply_steering_command_def Let_def clamp_def)
qed

lemma select_gear_hold:
  assumes "0 \<le> gear_hold_remaining_s m" "0 \<le> dt"
  shows "0 \<le> gear_hold_remaining_s (select_gear dt d r m)"
  using assms by (auto simp: select_gear_def Let_def)

lemma select_gear_switch:
  assumes "reverse_gear (select_gear dt d r m) \<noteq> reverse_gear m" "0 \<le> gear_hold_remaining_s m"
  shows "reverse_gear (select_gear dt d r m) = r" "0 < d" "gear_hold_remaining_s m \<le> max 0 dt"
    "gear_hold_remaining_s (select_gear dt d r m) = max 0 (gear_hold_time_s (caps m))"
  using assms by (auto simp: select_gear_def Let_def split: if_splits)

lemma ackermann_step_inv [inv_intros]:
  assumes "caps_ok (caps m)" "0 < dt" "ackermann_inv m"
  shows "ackermann_inv (ackermann_step dt cmd m)"
proof -
  let ?m1 = "apply_speed_command dt (cmd_speed cmd) (cmd_reverse cmd) m"
  let ?m2 = "apply_steering_command dt (cmd_steer cmd) ?m1"
  have v: "- max_speed (caps_rev (caps m)) \<le> speed (state ?m1)" "speed (state ?m1) \<le> max_speed (caps_fwd (caps m))"
    using apply_speed_spec[OF assms(1,2), of "cmd_speed cmd" "cmd_reverse cmd"] assms(3)
      target_speed_bounds[of "select_gear dt (max 0 (cmd_speed cmd)) (cmd_reverse cmd) m" "max 0 (cmd_speed cmd)"]
      assms(1)
    by (auto simp: ackermann_inv_def min_def max_def split: if_splits)
  have s: "\<bar>steering (state ?m2)\<bar> \<le> max_steer_angle (caps m)"
    using apply_steering_spec[of ?m1 dt "cmd_steer cmd"] assms by (simp add: ackermann_inv_def)
  have h: "0 \<le> gear_hold_remaining_s (select_gear dt (max 0 (cmd_speed cmd)) (cmd_reverse cmd) m)"
    using assms by (intro select_gear_hold) (auto simp: ackermann_inv_def)
  show ?thesis using v s h integrate_pose_yaw[of dt ?m2]
    by (simp add: ackermann_inv_def ackermann_step_def)
qed

lemma ackermann_step_caps [simp]: "caps (ackermann_step dt cmd m) = caps m"
  by (simp add: ackermann_step_def)

section \<open>Properties\<close>

definition ackermann_run :: "(real \<times> ackermann_command) list \<Rightarrow> ackermann_model \<Rightarrow> ackermann_model" where
  "ackermann_run cmds m = fold (\<lambda>(dt, c) m. ackermann_step dt c m) cmds m"

lemma make_model_inv: "caps_ok c \<Longrightarrow> ackermann_inv (make_model c) \<and> caps (make_model c) = c"
  by (auto simp: ackermann_inv_def make_model_def caps_ok_def zero_pose_def)

lemma ackermann_run_inv:
  "caps_ok (caps m) \<Longrightarrow> ackermann_inv m \<Longrightarrow> \<forall>(dt, c) \<in> set cmds. 0 < dt \<Longrightarrow>
     ackermann_inv (ackermann_run cmds m) \<and> caps (ackermann_run cmds m) = caps m"
  unfolding ackermann_run_def
proof (induction cmds arbitrary: m)
  case (Cons c cmds)
  then show ?case using ackermann_step_inv[of m "fst c" "snd c"] Cons.IH[of "ackermann_step (fst c) (snd c) m"]
    by (simp add: case_prod_beta)
qed simp

definition demo_caps :: ackermann_caps where
  "demo_caps = (let m = \<lparr>max_speed = 3, max_accel = 1, max_decel = 2, cmd_rate_hz = 10, cmd_delay_s = 0,
       accel_noise_std = 0, steer_noise_std = 0\<rparr>
     in \<lparr>caps_fwd = m, caps_rev = m, wheel_base = 1, max_steer_angle = 1 / 2, max_steer_rate = 1,
         min_turn_radius = 2, gear_hold_time_s = 1\<rparr>)"

lemma demo_caps_ok: "caps_ok demo_caps"
  by (simp add: caps_ok_def demo_caps_def Let_def)

text \<open>C7: Under every sequence of commands the vehicle keeps its speed between the reverse and the
  forward limit, its steering angle within the limit and its heading normalized.\<close>

theorem ackermann_stays_in_envelope:
  assumes "caps_ok c" "\<forall>(dt, cmd) \<in> set cmds. 0 < dt"
  shows "let m = ackermann_run cmds (make_model c) in
     - max_speed (caps_rev c) \<le> speed (state m) \<and> speed (state m) \<le> max_speed (caps_fwd c) \<and>
     \<bar>steering (state m)\<bar> \<le> max_steer_angle c \<and>
     - pi \<le> yaw (ack_pose (state m)) \<and> yaw (ack_pose (state m)) \<le> pi"
proof -
  have "caps_ok (caps (make_model c))" "ackermann_inv (make_model c)" using make_model_inv[OF assms(1)] assms by auto
  from ackermann_run_inv[OF this assms(2)]
  have run: "ackermann_inv (ackermann_run cmds (make_model c))" "caps (ackermann_run cmds (make_model c)) = c"
    using make_model_inv[OF assms(1)] by auto
  from run(1) show ?thesis unfolding ackermann_inv_def run(2) Let_def by blast
qed

theorem ackermann_stays_in_envelope_witness:
  "speed (state (ackermann_run [(1, \<lparr>cmd_steer = 9, cmd_speed = 99, cmd_reverse = False\<rparr>),
     (5, \<lparr>cmd_steer = - 9, cmd_speed = 99, cmd_reverse = True\<rparr>)] (make_model demo_caps))) \<le> 3"
  using ackermann_stays_in_envelope[OF demo_caps_ok, of "[(1, \<lparr>cmd_steer = 9, cmd_speed = 99, cmd_reverse = False\<rparr>),
     (5, \<lparr>cmd_steer = - 9, cmd_speed = 99, cmd_reverse = True\<rparr>)]"]
  by (simp add: Let_def) (simp add: demo_caps_def Let_def)



end
