(* ===== verification/Spatial.thy ===== *)
theory Spatial
  imports Boxes
begin

text \<open>
  Space: the three-dimensional vectors and points of \<^verbatim>\<open>core/math/primitives.hpp\<close>,
  the quaternions of \<^verbatim>\<open>core/math/quaternion.hpp\<close> and the spatial poses of
  \<^verbatim>\<open>core/math/pose.hpp\<close>. Rotations are meant for unit quaternions; the lemmas say what
  holds for those: a pose applies as a rigid motion, composition and inverse are those of motions.
\<close>

section \<open>Vectors and points\<close>

record vec3 =
  v3x :: real
  v3y :: real
  v3z :: real

record point3 =
  p3x :: real
  p3y :: real
  p3z :: real

abbreviation vec_3 :: "real \<Rightarrow> real \<Rightarrow> real \<Rightarrow> vec3" where
  "vec_3 a b c \<equiv> \<lparr>v3x = a, v3y = b, v3z = c\<rparr>"

abbreviation pt_3 :: "real \<Rightarrow> real \<Rightarrow> real \<Rightarrow> point3" where
  "pt_3 a b c \<equiv> \<lparr>p3x = a, p3y = b, p3z = c\<rparr>"

definition vec3_scale :: "vec3 \<Rightarrow> real \<Rightarrow> vec3" where
  "vec3_scale v s = vec_3 (v3x v * s) (v3y v * s) (v3z v * s)"

definition vec3_div :: "vec3 \<Rightarrow> real \<Rightarrow> vec3" where
  "vec3_div v s = vec_3 (v3x v / s) (v3y v / s) (v3z v / s)"

definition vec3_dot :: "vec3 \<Rightarrow> vec3 \<Rightarrow> real" where
  "vec3_dot a b = v3x a * v3x b + v3y a * v3y b + v3z a * v3z b"

definition vec3_length :: "vec3 \<Rightarrow> real" where
  "vec3_length v = sqrt (vec3_dot v v)"

definition point3_add :: "point3 \<Rightarrow> vec3 \<Rightarrow> point3" where
  "point3_add p v = pt_3 (p3x p + v3x v) (p3y p + v3y v) (p3z p + v3z v)"

definition point3_sub :: "point3 \<Rightarrow> point3 \<Rightarrow> vec3" where
  "point3_sub a b = vec_3 (p3x a - p3x b) (p3y a - p3y b) (p3z a - p3z b)"

lemma vec3_eta [simp]: "vec_3 (v3x v) (v3y v) (v3z v) = v"
  by (cases v) simp

lemma pt3_eta [simp]: "pt_3 (p3x p) (p3y p) (p3z p) = p"
  by (cases p) simp

lemmas vec3_defs = vec3_scale_def vec3_div_def vec3_dot_def point3_add_def point3_sub_def

section \<open>Quaternions\<close>

record quaternion =
  qw :: real
  qx :: real
  qy :: real
  qz :: real

abbreviation quat :: "real \<Rightarrow> real \<Rightarrow> real \<Rightarrow> real \<Rightarrow> quaternion" where
  "quat w x y z \<equiv> \<lparr>qw = w, qx = x, qy = y, qz = z\<rparr>"

definition quat_normalize :: "quaternion \<Rightarrow> quaternion" where
  "quat_normalize q =
     (let n = sqrt (qw q * qw q + qx q * qx q + qy q * qy q + qz q * qz q)
      in if n = 0 then quat 1 0 0 0 else quat (qw q / n) (qx q / n) (qy q / n) (qz q / n))"

definition quat_multiply :: "quaternion \<Rightarrow> quaternion \<Rightarrow> quaternion" where
  "quat_multiply q r =
     quat (qw q * qw r - qx q * qx r - qy q * qy r - qz q * qz r)
       (qw q * qx r + qx q * qw r + qy q * qz r - qz q * qy r)
       (qw q * qy r - qx q * qz r + qy q * qw r + qz q * qx r)
       (qw q * qz r + qx q * qy r - qy q * qx r + qz q * qw r)"

definition quat_inverse :: "quaternion \<Rightarrow> quaternion" where
  "quat_inverse q = quat (qw q) (- qx q) (- qy q) (- qz q)"

definition quat_rotate :: "quaternion \<Rightarrow> vec3 \<Rightarrow> vec3" where
  "quat_rotate q v =
     (let xx = qx q * qx q; yy = qy q * qy q; zz = qz q * qz q; xy = qx q * qy q; xz = qx q * qz q;
          yz = qy q * qz q; wx = qw q * qx q; wy = qw q * qy q; wz = qw q * qz q
      in vec_3 ((1 - 2 * (yy + zz)) * v3x v + 2 * (xy - wz) * v3y v + 2 * (xz + wy) * v3z v)
           (2 * (xy + wz) * v3x v + (1 - 2 * (xx + zz)) * v3y v + 2 * (yz - wx) * v3z v)
           (2 * (xz - wy) * v3x v + 2 * (yz + wx) * v3y v + (1 - 2 * (xx + yy)) * v3z v))"

section \<open>Spatial poses\<close>

record pose3 =
  p3_t :: point3
  p3_q :: quaternion

definition pose3_identity :: pose3 where
  "pose3_identity = \<lparr>p3_t = pt_3 0 0 0, p3_q = quat 1 0 0 0\<rparr>"

definition to_vec3 :: "point3 \<Rightarrow> vec3" where
  "to_vec3 p = vec_3 (p3x p) (p3y p) (p3z p)"

definition to_point3 :: "vec3 \<Rightarrow> point3" where
  "to_point3 v = pt_3 (v3x v) (v3y v) (v3z v)"

definition pose3_apply :: "pose3 \<Rightarrow> point3 \<Rightarrow> point3" where
  "pose3_apply p a =
     (let rp = quat_rotate (p3_q p) (to_vec3 a)
      in pt_3 (v3x rp + p3x (p3_t p)) (v3y rp + p3y (p3_t p)) (v3z rp + p3z (p3_t p)))"

definition apply_to_vector :: "pose3 \<Rightarrow> vec3 \<Rightarrow> vec3" where
  "apply_to_vector p v = quat_rotate (p3_q p) v"

definition pose3_compose :: "pose3 \<Rightarrow> pose3 \<Rightarrow> pose3" where
  "pose3_compose p rhs =
     (let rt = quat_rotate (p3_q p) (to_vec3 (p3_t rhs))
      in \<lparr>p3_t = pt_3 (p3x (p3_t p) + v3x rt) (p3y (p3_t p) + v3y rt) (p3z (p3_t p) + v3z rt),
          p3_q = quat_normalize (quat_multiply (p3_q p) (p3_q rhs))\<rparr>)"

definition pose3_inverse :: "pose3 \<Rightarrow> pose3" where
  "pose3_inverse p =
     (let qi = quat_inverse (p3_q p)
      in \<lparr>p3_t = to_point3 (quat_rotate qi (vec_3 (- p3x (p3_t p)) (- p3y (p3_t p)) (- p3z (p3_t p)))), p3_q = qi\<rparr>)"

definition get_yaw :: "pose3 \<Rightarrow> real" where
  "get_yaw p = atan2 (2 * (qw (p3_q p) * qz (p3_q p) + qx (p3_q p) * qy (p3_q p)))
     (1 - 2 * (qy (p3_q p) * qy (p3_q p) + qz (p3_q p) * qz (p3_q p)))"

definition to_pose2 :: "pose3 \<Rightarrow> pose2" where
  "to_pose2 p = \<lparr>pos = pt (p3x (p3_t p)) (p3y (p3_t p)), yaw = get_yaw p\<rparr>"

definition to_pose3 :: "pose2 \<Rightarrow> pose3" where
  "to_pose3 p =
     (let half = yaw p * (1 / 2)
      in \<lparr>p3_t = pt_3 (px (pos p)) (py (pos p)) 0, p3_q = quat (cos half) 0 0 (sin half)\<rparr>)"

definition lerp1 :: "real \<Rightarrow> real \<Rightarrow> real \<Rightarrow> real" where
  "lerp1 u a b = a + (b - a) * u"

definition pose3_lerp :: "pose3 \<Rightarrow> pose3 \<Rightarrow> real \<Rightarrow> pose3" where
  "pose3_lerp a b u =
     (let t = pt_3 (lerp1 u (p3x (p3_t a)) (p3x (p3_t b))) (lerp1 u (p3y (p3_t a)) (p3y (p3_t b)))
                (lerp1 u (p3z (p3_t a)) (p3z (p3_t b)));
          dot = qw (p3_q a) * qw (p3_q b) + qx (p3_q a) * qx (p3_q b) + qy (p3_q a) * qy (p3_q b) + qz (p3_q a) * qz (p3_q b);
          (dot, bb) = (if dot < 0 then (- dot, quat (- qw (p3_q b)) (- qx (p3_q b)) (- qy (p3_q b)) (- qz (p3_q b)))
                       else (dot, p3_q b))
      in if 1 - dot < k_eps
         then \<lparr>p3_t = t, p3_q = quat_normalize (quat (lerp1 u (qw (p3_q a)) (qw bb)) (lerp1 u (qx (p3_q a)) (qx bb))
                 (lerp1 u (qy (p3_q a)) (qy bb)) (lerp1 u (qz (p3_q a)) (qz bb)))\<rparr>
         else let th = arccos dot; s = sin th; w1 = sin ((1 - u) * th) / s; w2 = sin (u * th) / s
              in \<lparr>p3_t = t, p3_q = quat_normalize (quat (qw (p3_q a) * w1 + qw bb * w2) (qx (p3_q a) * w1 + qx bb * w2)
                    (qy (p3_q a) * w1 + qy bb * w2) (qz (p3_q a) * w1 + qz bb * w2))\<rparr>)"

lemmas pose3_defs = pose3_apply_def apply_to_vector_def pose3_compose_def pose3_inverse_def to_vec3_def to_point3_def
  quat_inverse_def

section \<open>Unit quaternions\<close>

definition quat_norm_sq :: "quaternion \<Rightarrow> real" where
  "quat_norm_sq q = qw q * qw q + qx q * qx q + qy q * qy q + qz q * qz q"

abbreviation quat_unit :: "quaternion \<Rightarrow> bool" where
  "quat_unit q \<equiv> quat_norm_sq q = 1"

text \<open>The rotation with the norm written out, which is homogeneous of degree two.\<close>

definition sandwich :: "quaternion \<Rightarrow> vec3 \<Rightarrow> vec3" where
  "sandwich q v =
     vec_3 ((qw q * qw q + qx q * qx q - qy q * qy q - qz q * qz q) * v3x v + 2 * (qx q * qy q - qw q * qz q) * v3y v
              + 2 * (qx q * qz q + qw q * qy q) * v3z v)
       (2 * (qx q * qy q + qw q * qz q) * v3x v + (qw q * qw q - qx q * qx q + qy q * qy q - qz q * qz q) * v3y v
              + 2 * (qy q * qz q - qw q * qx q) * v3z v)
       (2 * (qx q * qz q - qw q * qy q) * v3x v + 2 * (qy q * qz q + qw q * qx q) * v3y v
              + (qw q * qw q - qx q * qx q - qy q * qy q + qz q * qz q) * v3z v)"

lemma rotate_sandwich:
  assumes "quat_unit q" shows "quat_rotate q v = sandwich q v"
proof -
  have "1 - 2 * (qy q * qy q + qz q * qz q) = qw q * qw q + qx q * qx q - qy q * qy q - qz q * qz q"
    "1 - 2 * (qx q * qx q + qz q * qz q) = qw q * qw q - qx q * qx q + qy q * qy q - qz q * qz q"
    "1 - 2 * (qx q * qx q + qy q * qy q) = qw q * qw q - qx q * qx q - qy q * qy q + qz q * qz q"
    using assms unfolding quat_norm_sq_def by (smt (verit))+
  then show ?thesis by (simp only: quat_rotate_def sandwich_def Let_def)
qed

lemma sandwich_multiply: "sandwich (quat_multiply p q) v = sandwich p (sandwich q v)"
  by (simp add: sandwich_def quat_multiply_def) (simp add: algebra_simps)

lemma norm_multiply: "quat_norm_sq (quat_multiply p q) = quat_norm_sq p * quat_norm_sq q"
  by (simp add: quat_norm_sq_def quat_multiply_def algebra_simps)

lemma norm_inverse [simp]: "quat_norm_sq (quat_inverse q) = quat_norm_sq q"
  by (simp add: quat_norm_sq_def quat_inverse_def)

lemma sandwich_one: "quat_norm_sq q = 1 \<Longrightarrow> qx q = 0 \<Longrightarrow> qy q = 0 \<Longrightarrow> qz q = 0 \<Longrightarrow> sandwich q v = v"
  by (simp add: sandwich_def quat_norm_sq_def)

lemma normalize_unit [simp]: "quat_unit (quat_normalize q)"
proof (cases "quat_norm_sq q = 0")
  case True
  then show ?thesis by (simp add: quat_normalize_def quat_norm_sq_def)
next
  case False
  have pos: "0 \<le> quat_norm_sq q" by (simp add: quat_norm_sq_def)
  have n: "sqrt (quat_norm_sq q) * sqrt (quat_norm_sq q) = quat_norm_sq q" using pos by simp
  have "quat_normalize q = (let n = sqrt (quat_norm_sq q) in quat (qw q / n) (qx q / n) (qy q / n) (qz q / n))"
    using False by (simp add: quat_normalize_def quat_norm_sq_def Let_def)
  then have "quat_norm_sq (quat_normalize q) = quat_norm_sq q / (sqrt (quat_norm_sq q) * sqrt (quat_norm_sq q))"
    by (simp add: Let_def quat_norm_sq_def add_divide_distrib del: real_sqrt_mult_self)
  then show ?thesis using False n by simp
qed

lemma normalize_id: "quat_unit q \<Longrightarrow> quat_normalize q = q"
  by (simp add: quat_normalize_def quat_norm_sq_def)

lemma rotate_multiply:
  "quat_unit p \<Longrightarrow> quat_unit q \<Longrightarrow> quat_rotate (quat_multiply p q) v = quat_rotate p (quat_rotate q v)"
  by (simp add: rotate_sandwich norm_multiply sandwich_multiply)

lemma rotate_inverse:
  assumes "quat_unit q"
  shows "quat_rotate (quat_inverse q) (quat_rotate q v) = v" "quat_rotate q (quat_rotate (quat_inverse q) v) = v"
proof -
  have a: "qx (quat_multiply (quat_inverse q) q) = 0" "qy (quat_multiply (quat_inverse q) q) = 0"
    "qz (quat_multiply (quat_inverse q) q) = 0" "qx (quat_multiply q (quat_inverse q)) = 0"
    "qy (quat_multiply q (quat_inverse q)) = 0" "qz (quat_multiply q (quat_inverse q)) = 0"
    by (simp_all add: quat_multiply_def quat_inverse_def)
  show "quat_rotate (quat_inverse q) (quat_rotate q v) = v" "quat_rotate q (quat_rotate (quat_inverse q) v) = v"
    using assms a by (simp_all add: rotate_sandwich sandwich_multiply[symmetric] sandwich_one norm_multiply)
qed

lemma rotate_length: "quat_unit q \<Longrightarrow> vec3_dot (quat_rotate q v) (quat_rotate q v) = vec3_dot v v"
proof -
  assume u: "quat_unit q"
  have "vec3_dot (sandwich q v) (sandwich q v) = quat_norm_sq q * quat_norm_sq q * vec3_dot v v"
    by (simp add: vec3_dot_def sandwich_def quat_norm_sq_def) (simp add: algebra_simps)
  then show ?thesis by (simp add: rotate_sandwich u)
qed

lemma rotate_add: "quat_rotate q (vec_3 (a + a') (b + b') (c + c')) =
   vec_3 (v3x (quat_rotate q (vec_3 a b c)) + v3x (quat_rotate q (vec_3 a' b' c')))
     (v3y (quat_rotate q (vec_3 a b c)) + v3y (quat_rotate q (vec_3 a' b' c')))
     (v3z (quat_rotate q (vec_3 a b c)) + v3z (quat_rotate q (vec_3 a' b' c')))"
  by (simp add: quat_rotate_def Let_def algebra_simps)

section \<open>Rigid motions\<close>

abbreviation rigid :: "pose3 \<Rightarrow> bool" where
  "rigid p \<equiv> quat_unit (p3_q p)"

lemma identity_rigid [simp]: "rigid pose3_identity"
  by (simp add: pose3_identity_def quat_norm_sq_def)

lemma compose_rigid [simp]: "rigid (pose3_compose p q)"
  by (simp add: pose3_compose_def Let_def)

lemma inverse_rigid [simp]: "rigid p \<Longrightarrow> rigid (pose3_inverse p)"
  by (simp add: pose3_inverse_def Let_def)

lemma lerp_rigid [simp]: "rigid (pose3_lerp a b u)"
  by (simp add: pose3_lerp_def Let_def)

lemma apply_identity [simp]: "pose3_apply pose3_identity a = a"
  by (simp add: pose3_apply_def pose3_identity_def quat_rotate_def to_vec3_def)

lemma apply_compose:
  assumes "rigid p" "rigid q"
  shows "pose3_apply (pose3_compose p q) a = pose3_apply p (pose3_apply q a)"
proof -
  have n: "quat_normalize (quat_multiply (p3_q p) (p3_q q)) = quat_multiply (p3_q p) (p3_q q)"
    using assms by (simp add: normalize_id norm_multiply)
  show ?thesis
    by (simp add: pose3_apply_def pose3_compose_def Let_def n rotate_multiply[OF assms] to_vec3_def rotate_add
        add.commute add.left_commute)
qed

lemma apply_inverse:
  assumes "rigid p"
  shows "pose3_apply (pose3_inverse p) (pose3_apply p a) = a" "pose3_apply p (pose3_apply (pose3_inverse p) a) = a"
proof -
  let ?q = "p3_q p" and ?t = "p3_t p"
  have lin: "quat_rotate q (vec_3 (v3x v + x) (v3y v + y) (v3z v + z)) =
      vec_3 (v3x (quat_rotate q v) + v3x (quat_rotate q (vec_3 x y z)))
        (v3y (quat_rotate q v) + v3y (quat_rotate q (vec_3 x y z)))
        (v3z (quat_rotate q v) + v3z (quat_rotate q (vec_3 x y z)))" for q v x y z
    using rotate_add[of q "v3x v" x "v3y v" y "v3z v" z] by (simp add: vec3_eta)
  have neg: "quat_rotate q (vec_3 (- x) (- y) (- z)) = vec_3 (- v3x (quat_rotate q (vec_3 x y z)))
      (- v3y (quat_rotate q (vec_3 x y z))) (- v3z (quat_rotate q (vec_3 x y z)))" for q x y z
    by (simp add: quat_rotate_def Let_def algebra_simps)
  have rotate_diff: "quat_rotate q (vec_3 (v3x v - x) (v3y v - y) (v3z v - z)) =
      vec_3 (v3x (quat_rotate q v) - v3x (quat_rotate q (vec_3 x y z)))
        (v3y (quat_rotate q v) - v3y (quat_rotate q (vec_3 x y z)))
        (v3z (quat_rotate q v) - v3z (quat_rotate q (vec_3 x y z)))" for q v x y z
    by (simp add: quat_rotate_def Let_def algebra_simps)
  note r = rotate_inverse[OF assms]
  show "pose3_apply (pose3_inverse p) (pose3_apply p a) = a"
    by (simp add: pose3_apply_def pose3_inverse_def Let_def to_vec3_def to_point3_def lin r neg)
  show "pose3_apply p (pose3_apply (pose3_inverse p) a) = a"
    by (simp add: pose3_apply_def pose3_inverse_def Let_def to_vec3_def to_point3_def neg rotate_diff r(2))
qed

end
