(* ===== verification/RL.thy ===== *)
theory RL
  imports Ackermann CoreBase Spatial
begin

text \<open>
  The records the simulator and the learner side exchange: \<^verbatim>\<open>core/rl/rl.hpp\<close>,
  \<^verbatim>\<open>core/math/twist.hpp\<close>, \<^verbatim>\<open>core/vision/point_cloud.hpp\<close>, the telemetry and result of
  \<^verbatim>\<open>core/rl/reward.hpp\<close>, and the collision severity of \<^verbatim>\<open>core/sim/collision.hpp\<close>. A null point
  cloud is \<open>None\<close>.
\<close>

record twist2 =
  linear :: vec2
  angular :: real

definition zero_twist :: twist2 where
  "zero_twist = \<lparr>linear = vec 0 0, angular = 0\<rparr>"

record action =
  act_timestamp :: real
  act_cmd :: ackermann_command
  has_raw_policy_action :: bool
  normalized_speed_action :: real
  normalized_steer_action :: real
  raw_speed_action :: real
  raw_steer_action :: real

definition default_command :: ackermann_command where
  "default_command = \<lparr>cmd_steer = 0, cmd_speed = 0, cmd_reverse = False\<rparr>"

definition default_action :: action where
  "default_action = \<lparr>act_timestamp = 0, act_cmd = default_command, has_raw_policy_action = False,
     normalized_speed_action = 0, normalized_steer_action = 0, raw_speed_action = 0, raw_steer_action = 0\<rparr>"

record sensor_observation =
  sensor_id :: string
  point_cloud :: "point3 list option"
  so_timestamp :: real

record observation =
  est_pose :: pose2
  est_vel :: twist2
  sensor_data :: "sensor_observation list"
  collision_objects :: "string list"
  obs_reward :: real
  obs_is_terminal :: bool
  waypoint_pos_world :: point2
  obs_distance_to_waypoint :: real
  obs_heading_to_waypoint :: real
  obs_waypoint_reached :: bool
  obs_final_goal_reached :: bool
  obs_waypoint_index :: nat
  obs_waypoint_count :: nat
  obs_reverse_gear :: bool
  obs_gear_hold_time_s :: real

definition obs_is_collided :: "observation \<Rightarrow> bool" where
  "obs_is_collided ob \<longleftrightarrow> collision_objects ob \<noteq> []"

definition default_observation :: observation where
  "default_observation = \<lparr>est_pose = zero_pose, est_vel = zero_twist, sensor_data = [],
     collision_objects = [], obs_reward = 0, obs_is_terminal = False, waypoint_pos_world = pt 0 0,
     obs_distance_to_waypoint = 0, obs_heading_to_waypoint = 0, obs_waypoint_reached = False,
     obs_final_goal_reached = False, obs_waypoint_index = 0, obs_waypoint_count = 0,
     obs_reverse_gear = False, obs_gear_hold_time_s = 0\<rparr>"

section \<open>Collision severity\<close>

datatype severity_level = NONE | MINOR | MODERATE | SEVERE | CRITICAL

record collision_severity =
  severity_level :: severity_level
  sev_score :: real
  sev_penetration :: "real option"
  impact_velocity :: real
  robot_speed :: real
  contact_count :: nat
  has_dynamic_contact :: bool

record collision_contact =
  other_name :: string
  other_pose :: pose2
  other_is_dynamic :: bool

fun level_penalty :: "severity_level \<Rightarrow> real" where
  "level_penalty NONE = 0"
| "level_penalty MINOR = - 4"
| "level_penalty MODERATE = - 8"
| "level_penalty SEVERE = - 12"
| "level_penalty CRITICAL = - 20"

definition get_penalty :: "collision_severity \<Rightarrow> real" where
  "get_penalty s = level_penalty (severity_level s)"

definition severity_is_active :: "collision_severity \<Rightarrow> bool" where
  "severity_is_active s \<longleftrightarrow> severity_level s \<noteq> NONE"

definition no_severity :: collision_severity where
  "no_severity = \<lparr>severity_level = NONE, sev_score = 0, sev_penetration = Some 0, impact_velocity = 0,
     robot_speed = 0, contact_count = 0, has_dynamic_contact = False\<rparr>"

section \<open>Reward telemetry and results\<close>

text \<open>The forward clearance is \<open>None\<close> where the code has infinity.\<close>

record reward_telemetry =
  tel_pose :: pose2
  tel_velocity :: twist2
  tel_command :: ackermann_command
  tel_has_raw_policy_action :: bool
  tel_normalized_speed_action :: real
  tel_normalized_steer_action :: real
  tel_raw_speed_action :: real
  tel_raw_steer_action :: real
  waypoint_position :: point2
  tel_reverse_gear :: bool
  tel_gear_hold_time_s :: real
  requested_reverse_gear :: bool
  distance_to_waypoint :: real
  heading_to_waypoint :: real
  waypoint_reached :: bool
  final_goal_reached :: bool
  waypoint_index :: nat
  waypoint_count :: nat
  time_limit_reached :: bool
  episode_step_count :: nat
  forward_clearance_m :: "real option"

record reward_term_value =
  raw :: real
  weighted :: real

type_synonym reward_term_values = "string \<rightharpoonup> reward_term_value"

record reward_step_result =
  total :: real
  terms :: reward_term_values

definition empty_result :: reward_step_result where
  "empty_result = \<lparr>total = 0, terms = Map.empty\<rparr>"

definition default_telemetry :: reward_telemetry where
  "default_telemetry = \<lparr>tel_pose = zero_pose, tel_velocity = zero_twist, tel_command = default_command,
     tel_has_raw_policy_action = False, tel_normalized_speed_action = 0, tel_normalized_steer_action = 0,
     tel_raw_speed_action = 0, tel_raw_steer_action = 0, waypoint_position = pt 0 0,
     tel_reverse_gear = False, tel_gear_hold_time_s = 0, requested_reverse_gear = False,
     distance_to_waypoint = 0, heading_to_waypoint = 0, waypoint_reached = False,
     final_goal_reached = False, waypoint_index = 0, waypoint_count = 0, time_limit_reached = False,
     episode_step_count = 0, forward_clearance_m = None\<rparr>"

section \<open>The weights of the reward\<close>

record reward_weights =
  w_progress :: real
  progress_min :: real
  progress_decay_steps :: real
  effort_penalty :: real
  control_smoothness :: real
  time_penalty :: real
  waypoint_reached_bonus :: real
  goal_reached_bonus :: real
  goal_reached_bonus_min :: real
  goal_reached_bonus_decay_steps :: real
  time_limit_penalty :: real
  yaw_rate_penalty :: real
  reverse_penalty :: real
  reverse_penalty_tau_s :: real
  reverse_speed_penalty :: real
  reverse_hold_penalty :: real
  gear_switch_penalty :: real
  heading_alignment_bonus :: real
  heading_to_goal_reward :: real
  proximity_reward :: real
  yaw_rate_near_goal_dist :: real
  time_penalty_scale :: real
  time_penalty_scale_decay_steps :: real
  steer_penalty :: real
  steer_penalty_tau_s :: real
  steer_hold_penalty :: real
  steer_hold_threshold :: real
  steer_hold_terminate_s :: real
  steer_hold_terminal_penalty :: real
  steer_hold_decay_s :: real
  collision_penalty_scale :: real
  progress_norm_speed_m_s :: real
  progress_gate_epsilon_m_s :: real
  progress_steer_gate_min :: real
  progress_steer_gate_power :: real
  steer_norm_abs :: real
  smoothness_speed_jerk_norm :: real
  smoothness_steer_jerk_norm :: real
  clearance_gate_dist_min_m :: real
  clearance_gate_dist_max_m :: real
  clearance_gate_half_angle_rad :: real
  stall_penalty_scale :: real
  stall_penalty_growth :: real
  stall_progress_epsilon :: real
  stall_window_s :: real
  stall_tau_s :: real
  stall_limit :: real
  stall_terminal_penalty :: real

definition default_weights :: reward_weights where
  "default_weights = \<lparr>w_progress = 10, progress_min = 10, progress_decay_steps = 0,
     effort_penalty = - (2/10), control_smoothness = - (1/1000), time_penalty = - (1/100),
     waypoint_reached_bonus = 50, goal_reached_bonus = 50, goal_reached_bonus_min = 50,
     goal_reached_bonus_decay_steps = 0, time_limit_penalty = - 20, yaw_rate_penalty = - (2/100),
     reverse_penalty = - 1, reverse_penalty_tau_s = 75/100, reverse_speed_penalty = - 1,
     reverse_hold_penalty = - (1/2), gear_switch_penalty = - (3/10), heading_alignment_bonus = 1/10,
     heading_to_goal_reward = 1/10, proximity_reward = - (1/2), yaw_rate_near_goal_dist = 4,
     time_penalty_scale = - (1/10000), time_penalty_scale_decay_steps = 0, steer_penalty = - (1/10),
     steer_penalty_tau_s = 75/100, steer_hold_penalty = - (2/100), steer_hold_threshold = 2/10,
     steer_hold_terminate_s = 0, steer_hold_terminal_penalty = - 50, steer_hold_decay_s = 1,
     collision_penalty_scale = - 500, progress_norm_speed_m_s = 8, progress_gate_epsilon_m_s = 1/10,
     progress_steer_gate_min = 1, progress_steer_gate_power = 1, steer_norm_abs = 1/2,
     smoothness_speed_jerk_norm = 10, smoothness_steer_jerk_norm = 2, clearance_gate_dist_min_m = 1,
     clearance_gate_dist_max_m = 4, clearance_gate_half_angle_rad = 45/100, stall_penalty_scale = - 8,
     stall_penalty_growth = 1/2, stall_progress_epsilon = 2/10, stall_window_s = 25/10,
     stall_tau_s = 15/10, stall_limit = 98/100, stall_terminal_penalty = - 50\<rparr>"

end
