(* ===== verification/Shapes.thy ===== *)
theory Shapes
  imports Planar
begin

text \<open>
  Collision shapes: \<^verbatim>\<open>core/geom/shape.hpp\<close> and \<^verbatim>\<open>shape.cpp\<close>, and the model
  profile of \<^verbatim>\<open>config/model_profile.hpp\<close>. The bounds cache of the classes is a
  memo of the value computed here. The constructors assert positive radii and half extents
  and at least three vertices; \<open>shape_wf\<close> is that condition.
\<close>

datatype shape2 = Circle real | Box2 real real | Polygon2 "point2 list"

record shape2p5 =
  base :: shape2
  z_min :: real
  z_max :: real

record model_part =
  part_geom :: shape2p5
  rel_pose :: pose2

record model_profile =
  profile_name :: string
  parts :: "model_part list"

fun shape_wf :: "shape2 \<Rightarrow> bool" where
  "shape_wf (Circle r) = (r > 0)"
| "shape_wf (Box2 hx hy) = (hx > 0 \<and> hy > 0)"
| "shape_wf (Polygon2 vs) = (length vs > 2)"

definition polygon_bounds :: "point2 list \<Rightarrow> aabb2" where
  "polygon_bounds vs = fold (\<lambda>p b. aabb_expand b p) vs \<lparr>bmin = vs ! 0, bmax = vs ! 0\<rparr>"

fun get_bounds :: "shape2 \<Rightarrow> aabb2" where
  "get_bounds (Circle r) = \<lparr>bmin = pt (- r) (- r), bmax = pt r r\<rparr>"
| "get_bounds (Box2 hx hy) = \<lparr>bmin = pt (- hx) (- hy), bmax = pt hx hy\<rparr>"
| "get_bounds (Polygon2 vs) = polygon_bounds vs"

section \<open>Polygon predicates\<close>

definition ray_flip :: "point2 \<Rightarrow> point2 \<times> point2 \<Rightarrow> bool \<Rightarrow> bool" where
  "ray_flip p e inside =
     (let vi = fst e; vj = snd e
      in if ((py vi > py p) \<noteq> (py vj > py p)) \<and>
            px p < (px vj - px vi) * (py p - py vi) / (py vj - py vi) + px vi
         then \<not> inside else inside)"

definition polygon_contains_point :: "point2 list \<Rightarrow> point2 \<Rightarrow> bool" where
  "polygon_contains_point v p =
     (if length v < 3 then False else fold (ray_flip p) (edges_prev v) False)"

definition segments_intersect :: "point2 \<Rightarrow> point2 \<Rightarrow> point2 \<Rightarrow> point2 \<Rightarrow> bool" where
  "segments_intersect p1 p2 p3 p4 =
     (let dx1 = px p2 - px p1; dy1 = py p2 - py p1;
          dx2 = px p4 - px p3; dy2 = py p4 - py p3;
          dx3 = px p1 - px p3; dy3 = py p1 - py p3;
          denom = dy2 * dx1 - dx2 * dy1
      in if \<bar>denom\<bar> < 1 / 10000000000 then False
         else let ua = (dx2 * dy3 - dy2 * dx3) / denom; ub = (dx1 * dy3 - dy1 * dx3) / denom
              in ua \<ge> 0 \<and> ua \<le> 1 \<and> ub \<ge> 0 \<and> ub \<le> 1)"

definition polygon_check_intersects :: "point2 list \<Rightarrow> point2 list \<Rightarrow> bool" where
  "polygon_check_intersects v w =
     (if \<not> aabb_intersects (polygon_bounds v) (polygon_bounds w) then False
      else if list_ex (polygon_contains_point w) v then True
      else if list_ex (polygon_contains_point v) w then True
      else list_ex (\<lambda>(p1, p2). list_ex (\<lambda>(p3, p4). segments_intersect p1 p2 p3 p4) (edges_next w))
             (edges_next v))"

definition shape_transform_point :: "point2 \<Rightarrow> pose2 \<Rightarrow> point2" where
  "shape_transform_point p pose =
     (let c = cos (yaw pose); s = sin (yaw pose);
          r = pt (c * px p - s * py p) (s * px p + c * py p)
      in pt (px r + px (pos pose)) (py r + py (pos pose)))"

definition left_of_edge :: "point2 \<Rightarrow> point2 \<times> point2 \<Rightarrow> bool" where
  "left_of_edge p e =
     (let a = fst e; b = snd e; ex = px b - px a; ey = py b - py a;
          qx = px p - px a; qy = py p - py a
      in \<not> (ex * qy - ey * qx < 0))"

definition point_in_convex_polygon :: "point2 list \<Rightarrow> point2 \<Rightarrow> bool" where
  "point_in_convex_polygon poly p =
     (if length poly < 3 then False else list_all (left_of_edge p) (edges_next poly))"

definition circle_inside_edge :: "point2 \<Rightarrow> real \<Rightarrow> point2 \<times> point2 \<Rightarrow> bool" where
  "circle_inside_edge center radius e =
     (let a = fst e; b = snd e; ex = px b - px a; ey = py b - py a; nx = - ey; ny = ex;
          len = sqrt (nx * nx + ny * ny)
      in if len = 0 then False
         else let inv_len = 1 / len; dx = px center - px a; dy = py center - py a;
                  signed_dist = (dx * nx + dy * ny) * inv_len
              in \<not> (signed_dist < radius))"

definition circle_fully_inside_convex_polygon :: "point2 list \<Rightarrow> point2 \<Rightarrow> real \<Rightarrow> bool" where
  "circle_fully_inside_convex_polygon poly center radius =
     (if length poly < 3 then False else list_all (circle_inside_edge center radius) (edges_next poly))"

definition box_local_corners :: "real \<Rightarrow> real \<Rightarrow> point2 list" where
  "box_local_corners hx hy = [pt (- hx) (- hy), pt hx (- hy), pt hx hy, pt (- hx) hy]"

definition box_world_corners :: "real \<Rightarrow> real \<Rightarrow> pose2 \<Rightarrow> point2 list" where
  "box_world_corners hx hy pose = map (\<lambda>c. shape_transform_point c pose) (box_local_corners hx hy)"

definition poly_world_vertices :: "point2 list \<Rightarrow> pose2 \<Rightarrow> point2 list" where
  "poly_world_vertices vs pose = map (\<lambda>p. shape_transform_point p pose) vs"

text \<open>
  The box accumulated from \<open>(+inf, -inf)\<close>: \<open>None\<close> while no point has been added, in which
  case it fits into any box.
\<close>

definition accumulate_box :: "point2 list \<Rightarrow> aabb2 option" where
  "accumulate_box pts =
     (case pts of [] \<Rightarrow> None
      | p # ps \<Rightarrow> Some (fold (\<lambda>q b. aabb_expand b q) ps \<lparr>bmin = p, bmax = p\<rparr>))"

fun shape_world_points :: "shape2 \<Rightarrow> pose2 \<Rightarrow> point2 list" where
  "shape_world_points (Circle r) pose =
     [pt (px (pos pose) - r) (py (pos pose) - r), pt (px (pos pose) + r) (py (pos pose) + r)]"
| "shape_world_points (Box2 hx hy) pose = box_world_corners hx hy pose"
| "shape_world_points (Polygon2 vs) pose = poly_world_vertices vs pose"

definition polygon_contains_shape :: "point2 list \<Rightarrow> shape2 \<Rightarrow> pose2 \<Rightarrow> bool" where
  "polygon_contains_shape v shape pose =
     (let fits = (case accumulate_box (shape_world_points shape pose) of None \<Rightarrow> True
                  | Some b \<Rightarrow> aabb_fit_in b (polygon_bounds v))
      in if \<not> fits then False
         else (case shape of
             Circle r \<Rightarrow> circle_fully_inside_convex_polygon v (pos pose) r
           | Box2 hx hy \<Rightarrow> list_all (point_in_convex_polygon v) (box_world_corners hx hy pose)
           | Polygon2 vs \<Rightarrow> list_all (point_in_convex_polygon v) (poly_world_vertices vs pose)))"

section \<open>What the shapes cover\<close>

text \<open>The convex hull of a list of points, by repeated mixing of two points of it.\<close>

inductive in_hull :: "point2 list \<Rightarrow> point2 \<Rightarrow> bool" for vs where
  vertex: "p \<in> set vs \<Longrightarrow> in_hull vs p"
| mix: "in_hull vs p \<Longrightarrow> in_hull vs q \<Longrightarrow> 0 \<le> t \<Longrightarrow> t \<le> 1 \<Longrightarrow> in_hull vs (segment_at p q t)"

fun shape_covers :: "shape2 \<Rightarrow> point2 \<Rightarrow> bool" where
  "shape_covers (Circle r) p = (px p * px p + py p * py p \<le> r * r)"
| "shape_covers (Box2 hx hy) p = (\<bar>px p\<bar> \<le> hx \<and> \<bar>py p\<bar> \<le> hy)"
| "shape_covers (Polygon2 vs) p = in_hull vs p"

lemma shape_transform_point_eq: "shape_transform_point p pose = transform_point pose p"
  by (simp add: shape_transform_point_def transform_point_def Let_def)

lemma fold_expand_contains:
  "aabb_contains_box (fold (\<lambda>p b. aabb_expand b p) ps b) b"
  by (induction ps arbitrary: b) (auto intro: contains_box_trans expand_contains_box)

lemma fold_expand_contains_points:
  "p \<in> set ps \<Longrightarrow> aabb_contains (fold (\<lambda>p b. aabb_expand b p) ps b) p"
  by (induction ps arbitrary: b)
    (auto intro: contains_box_contains[OF fold_expand_contains expand_contains])

lemma polygon_bounds_contains: "p \<in> set vs \<Longrightarrow> aabb_contains (polygon_bounds vs) p"
  unfolding polygon_bounds_def by (rule fold_expand_contains_points)

lemma aabb_contains_segment:
  assumes "aabb_contains b p" "aabb_contains b q" "0 \<le> t" "t \<le> 1"
  shows "aabb_contains b (segment_at p q t)"
proof -
  have mix: "min x y \<le> x + (y - x) * t \<and> x + (y - x) * t \<le> max x y" for x y :: real
  proof -
    have "x + (y - x) * t = (1 - t) * x + t * y" by (simp add: algebra_simps)
    moreover have "(1 - t) * min x y + t * min x y \<le> (1 - t) * x + t * y"
      using assms(3,4) by (intro add_mono mult_left_mono) auto
    moreover have "(1 - t) * x + t * y \<le> (1 - t) * max x y + t * max x y"
      using assms(3,4) by (intro add_mono mult_left_mono) auto
    ultimately show ?thesis by (simp add: algebra_simps)
  qed
  from mix[of "px p" "px q"] mix[of "py p" "py q"] show ?thesis
    using assms(1,2) unfolding aabb_contains_def segment_at_def by simp linarith
qed

lemma hull_in_bounds: "in_hull vs p \<Longrightarrow> aabb_contains (polygon_bounds vs) p"
  by (induction rule: in_hull.induct) (auto intro: polygon_bounds_contains aabb_contains_segment)

lemma square_le_abs: "x * x + y * y \<le> r * r \<Longrightarrow> 0 \<le> (r::real) \<Longrightarrow> \<bar>x\<bar> \<le> r"
  by (metis abs_le_square_iff abs_of_nonneg add_increasing2 le_add_same_cancel1 order_trans
      power2_eq_square zero_le_square)

lemma bounds_cover_shape:
  assumes "shape_wf s" "shape_covers s p"
  shows "aabb_contains (get_bounds s) p"
proof (cases s)
  case (Circle r)
  then have "\<bar>px p\<bar> \<le> r" "\<bar>py p\<bar> \<le> r"
    using assms square_le_abs[of "px p" "py p" r] square_le_abs[of "py p" "px p" r]
    by (auto simp: add.commute)
  then show ?thesis using Circle by (auto simp: aabb_contains_def)
next
  case (Box2 hx hy)
  then show ?thesis using assms by (auto simp: aabb_contains_def)
next
  case (Polygon2 vs)
  then show ?thesis using assms by (simp add: hull_in_bounds)
qed

lemma world_bounds_cover_shape:
  "shape_wf s \<Longrightarrow> shape_covers s p \<Longrightarrow>
     aabb_contains (aabb_transform (get_bounds s) pose) (transform_point pose p)"
  by (intro aabb_transform_covers bounds_cover_shape)

section \<open>Containment in a convex polygon\<close>

definition edge_side :: "point2 \<times> point2 \<Rightarrow> point2 \<Rightarrow> real" where
  "edge_side e p = (px (snd e) - px (fst e)) * (py p - py (fst e)) -
     (py (snd e) - py (fst e)) * (px p - px (fst e))"

lemma left_of_edge_iff: "left_of_edge p e \<longleftrightarrow> 0 \<le> edge_side e p"
  by (auto simp: left_of_edge_def edge_side_def Let_def)

lemma edge_side_segment:
  "edge_side e (segment_at p q t) = (1 - t) * edge_side e p + t * edge_side e q"
  by (simp add: edge_side_def segment_at_def algebra_simps)

lemma transform_segment_at:
  "transform_point pose (segment_at p q t) =
     segment_at (transform_point pose p) (transform_point pose q) t"
  by (simp add: transform_point_def segment_at_def Let_def algebra_simps)

lemma hull_edge_side:
  assumes "\<forall>p \<in> set vs. 0 \<le> edge_side e (transform_point pose p)" and "in_hull vs p"
  shows "0 \<le> edge_side e (transform_point pose p)"
  using assms(2)
  by (induction rule: in_hull.induct) (auto simp: transform_segment_at edge_side_segment assms(1))

lemma box_edge_side:
  assumes "\<forall>c \<in> set (box_local_corners hx hy). 0 \<le> edge_side e (transform_point pose c)"
    and "\<bar>px p\<bar> \<le> hx" "\<bar>py p\<bar> \<le> hy"
  shows "0 \<le> edge_side e (transform_point pose p)"
proof -
  let ?c = "cos (yaw pose)" and ?s = "sin (yaw pose)"
  define X where "X = px (snd e) - px (fst e)"
  define Y where "Y = py (snd e) - py (fst e)"
  define k where "k = X * (py (pos pose) - py (fst e)) - Y * (px (pos pose) - px (fst e))"
  have side: "edge_side e (transform_point pose q) =
      k + (X * ?s - Y * ?c) * px q + (X * ?c + Y * ?s) * py q" for q
    by (simp add: edge_side_def transform_point_def Let_def X_def Y_def k_def algebra_simps)
  have corners: "0 \<le> k + (X * ?s - Y * ?c) * u + (X * ?c + Y * ?s) * w"
    if "u \<in> {- hx, hx}" "w \<in> {- hy, hy}" for u w
  proof -
    have "pt u w \<in> set (box_local_corners hx hy)" using that by (auto simp: box_local_corners_def)
    then have "0 \<le> edge_side e (transform_point pose (pt u w))" using assms(1) by blast
    then show ?thesis unfolding side by simp
  qed
  show ?thesis unfolding side
  proof (rule affine_ge_corners[of "- hx" _ hx "- hy" _ hy])
    show "- hx \<le> px p" "px p \<le> hx" "- hy \<le> py p" "py p \<le> hy" using assms(2,3) by linarith+
  qed (intro corners; simp)+
qed

lemma circle_edge_side:
  assumes "circle_inside_edge (pos pose) r e" "0 \<le> r" "px p * px p + py p * py p \<le> r * r"
  shows "0 \<le> edge_side e (transform_point pose p)"
proof -
  define X where "X = px (snd e) - px (fst e)"
  define Y where "Y = py (snd e) - py (fst e)"
  define len where "len = sqrt (Y * Y + X * X)"
  define q where "q = transform_vector pose (vec (px p) (py p))"
  define side where "side = edge_side e (pos pose)"
  have lens: "sqrt (- Y * (- Y) + X * X) = len" by (simp add: len_def)
  have sides: "(px (pos pose) - px (fst e)) * (- Y) + (py (pos pose) - py (fst e)) * X = side"
    by (simp add: side_def edge_side_def X_def Y_def algebra_simps)
  have raw: "len \<noteq> 0 \<and> \<not> side * (1 / len) < r"
    using assms(1) unfolding circle_inside_edge_def Let_def X_def[symmetric] Y_def[symmetric]
      lens sides by (simp split: if_splits)
  have "0 \<le> len" by (simp add: len_def)
  with raw have len: "len > 0" by simp
  have inside: "r * len \<le> side" using raw len by (simp add: not_less pos_le_divide_eq)
  have lensq: "len * len = X * X + Y * Y" by (simp add: len_def add.commute)
  have qsq: "vx q * vx q + vy q * vy q \<le> r * r"
    using transform_vector_length_sq[of pose "vec (px p) (py p)"] assms(3)
    by (simp add: q_def vec_length_sq_def vec_dot_def)
  have "(X * vy q - Y * vx q)\<^sup>2 \<le> (X * X + Y * Y) * (vx q * vx q + vy q * vy q)"
  proof -
    have "(X * X + Y * Y) * (vx q * vx q + vy q * vy q) - (X * vy q - Y * vx q)\<^sup>2 =
        (X * vx q + Y * vy q)\<^sup>2" by (simp add: power2_eq_square algebra_simps)
    then show ?thesis by (metis diff_ge_0_iff_ge zero_le_power2)
  qed
  also have "\<dots> \<le> (len * len) * (r * r)" using qsq lensq by (intro mult_mono) auto
  finally have "(X * vy q - Y * vx q)\<^sup>2 \<le> (len * r)\<^sup>2" by (simp add: power2_eq_square algebra_simps)
  then have "\<bar>X * vy q - Y * vx q\<bar> \<le> len * r"
    using len assms(2) by (metis abs_le_square_iff abs_of_nonneg mult_nonneg_nonneg less_imp_le)
  moreover have "edge_side e (transform_point pose p) = side + (X * vy q - Y * vx q)"
    by (simp add: edge_side_def transform_point_def transform_vector_def Let_def X_def Y_def
        side_def q_def algebra_simps)
  ultimately show ?thesis using inside by (simp add: mult.commute)
qed

lemma polygon_contains_shape_sides:
  assumes "polygon_contains_shape v s pose" "shape_wf s" "shape_covers s p" "e \<in> set (edges_next v)"
    and "3 \<le> length v"
  shows "0 \<le> edge_side e (transform_point pose p)"
proof (cases s)
  case (Circle r)
  with assms show ?thesis
    by (intro circle_edge_side[of _ r])
      (auto simp: polygon_contains_shape_def circle_fully_inside_convex_polygon_def list_all_iff
        Let_def split: if_splits)
next
  case (Box2 hx hy)
  with assms show ?thesis
    by (intro box_edge_side[of hx hy])
      (auto simp: polygon_contains_shape_def point_in_convex_polygon_def list_all_iff Let_def
        box_world_corners_def shape_transform_point_eq left_of_edge_iff split: if_splits)
next
  case (Polygon2 vs)
  with assms show ?thesis
    by (intro hull_edge_side[of vs])
      (auto simp: polygon_contains_shape_def point_in_convex_polygon_def list_all_iff Let_def
        poly_world_vertices_def shape_transform_point_eq left_of_edge_iff split: if_splits)
qed

lemma segments_intersect_sound:
  assumes "segments_intersect p1 p2 p3 p4"
  shows "\<exists>s t. 0 \<le> s \<and> s \<le> 1 \<and> 0 \<le> t \<and> t \<le> 1 \<and> segment_at p1 p2 s = segment_at p3 p4 t"
proof -
  define dx1 where "dx1 = px p2 - px p1"
  define dy1 where "dy1 = py p2 - py p1"
  define dx2 where "dx2 = px p4 - px p3"
  define dy2 where "dy2 = py p4 - py p3"
  define dx3 where "dx3 = px p1 - px p3"
  define dy3 where "dy3 = py p1 - py p3"
  define d where "d = dy2 * dx1 - dx2 * dy1"
  define ua where "ua = (dx2 * dy3 - dy2 * dx3) / d"
  define ub where "ub = (dx1 * dy3 - dy1 * dx3) / d"
  have *: "d \<noteq> 0" "0 \<le> ua" "ua \<le> 1" "0 \<le> ub" "ub \<le> 1"
    using assms unfolding segments_intersect_def Let_def dx1_def[symmetric] dy1_def[symmetric]
      dx2_def[symmetric] dy2_def[symmetric] dx3_def[symmetric] dy3_def[symmetric] d_def[symmetric]
      ua_def[symmetric] ub_def[symmetric] by (auto split: if_splits)
  have "d * (dx3 + dx1 * ua) = d * (dx2 * ub)" "d * (dy3 + dy1 * ua) = d * (dy2 * ub)"
    using *(1) by (simp_all add: ua_def ub_def d_def field_simps)
  then have "dx3 + dx1 * ua = dx2 * ub" "dy3 + dy1 * ua = dy2 * ub" using *(1) by simp_all
  then have "segment_at p1 p2 ua = segment_at p3 p4 ub"
    by (simp add: segment_at_def dx1_def dx2_def dx3_def dy1_def dy2_def dy3_def)
  with * show ?thesis by blast
qed

section \<open>Properties\<close>

text \<open>If the containment test accepts a disc, a box or a polygon at a pose, every point of the
  shape is on the inner side of every edge of the containing polygon.\<close>

theorem polygon_contains_shape_sound:
  assumes "polygon_contains_shape v s pose" "shape_wf s" "shape_covers s p" "3 \<le> length v"
    and "i < length v"
  shows "0 \<le> edge_side (v ! i, v ! (Suc i mod length v)) (transform_point pose p)"
proof -
  have "(v ! i, v ! (Suc i mod length v)) \<in> set (edges_next v)"
    using assms(5) edges_next_nth[OF assms(5)] nth_mem[of i "edges_next v"] by simp
  from polygon_contains_shape_sides[OF assms(1-3) this assms(4)] show ?thesis .
qed

theorem polygon_contains_shape_sound_witness:
  "0 \<le> edge_side (pt 5 (- 5), pt 5 5) (transform_point \<lparr>pos = pt 2 1, yaw = 0\<rparr> (pt 1 0))"
proof -
  let ?v = "[pt (- 5) (- 5), pt 5 (- 5), pt 5 5, pt (- 5) 5]"
  have "polygon_contains_shape ?v (Circle 1) \<lparr>pos = pt 2 1, yaw = 0\<rparr>"
    by (simp add: polygon_contains_shape_def accumulate_box_def aabb_fit_in_def polygon_bounds_def aabb_expand_def
        circle_fully_inside_convex_polygon_def edges_next_def circle_inside_edge_def Let_def)
  from polygon_contains_shape_sound[OF this, of "pt 1 0" 1] show ?thesis by simp
qed

text \<open>If the segment test says that two segments intersect, they have a common point.\<close>

theorem segments_intersect_meet:
  assumes "segments_intersect p1 p2 p3 p4"
  shows "\<exists>s t. 0 \<le> s \<and> s \<le> 1 \<and> 0 \<le> t \<and> t \<le> 1 \<and> segment_at p1 p2 s = segment_at p3 p4 t"
  by (rule segments_intersect_sound[OF assms])

theorem segments_intersect_meet_witness:
  "\<exists>s t. segment_at (pt 0 0) (pt 2 2) s = segment_at (pt 0 2) (pt 2 0) t"
  using segments_intersect_meet[of "pt 0 0" "pt 2 2" "pt 0 2" "pt 2 0"]
  by (auto simp: segments_intersect_def Let_def)

text \<open>The transformed bounding box of a shape contains every point of the shape at the pose, for
  every pose and shape.\<close>

theorem world_bounds_cover:
  assumes "shape_wf s" "shape_covers s p"
  shows "aabb_contains (aabb_transform (get_bounds s) pose) (transform_point pose p)"
  by (rule world_bounds_cover_shape[OF assms])

theorem world_bounds_cover_witness:
  "aabb_contains (aabb_transform (get_bounds (Polygon2 [pt 0 0, pt 2 0, pt 0 2])) \<lparr>pos = pt 3 4, yaw = pi\<rparr>) (pt 2 3)"
proof -
  let ?vs = "[pt 0 0, pt 2 0, pt 0 2]"
  have "in_hull ?vs (segment_at (pt 2 0) (pt 0 2) (1/2))"
    by (rule in_hull.mix) (auto intro: in_hull.vertex)
  then have "shape_covers (Polygon2 ?vs) (pt 1 1)" by (simp add: segment_at_def)
  from world_bounds_cover[OF _ this, of "\<lparr>pos = pt 3 4, yaw = pi\<rparr>"] show ?thesis
    by (simp add: transform_point_def)
qed

end
