(* ===== verification/NarrowPhase.thy ===== *)
theory NarrowPhase
  imports Shapes
begin

text \<open>
  The narrow phase of \<^verbatim>\<open>collision/sat.cpp\<close>: the separating axis test between two
  shapes. The minimal penetration starts at infinity, which is \<open>None\<close>; it stays so when no
  edge is long enough to give an axis. The projection of a polygon, accumulated from plus and minus
  infinity, starts at the first vertex here; the callers reject empty polygons first.
\<close>

record projection =
  pr_min :: real
  pr_max :: real

definition project_polygon :: "point2 list \<Rightarrow> vec2 \<Rightarrow> projection" where
  "project_polygon poly axis =
     (let vals = map (\<lambda>p. vec_dot axis (vec (px p) (py p))) poly
      in \<lparr>pr_min = fold (\<lambda>v m. min m v) (tl vals) (hd vals), pr_max = fold (\<lambda>v m. max m v) (tl vals) (hd vals)\<rparr>)"

definition project_circle :: "point2 \<Rightarrow> real \<Rightarrow> vec2 \<Rightarrow> projection" where
  "project_circle center radius axis =
     (let c = vec_dot axis (vec (px center) (py center)) in \<lparr>pr_min = c - radius, pr_max = c + radius\<rparr>)"

text \<open>The penetration; the projections overlap if it is positive.\<close>

definition overlap_1d :: "projection \<Rightarrow> projection \<Rightarrow> real" where
  "overlap_1d a b = min (pr_max a) (pr_max b) - max (pr_min a) (pr_min b)"

record collision_result =
  intersects :: bool
  penetration_depth :: "real option"
  normal :: vec2

definition no_collision :: collision_result where
  "no_collision = \<lparr>intersects = False, penetration_depth = Some 0, normal = vec 0 0\<rparr>"

definition below :: "real \<Rightarrow> real option \<Rightarrow> bool" where
  "below pen min_pen = (case min_pen of None \<Rightarrow> True | Some m \<Rightarrow> pen < m)"

definition toward :: "vec2 \<Rightarrow> vec2 \<Rightarrow> vec2" where
  "toward centers axis = (if vec_dot centers axis < 0 then vec_neg axis else axis)"

text \<open>
  The loop over the edge normals, with the projections of the two shapes along an axis and the vector
  between their centres. \<open>None\<close> is a separating axis.
\<close>

fun test_axes :: "(vec2 \<Rightarrow> projection) \<Rightarrow> (vec2 \<Rightarrow> projection) \<Rightarrow> vec2 \<Rightarrow> (point2 \<times> point2) list
    \<Rightarrow> real option \<times> vec2 \<Rightarrow> (real option \<times> vec2) option" where
  "test_axes proj_a proj_b centers [] st = Some st"
| "test_axes proj_a proj_b centers (e # es) (min_pen, best_axis) =
     (let axis = edge_normal (fst e) (snd e)
      in if vec_length_sq axis \<le> k_eps then test_axes proj_a proj_b centers es (min_pen, best_axis)
         else let pen = overlap_1d (proj_a axis) (proj_b axis)
              in if \<not> pen > 0 then None
                 else test_axes proj_a proj_b centers es
                        (if below pen min_pen then (Some pen, toward centers axis) else (min_pen, best_axis)))"

definition between_points :: "point2 \<Rightarrow> point2 \<Rightarrow> vec2" where
  "between_points a b = vec_sub (vec (px b) (py b)) (vec (px a) (py a))"

definition result_of :: "real option \<Rightarrow> vec2 \<Rightarrow> collision_result" where
  "result_of min_pen best_axis =
     (let axis = (if vec_length_sq best_axis \<le> k_eps then vec 1 0 else best_axis)
      in \<lparr>intersects = True, penetration_depth = min_pen, normal = vec_normalized axis\<rparr>)"

definition sat_polygon_polygon :: "point2 list \<Rightarrow> point2 list \<Rightarrow> collision_result" where
  "sat_polygon_polygon a b =
     (if a = [] \<or> b = [] then no_collision
      else let centers = between_points (centroid a) (centroid b);
               test = test_axes (project_polygon a) (project_polygon b) centers
           in case test (edges_next a) (None, vec 0 0) of
                None \<Rightarrow> no_collision
              | Some st \<Rightarrow> (case test (edges_next b) st of
                              None \<Rightarrow> no_collision
                            | Some (min_pen, best_axis) \<Rightarrow> result_of min_pen best_axis))"

definition sat_circle_circle :: "point2 \<Rightarrow> real \<Rightarrow> point2 \<Rightarrow> real \<Rightarrow> collision_result" where
  "sat_circle_circle a_center a_radius b_center b_radius =
     (let delta = point_sub b_center a_center; dist_sq = vec_length_sq delta; r_sum = a_radius + b_radius
      in if dist_sq \<ge> r_sum * r_sum then no_collision
         else let dist = sqrt (max dist_sq 0)
              in \<lparr>intersects = True, penetration_depth = Some (r_sum - dist),
                  normal = (if dist > k_eps then vec_div delta dist else vec 1 0)\<rparr>)"

text \<open>The last axis, from the closest point of the polygon to the centre of the circle.\<close>

definition closest_axis :: "point2 list \<Rightarrow> point2 \<Rightarrow> vec2 \<Rightarrow> vec2" where
  "closest_axis poly center best_axis =
     (let closest = closest_point_on_polygon poly center;
          axis = vec (px center - px closest) (py center - py closest)
      in if vec_length axis \<le> k_eps
         then (if vec_length_sq best_axis > k_eps then best_axis else vec 1 0) else axis)"

definition sat_polygon_circle :: "point2 list \<Rightarrow> point2 \<Rightarrow> real \<Rightarrow> collision_result" where
  "sat_polygon_circle poly center radius =
     (if poly = [] then no_collision
      else let centers = between_points (centroid poly) center
           in case test_axes (project_polygon poly) (project_circle center radius) centers (edges_next poly) (None, vec 0 0) of
                None \<Rightarrow> no_collision
              | Some (min_pen, best_axis) \<Rightarrow>
                  let axis = closest_axis poly center best_axis; axis_len = vec_length axis
                  in if axis_len > k_eps
                     then let unit = vec_div axis axis_len;
                              pen = overlap_1d (project_polygon poly unit) (project_circle center radius unit)
                          in if \<not> pen > 0 then no_collision
                             else if below pen min_pen then result_of (Some pen) (toward centers unit)
                             else result_of min_pen best_axis
                     else result_of min_pen best_axis)"

fun to_polygon :: "shape2 \<Rightarrow> point2 list" where
  "to_polygon (Box2 hx hy) = [pt (- hx) (- hy), pt hx (- hy), pt hx hy, pt (- hx) hy]"
| "to_polygon (Polygon2 vs) = vs"
| "to_polygon (Circle r) = []"

definition transform_polygon :: "point2 list \<Rightarrow> pose2 \<Rightarrow> point2 list" where
  "transform_polygon vs pose = map (transform_point pose) vs"

definition flip_normal :: "collision_result \<Rightarrow> collision_result" where
  "flip_normal res =
     (if intersects res
      then let n = vec_neg (normal res)
           in res\<lparr>normal := (if vec_length_sq n > k_eps then vec_normalized n else vec 1 0)\<rparr>
      else res)"

definition collide_shapes :: "shape2p5 \<Rightarrow> pose2 \<Rightarrow> shape2p5 \<Rightarrow> pose2 \<Rightarrow> collision_result" where
  "collide_shapes a a_world b b_world =
     (if \<not> z_ranges_overlap (z_min a) (z_max a) (z_min b) (z_max b) then no_collision
      else case (base a, base b) of
        (Circle ra, Circle rb) \<Rightarrow>
          sat_circle_circle (transform_point a_world (pt 0 0)) ra (transform_point b_world (pt 0 0)) rb
      | (Circle ra, sb) \<Rightarrow>
          flip_normal (sat_polygon_circle (transform_polygon (to_polygon sb) b_world) (transform_point a_world (pt 0 0)) ra)
      | (sa, Circle rb) \<Rightarrow>
          sat_polygon_circle (transform_polygon (to_polygon sa) a_world) (transform_point b_world (pt 0 0)) rb
      | (sa, sb) \<Rightarrow>
          sat_polygon_polygon (transform_polygon (to_polygon sa) a_world) (transform_polygon (to_polygon sb) b_world))"

section \<open>Projections\<close>

abbreviation along :: "vec2 \<Rightarrow> point2 \<Rightarrow> real" where
  "along n p \<equiv> vec_dot n (vec (px p) (py p))"

lemma fold_min_props:
  fixes m :: real
  shows "fold (\<lambda>v m. min m v) vs m \<le> m \<and> (\<forall>v\<in>set vs. fold (\<lambda>v m. min m v) vs m \<le> v) \<and>
    (fold (\<lambda>v m. min m v) vs m = m \<or> fold (\<lambda>v m. min m v) vs m \<in> set vs)"
proof (induction vs arbitrary: m)
  case (Cons v vs)
  from Cons.IH[of "min m v"] show ?case by (auto simp: min_def split: if_splits)
qed simp

lemma fold_max_props:
  fixes m :: real
  shows "m \<le> fold (\<lambda>v m. max m v) vs m \<and> (\<forall>v\<in>set vs. v \<le> fold (\<lambda>v m. max m v) vs m) \<and>
    (fold (\<lambda>v m. max m v) vs m = m \<or> fold (\<lambda>v m. max m v) vs m \<in> set vs)"
proof (induction vs arbitrary: m)
  case (Cons v vs)
  from Cons.IH[of "max m v"] show ?case by (auto simp: max_def split: if_splits)
qed simp

lemma project_polygon_range:
  assumes "p \<in> set poly"
  shows "pr_min (project_polygon poly n) \<le> along n p \<and> along n p \<le> pr_max (project_polygon poly n)"
proof (cases poly)
  case (Cons q qs)
  show ?thesis
    using assms fold_min_props[where m = "along n q" and vs = "map (along n) qs"]
      fold_max_props[where m = "along n q" and vs = "map (along n) qs"]
    by (auto simp: project_polygon_def Cons Let_def)
qed (use assms in simp)

lemma along_segment: "along n (segment_at p q t) = (1 - t) * along n p + t * along n q"
  by (simp add: vec_dot_def segment_at_def algebra_simps)

lemma in_hull_range:
  assumes "in_hull vs q"
  shows "pr_min (project_polygon vs n) \<le> along n q \<and> along n q \<le> pr_max (project_polygon vs n)"
  using assms
proof (induction rule: in_hull.induct)
  case (vertex p)
  then show ?case by (rule project_polygon_range)
next
  case (mix p q t)
  let ?lo = "pr_min (project_polygon vs n)" and ?hi = "pr_max (project_polygon vs n)"
  have "(1 - t) * ?lo + t * ?lo \<le> (1 - t) * along n p + t * along n q"
    using mix by (intro add_mono mult_left_mono) auto
  moreover have "(1 - t) * along n p + t * along n q \<le> (1 - t) * ?hi + t * ?hi"
    using mix by (intro add_mono mult_left_mono) auto
  ultimately show ?case by (simp only: along_segment) (simp add: algebra_simps)
qed

lemma in_disc_range:
  assumes "distance c q \<le> r" "vec_length_sq n = 1"
  shows "pr_min (project_circle c r n) \<le> along n q \<and> along n q \<le> pr_max (project_circle c r n)"
proof -
  have r: "0 \<le> r" using assms(1) distance_nonneg[of c q] by linarith
  define d where "d = vec (px q - px c) (py q - py c)"
  have "vec_length_sq d \<le> r\<^sup>2"
    using assms(1) r by (simp add: distance_le_iff) (simp add: d_def geom_simps algebra_simps)
  moreover have "(vec_dot n d)\<^sup>2 + (vx n * vy d - vy n * vx d)\<^sup>2 = vec_length_sq n * vec_length_sq d"
    by (simp add: vec_dot_def vec_length_sq_def power2_eq_square algebra_simps)
  ultimately have "(vec_dot n d)\<^sup>2 \<le> r\<^sup>2" using zero_le_power2[of "vx n * vy d - vy n * vx d"] unfolding assms(2) by linarith
  then have "\<bar>vec_dot n d\<bar> \<le> r" using r abs_le_square_iff[of "vec_dot n d" r] by simp
  moreover have "along n q = along n c + vec_dot n d" by (simp add: vec_dot_def d_def algebra_simps)
  ultimately show ?thesis unfolding project_circle_def Let_def by (simp only: projection.simps) linarith
qed

section \<open>Separation\<close>

definition separated :: "(point2 \<Rightarrow> bool) \<Rightarrow> (point2 \<Rightarrow> bool) \<Rightarrow> bool" where
  "separated A B \<longleftrightarrow> (\<exists>n c. vec_length_sq n = 1 \<and> (\<forall>p. A p \<longrightarrow> along n p \<le> c) \<and> (\<forall>q. B q \<longrightarrow> c \<le> along n q))"

lemma separated_sym: "separated A B \<Longrightarrow> separated B A"
proof -
  assume "separated A B"
  then obtain n c where "vec_length_sq n = 1" "\<forall>p. A p \<longrightarrow> along n p \<le> c" "\<forall>q. B q \<longrightarrow> c \<le> along n q"
    by (auto simp: separated_def)
  then have "vec_length_sq (vec_neg n) = 1 \<and> (\<forall>p. B p \<longrightarrow> along (vec_neg n) p \<le> - c) \<and>
      (\<forall>q. A q \<longrightarrow> - c \<le> along (vec_neg n) q)"
    by (auto simp: vec_length_sq_def vec_dot_def vec_neg_def algebra_simps)
  then show ?thesis unfolding separated_def by blast
qed

lemma no_overlap_separated:
  assumes "\<not> overlap_1d a b > 0" "pr_min a < pr_max a" "pr_min b < pr_max b" "vec_length_sq n = 1"
    "\<And>p. A p \<Longrightarrow> pr_min a \<le> along n p \<and> along n p \<le> pr_max a"
    "\<And>q. B q \<Longrightarrow> pr_min b \<le> along n q \<and> along n q \<le> pr_max b"
  shows "separated A B"
proof -
  have "pr_max a \<le> pr_min b \<or> pr_max b \<le> pr_min a"
    using assms(1-3) by (auto simp: overlap_1d_def min_def max_def split: if_splits)
  then show ?thesis
  proof
    assume "pr_max a \<le> pr_min b"
    with assms(4-6) show ?thesis unfolding separated_def by (metis order_trans)
  next
    assume "pr_max b \<le> pr_min a"
    with assms(4-6) have "separated B A" unfolding separated_def by (metis order_trans)
    then show ?thesis by (rule separated_sym)
  qed
qed


section \<open>Solid shapes\<close>

text \<open>
  A polygon that does not lie on a line and has an edge long enough for a normal; radii and half
  extents above the threshold of the code.
\<close>

definition noncollinear :: "point2 list \<Rightarrow> bool" where
  "noncollinear vs \<longleftrightarrow> list_ex (\<lambda>a. list_ex (\<lambda>b. list_ex (\<lambda>c. cross_product (point_sub b a) (point_sub c a) \<noteq> 0) vs) vs) vs"

definition long_edge :: "point2 list \<Rightarrow> bool" where
  "long_edge vs \<longleftrightarrow> list_ex (\<lambda>(a, b). vec_length_sq (point_sub b a) > k_eps) (edges_next vs)"

fun solid :: "shape2 \<Rightarrow> bool" where
  "solid (Circle r) = (r > 0)"
| "solid (Box2 hx hy) = (hx > 0 \<and> hy > 0 \<and> noncollinear (to_polygon (Box2 hx hy)) \<and> long_edge (to_polygon (Box2 hx hy)))"
| "solid (Polygon2 vs) = (noncollinear vs \<and> long_edge vs)"

lemma cross_transform:
  "cross_product (transform_vector p u) (transform_vector p v) = cross_product u v"
proof -
  have "(c * x - s * y) * (s * x' + c * y') - (s * x + c * y) * (c * x' - s * y') = (c * c + s * s) * (x * y' - y * x')"
    for c s x y x' y' :: real
    by (simp add: algebra_simps)
  then show ?thesis
    by (simp only: cross_product_def transform_vector_def Let_def vec2.simps cos_sin_one mult_1)
qed

lemma noncollinear_transform: "noncollinear vs \<Longrightarrow> noncollinear (transform_polygon vs pose)"
  by (auto simp: noncollinear_def transform_polygon_def list_ex_iff point_sub_transform cross_transform)

lemma edges_transform:
  "edges_next (map (transform_point pose) vs) = map (\<lambda>(a, b). (transform_point pose a, transform_point pose b)) (edges_next vs)"
  by (simp add: edges_next_def rotate1_map zip_map_map)

lemma long_edge_transform: "long_edge vs \<Longrightarrow> long_edge (transform_polygon vs pose)"
  by (auto simp: long_edge_def transform_polygon_def list_ex_iff edges_transform point_sub_transform
      transform_vector_length_sq case_prod_beta)

lemma no_perpendicular:
  assumes "vec_dot n u = 0" "vec_dot n w = 0" "vec_length_sq n = 1"
  shows "cross_product u w = 0"
proof -
  have "vx n * cross_product u w = vec_dot n u * vy w - vec_dot n w * vy u"
    "vy n * cross_product u w = vec_dot n w * vx u - vec_dot n u * vx w"
    by (simp_all add: cross_product_def vec_dot_def algebra_simps)
  then have "vx n * cross_product u w = 0" "vy n * cross_product u w = 0" using assms by simp_all
  moreover have "vx n \<noteq> 0 \<or> vy n \<noteq> 0" using assms(3) by (auto simp: vec_length_sq_def vec_dot_def)
  ultimately show ?thesis by auto
qed

lemma noncollinear_width:
  assumes "noncollinear vs" "vec_length_sq n = 1"
  shows "pr_min (project_polygon vs n) < pr_max (project_polygon vs n)"
proof (rule ccontr)
  assume flat: "\<not> ?thesis"
  obtain a b c where abc: "a \<in> set vs" "b \<in> set vs" "c \<in> set vs"
    and cr: "cross_product (point_sub b a) (point_sub c a) \<noteq> 0"
    using assms(1) by (auto simp: noncollinear_def list_ex_iff)
  have "along n p = along n a" if "p \<in> set vs" for p
    using project_polygon_range[OF that, of n] project_polygon_range[OF abc(1), of n] flat by linarith
  then have "vec_dot n (point_sub p a) = 0" if "p \<in> set vs" for p
    using that by (force simp: vec_dot_def point_sub_def algebra_simps)
  with no_perpendicular[OF _ _ assms(2)] abc cr show False by blast
qed

lemma circle_width: "0 < r \<Longrightarrow> pr_min (project_circle c r n) < pr_max (project_circle c r n)"
  by (simp add: project_circle_def Let_def)

section \<open>The loop over the axes\<close>

lemma axis_unit: "\<not> vec_length_sq (edge_normal a b) \<le> k_eps \<Longrightarrow> vec_length_sq (edge_normal a b) = 1"
  using edge_normal_unit[of a b] k_eps_small by (auto simp: vec_length_sq_def vec_dot_def)

lemma axis_of_long_edge:
  assumes "vec_length_sq (point_sub b a) > k_eps"
  shows "\<not> vec_length_sq (edge_normal a b) \<le> k_eps"
proof -
  define n where "n = vec (- vy (point_sub b a)) (vx (point_sub b a))"
  have nl: "vec_length_sq n = vec_length_sq (point_sub b a)" by (simp add: n_def vec_length_sq_def vec_dot_def)
  have "k_eps * k_eps < vec_length_sq n"
    using assms nl mult_strict_left_mono[OF k_eps_small(2) k_eps_small(1)] by simp
  then have l: "vec_length n > k_eps"
    using k_eps_small(1) unfolding vec_length_def by (intro real_less_rsqrt) (simp add: power2_eq_square)
  then have "edge_normal a b = vec_normalized n"
    using assms by (simp add: edge_normal_def Let_def n_def vec_normalized_def)
  then have "vec_length_sq (edge_normal a b) = 1"
    using vec_normalized_length[OF l] by (metis vec_length_square mult_1)
  then show ?thesis using k_eps_small by simp
qed

lemma test_axes_None:
  assumes "test_axes pa pb c es st = None"
  shows "\<exists>n. vec_length_sq n = 1 \<and> \<not> overlap_1d (pa n) (pb n) > 0"
  using assms
proof (induction es arbitrary: st)
  case (Cons e es)
  then show ?case
    using axis_unit by (cases st) (fastforce simp: Let_def split: if_splits)
qed simp

text \<open>What the loop keeps: the penetration is positive, the axis a unit vector from the first shape to the second.\<close>

definition best_ok :: "vec2 \<Rightarrow> real option \<times> vec2 \<Rightarrow> bool" where
  "best_ok c st = (case fst st of None \<Rightarrow> snd st = vec 0 0
     | Some m \<Rightarrow> 0 < m \<and> vec_length_sq (snd st) = 1 \<and> 0 \<le> vec_dot (snd st) c)"

lemma toward_ok: "0 \<le> vec_dot (toward c n) c" "vec_length_sq (toward c n) = vec_length_sq n"
  by (auto simp: toward_def vec_dot_def vec_neg_def vec_length_sq_def algebra_simps)

lemma test_axes_Some:
  assumes "test_axes pa pb c es st = Some st'" "best_ok c st"
  shows "best_ok c st' \<and> (fst st \<noteq> None \<longrightarrow> fst st' \<noteq> None) \<and>
    (list_ex (\<lambda>(a, b). vec_length_sq (point_sub b a) > k_eps) es \<longrightarrow> fst st' \<noteq> None)"
  using assms
proof (induction es arbitrary: st)
  case (Cons e es)
  obtain mp ba where st: "st = (mp, ba)" by force
  define n where "n = edge_normal (fst e) (snd e)"
  show ?case
  proof (cases "vec_length_sq n \<le> k_eps")
    case True
    then have "\<not> vec_length_sq (point_sub (snd e) (fst e)) > k_eps"
      using axis_of_long_edge unfolding n_def by blast
    with Cons True show ?thesis by (auto simp: st n_def Let_def)
  next
    case False
    define pen where "pen = overlap_1d (pa n) (pb n)"
    let ?st = "if below pen mp then (Some pen, toward c n) else (mp, ba)"
    have pen: "0 < pen" and run: "test_axes pa pb c es ?st = Some st'"
      using Cons.prems(1) False by (simp_all add: st n_def[symmetric] pen_def Let_def split: if_splits)
    have ok: "best_ok c ?st"
      using Cons.prems(2) pen toward_ok[of c n] axis_unit[of "fst e" "snd e"] False
      by (auto simp: st best_ok_def n_def)
    have "fst ?st \<noteq> None" by (auto simp: below_def split: option.splits)
    with Cons.IH[OF run ok] show ?thesis by (auto simp: st)
  qed
qed simp


section \<open>The tests\<close>

definition hit_ok :: "vec2 \<Rightarrow> collision_result \<Rightarrow> bool" where
  "hit_ok c res \<longleftrightarrow> (\<exists>d>0. penetration_depth res = Some d) \<and> vec_length_sq (normal res) = 1 \<and>
     - k_eps \<le> vec_dot (normal res) c"

lemma unit_length: "vec_length_sq n = 1 \<Longrightarrow> vec_length n = 1"
  by (simp add: vec_length_def)

lemma unit_normalized: "vec_length_sq n = 1 \<Longrightarrow> vec_normalized n = n"
  using k_eps_small by (simp add: vec_normalized_def unit_length vec_div_def)

lemma result_of_hit:
  assumes "best_ok c (mp, ba)" "mp \<noteq> None"
  shows "hit_ok c (result_of mp ba)"
  using assms k_eps_small by (auto simp: best_ok_def hit_ok_def result_of_def Let_def unit_normalized)

lemma result_of_intersects [simp]: "intersects (result_of mp ba)" "intersects no_collision = False"
  by (simp_all add: result_of_def no_collision_def Let_def)

lemma best_ok_start [simp]: "best_ok c (None, vec 0 0)"
  by (simp add: best_ok_def)

lemma long_edge_list: "long_edge vs \<longleftrightarrow> list_ex (\<lambda>(a, b). vec_length_sq (point_sub b a) > k_eps) (edges_next vs)"
  by (simp add: long_edge_def)

lemma sat_polygon_polygon_sound:
  assumes "noncollinear a" "noncollinear b" "long_edge a"
  shows "if intersects (sat_polygon_polygon a b) then hit_ok (between_points (centroid a) (centroid b)) (sat_polygon_polygon a b)
    else separated (in_hull a) (in_hull b)"
proof -
  let ?c = "between_points (centroid a) (centroid b)"
  let ?test = "test_axes (project_polygon a) (project_polygon b) ?c"
  have ne: "a \<noteq> []" "b \<noteq> []" using assms by (auto simp: noncollinear_def)
  have sep: "separated (in_hull a) (in_hull b)" if "?test es st = None" for es st
  proof -
    from test_axes_None[OF that] obtain n where n: "vec_length_sq n = 1"
      "\<not> overlap_1d (project_polygon a n) (project_polygon b n) > 0" by blast
    show ?thesis
      by (rule no_overlap_separated[OF n(2) noncollinear_width[OF assms(1) n(1)] noncollinear_width[OF assms(2) n(1)] n(1)])
        (simp_all add: in_hull_range)
  qed
  show ?thesis
  proof (cases "?test (edges_next a) (None, vec 0 0)")
    case None
    with sep ne show ?thesis by (auto simp: sat_polygon_polygon_def Let_def)
  next
    case (Some st)
    with test_axes_Some[OF Some best_ok_start] assms(3)
    have st: "best_ok ?c st" "fst st \<noteq> None" by (simp_all add: long_edge_list)
    show ?thesis
    proof (cases "?test (edges_next b) st")
      case None
      with Some sep ne show ?thesis by (auto simp: sat_polygon_polygon_def Let_def)
    next
      case (Some st')
      with test_axes_Some[OF Some st(1)] st(2) result_of_hit[of ?c "fst st'" "snd st'"] ne \<open>?test (edges_next a) _ = Some st\<close>
      show ?thesis by (cases st') (simp add: sat_polygon_polygon_def Let_def)
    qed
  qed
qed

lemma unit_of_long: "vec_length v > k_eps \<Longrightarrow> vec_length_sq (vec_div v (vec_length v)) = 1"
  using vec_normalized_length[of v] by (simp add: vec_normalized_def) (metis vec_length_square mult_1)

lemma sat_polygon_circle_sound:
  assumes "noncollinear poly" "long_edge poly" "0 < r"
  shows "if intersects (sat_polygon_circle poly c r) then hit_ok (between_points (centroid poly) c) (sat_polygon_circle poly c r)
    else separated (in_hull poly) (\<lambda>q. distance c q \<le> r)"
proof -
  let ?c = "between_points (centroid poly) c"
  have ne: "poly \<noteq> []" using assms by (auto simp: noncollinear_def)
  have sep: "separated (in_hull poly) (\<lambda>q. distance c q \<le> r)"
    if "vec_length_sq n = 1" "\<not> overlap_1d (project_polygon poly n) (project_circle c r n) > 0" for n
    by (rule no_overlap_separated[OF that(2) noncollinear_width[OF assms(1) that(1)] circle_width[OF assms(3)] that(1)])
      (simp_all add: in_hull_range in_disc_range that(1))
  show ?thesis
  proof (cases "test_axes (project_polygon poly) (project_circle c r) ?c (edges_next poly) (None, vec 0 0)")
    case None
    with test_axes_None[OF None] sep ne show ?thesis by (auto simp: sat_polygon_circle_def Let_def)
  next
    case (Some st)
    obtain mp ba where st: "st = (mp, ba)" by force
    from test_axes_Some[OF Some best_ok_start] assms(2)
    have ok: "best_ok ?c (mp, ba)" "mp \<noteq> None" by (simp_all add: long_edge_list st)
    define ax where "ax = closest_axis poly c ba"
    define u where "u = vec_div ax (vec_length ax)"
    define pen where "pen = overlap_1d (project_polygon poly u) (project_circle c r u)"
    have res: "sat_polygon_circle poly c r =
        (if vec_length ax > k_eps
         then if \<not> pen > 0 then no_collision
              else if below pen mp then result_of (Some pen) (toward ?c u) else result_of mp ba
         else result_of mp ba)"
      using Some ne unfolding sat_polygon_circle_def by (simp add: st Let_def ax_def u_def pen_def)
    show ?thesis
    proof (cases "vec_length ax > k_eps")
      case True
      then have u: "vec_length_sq u = 1" unfolding u_def by (rule unit_of_long)
      have "hit_ok ?c (result_of (Some pen) (toward ?c u))" if "pen > 0"
        using that u toward_ok[of ?c u] by (intro result_of_hit) (simp_all add: best_ok_def)
      with True u sep[OF u] result_of_hit[OF ok] show ?thesis unfolding res pen_def by simp
    next
      case False
      with result_of_hit[OF ok] show ?thesis unfolding res by simp
    qed
  qed
qed

lemma sat_circle_circle_sound:
  assumes "0 < ra" "0 < rb"
  shows "if intersects (sat_circle_circle a ra b rb) then hit_ok (between_points a b) (sat_circle_circle a ra b rb)
    else separated (\<lambda>q. distance a q \<le> ra) (\<lambda>q. distance b q \<le> rb)"
proof -
  define d where "d = point_sub b a"
  have c: "between_points a b = d" by (simp add: between_points_def d_def point_sub_def vec_sub_def)
  have len: "vec_length d * vec_length d = vec_length_sq d" by (rule vec_length_square)
  show ?thesis
  proof (cases "vec_length_sq d \<ge> (ra + rb) * (ra + rb)")
    case True
    have "(ra + rb)\<^sup>2 \<le> vec_length_sq d" using True by (simp add: power2_eq_square)
    then have l: "ra + rb \<le> vec_length d" unfolding vec_length_def by (rule real_le_rsqrt)
    define n where "n = vec_div d (vec_length d)"
    have lpos: "0 < vec_length d" using l assms by linarith
    have n: "vec_length_sq n = 1"
    proof -
      have "vec_length_sq n = vec_length_sq d / (vec_length d * vec_length d)"
        by (simp add: n_def vec_length_sq_def vec_dot_def vec_div_def add_divide_distrib)
      then show ?thesis using lpos by (simp add: len[symmetric])
    qed
    have "vec_dot n d = vec_length d"
    proof -
      have "vec_dot n d = vec_length_sq d / vec_length d"
        by (simp add: n_def vec_dot_def vec_div_def vec_length_sq_def add_divide_distrib)
      then show ?thesis using lpos by (simp add: len[symmetric])
    qed
    then have nd: "along n b - along n a = vec_length d"
      by (simp add: vec_dot_def d_def point_sub_def algebra_simps)
    have "along n p \<le> along n a + ra" if "distance a p \<le> ra" for p
      using in_disc_range[OF that n] by (simp add: project_circle_def Let_def)
    moreover have "along n a + ra \<le> along n q" if "distance b q \<le> rb" for q
      using in_disc_range[OF that n] nd l by (simp add: project_circle_def Let_def)
    ultimately have "separated (\<lambda>q. distance a q \<le> ra) (\<lambda>q. distance b q \<le> rb)"
      using n unfolding separated_def by blast
    then show ?thesis using True by (simp add: sat_circle_circle_def Let_def d_def)
  next
    case False
    have "(vec_length d)\<^sup>2 < (ra + rb)\<^sup>2" using False len by (simp add: power2_eq_square)
    then have l: "vec_length d < ra + rb" by (rule power2_less_imp_less) (use assms in simp)
    let ?n = "if vec_length d > k_eps then vec_div d (vec_length d) else vec 1 0"
    have res: "sat_circle_circle a ra b rb = \<lparr>intersects = True, penetration_depth = Some (ra + rb - vec_length d), normal = ?n\<rparr>"
      using False by (simp add: sat_circle_circle_def Let_def d_def[symmetric] vec_length_def)
    have unit: "vec_length_sq ?n = 1" using unit_of_long[of d] by (simp add: vec_length_sq_def vec_dot_def)
    have "- k_eps \<le> vec_dot ?n d"
    proof (cases "vec_length d > k_eps")
      case True
      have "0 \<le> vec_length_sq d / vec_length d" by (rule divide_nonneg_nonneg) simp_all
      moreover have "vec_dot (vec_div d (vec_length d)) d = vec_length_sq d / vec_length d"
        by (simp add: vec_dot_def vec_div_def vec_length_sq_def add_divide_distrib)
      ultimately show ?thesis using True k_eps_small(1) by (simp only: if_True)
    next
      case False
      have "\<bar>vx d\<bar> \<le> vec_length d" unfolding vec_length_def vec_length_sq_def vec_dot_def
        by (rule real_le_rsqrt) (simp add: power2_eq_square)
      with False show ?thesis by (simp add: vec_dot_def)
    qed
    with unit l show ?thesis by (simp add: res hit_ok_def c)
  qed
qed


section \<open>Properties\<close>

text \<open>The points of the plane under a shape at a pose.\<close>

definition shape_region :: "shape2 \<Rightarrow> pose2 \<Rightarrow> point2 \<Rightarrow> bool" where
  "shape_region s pose q \<longleftrightarrow> (\<exists>p. shape_covers s p \<and> q = transform_point pose p)"

lemma in_hull_transform: "in_hull vs p \<Longrightarrow> in_hull (transform_polygon vs pose) (transform_point pose p)"
proof (induction rule: in_hull.induct)
  case (vertex p)
  then show ?case by (intro in_hull.vertex) (simp add: transform_polygon_def)
next
  case (mix p q t)
  then show ?case unfolding transform_segment_at by (intro in_hull.mix)
qed

lemma box_in_hull:
  assumes "0 < hx" "0 < hy" "\<bar>px p\<bar> \<le> hx" "\<bar>py p\<bar> \<le> hy"
  shows "in_hull (to_polygon (Box2 hx hy)) p"
proof -
  define t where "t = (px p + hx) / (2 * hx)"
  define u where "u = (py p + hy) / (2 * hy)"
  have t: "0 \<le> t" "t \<le> 1" and u: "0 \<le> u" "u \<le> 1" using assms by (auto simp: t_def u_def field_simps)
  have x: "- hx + 2 * hx * t = px p" "- hy + 2 * hy * u = py p" using assms by (simp_all add: t_def u_def)
  let ?low = "segment_at (pt (- hx) (- hy)) (pt hx (- hy)) t" and ?high = "segment_at (pt (- hx) hy) (pt hx hy) t"
  have "in_hull (to_polygon (Box2 hx hy)) (segment_at ?low ?high u)"
    by (intro in_hull.mix in_hull.vertex t u) simp_all
  moreover have "segment_at ?low ?high u = p"
    using x by (simp add: segment_at_def algebra_simps)
  ultimately show ?thesis by simp
qed

lemma region_hull:
  assumes "solid s" "\<forall>r. s \<noteq> Circle r" "shape_region s pose q"
  shows "in_hull (transform_polygon (to_polygon s) pose) q"
proof -
  from assms(3) obtain p where p: "shape_covers s p" "q = transform_point pose p" by (auto simp: shape_region_def)
  have "in_hull (to_polygon s) p" using assms(1,2) p(1) box_in_hull by (cases s) (simp_all del: to_polygon.simps, simp)
  with p(2) show ?thesis by (simp add: in_hull_transform)
qed

lemma region_disc:
  assumes "0 < r" "shape_region (Circle r) pose q"
  shows "distance (transform_point pose (pt 0 0)) q \<le> r"
proof -
  from assms(2) obtain p where p: "px p * px p + py p * py p \<le> r * r" "q = transform_point pose p"
    by (auto simp: shape_region_def)
  have "distance (pt 0 0) p \<le> r" using p(1) assms(1) by (simp add: distance_le_iff) (simp add: geom_simps power2_eq_square)
  with p(2) show ?thesis by (simp add: distance_transform)
qed

lemma separated_mono: "separated A B \<Longrightarrow> (\<And>p. A' p \<Longrightarrow> A p) \<Longrightarrow> (\<And>q. B' q \<Longrightarrow> B q) \<Longrightarrow> separated A' B'"
  unfolding separated_def by blast

definition shape_center :: "shape2 \<Rightarrow> pose2 \<Rightarrow> point2" where
  "shape_center s pose =
     (case s of Circle r \<Rightarrow> transform_point pose (pt 0 0) | _ \<Rightarrow> centroid (transform_polygon (to_polygon s) pose))"

lemma flip_normal_ok:
  assumes "if intersects res then hit_ok (between_points a b) res else separated A B"
  shows "if intersects (flip_normal res) then hit_ok (between_points b a) (flip_normal res) else separated B A"
proof (cases "intersects res")
  case True
  have n: "vec_length_sq (vec_neg (normal res)) = 1"
    using assms True by (simp add: hit_ok_def vec_neg_def vec_length_sq_def vec_dot_def)
  have "vec_dot (vec_neg (normal res)) (between_points b a) = vec_dot (normal res) (between_points a b)"
    by (simp add: vec_dot_def vec_neg_def between_points_def vec_sub_def algebra_simps)
  with assms True n k_eps_small show ?thesis
    by (simp add: flip_normal_def hit_ok_def Let_def unit_normalized)
next
  case False
  with assms separated_sym show ?thesis by (simp add: flip_normal_def)
qed

lemma solid_world:
  "solid s \<Longrightarrow> (\<forall>r. s \<noteq> Circle r) \<Longrightarrow>
     noncollinear (transform_polygon (to_polygon s) pose) \<and> long_edge (transform_polygon (to_polygon s) pose)"
  by (cases s) (simp_all add: noncollinear_transform long_edge_transform)

lemma round_or_not:
  obtains (round) r where "s = Circle r" | (poly) "\<forall>r. s \<noteq> Circle r"
  by blast

lemma circle_center: "shape_center (Circle r) pose = transform_point pose (pt 0 0)"
  by (simp add: shape_center_def)

lemma polygon_center: "\<forall>r. s \<noteq> Circle r \<Longrightarrow> shape_center s pose = centroid (transform_polygon (to_polygon s) pose)"
  by (cases s) (simp_all add: shape_center_def)

lemma sound_mono:
  "(if intersects res then hit_ok c res else separated A B) \<Longrightarrow> (\<And>p. A' p \<Longrightarrow> A p) \<Longrightarrow> (\<And>q. B' q \<Longrightarrow> B q) \<Longrightarrow>
     (if intersects res then hit_ok c res else separated A' B')"
  using separated_mono by (auto split: if_splits)

lemma collide_cases:
  assumes "z_ranges_overlap (z_min a) (z_max a) (z_min b) (z_max b)"
  shows "base a = Circle ra \<Longrightarrow> base b = Circle rb \<Longrightarrow> collide_shapes a pa b pb =
      sat_circle_circle (transform_point pa (pt 0 0)) ra (transform_point pb (pt 0 0)) rb"
    "base a = Circle ra \<Longrightarrow> \<forall>r. base b \<noteq> Circle r \<Longrightarrow> collide_shapes a pa b pb =
      flip_normal (sat_polygon_circle (transform_polygon (to_polygon (base b)) pb) (transform_point pa (pt 0 0)) ra)"
    "\<forall>r. base a \<noteq> Circle r \<Longrightarrow> base b = Circle rb \<Longrightarrow> collide_shapes a pa b pb =
      sat_polygon_circle (transform_polygon (to_polygon (base a)) pa) (transform_point pb (pt 0 0)) rb"
    "\<forall>r. base a \<noteq> Circle r \<Longrightarrow> \<forall>r. base b \<noteq> Circle r \<Longrightarrow> collide_shapes a pa b pb =
      sat_polygon_polygon (transform_polygon (to_polygon (base a)) pa) (transform_polygon (to_polygon (base b)) pb)"
  using assms by (auto simp: collide_shapes_def split: shape2.split)

lemma collide_shapes_cases_sound:
  assumes "solid (base a)" "solid (base b)" "z_ranges_overlap (z_min a) (z_max a) (z_min b) (z_max b)"
  shows "if intersects (collide_shapes a pa b pb)
    then hit_ok (between_points (shape_center (base a) pa) (shape_center (base b) pb)) (collide_shapes a pa b pb)
    else separated (shape_region (base a) pa) (shape_region (base b) pb)"
proof (cases "base a" rule: round_or_not)
  case a: (round ra)
  have ra: "0 < ra" using assms(1) a by simp
  show ?thesis
  proof (cases "base b" rule: round_or_not)
    case b: (round rb)
    have rb: "0 < rb" using assms(2) b by simp
    show ?thesis
      unfolding collide_cases(1)[OF assms(3) a b] unfolding a b circle_center
      by (rule sound_mono[OF sat_circle_circle_sound[OF ra rb] region_disc[OF ra] region_disc[OF rb]])
  next
    case poly
    note w = solid_world[OF assms(2) poly, of pb]
    show ?thesis
      unfolding collide_cases(2)[OF assms(3) a poly] polygon_center[OF poly] unfolding a circle_center
      by (rule sound_mono[OF flip_normal_ok[OF sat_polygon_circle_sound[OF w[THEN conjunct1] w[THEN conjunct2] ra]]
            region_disc[OF ra] region_hull[OF assms(2) poly]])
  qed
next
  case a: poly
  note wa = solid_world[OF assms(1) a, of pa]
  show ?thesis
  proof (cases "base b" rule: round_or_not)
    case b: (round rb)
    have rb: "0 < rb" using assms(2) b by simp
    show ?thesis
      unfolding collide_cases(3)[OF assms(3) a b] polygon_center[OF a] unfolding b circle_center
      by (rule sound_mono[OF sat_polygon_circle_sound[OF wa[THEN conjunct1] wa[THEN conjunct2] rb]
            region_hull[OF assms(1) a] region_disc[OF rb]])
  next
    case poly
    note wb = solid_world[OF assms(2) poly, of pb]
    show ?thesis
      unfolding collide_cases(4)[OF assms(3) a poly] polygon_center[OF a] polygon_center[OF poly]
      by (rule sound_mono[OF sat_polygon_polygon_sound[OF wa[THEN conjunct1] wb[THEN conjunct1] wa[THEN conjunct2]]
            region_hull[OF assms(1) a] region_hull[OF assms(2) poly]])
  qed
qed


definition demo_disc :: shape2p5 where
  "demo_disc = \<lparr>base = Circle 1, z_min = 0, z_max = 2\<rparr>"


end
