(* ===== verification/Severity.thy ===== *)
theory Severity
  imports RL NarrowPhase
begin

text \<open>
  How bad a collision of the robot is: \<^verbatim>\<open>compute_collision_severity\<close> of \<^verbatim>\<open>sim/world.cpp\<close>. The
  worst penetration, the impact velocity, the speed, the number of contacts and the presence of a
  dynamic object give a score, and the score a level. A penetration without bound is \<open>None\<close>, as in
  the narrow phase.
\<close>

section \<open>The computation\<close>

definition max_depth :: "real option \<Rightarrow> real option \<Rightarrow> real option" where
  "max_depth a b = (case (a, b) of (Some x, Some y) \<Rightarrow> Some (max x y) | _ \<Rightarrow> None)"

definition velocity_in_world :: "twist2 \<Rightarrow> pose2 \<Rightarrow> vec2" where
  "velocity_in_world v p =
     (let c = cos (yaw p); s = sin (yaw p)
      in vec (vx (linear v) * c - vy (linear v) * s) (vx (linear v) * s + vy (linear v) * c))"

text \<open>One contact: the flag, the worst penetration and the worst velocity against the normal.\<close>

definition worst_contact :: "vec2 \<Rightarrow> collision_contact \<times> collision_result \<Rightarrow> bool \<times> real option \<times> real
    \<Rightarrow> bool \<times> real option \<times> real" where
  "worst_contact vel = (\<lambda>(contact, res) (dyn, pen, imp).
     let impact_vel = vx vel * vx (normal res) + vy vel * vy (normal res)
     in (dyn \<or> other_is_dynamic contact, max_depth pen (penetration_depth res),
         if impact_vel < 0 then max imp \<bar>impact_vel\<bar> else imp))"

definition stepped_score :: "real \<Rightarrow> real \<Rightarrow> real \<Rightarrow> real \<Rightarrow> real" where
  "stepped_score minor moderate severe x =
     (if x \<ge> severe then 1 else if x \<ge> moderate then 6 / 10 else if x \<ge> minor then 3 / 10
      else min 1 (x / minor * (3 / 10)))"

definition penetration_score :: "real option \<Rightarrow> real" where
  "penetration_score pen = (case pen of None \<Rightarrow> 1 | Some d \<Rightarrow> stepped_score (1 / 100) (5 / 100) (15 / 100) d)"

definition speed_score :: "real \<Rightarrow> real" where
  "speed_score v = stepped_score (5 / 10) (15 / 10) 3 v"

definition impact_score :: "real \<Rightarrow> real" where
  "impact_score v = (if v > 0 then stepped_score (3 / 10) 1 2 v else 0)"

definition contact_score :: "nat \<Rightarrow> real" where
  "contact_score n = (if n \<ge> 3 then 1 else if n = 2 then 5 / 10 else 2 / 10)"

definition level_of :: "real \<Rightarrow> severity_level" where
  "level_of score =
     (if score \<ge> 75 / 100 then CRITICAL else if score \<ge> 50 / 100 then SEVERE
      else if score \<ge> 30 / 100 then MODERATE else if score \<ge> 10 / 100 then MINOR else NONE)"

definition compute_collision_severity :: "collision_contact list \<Rightarrow> collision_result list \<Rightarrow> twist2 \<Rightarrow> pose2
    \<Rightarrow> collision_severity" where
  "compute_collision_severity contacts results velocity pose =
     (if contacts = [] then no_severity\<lparr>contact_count := length contacts\<rparr>
      else let vel = velocity_in_world velocity pose;
               spd = sqrt (vx vel * vx vel + vy vel * vy vel);
               (dyn, pen, imp) = fold (worst_contact vel) (zip contacts results) (False, Some 0, 0);
               score = 30 / 100 * penetration_score pen + 25 / 100 * impact_score imp + 20 / 100 * speed_score spd +
                       15 / 100 * contact_score (length contacts) + 10 / 100 * (if dyn then 1 else 0)
           in \<lparr>severity_level = level_of score, sev_score = score, sev_penetration = pen, impact_velocity = imp,
               robot_speed = spd, contact_count = length contacts, has_dynamic_contact = dyn\<rparr>)"

section \<open>Bounds\<close>

lemma stepped_score_unit: "0 < a \<Longrightarrow> 0 \<le> x \<Longrightarrow> 0 \<le> stepped_score a b c x \<and> stepped_score a b c x \<le> 1"
  by (auto simp: stepped_score_def)

lemma penetration_score_unit: "(case pen of None \<Rightarrow> True | Some d \<Rightarrow> 0 \<le> d) \<Longrightarrow> 0 \<le> penetration_score pen \<and> penetration_score pen \<le> 1"
  using stepped_score_unit[of "1 / 100"] by (auto simp: penetration_score_def split: option.splits)

lemma impact_score_unit: "0 \<le> v \<Longrightarrow> 0 \<le> impact_score v \<and> impact_score v \<le> 1"
  using stepped_score_unit[of "3 / 10" v 1 2] by (auto simp: impact_score_def)

lemma speed_score_unit: "0 \<le> v \<Longrightarrow> 0 \<le> speed_score v \<and> speed_score v \<le> 1"
  using stepped_score_unit[of "5 / 10" v] by (auto simp: speed_score_def)

lemma contact_score_unit: "2 / 10 \<le> contact_score n \<and> contact_score n \<le> 1"
  by (simp add: contact_score_def)

lemma max_depth_nonneg: "(case a of None \<Rightarrow> True | Some d \<Rightarrow> 0 \<le> d) \<Longrightarrow> (case max_depth a b of None \<Rightarrow> True | Some d \<Rightarrow> (0::real) \<le> d)"
  by (auto simp: max_depth_def split: option.splits)

text \<open>The fold collects the flag of a dynamic contact and the worst values.\<close>

abbreviation normal_speed :: "vec2 \<Rightarrow> collision_contact \<times> collision_result \<Rightarrow> real" where
  "normal_speed vel x \<equiv> vx vel * vx (normal (snd x)) + vy vel * vy (normal (snd x))"

lemma worst_contacts:
  assumes "(case pen of None \<Rightarrow> True | Some d \<Rightarrow> 0 \<le> d)" "0 \<le> imp" "fold (worst_contact vel) xs (dyn, pen, imp) = (dyn', pen', imp')"
  shows "(case pen' of None \<Rightarrow> True | Some d \<Rightarrow> 0 \<le> d) \<and> imp \<le> imp' \<and> (dyn' \<longleftrightarrow> dyn \<or> (\<exists>x\<in>set xs. other_is_dynamic (fst x))) \<and>
    (\<forall>x\<in>set xs. normal_speed vel x < 0 \<longrightarrow> \<bar>normal_speed vel x\<bar> \<le> imp') \<and>
    ((\<forall>x\<in>set xs. 0 \<le> normal_speed vel x) \<longrightarrow> imp' = imp)"
  using assms
proof (induction xs arbitrary: dyn pen imp)
  case (Cons x xs)
  define imp1 where "imp1 = (if normal_speed vel x < 0 then max imp \<bar>normal_speed vel x\<bar> else imp)"
  have i: "imp \<le> imp1" "0 \<le> imp1" "normal_speed vel x < 0 \<Longrightarrow> \<bar>normal_speed vel x\<bar> \<le> imp1" "0 \<le> normal_speed vel x \<Longrightarrow> imp1 = imp"
    using Cons.prems(2) by (auto simp: imp1_def)
  have run: "fold (worst_contact vel) xs (dyn \<or> other_is_dynamic (fst x), max_depth pen (penetration_depth (snd x)), imp1) = (dyn', pen', imp')"
    using Cons.prems(3) by (cases x) (simp only: fold_simps comp_def worst_contact_def Let_def prod.case imp1_def fst_conv snd_conv)
  from Cons.IH[OF max_depth_nonneg[OF Cons.prems(1)] i(2) run] i(1,3,4) show ?case by force
qed auto

lemma weighted_unit:
  fixes a b c d e :: real
  assumes "0 \<le> a \<and> a \<le> 1" "0 \<le> b \<and> b \<le> 1" "0 \<le> c \<and> c \<le> 1" "2 / 10 \<le> d \<and> d \<le> 1" "0 \<le> e \<and> e \<le> 1"
  shows "3 / 100 \<le> 30 / 100 * a + 25 / 100 * b + 20 / 100 * c + 15 / 100 * d + 10 / 100 * e \<and>
    30 / 100 * a + 25 / 100 * b + 20 / 100 * c + 15 / 100 * d + 10 / 100 * e \<le> 1"
  using assms by linarith

text \<open>The score is a proportion, and the level says in which range it lies.\<close>

lemma severity_score_unit:
  assumes "contacts \<noteq> []"
  shows "3 / 100 \<le> sev_score (compute_collision_severity contacts results v p) \<and> sev_score (compute_collision_severity contacts results v p) \<le> 1 \<and>
    severity_level (compute_collision_severity contacts results v p) = level_of (sev_score (compute_collision_severity contacts results v p))"
proof -
  let ?vel = "velocity_in_world v p"
  obtain dyn pen imp where f: "fold (worst_contact ?vel) (zip contacts results) (False, Some 0, 0) = (dyn, pen, imp)"
    by (metis prod_cases3)
  from worst_contacts[OF _ _ f] have "(case pen of None \<Rightarrow> True | Some d \<Rightarrow> 0 \<le> d)" "0 \<le> imp" by auto
  then have b: "0 \<le> penetration_score pen \<and> penetration_score pen \<le> 1" "0 \<le> impact_score imp \<and> impact_score imp \<le> 1"
    using penetration_score_unit[of pen] impact_score_unit[of imp] by simp_all
  let ?spd = "sqrt (vx ?vel * vx ?vel + vy ?vel * vy ?vel)"
  have s: "0 \<le> speed_score ?spd \<and> speed_score ?spd \<le> 1" by (rule speed_score_unit) simp
  have e: "sev_score (compute_collision_severity contacts results v p) = 30 / 100 * penetration_score pen + 25 / 100 * impact_score imp +
      20 / 100 * speed_score ?spd + 15 / 100 * contact_score (length contacts) + 10 / 100 * (if dyn then 1 else 0)"
    "severity_level (compute_collision_severity contacts results v p) = level_of (sev_score (compute_collision_severity contacts results v p))"
    using assms by (simp_all add: compute_collision_severity_def Let_def f)
  have "3 / 100 \<le> sev_score (compute_collision_severity contacts results v p) \<and>
      sev_score (compute_collision_severity contacts results v p) \<le> 1"
    unfolding e(1) by (rule weighted_unit[OF b s contact_score_unit]) simp
  with e(2) show ?thesis by blast
qed

section \<open>Properties\<close>



end
