(* ===== verification/BVH.thy ===== *)
theory BVH
  imports Shapes
begin

text \<open>
  Bounding volume hierarchies: \<^verbatim>\<open>collision/bvh.hpp\<close> and the per-model tree \<^verbatim>\<open>BLAS2\<close> of
  \<^verbatim>\<open>bvh.cpp\<close>. A tree is the code's vector of nodes that refer to each other by index
  (\<^verbatim>\<open>kInvalid\<close> is \<open>None\<close>). The abstract view is a binary tree of leaf indices
  and its preorder \<open>layout\<close>: the recursive build appends exactly that layout, so every
  later claim about the node vector is an equation with it.
\<close>

section \<open>Nodes\<close>

record bvh_node =
  bounds :: aabb2
  left :: "nat option"
  right :: "nat option"
  parent :: "nat option"
  leaf :: "nat option"

definition default_node :: bvh_node where
  "default_node = \<lparr>bounds = \<lparr>bmin = pt 0 0, bmax = pt 0 0\<rparr>, left = None, right = None,
     parent = None, leaf = None\<rparr>"

definition is_leaf :: "bvh_node \<Rightarrow> bool" where
  "is_leaf n \<longleftrightarrow> leaf n \<noteq> None"

section \<open>The partition step\<close>

text \<open>
  \<^verbatim>\<open>std::ranges::nth_element\<close> rearranges the range around a position; which
  rearrangement it is depends on the library. The type holds every implementation that only
  rearranges; the claims hold for all of them. Sorting by insertion is one of them.
\<close>

fun insort_by :: "(nat \<Rightarrow> nat \<Rightarrow> bool) \<Rightarrow> nat \<Rightarrow> nat list \<Rightarrow> nat list" where
  "insort_by lt x [] = [x]"
| "insort_by lt x (y # ys) = (if lt y x then y # insort_by lt x ys else x # y # ys)"

definition sort_range :: "(nat \<Rightarrow> nat \<Rightarrow> bool) \<Rightarrow> nat \<Rightarrow> nat list \<Rightarrow> nat list" where
  "sort_range lt k xs = foldr (insort_by lt) xs []"

lemma mset_insort_by [simp]: "mset (insort_by lt x xs) = add_mset x (mset xs)"
  by (induction xs) auto

lemma mset_sort_range [simp]: "mset (sort_range lt k xs) = mset xs"
  unfolding sort_range_def by (induction xs) auto

typedef nth_element_impl =
  "{f :: (nat \<Rightarrow> nat \<Rightarrow> bool) \<Rightarrow> nat \<Rightarrow> nat list \<Rightarrow> nat list. \<forall>lt k xs. mset (f lt k xs) = mset xs}"
  morphisms nth_element Nth_Element
  by (rule exI[of _ sort_range]) simp

setup_lifting type_definition_nth_element_impl

lift_definition nth_by_sort :: nth_element_impl is sort_range
  by simp

lemma mset_nth_element [simp]: "mset (nth_element ne lt k xs) = mset xs"
  using nth_element[of ne] by simp

lemma length_nth_element [simp]: "length (nth_element ne lt k xs) = length xs"
  by (metis mset_nth_element size_mset)

lemma set_nth_element [simp]: "set (nth_element ne lt k xs) = set xs"
  by (metis mset_nth_element set_mset_mset)

text \<open>The code's partition of a range: merge the boxes, take the longer axis, split at the middle.\<close>

definition range_bounds :: "(nat \<Rightarrow> aabb2) \<Rightarrow> nat list \<Rightarrow> aabb2" where
  "range_bounds lb idxs = fold (\<lambda>i b. aabb_merge b (lb i)) (tl idxs) (lb (hd idxs))"

definition center_less :: "nat \<Rightarrow> (nat \<Rightarrow> aabb2) \<Rightarrow> nat \<Rightarrow> nat \<Rightarrow> bool" where
  "center_less axis lb lhs rhs =
     (let lc = aabb_center (lb lhs); rc = aabb_center (lb rhs)
      in if axis = 0 then px lc < px rc else py lc < py rc)"

definition partition_range :: "nth_element_impl \<Rightarrow> (nat \<Rightarrow> aabb2) \<Rightarrow> nat list \<Rightarrow> nat list" where
  "partition_range ne lb idxs =
     (let axis = aabb_longest_axis (range_bounds lb idxs); mid = length idxs div 2
      in nth_element ne (center_less axis lb) mid idxs)"

lemma partition_range_simps [simp]:
  "mset (partition_range ne lb idxs) = mset idxs"
  "length (partition_range ne lb idxs) = length idxs"
  "set (partition_range ne lb idxs) = set idxs"
  by (simp_all add: partition_range_def Let_def)

section \<open>The abstract tree and its layout\<close>

datatype bvh_tree = Tip nat | Fork bvh_tree bvh_tree

fun tree_leaves :: "bvh_tree \<Rightarrow> nat list" where
  "tree_leaves (Tip k) = [k]"
| "tree_leaves (Fork l r) = tree_leaves l @ tree_leaves r"

fun tree_nodes :: "bvh_tree \<Rightarrow> nat" where
  "tree_nodes (Tip k) = 1"
| "tree_nodes (Fork l r) = 1 + tree_nodes l + tree_nodes r"

fun tree_height :: "bvh_tree \<Rightarrow> nat" where
  "tree_height (Tip k) = 0"
| "tree_height (Fork l r) = 1 + max (tree_height l) (tree_height r)"

fun tree_box :: "(nat \<Rightarrow> aabb2) \<Rightarrow> bvh_tree \<Rightarrow> aabb2" where
  "tree_box lb (Tip k) = lb k"
| "tree_box lb (Fork l r) = aabb_merge (tree_box lb l) (tree_box lb r)"

fun layout :: "(nat \<Rightarrow> aabb2) \<Rightarrow> nat option \<Rightarrow> nat \<Rightarrow> bvh_tree \<Rightarrow> bvh_node list" where
  "layout lb par i (Tip k) =
     [\<lparr>bounds = lb k, left = None, right = None, parent = par, leaf = Some k\<rparr>]"
| "layout lb par i (Fork l r) =
     \<lparr>bounds = tree_box lb (Fork l r), left = Some (Suc i), right = Some (Suc i + tree_nodes l),
      parent = par, leaf = None\<rparr>
     # layout lb (Some i) (Suc i) l @ layout lb (Some i) (Suc i + tree_nodes l) r"

fun tip_pos :: "nat \<Rightarrow> bvh_tree \<Rightarrow> nat \<Rightarrow> nat" where
  "tip_pos i (Tip k) j = i"
| "tip_pos i (Fork l r) j =
     (if j \<in> set (tree_leaves l) then tip_pos (Suc i) l j else tip_pos (Suc i + tree_nodes l) r j)"

lemma length_layout [simp]: "length (layout lb par i t) = tree_nodes t"
  by (induction t arbitrary: par i) auto

lemma tree_nodes_leaves: "Suc (tree_nodes t) = 2 * length (tree_leaves t)"
  by (induction t) auto

lemma tree_nodes_pos [simp]: "0 < tree_nodes t"
  by (cases t) auto

lemma tree_leaves_nonempty [simp]: "tree_leaves t \<noteq> []"
  by (induction t) auto

lemma layout_root_bounds [simp]: "bounds (layout lb par i t ! 0) = tree_box lb t"
  by (cases t) auto

lemma nth_layout_root [simp]:
  "bounds ((pre @ layout lb par i t @ post) ! length pre) = tree_box lb t"
  by (simp add: nth_append)

lemma tree_box_cong: "(\<And>k. k \<in> set (tree_leaves t) \<Longrightarrow> f k = g k) \<Longrightarrow> tree_box f t = tree_box g t"
  by (induction t) auto

lemma layout_cong:
  "(\<And>k. k \<in> set (tree_leaves t) \<Longrightarrow> f k = g k) \<Longrightarrow> layout f par i t = layout g par i t"
proof (induction t arbitrary: par i)
  case (Fork l r)
  then have "tree_box f l = tree_box g l" "tree_box f r = tree_box g r"
    by (auto intro: tree_box_cong)
  with Fork show ?case by simp
qed simp

lemma tree_box_covers: "k \<in> set (tree_leaves t) \<Longrightarrow> aabb_contains_box (tree_box lb t) (lb k)"
  by (induction t) (auto intro: contains_box_trans merge_contains_left merge_contains_right)

lemma tree_box_least:
  "(\<And>k. k \<in> set (tree_leaves t) \<Longrightarrow> aabb_contains_box u (lb k)) \<Longrightarrow>
     aabb_contains_box u (tree_box lb t)"
  by (induction t) (auto intro: merge_least)

lemma tip_pos_bounds:
  "j \<in> set (tree_leaves t) \<Longrightarrow> i \<le> tip_pos i t j \<and> tip_pos i t j < i + tree_nodes t"
proof (induction t arbitrary: i)
  case (Fork l r)
  show ?case
  proof (cases "j \<in> set (tree_leaves l)")
    case True
    with Fork.IH(1)[of "Suc i"] show ?thesis by auto
  next
    case False
    with Fork.prems Fork.IH(2)[of "Suc i + tree_nodes l"] show ?thesis by auto
  qed
qed simp

section \<open>The tree the partition yields\<close>

function partition_tree :: "nth_element_impl \<Rightarrow> (nat \<Rightarrow> aabb2) \<Rightarrow> nat list \<Rightarrow> bvh_tree" where
  "partition_tree ne lb idxs =
     (if length idxs \<le> 1 then Tip (hd idxs)
      else let r = partition_range ne lb idxs; mid = length idxs div 2
           in Fork (partition_tree ne lb (take mid r)) (partition_tree ne lb (drop mid r)))"
  by pat_completeness auto
termination by (relation "measure (\<lambda>(ne, lb, idxs). length idxs)") auto

declare partition_tree.simps [simp del]

lemma partition_tree_one [simp]: "partition_tree ne lb [k] = Tip k"
  by (simp add: partition_tree.simps)

lemma partition_tree_fork:
  assumes "partition_range ne lb idxs = xs @ ys" "length xs = length idxs div 2" "2 \<le> length idxs"
  shows "partition_tree ne lb idxs = Fork (partition_tree ne lb xs) (partition_tree ne lb ys)"
  using assms by (subst partition_tree.simps) (simp add: Let_def)

lemma partition_tree_leaves: "idxs \<noteq> [] \<Longrightarrow> mset (tree_leaves (partition_tree ne lb idxs)) = mset idxs"
proof (induction ne lb idxs rule: partition_tree.induct)
  case (1 ne lb idxs)
  show ?case
  proof (cases "length idxs \<le> 1")
    case True
    with 1(3) show ?thesis by (cases idxs) (auto simp: partition_tree.simps)
  next
    case False
    let ?r = "partition_range ne lb idxs" and ?m = "length idxs div 2"
    have ne: "?r \<noteq> []" "take ?m ?r \<noteq> []" "drop ?m ?r \<noteq> []"
      using False by (auto simp flip: length_greater_0_conv)
    have "mset (tree_leaves (partition_tree ne lb idxs)) = mset (take ?m ?r) + mset (drop ?m ?r)"
      using False 1(1)[OF False refl refl ne(2)] 1(2)[OF False refl refl ne(3)]
      by (subst partition_tree.simps) (simp add: Let_def)
    also have "\<dots> = mset ?r" by (metis append_take_drop_id mset_append)
    finally show ?thesis by simp
  qed
qed

lemma partition_tree_size:
  "idxs \<noteq> [] \<Longrightarrow> Suc (tree_nodes (partition_tree ne lb idxs)) = 2 * length idxs"
  by (metis partition_tree_leaves size_mset tree_nodes_leaves)

lemma partition_tree_height:
  "2 \<le> length idxs \<Longrightarrow> 2 ^ tree_height (partition_tree ne lb idxs) \<le> 2 * (length idxs - 1)"
proof (induction ne lb idxs rule: partition_tree.induct)
  case (1 ne lb idxs)
  let ?r = "partition_range ne lb idxs" and ?m = "length idxs div 2"
  let ?L = "partition_tree ne lb (take ?m ?r)" and ?R = "partition_tree ne lb (drop ?m ?r)"
  have False: "\<not> length idxs \<le> 1" using 1(3) by simp
  have *: "2 ^ tree_height (partition_tree ne lb xs) \<le> length idxs - 1"
    if "2 \<le> length xs \<Longrightarrow> 2 ^ tree_height (partition_tree ne lb xs) \<le> 2 * (length xs - 1)"
      "2 * length xs \<le> length idxs + 1" for xs
  proof (cases "2 \<le> length xs")
    case True with that show ?thesis by linarith
  next
    case False
    with 1(3) show ?thesis by (subst partition_tree.simps) simp
  qed
  have "2 ^ tree_height ?L \<le> length idxs - 1"
    using 1(3) by (intro * 1(1)[OF False refl refl]) auto
  moreover have "2 ^ tree_height ?R \<le> length idxs - 1"
    using 1(3) by (intro * 1(2)[OF False refl refl]) auto
  ultimately show ?case
    by (subst partition_tree.simps) (use False in \<open>auto simp: Let_def max_def\<close>)
qed

lemma partition_tree_height_le:
  assumes "idxs \<noteq> []" shows "2 ^ tree_height (partition_tree ne lb idxs) \<le> 2 * length idxs"
proof (cases "length idxs \<le> 1")
  case True
  then show ?thesis using assms by (subst partition_tree.simps) (cases idxs, auto)
next
  case False
  then show ?thesis using partition_tree_height[of idxs ne lb] by simp
qed

section \<open>Appending a fork\<close>

text \<open>
  The last steps of a fork in both recursive builds: with the node pushed and its two
  subtrees laid out behind it, the child links and the merged box make the fork's layout.
\<close>

definition set_left :: "nat \<Rightarrow> nat option \<Rightarrow> bvh_node list \<Rightarrow> bvh_node list" where
  "set_left i c ns = ns[i := (ns ! i)\<lparr>left := c\<rparr>]"

definition set_right :: "nat \<Rightarrow> nat option \<Rightarrow> bvh_node list \<Rightarrow> bvh_node list" where
  "set_right i c ns = ns[i := (ns ! i)\<lparr>right := c\<rparr>]"

definition set_bounds :: "nat \<Rightarrow> aabb2 \<Rightarrow> bvh_node list \<Rightarrow> bvh_node list" where
  "set_bounds i b ns = ns[i := (ns ! i)\<lparr>bounds := b\<rparr>]"

definition set_tip :: "nat \<Rightarrow> aabb2 \<Rightarrow> nat \<Rightarrow> bvh_node list \<Rightarrow> bvh_node list" where
  "set_tip i b k ns = ns[i := (ns ! i)\<lparr>bounds := b, leaf := Some k\<rparr>]"

definition push_node :: "nat option \<Rightarrow> bvh_node list \<Rightarrow> bvh_node list" where
  "push_node par ns = ns @ [default_node\<lparr>parent := par\<rparr>]"

lemmas node_update_defs = set_left_def set_right_def set_bounds_def set_tip_def push_node_def

lemma length_set_bounds [simp]: "length (set_bounds i b ns) = length ns"
  by (simp add: set_bounds_def)

lemma length_push_node [simp]: "length (push_node par ns) = Suc (length ns)"
  by (simp add: push_node_def)

lemma set_tip_push: "set_tip (length ns) b k (push_node par ns) =
    ns @ [\<lparr>bounds = b, left = None, right = None, parent = par, leaf = Some k\<rparr>]"
  by (simp add: set_tip_def push_node_def default_node_def)

lemma set_left_push: "set_left (length ns) c (push_node par ns @ xs) =
    ns @ default_node\<lparr>left := c, parent := par\<rparr> # xs"
  by (simp add: set_left_def push_node_def default_node_def nth_append)

lemma set_right_after: "set_right (length ns) c (ns @ n # xs) = ns @ n\<lparr>right := c\<rparr> # xs"
  by (simp add: set_right_def)

lemma set_bounds_after: "set_bounds (length ns) b (ns @ n # xs) = ns @ n\<lparr>bounds := b\<rparr> # xs"
  by (simp add: set_bounds_def)

lemma bounds_at_child:
  "bounds ((ns @ n # layout lb p i l @ xs) ! Suc (length ns)) = tree_box lb l"
  "bounds ((ns @ n # layout lb p i l @ layout lb q j r @ ys) ! Suc (length ns + tree_nodes l))
     = tree_box lb r"
  "bounds ((ns @ n # layout lb p i l @ layout lb q j r) ! Suc (length ns + tree_nodes l))
     = tree_box lb r"
  using nth_layout_root[of "ns @ [n]" lb p i l xs]
    nth_layout_root[of "ns @ [n] @ layout lb p i l" lb q j r ys]
    nth_layout_root[of "ns @ [n] @ layout lb p i l" lb q j r "[]"]
  by (simp_all del: nth_layout_root)

section \<open>The bottom-level tree\<close>

record blas_leaf =
  bl_bounds :: aabb2
  bl_z_min :: real
  bl_z_max :: real
  part_index :: nat

record blas2 =
  bl_nodes :: "bvh_node list"
  bl_leaves :: "blas_leaf list"
  bl_root :: "nat option"

definition transform_bounds :: "aabb2 \<Rightarrow> pose2 \<Rightarrow> aabb2" where
  "transform_bounds local_box pose =
     (let corners = [pt (px (bmin local_box)) (py (bmin local_box)),
            pt (px (bmin local_box)) (py (bmax local_box)),
            pt (px (bmax local_box)) (py (bmin local_box)),
            pt (px (bmax local_box)) (py (bmax local_box))];
          first = transform_point pose (corners ! 0)
      in fold (\<lambda>c out. aabb_expand out (transform_point pose c)) (tl corners)
           \<lparr>bmin = first, bmax = first\<rparr>)"

definition part_bounds :: "shape2p5 \<Rightarrow> pose2 \<Rightarrow> aabb2" where
  "part_bounds part pose = transform_bounds (get_bounds (base part)) pose"

text \<open>
  The recursive lambda of \<open>build_from\<close>: the node vector is threaded through, the result is
  the index of the range's node. \<^verbatim>\<open>front()\<close> of an empty range is undefined; the model stops
  there, and \<open>blas_build_refines\<close> is about non-empty ranges only.
\<close>

function blas_build_recursive ::
    "nth_element_impl \<Rightarrow> blas_leaf list \<Rightarrow> nat list \<Rightarrow> nat option \<Rightarrow> bvh_node list
     \<Rightarrow> nat \<times> bvh_node list" where
  "blas_build_recursive ne lvs idxs par nodes =
     (let node_index = length nodes; nodes1 = push_node par nodes
      in if idxs = [] then (node_index, nodes1)
         else if length idxs = 1 then
           (let leaf_idx = hd idxs
            in (node_index, set_tip node_index (bl_bounds (lvs ! leaf_idx)) leaf_idx nodes1))
         else
           (let mid = length idxs div 2;
                r = partition_range ne (\<lambda>k. bl_bounds (lvs ! k)) idxs;
                (lc, nodes2) = blas_build_recursive ne lvs (take mid r) (Some node_index) nodes1;
                nodes3 = set_left node_index (Some lc) nodes2;
                (rc, nodes4) = blas_build_recursive ne lvs (drop mid r) (Some node_index) nodes3;
                nodes5 = set_right node_index (Some rc) nodes4
            in (node_index,
                set_bounds node_index (aabb_merge (bounds (nodes5 ! lc)) (bounds (nodes5 ! rc))) nodes5)))"
  by pat_completeness auto
termination
  by (relation "measure (\<lambda>(ne, lvs, idxs, par, nodes). length idxs)") (auto simp: not_le Suc_lessI)

declare blas_build_recursive.simps [simp del]

definition blas_leaf_of :: "nat \<Rightarrow> model_part \<Rightarrow> blas_leaf" where
  "blas_leaf_of idx part =
     \<lparr>bl_bounds = part_bounds (part_geom part) (rel_pose part), bl_z_min = z_min (part_geom part),
      bl_z_max = z_max (part_geom part), part_index = idx\<rparr>"

definition blas_build :: "nth_element_impl \<Rightarrow> model_profile \<Rightarrow> blas2" where
  "blas_build ne model =
     (if parts model = [] then \<lparr>bl_nodes = [], bl_leaves = [], bl_root = None\<rparr>
      else let lvs = map (\<lambda>(idx, part). blas_leaf_of idx part) (enumerate 0 (parts model));
               indices = [0..<length lvs];
               (root, nodes) = blas_build_recursive ne lvs indices None []
           in \<lparr>bl_nodes = nodes, bl_leaves = lvs, bl_root = Some root\<rparr>)"

lemma transform_bounds_eq: "transform_bounds b pose = aabb_transform b pose"
  by (simp add: transform_bounds_def aabb_transform_def transform_point_cs_eq Let_def aabb_expand_def
      ac_simps)

lemma blas_build_refines:
  assumes "idxs \<noteq> []"
  shows "blas_build_recursive ne lvs idxs par nodes =
     (length nodes, nodes @ layout (\<lambda>k. bl_bounds (lvs ! k)) par (length nodes)
        (partition_tree ne (\<lambda>k. bl_bounds (lvs ! k)) idxs))"
  using assms
proof (induction ne lvs idxs par nodes rule: blas_build_recursive.induct)
  case (1 ne lvs idxs par nodes)
  let ?lb = "\<lambda>k. bl_bounds (lvs ! k)"
  let ?r = "partition_range ne ?lb idxs" and ?m = "length idxs div 2"
  let ?L = "partition_tree ne ?lb (take ?m ?r)" and ?R = "partition_tree ne ?lb (drop ?m ?r)"
  show ?case
  proof (cases "length idxs = 1")
    case True
    with 1(3) show ?thesis
      by (simp add: blas_build_recursive.simps partition_tree.simps set_tip_push Let_def)
  next
    case False
    have ne: "take ?m ?r \<noteq> []" "drop ?m ?r \<noteq> []" and big: "\<not> length idxs \<le> 1"
      using False 1(3) by (auto simp flip: length_greater_0_conv simp: Suc_le_eq le_Suc_eq)
    note IH1 = 1(1)[OF refl refl 1(3) False refl refl ne(1)]
    note IH2 = 1(2)[OF refl refl 1(3) False refl refl refl]
    have "partition_tree ne ?lb idxs = Fork ?L ?R"
      using big by (subst partition_tree.simps) (simp add: Let_def)
    then show ?thesis
      apply (subst blas_build_recursive.simps)
      using 1(3) False IH1 IH2[OF _ refl ne(2)]
      by (simp add: Let_def set_left_push set_right_after set_bounds_after bounds_at_child
          default_node_def)
  qed
qed

lemma blas_build_layout:
  assumes "parts model \<noteq> []"
  shows "\<exists>t. bl_nodes (blas_build ne model) =
           layout (\<lambda>k. bl_bounds (bl_leaves (blas_build ne model) ! k)) None 0 t
         \<and> mset (tree_leaves t) = mset [0..<length (parts model)]
         \<and> bl_root (blas_build ne model) = Some 0
         \<and> Suc (length (bl_nodes (blas_build ne model))) = 2 * length (parts model)"
proof -
  let ?lvs = "map (\<lambda>(idx, part). blas_leaf_of idx part) (enumerate 0 (parts model))"
  let ?t = "partition_tree ne (\<lambda>k. bl_bounds (?lvs ! k)) [0..<length ?lvs]"
  have ne: "[0..<length ?lvs] \<noteq> []" using assms by simp
  show ?thesis
    using assms blas_build_refines[OF ne, of ne ?lvs None "[]"] partition_tree_leaves[OF ne]
      partition_tree_size[OF ne]
    by (intro exI[of _ ?t]) (simp add: blas_build_def Let_def)
qed

section \<open>Properties\<close>

text \<open>C39: The bottom-level tree of a model is the layout of a binary tree over its parts with tight
  boxes, every part a leaf exactly once, and height at most log2 n + 1; a model without parts has no
  nodes.\<close>

theorem blas_build_correct:
  "if parts model = [] then bl_nodes (blas_build ne model) = [] \<and> bl_root (blas_build ne model) = None
   else \<exists>t. bl_nodes (blas_build ne model) =
            layout (\<lambda>k. bl_bounds (bl_leaves (blas_build ne model) ! k)) None 0 t \<and>
          mset (tree_leaves t) = mset [0..<length (parts model)] \<and>
          bl_root (blas_build ne model) = Some 0 \<and>
          bl_leaves (blas_build ne model) = map2 blas_leaf_of [0..<length (parts model)] (parts model) \<and>
          2 ^ tree_height t \<le> 2 * length (parts model)"
proof (cases "parts model = []")
  case False
  let ?lvs = "map2 blas_leaf_of [0..<length (parts model)] (parts model)"
  let ?t = "partition_tree ne (\<lambda>k. bl_bounds (?lvs ! k)) [0..<length ?lvs]"
  have ne: "[0..<length ?lvs] \<noteq> []" using False by simp
  have lvs: "bl_leaves (blas_build ne model) = ?lvs"
    using False by (simp add: blas_build_def Let_def case_prod_beta enumerate_eq_zip)
  have h: "2 ^ tree_height ?t \<le> 2 * length (parts model)"
    using partition_tree_height_le[OF ne] by simp
  show ?thesis
    using False blas_build_refines[OF ne, of ne ?lvs None "[]"] partition_tree_leaves[OF ne] lvs h
    by (auto intro!: exI[of _ ?t] simp add: blas_build_def Let_def enumerate_eq_zip)
qed (simp add: blas_build_def)

end
