(* ===== verification/Encoding.thy ===== *)
theory Encoding
  imports RL BVH "HOL-Library.Word"
begin

text \<open>
  The encoding of an observation for the policy: \<^verbatim>\<open>rl/observation_encoding.cpp\<close> and the
  worker's \<^verbatim>\<open>observation_encoder.cpp\<close>, with the architecture of
  \<^verbatim>\<open>config/rl.hpp\<close>. Single precision is read as real, so every value is finite and the tests
  for finiteness hold. The samples of a cell are rearranged by \<^verbatim>\<open>std::nth_element\<close>, which
  acts here on their indices.
\<close>

section \<open>Configuration\<close>

record architecture =
  azimuth_bins :: "32 word"
  policy_model :: string
  z_bands :: "(real \<times> real) list"
  arch_range_max_m :: real
  state_dim :: "32 word"
  action_dim :: "32 word"
  mlp_hidden_dim :: "32 word"
  lstm_hidden_dim :: "32 word"

definition default_architecture :: architecture where
  "default_architecture = \<lparr>azimuth_bins = 32, policy_model = ''mlp'',
     z_bands = [(0, 4 / 10), (4 / 10, 16 / 10), (16 / 10, 3)], arch_range_max_m = 35, state_dim = 5,
     action_dim = 2, mlp_hidden_dim = 256, lstm_hidden_dim = 256\<rparr>"

definition observation_dim :: "architecture \<Rightarrow> 32 word" where
  "observation_dim a = azimuth_bins a * of_nat (length (z_bands a)) + state_dim a"

record scan_config =
  scan_azimuth_bins :: "32 word"
  scan_z_bands :: "(real \<times> real) list"
  scan_range_max_m :: real

record cell_sample =
  normalized_range :: real
  point_world :: point3

record scan_result =
  normalized_ranges :: "real list"
  representative_points :: "point3 list"

section \<open>The scan grid\<close>

definition bins_of :: "scan_config \<Rightarrow> nat" where
  "bins_of cfg = max 1 (unat (scan_azimuth_bins cfg))"

definition bands_of :: "scan_config \<Rightarrow> nat" where
  "bands_of cfg = max 1 (length (scan_z_bands cfg))"

definition grid_dim :: "scan_config \<Rightarrow> nat" where
  "grid_dim cfg = bins_of cfg * bands_of cfg"

definition range_max_of :: "scan_config \<Rightarrow> real" where
  "range_max_of cfg = max (scan_range_max_m cfg) (1 / 1000)"

text \<open>The position of a point in the frame of the robot: a rotation by the negative yaw.\<close>

definition ego :: "real \<Rightarrow> vec2 \<Rightarrow> vec2" where
  "ego th d = vec (cos (- th) * vx d - sin (- th) * vy d) (sin (- th) * vx d + cos (- th) * vy d)"

definition z_index :: "scan_config \<Rightarrow> real \<Rightarrow> nat" where
  "z_index cfg z =
     (case find (\<lambda>i. fst (scan_z_bands cfg ! i) \<le> z \<and> z < snd (scan_z_bands cfg ! i)) [0..<length (scan_z_bands cfg)] of
        Some i \<Rightarrow> i | None \<Rightarrow> bands_of cfg)"

definition azimuth_index :: "scan_config \<Rightarrow> vec2 \<Rightarrow> nat" where
  "azimuth_index cfg e =
     (let wrapped = (atan2 (vy e) (vx e) + pi) / (2 * pi)
      in nat (min (max \<lfloor>wrapped * real (bins_of cfg)\<rfloor> 0) (int (bins_of cfg) - 1)))"

text \<open>The cell and the sample of a point, or nothing for a point that is skipped.\<close>

definition scan_point :: "observation \<Rightarrow> scan_config \<Rightarrow> point3 \<Rightarrow> (nat \<times> cell_sample) option" where
  "scan_point ob cfg p =
     (let e = ego (yaw (est_pose ob)) (vec (p3x p - px (pos (est_pose ob))) (p3y p - py (pos (est_pose ob))));
          planar_range = vec_length e; z_idx = z_index cfg (p3z p)
      in if planar_range \<le> 1 / 1000000 then None
         else if z_idx \<ge> bands_of cfg then None
         else Some (z_idx * bins_of cfg + azimuth_index cfg e,
                    \<lparr>normalized_range = min planar_range (range_max_of cfg) / range_max_of cfg, point_world = p\<rparr>))"

definition add_sample :: "observation \<Rightarrow> scan_config \<Rightarrow> point3 \<Rightarrow> cell_sample list list \<Rightarrow> cell_sample list list" where
  "add_sample ob cfg p cells =
     (case scan_point ob cfg p of None \<Rightarrow> cells | Some (i, s) \<Rightarrow> cells[i := cells ! i @ [s]])"

definition cloud_points :: "observation \<Rightarrow> point3 list" where
  "cloud_points ob = concat (map (\<lambda>so. case point_cloud so of None \<Rightarrow> [] | Some ps \<Rightarrow> ps) (sensor_data ob))"

definition fill_cells :: "observation \<Rightarrow> scan_config \<Rightarrow> cell_sample list list" where
  "fill_cells ob cfg = fold (add_sample ob cfg) (cloud_points ob) (replicate (grid_dim cfg) [])"

text \<open>The sample that stands for a cell: the one at a twentieth of the cell's samples.\<close>

definition percentile_index :: "nat \<Rightarrow> nat" where
  "percentile_index n = nat \<lfloor>5 / 100 * real (n - 1)\<rfloor>"

definition representative :: "nth_element_impl \<Rightarrow> cell_sample list \<Rightarrow> cell_sample" where
  "representative ne cell =
     cell ! (nth_element ne (\<lambda>i j. normalized_range (cell ! i) < normalized_range (cell ! j))
               (percentile_index (length cell)) [0..<length cell] ! percentile_index (length cell))"

definition encode_cell :: "nth_element_impl \<Rightarrow> cell_sample list \<Rightarrow> scan_result \<Rightarrow> scan_result" where
  "encode_cell ne cell r =
     (if cell = [] then r\<lparr>normalized_ranges := normalized_ranges r @ [1]\<rparr>
      else let s = representative ne cell
           in r\<lparr>normalized_ranges := normalized_ranges r @ [normalized_range s],
                representative_points := representative_points r @ [point_world s]\<rparr>)"

definition encode_scan_grid :: "nth_element_impl \<Rightarrow> observation \<Rightarrow> scan_config \<Rightarrow> scan_result" where
  "encode_scan_grid ne ob cfg =
     fold (encode_cell ne) (fill_cells ob cfg) \<lparr>normalized_ranges = [], representative_points = []\<rparr>"

section \<open>The encoder of the worker\<close>

record encoded_observation =
  features :: "real list"
  representative_points_world :: "point3 list"

definition encode_observation :: "nth_element_impl \<Rightarrow> observation \<Rightarrow> architecture \<Rightarrow> encoded_observation" where
  "encode_observation ne ob arch =
     (let scan = encode_scan_grid ne ob \<lparr>scan_azimuth_bins = azimuth_bins arch, scan_z_bands = z_bands arch,
                   scan_range_max_m = arch_range_max_m arch\<rparr>;
          v_ego = ego (yaw (est_pose ob)) (linear (est_vel ob));
          g = point_sub (waypoint_pos_world ob) (pos (est_pose ob));
          dist = vec_length g;
          heading_error = normalize_angle (obs_heading_to_waypoint ob - yaw (est_pose ob));
          inv_range_max = 1 / max (arch_range_max_m arch) (1 / 1000)
      in \<lparr>features = normalized_ranges scan @
            [vx v_ego, vy v_ego, angular (est_vel ob), dist * inv_range_max, heading_error / pi],
          representative_points_world = representative_points scan\<rparr>)"

section \<open>Cells\<close>

lemma azimuth_index_less: "azimuth_index cfg e < bins_of cfg"
  by (simp add: azimuth_index_def Let_def bins_of_def nat_less_iff)

lemma cell_index_less: "z < bands_of cfg \<Longrightarrow> a < bins_of cfg \<Longrightarrow> z * bins_of cfg + a < grid_dim cfg"
proof -
  assume "z < bands_of cfg" "a < bins_of cfg"
  then have "z * bins_of cfg + a < Suc z * bins_of cfg" "Suc z * bins_of cfg \<le> bands_of cfg * bins_of cfg"
    by (simp, intro mult_le_mono1, simp)
  then show ?thesis by (simp only: grid_dim_def mult.commute[of "bins_of cfg"])
qed

lemma scan_point_Some:
  assumes "scan_point ob cfg p = Some (i, s)"
  shows "i < grid_dim cfg" "0 \<le> normalized_range s" "normalized_range s \<le> 1" "point_world s = p"
  using assms azimuth_index_less[of cfg] cell_index_less[of _ cfg]
  by (auto simp: scan_point_def Let_def range_max_of_def divide_le_eq split: if_splits)

text \<open>The samples of one cell, in the order of the points.\<close>

definition cell_samples :: "observation \<Rightarrow> scan_config \<Rightarrow> nat \<Rightarrow> cell_sample list" where
  "cell_samples ob cfg i =
     List.map_filter (\<lambda>p. case scan_point ob cfg p of Some (j, s) \<Rightarrow> if j = i then Some s else None | None \<Rightarrow> None)
       (cloud_points ob)"

lemma fold_add_sample:
  assumes "length cells = grid_dim cfg"
  shows "length (fold (add_sample ob cfg) ps cells) = grid_dim cfg \<and>
    (\<forall>i < grid_dim cfg. fold (add_sample ob cfg) ps cells ! i = cells ! i @
       List.map_filter (\<lambda>p. case scan_point ob cfg p of Some (j, s) \<Rightarrow> if j = i then Some s else None | None \<Rightarrow> None) ps)"
  using assms
proof (induction ps arbitrary: cells)
  case Nil
  then show ?case by (simp add: List.map_filter_def)
next
  case (Cons p ps)
  let ?c = "add_sample ob cfg p cells"
  have len: "length ?c = grid_dim cfg"
    using Cons.prems by (simp add: add_sample_def split: option.split prod.split)
  have each: "?c ! i = cells ! i @ List.map_filter (\<lambda>p. case scan_point ob cfg p of Some (j, s) \<Rightarrow> if j = i then Some s else None | None \<Rightarrow> None) [p]"
    if "i < grid_dim cfg" for i
    using that Cons.prems scan_point_Some(1)[of ob cfg p]
    by (auto simp: add_sample_def List.map_filter_def nth_list_update split: option.split prod.split)
  show ?case using Cons.IH[OF len] each by (simp add: List.map_filter_def)
qed

lemma fill_cells_eq: "fill_cells ob cfg = map (cell_samples ob cfg) [0..<grid_dim cfg]"
proof (rule nth_equalityI)
  have "length (replicate (grid_dim cfg) ([]::cell_sample list)) = grid_dim cfg" by simp
  note f = fold_add_sample[OF this, of ob "cloud_points ob"]
  then show "length (fill_cells ob cfg) = length (map (cell_samples ob cfg) [0..<grid_dim cfg])"
    by (simp add: fill_cells_def)
  fix i assume "i < length (fill_cells ob cfg)"
  with f show "fill_cells ob cfg ! i = map (cell_samples ob cfg) [0..<grid_dim cfg] ! i"
    by (simp add: fill_cells_def cell_samples_def)
qed

lemma cell_samples_range: "s \<in> set (cell_samples ob cfg i) \<Longrightarrow> 0 \<le> normalized_range s \<and> normalized_range s \<le> 1"
  using scan_point_Some by (fastforce simp: cell_samples_def List.map_filter_def split: option.splits if_splits)

lemma encode_cells:
  "fold (encode_cell ne) cells r =
     \<lparr>normalized_ranges = normalized_ranges r @ map (\<lambda>c. if c = [] then 1 else normalized_range (representative ne c)) cells,
      representative_points = representative_points r @ map (\<lambda>c. point_world (representative ne c)) (filter (\<lambda>c. c \<noteq> []) cells)\<rparr>"
  by (induction cells arbitrary: r) (simp_all add: encode_cell_def Let_def)

lemma percentile_index_less: "0 < n \<Longrightarrow> percentile_index n < n"
proof -
  assume n: "0 < n"
  have "\<lfloor>5 / 100 * real (n - 1)\<rfloor> < int n" using n by (simp add: floor_less_iff)
  then show ?thesis using n by (simp add: percentile_index_def nat_less_iff)
qed

lemma representative_in: "cell \<noteq> [] \<Longrightarrow> representative ne cell \<in> set cell"
proof -
  assume "cell \<noteq> []"
  then have k: "percentile_index (length cell) < length cell" by (simp add: percentile_index_less)
  define r where "r = nth_element ne (\<lambda>i j. normalized_range (cell ! i) < normalized_range (cell ! j))
    (percentile_index (length cell)) [0..<length cell]"
  have "r ! percentile_index (length cell) \<in> set r" using k by (intro nth_mem) (simp add: r_def)
  then have "r ! percentile_index (length cell) < length cell" by (simp add: r_def)
  then show ?thesis by (simp add: representative_def r_def)
qed

section \<open>Order statistics\<close>

text \<open>What \<^verbatim>\<open>std::nth_element\<close> promises for an order given by a key.\<close>

definition selects :: "nth_element_impl \<Rightarrow> bool" where
  "selects ne \<longleftrightarrow> (\<forall>(f :: nat \<Rightarrow> real) k xs. k < length xs \<longrightarrow>
     (let r = nth_element ne (\<lambda>a b. f a < f b) k xs
      in (\<forall>i \<le> k. f (r ! i) \<le> f (r ! k)) \<and> (\<forall>i. k \<le> i \<and> i < length xs \<longrightarrow> f (r ! k) \<le> f (r ! i))))"

definition rank_value :: "nat \<Rightarrow> real list \<Rightarrow> real \<Rightarrow> bool" where
  "rank_value k vs v \<longleftrightarrow> v \<in> set vs \<and> length (filter (\<lambda>x. x < v) vs) \<le> k \<and> k < length (filter (\<lambda>x. x \<le> v) vs)"

lemma rank_value_mset: "mset vs = mset ws \<Longrightarrow> rank_value k vs v \<longleftrightarrow> rank_value k ws v"
  unfolding rank_value_def by (metis mset_filter set_mset_mset size_mset)

lemma rank_value_nth:
  assumes "k < length vs" "\<forall>i \<le> k. vs ! i \<le> vs ! k" "\<forall>i. k \<le> i \<and> i < length vs \<longrightarrow> vs ! k \<le> vs ! i"
  shows "rank_value k vs (vs ! k)"
proof -
  let ?v = "vs ! k"
  have split: "vs = take k vs @ drop k vs" "length (take k vs) = k" using assms(1) by simp_all
  have vs: "vs = take (Suc k) vs @ drop (Suc k) vs" by simp
  have late: "\<not> x < ?v" if x: "x \<in> set (drop k vs)" for x
  proof -
    obtain i where "i < length vs - k" "x = vs ! (k + i)"
      using x assms(1) by (auto simp: in_set_conv_nth)
    then show ?thesis using assms(3) by (simp add: not_less)
  qed
  have early: "x \<le> ?v" if x: "x \<in> set (take (Suc k) vs)" for x
  proof -
    obtain i where "i < Suc k" "x = vs ! i" using x by (auto simp: in_set_conv_nth)
    then show ?thesis using assms(2) by simp
  qed
  have "filter (\<lambda>x. x < ?v) (drop k vs) = []" using late by (simp add: filter_empty_conv)
  then have "filter (\<lambda>x. x < ?v) vs = filter (\<lambda>x. x < ?v) (take k vs)"
    by (subst split(1)) (simp del: append_take_drop_id)
  then have 1: "length (filter (\<lambda>x. x < ?v) vs) \<le> k" using split(2) by (metis length_filter_le)
  have "filter (\<lambda>x. x \<le> ?v) (take (Suc k) vs) = take (Suc k) vs" using early by simp
  then have "length (filter (\<lambda>x. x \<le> ?v) vs) \<ge> Suc k"
    using assms(1) by (subst vs) (simp del: append_take_drop_id)
  with 1 assms(1) show ?thesis by (simp add: rank_value_def)
qed

lemma representative_rank:
  assumes "selects ne" "cell \<noteq> []"
  shows "rank_value (percentile_index (length cell)) (map normalized_range cell) (normalized_range (representative ne cell))"
proof -
  define k where "k = percentile_index (length cell)"
  define f where "f i = normalized_range (cell ! i)" for i
  define r where "r = nth_element ne (\<lambda>i j. f i < f j) k [0..<length cell]"
  have k: "k < length [0..<length cell]" using assms(2) by (simp add: k_def percentile_index_less)
  have len: "length r = length cell" by (simp add: r_def)
  from assms(1)[unfolded selects_def, rule_format, OF k, of f]
  have order: "\<forall>i \<le> k. f (r ! i) \<le> f (r ! k)" "\<forall>i. k \<le> i \<and> i < length cell \<longrightarrow> f (r ! k) \<le> f (r ! i)"
    by (simp_all add: Let_def r_def)
  have "rank_value k (map f r) (map f r ! k)"
    by (rule rank_value_nth) (use k order len in \<open>auto simp: nth_map\<close>)
  moreover have "mset (map f r) = mset (map f [0..<length cell])"
    unfolding r_def by (simp only: mset_map mset_nth_element)
  moreover have "map f [0..<length cell] = map normalized_range cell"
    by (rule nth_equalityI) (simp_all add: f_def)
  moreover have "map f r ! k = normalized_range (representative ne cell)"
    using k len unfolding representative_def k_def[symmetric] f_def[symmetric] r_def[symmetric]
    by (simp add: f_def)
  ultimately show ?thesis using rank_value_mset k_def by metis
qed

definition grid_of :: "architecture \<Rightarrow> scan_config" where
  "grid_of arch = \<lparr>scan_azimuth_bins = azimuth_bins arch, scan_z_bands = z_bands arch, scan_range_max_m = arch_range_max_m arch\<rparr>"

lemma encode_scan_grid_eq:
  "encode_scan_grid ne ob cfg =
     \<lparr>normalized_ranges = map (\<lambda>i. if cell_samples ob cfg i = [] then 1 else normalized_range (representative ne (cell_samples ob cfg i))) [0..<grid_dim cfg],
      representative_points = map (\<lambda>c. point_world (representative ne c)) (filter (\<lambda>c. c \<noteq> []) (map (cell_samples ob cfg) [0..<grid_dim cfg]))\<rparr>"
  unfolding encode_scan_grid_def encode_cells fill_cells_eq by (simp add: comp_def)

lemma cell_samples_world: "s \<in> set (cell_samples ob cfg i) \<Longrightarrow> point_world s \<in> set (cloud_points ob)"
  using scan_point_Some(4) by (fastforce simp: cell_samples_def List.map_filter_def split: option.splits if_splits)


text \<open>Sorting is such a selection.\<close>

lemma sorted_insort_by:
  "sorted (map f ys) \<Longrightarrow> sorted (map f (insort_by (\<lambda>a b. (f a :: real) < f b) x ys))"
proof (induction ys)
  case (Cons y ys)
  have "set (insort_by (\<lambda>a b. f a < f b) x ys) = insert x (set ys)"
    by (metis mset_insort_by set_mset_add_mset_insert set_mset_mset)
  with Cons show ?case by auto
qed simp

lemma selects_nth_by_sort: "selects nth_by_sort"
proof -
  have sorted: "sorted (map f (sort_range (\<lambda>a b. (f a :: real) < f b) k xs))" for f k xs
    unfolding sort_range_def by (induction xs) (simp_all add: sorted_insort_by)
  have len: "length (sort_range lt k xs) = length xs" for lt k xs by (metis mset_sort_range size_mset)
  show ?thesis
    unfolding selects_def Let_def nth_by_sort.rep_eq
    using sorted len by (auto simp: sorted_iff_nth_mono)
qed

definition demo_observation :: observation where
  "demo_observation = default_observation\<lparr>sensor_data := [\<lparr>sensor_id = [], point_cloud = Some [pt_3 3 4 1], so_timestamp = 0\<rparr>]\<rparr>"


end
