(* ===== verification/TLAS.thy ===== *)
theory TLAS
  imports BVH "HOL-Library.Word"
begin

text \<open>
  The top-level tree \<^verbatim>\<open>TLAS2\<close> of \<^verbatim>\<open>bvh.cpp\<close>: rebuild with its validation and capacity
  guards, the single-leaf update that climbs to the root, the full refit, and the static and
  dynamic pair. \<open>tlas_tight\<close> says that the node vector is the layout of a tree over the
  leaves with every box merged from below; rebuild establishes it, the leaf update keeps it.
\<close>

type_synonym entity_id = "32 word"

record tlas_leaf =
  tl_model :: "model_profile option"
  tl_blas :: "blas2 option"
  tl_pose :: pose2
  tl_bounds :: aabb2
  tl_z_min :: real
  tl_z_max :: real
  tl_entity :: entity_id

record leaf_state =
  ls_pose :: pose2
  ls_bounds :: aabb2
  ls_z_min :: real
  ls_z_max :: real

text \<open>\<open>t_capacity\<close> is the capacity of the node vector, which the build reads as a guard.\<close>

record tlas2 =
  t_nodes :: "bvh_node list"
  t_leaves :: "tlas_leaf list"
  t_leaf_nodes :: "nat option list"
  t_root :: "nat option"
  t_capacity :: nat

definition empty_tlas :: tlas2 where
  "empty_tlas = \<lparr>t_nodes = [], t_leaves = [], t_leaf_nodes = [], t_root = None, t_capacity = 0\<rparr>"

section \<open>Rebuild\<close>

definition instance_ok :: "tlas_leaf \<Rightarrow> bool" where
  "instance_ok inst \<longleftrightarrow> tl_model inst \<noteq> None \<and> tl_blas inst \<noteq> None \<and>
     \<not> (px (bmin (tl_bounds inst)) > px (bmax (tl_bounds inst)) \<or>
        py (bmin (tl_bounds inst)) > py (bmax (tl_bounds inst))) \<and>
     \<not> (tl_z_min inst > tl_z_max inst)"

function tlas_build_recursive ::
    "nth_element_impl \<Rightarrow> nat \<Rightarrow> tlas_leaf list \<Rightarrow> nat list \<Rightarrow> nat option
     \<Rightarrow> bvh_node list \<times> nat option list \<Rightarrow> nat option \<times> bvh_node list \<times> nat option list" where
  "tlas_build_recursive ne cap lvs idxs par st =
     (let nodes = fst st; lns = snd st; node_index = length nodes
      in if length nodes \<ge> cap then (None, nodes, lns)
         else let nodes1 = push_node par nodes
         in if idxs = [] then (None, nodes1, lns)
         else if length idxs = 1 then
           (let leaf_idx = hd idxs
            in if leaf_idx \<ge> length lvs then (None, nodes1, lns)
               else (Some node_index,
                     set_tip node_index (tl_bounds (lvs ! leaf_idx)) leaf_idx nodes1,
                     lns[leaf_idx := Some node_index]))
         else if list_ex (\<lambda>i. i \<ge> length lvs) (tl idxs) then (None, nodes1, lns)
         else
           (let mid = length idxs div 2;
                r = partition_range ne (\<lambda>k. tl_bounds (lvs ! k)) idxs;
                (lc, nodes2, lns2) =
                  tlas_build_recursive ne cap lvs (take mid r) (Some node_index) (nodes1, lns);
                nodes3 = set_left node_index lc nodes2;
                (rc, nodes4, lns4) =
                  tlas_build_recursive ne cap lvs (drop mid r) (Some node_index) (nodes3, lns2);
                nodes5 = set_right node_index rc nodes4
            in case (lc, rc) of
                 (Some l, Some r) \<Rightarrow>
                   if l \<ge> length nodes5 \<or> r \<ge> length nodes5 then (None, nodes5, lns4)
                   else (Some node_index,
                         set_bounds node_index (aabb_merge (bounds (nodes5 ! l)) (bounds (nodes5 ! r)))
                           nodes5,
                         lns4)
               | _ \<Rightarrow> (None, nodes5, lns4)))"
  by pat_completeness auto
termination
  by (relation "measure (\<lambda>(ne, cap, lvs, idxs, par, st). length idxs)") (auto simp: not_le Suc_lessI)

declare tlas_build_recursive.simps [simp del]

definition rebuild_tree :: "nth_element_impl \<Rightarrow> tlas_leaf list \<Rightarrow> tlas2 \<Rightarrow> tlas2" where
  "rebuild_tree ne instances tr =
     (let cleared = \<lparr>t_nodes = [], t_leaves = [], t_leaf_nodes = [], t_root = None,
            t_capacity = t_capacity tr\<rparr>
      in if instances = [] then cleared
         else if list_ex (\<lambda>inst. \<not> instance_ok inst) instances then cleared
         else let n = length instances; cap = max (t_capacity tr) (n * 2);
                  (root, nodes, lns) =
                    tlas_build_recursive ne cap instances [0..<n] None ([], replicate n None)
              in \<lparr>t_nodes = nodes, t_leaves = instances, t_leaf_nodes = lns, t_root = root,
                  t_capacity = cap\<rparr>)"

fun assign_tips :: "nat \<Rightarrow> bvh_tree \<Rightarrow> nat option list \<Rightarrow> nat option list" where
  "assign_tips i (Tip k) lns = lns[k := Some i]"
| "assign_tips i (Fork l r) lns = assign_tips (Suc i + tree_nodes l) r (assign_tips (Suc i) l lns)"

lemma length_assign_tips [simp]: "length (assign_tips i t lns) = length lns"
  by (induction t arbitrary: i lns) auto

lemma assign_tips_other: "k \<notin> set (tree_leaves t) \<Longrightarrow> assign_tips i t lns ! k = lns ! k"
  by (induction t arbitrary: i lns) auto

lemma assign_tips_nth:
  "distinct (tree_leaves t) \<Longrightarrow> k \<in> set (tree_leaves t) \<Longrightarrow> k < length lns \<Longrightarrow>
     assign_tips i t lns ! k = Some (tip_pos i t k)"
proof (induction t arbitrary: i lns)
  case (Fork l r)
  then show ?case
    by (cases "k \<in> set (tree_leaves r)") (auto simp: assign_tips_other)
qed simp

lemma tlas_build_refines:
  assumes "idxs \<noteq> []" "set idxs \<subseteq> {..<length lvs}" "length (fst st) + 2 * length idxs \<le> Suc cap"
  shows "tlas_build_recursive ne cap lvs idxs par st =
     (let t = partition_tree ne (\<lambda>k. tl_bounds (lvs ! k)) idxs
      in (Some (length (fst st)),
          fst st @ layout (\<lambda>k. tl_bounds (lvs ! k)) par (length (fst st)) t,
          assign_tips (length (fst st)) t (snd st)))"
  using assms
proof (induction ne cap lvs idxs par st rule: tlas_build_recursive.induct)
  case (1 ne cap lvs idxs par st)
  let ?lb = "\<lambda>k. tl_bounds (lvs ! k)"
  let ?r = "partition_range ne ?lb idxs" and ?m = "length idxs div 2"
  let ?L = "partition_tree ne ?lb (take ?m ?r)" and ?R = "partition_tree ne ?lb (drop ?m ?r)"
  have cap: "\<not> length (fst st) \<ge> cap" using 1(3,5) by (cases idxs) auto
  show ?case
  proof (cases "length idxs = 1")
    case True
    moreover have "hd idxs < length lvs" using 1(3,4) hd_in_set[of idxs] by blast
    ultimately show ?thesis using 1(3) cap
      by (simp add: tlas_build_recursive.simps partition_tree.simps set_tip_push Let_def)
  next
    case False
    have ne: "take ?m ?r \<noteq> []" "drop ?m ?r \<noteq> []" and big: "\<not> length idxs \<le> 1"
      using False 1(3) by (auto simp flip: length_greater_0_conv simp: Suc_le_eq le_Suc_eq)
    have valid: "\<not> list_ex (\<lambda>i. i \<ge> length lvs) (tl idxs)"
      using 1(4) by (cases idxs) (auto simp: list_ex_iff)
    have sub: "set (take ?m ?r) \<subseteq> {..<length lvs}" "set (drop ?m ?r) \<subseteq> {..<length lvs}"
      using 1(4) set_take_subset[of ?m ?r] set_drop_subset[of ?m ?r] by auto
    have len: "length (take ?m ?r) = ?m" "length (drop ?m ?r) = length idxs - ?m"
      by simp_all
    have size: "Suc (tree_nodes ?L) = 2 * ?m" using partition_tree_size[OF ne(1)] len by simp
    note IH1 = 1(1)[OF refl refl refl cap refl 1(3) False valid refl refl ne(1) sub(1)]
    note IH2 = 1(2)[OF refl refl refl cap refl 1(3) False valid refl refl _ refl refl]
    have tree: "partition_tree ne ?lb idxs = Fork ?L ?R"
      using big by (subst partition_tree.simps) (simp add: Let_def)
    have room: "Suc (length (fst st)) + 2 * length (take ?m ?r) \<le> Suc cap"
      "Suc (length (fst st)) + tree_nodes ?L + 2 * length (drop ?m ?r) \<le> Suc cap"
      using 1(5) big size len by linarith+
    show ?thesis
      apply (subst tlas_build_recursive.simps)
      using 1(3) False cap valid tree room IH1 IH2[OF _ refl ne(2) sub(2)]
      by (simp add: Let_def set_left_push set_right_after set_bounds_after bounds_at_child
          default_node_def)
  qed
qed

section \<open>Tight trees\<close>

definition leaf_box :: "tlas_leaf list \<Rightarrow> nat \<Rightarrow> aabb2" where
  "leaf_box lvs k = tl_bounds (lvs ! k)"

definition tlas_tree :: "tlas2 \<Rightarrow> bvh_tree \<Rightarrow> bool" where
  "tlas_tree tr t \<longleftrightarrow>
     t_nodes tr = layout (leaf_box (t_leaves tr)) None 0 t \<and>
     t_root tr = Some 0 \<and>
     distinct (tree_leaves t) \<and> set (tree_leaves t) = {..<length (t_leaves tr)} \<and>
     length (t_leaf_nodes tr) = length (t_leaves tr) \<and>
     (\<forall>k<length (t_leaves tr). t_leaf_nodes tr ! k = Some (tip_pos 0 t k))"

definition tlas_empty :: "tlas2 \<Rightarrow> bool" where
  "tlas_empty tr \<longleftrightarrow> t_nodes tr = [] \<and> t_leaves tr = [] \<and> t_leaf_nodes tr = [] \<and> t_root tr = None"

definition tlas_tight :: "tlas2 \<Rightarrow> bool" where
  "tlas_tight tr \<longleftrightarrow> tlas_empty tr \<or> (\<exists>t. tlas_tree tr t)"

lemma distinct_of_mset_upt: "mset xs = mset [0..<n] \<Longrightarrow> distinct xs \<and> set xs = {..<n}"
  by (metis atLeast0LessThan distinct_upt mset_eq_imp_distinct_iff mset_eq_setD set_upt)

lemma rebuild_tree_valid:
  assumes "instances \<noteq> []" "\<forall>inst \<in> set instances. instance_ok inst"
  shows "tlas_tree (rebuild_tree ne instances tr)
           (partition_tree ne (leaf_box instances) [0..<length instances])
         \<and> t_leaves (rebuild_tree ne instances tr) = instances"
proof -
  let ?t = "partition_tree ne (leaf_box instances) [0..<length instances]"
  have lb: "(\<lambda>k. tl_bounds (instances ! k)) = leaf_box instances"
    by (simp add: leaf_box_def fun_eq_iff)
  have ne: "[0..<length instances] \<noteq> []" using assms(1) by simp
  have ms: "mset (tree_leaves ?t) = mset [0..<length instances]" by (rule partition_tree_leaves[OF ne])
  note perm = distinct_of_mset_upt[OF ms]
  have ok: "\<not> list_ex (\<lambda>inst. \<not> instance_ok inst) instances"
    using assms(2) by (auto simp: list_ex_iff)
  have sub: "set [0..<length instances] \<subseteq> {..<length instances}" by auto
  define cap where "cap = max (t_capacity tr) (length instances * 2)"
  have build: "tlas_build_recursive ne cap instances [0..<length instances] None
      ([], replicate (length instances) None) =
      (Some 0, layout (leaf_box instances) None 0 ?t,
       assign_tips 0 ?t (replicate (length instances) None))"
    by (subst tlas_build_refines[OF ne sub]) (auto simp: Let_def lb cap_def)
  have "assign_tips 0 ?t (replicate (length instances) None) ! k = Some (tip_pos 0 ?t k)"
    if "k < length instances" for k
    using perm that by (intro assign_tips_nth) auto
  then show ?thesis
    using assms(1) ok build perm
    by (simp add: rebuild_tree_def tlas_tree_def Let_def cap_def[symmetric])
qed

lemma rebuild_tree_rejects:
  assumes "\<not> (\<forall>inst \<in> set instances. instance_ok inst)"
  shows "tlas_empty (rebuild_tree ne instances tr)"
proof -
  have "list_ex (\<lambda>inst. \<not> instance_ok inst) instances" using assms by (auto simp: list_ex_iff)
  then show ?thesis by (simp add: rebuild_tree_def tlas_empty_def Let_def)
qed

lemma rebuild_tree_tight [inv_intros]: "tlas_tight (rebuild_tree ne instances tr)"
proof (cases "instances = [] \<or> \<not> (\<forall>inst \<in> set instances. instance_ok inst)")
  case True
  then show ?thesis
    using rebuild_tree_rejects by (auto simp: tlas_tight_def rebuild_tree_def tlas_empty_def)
next
  case False
  then show ?thesis unfolding tlas_tight_def by (blast dest: rebuild_tree_valid)
qed

lemma empty_tlas_tight [inv_intros]: "tlas_tight empty_tlas"
  by (simp add: tlas_tight_def tlas_empty_def empty_tlas_def)

section \<open>Updating one leaf\<close>

definition children_box :: "bvh_node list \<Rightarrow> nat \<Rightarrow> aabb2" where
  "children_box ns i =
     aabb_merge (bounds (ns ! the (left (ns ! i)))) (bounds (ns ! the (right (ns ! i))))"

text \<open>The climb to the root. \<open>None\<close> would be a climb that never ends.\<close>

partial_function (option) refit_climb :: "bvh_node list \<Rightarrow> nat option \<Rightarrow> bvh_node list option" where
  "refit_climb ns p =
     (case p of None \<Rightarrow> Some ns
      | Some i \<Rightarrow> refit_climb (set_bounds i (children_box ns i) ns) (parent (ns ! i)))"

definition refit_from_leaf :: "nat \<Rightarrow> tlas2 \<Rightarrow> tlas2 option" where
  "refit_from_leaf leaf_idx tr =
     (case t_leaf_nodes tr ! leaf_idx of None \<Rightarrow> Some tr
      | Some node_idx \<Rightarrow>
          (let ns = set_bounds node_idx (tl_bounds (t_leaves tr ! leaf_idx)) (t_nodes tr)
           in map_option (\<lambda>ns'. tr\<lparr>t_nodes := ns'\<rparr>) (refit_climb ns (parent (t_nodes tr ! node_idx)))))"

definition set_leaf_state :: "leaf_state \<Rightarrow> tlas_leaf \<Rightarrow> tlas_leaf" where
  "set_leaf_state s l =
     l\<lparr>tl_pose := ls_pose s, tl_bounds := ls_bounds s, tl_z_min := ls_z_min s, tl_z_max := ls_z_max s\<rparr>"

definition update_leaf :: "nat \<Rightarrow> leaf_state \<Rightarrow> tlas2 \<Rightarrow> tlas2 option" where
  "update_leaf idx s tr =
     (if idx \<ge> length (t_leaves tr) then Some tr
      else refit_from_leaf idx
             (tr\<lparr>t_leaves := (t_leaves tr)[idx := set_leaf_state s (t_leaves tr ! idx)]\<rparr>))"

lemma set_bounds_shift:
  "set_bounds (length pre + j) b (pre @ ns) = pre @ set_bounds j b ns"
  by (simp add: set_bounds_def list_update_append nth_append)

lemma set_bounds_append_left:
  "j < length ns \<Longrightarrow> set_bounds j b (ns @ post) = set_bounds j b ns @ post"
  by (simp add: set_bounds_def list_update_append nth_append)

lemma fork_climb_step:
  assumes "ns = pre @ \<lparr>bounds = b, left = Some (Suc (length pre)),
      right = Some (Suc (length pre) + tree_nodes l), parent = par, leaf = None\<rparr>
      # layout lb q i l @ layout lb q' i' r @ post"
  shows "refit_climb ns (Some (length pre)) =
      refit_climb (pre @ \<lparr>bounds = tree_box lb (Fork l r), left = Some (Suc (length pre)),
        right = Some (Suc (length pre) + tree_nodes l), parent = par, leaf = None\<rparr>
        # layout lb q i l @ layout lb q' i' r @ post) par"
  using assms by (subst refit_climb.simps) (simp add: children_box_def bounds_at_child set_bounds_after)

text \<open>
  Climbing from a changed tip reaches the parent of the subtree with the whole subtree
  merged again.
\<close>

lemma refit_climb_subtree:
  assumes "k \<in> set (tree_leaves t)" "distinct (tree_leaves t)"
    "\<And>j. j \<noteq> k \<Longrightarrow> lb' j = lb j"
  shows "refit_climb
      (set_bounds (tip_pos (length pre) t k) (lb' k) (pre @ layout lb par (length pre) t @ post))
      (parent ((pre @ layout lb par (length pre) t @ post) ! tip_pos (length pre) t k))
    = refit_climb (pre @ layout lb' par (length pre) t @ post) par"
  using assms
proof (induction t arbitrary: pre par post)
  case (Tip j)
  then show ?case by (simp add: set_bounds_after)
next
  case (Fork l r)
  let ?i = "length pre"
  let ?nd = "\<lambda>b. \<lparr>bounds = b, left = Some (Suc ?i), right = Some (Suc ?i + tree_nodes l),
      parent = par, leaf = None\<rparr>"
  let ?b = "tree_box lb (Fork l r)"
  let ?L = "\<lambda>lb. layout lb (Some ?i) (Suc ?i) l"
  let ?R = "\<lambda>lb. layout lb (Some ?i) (Suc ?i + tree_nodes l) r"
  have finish: "refit_climb (pre @ ?nd ?b # ?L lb' @ ?R lb' @ post) (Some ?i) =
      refit_climb (pre @ layout lb' par ?i (Fork l r) @ post) par"
    by (subst fork_climb_step[OF refl]) simp
  show ?case
  proof (cases "k \<in> set (tree_leaves l)")
    case True
    then have R: "?R lb' = ?R lb" using Fork.prems(2,3) by (intro layout_cong) fastforce
    show ?thesis
      using True Fork.prems Fork.IH(1)[of "pre @ [?nd ?b]" "Some ?i" "?R lb @ post"] finish R
      by simp
  next
    case False
    then have k: "k \<in> set (tree_leaves r)" using Fork.prems(1) by simp
    have L: "?L lb' = ?L lb" using False Fork.prems(3) by (intro layout_cong) metis
    show ?thesis
      using False k Fork.prems Fork.IH(2)[of "pre @ [?nd ?b] @ ?L lb" "Some ?i" post] finish L
      by simp
  qed
qed

lemma tlas_tree_update:
  fixes s :: leaf_state
  assumes "tlas_tree tr t" "idx < length (t_leaves tr)"
  defines "lvs \<equiv> (t_leaves tr)[idx := set_leaf_state s (t_leaves tr ! idx)]"
  shows "update_leaf idx s tr = Some (tr\<lparr>t_leaves := lvs, t_nodes := layout (leaf_box lvs) None 0 t\<rparr>)"
proof -
  have lb: "leaf_box lvs j = leaf_box (t_leaves tr) j" if "j \<noteq> idx" for j
    using that by (simp add: leaf_box_def lvs_def)
  have "refit_climb (set_bounds (tip_pos 0 t idx) (leaf_box lvs idx) (t_nodes tr))
      (parent (t_nodes tr ! tip_pos 0 t idx)) = refit_climb (layout (leaf_box lvs) None 0 t) None"
    using refit_climb_subtree[of idx t "leaf_box lvs" "leaf_box (t_leaves tr)" "[]" None "[]"]
      assms(1,2) lb by (simp add: tlas_tree_def)
  also have "\<dots> = Some (layout (leaf_box lvs) None 0 t)" by (simp add: refit_climb.simps)
  finally show ?thesis
    using assms(1,2) by (simp add: update_leaf_def refit_from_leaf_def tlas_tree_def lvs_def leaf_box_def)
qed

lemma update_leaf_tight [inv_intros]:
  assumes "tlas_tight tr"
  shows "\<exists>tr'. update_leaf idx s tr = Some tr' \<and> tlas_tight tr' \<and>
     t_leaves tr' = (if idx < length (t_leaves tr)
        then (t_leaves tr)[idx := set_leaf_state s (t_leaves tr ! idx)] else t_leaves tr)"
proof (cases "idx < length (t_leaves tr)")
  case True
  then obtain t where t: "tlas_tree tr t" using assms by (auto simp: tlas_tight_def tlas_empty_def)
  with True tlas_tree_update[OF t True, of s] show ?thesis
    by (fastforce simp: tlas_tight_def tlas_tree_def)
next
  case False
  with assms show ?thesis by (simp add: update_leaf_def)
qed

section \<open>The full refit\<close>

text \<open>
  \<open>refit_internal\<close> writes every leaf box, collects the ancestors of the leaves by climbing
  until a visited node, and merges the collected nodes in reverse order of collection.
\<close>

function collect_ancestors ::
    "bvh_node list \<Rightarrow> nat option \<Rightarrow> bool list \<Rightarrow> nat list \<Rightarrow> bool list \<times> nat list" where
  "collect_ancestors ns p visited acc =
     (case p of None \<Rightarrow> (visited, acc)
      | Some i \<Rightarrow>
          if i < length visited \<and> \<not> visited ! i
          then collect_ancestors ns (parent (ns ! i)) (visited[i := True]) (acc @ [i])
          else (visited, acc))"
  by pat_completeness auto
termination
proof (relation "measure (\<lambda>(ns, p, visited, acc). card {j. j < length visited \<and> \<not> visited ! j})")
  fix ns p and visited :: "bool list" and acc and i :: nat
  assume "p = Some i" and i: "i < length visited \<and> \<not> visited ! i"
  have "{j. j < length (visited[i := True]) \<and> \<not> visited[i := True] ! j} =
      {j. j < length visited \<and> \<not> visited ! j} - {i}" using i by (auto simp: nth_list_update)
  moreover have "card ({j. j < length visited \<and> \<not> visited ! j} - {i}) <
      card {j. j < length visited \<and> \<not> visited ! j}"
    using i by (intro card_Diff1_less) auto
  ultimately show "((ns, parent (ns ! i), visited[i := True], acc @ [i]), ns, p, visited, acc)
      \<in> measure (\<lambda>(ns, p, visited, acc). card {j. j < length visited \<and> \<not> visited ! j})"
    by simp
qed simp

declare collect_ancestors.simps [simp del]

definition node_parent :: "bvh_node list \<Rightarrow> nat option \<Rightarrow> nat option" where
  "node_parent ns p = (case p of None \<Rightarrow> None | Some n \<Rightarrow> parent (ns ! n))"

definition write_leaf_bounds :: "tlas2 \<Rightarrow> bvh_node list" where
  "write_leaf_bounds tr =
     fold (\<lambda>i ns. case t_leaf_nodes tr ! i of None \<Rightarrow> ns
                  | Some n \<Rightarrow> set_bounds n (tl_bounds (t_leaves tr ! i)) ns)
       [0..<length (t_leaves tr)] (t_nodes tr)"

definition nodes_to_update :: "bvh_node list \<Rightarrow> nat option list \<Rightarrow> nat list" where
  "nodes_to_update ns lns =
     snd (fold (\<lambda>p (visited, acc). collect_ancestors ns (node_parent ns p) visited acc) lns
            (replicate (length ns) False, []))"

definition merge_nodes :: "nat list \<Rightarrow> bvh_node list \<Rightarrow> bvh_node list" where
  "merge_nodes is ns = fold (\<lambda>i ns. set_bounds i (children_box ns i) ns) is ns"

definition refit_internal :: "tlas2 \<Rightarrow> tlas2" where
  "refit_internal tr =
     (if t_root tr = None then tr
      else let ns = write_leaf_bounds tr
           in tr\<lparr>t_nodes := merge_nodes (rev (nodes_to_update ns (t_leaf_nodes tr))) ns\<rparr>)"

definition refit :: "leaf_state list \<Rightarrow> tlas2 \<Rightarrow> tlas2" where
  "refit states tr =
     (if length states \<noteq> length (t_leaves tr) then tr
      else refit_internal (tr\<lparr>t_leaves := map2 set_leaf_state states (t_leaves tr)\<rparr>))"

text \<open>On a tight tree a refit changes nothing: every write puts back the box that is there.\<close>

definition tight_at :: "bvh_node list \<Rightarrow> nat \<Rightarrow> bool" where
  "tight_at ns i \<longleftrightarrow> i < length ns \<and> children_box ns i = bounds (ns ! i)"

lemma set_bounds_id: "bounds (ns ! i) = b \<Longrightarrow> set_bounds i b ns = ns"
  by (auto simp: set_bounds_def)

lemma layout_links:
  assumes "j < tree_nodes t"
    and "parent ((pre @ layout lb par (length pre) t @ post) ! (length pre + j)) = Some i"
  shows "j = 0 \<and> par = Some i \<or> tight_at (pre @ layout lb par (length pre) t @ post) i"
  using assms
proof (induction t arbitrary: pre par post j)
  case (Fork l r)
  let ?i = "length pre"
  let ?nd = "\<lparr>bounds = tree_box lb (Fork l r), left = Some (Suc ?i),
      right = Some (Suc ?i + tree_nodes l), parent = par, leaf = None\<rparr>"
  let ?L = "layout lb (Some ?i) (Suc ?i) l"
  let ?R = "layout lb (Some ?i) (Suc ?i + tree_nodes l) r"
  let ?ns = "pre @ layout lb par ?i (Fork l r) @ post"
  have here: "tight_at ?ns ?i"
    by (simp add: tight_at_def children_box_def bounds_at_child)
  consider "j = 0" | j' where "j = Suc j'" "j' < tree_nodes l"
    | j' where "j = Suc (tree_nodes l + j')" "j' < tree_nodes r"
  proof -
    have "j = 0 \<or> (\<exists>j'. j = Suc j' \<and> j' < tree_nodes l) \<or>
        (\<exists>j'. j = Suc (tree_nodes l + j') \<and> j' < tree_nodes r)"
      using Fork.prems(1) by (cases j) (auto, metis add.commute add_less_cancel_left le_add_diff_inverse
          linorder_not_less)
    then show thesis using that by blast
  qed
  then show ?case
  proof cases
    case 1
    then show ?thesis using Fork.prems(2) by (simp add: nth_append)
  next
    case 2
    then show ?thesis
      using Fork.IH(1)[of j' "pre @ [?nd]" "Some ?i" "?R @ post"] Fork.prems(2) here by auto
  next
    case 3
    then show ?thesis
      using Fork.IH(2)[of j' "pre @ [?nd] @ ?L" "Some ?i" post] Fork.prems(2) here
      by (auto simp: add.assoc)
  qed
qed simp

lemma tlas_tree_links:
  assumes "tlas_tree tr t" "j < length (t_nodes tr)" "parent (t_nodes tr ! j) = Some i"
  shows "tight_at (t_nodes tr) i"
  using layout_links[of j t "[]" "leaf_box (t_leaves tr)" None "[]" i] assms
  by (simp add: tlas_tree_def)

lemma collect_ancestors_in:
  assumes "\<And>i. p = Some i \<Longrightarrow> Q i" "\<And>i j. Q i \<Longrightarrow> parent (ns ! i) = Some j \<Longrightarrow> Q j"
    and "\<forall>i \<in> set acc. Q i"
  shows "\<forall>i \<in> set (snd (collect_ancestors ns p visited acc)). Q i"
  using assms
proof (induction ns p visited acc rule: collect_ancestors.induct)
  case (1 ns p visited acc)
  show ?case
  proof (cases p)
    case None
    with 1(4) show ?thesis by (simp add: collect_ancestors.simps)
  next
    case (Some i)
    show ?thesis
    proof (cases "i < length visited \<and> \<not> visited ! i")
      case True
      have "\<forall>i \<in> set (snd (collect_ancestors ns (parent (ns ! i)) (visited[i := True]) (acc @ [i]))). Q i"
      proof (rule 1(1)[OF Some True])
        show "Q j" if "parent (ns ! i) = Some j" for j using that 1(2)[OF Some] 1(3) by blast
        show "Q k" if "Q j" "parent (ns ! j) = Some k" for j k using that 1(3) by blast
        show "\<forall>j \<in> set (acc @ [i]). Q j" using 1(2)[OF Some] 1(4) by simp
      qed
      with Some True show ?thesis by (subst collect_ancestors.simps) simp
    next
      case False
      with 1(4) Some show ?thesis by (subst collect_ancestors.simps) auto
    qed
  qed
qed

lemma nodes_to_update_in:
  assumes start: "\<And>p i. p \<in> set lns \<Longrightarrow> node_parent ns p = Some i \<Longrightarrow> Q i"
    and closed: "\<And>i j. Q i \<Longrightarrow> parent (ns ! i) = Some j \<Longrightarrow> Q j"
  shows "\<forall>i \<in> set (nodes_to_update ns lns). Q i"
proof -
  have "\<forall>i \<in> set (snd (fold (\<lambda>p (visited, acc). collect_ancestors ns (node_parent ns p) visited acc)
      ps st)). Q i" if "set ps \<subseteq> set lns" "\<forall>i \<in> set (snd st). Q i" for ps st
    using that
  proof (induction ps arbitrary: st)
    case (Cons p ps)
    have "\<forall>i \<in> set (snd (collect_ancestors ns (node_parent ns p) (fst st) (snd st))). Q i"
    proof (rule collect_ancestors_in)
      show "Q i" if "node_parent ns p = Some i" for i
        using that Cons.prems(1) by (intro start[of p]) auto
      show "Q j" if "Q i" "parent (ns ! i) = Some j" for i j using that by (rule closed)
    qed (use Cons.prems in simp)
    with Cons show ?case by (simp add: case_prod_beta)
  qed simp
  from this[of lns "(replicate (length ns) False, [])"] show ?thesis
    by (simp add: nodes_to_update_def)
qed

lemma merge_nodes_tight: "\<forall>i \<in> set is. tight_at ns i \<Longrightarrow> merge_nodes is ns = ns"
  unfolding merge_nodes_def
  by (induction "is") (auto simp: tight_at_def set_bounds_id)

lemma nth_tip_pos:
  "k \<in> set (tree_leaves t) \<Longrightarrow>
    bounds ((pre @ layout lb par (length pre) t @ post) ! tip_pos (length pre) t k) = lb k \<and>
    tip_pos (length pre) t k < length (pre @ layout lb par (length pre) t @ post)"
proof (induction t arbitrary: pre par post)
  case (Fork l r)
  let ?nd = "\<lparr>bounds = tree_box lb (Fork l r), left = Some (Suc (length pre)),
      right = Some (Suc (length pre) + tree_nodes l), parent = par, leaf = None\<rparr>"
  let ?L = "layout lb (Some (length pre)) (Suc (length pre)) l"
  let ?R = "layout lb (Some (length pre)) (Suc (length pre) + tree_nodes l) r"
  show ?case
    using Fork.prems Fork.IH(1)[of "pre @ [?nd]" "Some (length pre)" "?R @ post"]
      Fork.IH(2)[of "pre @ [?nd] @ ?L" "Some (length pre)" post]
    by (cases "k \<in> set (tree_leaves l)") auto
qed simp

lemma fold_id: "(\<And>x. x \<in> set xs \<Longrightarrow> f x s = s) \<Longrightarrow> fold f xs s = s"
  by (induction xs) auto

lemma write_leaf_bounds_tight:
  assumes "tlas_tree tr t" shows "write_leaf_bounds tr = t_nodes tr"
  unfolding write_leaf_bounds_def
proof (rule fold_id)
  fix i assume "i \<in> set [0..<length (t_leaves tr)]"
  then show "(case t_leaf_nodes tr ! i of None \<Rightarrow> t_nodes tr
      | Some n \<Rightarrow> set_bounds n (tl_bounds (t_leaves tr ! i)) (t_nodes tr)) = t_nodes tr"
    using assms nth_tip_pos[of i t "[]" "leaf_box (t_leaves tr)" None "[]"]
    by (simp add: tlas_tree_def set_bounds_id leaf_box_def)
qed

lemma refit_internal_tight:
  assumes "tlas_tight tr" shows "refit_internal tr = tr"
proof (cases "t_root tr = None")
  case False
  with assms obtain t where t: "tlas_tree tr t" by (auto simp: tlas_tight_def tlas_empty_def)
  have pos: "tip_pos 0 t k < length (t_nodes tr)" if "k < length (t_leaves tr)" for k
    using that t nth_tip_pos[of k t "[]" "leaf_box (t_leaves tr)" None "[]"]
    by (simp add: tlas_tree_def)
  have "\<forall>i \<in> set (nodes_to_update (t_nodes tr) (t_leaf_nodes tr)). tight_at (t_nodes tr) i"
  proof (intro nodes_to_update_in)
    fix p i assume p: "p \<in> set (t_leaf_nodes tr)" "node_parent (t_nodes tr) p = Some i"
    then obtain k where "k < length (t_leaves tr)" "p = Some (tip_pos 0 t k)"
      using t by (auto simp: tlas_tree_def in_set_conv_nth)
    with pos p(2) show "tight_at (t_nodes tr) i"
      by (auto simp: node_parent_def intro: tlas_tree_links[OF t])
  next
    fix i j assume "tight_at (t_nodes tr) i" "parent (t_nodes tr ! i) = Some j"
    then show "tight_at (t_nodes tr) j"
      by (auto simp: tight_at_def[of _ i] intro: tlas_tree_links[OF t])
  qed
  then show ?thesis
    by (simp add: refit_internal_def write_leaf_bounds_tight[OF t] merge_nodes_tight)
qed (simp add: refit_internal_def)

definition leaf_state_of :: "tlas_leaf \<Rightarrow> leaf_state" where
  "leaf_state_of l = \<lparr>ls_pose = tl_pose l, ls_bounds = tl_bounds l, ls_z_min = tl_z_min l,
     ls_z_max = tl_z_max l\<rparr>"

lemma set_leaf_state_of [simp]: "set_leaf_state (leaf_state_of l) l = l"
  by (simp add: set_leaf_state_def leaf_state_of_def)

lemma refit_same_states:
  assumes "tlas_tight tr" shows "refit (map leaf_state_of (t_leaves tr)) tr = tr"
proof -
  have "map2 set_leaf_state (map leaf_state_of ls) ls = ls" for ls
    by (induction ls) auto
  with assms show ?thesis by (simp add: refit_def refit_internal_tight)
qed

section \<open>The pair of trees\<close>

record tlas_pair =
  static_tree :: tlas2
  dynamic_tree :: tlas2

definition pair_build :: "nth_element_impl \<Rightarrow> tlas_leaf list \<Rightarrow> tlas_leaf list \<Rightarrow> tlas_pair" where
  "pair_build ne statics dynamics =
     \<lparr>static_tree = rebuild_tree ne statics empty_tlas,
      dynamic_tree = rebuild_tree ne dynamics empty_tlas\<rparr>"

definition pair_rebuild_statics :: "nth_element_impl \<Rightarrow> tlas_leaf list \<Rightarrow> tlas_pair \<Rightarrow> tlas_pair" where
  "pair_rebuild_statics ne instances p = p\<lparr>static_tree := rebuild_tree ne instances (static_tree p)\<rparr>"

definition pair_rebuild_dynamics :: "nth_element_impl \<Rightarrow> tlas_leaf list \<Rightarrow> tlas_pair \<Rightarrow> tlas_pair" where
  "pair_rebuild_dynamics ne instances p = p\<lparr>dynamic_tree := rebuild_tree ne instances (dynamic_tree p)\<rparr>"

definition pair_refit_statics :: "leaf_state list \<Rightarrow> tlas_pair \<Rightarrow> tlas_pair" where
  "pair_refit_statics states p = p\<lparr>static_tree := refit states (static_tree p)\<rparr>"

definition pair_refit_dynamics :: "leaf_state list \<Rightarrow> tlas_pair \<Rightarrow> tlas_pair" where
  "pair_refit_dynamics states p = p\<lparr>dynamic_tree := refit states (dynamic_tree p)\<rparr>"

definition pair_update_static_leaf :: "nat \<Rightarrow> leaf_state \<Rightarrow> tlas_pair \<Rightarrow> tlas_pair option" where
  "pair_update_static_leaf idx s p =
     map_option (\<lambda>tr. p\<lparr>static_tree := tr\<rparr>) (update_leaf idx s (static_tree p))"

definition pair_update_dynamic_leaf :: "nat \<Rightarrow> leaf_state \<Rightarrow> tlas_pair \<Rightarrow> tlas_pair option" where
  "pair_update_dynamic_leaf idx s p =
     map_option (\<lambda>tr. p\<lparr>dynamic_tree := tr\<rparr>) (update_leaf idx s (dynamic_tree p))"

definition pair_refit_all :: "tlas_pair \<Rightarrow> tlas_pair" where
  "pair_refit_all p = p\<lparr>static_tree := refit_internal (static_tree p),
     dynamic_tree := refit_internal (dynamic_tree p)\<rparr>"

section \<open>Examples and properties of the trees\<close>

text \<open>Rebuilding the top-level tree over valid instances yields a well-formed tree over all of
  them, with tight boxes, correct parent and leaf links, 2n-1 nodes and height at most log2 n + 1;
  with no instance or an invalid one it yields the empty tree.\<close>

theorem rebuild_tree_correct:
  "if instances \<noteq> [] \<and> list_all instance_ok instances
   then \<exists>t. tlas_tree (rebuild_tree ne instances tr) t \<and>
          t_leaves (rebuild_tree ne instances tr) = instances \<and>
          Suc (length (t_nodes (rebuild_tree ne instances tr))) = 2 * length instances \<and>
          2 ^ tree_height t \<le> 2 * length instances
   else tlas_empty (rebuild_tree ne instances tr)"
proof (cases "instances \<noteq> [] \<and> list_all instance_ok instances")
  case True
  let ?t = "partition_tree ne (leaf_box instances) [0..<length instances]"
  have "tlas_tree (rebuild_tree ne instances tr) ?t" "t_leaves (rebuild_tree ne instances tr) = instances"
    using True rebuild_tree_valid by (auto simp: list_all_iff)
  moreover have "Suc (tree_nodes ?t) = 2 * length instances" "2 ^ tree_height ?t \<le> 2 * length instances"
    using True partition_tree_size[of "[0..<length instances]"] partition_tree_height_le[of "[0..<length instances]"]
    by simp_all
  ultimately show ?thesis using True by (auto simp: tlas_tree_def intro!: exI[of _ ?t])
next
  case False
  then show ?thesis using rebuild_tree_rejects[of instances ne tr]
    by (auto simp: list_all_iff rebuild_tree_def tlas_empty_def)
qed

text \<open>A leaf of the examples: a unit disc at \<open>x\<close>.\<close>

definition unit_disc :: model_profile where
  "unit_disc = \<lparr>profile_name = ''disc'',
     parts = [\<lparr>part_geom = \<lparr>base = Circle 1, z_min = 0, z_max = 1\<rparr>, rel_pose = \<lparr>pos = pt 0 0, yaw = 0\<rparr>\<rparr>]\<rparr>"

definition disc_box :: "real \<Rightarrow> aabb2" where
  "disc_box x = \<lparr>bmin = pt (x - 1) (- 1), bmax = pt (x + 1) 1\<rparr>"

definition disc_leaf :: "real \<Rightarrow> entity_id \<Rightarrow> tlas_leaf" where
  "disc_leaf x e = \<lparr>tl_model = Some unit_disc, tl_blas = Some (blas_build nth_by_sort unit_disc),
     tl_pose = \<lparr>pos = pt x 0, yaw = 0\<rparr>, tl_bounds = disc_box x, tl_z_min = 0, tl_z_max = 1, tl_entity = e\<rparr>"

definition disc_state :: "real \<Rightarrow> leaf_state" where
  "disc_state x = \<lparr>ls_pose = \<lparr>pos = pt x 0, yaw = 0\<rparr>, ls_bounds = disc_box x, ls_z_min = 0, ls_z_max = 1\<rparr>"

lemma disc_simps [simp]:
  "instance_ok (disc_leaf x e)" "tl_bounds (disc_leaf x e) = disc_box x" "tl_entity (disc_leaf x e) = e"
  "set_leaf_state (disc_state x) (disc_leaf y e) = disc_leaf x e"
  by (simp_all add: instance_ok_def disc_leaf_def disc_box_def set_leaf_state_def disc_state_def)

text \<open>Updating a leaf terminates and leaves a well-formed tree with tight boxes whose leaves are
  the old ones with the one changed.\<close>

theorem update_leaf_correct:
  assumes "tlas_tight tr" "idx < length (t_leaves tr)"
  shows "\<exists>tr'. update_leaf idx s tr = Some tr' \<and> tlas_tight tr' \<and>
     t_leaves tr' = (t_leaves tr)[idx := set_leaf_state s (t_leaves tr ! idx)]"
  using update_leaf_tight[OF assms(1), of idx s] assms(2) by simp

theorem update_leaf_correct_witness:
  "\<exists>tr'. update_leaf 1 (disc_state 7) (rebuild_tree nth_by_sort [disc_leaf 0 10, disc_leaf 3 11] empty_tlas)
       = Some tr' \<and> tlas_tight tr' \<and> t_leaves tr' = [disc_leaf 0 10, disc_leaf 7 11]"
proof -
  let ?tr = "rebuild_tree nth_by_sort [disc_leaf 0 10, disc_leaf 3 11] empty_tlas"
  have "t_leaves ?tr = [disc_leaf 0 10, disc_leaf 3 11]"
    using rebuild_tree_valid[of "[disc_leaf 0 10, disc_leaf 3 11]" nth_by_sort empty_tlas] by simp
  with update_leaf_correct[of ?tr 1 "disc_state 7"] rebuild_tree_tight show ?thesis by simp
qed

definition four_discs :: "tlas_leaf list" where
  "four_discs = [disc_leaf 0 10, disc_leaf 4 11, disc_leaf 8 12, disc_leaf 12 13]"

definition four_tree :: bvh_tree where
  "four_tree = Fork (Fork (Tip 0) (Tip 1)) (Fork (Tip 2) (Tip 3))"

lemmas four_eval = leaf_box_def four_discs_def disc_box_def nth_Cons_numeral numeral_eq_Suc

lemma four_discs_partition:
  "partition_range nth_by_sort (leaf_box four_discs) [0, 1, 2, 3] = [0, 1, 2, 3]"
  "partition_range nth_by_sort (leaf_box four_discs) [0, 1] = [0, 1]"
  "partition_range nth_by_sort (leaf_box four_discs) [2, 3] = [2, 3]"
  by (simp_all add: partition_range_def nth_by_sort.rep_eq sort_range_def Let_def center_less_def
      aabb_longest_axis_def range_bounds_def aabb_merge_def aabb_center_def four_discs_def
      leaf_box_def disc_box_def)

lemma four_discs_tree: "partition_tree nth_by_sort (leaf_box four_discs) [0, 1, 2, 3] = four_tree"
  using partition_tree_fork[of nth_by_sort "leaf_box four_discs" "[0, 1, 2, 3]" "[0, 1]" "[2, 3]"]
    partition_tree_fork[of nth_by_sort "leaf_box four_discs" "[0, 1]" "[0]" "[1]"]
    partition_tree_fork[of nth_by_sort "leaf_box four_discs" "[2, 3]" "[2]" "[3]"]
  by (simp add: four_discs_partition[unfolded One_nat_def] four_tree_def)

definition four_tlas :: tlas2 where
  "four_tlas = rebuild_tree nth_by_sort four_discs empty_tlas"

lemma four_tlas_tree: "tlas_tree four_tlas four_tree" "t_leaves four_tlas = four_discs"
proof -
  have "[0..<length four_discs] = [0, 1, 2, 3]" by (simp add: four_discs_def upt_rec)
  then show "tlas_tree four_tlas four_tree" "t_leaves four_tlas = four_discs"
    using rebuild_tree_valid[of four_discs nth_by_sort empty_tlas] four_discs_tree
    by (simp_all add: four_tlas_def) (simp_all add: four_discs_def)
qed

text \<open>
  A refit after a leaf has left the box of its ancestors: the climb of the first leaf collects
  its parent before the root, the reversed order merges the root first, and the root keeps the
  box it had.
\<close>

lemma refit_stale_root:
  "let tr = refit (map disc_state [100, 4, 8, 12]) four_tlas
   in tlas_tight four_tlas \<and> t_leaves tr = [disc_leaf 100 10, disc_leaf 4 11, disc_leaf 8 12, disc_leaf 12 13] \<and>
      t_root tr = Some 0 \<and> \<not> aabb_intersects (bounds (t_nodes tr ! 0)) (disc_box 100)"
proof -
  have ns: "t_nodes four_tlas = layout (leaf_box four_discs) None 0 four_tree" "t_root four_tlas = Some 0"
    using four_tlas_tree by (auto simp: tlas_tree_def)
  have "t_leaf_nodes four_tlas = map (\<lambda>k. Some (tip_pos 0 four_tree k)) [0..<4]"
    using four_tlas_tree by (intro nth_equalityI) (auto simp: tlas_tree_def four_discs_def)
  then have lns: "t_leaf_nodes four_tlas = [Some 2, Some 3, Some 5, Some 6]"
    by (simp add: four_tree_def upt_rec)
  have tight: "tlas_tight four_tlas" using four_tlas_tree(1) by (auto simp: tlas_tight_def)
  note tree = four_tlas_tree(2) ns lns four_discs_def four_tree_def leaf_box_def
  show ?thesis
    by (simp add: Let_def refit_def refit_internal_def four_tlas_tree ns tight)
      (simp add: tree write_leaf_bounds_def upt_rec set_bounds_def nodes_to_update_def node_parent_def
        collect_ancestors.simps merge_nodes_def children_box_def disc_box_def aabb_merge_def aabb_intersects_def)
qed

end
