(* ===== verification/BroadPhase.thy ===== *)
theory BroadPhase
  imports TLAS CoreBase
begin

text \<open>
  \<^verbatim>\<open>collision/broad_phase.hpp\<close> and \<^verbatim>\<open>broad_phase.cpp\<close>: the instance lists, the pair of
  trees over them, the dirty flag, the name and entity tables, the pruned depth-first query
  and the 32-bit collision masks. \<open>bp_inv\<close> ties the boxes of the instances to their models
  and poses and the trees to the instances; the query returns exactly the instances whose
  box meets the query box.
\<close>

unbundle bit_operations_syntax

section \<open>State\<close>

record bp_instance =
  bi_name :: string
  bi_pose :: pose2
  bi_model :: "model_profile option"
  bi_static :: bool
  bi_entity :: entity_id

record collision_filter =
  category :: string
  collides_with :: "string list"

record collision_mask =
  category_bits :: "32 word"
  mask_bits :: "32 word"

record broad_phase =
  collision_masks :: "collision_mask list"
  pair :: tlas_pair
  static_instances :: "tlas_leaf list"
  dynamic_instances :: "tlas_leaf list"
  dynamic_states :: "leaf_state list"
  static_lookup :: "string \<rightharpoonup> nat"
  dynamic_lookup :: "string \<rightharpoonup> nat"
  entity_to_dynamic :: "entity_id \<rightharpoonup> nat"
  dynamic_dirty :: bool
  next_entity_id :: entity_id

definition empty_bp :: broad_phase where
  "empty_bp = \<lparr>collision_masks = [], pair = \<lparr>static_tree = empty_tlas, dynamic_tree = empty_tlas\<rparr>,
     static_instances = [], dynamic_instances = [], dynamic_states = [],
     static_lookup = Map.empty, dynamic_lookup = Map.empty, entity_to_dynamic = Map.empty,
     dynamic_dirty = True, next_entity_id = 0\<rparr>"

section \<open>Operations\<close>

definition compute_bounds :: "model_profile \<Rightarrow> pose2 \<Rightarrow> aabb2 \<times> real \<times> real" where
  "compute_bounds model world_from_model =
     (case parts model of
        [] \<Rightarrow> (\<lparr>bmin = pos world_from_model, bmax = pos world_from_model\<rparr>, 0, 0)
      | first # rest \<Rightarrow>
          fold (\<lambda>part (b, z0, z1).
                 (aabb_merge b (aabb_transform (get_bounds (base (part_geom part)))
                    (pose_compose world_from_model (rel_pose part))),
                  min z0 (z_min (part_geom part)), max z1 (z_max (part_geom part))))
            rest
            (aabb_transform (get_bounds (base (part_geom first)))
               (pose_compose world_from_model (rel_pose first)),
             z_min (part_geom first), z_max (part_geom first)))"

definition make_leaf_state :: "tlas_leaf \<Rightarrow> leaf_state" where
  "make_leaf_state inst =
     \<lparr>ls_pose = tl_pose inst, ls_bounds = tl_bounds inst, ls_z_min = tl_z_min inst,
      ls_z_max = tl_z_max inst\<rparr>"

definition synchronize_dynamic_states :: "broad_phase \<Rightarrow> broad_phase" where
  "synchronize_dynamic_states bp = bp\<lparr>dynamic_states := map make_leaf_state (dynamic_instances bp)\<rparr>"

definition init_instance_info ::
    "nth_element_impl \<Rightarrow> bp_instance \<Rightarrow> broad_phase \<Rightarrow> (error + unit) \<times> broad_phase" where
  "init_instance_info ne inst bp0 =
     (let bp = bp0\<lparr>next_entity_id := max (next_entity_id bp0) (bi_entity inst + 1)\<rparr>
      in case bi_model inst of
           None \<Rightarrow>
             (Inl (make_error CONFIG (''BroadPhase instance '' @ [CHR 39] @ bi_name inst @ [CHR 39]
                   @ '' missing model_profile'')
                 (make_context ''BroadPhase::Impl::init_instance_info'' [(''name'', bi_name inst)])), bp)
         | Some model \<Rightarrow>
             (let (b, z0, z1) = compute_bounds model (bi_pose inst);
                  ti = \<lparr>tl_model = Some model, tl_blas = Some (blas_build ne model),
                        tl_pose = bi_pose inst, tl_bounds = b, tl_z_min = z0, tl_z_max = z1,
                        tl_entity = bi_entity inst\<rparr>
              in if bi_static inst
                 then (Inr (), bp\<lparr>static_instances := static_instances bp @ [ti],
                        static_lookup := (static_lookup bp)(bi_name inst \<mapsto> length (static_instances bp))\<rparr>)
                 else let index = length (dynamic_instances bp);
                          states = (if length (dynamic_states bp) < index + 1
                                    then dynamic_states bp @ [make_leaf_state ti]
                                    else (dynamic_states bp)[index := make_leaf_state ti])
                      in (Inr (), bp\<lparr>dynamic_instances := dynamic_instances bp @ [ti],
                            dynamic_states := states,
                            dynamic_lookup := (dynamic_lookup bp)(bi_name inst \<mapsto> index),
                            entity_to_dynamic := (entity_to_dynamic bp)(bi_entity inst \<mapsto> index),
                            dynamic_dirty := True\<rparr>)))"

definition add_instance ::
    "nth_element_impl \<Rightarrow> bp_instance \<Rightarrow> broad_phase \<Rightarrow> (error + unit) \<times> broad_phase" where
  "add_instance ne inst bp = init_instance_info ne inst bp"

definition build :: "nth_element_impl \<Rightarrow> broad_phase \<Rightarrow> broad_phase" where
  "build ne bp =
     synchronize_dynamic_states
       (bp\<lparr>pair := pair_build ne (static_instances bp) (dynamic_instances bp), dynamic_dirty := False\<rparr>)"

definition rebuild_statics :: "nth_element_impl \<Rightarrow> broad_phase \<Rightarrow> broad_phase" where
  "rebuild_statics ne bp =
     (if static_instances bp = [] then bp\<lparr>pair := (pair bp)\<lparr>static_tree := empty_tlas\<rparr>\<rparr>
      else bp\<lparr>pair := pair_rebuild_statics ne (static_instances bp) (pair bp)\<rparr>)"

definition rebuild_dynamics :: "nth_element_impl \<Rightarrow> broad_phase \<Rightarrow> broad_phase" where
  "rebuild_dynamics ne bp =
     (let bp1 = (if dynamic_instances bp = []
                 then bp\<lparr>pair := (pair bp)\<lparr>dynamic_tree := empty_tlas\<rparr>, dynamic_states := []\<rparr>
                 else synchronize_dynamic_states
                   (bp\<lparr>pair := pair_rebuild_dynamics ne (dynamic_instances bp) (pair bp)\<rparr>))
      in bp1\<lparr>dynamic_dirty := False\<rparr>)"

definition update_dynamics :: "entity_id \<Rightarrow> pose2 \<Rightarrow> broad_phase \<Rightarrow> broad_phase option" where
  "update_dynamics eid new_pose bp =
     (case entity_to_dynamic bp eid of
        None \<Rightarrow> Some bp
      | Some index \<Rightarrow>
          if index \<ge> length (dynamic_instances bp) then Some bp
          else
            (let inst = (dynamic_instances bp ! index)\<lparr>tl_pose := new_pose\<rparr>
             in case tl_model inst of
                  None \<Rightarrow> Some (bp\<lparr>dynamic_instances := (dynamic_instances bp)[index := inst]\<rparr>)
                | Some model \<Rightarrow>
                    (let (b, z0, z1) = compute_bounds model new_pose;
                         inst' = inst\<lparr>tl_bounds := b, tl_z_min := z0, tl_z_max := z1\<rparr>;
                         state = \<lparr>ls_pose = new_pose, ls_bounds = b, ls_z_min = z0, ls_z_max = z1\<rparr>;
                         bp' = bp\<lparr>dynamic_instances := (dynamic_instances bp)[index := inst'],
                                  dynamic_states := (dynamic_states bp)[index := state]\<rparr>
                     in if dynamic_dirty bp' then Some bp'
                        else map_option (\<lambda>p. bp'\<lparr>pair := p\<rparr>)
                               (pair_update_dynamic_leaf index state (pair bp')))))"

definition refit_dynamics :: "broad_phase \<Rightarrow> broad_phase" where
  "refit_dynamics bp =
     (if dynamic_dirty bp \<or> dynamic_states bp = [] then bp
      else bp\<lparr>pair := pair_refit_dynamics (dynamic_states bp) (pair bp)\<rparr>)"

text \<open>
  The stack loop of \<open>collect_overlaps\<close>; the head of the list is the top of the stack, and
  \<open>None\<close> would be a loop that never ends.
\<close>

definition push_child :: "nat option \<Rightarrow> nat list \<Rightarrow> nat list" where
  "push_child c stack = (case c of None \<Rightarrow> stack | Some i \<Rightarrow> i # stack)"

partial_function (option) collect_loop ::
    "bvh_node list \<Rightarrow> tlas_leaf list \<Rightarrow> aabb2 \<Rightarrow> nat list \<Rightarrow> entity_id list \<Rightarrow> entity_id list option" where
  "collect_loop nodes lvs query stack out =
     (case stack of
        [] \<Rightarrow> Some out
      | node_idx # rest \<Rightarrow>
          (let node = nodes ! node_idx
           in if \<not> aabb_intersects (bounds node) query then collect_loop nodes lvs query rest out
              else case leaf node of
                     Some k \<Rightarrow> collect_loop nodes lvs query rest (out @ [tl_entity (lvs ! k)])
                   | None \<Rightarrow> collect_loop nodes lvs query
                       (push_child (right node) (push_child (left node) rest)) out))"

definition collect_overlaps :: "tlas2 \<Rightarrow> aabb2 \<Rightarrow> entity_id list \<Rightarrow> entity_id list option" where
  "collect_overlaps tree query out =
     (case t_root tree of None \<Rightarrow> Some out
      | Some r \<Rightarrow> collect_loop (t_nodes tree) (t_leaves tree) query [r] out)"

definition query_entity_ids :: "aabb2 \<Rightarrow> bool \<Rightarrow> bool \<Rightarrow> broad_phase \<Rightarrow> entity_id list option" where
  "query_entity_ids query include_static include_dynamic bp =
     Option.bind
       (if include_static \<and> static_instances bp \<noteq> []
        then collect_overlaps (static_tree (pair bp)) query [] else Some [])
       (\<lambda>hits. if include_dynamic \<and> dynamic_instances bp \<noteq> []
               then collect_overlaps (dynamic_tree (pair bp)) query hits else Some hits)"

definition lookup_entity_id :: "string \<Rightarrow> broad_phase \<Rightarrow> entity_id option" where
  "lookup_entity_id name bp =
     (let dyn = (case dynamic_lookup bp name of
            Some idx \<Rightarrow> if idx < length (dynamic_instances bp)
                        then Some (tl_entity (dynamic_instances bp ! idx)) else None
          | None \<Rightarrow> None)
      in case static_lookup bp name of
           Some idx \<Rightarrow> if idx < length (static_instances bp)
                       then Some (tl_entity (static_instances bp ! idx)) else dyn
         | None \<Rightarrow> dyn)"

section \<open>The query is exact\<close>

lemma collect_loop_subtree:
  "collect_loop (pre @ layout (leaf_box lvs) par (length pre) t @ post) lvs q (length pre # stack) out =
   collect_loop (pre @ layout (leaf_box lvs) par (length pre) t @ post) lvs q stack
     (out @ map (\<lambda>k. tl_entity (lvs ! k)) (filter (\<lambda>k. aabb_intersects (leaf_box lvs k) q) (rev (tree_leaves t))))"
proof (induction t arbitrary: pre par post stack out)
  case (Tip k)
  show ?case by (subst collect_loop.simps) (simp add: Let_def)
next
  case (Fork l r)
  let ?i = "length pre"
  let ?nd = "\<lparr>bounds = tree_box (leaf_box lvs) (Fork l r), left = Some (Suc ?i),
      right = Some (Suc ?i + tree_nodes l), parent = par, leaf = None\<rparr>"
  let ?L = "layout (leaf_box lvs) (Some ?i) (Suc ?i) l"
  let ?R = "layout (leaf_box lvs) (Some ?i) (Suc ?i + tree_nodes l) r"
  let ?ns = "pre @ layout (leaf_box lvs) par ?i (Fork l r) @ post"
  have node: "?ns ! ?i = ?nd" by simp
  show ?case
  proof (cases "aabb_intersects (tree_box (leaf_box lvs) (Fork l r)) q")
    case True
    have "collect_loop ?ns lvs q (?i # stack) out =
        collect_loop ?ns lvs q ((Suc ?i + tree_nodes l) # Suc ?i # stack) out"
      using True by (subst collect_loop.simps) (simp only: node list.case Let_def, simp add: push_child_def)
    then show ?thesis
      using Fork.IH(2)[of "pre @ [?nd] @ ?L" "Some ?i" post "Suc ?i # stack" out]
        Fork.IH(1)[of "pre @ [?nd]" "Some ?i" "?R @ post" stack]
      by simp
  next
    case False
    have "filter (\<lambda>k. aabb_intersects (leaf_box lvs k) q) (rev (tree_leaves (Fork l r))) = []"
      using False tree_box_covers[of _ "Fork l r" "leaf_box lvs"]
      by (auto simp: filter_empty_conv intro: intersects_mono simp del: tree_box.simps tree_leaves.simps)
    moreover have "collect_loop ?ns lvs q (?i # stack) out = collect_loop ?ns lvs q stack out"
      using False by (subst collect_loop.simps) (simp only: node list.case Let_def, simp)
    ultimately show ?thesis by simp
  qed
qed

lemma collect_overlaps_tree:
  assumes "tlas_tree tr t"
  shows "collect_overlaps tr q out = Some (out @ map (\<lambda>k. tl_entity (t_leaves tr ! k))
     (filter (\<lambda>k. aabb_intersects (leaf_box (t_leaves tr) k) q) (rev (tree_leaves t))))"
  using assms collect_loop_subtree[of "[]" "t_leaves tr" None t "[]" q "[]" out]
  by (simp add: collect_overlaps_def tlas_tree_def collect_loop.simps[of _ _ _ "[]"])

text \<open>The entities of a list of instances whose box meets the query.\<close>

definition overlapping :: "aabb2 \<Rightarrow> tlas_leaf list \<Rightarrow> entity_id list" where
  "overlapping q ls = map tl_entity (filter (\<lambda>l. aabb_intersects (tl_bounds l) q) ls)"

lemma filter_nth_upt: "map (\<lambda>k. f (xs ! k)) (filter (\<lambda>k. P (xs ! k)) [0..<length xs]) = map f (filter P xs)"
proof -
  have "filter P xs = filter P (map ((!) xs) [0..<length xs])" by (simp add: map_nth)
  also have "\<dots> = map ((!) xs) (filter (\<lambda>k. P (xs ! k)) [0..<length xs])"
    by (simp add: filter_map o_def)
  finally show ?thesis by simp
qed

lemma collect_overlaps_exact:
  assumes "tlas_tight tr"
  shows "\<exists>hits. collect_overlaps tr q out = Some (out @ hits) \<and> mset hits = mset (overlapping q (t_leaves tr))"
proof (cases "tlas_empty tr")
  case True
  then show ?thesis by (auto simp: collect_overlaps_def tlas_empty_def overlapping_def)
next
  case False
  then obtain t where t: "tlas_tree tr t" using assms by (auto simp: tlas_tight_def)
  let ?f = "\<lambda>k. tl_entity (t_leaves tr ! k)" and ?P = "\<lambda>k. aabb_intersects (leaf_box (t_leaves tr) k) q"
  have "mset (rev (tree_leaves t)) = mset [0..<length (t_leaves tr)]"
    using t mset_set_set[of "tree_leaves t"] by (simp add: tlas_tree_def lessThan_atLeast0)
  then have "mset (map ?f (filter ?P (rev (tree_leaves t)))) = mset (map ?f (filter ?P [0..<length (t_leaves tr)]))"
    by (metis mset_filter mset_map)
  also have "\<dots> = mset (overlapping q (t_leaves tr))"
    using filter_nth_upt[of tl_entity "t_leaves tr" "\<lambda>l. aabb_intersects (tl_bounds l) q"]
    by (simp only: overlapping_def leaf_box_def)
  finally show ?thesis using collect_overlaps_tree[OF t] by blast
qed

section \<open>The invariant\<close>

definition part_wf :: "model_part \<Rightarrow> bool" where
  "part_wf part \<longleftrightarrow> shape_wf (base (part_geom part)) \<and> z_min (part_geom part) \<le> z_max (part_geom part)"

definition model_wf :: "model_profile \<Rightarrow> bool" where
  "model_wf m \<longleftrightarrow> (\<forall>part \<in> set (parts m). part_wf part)"

definition inst_current :: "tlas_leaf \<Rightarrow> bool" where
  "inst_current l \<longleftrightarrow>
     (\<exists>m. tl_model l = Some m \<and> model_wf m \<and> tl_blas l \<noteq> None \<and>
        (tl_bounds l, tl_z_min l, tl_z_max l) = compute_bounds m (tl_pose l))"

definition bp_inv :: "broad_phase \<Rightarrow> bool" where
  "bp_inv bp \<longleftrightarrow>
     (\<forall>l \<in> set (static_instances bp) \<union> set (dynamic_instances bp). inst_current l) \<and>
     dynamic_states bp = map make_leaf_state (dynamic_instances bp) \<and>
     tlas_tight (static_tree (pair bp)) \<and> tlas_tight (dynamic_tree (pair bp)) \<and>
     (\<not> dynamic_dirty bp \<longrightarrow> t_leaves (dynamic_tree (pair bp)) = dynamic_instances bp) \<and>
     (\<forall>e idx. entity_to_dynamic bp e = Some idx \<longrightarrow>
        idx < length (dynamic_instances bp) \<and> tl_entity (dynamic_instances bp ! idx) = e)"

text \<open>The static tree has no dirty flag: it holds the static instances once it has been rebuilt.\<close>

definition bp_synced :: "broad_phase \<Rightarrow> bool" where
  "bp_synced bp \<longleftrightarrow> \<not> dynamic_dirty bp \<and> t_leaves (static_tree (pair bp)) = static_instances bp"

lemma bounds_valid: "shape_wf s \<Longrightarrow> aabb_valid (get_bounds s)"
proof (cases s)
  case (Polygon2 vs)
  assume "shape_wf s"
  with Polygon2 have "vs ! 0 \<in> set vs" by (intro nth_mem) auto
  from polygon_bounds_contains[OF this] Polygon2 show ?thesis
    by (auto simp: aabb_valid_def aabb_contains_def)
qed (auto simp: aabb_valid_def)

lemma valid_iff_contains: "aabb_valid b \<longleftrightarrow> (\<exists>p. aabb_contains b p)"
  by (auto simp: aabb_valid_def aabb_contains_def intro: exI[of _ "bmin b"])

lemma transform_valid: "aabb_valid b \<Longrightarrow> aabb_valid (aabb_transform b p)"
  using aabb_transform_covers by (auto simp: valid_iff_contains)

lemma merge_valid: "aabb_valid a \<Longrightarrow> aabb_valid (aabb_merge a b)"
  by (auto simp: aabb_valid_def aabb_merge_def min_def max_def)

definition part_box :: "pose2 \<Rightarrow> model_part \<Rightarrow> aabb2" where
  "part_box pose part = aabb_transform (get_bounds (base (part_geom part))) (pose_compose pose (rel_pose part))"

lemma compute_bounds_fold:
  fixes ps :: "model_part list" and pose :: pose2
  assumes "\<forall>p \<in> set ps. part_wf p" "aabb_valid b" "z0 \<le> z1"
  defines "res \<equiv> fold (\<lambda>part (b, z0, z1). (aabb_merge b (part_box pose part),
      min z0 (z_min (part_geom part)), max z1 (z_max (part_geom part)))) ps (b, z0, z1)"
  shows "aabb_valid (fst res) \<and> fst (snd res) \<le> snd (snd res) \<and>
      aabb_contains_box (fst res) b \<and> fst (snd res) \<le> z0 \<and> z1 \<le> snd (snd res) \<and>
      (\<forall>p \<in> set ps. aabb_contains_box (fst res) (part_box pose p) \<and>
         fst (snd res) \<le> z_min (part_geom p) \<and> z_max (part_geom p) \<le> snd (snd res))"
  unfolding res_def using assms(1-3)
proof (induction ps arbitrary: b z0 z1)
  case (Cons p ps)
  let ?step = "\<lambda>part (b, z0, z1). (aabb_merge b (part_box pose part),
      min z0 (z_min (part_geom part)), max z1 (z_max (part_geom part)))"
  define b' where "b' = aabb_merge b (part_box pose p)"
  define lo where "lo = min z0 (z_min (part_geom p))"
  define hi where "hi = max z1 (z_max (part_geom p))"
  define F where "F = fold ?step ps (b', lo, hi)"
  have fold: "fold ?step (p # ps) (b, z0, z1) = F" by (simp add: F_def b'_def lo_def hi_def)
  have "aabb_valid b'" "lo \<le> hi" using Cons.prems
    by (auto simp: b'_def lo_def hi_def merge_valid min_def max_def)
  with Cons.IH[of b' lo hi] Cons.prems(1)
  have F: "aabb_valid (fst F)" "fst (snd F) \<le> snd (snd F)" "aabb_contains_box (fst F) b'"
    "fst (snd F) \<le> lo" "hi \<le> snd (snd F)"
    "\<forall>p \<in> set ps. aabb_contains_box (fst F) (part_box pose p) \<and>
         fst (snd F) \<le> z_min (part_geom p) \<and> z_max (part_geom p) \<le> snd (snd F)"
    by (simp_all add: F_def)
  have "aabb_contains_box (fst F) b" "aabb_contains_box (fst F) (part_box pose p)"
    using F(3) by (auto simp: b'_def intro: contains_box_trans)
  with F show ?case unfolding fold by (auto simp: lo_def hi_def)
qed simp

lemma compute_bounds_ok:
  assumes "model_wf m"
  shows "aabb_valid (fst (compute_bounds m pose)) \<and>
      fst (snd (compute_bounds m pose)) \<le> snd (snd (compute_bounds m pose)) \<and>
      (\<forall>p \<in> set (parts m). aabb_contains_box (fst (compute_bounds m pose)) (part_box pose p) \<and>
         fst (snd (compute_bounds m pose)) \<le> z_min (part_geom p) \<and>
         z_max (part_geom p) \<le> snd (snd (compute_bounds m pose)))"
proof (cases "parts m")
  case Nil
  then show ?thesis by (simp add: compute_bounds_def aabb_valid_def)
next
  case (Cons p ps)
  have wf: "part_wf p" "\<forall>q \<in> set ps. part_wf q" using assms Cons by (auto simp: model_wf_def)
  then have "aabb_valid (part_box pose p)" "z_min (part_geom p) \<le> z_max (part_geom p)"
    by (auto simp: part_wf_def part_box_def intro: transform_valid bounds_valid)
  from compute_bounds_fold[OF wf(2) this, of pose] show ?thesis
    unfolding compute_bounds_def Cons list.case part_box_def[symmetric] by auto
qed

lemma inst_current_ok:
  "inst_current l \<Longrightarrow> instance_ok l"
proof -
  assume "inst_current l"
  then obtain m where m: "tl_model l = Some m" "model_wf m" "tl_blas l \<noteq> None"
    "compute_bounds m (tl_pose l) = (tl_bounds l, tl_z_min l, tl_z_max l)"
    by (auto simp: inst_current_def)
  from compute_bounds_ok[OF m(2), of "tl_pose l"] m show ?thesis
    by (simp add: instance_ok_def aabb_valid_def)
qed

lemma rebuild_tree_leaves:
  assumes "\<forall>l \<in> set ls. inst_current l" shows "t_leaves (rebuild_tree ne ls tr) = ls"
proof (cases "ls = []")
  case False
  then show ?thesis using rebuild_tree_valid[of ls ne tr] assms inst_current_ok by blast
qed (simp add: rebuild_tree_def)

lemma empty_tlas_leaves [simp]: "t_leaves empty_tlas = []"
  by (simp add: empty_tlas_def)

lemma bp_inv_empty: "bp_inv empty_bp"
  by (simp add: bp_inv_def empty_bp_def empty_tlas_tight)

lemma add_instance_inv [inv_intros]:
  assumes "bp_inv bp" "\<And>m. bi_model inst = Some m \<Longrightarrow> model_wf m"
  shows "bp_inv (snd (add_instance ne inst bp))"
proof (cases "bi_model inst")
  case None
  with assms(1) show ?thesis by (simp add: add_instance_def init_instance_info_def bp_inv_def)
next
  case (Some m)
  obtain b z0 z1 where cb: "compute_bounds m (bi_pose inst) = (b, z0, z1)" by (metis prod_cases3)
  have "inst_current \<lparr>tl_model = Some m, tl_blas = Some (blas_build ne m), tl_pose = bi_pose inst,
      tl_bounds = b, tl_z_min = z0, tl_z_max = z1, tl_entity = bi_entity inst\<rparr>"
    using assms(2)[OF Some] cb by (simp add: inst_current_def)
  then show ?thesis using assms(1) Some cb
    by (auto simp: add_instance_def init_instance_info_def bp_inv_def nth_append less_Suc_eq Let_def
        split: if_splits)
qed

lemma build_inv [inv_intros]:
  assumes "bp_inv bp" shows "bp_inv (build ne bp)" "bp_synced (build ne bp)"
  using assms
  by (auto simp: bp_inv_def bp_synced_def build_def synchronize_dynamic_states_def pair_build_def
      rebuild_tree_leaves rebuild_tree_tight)

lemma rebuild_statics_inv [inv_intros]:
  assumes "bp_inv bp" shows "bp_inv (rebuild_statics ne bp)"
    and "t_leaves (static_tree (pair (rebuild_statics ne bp))) = static_instances bp"
  using assms
  by (auto simp: bp_inv_def rebuild_statics_def pair_rebuild_statics_def rebuild_tree_leaves
      rebuild_tree_tight empty_tlas_tight)

lemma rebuild_dynamics_inv [inv_intros]:
  assumes "bp_inv bp" shows "bp_inv (rebuild_dynamics ne bp)" "\<not> dynamic_dirty (rebuild_dynamics ne bp)"
proof -
  show "bp_inv (rebuild_dynamics ne bp)" using assms
    by (cases "dynamic_instances bp = []")
      (auto simp: bp_inv_def rebuild_dynamics_def pair_rebuild_dynamics_def Let_def
      synchronize_dynamic_states_def rebuild_tree_leaves rebuild_tree_tight empty_tlas_tight)
  show "\<not> dynamic_dirty (rebuild_dynamics ne bp)" by (simp add: rebuild_dynamics_def Let_def)
qed

lemma refit_dynamics_id:
  assumes "bp_inv bp" shows "refit_dynamics bp = bp"
proof -
  have eq: "make_leaf_state = leaf_state_of"
    by (simp add: fun_eq_iff make_leaf_state_def leaf_state_of_def)
  show ?thesis using assms refit_same_states[of "dynamic_tree (pair bp)"]
    by (auto simp: refit_dynamics_def bp_inv_def pair_refit_dynamics_def eq)
qed

text \<open>What an update of a dynamic entity does to the list of instances.\<close>

definition move_instance :: "pose2 \<Rightarrow> tlas_leaf \<Rightarrow> tlas_leaf" where
  "move_instance p l =
     (case tl_model l of None \<Rightarrow> l\<lparr>tl_pose := p\<rparr>
      | Some m \<Rightarrow> (let (b, z0, z1) = compute_bounds m p
          in l\<lparr>tl_pose := p, tl_bounds := b, tl_z_min := z0, tl_z_max := z1\<rparr>))"

lemma move_instance_current: "inst_current l \<Longrightarrow> inst_current (move_instance p l)"
  by (auto simp: inst_current_def move_instance_def split: prod.splits)

lemma move_instance_entity [simp]: "tl_entity (move_instance p l) = tl_entity l"
  by (simp add: move_instance_def split: option.splits prod.splits)

lemma update_dynamics_spec:
  assumes "bp_inv bp" "entity_to_dynamic bp eid = Some idx"
  shows "\<exists>bp'. update_dynamics eid p bp = Some bp' \<and> bp_inv bp' \<and>
      dynamic_instances bp' = (dynamic_instances bp)[idx := move_instance p (dynamic_instances bp ! idx)] \<and>
      static_instances bp' = static_instances bp \<and> static_tree (pair bp') = static_tree (pair bp) \<and>
      dynamic_dirty bp' = dynamic_dirty bp \<and> entity_to_dynamic bp' = entity_to_dynamic bp"
proof -
  let ?l = "dynamic_instances bp ! idx"
  have idx: "idx < length (dynamic_instances bp)" using assms by (auto simp: bp_inv_def)
  then have cur: "inst_current ?l" using assms(1) by (simp add: bp_inv_def)
  then obtain m where m: "tl_model ?l = Some m" by (auto simp: inst_current_def)
  obtain b z0 z1 where cb: "compute_bounds m p = (b, z0, z1)" by (metis prod_cases3)
  define l' where "l' = move_instance p ?l"
  have l': "l' = ?l\<lparr>tl_pose := p, tl_bounds := b, tl_z_min := z0, tl_z_max := z1\<rparr>"
    using m cb by (simp add: l'_def move_instance_def)
  define st where "st = \<lparr>ls_pose = p, ls_bounds = b, ls_z_min = z0, ls_z_max = z1\<rparr>"
  have st: "st = make_leaf_state l'" "set_leaf_state st ?l = l'"
    by (simp_all add: st_def l' make_leaf_state_def set_leaf_state_def)
  define bp1 where "bp1 = bp\<lparr>dynamic_instances := (dynamic_instances bp)[idx := l'],
      dynamic_states := (dynamic_states bp)[idx := st]\<rparr>"
  have upd: "update_dynamics eid p bp = (if dynamic_dirty bp then Some bp1
      else map_option (\<lambda>q. bp1\<lparr>pair := q\<rparr>) (pair_update_dynamic_leaf idx st (pair bp)))"
    using idx m cb assms(2) by (simp add: update_dynamics_def Let_def bp1_def l' st_def)
  have insts: "\<forall>l \<in> set ((dynamic_instances bp)[idx := l']). inst_current l"
    using assms(1) move_instance_current[OF cur] set_update_subset_insert[of "dynamic_instances bp" idx l']
    by (auto simp: bp_inv_def l'_def)
  have states: "(dynamic_states bp)[idx := st] = map make_leaf_state ((dynamic_instances bp)[idx := l'])"
    using assms(1) st(1) by (simp add: bp_inv_def map_update)
  have ents: "tl_entity ((dynamic_instances bp)[idx := l'] ! i) = tl_entity (dynamic_instances bp ! i)" for i
    using idx by (cases "i = idx") (simp_all add: l')
  show ?thesis
  proof (cases "dynamic_dirty bp")
    case True
    then have "bp_inv bp1" using assms(1) insts states ents by (auto simp: bp_inv_def bp1_def)
    with True upd show ?thesis by (simp add: bp1_def l'_def)
  next
    case False
    have tight: "tlas_tight (dynamic_tree (pair bp))" and lvs: "t_leaves (dynamic_tree (pair bp)) = dynamic_instances bp"
      using assms(1) False by (auto simp: bp_inv_def)
    obtain tr' where tr': "update_leaf idx st (dynamic_tree (pair bp)) = Some tr'" "tlas_tight tr'"
      "t_leaves tr' = (dynamic_instances bp)[idx := l']"
      using update_leaf_tight[OF tight, of idx st] lvs idx st(2) by auto
    define bp2 where "bp2 = bp1\<lparr>pair := (pair bp)\<lparr>dynamic_tree := tr'\<rparr>\<rparr>"
    have "update_dynamics eid p bp = Some bp2"
      using upd False tr'(1) by (simp add: pair_update_dynamic_leaf_def bp2_def)
    moreover have "bp_inv bp2"
      using assms(1) insts states ents tr'(2,3) by (auto simp: bp_inv_def bp1_def bp2_def)
    ultimately show ?thesis by (simp add: bp2_def bp1_def l'_def)
  qed
qed

lemma query_exact:
  assumes "bp_inv bp" "bp_synced bp"
  shows "\<exists>hits. query_entity_ids q st dyn bp = Some hits \<and>
     mset hits = (if st then mset (overlapping q (static_instances bp)) else {#}) +
                 (if dyn then mset (overlapping q (dynamic_instances bp)) else {#})"
proof -
  have s: "tlas_tight (static_tree (pair bp))" "t_leaves (static_tree (pair bp)) = static_instances bp"
    and d: "tlas_tight (dynamic_tree (pair bp))" "t_leaves (dynamic_tree (pair bp)) = dynamic_instances bp"
    using assms by (auto simp: bp_inv_def bp_synced_def)
  obtain h1 where h1: "(if st \<and> static_instances bp \<noteq> []
      then collect_overlaps (static_tree (pair bp)) q [] else Some []) = Some h1"
    "mset h1 = (if st then mset (overlapping q (static_instances bp)) else {#})"
    using collect_overlaps_exact[OF s(1), of q "[]"] s(2)
    by (cases "st \<and> static_instances bp \<noteq> []") (auto simp: overlapping_def)
  obtain h2 where h2: "(if dyn \<and> dynamic_instances bp \<noteq> []
      then collect_overlaps (dynamic_tree (pair bp)) q h1 else Some h1) = Some (h1 @ h2)"
    "mset h2 = (if dyn then mset (overlapping q (dynamic_instances bp)) else {#})"
    using collect_overlaps_exact[OF d(1), of q h1] d(2)
    by (cases "dyn \<and> dynamic_instances bp \<noteq> []") (auto simp: overlapping_def)
  show ?thesis unfolding query_entity_ids_def h1(1) Option.bind.simps h2(1)
    using h1(2) h2(2) by simp
qed

text \<open>Every world point a part of an instance covers lies in the box of the instance.\<close>

definition covers_world :: "tlas_leaf \<Rightarrow> point2 \<Rightarrow> bool" where
  "covers_world l w \<longleftrightarrow>
     (\<exists>m part a. tl_model l = Some m \<and> part \<in> set (parts m) \<and>
        shape_covers (base (part_geom part)) a \<and>
        w = transform_point (tl_pose l) (transform_point (rel_pose part) a))"

lemma covers_world_in_bounds:
  assumes "inst_current l" "covers_world l w"
  shows "aabb_contains (tl_bounds l) w"
proof -
  obtain m part a where m: "tl_model l = Some m" "part \<in> set (parts m)"
    "shape_covers (base (part_geom part)) a"
    "w = transform_point (tl_pose l) (transform_point (rel_pose part) a)"
    using assms(2) by (auto simp: covers_world_def)
  have wf: "model_wf m" and b: "tl_bounds l = fst (compute_bounds m (tl_pose l))"
    using assms(1) m(1) by (auto simp: inst_current_def prod_eq_iff)
  have "shape_wf (base (part_geom part))" using wf m(2) by (auto simp: model_wf_def part_wf_def)
  from world_bounds_cover_shape[OF this m(3), of "pose_compose (tl_pose l) (rel_pose part)"]
  have "aabb_contains (part_box (tl_pose l) part) w"
    by (simp add: part_box_def m(4) transform_point_compose)
  with compute_bounds_ok[OF wf] m(2) b show ?thesis by (auto intro: contains_box_contains)
qed

section \<open>Collision masks\<close>

definition too_many_categories :: string where
  "too_many_categories = ''Too many collision categories (>32)''"

primrec assign_bits ::
    "string list \<Rightarrow> (string \<rightharpoonup> nat) \<times> nat \<Rightarrow> string + ((string \<rightharpoonup> nat) \<times> nat)" where
  "assign_bits [] st = Inr st"
| "assign_bits (c # cs) st =
     (if fst st c \<noteq> None then assign_bits cs st
      else if snd st \<ge> 32 then Inl too_many_categories
      else assign_bits cs ((fst st)(c \<mapsto> snd st), snd st + 1))"

definition filter_names :: "collision_filter list \<Rightarrow> string list" where
  "filter_names filters = concat (map (\<lambda>f. category f # collides_with f) filters)"

text \<open>\<^verbatim>\<open>1u << n\<close>.\<close>

definition one_shl :: "nat \<Rightarrow> 32 word" where
  "one_shl n = push_bit n 1"

definition mask_of :: "(string \<rightharpoonup> nat) \<Rightarrow> collision_filter \<Rightarrow> collision_mask" where
  "mask_of bit_index f =
     \<lparr>category_bits = one_shl (the (bit_index (category f))),
      mask_bits = fold (\<lambda>cw mask. mask OR one_shl (the (bit_index cw))) (collides_with f) 0\<rparr>"

definition build_collision_masks :: "collision_filter list \<Rightarrow> string + collision_mask list" where
  "build_collision_masks filters =
     and_then (assign_bits (filter_names filters) (Map.empty, 0))
       (\<lambda>(bit_index, next_bit). Inr (map (mask_of bit_index) filters))"

definition bits_ok :: "(string \<rightharpoonup> nat) \<times> nat \<Rightarrow> bool" where
  "bits_ok st \<longleftrightarrow> inj_on (fst st) (dom (fst st)) \<and> ran (fst st) = {..<snd st} \<and>
     finite (dom (fst st)) \<and> card (dom (fst st)) = snd st \<and> snd st \<le> 32"

lemma bits_ok_extend:
  assumes "bits_ok (m, n)" "m c = None" "n < 32" shows "bits_ok (m(c \<mapsto> n), n + 1)"
proof -
  have nr: "m d \<noteq> Some n" for d
    using assms(1) ranI[of m d n] by (auto simp: bits_ok_def)
  have "inj_on (m(c \<mapsto> n)) (insert c (dom m))"
  proof (rule inj_onI)
    fix x y assume *: "x \<in> insert c (dom m)" "y \<in> insert c (dom m)" "(m(c \<mapsto> n)) x = (m(c \<mapsto> n)) y"
    show "x = y"
    proof (cases "x = c \<or> y = c")
      case True
      with * nr[of x] nr[of y] show ?thesis by (auto simp del: fun_upd_apply simp: fun_upd_def split: if_splits)
    next
      case False
      with * assms(1) show ?thesis by (auto simp: bits_ok_def inj_on_def)
    qed
  qed
  moreover have "ran (m(c \<mapsto> n)) = insert n (ran m)" using assms(2) by simp
  moreover have "c \<notin> dom m" using assms(2) by (simp add: domIff)
  ultimately show ?thesis using assms by (auto simp: bits_ok_def lessThan_Suc)
qed

lemma assign_bits_ok:
  assumes "bits_ok st"
  shows "case assign_bits names st of
       Inl e \<Rightarrow> e = too_many_categories \<and> 32 < card (dom (fst st) \<union> set names)
     | Inr st' \<Rightarrow> bits_ok st' \<and> dom (fst st') = dom (fst st) \<union> set names"
  using assms
proof (induction names arbitrary: st)
  case (Cons c cs)
  obtain m n where st: "st = (m, n)" by (cases st)
  show ?case
  proof (cases "m c")
    case None
    show ?thesis
    proof (cases "n \<ge> 32")
      case True
      have "c \<notin> dom m" using None by (simp add: domIff)
      then have "32 < card (insert c (dom m))" using Cons.prems True st by (simp add: bits_ok_def)
      also have "\<dots> \<le> card (dom m \<union> set (c # cs))"
        using Cons.prems st by (intro card_mono) (auto simp: bits_ok_def)
      finally show ?thesis using True None st by simp
    next
      case False
      with None Cons.prems st have "bits_ok (m(c \<mapsto> n), n + 1)" by (intro bits_ok_extend) auto
      note IH = Cons.IH[OF this, unfolded fst_conv dom_fun_upd option.simps if_False Un_insert_left]
      show ?thesis using False None st IH
        by (cases "assign_bits cs (m(c \<mapsto> n), Suc n)") (simp_all del: fun_upd_apply add: case_prod_beta)
    qed
  next
    case (Some k)
    then have "dom m \<union> set (c # cs) = dom m \<union> set cs" by auto
    with Cons.IH[OF Cons.prems] Some st show ?thesis by (simp only: assign_bits.simps fst_conv) simp
  qed
qed simp

lemma bit_single: "n < 32 \<Longrightarrow> bit (one_shl n) k \<longleftrightarrow> k = n"
  by (auto simp: one_shl_def bit_simps)

lemma bit_fold_or:
  "(\<forall>c \<in> set cs. f c < 32) \<Longrightarrow>
   bit (fold (\<lambda>c mask. mask OR one_shl (f c)) cs w) k \<longleftrightarrow> bit w k \<or> (\<exists>c \<in> set cs. f c = k)"
proof (induction cs arbitrary: w)
  case (Cons c cs)
  have "f c < 32" using Cons.prems by simp
  from bit_single[OF this, of k] have "bit (w OR one_shl (f c)) k \<longleftrightarrow> bit w k \<or> k = f c"
    by (simp only: bit_or_iff)
  moreover have "bit (fold (\<lambda>c mask. mask OR one_shl (f c)) (c # cs) w) k \<longleftrightarrow>
      bit (w OR one_shl (f c)) k \<or> (\<exists>c \<in> set cs. f c = k)"
    using Cons.IH[of "w OR one_shl (f c)"] Cons.prems by simp
  ultimately show ?case by auto
qed simp

lemma bits_ok_less: "bits_ok (m, n) \<Longrightarrow> m c = Some k \<Longrightarrow> k < 32"
  using ranI[of m c k] by (simp add: bits_ok_def)

lemma mask_of_meets:
  assumes ok: "bits_ok (m, n)" and dom: "set (category g # collides_with f) \<subseteq> dom m"
  shows "mask_bits (mask_of m f) AND category_bits (mask_of m g) \<noteq> 0 \<longleftrightarrow>
     category g \<in> set (collides_with f)"
proof -
  have less: "the (m c) < 32" if "c \<in> dom m" for c using that ok by (auto dest: bits_ok_less)
  have inj: "the (m c) = the (m d) \<longleftrightarrow> c = d" if "c \<in> dom m" "d \<in> dom m" for c d
  proof
    assume "the (m c) = the (m d)"
    with that have "m c = m d" by auto
    with that ok show "c = d" by (auto simp: bits_ok_def dest: inj_onD)
  qed simp
  have len: "k < 32" if "bit w k" for w :: "32 word" and k using bit_imp_le_length[OF that] by simp
  have "mask_bits (mask_of m f) AND category_bits (mask_of m g) \<noteq> 0 \<longleftrightarrow>
      (\<exists>k. bit (mask_bits (mask_of m f)) k \<and> bit (category_bits (mask_of m g)) k)"
    by (auto simp: bit_eq_iff bit_and_iff intro: len)
  also have "\<dots> \<longleftrightarrow> (\<exists>c \<in> set (collides_with f). the (m c) = the (m (category g)))"
    using dom less by (subst mask_of_def, subst mask_of_def)
      (auto simp: bit_fold_or bit_single subset_eq)
  also have "\<dots> \<longleftrightarrow> category g \<in> set (collides_with f)"
    using dom inj by (auto simp: subset_eq)
  finally show ?thesis .
qed

lemma bits_ok_empty: "bits_ok (Map.empty, 0)"
  by (simp add: bits_ok_def)

lemma build_collision_masks_ok:
  "case build_collision_masks filters of
     Inl e \<Rightarrow> 32 < card (set (filter_names filters))
   | Inr masks \<Rightarrow> length masks = length filters \<and>
       (\<forall>i < length filters. \<forall>j < length filters.
          mask_bits (masks ! i) AND category_bits (masks ! j) \<noteq> 0 \<longleftrightarrow>
          category (filters ! j) \<in> set (collides_with (filters ! i)))"
proof (cases "assign_bits (filter_names filters) (Map.empty, 0)")
  case (Inl e)
  with assign_bits_ok[OF bits_ok_empty, of "filter_names filters"] show ?thesis
    by (simp add: build_collision_masks_def)
next
  case (Inr st)
  obtain m n where st: "st = (m, n)" by (cases st)
  have ok: "bits_ok (m, n)" and dom: "dom m = set (filter_names filters)"
    using assign_bits_ok[OF bits_ok_empty, of "filter_names filters"] Inr st by auto
  have "set (category (filters ! j) # collides_with (filters ! i)) \<subseteq> dom m"
    if "i < length filters" "j < length filters" for i j
    unfolding dom using that nth_mem[of i filters] nth_mem[of j filters]
    unfolding filter_names_def by (auto, metis nth_mem that(1))
  with mask_of_meets[OF ok] Inr st show ?thesis by (simp add: build_collision_masks_def)
qed

text \<open>The constructor: it adds the instances in order, and a failure of either step is an exception.\<close>

primrec add_all ::
    "nth_element_impl \<Rightarrow> bp_instance list \<Rightarrow> broad_phase \<Rightarrow> string + broad_phase" where
  "add_all ne [] bp = Inr bp"
| "add_all ne (i # is) bp =
     (case add_instance ne i bp of
        (Inl e, _) \<Rightarrow> Inl (''Failed to add BroadPhase instance: '' @ error_to_string e)
      | (Inr _, bp') \<Rightarrow> add_all ne is bp')"

definition make_broad_phase ::
    "nth_element_impl \<Rightarrow> bp_instance list \<Rightarrow> collision_filter list \<Rightarrow> string + broad_phase" where
  "make_broad_phase ne instances filters =
     and_then (add_all ne instances empty_bp)
       (\<lambda>bp. and_then (build_collision_masks filters) (\<lambda>ms. Inr (bp\<lparr>collision_masks := ms\<rparr>)))"

lemma add_all_inv:
  assumes "\<forall>i \<in> set is. \<forall>m. bi_model i = Some m \<longrightarrow> model_wf m" "bp_inv bp" "add_all ne is bp = Inr bp'"
  shows "bp_inv bp'"
  using assms
proof (induction "is" arbitrary: bp)
  case (Cons i "is")
  obtain r bp1 where add: "add_instance ne i bp = (r, bp1)" by (cases "add_instance ne i bp")
  have "bp_inv bp1" using add_instance_inv[of bp i ne] Cons.prems(1,2) add by auto
  with Cons add show ?case by (auto split: sum.splits)
qed simp

lemma make_broad_phase_inv:
  assumes "\<forall>i \<in> set is. \<forall>m. bi_model i = Some m \<longrightarrow> model_wf m" "make_broad_phase ne is fs = Inr bp"
  shows "bp_inv bp"
proof -
  obtain bp0 ms where "add_all ne is empty_bp = Inr bp0" "bp = bp0\<lparr>collision_masks := ms\<rparr>"
    using assms(2) by (auto simp: make_broad_phase_def and_then_eq_Inr)
  with add_all_inv[OF assms(1) bp_inv_empty] show ?thesis by (auto simp: bp_inv_def)
qed

section \<open>Runs\<close>

text \<open>What the simulator does with a built broad phase between two queries.\<close>

datatype bp_move = Move entity_id pose2 | Refit

primrec bp_run :: "bp_move list \<Rightarrow> broad_phase \<Rightarrow> broad_phase option" where
  "bp_run [] bp = Some bp"
| "bp_run (m # ms) bp =
     Option.bind (case m of Move e p \<Rightarrow> update_dynamics e p bp | Refit \<Rightarrow> Some (refit_dynamics bp)) (bp_run ms)"

text \<open>The specification of a move: it changes the one instance the entity table names.\<close>

definition move_spec :: "bp_move \<Rightarrow> (entity_id \<rightharpoonup> nat) \<Rightarrow> tlas_leaf list \<Rightarrow> tlas_leaf list" where
  "move_spec m idx ls =
     (case m of Refit \<Rightarrow> ls
      | Move e p \<Rightarrow> (case idx e of None \<Rightarrow> ls | Some i \<Rightarrow> ls[i := move_instance p (ls ! i)]))"

lemma bp_run_refines:
  assumes "bp_inv bp" "bp_synced bp"
  shows "\<exists>bp'. bp_run ms bp = Some bp' \<and> bp_inv bp' \<and> bp_synced bp' \<and>
     static_instances bp' = static_instances bp \<and>
     dynamic_instances bp' = fold (\<lambda>m. move_spec m (entity_to_dynamic bp)) ms (dynamic_instances bp)"
  using assms
proof (induction ms arbitrary: bp)
  case (Cons m ms)
  show ?case
  proof (cases m)
    case Refit
    with Cons show ?thesis by (simp add: refit_dynamics_id move_spec_def)
  next
    case (Move e p)
    show ?thesis
    proof (cases "entity_to_dynamic bp e")
      case None
      then have "update_dynamics e p bp = Some bp" by (simp add: update_dynamics_def)
      with None Move Cons show ?thesis by (simp add: move_spec_def)
    next
      case (Some i)
      obtain bp1 where bp1: "update_dynamics e p bp = Some bp1" "bp_inv bp1"
        "dynamic_instances bp1 = (dynamic_instances bp)[i := move_instance p (dynamic_instances bp ! i)]"
        "static_instances bp1 = static_instances bp" "static_tree (pair bp1) = static_tree (pair bp)"
        "dynamic_dirty bp1 = dynamic_dirty bp" "entity_to_dynamic bp1 = entity_to_dynamic bp"
        using update_dynamics_spec[OF Cons.prems(1) Some, of p] by blast
      then have "bp_synced bp1" using Cons.prems(2) by (simp add: bp_synced_def)
      from Cons.IH[OF bp1(2) this] bp1 Some Move show ?thesis by (simp add: move_spec_def)
    qed
  qed
qed simp

lemma bp_run_query_exact:
  assumes "\<forall>i \<in> set is. \<forall>m. bi_model i = Some m \<longrightarrow> model_wf m" "make_broad_phase ne is fs = Inr bp0"
  shows "\<exists>bp hits. bp_run ms (build ne bp0) = Some bp \<and>
     dynamic_instances bp = fold (\<lambda>m. move_spec m (entity_to_dynamic bp0)) ms (dynamic_instances bp0) \<and>
     static_instances bp = static_instances bp0 \<and>
     query_entity_ids q True True bp = Some hits \<and>
     mset hits = mset (overlapping q (static_instances bp @ dynamic_instances bp))"
proof -
  note inv = build_inv[OF make_broad_phase_inv[OF assms], of ne]
  obtain bp where bp: "bp_run ms (build ne bp0) = Some bp" "bp_inv bp" "bp_synced bp"
    "static_instances bp = static_instances (build ne bp0)"
    "dynamic_instances bp = fold (\<lambda>m. move_spec m (entity_to_dynamic (build ne bp0))) ms
       (dynamic_instances (build ne bp0))"
    using bp_run_refines[OF inv] by blast
  moreover have "entity_to_dynamic (build ne bp0) = entity_to_dynamic bp0"
    "dynamic_instances (build ne bp0) = dynamic_instances bp0"
    "static_instances (build ne bp0) = static_instances bp0"
    by (simp_all add: build_def synchronize_dynamic_states_def)
  moreover obtain hits where "query_entity_ids q True True bp = Some hits"
    "mset hits = mset (overlapping q (static_instances bp)) + mset (overlapping q (dynamic_instances bp))"
    using query_exact[OF bp(2,3), of q True True] by auto
  ultimately show ?thesis by (auto simp: overlapping_def)
qed

section \<open>Properties\<close>

text \<open>A full refit after a leaf has moved out of the box of the root leaves the root with its old
  box: the climb from the first leaf collects a parent before its own parent and the collected nodes
  are merged in reverse order. The query then misses the moved entity.\<close>

theorem refit_misses_moved_leaf:
  "let tr = refit (map disc_state [100, 4, 8, 12]) four_tlas
   in overlapping (disc_box 100) (t_leaves tr) = [10] \<and>
      collect_overlaps tr (disc_box 100) [] = Some [] \<and>
      (\<exists>hits. collect_overlaps four_tlas (disc_box 0) [] = Some hits \<and> mset hits = {#10#})"
proof -
  have "\<exists>hits. collect_overlaps four_tlas (disc_box 0) [] = Some hits \<and> mset hits = {#10#}"
    using collect_overlaps_exact[of four_tlas "disc_box 0" "[]"] refit_stale_root four_tlas_tree(2)
    by (auto simp: overlapping_def four_discs_def disc_box_def aabb_intersects_def Let_def)
  then show ?thesis using refit_stale_root
    by (auto simp: Let_def overlapping_def collect_overlaps_def collect_loop.simps disc_box_def aabb_intersects_def)
qed

definition disc_instance :: "real \<Rightarrow> bool \<Rightarrow> entity_id \<Rightarrow> bp_instance" where
  "disc_instance x static e = \<lparr>bi_name = ''disc'', bi_pose = \<lparr>pos = pt x 0, yaw = 0\<rparr>,
     bi_model = Some unit_disc, bi_static = static, bi_entity = e\<rparr>"

lemma unit_disc_wf: "model_wf unit_disc"
  by (simp add: model_wf_def part_wf_def unit_disc_def)

definition disc_world :: "bp_instance list" where
  "disc_world = [disc_instance 0 True 1, disc_instance 10 False 2]"

lemma disc_world_wf: "\<forall>i \<in> set disc_world. \<forall>m. bi_model i = Some m \<longrightarrow> model_wf m"
  by (auto simp: disc_world_def disc_instance_def unit_disc_wf)

lemma compute_disc: "compute_bounds unit_disc \<lparr>pos = pt x 0, yaw = 0\<rparr> = (disc_box x, 0, 1)"
  by (simp add: compute_bounds_def unit_disc_def pose_compose_def Let_def aabb_transform_def
      transform_point_cs_def disc_box_def aabb_expand_def)

definition disc_bp :: broad_phase where
  "disc_bp = empty_bp\<lparr>static_instances := [disc_leaf 0 1], dynamic_instances := [disc_leaf 10 2],
     dynamic_states := [disc_state 10], static_lookup := [''disc'' \<mapsto> 0], dynamic_lookup := [''disc'' \<mapsto> 0],
     entity_to_dynamic := [2 \<mapsto> 0], next_entity_id := 3\<rparr>"

lemma disc_bp_made: "make_broad_phase nth_by_sort disc_world [] = Inr disc_bp"
  by (simp add: make_broad_phase_def disc_world_def disc_instance_def add_instance_def init_instance_info_def
        empty_bp_def build_collision_masks_def Let_def filter_names_def compute_disc disc_bp_def
        disc_leaf_def disc_state_def make_leaf_state_def)

text \<open>C6: Whatever entities are moved and refitted after the build, the query of the broad phase
  returns, each exactly once, the entities whose box meets the query box, and the boxes are those of
  the moved instances: the two trees never hide or invent an instance.\<close>

theorem broad_phase_query_exact:
  assumes "\<forall>i \<in> set instances. \<forall>m. bi_model i = Some m \<longrightarrow> model_wf m"
  shows "case make_broad_phase ne instances filters of
      Inl _ \<Rightarrow> True
    | Inr bp0 \<Rightarrow> \<exists>bp hits. bp_run moves (build ne bp0) = Some bp \<and>
        dynamic_instances bp = fold (\<lambda>m. move_spec m (entity_to_dynamic bp0)) moves (dynamic_instances bp0) \<and>
        static_instances bp = static_instances bp0 \<and>
        query_entity_ids q True True bp = Some hits \<and>
        mset hits = mset (overlapping q (static_instances bp @ dynamic_instances bp))"
  using bp_run_query_exact[OF assms] by (auto split: sum.splits)

theorem broad_phase_query_exact_witness:
  "\<exists>bp. bp_run [Move 2 \<lparr>pos = pt 3 0, yaw = 0\<rparr>, Refit] (build nth_by_sort disc_bp) = Some bp \<and>
     dynamic_instances bp = [disc_leaf 3 2] \<and>
     query_entity_ids (disc_box 4) True True bp = Some [2]"
proof -
  have "move_instance \<lparr>pos = pt 3 0, yaw = 0\<rparr> (disc_leaf 10 2) = disc_leaf 3 2"
    by (simp add: move_instance_def disc_leaf_def compute_disc)
  moreover have "static_instances disc_bp = [disc_leaf 0 1]" "dynamic_instances disc_bp = [disc_leaf 10 2]"
    "entity_to_dynamic disc_bp 2 = Some 0" by (simp_all add: disc_bp_def)
  moreover have "aabb_intersects (disc_box 3) (disc_box 4)" "\<not> aabb_intersects (disc_box 0) (disc_box 4)"
    by (simp_all add: disc_box_def aabb_intersects_def)
  ultimately show ?thesis
    using broad_phase_query_exact[OF disc_world_wf, where ne = nth_by_sort and filters = "[]"
        and moves = "[Move 2 \<lparr>pos = pt 3 0, yaw = 0\<rparr>, Refit]" and q = "disc_box 4"] disc_bp_made
    by (auto simp: move_spec_def overlapping_def)
qed

text \<open>C16: No missed collision: if a point in the world is covered by a shape of some instance, at its
  current pose, and lies in the query box, then the entity of the instance is among the results.\<close>

theorem broad_phase_misses_nothing:
  assumes "\<forall>i \<in> set instances. \<forall>m. bi_model i = Some m \<longrightarrow> model_wf m"
    and "make_broad_phase ne instances filters = Inr bp0" "bp_run moves (build ne bp0) = Some bp"
    and "l \<in> set (static_instances bp @ dynamic_instances bp)" "covers_world l w" "aabb_contains q w"
  shows "\<exists>hits. query_entity_ids q True True bp = Some hits \<and> tl_entity l \<in> set hits"
proof -
  have inv: "bp_inv bp" "bp_synced bp"
    using bp_run_refines[OF build_inv[OF make_broad_phase_inv[OF assms(1,2)], where ne = ne], where ms = moves] assms(3) by auto
  obtain hits where h: "query_entity_ids q True True bp = Some hits"
    "mset hits = mset (overlapping q (static_instances bp)) + mset (overlapping q (dynamic_instances bp))"
    using query_exact[OF inv, of q True True] by auto
  have "inst_current l" using inv(1) assms(4) by (auto simp: bp_inv_def)
  from covers_world_in_bounds[OF this assms(5)] assms(6) have "aabb_intersects (tl_bounds l) q"
    by (auto simp: aabb_defs)
  then have "tl_entity l \<in> set (overlapping q (static_instances bp @ dynamic_instances bp))"
    using assms(4) by (auto simp: overlapping_def)
  then have "tl_entity l \<in># mset hits" using h(2) by (auto simp: overlapping_def)
  with h(1) show ?thesis by auto
qed

theorem broad_phase_misses_nothing_witness:
  "\<exists>hits. query_entity_ids (disc_box 1) True True (build nth_by_sort disc_bp) = Some hits \<and> 1 \<in> set hits"
proof -
  have "static_instances (build nth_by_sort disc_bp) = [disc_leaf 0 1]"
    by (simp add: build_def synchronize_dynamic_states_def disc_bp_def)
  moreover have "covers_world (disc_leaf 0 1) (pt 1 0)"
    by (simp add: covers_world_def disc_leaf_def unit_disc_def transform_point_def exI[of _ "pt 1 0"])
  moreover have "aabb_contains (disc_box 1) (pt 1 0)" by (simp add: aabb_contains_def disc_box_def)
  ultimately show ?thesis
    using broad_phase_misses_nothing[OF disc_world_wf disc_bp_made, where moves = "[]" and l = "disc_leaf 0 1"]
    by simp
qed

text \<open>The 32-bit collision masks say exactly what the filters say: the mask of one filter meets the
  category bit of another if and only if the filter names that category; the construction fails only
  with more than 32 distinct names.\<close>

theorem collision_masks_correct:
  "case build_collision_masks filters of
     Inl e \<Rightarrow> e = too_many_categories \<and> 32 < card (set (filter_names filters))
   | Inr masks \<Rightarrow> length masks = length filters \<and>
       (\<forall>i < length filters. \<forall>j < length filters.
          mask_bits (masks ! i) AND category_bits (masks ! j) \<noteq> 0 \<longleftrightarrow>
          category (filters ! j) \<in> set (collides_with (filters ! i)))"
  using build_collision_masks_ok[of filters] assign_bits_ok[OF bits_ok_empty, of "filter_names filters"]
  by (auto simp: build_collision_masks_def split: sum.splits)

theorem collision_masks_correct_witness:
  "\<exists>a b. build_collision_masks [\<lparr>category = ''a'', collides_with = [''b'']\<rparr>,
       \<lparr>category = ''b'', collides_with = []\<rparr>] = Inr [a, b] \<and>
     mask_bits a AND category_bits b \<noteq> 0 \<and> mask_bits b AND category_bits a = 0"
proof -
  let ?fs = "[\<lparr>category = ''a'', collides_with = [''b'']\<rparr>, \<lparr>category = ''b'', collides_with = []\<rparr>]"
  obtain a b where "build_collision_masks ?fs = Inr [a, b]"
    by (simp add: build_collision_masks_def filter_names_def)
  with collision_masks_correct[of ?fs] show ?thesis
    by (auto simp: less_Suc_eq numeral_eq_Suc dest: spec[of _ 0] spec[of _ 1])
qed

end
