(* ===== verification/ThreadPool.thy ===== *)
theory ThreadPool
  imports Prelude
begin

text \<open>
  The thread pool, \<^verbatim>\<open>threading/thread_pool.hpp\<close>: the ranges \<open>parallel_for\<close> hands
  out, and the pool itself as a step relation whose steps are the critical sections of
  \<open>submit\<close>, \<open>worker_loop\<close> and \<open>stop\<close>. The history fields record what was submitted,
  started, finished and thrown away; the code has no such fields.
\<close>

section \<open>The ranges of parallel for\<close>

text \<open>The loop \<^verbatim>\<open>for (start = begin; start < end; start += chunk)\<close>; the chunk is positive.\<close>

function chunk_ranges :: "nat \<Rightarrow> nat \<Rightarrow> nat \<Rightarrow> (nat \<times> nat) list" where
  "chunk_ranges start end chunk =
     (if start < end \<and> 0 < chunk
      then (start, min (start + chunk) end) # chunk_ranges (start + chunk) end chunk else [])"
  by pat_completeness auto
termination by (relation "measure (\<lambda>(start, end, chunk). end - start)") auto

declare chunk_ranges.simps [simp del]

definition chunk_size :: "nat \<Rightarrow> nat \<Rightarrow> nat \<Rightarrow> nat" where
  "chunk_size workers n grain =
     (let threads = max 1 workers in max grain ((n + threads - 1) div threads))"

text \<open>The calls each task makes, in the order of submission; one serial task on the short path.\<close>

definition parallel_for_tasks :: "nat \<Rightarrow> nat \<Rightarrow> nat \<Rightarrow> nat \<Rightarrow> nat list list" where
  "parallel_for_tasks workers begin end grain =
     (if begin \<ge> end then []
      else let n = end - begin
           in if workers = 0 \<or> n \<le> grain then [[begin..<end]]
              else map (\<lambda>(a, b). [a..<b]) (chunk_ranges begin end (chunk_size workers n grain)))"

lemma chunk_size_pos: "0 < n \<Longrightarrow> 0 < chunk_size w n grain"
  by (auto simp: chunk_size_def Let_def max_def div_greater_zero_iff)

lemma chunk_ranges_cover:
  "0 < chunk \<Longrightarrow> concat (map (\<lambda>(a, b). [a..<b]) (chunk_ranges start end chunk)) = [start..<end]"
proof (induction start "end" chunk rule: chunk_ranges.induct)
  case (1 start "end" chunk)
  show ?case
  proof (cases "start < end")
    case True
    have "[start..<min (start + chunk) end] @ [start + chunk..<end] = [start..<end]"
    proof (cases "start + chunk \<le> end")
      case True
      then show ?thesis
        using upt_add_eq_append[of start "start + chunk" "end - (start + chunk)"] by simp
    qed simp
    with True 1 show ?thesis by (subst chunk_ranges.simps) simp
  next
    case False
    then show ?thesis by (subst chunk_ranges.simps) simp
  qed
qed

lemma chunk_ranges_length:
  "0 < chunk \<Longrightarrow> end - start \<le> k * chunk \<Longrightarrow> length (chunk_ranges start end chunk) \<le> k"
proof (induction start "end" chunk arbitrary: k rule: chunk_ranges.induct)
  case (1 start "end" chunk)
  show ?case
  proof (cases "start < end")
    case True
    then obtain j where k: "k = Suc j" using 1 by (cases k) auto
    then have "end - (start + chunk) \<le> j * chunk" using 1 by simp
    with 1 True k show ?thesis by (subst chunk_ranges.simps) simp
  next
    case False
    then show ?thesis by (subst chunk_ranges.simps) simp
  qed
qed

lemma chunk_size_enough:
  assumes "0 < w" shows "n \<le> w * chunk_size w n grain"
proof -
  have "n \<le> w * ((n + w - 1) div w)"
    using mult_div_mod_eq[of w "n + w - 1"] mod_less_divisor[OF assms, of "n + w - 1"] by linarith
  also have "\<dots> \<le> w * chunk_size w n grain"
    using assms by (intro mult_le_mono2) (simp add: chunk_size_def Let_def max_def)
  finally show ?thesis .
qed

section \<open>The pool\<close>

datatype 't worker = Waiting | Running 't | Returned

record 't pool =
  running :: bool
  task_q :: "'t list"
  workers :: "'t worker list"
  submitted :: "'t list"
  started :: "'t list"
  finished :: "'t list"
  discarded :: "'t list"

definition new_pool :: "nat \<Rightarrow> 't pool" where
  "new_pool n = \<lparr>running = True, task_q = [], workers = replicate n Waiting,
     submitted = [], started = [], finished = [], discarded = []\<rparr>"

definition pool_submit :: "'t \<Rightarrow> 't pool \<Rightarrow> 't pool" where
  "pool_submit t p = p\<lparr>task_q := task_q p @ [t], submitted := submitted p @ [t]\<rparr>"

text \<open>The first part of \<open>stop\<close>: the flag; the last part: after the joins, the vector and the queue.\<close>

definition pool_stop_flag :: "'t pool \<Rightarrow> 't pool" where
  "pool_stop_flag p = p\<lparr>running := False\<rparr>"

definition pool_stop_clear :: "'t pool \<Rightarrow> 't pool" where
  "pool_stop_clear p = p\<lparr>workers := [], discarded := discarded p @ task_q p, task_q := []\<rparr>"

definition pool_resize :: "nat \<Rightarrow> 't pool \<Rightarrow> 't pool" where
  "pool_resize n p = p\<lparr>running := True, workers := replicate n Waiting\<rparr>"

text \<open>
  One pass of \<open>worker_loop\<close> by worker \<open>i\<close>: the wait condition is \<open>\<not> running \<or> queue non-empty\<close>;
  it returns when the pool is stopped and the queue empty, and takes the front otherwise.
\<close>

inductive worker_step :: "'t pool \<Rightarrow> 't pool \<Rightarrow> bool" where
  take: "i < length (workers p) \<Longrightarrow> workers p ! i = Waiting \<Longrightarrow> task_q p = t # q \<Longrightarrow>
    worker_step p (p\<lparr>task_q := q, workers := (workers p)[i := Running t], started := started p @ [t]\<rparr>)"
| finish: "i < length (workers p) \<Longrightarrow> workers p ! i = Running t \<Longrightarrow>
    worker_step p (p\<lparr>workers := (workers p)[i := Waiting], finished := finished p @ [t]\<rparr>)"
| return: "i < length (workers p) \<Longrightarrow> workers p ! i = Waiting \<Longrightarrow> \<not> running p \<Longrightarrow> task_q p = [] \<Longrightarrow>
    worker_step p (p\<lparr>workers := (workers p)[i := Returned]\<rparr>)"

inductive pool_step :: "'t pool \<Rightarrow> 't pool \<Rightarrow> bool" where
  worker: "worker_step p q \<Longrightarrow> pool_step p q"
| submit: "running p \<Longrightarrow> pool_step p (pool_submit t p)"
| stop_flag: "running p \<Longrightarrow> pool_step p (pool_stop_flag p)"
| stop_clear: "\<not> running p \<Longrightarrow> set (workers p) \<subseteq> {Returned} \<Longrightarrow> pool_step p (pool_stop_clear p)"

inductive_cases worker_stepE: "worker_step p q"
inductive_cases pool_stepE: "pool_step p q"

definition pool_start :: "'t pool \<Rightarrow> bool" where
  "pool_start p \<longleftrightarrow> (\<exists>n. 0 < n \<and> p = new_pool n)"

fun busy_task :: "'t worker \<Rightarrow> 't list" where
  "busy_task (Running t) = [t]"
| "busy_task _ = []"

definition busy :: "'t pool \<Rightarrow> 't multiset" where
  "busy p = mset (concat (map busy_task (workers p)))"

text \<open>
  Tasks start in the order of their submission; what has started is running or finished;
  a worker returns only from a stopped pool with an empty queue, so nothing is discarded.
\<close>

definition pool_inv :: "'t pool \<Rightarrow> bool" where
  "pool_inv p \<longleftrightarrow>
     submitted p = started p @ task_q p \<and>
     mset (started p) = busy p + mset (finished p) \<and>
     (Returned \<in> set (workers p) \<or> workers p = [] \<longrightarrow> \<not> running p \<and> task_q p = []) \<and>
     discarded p = []"

lemma busy_update:
  assumes "i < length ws"
  shows "mset (concat (map busy_task (ws[i := w]))) + mset (busy_task (ws ! i)) =
    mset (concat (map busy_task ws)) + mset (busy_task w)"
  using assms
proof (induction ws arbitrary: i)
  case (Cons v ws)
  then show ?case by (cases i) (auto simp: add_ac)
qed simp

lemma pool_inv_start: "pool_start p \<Longrightarrow> pool_inv p"
  by (auto simp: pool_start_def pool_inv_def new_pool_def busy_def set_replicate_conv_if)

lemma worker_step_inv: "pool_inv p \<Longrightarrow> worker_step p q \<Longrightarrow> pool_inv q"
proof (erule worker_stepE)
  fix i t r
  assume inv: "pool_inv p" and i: "i < length (workers p)" "workers p ! i = Waiting" "task_q p = t # r"
    and q: "q = p\<lparr>task_q := r, workers := (workers p)[i := Running t], started := started p @ [t]\<rparr>"
  have "Returned \<notin> set ((workers p)[i := Running t])"
    using inv i(3) set_update_subset_insert[of "workers p" i "Running t"] by (auto simp: pool_inv_def)
  then show "pool_inv q" using inv i q busy_update[OF i(1), of "Running t"]
    by (auto simp: pool_inv_def busy_def)
next
  fix i t
  assume inv: "pool_inv p" and i: "i < length (workers p)" "workers p ! i = Running t"
    and q: "q = p\<lparr>workers := (workers p)[i := Waiting], finished := finished p @ [t]\<rparr>"
  then show "pool_inv q" using busy_update[OF i(1), of Waiting]
      set_update_subset_insert[of "workers p" i Waiting]
    by (auto simp: pool_inv_def busy_def)
next
  fix i
  assume inv: "pool_inv p" and i: "i < length (workers p)" "workers p ! i = Waiting" "\<not> running p" "task_q p = []"
    and q: "q = p\<lparr>workers := (workers p)[i := Returned]\<rparr>"
  then show "pool_inv q" using busy_update[OF i(1), of Returned]
    by (auto simp: pool_inv_def busy_def)
qed

lemma pool_step_inv: "pool_inv p \<Longrightarrow> pool_step p q \<Longrightarrow> pool_inv q"
proof (erule pool_stepE)
  assume "pool_inv p" "worker_step p q" then show "pool_inv q" by (rule worker_step_inv)
next
  fix t assume "pool_inv p" "running p" "q = pool_submit t p"
  then show "pool_inv q" by (auto simp: pool_inv_def pool_submit_def busy_def)
next
  assume "pool_inv p" "running p" "q = pool_stop_flag p"
  then show "pool_inv q" by (auto simp: pool_inv_def pool_stop_flag_def busy_def)
next
  assume inv: "pool_inv p" and "\<not> running p" and ret: "set (workers p) \<subseteq> {Returned}" and q: "q = pool_stop_clear p"
  have "concat (map busy_task (workers p)) = []" using ret by auto
  moreover have "task_q p = []" using inv ret by (cases "workers p") (auto simp: pool_inv_def)
  ultimately show "pool_inv q" using inv q \<open>\<not> running p\<close>
    by (auto simp: pool_inv_def pool_stop_clear_def busy_def)
qed

interpretation pool: invariant_system pool_start pool_step pool_inv
  by unfold_locales (blast intro: pool_inv_start, blast intro: pool_step_inv)

section \<open>Stopping\<close>

text \<open>
  Once the flag is down and nobody submits, the workers run the queue dry and return: every
  step lowers the rank, and until every worker has returned some worker can move.
\<close>

fun worker_rank :: "'t worker \<Rightarrow> nat" where
  "worker_rank Waiting = 1"
| "worker_rank (Running t) = 2"
| "worker_rank Returned = 0"

definition pool_rank :: "'t pool \<Rightarrow> nat" where
  "pool_rank p = 2 * length (task_q p) + sum_list (map worker_rank (workers p))"

definition stopping :: "'t pool \<Rightarrow> bool" where
  "stopping p \<longleftrightarrow> pool_inv p \<and> \<not> running p"

definition all_returned :: "'t pool \<Rightarrow> bool" where
  "all_returned p \<longleftrightarrow> set (workers p) \<subseteq> {Returned}"

lemma rank_update:
  "i < length ws \<Longrightarrow> sum_list (map worker_rank (ws[i := w])) + worker_rank (ws ! i) =
    sum_list (map worker_rank ws) + worker_rank w"
proof (induction ws arbitrary: i)
  case (Cons v ws) then show ?case by (cases i) auto
qed simp

lemma worker_step_rank: "worker_step p q \<Longrightarrow> pool_rank q < pool_rank p"
proof (erule worker_stepE)
  fix i t r assume "i < length (workers p)" "workers p ! i = Waiting" "task_q p = t # r"
    "q = p\<lparr>task_q := r, workers := (workers p)[i := Running t], started := started p @ [t]\<rparr>"
  then show ?thesis using rank_update[of i "workers p" "Running t"] by (simp add: pool_rank_def)
next
  fix i t assume "i < length (workers p)" "workers p ! i = Running t"
    "q = p\<lparr>workers := (workers p)[i := Waiting], finished := finished p @ [t]\<rparr>"
  then show ?thesis using rank_update[of i "workers p" Waiting] by (simp add: pool_rank_def)
next
  fix i assume "i < length (workers p)" "workers p ! i = Waiting" "\<not> running p" "task_q p = []"
    "q = p\<lparr>workers := (workers p)[i := Returned]\<rparr>"
  then show ?thesis using rank_update[of i "workers p" Returned] by (simp add: pool_rank_def)
qed

lemma worker_step_running: "worker_step p q \<Longrightarrow> running q = running p"
  and worker_step_submitted: "worker_step p q \<Longrightarrow> submitted q = submitted p"
  by (auto elim!: worker_stepE)

lemma worker_progress:
  assumes "\<not> running p" "\<not> all_returned p" shows "\<exists>q. worker_step p q"
proof -
  obtain i where i: "i < length (workers p)" "workers p ! i \<noteq> Returned"
    using assms(2) unfolding all_returned_def by (metis in_set_conv_nth insertI1 subsetI)
  show ?thesis
  proof (cases "workers p ! i")
    case Waiting
    then show ?thesis using i assms(1)
      by (cases "task_q p") (blast intro: worker_step.take worker_step.return)+
  qed (use i in \<open>blast intro: worker_step.finish\<close>)+
qed

interpretation drain: terminating_system stopping worker_step stopping pool_rank all_returned
  by unfold_locales
    (auto simp: stopping_def worker_step_running intro: worker_step_inv worker_step_rank worker_progress)

lemma worker_steps_submitted: "worker_step\<^sup>*\<^sup>* p q \<Longrightarrow> submitted q = submitted p"
  by (induction rule: rtranclp_induct) (simp_all add: worker_step_submitted)

lemma worker_steps_length: "worker_step\<^sup>*\<^sup>* p q \<Longrightarrow> length (workers q) = length (workers p)"
  by (induction rule: rtranclp_induct) (auto elim!: worker_stepE)

lemma drained:
  assumes "stopping p" "worker_step\<^sup>*\<^sup>* p q" "\<forall>r. \<not> worker_step q r" "workers p \<noteq> []"
  shows "all_returned q \<and> task_q q = [] \<and> started q = submitted p \<and> mset (finished q) = mset (submitted p)"
proof -
  have ret: "all_returned q" by (rule drain.stuck_is_final[OF assms(1-3)])
  have inv: "pool_inv q" using drain.steps_inv[OF assms(2,1)] by (simp add: stopping_def)
  have "workers q \<noteq> []" using worker_steps_length[OF assms(2)] assms(4) by (cases "workers q") auto
  then have q: "task_q q = []" using ret inv by (cases "workers q") (auto simp: pool_inv_def all_returned_def)
  have "concat (map busy_task (workers q)) = []" using ret by (auto simp: all_returned_def)
  with inv q worker_steps_submitted[OF assms(2)] ret show ?thesis
    by (simp add: pool_inv_def busy_def)
qed

lemma running_has_workers: "pool_inv p \<Longrightarrow> running p \<Longrightarrow> workers p \<noteq> []"
  by (auto simp: pool_inv_def)

section \<open>Properties\<close>

text \<open>The tasks of parallel_for call the function on every index of the range exactly once, in
  order, and there are at most as many tasks as workers.\<close>

theorem parallel_for_covers:
  "concat (parallel_for_tasks w begin end grain) = [begin..<end] \<and>
   length (parallel_for_tasks w begin end grain) \<le> max 1 w"
proof (cases "begin \<ge> end \<or> w = 0 \<or> end - begin \<le> grain")
  case False
  let ?c = "chunk_size w (end - begin) grain"
  have pos: "0 < ?c" using False by (intro chunk_size_pos) simp
  have "length (chunk_ranges begin end ?c) \<le> w"
    using False chunk_size_enough[of w "end - begin" grain] by (intro chunk_ranges_length pos) auto
  then show ?thesis using False chunk_ranges_cover[OF pos, of "begin" "end"]
    by (simp add: parallel_for_tasks_def Let_def)
qed (auto simp: parallel_for_tasks_def Let_def)

text \<open>C17: From every state in which stop is called on a pool with workers, in whatever order they run,
  the workers can only come to an end in which every task that was submitted has run, in the order
  of submission, and stop throws nothing away (its documentation says that pending tasks are
  discarded).\<close>

theorem pool_stop_runs_everything:
  assumes "0 < n" "pool_step\<^sup>*\<^sup>* (new_pool n) p" "running p" "worker_step\<^sup>*\<^sup>* (pool_stop_flag p) q"
  shows "\<exists>r. worker_step\<^sup>*\<^sup>* q r \<and> all_returned r \<and>
      started (pool_stop_clear r) = submitted p \<and> mset (finished (pool_stop_clear r)) = mset (submitted p) \<and>
      discarded (pool_stop_clear r) = []"
proof -
  have inv: "pool_inv p" using pool.reachable_inv[of "new_pool n" p] assms(1,2) by (auto simp: pool_start_def)
  then have st: "stopping (pool_stop_flag p)" by (auto simp: stopping_def pool_inv_def pool_stop_flag_def busy_def)
  then have "stopping q" using drain.steps_inv[OF assms(4)] by blast
  then obtain r where r: "worker_step\<^sup>*\<^sup>* q r" "all_returned r" using drain.reaches_final by blast
  have all: "worker_step\<^sup>*\<^sup>* (pool_stop_flag p) r" using assms(4) r(1) by (rule rtranclp_trans)
  have "\<not> worker_step r s" for s
    using r(2) by (auto simp: all_returned_def elim!: worker_stepE dest!: nth_mem)
  with drained[OF st all] running_has_workers[OF inv assms(3)] r
  have "task_q r = []" "started r = submitted p" "mset (finished r) = mset (submitted p)"
    by (auto simp: pool_stop_flag_def)
  moreover have "pool_inv r" using drain.steps_inv[OF all st] by (simp add: stopping_def)
  ultimately show ?thesis using r by (auto simp: pool_stop_clear_def pool_inv_def)
qed

theorem pool_stop_runs_everything_witness:
  "\<exists>r. worker_step\<^sup>*\<^sup>* (pool_stop_flag (pool_submit ''b'' (pool_submit ''a'' (new_pool 2)))) r \<and>
     all_returned r \<and> started (pool_stop_clear r) = [''a'', ''b'']"
proof -
  let ?p = "pool_submit ''b'' (pool_submit ''a'' (new_pool 2))"
  have "pool_step (new_pool 2) (pool_submit ''a'' (new_pool 2))" "pool_step (pool_submit ''a'' (new_pool 2)) ?p"
    by (intro pool_step.submit; simp add: new_pool_def pool_submit_def)+
  then have "pool_step\<^sup>*\<^sup>* (new_pool 2) ?p" by auto
  moreover have "running ?p" "submitted ?p = [''a'', ''b'']" by (simp_all add: new_pool_def pool_submit_def)
  ultimately show ?thesis using pool_stop_runs_everything[of 2 ?p "pool_stop_flag ?p"] by auto
qed

text \<open>In every state of the pool the tasks that have started and those that wait are, in this order,
  the tasks submitted; what has started is running or finished; nothing is lost.\<close>

theorem pool_runs_in_order:
  assumes "0 < n" "pool_step\<^sup>*\<^sup>* (new_pool n) p"
  shows "submitted p = started p @ task_q p \<and> mset (started p) = busy p + mset (finished p) \<and> discarded p = []"
  using pool.reachable_inv[of "new_pool n" p] assms by (auto simp: pool_start_def pool_inv_def)

theorem pool_runs_in_order_witness:
  "started (pool_submit ''a'' (new_pool 1)) @ task_q (pool_submit ''a'' (new_pool 1)) = [''a'']"
proof -
  have "pool_step\<^sup>*\<^sup>* (new_pool 1) (pool_submit ''a'' (new_pool 1))"
    by (intro r_into_rtranclp pool_step.submit) (simp add: new_pool_def)
  from pool_runs_in_order[OF _ this] show ?thesis by (simp add: new_pool_def pool_submit_def)
qed

end
