(* ===== verification/RayCast.thy ===== *)
theory RayCast
  imports BroadPhase Spatial ThreadPool
begin

text \<open>
  Ray casting: \<^verbatim>\<open>collision/ray_casting.cpp\<close>. A ray against one part (an interval of
  the ray from the plane shape, cut with the interval from the heights), against an instance through
  its bottom-level leaves, against a top-level tree with a stack and the best distance so far, and
  against the static and dynamic trees; then the batches and the rays of the sensors. Ranges are
  finite: an infinite \<^verbatim>\<open>t_max\<close> is not modelled.
\<close>

record ray3 =
  ray_origin :: point3
  direction :: vec3

definition ray_at :: "ray3 \<Rightarrow> real \<Rightarrow> point3" where
  "ray_at r t = point3_add (ray_origin r) (vec3_scale (direction r) t)"

record ray_request =
  ray :: ray3
  t_min :: real
  t_max :: real

record ray_hit =
  hit :: bool
  hit_distance :: real
  position :: point3
  hit_normal :: vec3
  entity_id :: entity_id
  hit_part :: "32 word"

section \<open>Plane shapes\<close>

record interval_hit =
  enter :: real
  exit :: real
  ih_normal :: vec2

definition ray_xy :: "ray3 \<Rightarrow> vec2 \<times> vec2" where
  "ray_xy r = (vec (p3x (ray_origin r)) (p3y (ray_origin r)), vec (v3x (direction r)) (v3y (direction r)))"

text \<open>The loop over the edges; \<open>None\<close> is a ray that misses the polygon.\<close>

fun clip_edges :: "vec2 \<Rightarrow> vec2 \<Rightarrow> (point2 \<times> point2) list \<Rightarrow> real \<times> real \<times> vec2 \<Rightarrow> (real \<times> real \<times> vec2) option" where
  "clip_edges orig dir [] st = Some st"
| "clip_edges orig dir (e # es) (t_enter, t_exit, best_normal) =
     (let vi = fst e; vj = snd e; edge = vec (px vj - px vi) (py vj - py vi)
      in if vec_length_sq edge \<le> k_eps then clip_edges orig dir es (t_enter, t_exit, best_normal)
         else let nrm = vec (vy edge) (- vx edge); denom = vec_dot nrm dir;
                  w = vec_sub orig (vec (px vi) (py vi)); numer = vec_dot nrm w
              in if \<bar>denom\<bar> \<le> k_eps
                 then (if numer > 0 then None else clip_edges orig dir es (t_enter, t_exit, best_normal))
                 else let t = - numer / denom;
                          (t_enter, best_normal) = (if denom < 0 \<and> t > t_enter then (t, nrm) else (t_enter, best_normal));
                          t_exit = (if denom < 0 then t_exit else min t_exit t)
                      in if t_enter > t_exit then None else clip_edges orig dir es (t_enter, t_exit, best_normal))"

definition intersect_polygon_xy :: "ray3 \<Rightarrow> point2 list \<Rightarrow> real \<Rightarrow> real \<Rightarrow> interval_hit option" where
  "intersect_polygon_xy r verts t0 t1 =
     (if verts = [] then None
      else let (orig, dir) = ray_xy r
           in if vec_length_sq dir \<le> k_eps
              then (if \<not> point_in_polygon verts (pt (vx orig) (vy orig)) then None
                    else Some \<lparr>enter = t0, exit = t1, ih_normal = vec 0 0\<rparr>)
              else map_option (\<lambda>(t_enter, t_exit, best_normal).
                       \<lparr>enter = t_enter, exit = t_exit,
                        ih_normal = (if vec_length_sq best_normal > k_eps then vec_normalized best_normal else vec 0 0)\<rparr>)
                     (clip_edges orig dir (edges_next verts) (t0, t1, vec 0 0)))"

definition intersect_circle_xy :: "ray3 \<Rightarrow> real \<Rightarrow> real \<Rightarrow> real \<Rightarrow> interval_hit option" where
  "intersect_circle_xy r radius t_lo t_hi =
     (let (orig, dir) = ray_xy r; dir_len_sq = vec_length_sq dir; radius_sq = radius * radius
      in if dir_len_sq \<le> k_eps
         then (if vec_length_sq orig > radius_sq then None
               else Some \<lparr>enter = t_lo, exit = t_hi, ih_normal = vec 0 0\<rparr>)
         else let a = dir_len_sq; b = 2 * vec_dot orig dir; c = vec_dot orig orig - radius_sq;
                  disc = b * b - 4 * a * c
              in if disc < 0 then None
                 else let sqrt_disc = sqrt disc; t0 = (- b - sqrt_disc) / (2 * a); t1 = (- b + sqrt_disc) / (2 * a);
                          (t0, t1) = (if t0 > t1 then (t1, t0) else (t0, t1))
                      in if t1 < t_lo \<or> t0 > t_hi then None
                         else let en = max t0 t_lo; ex = min t1 t_hi;
                                  hit_point = vec_add orig (vec_scale dir en); len = vec_length hit_point
                              in Some \<lparr>enter = en, exit = ex,
                                   ih_normal = (if len > k_eps then vec_div hit_point len else vec 0 0)\<rparr>)"

section \<open>One part\<close>

record local_intersection =
  li_t :: real
  normal_xy :: vec2
  normal_z_sign :: int

definition intersect_base :: "ray3 \<Rightarrow> shape2 \<Rightarrow> real \<Rightarrow> real \<Rightarrow> interval_hit option" where
  "intersect_base r s lo hi =
     (case s of
        Circle radius \<Rightarrow> intersect_circle_xy r radius lo hi
      | Box2 hx hy \<Rightarrow> intersect_polygon_xy r [pt (- hx) (- hy), pt hx (- hy), pt hx hy, pt (- hx) hy] lo hi
      | Polygon2 vs \<Rightarrow> intersect_polygon_xy r vs lo hi)"

text \<open>The interval of heights and the face that the ray enters by; \<open>None\<close> if it stays outside.\<close>

definition z_interval :: "ray3 \<Rightarrow> shape2p5 \<Rightarrow> real \<Rightarrow> real \<Rightarrow> (real \<times> real \<times> int) option" where
  "z_interval r shape lo hi =
     (let z0 = min (z_min shape) (z_max shape); z1 = max (z_min shape) (z_max shape);
          dz = v3z (direction r); oz = p3z (ray_origin r)
      in if \<bar>dz\<bar> \<le> k_eps then (if oz < z0 \<or> oz > z1 then None else Some (lo, hi, 0))
         else let inv_dz = 1 / dz; t0 = (z0 - oz) * inv_dz; t1 = (z1 - oz) * inv_dz
              in Some (min t0 t1, max t0 t1, if t0 < t1 then - 1 else 1))"

definition face_normal :: "ray3 \<Rightarrow> interval_hit \<Rightarrow> real \<Rightarrow> real \<Rightarrow> int \<Rightarrow> real \<Rightarrow> vec2 \<times> int" where
  "face_normal r xy lo tz_enter tz_face t_enter =
     (let t_xy_enter = max (enter xy) lo; t_z_enter = max tz_enter lo; dz = v3z (direction r)
      in if vec_length_sq (ih_normal xy) > k_eps \<and> \<bar>t_enter - t_xy_enter\<bar> \<le> k_eps then (ih_normal xy, 0)
         else if tz_face \<noteq> 0 \<and> \<bar>t_enter - t_z_enter\<bar> \<le> k_eps then (vec 0 0, tz_face)
         else if vec_length_sq (ih_normal xy) > k_eps then (ih_normal xy, 0)
         else (vec 0 0, if dz > 0 then - 1 else if dz < 0 then 1 else 0))"

definition intersect_local :: "ray3 \<Rightarrow> shape2p5 \<Rightarrow> real \<Rightarrow> real \<Rightarrow> local_intersection option" where
  "intersect_local r shape lo hi =
     (case intersect_base r (base shape) lo hi of
        None \<Rightarrow> None
      | Some xy \<Rightarrow>
          (case z_interval r shape lo hi of
             None \<Rightarrow> None
           | Some (tz_enter, tz_exit, tz_face) \<Rightarrow>
               let t_enter = max (max (enter xy) tz_enter) lo; t_exit = min (min (exit xy) tz_exit) hi
               in if t_enter > t_exit \<or> t_exit < lo then None
                  else let (nxy, nz) = face_normal r xy lo tz_enter tz_face t_enter
                       in Some \<lparr>li_t = t_enter, normal_xy = nxy, normal_z_sign = nz\<rparr>))"

definition to_local :: "ray3 \<Rightarrow> pose2 \<Rightarrow> ray3" where
  "to_local r world_from_local =
     (let origin_local = inverse_transform_point world_from_local (pt (p3x (ray_origin r)) (p3y (ray_origin r)));
          dir_local = inverse_transform_vector world_from_local (vec (v3x (direction r)) (v3y (direction r)))
      in \<lparr>ray_origin = pt_3 (px origin_local) (py origin_local) (p3z (ray_origin r)),
          direction = vec_3 (vx dir_local) (vy dir_local) (v3z (direction r))\<rparr>)"

text \<open>One axis of the box test: the interval left, or \<open>None\<close>.\<close>

definition clip_axis :: "real \<Rightarrow> real \<Rightarrow> real \<Rightarrow> real \<Rightarrow> real \<times> real \<Rightarrow> (real \<times> real) option" where
  "clip_axis orig d lo hi st =
     (let (t0, t1) = st
      in if \<bar>d\<bar> \<le> k_eps then (if orig < lo \<or> orig > hi then None else Some (t0, t1))
         else let inv = 1 / d; tmin_axis = (lo - orig) * inv; tmax_axis = (hi - orig) * inv;
                  (tmin_axis, tmax_axis) = (if tmin_axis > tmax_axis then (tmax_axis, tmin_axis) else (tmin_axis, tmax_axis));
                  t0 = max t0 tmin_axis; t1 = min t1 tmax_axis
              in if t0 > t1 then None else Some (t0, t1))"

definition intersect_aabb2 :: "ray3 \<Rightarrow> aabb2 \<Rightarrow> real \<Rightarrow> real \<Rightarrow> bool" where
  "intersect_aabb2 r b lo hi =
     (case clip_axis (p3x (ray_origin r)) (v3x (direction r)) (px (bmin b)) (px (bmax b)) (lo, hi) of
        None \<Rightarrow> False
      | Some st \<Rightarrow>
          (case clip_axis (p3y (ray_origin r)) (v3y (direction r)) (py (bmin b)) (py (bmax b)) st of
             None \<Rightarrow> False
           | Some (t0, t1) \<Rightarrow> t1 \<ge> lo \<and> t0 \<le> hi))"

section \<open>One instance\<close>

text \<open>The hit of an instance: distance, entity, part and normal; the distance before any hit is infinite.\<close>

record instance_hit =
  in_distance :: real
  in_normal :: vec3
  in_entity :: entity_id
  in_part :: "32 word"

definition world_normal :: "pose2 \<Rightarrow> local_intersection \<Rightarrow> vec3" where
  "world_normal part_world li =
     (if normal_z_sign li \<noteq> 0 then vec_3 0 0 (of_int (normal_z_sign li))
      else if vec_length_sq (normal_xy li) > k_eps
      then let world_xy = transform_vector part_world (normal_xy li); n = vec_3 (vx world_xy) (vy world_xy) 0;
               len = vec3_length n
           in if len > k_eps then vec3_div n len else vec_3 0 0 0
      else vec_3 0 0 0)"

definition trace_part :: "ray_request \<Rightarrow> tlas_leaf \<Rightarrow> model_profile \<Rightarrow> ray3 \<Rightarrow> blas_leaf
    \<Rightarrow> instance_hit option \<times> real \<Rightarrow> instance_hit option \<times> real" where
  "trace_part req lf model ray_model bl st =
     (let (best, best_so_far) = st
      in if \<not> intersect_aabb2 ray_model (bl_bounds bl) (t_min req) best_so_far then st
         else if part_index bl \<ge> length (parts model) then st
         else let part = parts model ! part_index bl; part_world = pose_compose (tl_pose lf) (rel_pose part)
              in case intersect_local (to_local (ray req) part_world) (part_geom part) (t_min req) best_so_far of
                   None \<Rightarrow> st
                 | Some li \<Rightarrow>
                     if li_t li \<ge> best_so_far \<or> li_t li < t_min req then st
                     else (Some \<lparr>in_distance = li_t li, in_normal = world_normal part_world li, in_entity = tl_entity lf,
                             in_part = word_of_nat (part_index bl)\<rparr>, li_t li))"

definition trace_instance :: "ray_request \<Rightarrow> tlas_leaf \<Rightarrow> real \<Rightarrow> instance_hit option" where
  "trace_instance req lf current_best =
     (case (tl_blas lf, tl_model lf) of
        (Some blas, Some model) \<Rightarrow>
          fst (fold (trace_part req lf model (to_local (ray req) (tl_pose lf))) (bl_leaves blas)
                 (None, min current_best (t_max req)))
      | _ \<Rightarrow> None)"

section \<open>The trees\<close>

definition no_hit :: "real \<Rightarrow> ray_hit" where
  "no_hit d = \<lparr>hit = False, hit_distance = d, position = pt_3 0 0 0, hit_normal = vec_3 0 0 0, entity_id = 0, hit_part = 0\<rparr>"

definition visit_leaf :: "ray_request \<Rightarrow> tlas_leaf \<Rightarrow> ray_hit \<Rightarrow> ray_hit" where
  "visit_leaf req lf best =
     (case trace_instance req lf (hit_distance best) of
        None \<Rightarrow> best
      | Some ih \<Rightarrow>
          if in_distance ih < hit_distance best
          then \<lparr>hit = True, hit_distance = in_distance ih, position = ray_at (ray req) (in_distance ih),
                hit_normal = in_normal ih, entity_id = in_entity ih, hit_part = in_part ih\<rparr>
          else best)"

partial_function (option) trace_loop :: "ray_request \<Rightarrow> bvh_node list \<Rightarrow> tlas_leaf list \<Rightarrow> nat list \<Rightarrow> ray_hit \<Rightarrow> ray_hit option" where
  "trace_loop req nodes lvs stack best =
     (case stack of
        [] \<Rightarrow> Some best
      | node_idx # rest \<Rightarrow>
          (let node = nodes ! node_idx
           in if \<not> intersect_aabb2 (ray req) (bounds node) (t_min req) (hit_distance best) then trace_loop req nodes lvs rest best
              else case leaf node of
                     Some k \<Rightarrow> trace_loop req nodes lvs rest (visit_leaf req (lvs ! k) best)
                   | None \<Rightarrow> trace_loop req nodes lvs (push_child (right node) (push_child (left node) rest)) best))"

definition trace_tree :: "ray_request \<Rightarrow> tlas2 \<Rightarrow> real \<Rightarrow> ray_hit option" where
  "trace_tree req tree current_best =
     (if t_leaves tree = [] then Some (no_hit current_best)
      else case t_root tree of None \<Rightarrow> Some (no_hit current_best)
      | Some r \<Rightarrow> trace_loop req (t_nodes tree) (t_leaves tree) [r] (no_hit current_best))"

definition trace_ray :: "ray_request \<Rightarrow> tlas_pair \<Rightarrow> ray_hit option" where
  "trace_ray req trees =
     (case trace_tree req (static_tree trees) (t_max req) of
        None \<Rightarrow> None
      | Some best \<Rightarrow>
          (case trace_tree req (dynamic_tree trees) (hit_distance best) of
             None \<Rightarrow> None
           | Some dynamic_hit \<Rightarrow>
               Some (if \<not> hit best then dynamic_hit
                     else if hit dynamic_hit \<and> hit_distance dynamic_hit < hit_distance best then dynamic_hit else best)))"

section \<open>Clipping\<close>

text \<open>The comparisons with the threshold decide exactly for values that are zero or above it.\<close>

definition steep :: "real \<Rightarrow> bool" where
  "steep x \<longleftrightarrow> x = 0 \<or> k_eps < \<bar>x\<bar>"

lemma steep_cases: "steep x \<Longrightarrow> \<bar>x\<bar> \<le> k_eps \<Longrightarrow> x = 0"
  by (auto simp: steep_def)

definition along_ray :: "vec2 \<Rightarrow> vec2 \<Rightarrow> real \<Rightarrow> point2" where
  "along_ray orig dir t = pt (vx orig + vx dir * t) (vy orig + vy dir * t)"

definition long :: "point2 \<times> point2 \<Rightarrow> bool" where
  "long e \<longleftrightarrow> \<not> vec_length_sq (point_sub (snd e) (fst e)) \<le> k_eps"

definition edge_denom :: "vec2 \<Rightarrow> point2 \<times> point2 \<Rightarrow> real" where
  "edge_denom dir e = vec_dot (vec (py (snd e) - py (fst e)) (- (px (snd e) - px (fst e)))) dir"

definition edge_numer :: "vec2 \<Rightarrow> point2 \<times> point2 \<Rightarrow> real" where
  "edge_numer orig e = vec_dot (vec (py (snd e) - py (fst e)) (- (px (snd e) - px (fst e)))) (vec_sub orig (vec (px (fst e)) (py (fst e))))"

lemma edge_side_along: "edge_side e (along_ray orig dir t) = - (edge_numer orig e + edge_denom dir e * t)"
  by (simp add: edge_side_def edge_numer_def edge_denom_def along_ray_def vec_dot_def vec_sub_def algebra_simps)

lemma inside_edge_iff:
  "edge_denom dir e < 0 \<Longrightarrow> 0 \<le> edge_side e (along_ray orig dir t) \<longleftrightarrow> - edge_numer orig e / edge_denom dir e \<le> t"
  "0 < edge_denom dir e \<Longrightarrow> 0 \<le> edge_side e (along_ray orig dir t) \<longleftrightarrow> t \<le> - edge_numer orig e / edge_denom dir e"
  "edge_denom dir e = 0 \<Longrightarrow> 0 \<le> edge_side e (along_ray orig dir t) \<longleftrightarrow> \<not> edge_numer orig e > 0"
  unfolding edge_side_along by (auto simp: field_simps)

definition keeps :: "vec2 \<Rightarrow> vec2 \<Rightarrow> (point2 \<times> point2) list \<Rightarrow> real \<Rightarrow> bool" where
  "keeps orig dir es t \<longleftrightarrow> (\<forall>e\<in>set es. long e \<longrightarrow> 0 \<le> edge_side e (along_ray orig dir t))"

lemma clip_edges_step:
  "clip_edges orig dir (e # es) (te, tx, bn) =
     (if \<not> long e then clip_edges orig dir es (te, tx, bn)
      else if \<bar>edge_denom dir e\<bar> \<le> k_eps
      then (if edge_numer orig e > 0 then None else clip_edges orig dir es (te, tx, bn))
      else let t = - edge_numer orig e / edge_denom dir e;
               te' = (if edge_denom dir e < 0 \<and> t > te then t else te);
               tx' = (if edge_denom dir e < 0 then tx else min tx t)
           in if te' > tx' then None
              else clip_edges orig dir es (te', tx',
                if edge_denom dir e < 0 \<and> t > te then vec (py (snd e) - py (fst e)) (- (px (snd e) - px (fst e))) else bn))"
  by (simp add: Let_def long_def edge_denom_def edge_numer_def point_sub_def)

lemma clip_edges_exact:
  assumes "\<forall>e\<in>set es. long e \<longrightarrow> steep (edge_denom dir e)" "te \<le> tx"
  shows "case clip_edges orig dir es (te, tx, bn) of
      None \<Rightarrow> \<forall>t. te \<le> t \<and> t \<le> tx \<longrightarrow> \<not> keeps orig dir es t
    | Some (te', tx', bn') \<Rightarrow> te' \<le> tx' \<and> (\<forall>t. te' \<le> t \<and> t \<le> tx' \<longleftrightarrow> te \<le> t \<and> t \<le> tx \<and> keeps orig dir es t)"
  using assms
proof (induction es arbitrary: te tx bn)
  case Nil
  then show ?case by (simp add: keeps_def)
next
  case (Cons e es)
  have keep: "keeps orig dir (e # es) t \<longleftrightarrow> (long e \<longrightarrow> 0 \<le> edge_side e (along_ray orig dir t)) \<and> keeps orig dir es t" for t
    by (auto simp: keeps_def)
  have sub: "\<forall>e\<in>set es. long e \<longrightarrow> steep (edge_denom dir e)" using Cons.prems(1) by simp
  note IH = Cons.IH[OF sub]
  show ?case
  proof (cases "long e")
    case False
    with IH[OF Cons.prems(2), of bn] show ?thesis by (auto simp: clip_edges_step keep simp del: clip_edges.simps split: option.splits)
  next
    case True
    with Cons.prems(1) have st: "steep (edge_denom dir e)" by simp
    show ?thesis
    proof (cases "\<bar>edge_denom dir e\<bar> \<le> k_eps")
      case par: True
      with st have "edge_denom dir e = 0" by (rule steep_cases)
      with IH[OF Cons.prems(2), of bn] True par show ?thesis
        by (auto simp: clip_edges_step keep inside_edge_iff(3) simp del: clip_edges.simps split: option.splits)
    next
      case cross: False
      define q where "q = - edge_numer orig e / edge_denom dir e"
      define te' where "te' = (if edge_denom dir e < 0 \<and> q > te then q else te)"
      define tx' where "tx' = (if edge_denom dir e < 0 then tx else min tx q)"
      define bn' where "bn' = (if edge_denom dir e < 0 \<and> q > te then vec (py (snd e) - py (fst e)) (- (px (snd e) - px (fst e))) else bn)"
      have "edge_denom dir e < 0 \<or> 0 < edge_denom dir e" using cross k_eps_small(1) by auto
      then have range: "te' \<le> t \<and> t \<le> tx' \<longleftrightarrow> te \<le> t \<and> t \<le> tx \<and> 0 \<le> edge_side e (along_ray orig dir t)" for t
      proof
        assume neg: "edge_denom dir e < 0"
        then have "te' = max te q" "tx' = tx" by (simp_all add: te'_def tx'_def)
        with inside_edge_iff(1)[OF neg, of orig t, folded q_def] show ?thesis by auto
      next
        assume p: "0 < edge_denom dir e"
        then have "te' = te" "tx' = min tx q" by (simp_all add: te'_def tx'_def)
        with inside_edge_iff(2)[OF p, of orig t, folded q_def] show ?thesis by auto
      qed
      have clip: "clip_edges orig dir (e # es) (te, tx, bn) = (if te' > tx' then None else clip_edges orig dir es (te', tx', bn'))"
        using True cross by (simp add: clip_edges_step Let_def te'_def tx'_def bn'_def q_def del: clip_edges.simps)
      show ?thesis
      proof (cases "te' > tx'")
        case True
        then have "\<not> (te' \<le> t \<and> t \<le> tx')" for t by linarith
        with range True clip \<open>long e\<close> show ?thesis by (auto simp: keep)
      next
        case False
        with IH[of te' tx' bn'] clip range \<open>long e\<close> show ?thesis
          by (auto simp: keep split: option.splits)
      qed
    qed
  qed
qed


section \<open>Plane shapes and heights\<close>

text \<open>What the ray test takes as the inside of a plane shape: the edges that are long enough.\<close>

definition base_inside :: "shape2 \<Rightarrow> point2 \<Rightarrow> bool" where
  "base_inside s p = (case s of Circle r \<Rightarrow> px p * px p + py p * py p \<le> r * r
     | Box2 hx hy \<Rightarrow> \<forall>e\<in>set (edges_next [pt (- hx) (- hy), pt hx (- hy), pt hx hy, pt (- hx) hy]). long e \<longrightarrow> 0 \<le> edge_side e p
     | Polygon2 vs \<Rightarrow> \<forall>e\<in>set (edges_next vs). long e \<longrightarrow> 0 \<le> edge_side e p)"

fun base_edges :: "shape2 \<Rightarrow> (point2 \<times> point2) list" where
  "base_edges (Circle r) = []"
| "base_edges (Box2 hx hy) = edges_next [pt (- hx) (- hy), pt hx (- hy), pt hx hy, pt (- hx) hy]"
| "base_edges (Polygon2 vs) = edges_next vs"

text \<open>A ray and a plane shape on which no threshold interferes.\<close>

definition base_clear :: "ray3 \<Rightarrow> shape2 \<Rightarrow> bool" where
  "base_clear r s \<longleftrightarrow> vec_length_sq (snd (ray_xy r)) > k_eps \<and> (\<forall>vs. s = Polygon2 vs \<longrightarrow> vs \<noteq> []) \<and>
     (\<forall>e\<in>set (base_edges s). long e \<longrightarrow> steep (edge_denom (snd (ray_xy r)) e))"

definition ray_point :: "ray3 \<Rightarrow> real \<Rightarrow> point2" where
  "ray_point r t = along_ray (fst (ray_xy r)) (snd (ray_xy r)) t"

definition interval_exact :: "(real \<Rightarrow> bool) \<Rightarrow> real \<Rightarrow> real \<Rightarrow> interval_hit option \<Rightarrow> bool" where
  "interval_exact P lo hi res = (case res of None \<Rightarrow> \<forall>t. lo \<le> t \<and> t \<le> hi \<longrightarrow> \<not> P t
     | Some h \<Rightarrow> enter h \<le> exit h \<and> (\<forall>t. enter h \<le> t \<and> t \<le> exit h \<longleftrightarrow> lo \<le> t \<and> t \<le> hi \<and> P t))"

lemma intersect_polygon_exact:
  assumes "vec_length_sq (snd (ray_xy r)) > k_eps" "verts \<noteq> []" "lo \<le> hi"
    "\<forall>e\<in>set (edges_next verts). long e \<longrightarrow> steep (edge_denom (snd (ray_xy r)) e)"
  shows "interval_exact (\<lambda>t. \<forall>e\<in>set (edges_next verts). long e \<longrightarrow> 0 \<le> edge_side e (ray_point r t)) lo hi
    (intersect_polygon_xy r verts lo hi)"
  using clip_edges_exact[OF assms(4,3), of "fst (ray_xy r)" "vec 0 0"] assms(1,2)
  by (auto simp: intersect_polygon_xy_def interval_exact_def ray_point_def keeps_def case_prod_beta split: option.splits)

lemma quadratic_inside:
  fixes a b c t :: real
  assumes "0 < a"
  shows "a * t * t + b * t + c \<le> 0 \<longleftrightarrow> 0 \<le> b * b - 4 * a * c \<and>
    (- b - sqrt (b * b - 4 * a * c)) / (2 * a) \<le> t \<and> t \<le> (- b + sqrt (b * b - 4 * a * c)) / (2 * a)"
proof -
  define D where "D = b * b - 4 * a * c"
  have "4 * a * (a * t * t + b * t + c) = (2 * a * t + b)\<^sup>2 - D"
    by (simp add: D_def power2_eq_square algebra_simps)
  moreover have "a * t * t + b * t + c \<le> 0 \<longleftrightarrow> 4 * a * (a * t * t + b * t + c) \<le> 0"
    using assms by (simp add: mult_le_0_iff)
  ultimately have "a * t * t + b * t + c \<le> 0 \<longleftrightarrow> (2 * a * t + b)\<^sup>2 \<le> D" by linarith
  also have "\<dots> \<longleftrightarrow> 0 \<le> D \<and> \<bar>2 * a * t + b\<bar> \<le> sqrt D"
  proof (cases "0 \<le> D")
    case True
    then show ?thesis using real_sqrt_le_iff[of "(2 * a * t + b)\<^sup>2" D] by (simp only: real_sqrt_abs) simp
  next
    case False
    then show ?thesis using order_trans[OF zero_le_power2, of "2 * a * t + b" D] by blast
  qed
  also have "\<dots> \<longleftrightarrow> 0 \<le> D \<and> (- b - sqrt D) / (2 * a) \<le> t \<and> t \<le> (- b + sqrt D) / (2 * a)"
    using assms by (auto simp: abs_le_iff pos_divide_le_eq pos_le_divide_eq algebra_simps)
  finally show ?thesis by (simp only: D_def)
qed

lemma intersect_circle_exact:
  assumes "vec_length_sq (snd (ray_xy r)) > k_eps" "lo \<le> hi"
  shows "interval_exact (\<lambda>t. px (ray_point r t) * px (ray_point r t) + py (ray_point r t) * py (ray_point r t) \<le> rad * rad) lo hi
    (intersect_circle_xy r rad lo hi)"
proof -
  define orig where "orig = fst (ray_xy r)"
  define dir where "dir = snd (ray_xy r)"
  define a where "a = vec_length_sq dir"
  define b where "b = 2 * vec_dot orig dir"
  define c where "c = vec_dot orig orig - rad * rad"
  define t0 where "t0 = (- b - sqrt (b * b - 4 * a * c)) / (2 * a)"
  define t1 where "t1 = (- b + sqrt (b * b - 4 * a * c)) / (2 * a)"
  have a: "0 < a" "\<not> a \<le> k_eps" using assms(1) k_eps_small(1) by (simp_all add: a_def dir_def)
  have "px (ray_point r t) * px (ray_point r t) + py (ray_point r t) * py (ray_point r t) - rad * rad = a * t * t + b * t + c" for t
    by (simp add: ray_point_def along_ray_def orig_def[symmetric] dir_def[symmetric] a_def b_def c_def vec_length_sq_def vec_dot_def algebra_simps)
  then have ins: "px (ray_point r t) * px (ray_point r t) + py (ray_point r t) * py (ray_point r t) \<le> rad * rad \<longleftrightarrow>
      0 \<le> b * b - 4 * a * c \<and> t0 \<le> t \<and> t \<le> t1" for t
    using quadratic_inside[OF a(1), of t b c] unfolding t0_def t1_def by (metis diff_le_0_iff_le)
  have rxy: "ray_xy r = (orig, dir)" by (simp add: orig_def dir_def)
  show ?thesis
  proof (cases "b * b - 4 * a * c < 0")
    case True
    then have "intersect_circle_xy r rad lo hi = None"
      using a by (simp add: intersect_circle_xy_def rxy Let_def a_def b_def c_def)
    with True ins show ?thesis by (auto simp: interval_exact_def)
  next
    case False
    then have ord: "t0 \<le> t1" using a(1) by (simp add: t0_def t1_def divide_right_mono)
    have "intersect_circle_xy r rad lo hi = None \<longleftrightarrow> t1 < lo \<or> t0 > hi"
      "intersect_circle_xy r rad lo hi = Some h \<Longrightarrow> enter h = max t0 lo \<and> exit h = min t1 hi" for h
      unfolding intersect_circle_xy_def rxy Let_def prod.case a_def[symmetric] b_def[symmetric] c_def[symmetric]
        t0_def[symmetric] t1_def[symmetric]
      using False a ord by (auto split: if_splits)
    with ins False ord assms(2) show ?thesis
      by (cases "intersect_circle_xy r rad lo hi") (auto simp: interval_exact_def)
  qed
qed

lemma intersect_base_exact:
  assumes "base_clear r s" "lo \<le> hi"
  shows "interval_exact (\<lambda>t. base_inside s (ray_point r t)) lo hi (intersect_base r s lo hi)"
proof (cases s)
  case (Circle x1)
  then show ?thesis using assms intersect_circle_exact[of r lo hi x1]
    by (simp add: base_clear_def base_inside_def intersect_base_def)
next
  case (Box2 hx hy)
  then show ?thesis using assms intersect_polygon_exact[of r "[pt (- hx) (- hy), pt hx (- hy), pt hx hy, pt (- hx) hy]" lo hi]
    by (simp add: base_clear_def base_inside_def intersect_base_def del: One_nat_def)
next
  case (Polygon2 vs)
  then show ?thesis using assms intersect_polygon_exact[of r vs lo hi]
    by (simp add: base_clear_def base_inside_def intersect_base_def)
qed

section \<open>Parts\<close>

definition z_inside :: "shape2p5 \<Rightarrow> real \<Rightarrow> bool" where
  "z_inside s z \<longleftrightarrow> min (z_min s) (z_max s) \<le> z \<and> z \<le> max (z_min s) (z_max s)"

abbreviation ray_z :: "ray3 \<Rightarrow> real \<Rightarrow> real" where
  "ray_z r t \<equiv> p3z (ray_origin r) + v3z (direction r) * t"

definition inside3 :: "ray3 \<Rightarrow> shape2p5 \<Rightarrow> real \<Rightarrow> bool" where
  "inside3 r s t \<longleftrightarrow> base_inside (base s) (ray_point r t) \<and> z_inside s (ray_z r t)"

lemma z_interval_exact:
  assumes "steep (v3z (direction r))" "lo \<le> t" "t \<le> hi"
  shows "z_inside s (ray_z r t) \<longleftrightarrow>
    (case z_interval r s lo hi of None \<Rightarrow> False | Some (a, b, f) \<Rightarrow> a \<le> t \<and> t \<le> b)"
proof (cases "\<bar>v3z (direction r)\<bar> \<le> k_eps")
  case True
  with steep_cases[OF assms(1)] have "v3z (direction r) = 0" by blast
  with True assms(2,3) show ?thesis by (auto simp: z_interval_def z_inside_def Let_def)
next
  case False
  define d where "d = v3z (direction r)"
  define oz where "oz = p3z (ray_origin r)"
  define z0 where "z0 = min (z_min s) (z_max s)"
  define z1 where "z1 = max (z_min s) (z_max s)"
  have z: "z0 \<le> z1" by (simp add: z0_def z1_def)
  have "d > 0 \<or> d < 0" using False k_eps_small(1) by (auto simp: d_def)
  then have "z0 \<le> oz + d * t \<and> oz + d * t \<le> z1 \<longleftrightarrow>
      min ((z0 - oz) * (1 / d)) ((z1 - oz) * (1 / d)) \<le> t \<and> t \<le> max ((z0 - oz) * (1 / d)) ((z1 - oz) * (1 / d))"
  proof
    assume d: "d > 0"
    then have "(z0 - oz) * (1 / d) \<le> (z1 - oz) * (1 / d)" using z by (simp add: divide_right_mono)
    moreover have "z0 \<le> oz + d * t \<longleftrightarrow> (z0 - oz) * (1 / d) \<le> t" "oz + d * t \<le> z1 \<longleftrightarrow> t \<le> (z1 - oz) * (1 / d)"
      using d by (auto simp: field_simps)
    ultimately show ?thesis by (simp only: min_def max_def if_True)
  next
    assume d: "d < 0"
    then have "(z1 - oz) * (1 / d) \<le> (z0 - oz) * (1 / d)" using z by (simp add: divide_right_mono_neg)
    moreover have "z0 \<le> oz + d * t \<longleftrightarrow> t \<le> (z0 - oz) * (1 / d)" "oz + d * t \<le> z1 \<longleftrightarrow> (z1 - oz) * (1 / d) \<le> t"
      using d by (auto simp: field_simps)
    ultimately show ?thesis by (auto simp: min_def max_def)
  qed
  moreover have "z_interval r s lo hi = Some (min ((z0 - oz) * (1 / d)) ((z1 - oz) * (1 / d)), max ((z0 - oz) * (1 / d)) ((z1 - oz) * (1 / d)),
      if (z0 - oz) * (1 / d) < (z1 - oz) * (1 / d) then - 1 else 1)"
    using False unfolding z_interval_def Let_def z0_def z1_def d_def oz_def by (simp only: if_False)
  ultimately show ?thesis by (simp only: z_inside_def option.case prod.case z0_def z1_def d_def oz_def)
qed

lemma intersect_local_cases:
  obtains (none_xy) "intersect_base r (base s) lo hi = None" "intersect_local r s lo hi = None"
  | (none_z) xy where "intersect_base r (base s) lo hi = Some xy" "z_interval r s lo hi = None" "intersect_local r s lo hi = None"
  | (both) xy a b f where "intersect_base r (base s) lo hi = Some xy" "z_interval r s lo hi = Some (a, b, f)"
      "if max (max (enter xy) a) lo > min (min (exit xy) b) hi then intersect_local r s lo hi = None
       else \<exists>li. intersect_local r s lo hi = Some li \<and> li_t li = max (max (enter xy) a) lo"
proof (cases "intersect_base r (base s) lo hi")
  case None
  then show ?thesis using none_xy by (simp add: intersect_local_def)
next
  case (Some xy)
  note xy = Some
  show ?thesis
  proof (cases "z_interval r s lo hi")
    case None
    then show ?thesis using none_z[OF xy] xy by (simp add: intersect_local_def)
  next
    case (Some abf)
    obtain a b f where abf: "abf = (a, b, f)" by (cases abf)
    have "\<not> max (max (enter xy) a) lo > min (min (exit xy) b) hi \<Longrightarrow> \<not> min (min (exit xy) b) hi < lo" by linarith
    then show ?thesis using Some xy abf
      by (intro both[of xy a b f]) (auto simp: intersect_local_def Let_def case_prod_beta)
  qed
qed

lemma intersect_local_exact:
  assumes "base_clear r (base s)" "steep (v3z (direction r))" "lo \<le> hi"
  shows "case intersect_local r s lo hi of
      None \<Rightarrow> \<forall>t. lo \<le> t \<and> t \<le> hi \<longrightarrow> \<not> inside3 r s t
    | Some li \<Rightarrow> lo \<le> li_t li \<and> li_t li \<le> hi \<and> inside3 r s (li_t li) \<and> (\<forall>t. lo \<le> t \<and> t < li_t li \<longrightarrow> \<not> inside3 r s t)"
proof -
  note xy = intersect_base_exact[OF assms(1,3), unfolded interval_exact_def]
  note z = z_interval_exact[OF assms(2), of lo _ hi s]
  show ?thesis
  proof (cases rule: intersect_local_cases[of r s lo hi])
    case none_xy
    with xy show ?thesis by (simp add: inside3_def)
  next
    case (none_z h)
    with z show ?thesis by (simp add: inside3_def)
  next
    case (both h a b f)
    define te where "te = max (max (enter h) a) lo"
    have ins: "inside3 r s t \<longleftrightarrow> te \<le> t \<and> t \<le> min (min (exit h) b) hi" if "lo \<le> t" "t \<le> hi" for t
      using xy z[OF that] both(1,2) that by (auto simp: inside3_def te_def)
    show ?thesis
    proof (cases "te > min (min (exit h) b) hi")
      case True
      with both(3) ins show ?thesis by (auto simp: te_def)
    next
      case False
      with both(3) obtain li where li: "intersect_local r s lo hi = Some li" "li_t li = te" by (auto simp: te_def)
      have "lo \<le> te" "te \<le> hi" using False by (auto simp: te_def)
      with False ins li show ?thesis by auto
    qed
  qed
qed

lemma intersect_local_range:
  "intersect_local r s lo hi = Some li \<Longrightarrow> lo \<le> li_t li \<and> li_t li \<le> hi"
  by (cases rule: intersect_local_cases[of r s lo hi]) (auto split: if_splits)

section \<open>Frames\<close>

lemma to_local_point:
  "ray_point (to_local r p) t = inverse_transform_point p (ray_point r t)"
  by (simp add: ray_point_def along_ray_def ray_xy_def to_local_def inverse_transform_point_def inverse_transform_vector_def
      Let_def algebra_simps)

lemma to_local_z [simp]: "p3z (ray_origin (to_local r p)) = p3z (ray_origin r)" "v3z (direction (to_local r p)) = v3z (direction r)"
  by (simp_all add: to_local_def Let_def)

lemma ray_at_parts: "ray_point r t = pt (p3x (ray_at r t)) (p3y (ray_at r t))" "p3z (ray_at r t) = ray_z r t"
  by (simp_all add: ray_at_def ray_point_def along_ray_def ray_xy_def point3_add_def vec3_scale_def)

section \<open>Boxes\<close>

lemma clip_axis_keeps:
  assumes "steep d" "lo \<le> orig + d * t" "orig + d * t \<le> hi" "t0 \<le> t" "t \<le> t1"
  shows "\<exists>t0' t1'. clip_axis orig d lo hi (t0, t1) = Some (t0', t1') \<and> t0' \<le> t \<and> t \<le> t1'"
proof (cases "\<bar>d\<bar> \<le> k_eps")
  case True
  with steep_cases[OF assms(1)] have "d = 0" by blast
  with True assms show ?thesis by (simp add: clip_axis_def)
next
  case False
  define u where "u = (lo - orig) * (1 / d)"
  define w where "w = (hi - orig) * (1 / d)"
  have "d > 0 \<or> d < 0" using False k_eps_small(1) by auto
  then have "min u w \<le> t \<and> t \<le> max u w"
    using assms(2,3) unfolding u_def w_def min_def max_def by (elim disjE) (auto simp: field_simps)
  moreover have "clip_axis orig d lo hi (t0, t1) = (if max t0 (min u w) > min t1 (max u w) then None
      else Some (max t0 (min u w), min t1 (max u w)))"
    using False unfolding clip_axis_def Let_def u_def[symmetric] w_def[symmetric] by (auto simp: min_def max_def)
  ultimately show ?thesis using assms(4,5) by auto
qed

lemma intersect_aabb2_keeps:
  assumes "steep (v3x (direction r))" "steep (v3y (direction r))" "aabb_contains b (ray_point r t)" "lo \<le> t" "t \<le> hi"
  shows "intersect_aabb2 r b lo hi"
proof -
  have c: "px (bmin b) \<le> p3x (ray_origin r) + v3x (direction r) * t" "p3x (ray_origin r) + v3x (direction r) * t \<le> px (bmax b)"
    "py (bmin b) \<le> p3y (ray_origin r) + v3y (direction r) * t" "p3y (ray_origin r) + v3y (direction r) * t \<le> py (bmax b)"
    using assms(3) by (simp_all add: aabb_contains_def ray_point_def along_ray_def ray_xy_def)
  from clip_axis_keeps[OF assms(1) c(1,2) assms(4,5)] obtain t0 t1 where
    1: "clip_axis (p3x (ray_origin r)) (v3x (direction r)) (px (bmin b)) (px (bmax b)) (lo, hi) = Some (t0, t1)" "t0 \<le> t" "t \<le> t1" by blast
  from clip_axis_keeps[OF assms(2) c(3,4) 1(2,3)] obtain t0' t1' where
    2: "clip_axis (p3y (ray_origin r)) (v3y (direction r)) (py (bmin b)) (py (bmax b)) (t0, t1) = Some (t0', t1')" "t0' \<le> t" "t \<le> t1'" by blast
  from 1 2 assms(4,5) show ?thesis by (simp add: intersect_aabb2_def)
qed

section \<open>Instances\<close>

text \<open>Where a world point is in the frame of a part; what the part covers, and what the test accepts.\<close>

definition part_pose :: "tlas_leaf \<Rightarrow> model_part \<Rightarrow> pose2" where
  "part_pose l part = pose_compose (tl_pose l) (rel_pose part)"

definition xy_of :: "point3 \<Rightarrow> point2" where
  "xy_of w = pt (p3x w) (p3y w)"

definition part_covers :: "tlas_leaf \<Rightarrow> model_part \<Rightarrow> point3 \<Rightarrow> bool" where
  "part_covers l part w \<longleftrightarrow> shape_covers (base (part_geom part)) (inverse_transform_point (part_pose l part) (xy_of w)) \<and>
     z_inside (part_geom part) (p3z w)"

definition part_holds :: "tlas_leaf \<Rightarrow> model_part \<Rightarrow> point3 \<Rightarrow> bool" where
  "part_holds l part w \<longleftrightarrow> base_inside (base (part_geom part)) (inverse_transform_point (part_pose l part) (xy_of w)) \<and>
     z_inside (part_geom part) (p3z w)"

text \<open>Polygons are convex, with the inside to the left of their edges.\<close>

definition convex_shape :: "shape2 \<Rightarrow> bool" where
  "convex_shape s \<longleftrightarrow> (\<forall>vs. s = Polygon2 vs \<longrightarrow> (\<forall>e\<in>set (edges_next vs). long e \<longrightarrow> (\<forall>v\<in>set vs. 0 \<le> edge_side e v)))"

lemma hull_inside:
  assumes "in_hull vs p" "\<forall>v\<in>set vs. 0 \<le> edge_side e v"
  shows "0 \<le> edge_side e p"
  using assms by (induction rule: in_hull.induct) (auto simp: edge_side_segment)

lemma box_sides:
  fixes hx hy x y :: real
  assumes "\<bar>x\<bar> \<le> hx" "\<bar>y\<bar> \<le> hy"
  shows "0 \<le> 2 * hx * (y + hy)" "0 \<le> 2 * hy * (hx - x)" "0 \<le> 2 * hx * (hy - y)" "0 \<le> 2 * hy * (x + hx)"
  using assms by (auto intro!: mult_nonneg_nonneg)

lemma covers_inside:
  assumes "convex_shape s" "shape_covers s p"
  shows "base_inside s p"
proof (cases s)
  case (Box2 hx hy)
  with assms(2) have b: "\<bar>px p\<bar> \<le> hx" "\<bar>py p\<bar> \<le> hy" by simp_all
  show ?thesis
    using box_sides[OF b] unfolding Box2 base_inside_def
    by (auto simp: edges_next_def edge_side_def algebra_simps)
next
  case (Polygon2 vs)
  with assms hull_inside show ?thesis by (auto simp: base_inside_def convex_shape_def)
qed (use assms in \<open>simp add: base_inside_def\<close>)

lemma part_covers_holds: "convex_shape (base (part_geom part)) \<Longrightarrow> part_covers l part w \<Longrightarrow> part_holds l part w"
  by (simp add: part_covers_def part_holds_def covers_inside)

lemma inverse_compose:
  "inverse_transform_point (pose_compose a b) w = inverse_transform_point b (inverse_transform_point a w)"
  by (metis inverse_transform_transform_point transform_inverse_point transform_point_compose)

lemma part_covers_boxes:
  assumes "part_covers l part w" "shape_wf (base (part_geom part))"
  shows "aabb_contains (bl_bounds (blas_leaf_of k part)) (inverse_transform_point (tl_pose l) (xy_of w))"
proof -
  let ?p = "inverse_transform_point (part_pose l part) (xy_of w)"
  have "shape_covers (base (part_geom part)) ?p" using assms(1) by (simp add: part_covers_def)
  from world_bounds_cover_shape[OF assms(2) this, of "rel_pose part"]
  show ?thesis
    by (simp add: blas_leaf_of_def part_bounds_def transform_bounds_eq part_pose_def inverse_compose)
qed

lemma part_covers_world:
  assumes "part_covers l part w" "tl_model l = Some m" "part \<in> set (parts m)"
  shows "covers_world l (xy_of w)"
  unfolding covers_world_def
proof (intro exI conjI)
  let ?p = "inverse_transform_point (part_pose l part) (xy_of w)"
  show "tl_model l = Some m" "part \<in> set (parts m)" by (fact assms)+
  show "shape_covers (base (part_geom part)) ?p" using assms(1) by (simp add: part_covers_def)
  show "xy_of w = transform_point (tl_pose l) (transform_point (rel_pose part) ?p)"
    by (simp add: part_pose_def inverse_compose)
qed

text \<open>The ray and an instance on which no threshold of the code interferes.\<close>

definition part_clear :: "ray_request \<Rightarrow> tlas_leaf \<Rightarrow> model_part \<Rightarrow> bool" where
  "part_clear req l part \<longleftrightarrow> convex_shape (base (part_geom part)) \<and>
     base_clear (to_local (ray req) (part_pose l part)) (base (part_geom part))"

definition ray_clear :: "ray_request \<Rightarrow> bool" where
  "ray_clear req \<longleftrightarrow> steep (v3x (direction (ray req))) \<and> steep (v3y (direction (ray req))) \<and> steep (v3z (direction (ray req)))"

definition traceable :: "ray_request \<Rightarrow> tlas_leaf \<Rightarrow> bool" where
  "traceable req l \<longleftrightarrow> inst_current l \<and>
     (\<exists>m ne. tl_model l = Some m \<and> tl_blas l = Some (blas_build ne m) \<and> (\<forall>part\<in>set (parts m). part_clear req l part)) \<and>
     steep (v3x (direction (to_local (ray req) (tl_pose l)))) \<and> steep (v3y (direction (to_local (ray req) (tl_pose l))))"

lemma inside3_holds:
  "inside3 (to_local (ray req) (part_pose l part)) (part_geom part) t = part_holds l part (ray_at (ray req) t)"
  unfolding inside3_def part_holds_def to_local_point by (simp add: ray_at_parts xy_of_def)

definition part_hit :: "ray_request \<Rightarrow> tlas_leaf \<Rightarrow> model_profile \<Rightarrow> nat \<Rightarrow> instance_hit \<Rightarrow> bool" where
  "part_hit req l m k ih \<longleftrightarrow> t_min req \<le> in_distance ih \<and> in_entity ih = tl_entity l \<and> in_part ih = word_of_nat k \<and>
     part_holds l (parts m ! k) (ray_at (ray req) (in_distance ih))"

lemma trace_part_exact:
  assumes tr: "traceable req l" "ray_clear req" "tl_model l = Some m" and k: "k < length (parts m)"
    and res: "trace_part req l m (to_local (ray req) (tl_pose l)) (blas_leaf_of k (parts m ! k)) (best, bsf) = (best', bsf')"
  shows "((best', bsf') = (best, bsf) \<or> (\<exists>ih. best' = Some ih \<and> in_distance ih = bsf' \<and> bsf' < bsf \<and> part_hit req l m k ih)) \<and>
    (\<forall>t. t_min req \<le> t \<and> t < bsf' \<longrightarrow> \<not> part_covers l (parts m ! k) (ray_at (ray req) t))"
proof -
  let ?part = "parts m ! k"
  let ?rp = "to_local (ray req) (part_pose l ?part)" and ?rm = "to_local (ray req) (tl_pose l)"
  have pin: "?part \<in> set (parts m)" using k by simp
  have clear: "part_clear req l ?part" using tr(1,3) pin by (auto simp: traceable_def)
  have wf: "shape_wf (base (part_geom ?part))"
    using tr(1,3) pin by (auto simp: traceable_def inst_current_def model_wf_def part_wf_def)
  have bounded: "t_min req \<le> bsf" if "t_min req \<le> t" "t < bsf" for t using that by linarith
  have li: "intersect_local ?rp (part_geom ?part) (t_min req) bsf = None \<or>
      (\<exists>li. intersect_local ?rp (part_geom ?part) (t_min req) bsf = Some li)" by (cases "intersect_local ?rp (part_geom ?part) (t_min req) bsf") auto
  have pidx: "part_index (blas_leaf_of k ?part) = k" by (simp add: blas_leaf_of_def)
  show ?thesis
  proof (cases "intersect_aabb2 ?rm (bl_bounds (blas_leaf_of k ?part)) (t_min req) bsf")
    case False
    have "\<not> part_covers l ?part (ray_at (ray req) t)" if "t_min req \<le> t" "t < bsf" for t
    proof
      assume "part_covers l ?part (ray_at (ray req) t)"
      from part_covers_boxes[OF this wf, of k]
      have "aabb_contains (bl_bounds (blas_leaf_of k ?part)) (ray_point ?rm t)"
        unfolding to_local_point by (simp add: ray_at_parts xy_of_def)
      from intersect_aabb2_keeps[OF _ _ this, of "t_min req" bsf] tr(1) that False show False by (simp add: traceable_def)
    qed
    with False res show ?thesis by (simp add: trace_part_def)
  next
    case box: True
    have zc: "steep (v3z (direction ?rp))" using tr(2) by (simp add: ray_clear_def)
    have bc: "base_clear ?rp (base (part_geom ?part))" using clear by (simp add: part_clear_def)
    have exact: "case intersect_local ?rp (part_geom ?part) (t_min req) bsf of
        None \<Rightarrow> \<forall>t. t_min req \<le> t \<and> t \<le> bsf \<longrightarrow> \<not> part_holds l ?part (ray_at (ray req) t)
      | Some li \<Rightarrow> t_min req \<le> li_t li \<and> li_t li \<le> bsf \<and> part_holds l ?part (ray_at (ray req) (li_t li)) \<and>
          (\<forall>t. t_min req \<le> t \<and> t < li_t li \<longrightarrow> \<not> part_holds l ?part (ray_at (ray req) t))" if "t_min req \<le> bsf"
      using intersect_local_exact[OF bc zc that] by (simp only: inside3_holds)
    have cov: "part_covers l ?part w \<Longrightarrow> part_holds l ?part w" for w
      using clear by (intro part_covers_holds) (simp_all add: part_clear_def)
    show ?thesis
    proof (cases "intersect_local ?rp (part_geom ?part) (t_min req) bsf")
      case None
      have "\<not> part_covers l ?part (ray_at (ray req) t)" if "t_min req \<le> t" "t < bsf" for t
        using exact[OF bounded[OF that]] None that cov by auto
      with None res box pidx k show ?thesis by (simp add: trace_part_def part_pose_def Let_def)
    next
      case (Some li)
      show ?thesis
      proof (cases "li_t li \<ge> bsf \<or> li_t li < t_min req")
        case True
        have "\<not> part_covers l ?part (ray_at (ray req) t)" if t: "t_min req \<le> t" "t < bsf" for t
        proof -
          have "bsf \<le> li_t li" using True intersect_local_range[OF Some] by linarith
          then show ?thesis using exact[OF bounded[OF t]] Some t cov by fastforce
        qed
        with True Some res box pidx k show ?thesis by (simp add: trace_part_def part_pose_def Let_def)
      next
        case False
        then have r: "best' = Some \<lparr>in_distance = li_t li, in_normal = world_normal (part_pose l ?part) li,
            in_entity = tl_entity l, in_part = word_of_nat k\<rparr>" "bsf' = li_t li"
          using Some res box pidx k by (auto simp: trace_part_def part_pose_def Let_def)
        have "t_min req \<le> bsf" using False by linarith
        from exact[OF this] Some False r cov show ?thesis by (auto simp: part_hit_def)
      qed
    qed
  qed
qed

lemma trace_parts_exact:
  assumes tr: "traceable req l" "ray_clear req" "tl_model l = Some m" and ks: "set ks \<subseteq> {..<length (parts m)}"
    and res: "fold (trace_part req l m (to_local (ray req) (tl_pose l))) (map (\<lambda>k. blas_leaf_of k (parts m ! k)) ks) (best, bsf) = (best', bsf')"
  shows "bsf' \<le> bsf \<and>
    ((best', bsf') = (best, bsf) \<or> (\<exists>ih k. k \<in> set ks \<and> best' = Some ih \<and> in_distance ih = bsf' \<and> bsf' < bsf \<and> part_hit req l m k ih)) \<and>
    (\<forall>k\<in>set ks. \<forall>t. t_min req \<le> t \<and> t < bsf' \<longrightarrow> \<not> part_covers l (parts m ! k) (ray_at (ray req) t))"
  using ks res
proof (induction ks arbitrary: best bsf)
  case (Cons k ks)
  obtain b1 d1 where s: "trace_part req l m (to_local (ray req) (tl_pose l)) (blas_leaf_of k (parts m ! k)) (best, bsf) = (b1, d1)" by force
  have k: "k < length (parts m)" using Cons.prems(1) by simp
  note one = trace_part_exact[OF tr k s]
  have rest: "fold (trace_part req l m (to_local (ray req) (tl_pose l))) (map (\<lambda>k. blas_leaf_of k (parts m ! k)) ks) (b1, d1) = (best', bsf')"
    using Cons.prems(2) s by simp
  have "set ks \<subseteq> {..<length (parts m)}" using Cons.prems(1) by simp
  note IH = Cons.IH[OF this rest]
  have le: "d1 \<le> bsf" "bsf' \<le> d1" using one IH by auto
  have "\<not> part_covers l (parts m ! j) (ray_at (ray req) t)"
    if "j \<in> set (k # ks)" "t_min req \<le> t \<and> t < bsf'" for j t
    using that one IH le(2) by (cases "j = k") auto
  moreover have "(best', bsf') = (best, bsf) \<or> (\<exists>ih j. j \<in> set (k # ks) \<and> best' = Some ih \<and> in_distance ih = bsf' \<and>
      bsf' < bsf \<and> part_hit req l m j ih)"
  proof (cases "(best', bsf') = (b1, d1)")
    case True
    with one[THEN conjunct1] show ?thesis by (metis list.set_intros(1) prod.inject)
  next
    case False
    with IH obtain ih j where "j \<in> set ks" "best' = Some ih" "in_distance ih = bsf'" "bsf' < d1" "part_hit req l m j ih" by blast
    then show ?thesis using le(1) by (metis list.set_intros(2) less_le_trans)
  qed
  ultimately show ?case using order_trans[OF le(2,1)] by blast
qed simp


lemma blas_leaves_build:
  "bl_leaves (blas_build ne m) = map (\<lambda>k. blas_leaf_of k (parts m ! k)) [0..<length (parts m)]"
proof -
  have "map2 blas_leaf_of [0..<length (parts m)] (parts m) = map (\<lambda>k. blas_leaf_of k (parts m ! k)) [0..<length (parts m)]"
    by (rule nth_equalityI) simp_all
  then show ?thesis
    by (cases "parts m = []") (simp_all add: blas_build_def Let_def case_prod_beta enumerate_eq_zip)
qed

text \<open>What a hit says of an instance, and what an instance covers.\<close>

definition instance_holds :: "ray_request \<Rightarrow> tlas_leaf \<Rightarrow> 32 word \<Rightarrow> point3 \<Rightarrow> bool" where
  "instance_holds req l k w \<longleftrightarrow>
     (\<exists>m i. tl_model l = Some m \<and> i < length (parts m) \<and> k = word_of_nat i \<and> part_holds l (parts m ! i) w)"

definition instance_covers :: "tlas_leaf \<Rightarrow> point3 \<Rightarrow> bool" where
  "instance_covers l w \<longleftrightarrow> (\<exists>m. tl_model l = Some m \<and> (\<exists>part\<in>set (parts m). part_covers l part w))"

lemma trace_instance_exact:
  assumes tr: "traceable req l" "ray_clear req" and d: "d \<le> t_max req"
  shows "case trace_instance req l d of
      None \<Rightarrow> \<forall>t. t_min req \<le> t \<and> t < d \<longrightarrow> \<not> instance_covers l (ray_at (ray req) t)
    | Some ih \<Rightarrow> t_min req \<le> in_distance ih \<and> in_distance ih < d \<and> in_entity ih = tl_entity l \<and>
        instance_holds req l (in_part ih) (ray_at (ray req) (in_distance ih)) \<and>
        (\<forall>t. t_min req \<le> t \<and> t < in_distance ih \<longrightarrow> \<not> instance_covers l (ray_at (ray req) t))"
proof -
  obtain m ne where m: "tl_model l = Some m" "tl_blas l = Some (blas_build ne m)" using tr(1) by (auto simp: traceable_def)
  obtain best bsf where f: "fold (trace_part req l m (to_local (ray req) (tl_pose l)))
      (map (\<lambda>k. blas_leaf_of k (parts m ! k)) [0..<length (parts m)]) (None, d) = (best, bsf)" by force
  have run: "trace_instance req l d = best"
    using d f m by (simp add: trace_instance_def blas_leaves_build min_def)
  have "set [0..<length (parts m)] \<subseteq> {..<length (parts m)}" by auto
  note ex = trace_parts_exact[OF tr m(1) this f]
  have cov: "\<not> instance_covers l (ray_at (ray req) t)" if "t_min req \<le> t" "t < bsf" for t
    using ex that m(1) unfolding instance_covers_def by (auto simp: in_set_conv_nth)
  show ?thesis
  proof (cases best)
    case None
    with ex have "bsf = d" by auto
    with cov None run show ?thesis by simp
  next
    case (Some ih)
    with ex obtain k where "k < length (parts m)" "in_distance ih = bsf" "bsf < d" "part_hit req l m k ih" by auto
    with cov Some run m(1) show ?thesis by (auto simp: part_hit_def instance_holds_def)
  qed
qed

section \<open>Trees\<close>

definition hit_sound :: "ray_request \<Rightarrow> tlas_leaf set \<Rightarrow> ray_hit \<Rightarrow> bool" where
  "hit_sound req L h \<longleftrightarrow> hit h \<and> t_min req \<le> hit_distance h \<and> position h = ray_at (ray req) (hit_distance h) \<and>
     (\<exists>l\<in>L. entity_id h = tl_entity l \<and> instance_holds req l (hit_part h) (position h))"

definition refines_hit :: "ray_request \<Rightarrow> tlas_leaf set \<Rightarrow> ray_hit \<Rightarrow> ray_hit \<Rightarrow> bool" where
  "refines_hit req L h h' \<longleftrightarrow> (h' = h \<or> hit_distance h' < hit_distance h \<and> hit_sound req L h') \<and>
     (\<forall>l\<in>L. \<forall>t. t_min req \<le> t \<and> t < hit_distance h' \<longrightarrow> \<not> instance_covers l (ray_at (ray req) t))"

lemma hit_sound_mono: "hit_sound req L h \<Longrightarrow> L \<subseteq> L' \<Longrightarrow> hit_sound req L' h"
  unfolding hit_sound_def by blast

lemma refines_hit_trans:
  assumes "refines_hit req L h h'" "refines_hit req L' h' h''"
  shows "refines_hit req (L \<union> L') h h''"
proof -
  have le: "hit_distance h'' \<le> hit_distance h'" using assms(2) by (auto simp: refines_hit_def)
  have "\<not> instance_covers l (ray_at (ray req) t)" if "l \<in> L \<union> L'" "t_min req \<le> t \<and> t < hit_distance h''" for l t
    using that assms le unfolding refines_hit_def by (meson UnE less_le_trans)
  moreover have "h'' = h \<or> hit_distance h'' < hit_distance h \<and> hit_sound req (L \<union> L') h''"
    using assms hit_sound_mono[of req L _ "L \<union> L'"] hit_sound_mono[of req L' _ "L \<union> L'"] unfolding refines_hit_def by auto
  ultimately show ?thesis unfolding refines_hit_def by blast
qed

lemma visit_leaf_exact:
  assumes "traceable req l" "ray_clear req" "hit_distance h \<le> t_max req"
  shows "refines_hit req {l} h (visit_leaf req l h)"
  using trace_instance_exact[OF assms] by (auto simp: visit_leaf_def refines_hit_def hit_sound_def split: option.splits)

lemma instance_covers_box:
  assumes "traceable req l" "instance_covers l w"
  shows "aabb_contains (tl_bounds l) (xy_of w)"
  using assms covers_world_in_bounds part_covers_world unfolding instance_covers_def traceable_def by blast

lemma prune_exact:
  assumes "ray_clear req" "\<not> intersect_aabb2 (ray req) b (t_min req) (hit_distance h)"
    "\<forall>l\<in>L. traceable req l \<and> aabb_contains_box b (tl_bounds l)"
  shows "refines_hit req L h h"
proof -
  have "\<not> instance_covers l (ray_at (ray req) t)" if l: "l \<in> L" and t: "t_min req \<le> t" "t < hit_distance h" for l t
  proof
    assume "instance_covers l (ray_at (ray req) t)"
    with assms(3) l instance_covers_box have "aabb_contains b (xy_of (ray_at (ray req) t))"
      by (meson contains_box_contains)
    then have "aabb_contains b (ray_point (ray req) t)" by (simp add: ray_at_parts xy_of_def)
    with intersect_aabb2_keeps[OF _ _ this, of "t_min req" "hit_distance h"] assms(1,2) t show False
      by (simp add: ray_clear_def)
  qed
  then show ?thesis by (auto simp: refines_hit_def)
qed

lemma refines_hit_le: "refines_hit req L h h' \<Longrightarrow> hit_distance h' \<le> hit_distance h"
  by (auto simp: refines_hit_def)

lemma trace_loop_subtree:
  assumes clear: "ray_clear req" and tr: "\<forall>k\<in>set (tree_leaves t). traceable req (lvs ! k)" and d: "hit_distance h \<le> t_max req"
  shows "\<exists>h'. trace_loop req (pre @ layout (leaf_box lvs) par (length pre) t @ post) lvs (length pre # stack) h =
      trace_loop req (pre @ layout (leaf_box lvs) par (length pre) t @ post) lvs stack h' \<and>
    refines_hit req ((!) lvs ` set (tree_leaves t)) h h'"
  using tr d
proof (induction t arbitrary: pre par post stack h)
  case (Tip k)
  let ?ns = "pre @ layout (leaf_box lvs) par (length pre) (Tip k) @ post"
  have node: "?ns ! length pre = \<lparr>bounds = leaf_box lvs k, left = None, right = None, parent = par, leaf = Some k\<rparr>" by simp
  have l: "traceable req (lvs ! k)" using Tip.prems(1) by simp
  show ?case
  proof (cases "intersect_aabb2 (ray req) (leaf_box lvs k) (t_min req) (hit_distance h)")
    case True
    then have "trace_loop req ?ns lvs (length pre # stack) h = trace_loop req ?ns lvs stack (visit_leaf req (lvs ! k) h)"
      by (subst trace_loop.simps) (simp only: list.case Let_def node, simp)
    with visit_leaf_exact[OF l clear Tip.prems(2)] show ?thesis by auto
  next
    case False
    then have "trace_loop req ?ns lvs (length pre # stack) h = trace_loop req ?ns lvs stack h"
      by (subst trace_loop.simps) (simp only: list.case Let_def node, simp)
    moreover have "refines_hit req {lvs ! k} h h"
      using prune_exact[OF clear False, of "{lvs ! k}"] l by (simp add: leaf_box_def)
    ultimately show ?thesis by auto
  qed
next
  case (Fork l r)
  let ?i = "length pre"
  let ?nd = "\<lparr>bounds = tree_box (leaf_box lvs) (Fork l r), left = Some (Suc ?i),
      right = Some (Suc ?i + tree_nodes l), parent = par, leaf = None\<rparr>"
  let ?L = "layout (leaf_box lvs) (Some ?i) (Suc ?i) l"
  let ?R = "layout (leaf_box lvs) (Some ?i) (Suc ?i + tree_nodes l) r"
  let ?ns = "pre @ layout (leaf_box lvs) par ?i (Fork l r) @ post"
  have node: "?ns ! ?i = ?nd" by simp
  show ?case
  proof (cases "intersect_aabb2 (ray req) (tree_box (leaf_box lvs) (Fork l r)) (t_min req) (hit_distance h)")
    case True
    then have "trace_loop req ?ns lvs (?i # stack) h = trace_loop req ?ns lvs ((Suc ?i + tree_nodes l) # Suc ?i # stack) h"
      by (subst trace_loop.simps) (simp only: node list.case Let_def, simp add: push_child_def)
    moreover obtain h1 where h1: "trace_loop req ?ns lvs ((Suc ?i + tree_nodes l) # Suc ?i # stack) h = trace_loop req ?ns lvs (Suc ?i # stack) h1"
      "refines_hit req ((!) lvs ` set (tree_leaves r)) h h1"
      using Fork.IH(2)[of h "pre @ [?nd] @ ?L" "Some ?i" post "Suc ?i # stack"] Fork.prems by auto
    moreover have "hit_distance h1 \<le> t_max req" using refines_hit_le[OF h1(2)] Fork.prems(2) by linarith
    then obtain h2 where h2: "trace_loop req ?ns lvs (Suc ?i # stack) h1 = trace_loop req ?ns lvs stack h2"
      "refines_hit req ((!) lvs ` set (tree_leaves l)) h1 h2"
      using Fork.IH(1)[of h1 "pre @ [?nd]" "Some ?i" "?R @ post" stack] Fork.prems by auto
    moreover have "(!) lvs ` set (tree_leaves (Fork l r)) = (!) lvs ` set (tree_leaves r) \<union> (!) lvs ` set (tree_leaves l)" by auto
    ultimately show ?thesis using refines_hit_trans[OF h1(2) h2(2)] by (intro exI[of _ h2]) simp
  next
    case False
    then have "trace_loop req ?ns lvs (?i # stack) h = trace_loop req ?ns lvs stack h"
      by (subst trace_loop.simps) (simp only: node list.case Let_def, simp)
    moreover have "refines_hit req ((!) lvs ` set (tree_leaves (Fork l r))) h h"
      using Fork.prems(1) tree_box_covers[of _ "Fork l r" "leaf_box lvs"]
      by (intro prune_exact[OF clear False]) (auto simp: leaf_box_def simp del: tree_box.simps tree_leaves.simps)
    ultimately show ?thesis by blast
  qed
qed

lemma trace_tree_exact:
  assumes "tlas_tight tree" "ray_clear req" "\<forall>l\<in>set (t_leaves tree). traceable req l" "d \<le> t_max req"
  shows "\<exists>h. trace_tree req tree d = Some h \<and> refines_hit req (set (t_leaves tree)) (no_hit d) h"
proof (cases "t_leaves tree = []")
  case True
  then show ?thesis by (simp add: trace_tree_def refines_hit_def)
next
  case False
  with assms(1) obtain t where t: "tlas_tree tree t" by (auto simp: tlas_tight_def tlas_empty_def)
  have ks: "set (tree_leaves t) = {..<length (t_leaves tree)}" using t by (simp add: tlas_tree_def)
  have sub: "\<forall>k\<in>set (tree_leaves t). traceable req (t_leaves tree ! k)" using ks assms(3) by auto
  have img: "(!) (t_leaves tree) ` set (tree_leaves t) = set (t_leaves tree)" unfolding ks by (auto simp: in_set_conv_nth)
  from trace_loop_subtree[OF assms(2) sub, of "no_hit d" "[]" None "[]" "[]"] assms(4) img t False
  show ?thesis
    by (auto simp: trace_tree_def tlas_tree_def trace_loop.simps[of _ _ _ "[]"] no_hit_def)
qed

lemma trace_ray_exact:
  assumes "tlas_tight (static_tree trees)" "tlas_tight (dynamic_tree trees)" "ray_clear req"
    "\<forall>l\<in>set (t_leaves (static_tree trees)) \<union> set (t_leaves (dynamic_tree trees)). traceable req l"
  shows "\<exists>h. trace_ray req trees = Some h \<and>
    (if hit h then hit_sound req (set (t_leaves (static_tree trees)) \<union> set (t_leaves (dynamic_tree trees))) h \<and> hit_distance h < t_max req
     else hit_distance h = t_max req) \<and>
    (\<forall>l\<in>set (t_leaves (static_tree trees)) \<union> set (t_leaves (dynamic_tree trees)).
       \<forall>t. t_min req \<le> t \<and> t < hit_distance h \<longrightarrow> \<not> instance_covers l (ray_at (ray req) t))"
proof -
  let ?S = "set (t_leaves (static_tree trees))" and ?D = "set (t_leaves (dynamic_tree trees))"
  obtain hs where s: "trace_tree req (static_tree trees) (t_max req) = Some hs" "refines_hit req ?S (no_hit (t_max req)) hs"
    using trace_tree_exact[OF assms(1,3)] assms(4) by blast
  have le: "hit_distance hs \<le> t_max req" using refines_hit_le[OF s(2)] by (simp add: no_hit_def)
  obtain hd where d: "trace_tree req (dynamic_tree trees) (hit_distance hs) = Some hd" "refines_hit req ?D (no_hit (hit_distance hs)) hd"
    using trace_tree_exact[OF assms(2,3) _ le] assms(4) by blast
  have led: "hit_distance hd \<le> hit_distance hs" using refines_hit_le[OF d(2)] by (simp add: no_hit_def)
  have hs_cases: "hs = no_hit (t_max req) \<or> hit_distance hs < t_max req \<and> hit_sound req ?S hs"
    using s(2) by (simp add: refines_hit_def no_hit_def)
  have hd_cases: "hd = no_hit (hit_distance hs) \<or> hit_distance hd < hit_distance hs \<and> hit_sound req ?D hd"
    using d(2) by (simp add: refines_hit_def no_hit_def)
  have none: "\<not> instance_covers l (ray_at (ray req) t)" if "l \<in> ?S \<union> ?D" "t_min req \<le> t \<and> t < hit_distance hd" for l t
    using that s(2) d(2) led unfolding refines_hit_def by (meson UnE less_le_trans)
  define h where "h = (if \<not> hit hs then hd else if hit hd \<and> hit_distance hd < hit_distance hs then hd else hs)"
  have run: "trace_ray req trees = Some h" using s(1) d(1) by (simp add: trace_ray_def h_def)
  have dist: "hit_distance h = hit_distance hd"
    using hd_cases by (auto simp: h_def no_hit_def hit_sound_def)
  have "if hit h then hit_sound req (?S \<union> ?D) h \<and> hit_distance h < t_max req else hit_distance h = t_max req"
    using hs_cases hd_cases le hit_sound_mono[of req ?S hs "?S \<union> ?D"] hit_sound_mono[of req ?D hd "?S \<union> ?D"]
    by (auto simp: h_def no_hit_def hit_sound_def)
  with run none dist show ?thesis by (intro exI[of _ h]) auto
qed

section \<open>Batches\<close>

definition k_min_rays_per_task :: nat where "k_min_rays_per_task = 1024"
definition k_max_queued_tasks_per_worker :: nat where "k_max_queued_tasks_per_worker = 4"

text \<open>
  The batches: the ranges of indices, one task each, that the pool runs. The result of a batch does
  not depend on the order of the tasks, since they write disjoint ranges. \<open>None\<close> is the exception
  for a results span of another size.
\<close>

definition trace_chunks :: "nat \<Rightarrow> nat \<Rightarrow> nat \<Rightarrow> nat list list" where
  "trace_chunks n pool_size pending =
     (let pool_threads = max 1 pool_size; usable_workers = min pool_threads (n div k_min_rays_per_task);
          backlog_limit = pool_threads * k_max_queued_tasks_per_worker;
          pool_overloaded = (backlog_limit > 0 \<and> pending \<ge> backlog_limit)
      in if usable_workers \<le> 1 \<or> pool_overloaded then [[0..<n]]
         else map (\<lambda>(a, b). [a..<b]) (chunk_ranges 0 n (max 1 ((n + usable_workers - 1) div usable_workers))))"

definition write_chunk :: "ray_request list \<Rightarrow> tlas_pair \<Rightarrow> nat list \<Rightarrow> ray_hit option list \<Rightarrow> ray_hit option list" where
  "write_chunk rays trees idxs results = fold (\<lambda>i res. res[i := trace_ray (rays ! i) trees]) idxs results"

definition trace_rays :: "ray_request list \<Rightarrow> ray_hit option list \<Rightarrow> tlas_pair \<Rightarrow> nat \<Rightarrow> nat \<Rightarrow> ray_hit option list option" where
  "trace_rays rays results trees pool_size pending =
     (if length rays \<noteq> length results then None
      else if rays = [] then Some results
      else Some (fold (write_chunk rays trees) (trace_chunks (length rays) pool_size pending) results))"


lemma trace_chunks_cover: "concat (trace_chunks n w q) = [0..<n]"
proof -
  have "concat (map (\<lambda>(a, b). [a..<b]) (chunk_ranges 0 n (max 1 k))) = [0..<n]" for k
    by (rule chunk_ranges_cover) simp
  then show ?thesis unfolding trace_chunks_def Let_def by (simp split: if_split)
qed

lemma write_chunk_nth:
  "length (write_chunk rays trees idxs res) = length res"
  "i < length res \<Longrightarrow> write_chunk rays trees idxs res ! i = (if i \<in> set idxs then trace_ray (rays ! i) trees else res ! i)"
  by (induction idxs arbitrary: res) (auto simp: write_chunk_def nth_list_update)

lemma write_chunks_nth:
  "length (fold (write_chunk rays trees) cs res) = length res \<and>
   (\<forall>i<length res. fold (write_chunk rays trees) cs res ! i =
     (if i \<in> set (concat cs) then trace_ray (rays ! i) trees else res ! i))"
  by (induction cs arbitrary: res) (auto simp: write_chunk_nth)

text \<open>In whatever order the tasks of a batch run, each ray has the result of the sequential trace.\<close>

lemma trace_rays_any_order:
  assumes "mset cs = mset (trace_chunks (length rays) w q)" "length results = length rays"
  shows "fold (write_chunk rays trees) cs results = map (\<lambda>r. trace_ray r trees) rays"
proof (rule nth_equalityI)
  have "set (concat cs) = set (concat (trace_chunks (length rays) w q))"
    using mset_eq_setD[OF assms(1)] by simp
  then have "set (concat cs) = {..<length rays}" by (simp only: trace_chunks_cover) auto
  then have "i \<in> set (concat cs)" if "i < length rays" for i using that by simp
  with write_chunks_nth[of rays trees cs results] assms(2)
  show "i < length (fold (write_chunk rays trees) cs results) \<Longrightarrow>
      fold (write_chunk rays trees) cs results ! i = map (\<lambda>r. trace_ray r trees) rays ! i" for i
    by (simp del: set_concat)
qed (use write_chunks_nth[of rays trees cs results] assms(2) in simp)

lemma trace_rays_map:
  "length rays = length results \<Longrightarrow> trace_rays rays results trees w q = Some (map (\<lambda>r. trace_ray r trees) rays)"
  using trace_rays_any_order[OF refl, of results rays trees w q] by (auto simp: trace_rays_def)

section \<open>Properties\<close>

text \<open>C4: Tracing a ray through the static and the dynamic tree terminates with the nearest hit: the
  reported point is on the ray, within the range and in the reported part of the reported entity,
  and no instance covers an earlier point of the ray; without a hit no instance covers a point of
  the ray in range. This is what a search over all instances without trees would give.\<close>

theorem trace_ray_nearest:
  assumes "tlas_tight (static_tree trees)" "tlas_tight (dynamic_tree trees)" "ray_clear req"
    "\<forall>l\<in>set (t_leaves (static_tree trees) @ t_leaves (dynamic_tree trees)). traceable req l"
  shows "\<exists>h. trace_ray req trees = Some h \<and>
    (if hit h
     then t_min req \<le> hit_distance h \<and> hit_distance h < t_max req \<and> position h = ray_at (ray req) (hit_distance h) \<and>
       (\<exists>l\<in>set (t_leaves (static_tree trees) @ t_leaves (dynamic_tree trees)).
          entity_id h = tl_entity l \<and> instance_holds req l (hit_part h) (position h))
     else hit_distance h = t_max req) \<and>
    (\<forall>l\<in>set (t_leaves (static_tree trees) @ t_leaves (dynamic_tree trees)).
       \<forall>t. t_min req \<le> t \<and> t < hit_distance h \<longrightarrow> \<not> instance_covers l (ray_at (ray req) t))"
proof -
  let ?L = "set (t_leaves (static_tree trees)) \<union> set (t_leaves (dynamic_tree trees))"
  have "\<forall>l\<in>?L. traceable req l" using assms(4) by simp
  from trace_ray_exact[OF assms(1-3) this] obtain h where h: "trace_ray req trees = Some h"
    "if hit h then hit_sound req ?L h \<and> hit_distance h < t_max req else hit_distance h = t_max req"
    "\<forall>l\<in>?L. \<forall>t. t_min req \<le> t \<and> t < hit_distance h \<longrightarrow> \<not> instance_covers l (ray_at (ray req) t)" by blast
  from h(2) have "if hit h
     then t_min req \<le> hit_distance h \<and> hit_distance h < t_max req \<and> position h = ray_at (ray req) (hit_distance h) \<and>
       (\<exists>l\<in>?L. entity_id h = tl_entity l \<and> instance_holds req l (hit_part h) (position h))
     else hit_distance h = t_max req"
  proof (cases "hit h")
    case True
    with h(2) have "hit_sound req ?L h" "hit_distance h < t_max req" by simp_all
    with True show ?thesis unfolding hit_sound_def if_P[OF True] by blast
  qed simp
  with h(1,3) show ?thesis unfolding set_append by blast
qed

definition demo_ray :: ray_request where
  "demo_ray = \<lparr>ray = \<lparr>ray_origin = pt_3 0 0 (1 / 2), direction = vec_3 1 0 0\<rparr>, t_min = 0, t_max = 100\<rparr>"

definition demo_scene :: tlas_pair where
  "demo_scene = \<lparr>static_tree = rebuild_tree nth_by_sort [disc_leaf 5 1] empty_tlas, dynamic_tree = empty_tlas\<rparr>"

lemma demo_scene_leaves: "t_leaves (static_tree demo_scene) = [disc_leaf 5 1]" "t_leaves (dynamic_tree demo_scene) = []"
  using rebuild_tree_valid[of "[disc_leaf 5 1]" nth_by_sort empty_tlas] by (simp_all add: demo_scene_def)

lemma demo_range: "t_min demo_ray = 0" "t_max demo_ray = 100"
  by (simp_all add: demo_ray_def)

lemma demo_traceable: "traceable demo_ray (disc_leaf 5 1)"
proof -
  have "inst_current (disc_leaf 5 1)"
    unfolding inst_current_def
    by (intro exI[of _ unit_disc] conjI) (simp_all add: disc_leaf_def unit_disc_wf compute_disc)
  moreover have l: "tl_model (disc_leaf 5 1) = Some unit_disc" "tl_blas (disc_leaf 5 1) = Some (blas_build nth_by_sort unit_disc)"
    "tl_pose (disc_leaf 5 1) = \<lparr>pos = pt 5 0, yaw = 0\<rparr>" by (simp_all add: disc_leaf_def)
  moreover have "part_clear demo_ray (disc_leaf 5 1) part" if "part \<in> set (parts unit_disc)" for part
    using that l by (simp add: unit_disc_def part_clear_def convex_shape_def base_clear_def ray_xy_def Let_def
        to_local_def part_pose_def pose_compose_def inverse_transform_vector_def demo_ray_def vec_length_sq_def
        vec_dot_def k_eps_def)
  moreover have "steep (v3x (direction (to_local (ray demo_ray) \<lparr>pos = pt 5 0, yaw = 0\<rparr>)))"
    "steep (v3y (direction (to_local (ray demo_ray) \<lparr>pos = pt 5 0, yaw = 0\<rparr>)))"
    by (simp_all add: to_local_def Let_def inverse_transform_vector_def demo_ray_def steep_def k_eps_def)
  ultimately show ?thesis unfolding traceable_def by auto
qed

theorem trace_ray_nearest_witness:
  "\<exists>h. trace_ray demo_ray demo_scene = Some h \<and> hit h \<and> hit_distance h = 4 \<and> entity_id h = 1"
proof -
  have "\<exists>h. trace_ray demo_ray demo_scene = Some h \<and>
    (if hit h
     then t_min demo_ray \<le> hit_distance h \<and> hit_distance h < t_max demo_ray \<and> position h = ray_at (ray demo_ray) (hit_distance h) \<and>
       (\<exists>l\<in>set (t_leaves (static_tree demo_scene) @ t_leaves (dynamic_tree demo_scene)).
          entity_id h = tl_entity l \<and> instance_holds demo_ray l (hit_part h) (position h))
     else hit_distance h = t_max demo_ray) \<and>
    (\<forall>l\<in>set (t_leaves (static_tree demo_scene) @ t_leaves (dynamic_tree demo_scene)).
       \<forall>t. t_min demo_ray \<le> t \<and> t < hit_distance h \<longrightarrow> \<not> instance_covers l (ray_at (ray demo_ray) t))"
  proof (rule trace_ray_nearest)
    show "tlas_tight (static_tree demo_scene)" "tlas_tight (dynamic_tree demo_scene)"
      by (simp_all add: demo_scene_def rebuild_tree_tight empty_tlas_tight)
    show "ray_clear demo_ray" by (simp add: ray_clear_def demo_ray_def steep_def k_eps_def)
  qed (simp add: demo_scene_leaves demo_traceable)
  then obtain h where h: "trace_ray demo_ray demo_scene = Some h"
    and c: "if hit h
     then t_min demo_ray \<le> hit_distance h \<and> hit_distance h < t_max demo_ray \<and> position h = ray_at (ray demo_ray) (hit_distance h) \<and>
       (\<exists>l\<in>set (t_leaves (static_tree demo_scene) @ t_leaves (dynamic_tree demo_scene)).
          entity_id h = tl_entity l \<and> instance_holds demo_ray l (hit_part h) (position h))
     else hit_distance h = t_max demo_ray"
    and none: "\<forall>l\<in>set (t_leaves (static_tree demo_scene) @ t_leaves (dynamic_tree demo_scene)).
       \<forall>t. t_min demo_ray \<le> t \<and> t < hit_distance h \<longrightarrow> \<not> instance_covers l (ray_at (ray demo_ray) t)"
    by blast
  have c': "if hit h then 0 \<le> hit_distance h \<and> hit_distance h < 100 \<and> position h = ray_at (ray demo_ray) (hit_distance h) \<and>
       entity_id h = 1 \<and> instance_holds demo_ray (disc_leaf 5 1) (hit_part h) (position h) else hit_distance h = 100"
    using c by (simp only: demo_scene_leaves demo_range append_Nil2 list.set bex_simps(5) bex_empty simp_thms disc_simps)
  have none': "\<not> instance_covers (disc_leaf 5 1) (ray_at (ray demo_ray) t)" if "0 \<le> t" "t < hit_distance h" for t
    using none that by (simp add: demo_scene_leaves demo_range)
  have at: "ray_at (ray demo_ray) t = pt_3 t 0 (1 / 2)" for t
    by (simp add: ray_at_def demo_ray_def point3_add_def vec3_scale_def)
  have "instance_covers (disc_leaf 5 1) (ray_at (ray demo_ray) 4)"
    by (simp add: at instance_covers_def part_covers_def disc_leaf_def unit_disc_def part_pose_def pose_compose_def
        inverse_transform_point_def xy_of_def z_inside_def)
  with none'[of 4] have le: "hit_distance h \<le> 4" by force
  then have hit: "hit h" using c' by (auto split: if_splits)
  note c'' = c'[unfolded if_P[OF hit]]
  then have "instance_holds demo_ray (disc_leaf 5 1) (hit_part h) (pt_3 (hit_distance h) 0 (1 / 2))" unfolding at by metis
  then have "(hit_distance h - 5) * (hit_distance h - 5) \<le> 1"
    by (auto simp: at instance_holds_def part_holds_def disc_leaf_def unit_disc_def part_pose_def pose_compose_def
        inverse_transform_point_def xy_of_def base_inside_def)
  then have "\<bar>hit_distance h - 5\<bar> \<le> 1" by (metis abs_le_square_iff abs_one power2_eq_square mult_1)
  with le have "hit_distance h = 4" by linarith
  with h hit c' show ?thesis by auto
qed

section \<open>Tracing ends\<close>

text \<open>Over a tight tree the loop ends whatever the ray and the shapes are.\<close>

lemma trace_loop_ends:
  "\<exists>h'. trace_loop req (pre @ layout (leaf_box lvs) par (length pre) t @ post) lvs (length pre # stack) h =
     trace_loop req (pre @ layout (leaf_box lvs) par (length pre) t @ post) lvs stack h'"
proof (induction t arbitrary: pre par post stack h)
  case (Tip k)
  let ?ns = "pre @ layout (leaf_box lvs) par (length pre) (Tip k) @ post"
  have node: "?ns ! length pre = \<lparr>bounds = leaf_box lvs k, left = None, right = None, parent = par, leaf = Some k\<rparr>" by simp
  have "trace_loop req ?ns lvs (length pre # stack) h = trace_loop req ?ns lvs stack
      (if intersect_aabb2 (ray req) (leaf_box lvs k) (t_min req) (hit_distance h) then visit_leaf req (lvs ! k) h else h)"
    by (subst trace_loop.simps) (simp only: list.case Let_def node, simp)
  then show ?case by blast
next
  case (Fork l r)
  let ?i = "length pre"
  let ?nd = "\<lparr>bounds = tree_box (leaf_box lvs) (Fork l r), left = Some (Suc ?i),
      right = Some (Suc ?i + tree_nodes l), parent = par, leaf = None\<rparr>"
  let ?L = "layout (leaf_box lvs) (Some ?i) (Suc ?i) l"
  let ?R = "layout (leaf_box lvs) (Some ?i) (Suc ?i + tree_nodes l) r"
  let ?ns = "pre @ layout (leaf_box lvs) par ?i (Fork l r) @ post"
  have node: "?ns ! ?i = ?nd" by simp
  obtain h1 where h1: "trace_loop req ?ns lvs ((Suc ?i + tree_nodes l) # Suc ?i # stack) h = trace_loop req ?ns lvs (Suc ?i # stack) h1"
    using Fork.IH(2)[of "pre @ [?nd] @ ?L" "Some ?i" post "Suc ?i # stack" h] by auto
  obtain h2 where h2: "trace_loop req ?ns lvs (Suc ?i # stack) h1 = trace_loop req ?ns lvs stack h2"
    using Fork.IH(1)[of "pre @ [?nd]" "Some ?i" "?R @ post" stack h1] by auto
  have "trace_loop req ?ns lvs (?i # stack) h =
      (if intersect_aabb2 (ray req) (tree_box (leaf_box lvs) (Fork l r)) (t_min req) (hit_distance h)
       then trace_loop req ?ns lvs ((Suc ?i + tree_nodes l) # Suc ?i # stack) h else trace_loop req ?ns lvs stack h)"
    by (subst trace_loop.simps) (simp only: node list.case Let_def, simp add: push_child_def)
  with h1 h2 show ?case by (cases "intersect_aabb2 (ray req) (tree_box (leaf_box lvs) (Fork l r)) (t_min req) (hit_distance h)") auto
qed

lemma trace_tree_ends: "tlas_tight tree \<Longrightarrow> \<exists>h. trace_tree req tree d = Some h"
proof (cases "t_leaves tree = []")
  case False
  assume "tlas_tight tree"
  with False obtain t where t: "tlas_tree tree t" by (auto simp: tlas_tight_def tlas_empty_def)
  from trace_loop_ends[where pre="[]" and par=None and t=t and post="[]" and stack="[]" and h="no_hit d" and lvs="t_leaves tree" and req=req] t False
  show ?thesis by (auto simp: trace_tree_def tlas_tree_def trace_loop.simps[of _ _ _ "[]"])
qed (simp add: trace_tree_def)

lemma trace_ray_ends:
  assumes "tlas_tight (static_tree trees)" "tlas_tight (dynamic_tree trees)"
  shows "\<exists>h. trace_ray req trees = Some h"
proof -
  obtain best where "trace_tree req (static_tree trees) (t_max req) = Some best" using trace_tree_ends[OF assms(1)] by blast
  moreover obtain h where "trace_tree req (dynamic_tree trees) (hit_distance best) = Some h" using trace_tree_ends[OF assms(2)] by blast
  ultimately show ?thesis by (simp add: trace_ray_def)
qed

end
