(* ===== verification/TF.thy ===== *)
theory TF
  imports Spatial CoreBase
begin

text \<open>
  The transform buffer of \<^verbatim>\<open>core/transform/tf.hpp\<close> and \<^verbatim>\<open>tf.cpp\<close>: frames
  with their parents, static edges and histories of timed edges, and the lookup of the transform
  between two frames through their closest common ancestor. The loop up the parents need not end:
  \<open>None\<close> is a lookup that does not return.
\<close>

record timed_pose =
  stamp :: real
  t_parent_child :: pose3

record tf_node =
  tf_parent :: string
  static_t_parent_child :: pose3
  has_static :: bool
  history :: "timed_pose list"
  max_hist :: nat

definition new_node :: tf_node where
  "new_node = \<lparr>tf_parent = '''', static_t_parent_child = pose3_identity, has_static = False, history = [], max_hist = 256\<rparr>"

type_synonym tf_buffer = "string \<rightharpoonup> tf_node"

definition try_emplace :: "string \<Rightarrow> tf_buffer \<Rightarrow> tf_buffer" where
  "try_emplace f b = (if b f = None then b(f \<mapsto> new_node) else b)"

definition node_at :: "tf_buffer \<Rightarrow> string \<Rightarrow> tf_node" where
  "node_at b f = (case b f of None \<Rightarrow> new_node | Some n \<Rightarrow> n)"

definition register_frame :: "string \<Rightarrow> string \<Rightarrow> tf_buffer \<Rightarrow> tf_buffer" where
  "register_frame par child b = try_emplace par (b(child \<mapsto> (node_at b child)\<lparr>tf_parent := par\<rparr>))"

definition set_static_transform :: "string \<Rightarrow> string \<Rightarrow> pose3 \<Rightarrow> tf_buffer \<Rightarrow> tf_buffer" where
  "set_static_transform par child t b =
     try_emplace par (b(child \<mapsto> (node_at b child)\<lparr>tf_parent := par, static_t_parent_child := t, has_static := True\<rparr>))"

definition upper_insert :: "timed_pose \<Rightarrow> timed_pose list \<Rightarrow> timed_pose list" where
  "upper_insert p h = takeWhile (\<lambda>q. \<not> stamp p < stamp q) h @ [p] @ dropWhile (\<lambda>q. \<not> stamp p < stamp q) h"

fun pop_front :: "nat \<Rightarrow> timed_pose list \<Rightarrow> timed_pose list" where
  "pop_front m [] = []"
| "pop_front m (p # h) = (if length (p # h) > m then pop_front m h else p # h)"

definition push_history :: "real \<Rightarrow> pose3 \<Rightarrow> tf_node \<Rightarrow> tf_node" where
  "push_history st t n =
     (let h = history n; p = \<lparr>stamp = st, t_parent_child = t\<rparr>;
          h1 = (if h \<noteq> [] \<and> st < stamp (last h) then upper_insert p h else h @ [p])
      in n\<lparr>history := pop_front (max_hist n) h1\<rparr>)"

definition push_dynamic :: "string \<Rightarrow> string \<Rightarrow> real \<Rightarrow> pose3 \<Rightarrow> tf_buffer \<Rightarrow> error + tf_buffer" where
  "push_dynamic par child st t b =
     (if st < 0 then Inl (make_error TRANSFORM ''Negative timestamp not allowed'' ''TfBuffer::push_dynamic'')
      else Inr (b(child \<mapsto> push_history st t ((node_at b child)\<lparr>tf_parent := par\<rparr>))))"

section \<open>Lookup\<close>

definition frame_not_found :: "string \<Rightarrow> error" where
  "frame_not_found f = make_error TRANSFORM (''Frame not found: '' @ f) ''TfBuffer::collect_chain''"

partial_function (option) chain_loop :: "tf_buffer \<Rightarrow> string \<Rightarrow> (string \<times> tf_node) list
    \<Rightarrow> (error + (string \<times> tf_node) list) option" where
  "chain_loop b cur_parent out =
     (if cur_parent = '''' then Some (Inr out)
      else case b cur_parent of
             None \<Rightarrow> Some (Inl (frame_not_found cur_parent))
           | Some n \<Rightarrow> chain_loop b (tf_parent n) (out @ [(cur_parent, n)]))"

definition collect_chain :: "tf_buffer \<Rightarrow> string \<Rightarrow> (error + (string \<times> tf_node) list) option" where
  "collect_chain b frame =
     (case b frame of
        None \<Rightarrow> Some (Inl (frame_not_found frame))
      | Some n \<Rightarrow> chain_loop b (tf_parent n) [(frame, n)])"

definition resolve_edge :: "real \<Rightarrow> tf_node \<Rightarrow> pose3" where
  "resolve_edge st n =
     (let h = history n
      in if h \<noteq> [] then
           (if st \<le> stamp (hd h) then t_parent_child (hd h)
            else if st \<ge> stamp (last h) then t_parent_child (last h)
            else let b = hd (dropWhile (\<lambda>q. \<not> st < stamp q) h); a = last (takeWhile (\<lambda>q. \<not> st < stamp q) h);
                     u = (st - stamp a) / (stamp b - stamp a)
                 in pose3_lerp (t_parent_child a) (t_parent_child b) u)
         else if has_static n then static_t_parent_child n
         else pose3_identity)"

fun common_prefix :: "(string \<times> tf_node) list \<Rightarrow> (string \<times> tf_node) list \<Rightarrow> nat" where
  "common_prefix (x # xs) (y # ys) = (if fst x = fst y then Suc (common_prefix xs ys) else 0)"
| "common_prefix _ _ = 0"

definition compose_edges :: "real \<Rightarrow> (string \<times> tf_node) list \<Rightarrow> pose3" where
  "compose_edges st es = fold (\<lambda>e t. pose3_compose t (resolve_edge st (snd e))) es pose3_identity"

definition tf_lookup :: "tf_buffer \<Rightarrow> string \<Rightarrow> string \<Rightarrow> real \<Rightarrow> (error + pose3) option" where
  "tf_lookup b target source st =
     (if target = source then Some (Inr pose3_identity)
      else case collect_chain b target of
             None \<Rightarrow> None
           | Some (Inl e) \<Rightarrow> Some (Inl (make_error_from e TRANSFORM
               (''TfBuffer::lookup >Error collecting target chain '' @ target)))
           | Some (Inr up_target) \<Rightarrow>
               (case collect_chain b source of
                  None \<Rightarrow> None
                | Some (Inl e) \<Rightarrow> Some (Inl (make_error_from e TRANSFORM
                    (''TfBuffer::lookup >Error collecting source chain '' @ source)))
                | Some (Inr up_source) \<Rightarrow>
                    let ut = rev up_target; us = rev up_source; i = common_prefix ut us
                    in if i = 0 then Some (Inl (make_error TRANSFORM ''Frames are in different transform trees''
                                      ''TfBuffer::lookup''))
                       else let split = i - 1;
                                t_lca_target = compose_edges st (drop (split + 1) ut);
                                t_lca_source = compose_edges st (drop (split + 1) us)
                            in Some (Inr (pose3_compose (pose3_inverse t_lca_target) t_lca_source))))"

definition tf_transform_point :: "tf_buffer \<Rightarrow> point3 \<Rightarrow> string \<Rightarrow> string \<Rightarrow> real \<Rightarrow> (error + point3) option" where
  "tf_transform_point b p target source st =
     map_option (map_sum id (\<lambda>t. pose3_apply t p)) (tf_lookup b target source st)"

definition tf_transform_vector :: "tf_buffer \<Rightarrow> vec3 \<Rightarrow> string \<Rightarrow> string \<Rightarrow> real \<Rightarrow> (error + vec3) option" where
  "tf_transform_vector b v target source st =
     map_option (map_sum id (\<lambda>t. apply_to_vector t v)) (tf_lookup b target source st)"

section \<open>Histories\<close>

definition sorted_history :: "timed_pose list \<Rightarrow> bool" where
  "sorted_history h \<longleftrightarrow> sorted (map stamp h)"

lemma pop_front_drop: "pop_front m h = drop (length h - m) h"
  by (induction h) (auto simp: Suc_diff_le not_less_eq)

lemma upper_insert_Cons:
  "upper_insert p (q # h) = (if stamp p < stamp q then p # q # h else q # upper_insert p h)"
  by (simp add: upper_insert_def)

lemma upper_insert_Nil [simp]: "upper_insert p [] = [p]"
  by (simp add: upper_insert_def)

lemma set_upper_insert: "set (upper_insert p h) = insert p (set h)"
  by (induction h) (auto simp: upper_insert_Cons)

lemma upper_insert_sorted: "sorted_history h \<Longrightarrow> sorted_history (upper_insert p h)"
proof (induction h)
  case (Cons q h)
  then have "sorted_history (upper_insert p h)" "\<forall>r\<in>set h. stamp q \<le> stamp r" by (auto simp: sorted_history_def)
  with Cons.prems show ?case
    by (auto simp: sorted_history_def upper_insert_Cons set_upper_insert)
qed (simp add: sorted_history_def upper_insert_def)

lemma sorted_le_last: "sorted_history h \<Longrightarrow> q \<in> set h \<Longrightarrow> stamp q \<le> stamp (last h)"
  by (induction h) (auto simp: sorted_history_def)

lemma push_history_ok:
  assumes "sorted_history (history n)"
  shows "sorted_history (history (push_history st t n))"
    "length (history (push_history st t n)) \<le> max_hist n"
    "set (history (push_history st t n)) \<subseteq> insert \<lparr>stamp = st, t_parent_child = t\<rparr> (set (history n))"
proof -
  let ?p = "\<lparr>stamp = st, t_parent_child = t\<rparr>"
  let ?h1 = "if history n \<noteq> [] \<and> st < stamp (last (history n)) then upper_insert ?p (history n) else history n @ [?p]"
  have le: "stamp q \<le> stamp (last (history n))" if "q \<in> set (history n)" for q
    using sorted_le_last[OF assms that] .
  have "sorted_history ?h1"
  proof (cases "history n \<noteq> [] \<and> st < stamp (last (history n))")
    case True
    then show ?thesis by (simp add: upper_insert_sorted assms)
  next
    case False
    then have "\<forall>q\<in>set (history n). stamp q \<le> st" using le by (cases "history n = []") fastforce+
    with False assms show ?thesis by (simp add: sorted_history_def sorted_append if_not_P)
  qed
  then have srt: "sorted (drop (length ?h1 - max_hist n) (map stamp ?h1))"
    unfolding sorted_history_def by (rule sorted_wrt_drop)
  have eq: "history (push_history st t n) = drop (length ?h1 - max_hist n) ?h1"
    by (cases n) (simp only: push_history_def Let_def pop_front_drop tf_node.simps)
  show "sorted_history (history (push_history st t n))"
    unfolding eq sorted_history_def using srt by (simp only: drop_map)
  show "length (history (push_history st t n)) \<le> max_hist n" unfolding eq by simp
  have "set ?h1 \<subseteq> insert ?p (set (history n))" by (simp add: set_upper_insert)
  then show "set (history (push_history st t n)) \<subseteq> insert ?p (set (history n))"
    unfolding eq by (meson order_trans set_drop_subset)
qed

section \<open>Well-formed buffers\<close>

text \<open>
  The frames form a forest (each parent is a frame of smaller rank), the edges are rigid motions and
  the histories sorted.
\<close>

definition node_ok :: "tf_node \<Rightarrow> bool" where
  "node_ok n \<longleftrightarrow> rigid (static_t_parent_child n) \<and> sorted_history (history n) \<and> length (history n) \<le> max_hist n \<and>
     (\<forall>p\<in>set (history n). rigid (t_parent_child p))"

definition ranked :: "(string \<Rightarrow> nat) \<Rightarrow> tf_buffer \<Rightarrow> bool" where
  "ranked r b \<longleftrightarrow> (\<forall>c n. b c = Some n \<longrightarrow> tf_parent n = '''' \<or> (tf_parent n \<in> dom b \<and> r (tf_parent n) < r c))"

definition tf_ok :: "tf_buffer \<Rightarrow> bool" where
  "tf_ok b \<longleftrightarrow> (\<exists>r. ranked r b) \<and> (\<forall>n\<in>ran b. node_ok n)"

lemma new_node_ok [simp]: "node_ok new_node"
  by (simp add: node_ok_def new_node_def sorted_history_def)

lemma node_at_ok: "tf_ok b \<Longrightarrow> node_ok (node_at b f)"
  by (auto simp: node_at_def tf_ok_def ran_def split: option.split)

text \<open>An edge is added for a new frame, or confirmed for a frame that has it already.\<close>

definition edge_ok :: "string \<Rightarrow> string \<Rightarrow> tf_buffer \<Rightarrow> bool" where
  "edge_ok par child b \<longleftrightarrow> par \<noteq> '''' \<and> par \<noteq> child \<and>
     (case b child of None \<Rightarrow> True | Some n \<Rightarrow> tf_parent n = par)"

lemma ranked_dom: "ranked r b \<Longrightarrow> b c = Some n \<Longrightarrow> tf_parent n \<noteq> '''' \<Longrightarrow> tf_parent n \<in> dom b"
  by (auto simp: ranked_def)

lemma add_edge_ranked:
  assumes r: "ranked r b" and e: "edge_ok par child b" and n: "tf_parent n = par"
  shows "\<exists>r'. ranked r' (try_emplace par (b(child \<mapsto> n)))"
proof (cases "b child")
  case (Some m)
  have m: "tf_parent m = par" "par \<noteq> ''''" using e Some by (auto simp: edge_ok_def)
  with r Some have d: "par \<in> dom b" "r par < r child" by (auto simp: ranked_def)
  then have "try_emplace par (b(child \<mapsto> n)) = b(child \<mapsto> n)" by (auto simp: try_emplace_def)
  moreover have "ranked r (b(child \<mapsto> n))"
    using r d n unfolding ranked_def by auto
  ultimately show ?thesis by auto
next
  case None
  define r' where "r' = (\<lambda>f. if f = child then Suc (if par \<in> dom b then r par else 0) else if f \<in> dom b then r f else 0)"
  have pc: "par \<noteq> child" "par \<noteq> ''''" using e by (auto simp: edge_ok_def)
  have old: "tf_parent m = '''' \<or> (tf_parent m \<in> dom b \<and> r' (tf_parent m) < r' c)" if "b c = Some m" for c m
  proof -
    have "c \<noteq> child" using that None by auto
    moreover have "tf_parent m = '''' \<or> (tf_parent m \<in> dom b \<and> r (tf_parent m) < r c)" using r that by (auto simp: ranked_def)
    moreover have "tf_parent m \<noteq> child" if "tf_parent m \<in> dom b" using that None by auto
    ultimately show ?thesis using that by (auto simp: r'_def)
  qed
  have "ranked r' (try_emplace par (b(child \<mapsto> n)))"
    unfolding ranked_def
  proof (intro allI impI)
    fix c m assume c: "try_emplace par (b(child \<mapsto> n)) c = Some m"
    then consider "c = child" "m = n" | "c \<noteq> child" "b c = Some m" | "c = par" "m = new_node"
      by (auto simp: try_emplace_def split: if_splits)
    then show "tf_parent m = '''' \<or>
        (tf_parent m \<in> dom (try_emplace par (b(child \<mapsto> n))) \<and> r' (tf_parent m) < r' c)"
    proof cases
      case 1
      then show ?thesis using n pc by (auto simp: try_emplace_def r'_def)
    next
      case 2
      then show ?thesis using old[OF 2(2)] by (auto simp: try_emplace_def)
    next
      case 3
      then show ?thesis by (simp add: new_node_def)
    qed
  qed
  then show ?thesis by blast
qed

lemma add_edge_ok:
  assumes "tf_ok b" "edge_ok par child b" "tf_parent n = par" "node_ok n"
  shows "tf_ok (try_emplace par (b(child \<mapsto> n)))"
proof -
  have "node_ok m" if "m \<in> ran (try_emplace par (b(child \<mapsto> n)))" for m
    using that assms(1,4) by (auto simp: tf_ok_def ran_def try_emplace_def split: if_splits)
  with assms(1-3) add_edge_ranked show ?thesis by (auto simp: tf_ok_def)
qed

text \<open>A pushed edge does not create the parent; it must be there.\<close>

datatype tf_op =
  Register string string
| SetStatic string string pose3
| PushDynamic string string real pose3

fun tf_apply :: "tf_op \<Rightarrow> tf_buffer \<Rightarrow> tf_buffer" where
  "tf_apply (Register par child) b = register_frame par child b"
| "tf_apply (SetStatic par child t) b = set_static_transform par child t b"
| "tf_apply (PushDynamic par child st t) b = (case push_dynamic par child st t b of Inl _ \<Rightarrow> b | Inr b' \<Rightarrow> b')"

fun tf_op_ok :: "tf_op \<Rightarrow> tf_buffer \<Rightarrow> bool" where
  "tf_op_ok (Register par child) b = edge_ok par child b"
| "tf_op_ok (SetStatic par child t) b = (edge_ok par child b \<and> rigid t)"
| "tf_op_ok (PushDynamic par child st t) b = (edge_ok par child b \<and> par \<in> dom b \<and> rigid t)"

lemma push_history_node_ok:
  assumes "node_ok n" "rigid t" shows "node_ok (push_history st t n)"
  using assms push_history_ok[of n st t] by (fastforce simp: node_ok_def push_history_def Let_def)

lemma node_ok_parent: "node_ok n \<Longrightarrow> node_ok (n\<lparr>tf_parent := p\<rparr>)"
  by (simp add: node_ok_def)

lemma tf_apply_ok: "tf_ok b \<Longrightarrow> tf_op_ok ev b \<Longrightarrow> tf_ok (tf_apply ev b)"
proof (cases ev)
  case (Register par child)
  assume "tf_ok b" "tf_op_ok ev b"
  then show ?thesis
    unfolding Register tf_apply.simps register_frame_def
    by (intro add_edge_ok node_ok_parent node_at_ok) (simp_all add: Register)
next
  case (SetStatic par child t)
  assume b: "tf_ok b" "tf_op_ok ev b"
  with node_at_ok[OF b(1), of child]
  have "node_ok ((node_at b child)\<lparr>tf_parent := par, static_t_parent_child := t, has_static := True\<rparr>)"
    by (simp add: node_ok_def SetStatic)
  with b show ?thesis
    unfolding SetStatic tf_apply.simps set_static_transform_def
    by (intro add_edge_ok) (simp_all add: SetStatic)
next
  case (PushDynamic par child st t)
  assume b: "tf_ok b" "tf_op_ok ev b"
  let ?n = "push_history st t ((node_at b child)\<lparr>tf_parent := par\<rparr>)"
  have "par \<in> dom b" using b PushDynamic by simp
  then have same: "try_emplace par (b(child \<mapsto> ?n)) = b(child \<mapsto> ?n)" by (auto simp: try_emplace_def)
  have "tf_ok (try_emplace par (b(child \<mapsto> ?n)))"
    using b node_at_ok[OF b(1)]
    by (intro add_edge_ok push_history_node_ok node_ok_parent) (simp_all add: PushDynamic push_history_def Let_def)
  with b(1) show ?thesis by (simp add: PushDynamic push_dynamic_def same)
qed

fun tf_run :: "tf_op list \<Rightarrow> tf_buffer \<Rightarrow> tf_buffer" where
  "tf_run [] b = b"
| "tf_run (ev # evs) b = tf_run evs (tf_apply ev b)"

fun tf_run_ok :: "tf_op list \<Rightarrow> tf_buffer \<Rightarrow> bool" where
  "tf_run_ok [] b = True"
| "tf_run_ok (ev # evs) b = (tf_op_ok ev b \<and> tf_run_ok evs (tf_apply ev b))"

lemma tf_run_keeps_ok: "tf_ok b \<Longrightarrow> tf_run_ok evs b \<Longrightarrow> tf_ok (tf_run evs b)"
  by (induction evs arbitrary: b) (simp_all add: tf_apply_ok)

lemma tf_ok_empty [simp]: "tf_ok Map.empty"
  by (simp add: tf_ok_def ranked_def)

section \<open>The pose of a frame\<close>

text \<open>What the forest means: the root of a frame and its pose in the root, edge by edge.\<close>

inductive frame_pose :: "tf_buffer \<Rightarrow> real \<Rightarrow> string \<Rightarrow> string \<Rightarrow> pose3 \<Rightarrow> bool" for b st where
  at_root: "b f = Some n \<Longrightarrow> tf_parent n = '''' \<Longrightarrow> frame_pose b st f f pose3_identity"
| at_child: "b f = Some n \<Longrightarrow> tf_parent n \<noteq> '''' \<Longrightarrow> frame_pose b st (tf_parent n) r t \<Longrightarrow>
    frame_pose b st f r (pose3_compose t (resolve_edge st n))"

inductive_cases frame_poseE: "frame_pose b st f r t"

lemma frame_pose_unique:
  "frame_pose b st f r t \<Longrightarrow> frame_pose b st f r' t' \<Longrightarrow> r' = r \<and> t' = t"
proof (induction arbitrary: r' t' rule: frame_pose.induct)
  case (at_root f n)
  from at_root(3) show ?case using at_root(1,2) by (cases rule: frame_poseE) auto
next
  case (at_child f n r t)
  from at_child(5) show ?case using at_child(1,2) at_child.IH by (cases rule: frame_poseE) auto
qed

lemma frame_pose_dom: "frame_pose b st f r t \<Longrightarrow> f \<in> dom b"
  by (cases rule: frame_poseE) auto

section \<open>Chains\<close>

fun is_chain :: "tf_buffer \<Rightarrow> string \<Rightarrow> (string \<times> tf_node) list \<Rightarrow> bool" where
  "is_chain b c [] = (c = '''')"
| "is_chain b c (e # es) = (fst e = c \<and> b c = Some (snd e) \<and> is_chain b (tf_parent (snd e)) es \<and>
     (es \<noteq> [] \<longrightarrow> tf_parent (snd e) \<noteq> ''''))"

lemma chain_loop_chain:
  assumes "ranked r b" "c = '''' \<or> c \<in> dom b"
  shows "\<exists>es. chain_loop b c out = Some (Inr (out @ es)) \<and> is_chain b c es \<and> (c = '''' \<longrightarrow> es = [])"
  using assms(2)
proof (induction "r c" arbitrary: c out rule: less_induct)
  case less
  show ?case
  proof (cases "c = ''''")
    case True
    then show ?thesis by (simp add: chain_loop.simps[of b "''''"])
  next
    case False
    with less.prems obtain n where n: "b c = Some n" by auto
    show ?thesis
    proof (cases "tf_parent n = ''''")
      case True
      then show ?thesis using False n
        by (intro exI[of _ "[(c, n)]"]) (simp add: chain_loop.simps[of b c] chain_loop.simps[of b "''''"])
    next
      case p: False
      with assms(1) n have "tf_parent n \<in> dom b" "r (tf_parent n) < r c" by (auto simp: ranked_def)
      with less.hyps[of "tf_parent n" "out @ [(c, n)]"] obtain es where
        es: "chain_loop b (tf_parent n) (out @ [(c, n)]) = Some (Inr ((out @ [(c, n)]) @ es))" "is_chain b (tf_parent n) es"
        by blast
      then show ?thesis using False n p
        by (intro exI[of _ "(c, n) # es"]) (simp add: chain_loop.simps[of b c])
    qed
  qed
qed

lemma collect_chain_ok:
  assumes "ranked r b" "b f = Some n"
  shows "\<exists>es. collect_chain b f = Some (Inr ((f, n) # es)) \<and> is_chain b f ((f, n) # es)"
proof -
  have "tf_parent n = '''' \<or> tf_parent n \<in> dom b" using assms by (auto simp: ranked_def)
  from chain_loop_chain[OF assms(1) this, of "[(f, n)]"] obtain es where
    "chain_loop b (tf_parent n) [(f, n)] = Some (Inr ([(f, n)] @ es))" "is_chain b (tf_parent n) es"
    "tf_parent n = '''' \<longrightarrow> es = []" by blast
  then show ?thesis using assms(2) by (auto simp: collect_chain_def)
qed

lemma compose_edges_snoc: "compose_edges st (es @ [e]) = pose3_compose (compose_edges st es) (resolve_edge st (snd e))"
  by (simp add: compose_edges_def)

lemma chain_frame_pose:
  "is_chain b f es \<Longrightarrow> es \<noteq> [] \<Longrightarrow> frame_pose b st f (fst (last es)) (compose_edges st (tl (rev es)))"
proof (induction es arbitrary: f)
  case (Cons e es)
  show ?case
  proof (cases "es = []")
    case True
    with Cons.prems show ?thesis
      using at_root[of b f "snd e" st] by (simp add: compose_edges_def)
  next
    case False
    with Cons.prems have "is_chain b (tf_parent (snd e)) es" "b f = Some (snd e)" "tf_parent (snd e) \<noteq> ''''" by auto
    with Cons.IH[OF this(1) False] False
    show ?thesis using at_child[of b f "snd e" st] by (simp add: compose_edges_snoc)
  qed
qed simp

lemma resolve_edge_rigid: "node_ok n \<Longrightarrow> rigid (resolve_edge st n)"
  using hd_in_set[of "history n"] last_in_set[of "history n"]
  by (auto simp: resolve_edge_def node_ok_def Let_def)

lemma fold_compose_apply:
  assumes "\<forall>e\<in>set es. node_ok (snd e)" "rigid t0"
  shows "rigid (fold (\<lambda>e t. pose3_compose t (resolve_edge st (snd e))) es t0) \<and>
    pose3_apply (fold (\<lambda>e t. pose3_compose t (resolve_edge st (snd e))) es t0) x = pose3_apply t0 (pose3_apply (compose_edges st es) x)"
  using assms
proof (induction es arbitrary: t0)
  case (Cons e es)
  let ?t = "pose3_compose t0 (resolve_edge st (snd e))" and ?i = "pose3_compose pose3_identity (resolve_edge st (snd e))"
  have r: "rigid (resolve_edge st (snd e))" using Cons.prems by (simp add: resolve_edge_rigid)
  have ok: "\<forall>e\<in>set es. node_ok (snd e)" using Cons.prems by simp
  have "pose3_apply (compose_edges st (e # es)) x = pose3_apply ?i (pose3_apply (compose_edges st es) x)"
    using Cons.IH[OF ok, of ?i] by (simp add: compose_edges_def[of st "e # es"])
  with Cons.IH[OF ok, of ?t] Cons.prems r show ?case by (simp add: apply_compose)
qed (simp add: compose_edges_def)

lemma compose_edges_rigid: "\<forall>e\<in>set es. node_ok (snd e) \<Longrightarrow> rigid (compose_edges st es)"
  using fold_compose_apply[of es pose3_identity st] by (simp add: compose_edges_def)

lemma compose_edges_append:
  assumes "\<forall>e\<in>set (xs @ ys). node_ok (snd e)"
  shows "pose3_apply (compose_edges st (xs @ ys)) a = pose3_apply (compose_edges st xs) (pose3_apply (compose_edges st ys) a)"
  using fold_compose_apply[of ys "compose_edges st xs" st a] assms compose_edges_rigid[of xs st]
  by (simp add: compose_edges_def)

section \<open>The common part\<close>

lemma is_chain_nodes: "is_chain b f es \<Longrightarrow> e \<in> set es \<Longrightarrow> b (fst e) = Some (snd e)"
  by (induction b f es rule: is_chain.induct) auto

lemma common_prefix_le: "common_prefix xs ys \<le> length xs" "common_prefix xs ys \<le> length ys"
  by (induction xs ys rule: common_prefix.induct) auto

lemma common_prefix_take:
  assumes "\<forall>e\<in>set xs. b (fst e) = Some (snd e)" "\<forall>e\<in>set ys. b (fst e) = Some (snd e)"
  shows "take (common_prefix xs ys) xs = take (common_prefix xs ys) ys"
  using assms by (induction xs ys rule: common_prefix.induct) (auto simp: prod_eq_iff)

lemma common_prefix_0: "xs \<noteq> [] \<Longrightarrow> ys \<noteq> [] \<Longrightarrow> common_prefix xs ys = 0 \<Longrightarrow> fst (hd xs) \<noteq> fst (hd ys)"
  by (cases xs; cases ys) (auto split: if_splits)

lemma split_at_common:
  assumes "0 < i" "i \<le> length xs"
  shows "tl xs = tl (take i xs) @ drop i xs"
  using assms by (cases xs; cases i) auto

lemma common_root:
  assumes "0 < common_prefix xs ys" "take (common_prefix xs ys) xs = take (common_prefix xs ys) ys"
  shows "hd xs = hd ys"
  using assms by (cases xs; cases ys) (auto split: if_splits)

section \<open>Lookups\<close>

lemma set_tl: "set (tl xs) \<subseteq> set xs"
  by (cases xs) auto

lemma tf_lookup_spec:
  assumes ok: "tf_ok b" and ne: "target \<noteq> source"
  shows "\<exists>res. tf_lookup b target source st = Some res \<and>
    (case res of
       Inr t \<Rightarrow> rigid t \<and> (\<exists>root p q. frame_pose b st target root p \<and> frame_pose b st source root q \<and>
                (\<forall>x. pose3_apply p (pose3_apply t x) = pose3_apply q x))
     | Inl e \<Rightarrow> target \<notin> dom b \<or> source \<notin> dom b \<or>
                \<not> (\<exists>root p q. frame_pose b st target root p \<and> frame_pose b st source root q))"
proof -
  obtain r where r: "ranked r b" using ok by (auto simp: tf_ok_def)
  show ?thesis
  proof (cases "b target")
    case None
    then show ?thesis using ne by (auto simp: tf_lookup_def collect_chain_def)
  next
    case (Some n)
    from collect_chain_ok[OF r Some] obtain et where
      et: "collect_chain b target = Some (Inr et)" "is_chain b target et" "et \<noteq> []" by blast
    show ?thesis
    proof (cases "b source")
      case None
      then show ?thesis using ne et by (auto simp: tf_lookup_def collect_chain_def[of b source])
    next
      case (Some m)
      from collect_chain_ok[OF r Some] obtain es where
        es: "collect_chain b source = Some (Inr es)" "is_chain b source es" "es \<noteq> []" by blast
      let ?i = "common_prefix (rev et) (rev es)"
      note pt = chain_frame_pose[OF et(2,3), of st] and ps = chain_frame_pose[OF es(2,3), of st]
      have nodes: "\<forall>e\<in>set (rev et). b (fst e) = Some (snd e)" "\<forall>e\<in>set (rev es). b (fst e) = Some (snd e)"
        using is_chain_nodes et(2) es(2) by auto
      then have okn: "\<forall>e\<in>set (rev et). node_ok (snd e)" "\<forall>e\<in>set (rev es). node_ok (snd e)"
        using ok unfolding tf_ok_def by (meson ranI)+
      show ?thesis
      proof (cases "?i = 0")
        case True
        from common_prefix_0[OF _ _ this] et(3) es(3) have "fst (last et) \<noteq> fst (last es)" by (simp add: hd_rev)
        with pt ps have "\<not> (\<exists>root p q. frame_pose b st target root p \<and> frame_pose b st source root q)"
          by (metis frame_pose_unique)
        with True show ?thesis using ne et(1) es(1) by (simp add: tf_lookup_def Let_def)
      next
        case False
        let ?ct = "compose_edges st (drop ?i (rev et))" and ?cs = "compose_edges st (drop ?i (rev es))"
        let ?P = "compose_edges st (tl (take ?i (rev et)))"
        have res: "tf_lookup b target source st = Some (Inr (pose3_compose (pose3_inverse ?ct) ?cs))"
          using False ne et(1) es(1) by (simp add: tf_lookup_def Let_def)
        note tk = common_prefix_take[OF nodes]
        have root: "fst (last et) = fst (last es)"
          using common_root[OF _ tk] False et(3) es(3) by (simp add: hd_rev)
        have dr: "rigid ?ct" "rigid ?cs"
          using okn by (intro compose_edges_rigid, meson in_set_dropD)+
        have le: "?i \<le> length (rev et)" "?i \<le> length (rev es)" by (rule common_prefix_le)+
        have "tl (rev et) = tl (take ?i (rev et)) @ drop ?i (rev et)" "tl (rev es) = tl (take ?i (rev es)) @ drop ?i (rev es)"
          using split_at_common[OF _ le(1)] split_at_common[OF _ le(2)] False by blast+
        note tlt = this(1) this(2)[folded tk]
        have ok2: "\<forall>e\<in>set (tl (take ?i (rev et)) @ drop ?i (rev et)). node_ok (snd e)"
          "\<forall>e\<in>set (tl (take ?i (rev et)) @ drop ?i (rev es)). node_ok (snd e)"
          unfolding tlt[symmetric] using okn set_tl[of "rev et"] set_tl[of "rev es"] by blast+
        have "pose3_apply (compose_edges st (tl (rev et))) (pose3_apply (pose3_compose (pose3_inverse ?ct) ?cs) x) =
            pose3_apply (compose_edges st (tl (rev es))) x" for x
          unfolding tlt compose_edges_append[OF ok2(1)] compose_edges_append[OF ok2(2)]
          using dr by (simp add: apply_compose apply_inverse)
        with pt ps root show ?thesis unfolding res by auto
      qed
    qed
  qed
qed

lemma tf_lookup_cycle:
  assumes "c \<in> C" "\<forall>f\<in>C. f \<noteq> '''' \<and> (\<exists>n. b f = Some n \<and> tf_parent n \<in> C)"
  shows "chain_loop b c out = None"
proof -
  have "b' = b \<longrightarrow> c' \<notin> C" if "chain_loop b' c' out' = Some y" for b' c' out' y
  proof (rule chain_loop.raw_induct[OF _ that, of "\<lambda>b' c' out' y. b' = b \<longrightarrow> c' \<notin> C"])
    fix f b' c' out' y
    assume IH: "\<And>b' c' out' y. f b' c' out' = Some y \<Longrightarrow> b' = b \<longrightarrow> c' \<notin> C"
      and run: "(if c' = '''' then Some (Inr out') else case b' c' of None \<Rightarrow> Some (Inl (frame_not_found c'))
         | Some n \<Rightarrow> f b' (tf_parent n) (out' @ [(c', n)])) = Some y"
    show "b' = b \<longrightarrow> c' \<notin> C"
    proof
      assume "b' = b"
      show "c' \<notin> C"
      proof
        assume "c' \<in> C"
        with assms(2) obtain n where "c' \<noteq> ''''" "b c' = Some n" "tf_parent n \<in> C" by blast
        with run \<open>b' = b\<close> have "f b (tf_parent n) (out' @ [(c', n)]) = Some y" by simp
        with IH \<open>tf_parent n \<in> C\<close> show False by blast
      qed
    qed
  qed
  with assms(1) show ?thesis by (cases "chain_loop b c out") auto
qed


section \<open>Properties\<close>


definition shift_x :: "real \<Rightarrow> pose3" where
  "shift_x d = \<lparr>p3_t = pt_3 d 0 0, p3_q = quat 1 0 0 0\<rparr>"

definition demo_frames :: "tf_op list" where
  "demo_frames = [Register ''map'' ''base'', PushDynamic ''map'' ''base'' 1 (shift_x 3), SetStatic ''base'' ''lidar'' (shift_x 1)]"


text \<open>Two frames that are each other's parents: the lookup does not return.\<close>

lemma tf_cycle_diverges:
  "tf_lookup (register_frame ''b'' ''a'' (register_frame ''a'' ''b'' Map.empty)) ''a'' ''b'' st = None"
proof -
  let ?b = "register_frame ''b'' ''a'' (register_frame ''a'' ''b'' Map.empty)"
  have a: "?b ''a'' = Some (new_node\<lparr>tf_parent := ''b''\<rparr>)" and b: "?b ''b'' = Some (new_node\<lparr>tf_parent := ''a''\<rparr>)"
    by (simp_all add: register_frame_def try_emplace_def node_at_def)
  have "chain_loop ?b ''b'' out = None" for out
    by (rule tf_lookup_cycle[of _ "{''a'', ''b''}"]) (use a b in auto)
  with a show ?thesis by (simp add: tf_lookup_def collect_chain_def)
qed

end
