(* ===== verification/Sensors.thy ===== *)
theory Sensors
  imports RayCast TF
begin

text \<open>
  The range sensors: their configurations (\<^verbatim>\<open>core/sensors/sensor_models.hpp\<close>), the
  rays they cast (the generators of \<^verbatim>\<open>collision/ray_casting.cpp\<close>), the scheduler with
  its latency (\<^verbatim>\<open>sim/sensors/sensor_base.cpp\<close>) and the scan of \<^verbatim>\<open>lidar_2d.cpp\<close>,
  \<^verbatim>\<open>lidar_3d.cpp\<close> and \<^verbatim>\<open>depth_camera.cpp\<close>, which differ in the generator only. The
  random numbers are two tapes, one of uniform and one of standard normal draws.
\<close>

section \<open>Configurations\<close>

record sensor_base =
  sb_id :: string
  frame_id :: string
  pose_rel_base :: pose3
  min_range :: real
  max_range :: real
  noise_std :: real
  dropout_prob :: real
  update_hz :: real
  latency_s :: real

record depth_camera =
  cam_base :: sensor_base
  fx :: real
  fy :: real
  cx :: real
  cy :: real
  width :: nat
  height :: nat
  near_z :: real
  far_z :: real

record lidar_2d =
  l2_base :: sensor_base
  fov :: real
  l2_angular_res :: real

record lidar_3d =
  l3_base :: sensor_base
  hfov :: real
  l3_angular_res :: real
  vfov :: real
  num_rings :: nat

datatype sensor_config = DepthCamera depth_camera | Lidar2D lidar_2d | Lidar3D lidar_3d

fun base_config :: "sensor_config \<Rightarrow> sensor_base" where
  "base_config (DepthCamera c) = cam_base c"
| "base_config (Lidar2D c) = l2_base c"
| "base_config (Lidar3D c) = l3_base c"

section \<open>Rays\<close>

definition sensor_ray :: "pose3 \<Rightarrow> sensor_base \<Rightarrow> vec3 \<Rightarrow> ray_request" where
  "sensor_ray pose b dir =
     \<lparr>ray = \<lparr>ray_origin = p3_t pose, direction = apply_to_vector pose dir\<rparr>, t_min = min_range b, t_max = max_range b\<rparr>"

definition pixel_direction :: "depth_camera \<Rightarrow> nat \<Rightarrow> nat \<Rightarrow> vec3" where
  "pixel_direction cam u v =
     (let x_cam = (real u - cx cam) / fx cam; y_cam = (real v - cy cam) / fy cam; z_cam = 1;
          dir_cam = vec_3 x_cam y_cam z_cam; len = vec3_length dir_cam
      in if len > 1 / 1000000000 then vec3_div dir_cam len else dir_cam)"

definition generate_depth_camera_rays :: "pose3 \<Rightarrow> depth_camera \<Rightarrow> ray_request list" where
  "generate_depth_camera_rays pose cam =
     concat (map (\<lambda>v. map (\<lambda>u. sensor_ray pose (cam_base cam) (pixel_direction cam u v)) [0..<width cam]) [0..<height cam])"

definition generate_lidar_2d_rays :: "pose3 \<Rightarrow> lidar_2d \<Rightarrow> ray_request list" where
  "generate_lidar_2d_rays pose lidar =
     (let num_rays = nat \<lceil>fov lidar / l2_angular_res lidar\<rceil>; start_angle = - fov lidar / 2
      in map (\<lambda>i. let angle_rel = start_angle + real i * l2_angular_res lidar
                  in sensor_ray pose (l2_base lidar) (vec_3 (cos angle_rel) (sin angle_rel) 0)) [0..<num_rays])"

definition generate_lidar_3d_rays :: "pose3 \<Rightarrow> lidar_3d \<Rightarrow> ray_request list" where
  "generate_lidar_3d_rays pose lidar =
     (let num_azimuth = nat \<lceil>hfov lidar / l3_angular_res lidar\<rceil>;
          start_azimuth = - hfov lidar / 2; start_elevation = - vfov lidar / 2;
          elevation_step = (if num_rings lidar > 1 then vfov lidar / (real (num_rings lidar) - 1) else 0)
      in concat (map (\<lambda>ring. let elevation = start_elevation + real ring * elevation_step
           in map (\<lambda>i. let azimuth_rel = start_azimuth + real i * l3_angular_res lidar; cos_elev = cos elevation
                       in sensor_ray pose (l3_base lidar) (vec_3 (cos_elev * cos azimuth_rel) (cos_elev * sin azimuth_rel) (sin elevation)))
                [0..<num_azimuth]) [0..<num_rings lidar]))"

fun generate_rays :: "pose3 \<Rightarrow> sensor_config \<Rightarrow> ray_request list" where
  "generate_rays pose (DepthCamera c) = generate_depth_camera_rays pose c"
| "generate_rays pose (Lidar2D c) = generate_lidar_2d_rays pose c"
| "generate_rays pose (Lidar3D c) = generate_lidar_3d_rays pose c"

section \<open>The scheduler\<close>

record sensor =
  config :: sensor_config
  time_since_last_update :: real
  update_period :: real
  pending_data_time :: real
  has_data :: bool
  has_pending_data :: bool
  cached_cloud :: "point3 list option"
  pending_cloud :: "point3 list option"
  sensor_tapes :: "rng \<times> rng"

definition make_sensor :: "sensor_config \<Rightarrow> rng \<times> rng \<Rightarrow> sensor" where
  "make_sensor cfg tapes = \<lparr>config = cfg, time_since_last_update = 0, update_period = 1 / update_hz (base_config cfg),
     pending_data_time = - 1, has_data = False, has_pending_data = False, cached_cloud = None, pending_cloud = None,
     sensor_tapes = tapes\<rparr>"

definition publish_pending :: "real \<Rightarrow> sensor \<Rightarrow> sensor" where
  "publish_pending current_time s =
     (if has_pending_data s \<and> current_time \<ge> pending_data_time s
      then s\<lparr>cached_cloud := pending_cloud s, has_data := True, has_pending_data := False, pending_cloud := None\<rparr>
      else s)"

definition should_update :: "real \<Rightarrow> real \<Rightarrow> sensor \<Rightarrow> bool \<times> sensor" where
  "should_update dt current_time s0 =
     (let s = publish_pending current_time (s0\<lparr>time_since_last_update := time_since_last_update s0 + dt\<rparr>)
      in if time_since_last_update s \<ge> update_period s then (True, s\<lparr>time_since_last_update := 0\<rparr>) else (False, s))"

definition set_pending_data :: "real \<Rightarrow> sensor \<Rightarrow> sensor" where
  "set_pending_data t s = s\<lparr>pending_data_time := t, has_pending_data := True\<rparr>"

section \<open>The scan\<close>

definition in_range :: "sensor_base \<Rightarrow> real \<Rightarrow> bool" where
  "in_range b d \<longleftrightarrow> d \<ge> min_range b \<and> d \<le> max_range b"

text \<open>One hit with noise or dropout; the draws are taken in the order of the code.\<close>

definition process_hit :: "sensor_base \<Rightarrow> ray_hit \<Rightarrow> point3 list \<times> rng \<times> rng \<Rightarrow> point3 list \<times> rng \<times> rng" where
  "process_hit b h = (\<lambda>(cloud, uni, gauss).
     if \<not> hit h then (cloud, uni, gauss)
     else let has_dropout = dropout_prob b > 0; has_noise = noise_std b > 0;
              (dropped, uni) = (if has_dropout then (shd uni < dropout_prob b, stl uni) else (False, uni))
          in if dropped then (cloud, uni, gauss)
             else let (d, gauss) = (if has_noise then (hit_distance h + noise_std b * shd gauss, stl gauss)
                                        else (hit_distance h, gauss))
                  in (if in_range b d then cloud @ [position h] else cloud, uni, gauss))"

definition process_hits :: "sensor_base \<Rightarrow> ray_hit list \<Rightarrow> rng \<times> rng \<Rightarrow> point3 list \<times> rng \<times> rng" where
  "process_hits b hits tapes =
     (if \<not> noise_std b > 0 \<and> \<not> dropout_prob b > 0
      then (map position (filter (\<lambda>h. hit h \<and> in_range b (hit_distance h)) hits), tapes)
      else fold (process_hit b) hits ([], tapes))"

text \<open>What the sensor is given: the trees, the pool (its size and its pending tasks), the frames.\<close>

record sensor_env =
  scene_trees :: "tlas_pair option"
  thread_pool :: "(nat \<times> nat) option"
  tf_frames :: "tf_buffer option"

definition sensor_not_ready :: error where
  "sensor_not_ready = make_error SIM ''Scene trees or thread pool or tf buffer not initialized'' ''Sensor::update''"

definition scan :: "sensor_env \<Rightarrow> real \<Rightarrow> sensor \<Rightarrow> (error + sensor) option" where
  "scan env current_time s =
     (case (scene_trees env, thread_pool env, tf_frames env) of
        (Some trees, Some (pool_size, pending), Some tf) \<Rightarrow>
          (case tf_lookup tf ''world'' (frame_id (base_config (config s))) current_time of
             None \<Rightarrow> None
           | Some (Inl e) \<Rightarrow> Some (Inl e)
           | Some (Inr sensor_pose_world) \<Rightarrow>
               let rays = generate_rays sensor_pose_world (config s)
               in (case Option.bind (trace_rays rays (replicate (length rays) None) trees pool_size pending) those of
                     None \<Rightarrow> None
                   | Some hits \<Rightarrow>
                       let (cloud, tapes) = process_hits (base_config (config s)) hits (sensor_tapes s)
                       in Some (Inr (set_pending_data (current_time + latency_s (base_config (config s)))
                            (s\<lparr>pending_cloud := Some cloud, sensor_tapes := tapes\<rparr>)))))
      | _ \<Rightarrow> Some (Inl sensor_not_ready))"

definition sensor_update :: "sensor_env \<Rightarrow> real \<Rightarrow> real \<Rightarrow> sensor \<Rightarrow> ((error + unit) \<times> sensor) option" where
  "sensor_update env dt current_time s0 =
     (let (due, s) = should_update dt current_time s0
      in if \<not> due then Some (Inr (), s)
         else case scan env current_time s of
                None \<Rightarrow> None
              | Some (Inl e) \<Rightarrow> Some (Inl e, s)
              | Some (Inr s') \<Rightarrow> Some (Inr (), s'))"

section \<open>The rays\<close>

definition sensor_ray_ok :: "pose3 \<Rightarrow> sensor_base \<Rightarrow> ray_request \<Rightarrow> bool" where
  "sensor_ray_ok pose b r \<longleftrightarrow> ray_origin (ray r) = p3_t pose \<and> vec3_dot (direction (ray r)) (direction (ray r)) = 1 \<and>
     t_min r = min_range b \<and> t_max r = max_range b"

lemma sensor_ray_unit:
  assumes "rigid pose" "vec3_dot d d = 1" shows "sensor_ray_ok pose b (sensor_ray pose b d)"
  using assms by (simp add: sensor_ray_ok_def sensor_ray_def apply_to_vector_def rotate_length)

lemma pixel_direction_unit: "vec3_dot (pixel_direction cam u v) (pixel_direction cam u v) = 1"
proof -
  define d where "d = vec_3 ((real u - cx cam) / fx cam) ((real v - cy cam) / fy cam) 1"
  have big: "1 \<le> vec3_dot d d" by (simp add: d_def vec3_dot_def)
  then have l: "1 \<le> vec3_length d" by (simp add: vec3_length_def)
  then have p: "pixel_direction cam u v = vec3_div d (vec3_length d)"
    by (simp add: pixel_direction_def Let_def flip: d_def)
  have "vec3_length d * vec3_length d = vec3_dot d d" by (simp add: vec3_length_def vec3_dot_def)
  moreover have "vec3_dot (vec3_div d (vec3_length d)) (vec3_div d (vec3_length d)) = vec3_dot d d / (vec3_length d * vec3_length d)"
    by (simp add: vec3_dot_def vec3_div_def add_divide_distrib)
  ultimately show ?thesis using big unfolding p by simp
qed

lemma planar_unit: "vec3_dot (vec_3 (cos a) (sin a) 0) (vec_3 (cos a) (sin a) 0) = 1"
  by (simp add: vec3_dot_def cos_sin_one)

lemma spherical_unit:
  "vec3_dot (vec_3 (cos e * cos a) (cos e * sin a) (sin e)) (vec_3 (cos e * cos a) (cos e * sin a) (sin e)) = 1"
proof -
  have "x * y * (x * y) + x * z * (x * z) + w * w = x * x * (y * y + z * z) + w * w" for x y z w :: real
    by (simp add: algebra_simps)
  then have "vec3_dot (vec_3 (cos e * cos a) (cos e * sin a) (sin e)) (vec_3 (cos e * cos a) (cos e * sin a) (sin e)) =
      cos e * cos e * (cos a * cos a + sin a * sin a) + sin e * sin e"
    by (simp only: vec3_dot_def vec3.simps)
  also have "\<dots> = cos e * cos e + sin e * sin e" by (simp only: cos_sin_one mult_1_right)
  finally show ?thesis by (simp only: cos_sin_one)
qed

lemma generate_rays_ok:
  assumes "rigid pose" shows "\<forall>r\<in>set (generate_rays pose cfg). sensor_ray_ok pose (base_config cfg) r"
  using assms sensor_ray_unit[OF assms]
  by (cases cfg) (auto simp: generate_depth_camera_rays_def generate_lidar_2d_rays_def generate_lidar_3d_rays_def Let_def
      pixel_direction_unit planar_unit spherical_unit)

section \<open>The cloud\<close>

lemma process_hits_positions:
  "set (fst (process_hits b hits tapes)) \<subseteq> position ` {h \<in> set hits. hit h}"
proof -
  have "set (fst (fold (process_hit b) hits st)) \<subseteq> set (fst st) \<union> position ` {h \<in> set hits. hit h}" for st
  proof (induction hits arbitrary: st)
    case (Cons h hits)
    have "set (fst (process_hit b h st)) \<subseteq> set (fst st) \<union> (if hit h then {position h} else {})"
      by (cases st) (auto simp: process_hit_def Let_def case_prod_beta)
    with Cons.IH[of "process_hit b h st"] show ?case by (fastforce split: if_splits)
  qed simp
  from this[of "([], tapes)"] show ?thesis by (auto simp: process_hits_def)
qed

lemma those_map_Some: "(\<forall>x\<in>set xs. \<exists>y. f x = Some y) \<Longrightarrow> those (map f xs) = Some (map (the \<circ> f) xs)"
  by (induction xs) auto

lemma those_map_in: "those (map f xs) = Some ys \<Longrightarrow> y \<in> set ys \<Longrightarrow> \<exists>x\<in>set xs. f x = Some y"
  by (induction xs arbitrary: ys) (auto split: option.splits)

text \<open>Every point of a scan is where some ray of the sensor first meets an instance.\<close>

lemma scan_points:
  assumes sc: "scan env t s = Some (Inr s')" and trees: "scene_trees env = Some trees"
  shows "\<exists>pose cloud. tf_lookup (the (tf_frames env)) ''world'' (frame_id (base_config (config s))) t = Some (Inr pose) \<and>
    pending_cloud s' = Some cloud \<and>
    (\<forall>p\<in>set cloud. \<exists>r\<in>set (generate_rays pose (config s)). \<exists>h. trace_ray r trees = Some h \<and> hit h \<and> position h = p)"
proof -
  obtain w q tf pose where e: "thread_pool env = Some (w, q)" "tf_frames env = Some tf"
    "tf_lookup tf ''world'' (frame_id (base_config (config s))) t = Some (Inr pose)"
    using sc trees by (auto simp: scan_def split: option.splits sum.splits prod.splits)
  let ?rays = "generate_rays pose (config s)"
  obtain hits where h: "those (map (\<lambda>r. trace_ray r trees) ?rays) = Some hits"
    using sc trees e by (auto simp: scan_def Let_def trace_rays_map split: option.splits)
  obtain cloud tapes where c: "process_hits (base_config (config s)) hits (sensor_tapes s) = (cloud, tapes)" by (metis surj_pair)
  have "pending_cloud s' = Some cloud"
    using sc trees e h c by (auto simp: scan_def Let_def trace_rays_map set_pending_data_def)
  moreover have "\<exists>r\<in>set ?rays. \<exists>h. trace_ray r trees = Some h \<and> hit h \<and> position h = p" if "p \<in> set cloud" for p
    using process_hits_positions[of "base_config (config s)" hits "sensor_tapes s"] that c those_map_in[OF h] by fastforce
  ultimately show ?thesis using e by auto
qed

section \<open>When data arrives\<close>

text \<open>The sensor is updated at the times \<open>dt\<close>, \<open>2 dt\<close>, and so on.\<close>

fun sensor_run :: "(nat \<Rightarrow> sensor_env) \<Rightarrow> real \<Rightarrow> sensor \<Rightarrow> nat \<Rightarrow> sensor option" where
  "sensor_run env dt s 0 = Some s"
| "sensor_run env dt s (Suc n) =
     (case sensor_run env dt s n of None \<Rightarrow> None
      | Some s' \<Rightarrow> map_option snd (sensor_update (env n) dt (dt * (real n + 1)) s'))"

definition scans_succeed :: "(nat \<Rightarrow> sensor_env) \<Rightarrow> real \<Rightarrow> sensor \<Rightarrow> bool" where
  "scans_succeed env dt s \<longleftrightarrow> (\<forall>n s'. config s' = config s \<longrightarrow> (\<exists>s''. scan (env n) (dt * (real n + 1)) s' = Some (Inr s'')))"

lemma scan_state:
  "scan env t s = Some (Inr s') \<Longrightarrow> \<exists>cloud tapes. s' = s\<lparr>pending_cloud := Some cloud, sensor_tapes := tapes,
     pending_data_time := t + latency_s (base_config (config s)), has_pending_data := True\<rparr>"
  by (auto simp: scan_def set_pending_data_def Let_def case_prod_beta split: option.splits sum.splits prod.splits)
    (metis prod.collapse)

definition sensor_at :: "real \<Rightarrow> sensor_config \<Rightarrow> nat \<Rightarrow> sensor \<Rightarrow> bool" where
  "sensor_at dt cfg n s \<longleftrightarrow> config s = cfg \<and> time_since_last_update s = 0 \<and> update_period s = 1 / update_hz (base_config cfg) \<and>
     (if n = 0 then \<not> has_pending_data s \<and> \<not> has_data s
      else has_pending_data s \<and> pending_data_time s = dt * real n + latency_s (base_config cfg) \<and> pending_cloud s \<noteq> None)"

lemma sensor_due_step:
  assumes at: "sensor_at dt cfg n s" and due: "1 / update_hz (base_config cfg) \<le> dt"
    and sc: "\<forall>s'. config s' = cfg \<longrightarrow> (\<exists>s''. scan env (dt * (real n + 1)) s' = Some (Inr s''))"
  shows "\<exists>s'. sensor_update env dt (dt * (real n + 1)) s = Some (Inr (), s') \<and> sensor_at dt cfg (Suc n) s' \<and>
    (if n \<noteq> 0 \<and> latency_s (base_config cfg) \<le> dt then has_data s' \<and> cached_cloud s' = pending_cloud s
     else has_data s' = has_data s \<and> cached_cloud s' = cached_cloud s)"
proof -
  let ?t = "dt * (real n + 1)"
  define s1 where "s1 = publish_pending ?t (s\<lparr>time_since_last_update := 0 + dt\<rparr>)"
  have upd: "should_update dt ?t s = (True, s1\<lparr>time_since_last_update := 0\<rparr>)"
    using at due by (auto simp: should_update_def s1_def sensor_at_def Let_def publish_pending_def)
  have c1: "config s1 = cfg" using at by (simp add: s1_def sensor_at_def publish_pending_def)
  obtain s2 where s2: "scan env ?t (s1\<lparr>time_since_last_update := 0\<rparr>) = Some (Inr s2)" using sc c1 by fastforce
  from scan_state[OF s2] obtain cloud tapes where
    s2': "s2 = s1\<lparr>time_since_last_update := 0, pending_cloud := Some cloud, sensor_tapes := tapes,
       pending_data_time := ?t + latency_s (base_config cfg), has_pending_data := True\<rparr>" by (auto simp: c1)
  have run: "sensor_update env dt ?t s = Some (Inr (), s2)" by (simp add: sensor_update_def upd s2)
  have "sensor_at dt cfg (Suc n) s2"
    using at c1 by (simp add: s2' sensor_at_def s1_def publish_pending_def algebra_simps)
  moreover have "if n \<noteq> 0 \<and> latency_s (base_config cfg) \<le> dt then has_data s2 \<and> cached_cloud s2 = pending_cloud s
     else has_data s2 = has_data s \<and> cached_cloud s2 = cached_cloud s"
    using at by (cases "n = 0") (auto simp: s2' sensor_at_def s1_def publish_pending_def algebra_simps)
  ultimately show ?thesis using run by blast
qed

section \<open>Properties\<close>

text \<open>C20: A sensor that is due in every frame delivers in each frame the cloud of the frame before when
  its latency is at most the time step; with a longer latency it never delivers any data, because
  each scan postpones the delivery of the pending one.\<close>

theorem sensor_latency:
  assumes "1 / update_hz (base_config cfg) \<le> dt" "scans_succeed env dt (make_sensor cfg tapes)"
  shows "\<exists>s s'. sensor_run env dt (make_sensor cfg tapes) n = Some s \<and> sensor_run env dt (make_sensor cfg tapes) (Suc n) = Some s' \<and>
    (if latency_s (base_config cfg) \<le> dt
     then 0 < n \<longrightarrow> has_data s' \<and> pending_cloud s \<noteq> None \<and> cached_cloud s' = pending_cloud s
     else \<not> has_data s' \<and> cached_cloud s' = None)"
proof -
  let ?s0 = "make_sensor cfg tapes" and ?l = "latency_s (base_config cfg)"
  have start: "sensor_at dt cfg 0 ?s0" by (simp add: sensor_at_def make_sensor_def)
  have sc: "\<forall>s'. config s' = cfg \<longrightarrow> (\<exists>s''. scan (env n) (dt * (real n + 1)) s' = Some (Inr s''))" for n
    using assms(2) by (simp add: scans_succeed_def make_sensor_def)
  have step: "\<exists>s'. sensor_update (env n) dt (dt * (real n + 1)) s = Some (Inr (), s') \<and> sensor_at dt cfg (Suc n) s' \<and>
    (if n \<noteq> 0 \<and> ?l \<le> dt then has_data s' \<and> cached_cloud s' = pending_cloud s
     else has_data s' = has_data s \<and> cached_cloud s' = cached_cloud s)" if "sensor_at dt cfg n s" for n s
    by (rule sensor_due_step[OF that assms(1) sc])
  have all: "\<exists>s. sensor_run env dt ?s0 n = Some s \<and> sensor_at dt cfg n s \<and> (\<not> ?l \<le> dt \<longrightarrow> \<not> has_data s \<and> cached_cloud s = None)" for n
  proof (induction n)
    case 0
    then show ?case using start by (simp add: make_sensor_def)
  next
    case (Suc n)
    then obtain s where s: "sensor_run env dt ?s0 n = Some s" "sensor_at dt cfg n s"
      "\<not> ?l \<le> dt \<longrightarrow> \<not> has_data s \<and> cached_cloud s = None" by blast
    from step[OF s(2)] obtain s' where "sensor_update (env n) dt (dt * (real n + 1)) s = Some (Inr (), s')"
      "sensor_at dt cfg (Suc n) s'" "\<not> ?l \<le> dt \<longrightarrow> has_data s' = has_data s \<and> cached_cloud s' = cached_cloud s" by auto
    with s show ?case by auto
  qed
  from all[of n] obtain s where s: "sensor_run env dt ?s0 n = Some s" "sensor_at dt cfg n s"
    "\<not> ?l \<le> dt \<longrightarrow> \<not> has_data s \<and> cached_cloud s = None" by blast
  from step[OF s(2)] obtain s' where s': "sensor_update (env n) dt (dt * (real n + 1)) s = Some (Inr (), s')"
    "if n \<noteq> 0 \<and> ?l \<le> dt then has_data s' \<and> cached_cloud s' = pending_cloud s
     else has_data s' = has_data s \<and> cached_cloud s' = cached_cloud s" by blast
  have "sensor_run env dt ?s0 (Suc n) = Some s'" using s(1) s'(1) by simp
  moreover have "if ?l \<le> dt then 0 < n \<longrightarrow> has_data s' \<and> pending_cloud s \<noteq> None \<and> cached_cloud s' = pending_cloud s
     else \<not> has_data s' \<and> cached_cloud s' = None"
    using s(2,3) s'(2) by (cases "?l \<le> dt") (auto simp: sensor_at_def)
  ultimately show ?thesis using s(1) by blast
qed

definition demo_lidar :: "real \<Rightarrow> sensor_config" where
  "demo_lidar latency = Lidar2D \<lparr>l2_base = \<lparr>sb_id = ''lidar'', frame_id = ''lidar'', pose_rel_base = pose3_identity,
     min_range = 0, max_range = 30, noise_std = 0, dropout_prob = 0, update_hz = 20, latency_s = latency\<rparr>,
     fov = 1, l2_angular_res = 1\<rparr>"

definition demo_env :: sensor_env where
  "demo_env = \<lparr>scene_trees = Some \<lparr>static_tree = empty_tlas, dynamic_tree = empty_tlas\<rparr>, thread_pool = Some (1, 0),
     tf_frames = Some (set_static_transform ''world'' ''lidar'' pose3_identity Map.empty)\<rparr>"

lemma demo_env_lookup: "\<exists>pose. tf_lookup (set_static_transform ''world'' ''lidar'' pose3_identity Map.empty) ''world'' ''lidar'' t = Some (Inr pose)"
  by (simp add: set_static_transform_def try_emplace_def node_at_def new_node_def tf_lookup_def collect_chain_def
      chain_loop.simps Let_def)

lemma demo_scans: "scans_succeed (\<lambda>n. demo_env) dt (make_sensor (demo_lidar latency) tapes)"
proof -
  have "trace_ray r \<lparr>static_tree = empty_tlas, dynamic_tree = empty_tlas\<rparr> = Some (no_hit (t_max r))" for r
    by (simp add: trace_ray_def trace_tree_def empty_tlas_def no_hit_def)
  then have "those (map (\<lambda>r. trace_ray r \<lparr>static_tree = empty_tlas, dynamic_tree = empty_tlas\<rparr>) rs) = Some (map (\<lambda>r. no_hit (t_max r)) rs)" for rs
    using those_map_Some[of rs "\<lambda>r. trace_ray r \<lparr>static_tree = empty_tlas, dynamic_tree = empty_tlas\<rparr>"] by (simp add: o_def)
  with demo_env_lookup show ?thesis
    unfolding scans_succeed_def
    by (fastforce simp: make_sensor_def scan_def demo_env_def demo_lidar_def Let_def trace_rays_map case_prod_beta
        split: option.splits)
qed

text \<open>At 20 Hz with a latency of 100 ms the sensor never delivers anything.\<close>

theorem sensor_latency_witness:
  "\<forall>tapes. \<exists>s. sensor_run (\<lambda>n. demo_env) (1 / 20) (make_sensor (demo_lidar (1 / 10)) tapes) 1000 = Some s \<and> \<not> has_data s"
proof
  fix tapes
  have "1 / update_hz (base_config (demo_lidar (1 / 10))) \<le> 1 / 20" "latency_s (base_config (demo_lidar (1 / 10))) = 1 / 10"
    by (simp_all add: demo_lidar_def)
  with sensor_latency[OF _ demo_scans, of "1 / 10" "1 / 20" tapes 999]
  show "\<exists>s. sensor_run (\<lambda>n. demo_env) (1 / 20) (make_sensor (demo_lidar (1 / 10)) tapes) 1000 = Some s \<and> \<not> has_data s"
    by (auto simp del: sensor_run.simps)
qed

section \<open>Updates end\<close>

lemma tf_lookup_ends: "tf_ok b \<Longrightarrow> \<exists>res. tf_lookup b target source st = Some res"
proof (cases "target = source")
  case False
  assume "tf_ok b"
  from tf_lookup_spec[OF this False] show ?thesis by blast
qed (auto simp: tf_lookup_def)

definition env_ok :: "sensor_env \<Rightarrow> bool" where
  "env_ok env \<longleftrightarrow>
     (case scene_trees env of None \<Rightarrow> True
      | Some trees \<Rightarrow> tlas_tight (static_tree trees) \<and> tlas_tight (dynamic_tree trees)) \<and>
     (case tf_frames env of None \<Rightarrow> True | Some b \<Rightarrow> tf_ok b)"

lemma scan_ends: "env_ok env \<Longrightarrow> \<exists>res. scan env t s = Some res"
proof -
  assume ok: "env_ok env"
  show ?thesis
  proof (cases "scene_trees env = None \<or> thread_pool env = None \<or> tf_frames env = None")
    case True
    then show ?thesis by (auto simp: scan_def split: option.split)
  next
    case False
    then obtain trees size pending b where e: "scene_trees env = Some trees" "thread_pool env = Some (size, pending)" "tf_frames env = Some b"
      by auto
    with ok have t: "tlas_tight (static_tree trees)" "tlas_tight (dynamic_tree trees)" "tf_ok b" by (auto simp: env_ok_def)
    obtain res where l: "tf_lookup b ''world'' (frame_id (base_config (config s))) t = Some res" using tf_lookup_ends[OF t(3)] by blast
    have "\<exists>hits. those (map (\<lambda>r. trace_ray r trees) rs) = Some hits" for rs
      using those_map_Some[of rs "\<lambda>r. trace_ray r trees"] trace_ray_ends[OF t(1,2)] by blast
    then show ?thesis using e l
      by (cases res) (auto simp: scan_def Let_def trace_rays_map case_prod_beta split: option.split)
  qed
qed

lemma sensor_update_ends: "env_ok env \<Longrightarrow> \<exists>res. sensor_update env dt t s = Some res"
proof -
  assume ok: "env_ok env"
  define s' where "s' = snd (should_update dt t s)"
  from scan_ends[OF ok] obtain res where "scan env t s' = Some res" by blast
  then show ?thesis by (cases res) (auto simp: sensor_update_def case_prod_beta Let_def s'_def)
qed

end
