(* ===== verification/Robot.thy ===== *)
theory Robot
  imports Sensors RL
begin

text \<open>
  The robot of a simulation: \<^verbatim>\<open>sim/robot.hpp\<close> and \<^verbatim>\<open>robot.cpp\<close>. Requested actions are scaled
  and wait in a priority queue until their delay has passed; an update applies those that are due,
  holds back forward commands during a collision, steps the vehicle, publishes the frame of the
  robot and runs the sensors. The time the requests take to act is a delay line, and the queue is
  related to the list of requests.
\<close>

section \<open>The queue of delayed actions\<close>

record delayed_action =
  apply_time_s :: real
  da_action :: action

text \<open>
  \<^verbatim>\<open>std::priority_queue\<close> is a list of entries with a choice of its top. Which of several
  earliest entries is on top depends on the library; the type holds every choice of an earliest
  entry, and the claims hold for all of them.
\<close>

definition earliest_at :: "delayed_action list \<Rightarrow> nat \<Rightarrow> bool" where
  "earliest_at q i \<longleftrightarrow> i < length q \<and> (\<forall>x\<in>set q. apply_time_s (q ! i) \<le> apply_time_s x)"

fun first_earliest :: "delayed_action list \<Rightarrow> nat" where
  "first_earliest [] = 0"
| "first_earliest [x] = 0"
| "first_earliest (x # y # q) =
     (let j = first_earliest (y # q)
      in if apply_time_s x \<le> apply_time_s ((y # q) ! j) then 0 else Suc j)"

lemma first_earliest_at: "q \<noteq> [] \<Longrightarrow> earliest_at q (first_earliest q)"
proof (induction q rule: first_earliest.induct)
  case (3 x y q)
  then show ?case by (auto simp: earliest_at_def Let_def)
qed (auto simp: earliest_at_def)

typedef earliest_impl = "{f :: delayed_action list \<Rightarrow> nat. \<forall>q. q \<noteq> [] \<longrightarrow> earliest_at q (f q)}"
  morphisms top_index Earliest
  by (rule exI[of _ first_earliest]) (simp add: first_earliest_at)

setup_lifting type_definition_earliest_impl

lift_definition earliest_first :: earliest_impl is first_earliest
  by (simp add: first_earliest_at)

lemma top_index_earliest: "q \<noteq> [] \<Longrightarrow> earliest_at q (top_index ei q)"
  using top_index[of ei] by simp

lemma top_index_less: "q \<noteq> [] \<Longrightarrow> top_index ei q < length q"
  using top_index_earliest by (simp add: earliest_at_def)

definition pq_top :: "earliest_impl \<Rightarrow> delayed_action list \<Rightarrow> delayed_action" where
  "pq_top ei q = q ! top_index ei q"

definition pq_pop :: "earliest_impl \<Rightarrow> delayed_action list \<Rightarrow> delayed_action list" where
  "pq_pop ei q = take (top_index ei q) q @ drop (Suc (top_index ei q)) q"

lemma pq_pop_mset: "q \<noteq> [] \<Longrightarrow> mset q = add_mset (pq_top ei q) (mset (pq_pop ei q))"
proof -
  assume "q \<noteq> []"
  then have "q = take (top_index ei q) q @ q ! top_index ei q # drop (Suc (top_index ei q)) q"
    by (rule id_take_nth_drop[OF top_index_less])
  then have "mset q = mset (take (top_index ei q) q @ q ! top_index ei q # drop (Suc (top_index ei q)) q)"
    by (rule arg_cong)
  then show ?thesis by (simp add: pq_top_def pq_pop_def)
qed

lemma pq_pop_length: "q \<noteq> [] \<Longrightarrow> length (pq_pop ei q) < length q"
  using pq_pop_mset[of q ei] by (metis lessI size_add_mset size_mset)

lemma pq_top_least: "x \<in> set q \<Longrightarrow> apply_time_s (pq_top ei q) \<le> apply_time_s x"
  using top_index_earliest[of q ei] by (cases "q = []") (auto simp: pq_top_def earliest_at_def)

section \<open>State\<close>

record robot_profile =
  rp_name :: string
  rp_model_id :: string
  kinematics :: ackermann_caps
  profile_sensors :: "sensor_config list"

record robot_cfg =
  robot_name :: string
  robot_profile_id :: string
  action_delay_s :: real

text \<open>
  The robot object. \<open>rb_frames\<close> is the frame buffer it shares with the world, \<open>rb_pool\<close> the size
  and the load of the thread pool. \<open>last_update_info\<close> is kept in the three \<open>info\<close> fields.
\<close>

record robot =
  rb_pose :: pose2
  rb_vel :: twist2
  current_cmd :: ackermann_command
  last_requested_action :: action
  last_requested_cmd :: ackermann_command
  last_applied_cmd :: ackermann_command
  vehicle :: ackermann_model
  rb_profile :: robot_profile
  rb_config :: robot_cfg
  rb_model :: model_profile
  rb_pool :: "(nat \<times> nat) option"
  rb_frames :: "tf_buffer option"
  base_frame_id :: string
  rb_entity_id :: "32 word"
  rb_sim_id :: "32 word"
  rb_sim_time :: real
  rb_sensors :: "sensor list"
  info_pose :: pose2
  info_vel :: twist2
  is_collided :: bool
  last_contacts :: "string list"
  delayed_actions :: "delayed_action list"

record robot_params =
  pr_config :: robot_cfg
  pr_profile :: "robot_profile option"
  pr_pool :: "(nat \<times> nat) option"
  pr_frames :: "tf_buffer option"
  pr_model :: model_profile
  pr_base_frame :: string
  pr_entity_id :: "32 word"
  pr_sim_id :: "32 word"
  pr_initial_pose :: pose2
  pr_sensor_tapes :: "nat \<Rightarrow> rng \<times> rng"

section \<open>Construction\<close>

definition sensor_frames :: "string \<Rightarrow> sensor_config list \<Rightarrow> tf_buffer \<Rightarrow> tf_buffer" where
  "sensor_frames frame cfgs b =
     fold (\<lambda>c. set_static_transform frame (frame_id (base_config c)) (pose_rel_base (base_config c))) cfgs b"

definition make_robot :: "robot_params \<Rightarrow> string + robot" where
  "make_robot p =
     (case pr_profile p of
        None \<Rightarrow> Inl ''Robot profile is null''
      | Some prof \<Rightarrow> Inr
          \<lparr>rb_pose = pr_initial_pose p, rb_vel = zero_twist, current_cmd = default_command,
           last_requested_action = default_action, last_requested_cmd = default_command,
           last_applied_cmd = default_command,
           vehicle = ackermann_reset \<lparr>ack_pose = pr_initial_pose p, speed = 0, steering = 0\<rparr> (make_model (kinematics prof)),
           rb_profile = prof, rb_config = pr_config p, rb_model = pr_model p, rb_pool = pr_pool p,
           rb_frames = map_option (sensor_frames (pr_base_frame p) (profile_sensors prof)) (pr_frames p),
           base_frame_id = pr_base_frame p, rb_entity_id = pr_entity_id p, rb_sim_id = pr_sim_id p,
           rb_sim_time = 0,
           rb_sensors = map (\<lambda>i. make_sensor (profile_sensors prof ! i) (pr_sensor_tapes p i)) [0..<length (profile_sensors prof)],
           info_pose = pr_initial_pose p, info_vel = zero_twist, is_collided = False, last_contacts = [],
           delayed_actions = []\<rparr>)"

section \<open>Actions\<close>

definition scale_normalized_action :: "ackermann_caps \<Rightarrow> action \<Rightarrow> action" where
  "scale_normalized_action c a =
     (let normalized_speed = (if cmd_reverse (act_cmd a) then - cmd_speed (act_cmd a) else cmd_speed (act_cmd a));
          speed_scale = (if normalized_speed \<ge> 0 then max_speed (caps_fwd c) else max_speed (caps_rev c));
          signed_spd = clamp normalized_speed (- 1) 1 * speed_scale
      in a\<lparr>act_cmd := \<lparr>cmd_steer = clamp (cmd_steer (act_cmd a)) (- 1) 1 * max_steer_angle c,
                       cmd_speed = \<bar>signed_spd\<bar>, cmd_reverse = (signed_spd < 0)\<rparr>\<rparr>)"

definition set_action :: "action \<Rightarrow> robot \<Rightarrow> (error + unit) \<times> robot" where
  "set_action a r =
     (let apply_time = act_timestamp a + action_delay_s (rb_config r);
          applied = scale_normalized_action (kinematics (rb_profile r)) a
      in (Inr (), r\<lparr>last_requested_cmd := act_cmd applied, last_requested_action := applied,
                    delayed_actions := delayed_actions r @ [\<lparr>apply_time_s = apply_time, da_action = applied\<rparr>]\<rparr>))"

definition set_actuator :: "ackermann_command \<Rightarrow> robot \<Rightarrow> (error + unit) \<times> robot" where
  "set_actuator cmd r = (Inr (), r\<lparr>current_cmd := cmd\<rparr>)"

function apply_due :: "earliest_impl \<Rightarrow> real \<Rightarrow> ackermann_command \<Rightarrow> delayed_action list
    \<Rightarrow> ackermann_command \<times> delayed_action list" where
  "apply_due ei t cmd q =
     (if q \<noteq> [] \<and> apply_time_s (pq_top ei q) \<le> t
      then apply_due ei t (act_cmd (da_action (pq_top ei q))) (pq_pop ei q)
      else (cmd, q))"
  by pat_completeness auto
termination by (relation "measure (\<lambda>(ei, t, cmd, q). length q)") (auto simp: pq_pop_length)

declare apply_due.simps [simp del]

definition process_delayed_actions :: "earliest_impl \<Rightarrow> robot \<Rightarrow> robot" where
  "process_delayed_actions ei r =
     (let (cmd, q) = apply_due ei (rb_sim_time r) (current_cmd r) (delayed_actions r)
      in r\<lparr>current_cmd := cmd, delayed_actions := q\<rparr>)"

section \<open>The update\<close>

text \<open>Forward commands are held back during a collision.\<close>

definition effective_cmd :: "robot \<Rightarrow> ackermann_command" where
  "effective_cmd r =
     (if is_collided r \<and> \<not> cmd_reverse (current_cmd r) \<and> cmd_speed (current_cmd r) > 0
      then (current_cmd r)\<lparr>cmd_speed := 0\<rparr> else current_cmd r)"

definition step_vehicle :: "real \<Rightarrow> robot \<Rightarrow> robot" where
  "step_vehicle dt r =
     (let m = ackermann_step dt (effective_cmd r) (vehicle r); s = state m
      in r\<lparr>last_applied_cmd := effective_cmd r, vehicle := m, rb_pose := ack_pose s,
           rb_vel := \<lparr>linear = vec (speed s * cos (yaw (ack_pose s))) (speed s * sin (yaw (ack_pose s))),
                      angular = (speed s / wheel_base (kinematics (rb_profile r))) * tan (steering s)\<rparr>\<rparr>)"

text \<open>The result of \<open>push_dynamic\<close> is not looked at.\<close>

definition publish_frame :: "robot \<Rightarrow> robot" where
  "publish_frame r =
     (case rb_frames r of None \<Rightarrow> r
      | Some b \<Rightarrow>
          (case push_dynamic ''world'' (base_frame_id r) (rb_sim_time r) (to_pose3 (rb_pose r)) b of
             Inl e \<Rightarrow> r
           | Inr b' \<Rightarrow> r\<lparr>rb_frames := Some b'\<rparr>))"

fun update_sensors :: "sensor_env \<Rightarrow> real \<Rightarrow> real \<Rightarrow> sensor list \<Rightarrow> sensor list option" where
  "update_sensors env dt t [] = Some []"
| "update_sensors env dt t (s # ss) =
     (case sensor_update env dt t s of None \<Rightarrow> None
      | Some (res, s') \<Rightarrow> map_option ((#) s') (update_sensors env dt t ss))"

text \<open>
  The whole update, with the trees the sensors look at. \<open>None\<close> is a sensor whose scan never
  ends; an error of a sensor is ignored.
\<close>

definition robot_update :: "earliest_impl \<Rightarrow> tlas_pair option \<Rightarrow> real \<Rightarrow> robot \<Rightarrow> ((error + unit) \<times> robot) option" where
  "robot_update ei trees dt r0 =
     (let r1 = process_delayed_actions ei (r0\<lparr>rb_sim_time := rb_sim_time r0 + dt\<rparr>);
          r2 = publish_frame (step_vehicle dt r1)
      in (case update_sensors \<lparr>scene_trees = trees, thread_pool = rb_pool r2, tf_frames = rb_frames r2\<rparr> dt (rb_sim_time r2) (rb_sensors r2) of
            None \<Rightarrow> None
          | Some ss \<Rightarrow> Some (Inr (), r2\<lparr>rb_sensors := ss, info_pose := rb_pose r2, info_vel := rb_vel r2\<rparr>)))"

section \<open>Observation and collisions\<close>

definition rb_reverse_gear :: "robot \<Rightarrow> bool" where
  "rb_reverse_gear r = reverse_gear (vehicle r)"

definition rb_gear_hold :: "robot \<Rightarrow> real" where
  "rb_gear_hold r = gear_hold_time_remaining (vehicle r)"

definition observe_sensor :: "real \<Rightarrow> sensor \<Rightarrow> sensor_observation list" where
  "observe_sensor t s =
     (if has_data s then [\<lparr>sensor_id = sb_id (base_config (config s)), point_cloud = cached_cloud s, so_timestamp = t\<rparr>] else [])"

definition build_observation :: "real \<Rightarrow> real \<Rightarrow> real \<Rightarrow> bool \<Rightarrow> robot \<Rightarrow> error + observation" where
  "build_observation tick_time tick_dt rew terminal r =
     Inr (default_observation\<lparr>obs_reward := rew, obs_is_terminal := terminal, est_pose := info_pose r,
            est_vel := info_vel r, collision_objects := last_contacts r, obs_reverse_gear := rb_reverse_gear r,
            obs_gear_hold_time_s := rb_gear_hold r, sensor_data := concat (map (observe_sensor tick_time) (rb_sensors r))\<rparr>)"

definition notify_collision :: "collision_contact list \<Rightarrow> robot \<Rightarrow> (error + unit) \<times> robot" where
  "notify_collision contacts r = (Inr (), r\<lparr>is_collided := True, last_contacts := map other_name contacts\<rparr>)"

definition clear_collision_state :: "robot \<Rightarrow> robot" where
  "clear_collision_state r =
     (if \<not> is_collided r \<and> last_contacts r = [] then r else r\<lparr>is_collided := False, last_contacts := []\<rparr>)"

section \<open>The delay line\<close>

definition due :: "real \<Rightarrow> real \<Rightarrow> action \<Rightarrow> bool" where
  "due d t a \<longleftrightarrow> act_timestamp a + d \<le> t"

definition entry :: "ackermann_caps \<Rightarrow> real \<Rightarrow> action \<Rightarrow> delayed_action" where
  "entry c d a = \<lparr>apply_time_s = act_timestamp a + d, da_action = scale_normalized_action c a\<rparr>"

definition in_order :: "action list \<Rightarrow> bool" where
  "in_order as \<longleftrightarrow> sorted_wrt (\<lambda>a b. act_timestamp a < act_timestamp b) as"

definition scaled_cmd :: "ackermann_caps \<Rightarrow> action \<Rightarrow> ackermann_command" where
  "scaled_cmd c a = act_cmd (scale_normalized_action c a)"

lemma top_is_head:
  assumes "mset q = mset (map (entry c d) (a # as))" "in_order (a # as)"
  shows "pq_top ei q = entry c d a" "mset (pq_pop ei q) = mset (map (entry c d) as)"
proof -
  have ne: "q \<noteq> []" using assms(1) by auto
  have "entry c d a \<in> set q" using assms(1) by (metis list.set_intros(1) list.simps(9) mset_eq_setD)
  then have le: "apply_time_s (pq_top ei q) \<le> act_timestamp a + d" using pq_top_least[of "entry c d a" q ei] by (simp add: entry_def)
  have "pq_top ei q \<in> set q" using pq_pop_mset[OF ne, of ei] by (metis insert_iff set_mset_add_mset_insert set_mset_mset)
  then have "pq_top ei q \<in> set (map (entry c d) (a # as))" using assms(1) by (metis mset_eq_setD)
  then show top: "pq_top ei q = entry c d a" using le assms(2) by (auto simp: entry_def in_order_def)
  show "mset (pq_pop ei q) = mset (map (entry c d) as)"
    using pq_pop_mset[OF ne, of ei] assms(1) unfolding top by simp
qed

lemma in_order_due: "in_order (a # as) \<Longrightarrow> \<not> due d t a \<Longrightarrow> \<forall>b\<in>set as. \<not> due d t b"
  by (fastforce simp: in_order_def due_def)

lemma apply_due_entries:
  assumes "mset q = mset (map (entry c d) as)" "in_order as"
  shows "fst (apply_due ei t cmd q) = last (cmd # map (scaled_cmd c) (filter (due d t) as)) \<and>
    mset (snd (apply_due ei t cmd q)) = mset (map (entry c d) (filter (\<lambda>a. \<not> due d t a) as))"
  using assms
proof (induction as arbitrary: q cmd)
  case Nil
  then show ?case by (simp add: apply_due.simps)
next
  case (Cons a as)
  note top = top_is_head[OF Cons.prems, of ei]
  have ne: "q \<noteq> []" using Cons.prems(1) by auto
  have ord: "in_order as" using Cons.prems(2) by (simp add: in_order_def)
  show ?case
  proof (cases "due d t a")
    case True
    then have "apply_due ei t cmd q = apply_due ei t (scaled_cmd c a) (pq_pop ei q)"
      using ne by (subst apply_due.simps) (simp add: top(1), simp add: entry_def due_def scaled_cmd_def)
    then show ?thesis using Cons.IH[OF top(2) ord, of "scaled_cmd c a"] True by simp
  next
    case False
    then have "apply_due ei t cmd q = (cmd, q)"
      by (subst apply_due.simps) (simp add: top(1), simp add: entry_def due_def)
    moreover have "filter (due d t) as = []" "filter (\<lambda>a. \<not> due d t a) as = as"
      using in_order_due[OF Cons.prems(2) False] by (auto simp: filter_empty_conv intro: filter_True)
    ultimately show ?thesis using False Cons.prems(1) by simp
  qed
qed

datatype rb_event = Request action | Update "tlas_pair option" real | Contact "collision_contact list" | ClearContact

fun rb_step :: "earliest_impl \<Rightarrow> rb_event \<Rightarrow> robot \<Rightarrow> robot option" where
  "rb_step ei (Request a) r = Some (snd (set_action a r))"
| "rb_step ei (Update trees dt) r = map_option snd (robot_update ei trees dt r)"
| "rb_step ei (Contact cs) r = Some (snd (notify_collision cs r))"
| "rb_step ei ClearContact r = Some (clear_collision_state r)"

fun rb_run :: "earliest_impl \<Rightarrow> rb_event list \<Rightarrow> robot \<Rightarrow> robot option" where
  "rb_run ei [] r = Some r"
| "rb_run ei (e # es) r = Option.bind (rb_step ei e r) (rb_run ei es)"

lemma rb_run_append: "rb_run ei (es @ fs) r = Option.bind (rb_run ei es r) (rb_run ei fs)"
  by (induction es arbitrary: r) (auto split: Option.bind_splits)

fun requests :: "rb_event list \<Rightarrow> action list" where
  "requests [] = []"
| "requests (Request a # es) = a # requests es"
| "requests (_ # es) = requests es"

fun event_ok :: "rb_event \<Rightarrow> bool" where
  "event_ok (Update trees dt) = (0 < dt \<and>
     (case trees of None \<Rightarrow> True | Some tr \<Rightarrow> tlas_tight (static_tree tr) \<and> tlas_tight (dynamic_tree tr)))"
| "event_ok _ = True"

lemma requests_append [simp]: "requests (es @ fs) = requests es @ requests fs"
  by (induction es rule: requests.induct) simp_all

text \<open>The frames of a robot: its base hangs from the world, its sensors from the base.\<close>

definition frames_ok :: "robot \<Rightarrow> bool" where
  "frames_ok r \<longleftrightarrow> (case rb_frames r of None \<Rightarrow> True
     | Some b \<Rightarrow> tf_ok b \<and> base_frame_id r \<noteq> ''world'' \<and> (\<exists>n. b ''world'' = Some n \<and> tf_parent n = ''''))"

lemma frames_ok_updates [simp]:
  "frames_ok (r\<lparr>current_cmd := v0\<rparr>) = frames_ok r"
  "frames_ok (r\<lparr>last_requested_action := v1\<rparr>) = frames_ok r"
  "frames_ok (r\<lparr>last_requested_cmd := v2\<rparr>) = frames_ok r"
  "frames_ok (r\<lparr>last_applied_cmd := v3\<rparr>) = frames_ok r"
  "frames_ok (r\<lparr>vehicle := v4\<rparr>) = frames_ok r"
  "frames_ok (r\<lparr>rb_pose := v5\<rparr>) = frames_ok r"
  "frames_ok (r\<lparr>rb_vel := v6\<rparr>) = frames_ok r"
  "frames_ok (r\<lparr>rb_sim_time := v7\<rparr>) = frames_ok r"
  "frames_ok (r\<lparr>rb_sensors := v8\<rparr>) = frames_ok r"
  "frames_ok (r\<lparr>info_pose := v9\<rparr>) = frames_ok r"
  "frames_ok (r\<lparr>info_vel := v10\<rparr>) = frames_ok r"
  "frames_ok (r\<lparr>is_collided := v11\<rparr>) = frames_ok r"
  "frames_ok (r\<lparr>last_contacts := v12\<rparr>) = frames_ok r"
  "frames_ok (r\<lparr>delayed_actions := v13\<rparr>) = frames_ok r"
  by (cases "rb_frames r"; simp add: frames_ok_def)+

lemma to_pose3_rigid: "rigid (to_pose3 p)"
proof -
  have "cos x * cos x + sin x * sin x = 1" for x :: real using sin_cos_squared_add2[of x] by (simp add: power2_eq_square)
  then show ?thesis by (simp add: to_pose3_def quat_norm_sq_def Let_def)
qed

text \<open>Hanging any frame from a root keeps the frames a forest.\<close>

lemma hang_from_root:
  assumes "tf_ok b" "b par = Some n" "tf_parent n = ''''" "child \<noteq> par" "rigid t"
  shows "tf_ok (b(child \<mapsto> push_history st t ((node_at b child)\<lparr>tf_parent := par\<rparr>)))"
proof -
  let ?m = "push_history st t ((node_at b child)\<lparr>tf_parent := par\<rparr>)"
  obtain r where r: "ranked r b" using assms(1) by (auto simp: tf_ok_def)
  define r' where "r' f = (if f = par then 0 else Suc (r f))" for f
  have m: "tf_parent ?m = par" by (simp add: push_history_def Let_def)
  have "ranked r' (b(child \<mapsto> ?m))"
    unfolding ranked_def
  proof (intro allI impI)
    fix c k assume "(b(child \<mapsto> ?m)) c = Some k"
    then consider "c = child" "k = ?m" | "c \<noteq> child" "b c = Some k" by (auto split: if_splits)
    then show "tf_parent k = '''' \<or> (tf_parent k \<in> dom (b(child \<mapsto> ?m)) \<and> r' (tf_parent k) < r' c)"
    proof cases
      case 1
      then show ?thesis using m assms(2,4) by (auto simp: r'_def)
    next
      case 2
      then have "tf_parent k = '''' \<or> (tf_parent k \<in> dom b \<and> r (tf_parent k) < r c)" using r by (auto simp: ranked_def)
      moreover have "c = par \<Longrightarrow> tf_parent k = ''''" using 2 assms(2,3) by simp
      ultimately show ?thesis by (auto simp: r'_def)
    qed
  qed
  moreover have "node_ok k" if "k \<in> ran (b(child \<mapsto> ?m))" for k
    using that assms(1,5) push_history_node_ok[OF node_ok_parent[OF node_at_ok[OF assms(1)]]]
    by (auto simp: tf_ok_def ran_def split: if_splits)
  ultimately show ?thesis by (auto simp: tf_ok_def)
qed

lemma publish_frame_ok:
  assumes "frames_ok r" shows "frames_ok (publish_frame r)"
proof (cases "rb_frames r")
  case None
  then show ?thesis using assms by (simp add: publish_frame_def)
next
  case (Some b)
  with assms obtain n where n: "tf_ok b" "base_frame_id r \<noteq> ''world''" "b ''world'' = Some n" "tf_parent n = ''''"
    by (auto simp: frames_ok_def)
  from hang_from_root[OF n(1,3,4,2) to_pose3_rigid, of "rb_sim_time r" "rb_pose r"] n Some assms
  show ?thesis by (auto simp: publish_frame_def frames_ok_def push_dynamic_def)
qed

text \<open>\<open>line_at c d as r\<close>: of the requests \<open>as\<close> a prefix has been applied, and the rest waits.\<close>

definition line_at :: "ackermann_caps \<Rightarrow> real \<Rightarrow> action list \<Rightarrow> robot \<Rightarrow> bool" where
  "line_at c d as r \<longleftrightarrow> kinematics (rb_profile r) = c \<and> action_delay_s (rb_config r) = d \<and> frames_ok r \<and>
     (\<exists>n. mset (delayed_actions r) = mset (map (entry c d) (drop n as)) \<and>
        current_cmd r = last (default_command # map (scaled_cmd c) (take n as)) \<and>
        (\<forall>a\<in>set (take n as). due d (rb_sim_time r) a))"

lemma line_at_same:
  "rb_profile r' = rb_profile r \<Longrightarrow> rb_config r' = rb_config r \<Longrightarrow> delayed_actions r' = delayed_actions r \<Longrightarrow>
   current_cmd r' = current_cmd r \<Longrightarrow> rb_sim_time r' = rb_sim_time r \<Longrightarrow> frames_ok r' \<Longrightarrow> line_at c d as r \<Longrightarrow> line_at c d as r'"
  by (simp only: line_at_def)

lemma in_order_split:
  "in_order as \<Longrightarrow> filter (due d t) as = take (length (filter (due d t) as)) as \<and>
     filter (\<lambda>a. \<not> due d t a) as = drop (length (filter (due d t) as)) as"
proof (induction as)
  case (Cons a as)
  then have IH: "filter (due d t) as = take (length (filter (due d t) as)) as"
    "filter (\<lambda>a. \<not> due d t a) as = drop (length (filter (due d t) as)) as" by (simp_all add: in_order_def)
  show ?case
  proof (cases "due d t a")
    case True
    then show ?thesis using IH by simp
  next
    case False
    then have "filter (due d t) as = []" using in_order_due[OF Cons.prems] by (auto simp: filter_empty_conv)
    with False IH(2) show ?thesis by simp
  qed
qed simp

lemma due_mono: "due d t a \<Longrightarrow> t \<le> t' \<Longrightarrow> due d t' a"
  by (simp add: due_def)

lemma last_join: "last (x # xs @ ys) = last (last (x # xs) # ys)"
  by (cases "ys = []") simp_all

text \<open>One update applies all requests that are due.\<close>

lemma process_delayed_line:
  fixes ei
  assumes "line_at c d as r" "in_order as" "rb_sim_time r \<le> t"
  defines "r1 \<equiv> process_delayed_actions ei (r\<lparr>rb_sim_time := t\<rparr>)"
  shows "current_cmd r1 = last (default_command # map (scaled_cmd c) (filter (due d t) as)) \<and>
    mset (delayed_actions r1) = mset (map (entry c d) (filter (\<lambda>a. \<not> due d t a) as)) \<and> line_at c d as r1"
proof -
  obtain n where n: "mset (delayed_actions r) = mset (map (entry c d) (drop n as))"
    "current_cmd r = last (default_command # map (scaled_cmd c) (take n as))" "\<forall>a\<in>set (take n as). due d (rb_sim_time r) a"
    and c: "kinematics (rb_profile r) = c" "action_delay_s (rb_config r) = d" "frames_ok r"
    using assms(1) by (auto simp: line_at_def)
  have ord: "in_order (drop n as)" using assms(2) by (simp add: in_order_def sorted_wrt_drop)
  have early: "filter (due d t) (take n as) = take n as" "filter (\<lambda>a. \<not> due d t a) (take n as) = []"
    using n(3) due_mono[OF _ assms(3)] by (auto simp: filter_empty_conv intro: filter_True)
  have parts: "filter (due d t) as = take n as @ filter (due d t) (drop n as)"
    "filter (\<lambda>a. \<not> due d t a) as = filter (\<lambda>a. \<not> due d t a) (drop n as)"
    using early by (metis append_take_drop_id filter_append self_append_conv2)+
  note ad = apply_due_entries[OF n(1) ord, of ei t "current_cmd r"]
  have c1: "current_cmd r1 = fst (apply_due ei t (current_cmd r) (delayed_actions r))"
    by (simp add: r1_def process_delayed_actions_def case_prod_beta)
  have cur: "current_cmd r1 = last (default_command # map (scaled_cmd c) (filter (due d t) as))"
    unfolding parts map_append last_join n(2)[symmetric] c1 using ad by blast
  have q: "mset (delayed_actions r1) = mset (map (entry c d) (filter (\<lambda>a. \<not> due d t a) as))"
    using ad unfolding parts by (simp add: r1_def process_delayed_actions_def case_prod_beta)
  have keep: "rb_profile r1 = rb_profile r" "rb_config r1 = rb_config r" "frames_ok r1 = frames_ok r" "rb_sim_time r1 = t"
    by (simp_all add: r1_def process_delayed_actions_def case_prod_beta)
  obtain m where sp: "filter (due d t) as = take m as" "filter (\<lambda>a. \<not> due d t a) as = drop m as"
    using in_order_split[OF assms(2), of d t] by blast
  have "\<forall>a\<in>set (take m as). due d t a" unfolding sp(1)[symmetric] by simp
  then have "mset (delayed_actions r1) = mset (map (entry c d) (drop m as)) \<and>
      current_cmd r1 = last (default_command # map (scaled_cmd c) (take m as)) \<and> (\<forall>a\<in>set (take m as). due d t a)"
    using q cur unfolding sp by blast
  then have "line_at c d as r1" unfolding line_at_def keep c(1,2) using c(3) keep(3) by (intro conjI exI[of _ m]) simp_all
  with cur q show ?thesis by blast
qed

lemma update_sensors_ends: "env_ok env \<Longrightarrow> \<exists>ss'. update_sensors env dt t ss = Some ss'"
proof (induction ss)
  case (Cons s ss)
  obtain res s' where "sensor_update env dt t s = Some (res, s')" using sensor_update_ends[OF Cons.prems] by (metis surj_pair)
  with Cons show ?case by auto
qed simp

text \<open>The parts of an update that the vehicle and the frames go through leave the queue alone.\<close>

lemma step_publish_keeps:
  fixes r dt defines "r2 \<equiv> publish_frame (step_vehicle dt r)"
  shows "current_cmd r2 = current_cmd r" "delayed_actions r2 = delayed_actions r" "rb_profile r2 = rb_profile r"
    "rb_config r2 = rb_config r" "rb_sim_time r2 = rb_sim_time r" "frames_ok r \<Longrightarrow> frames_ok r2"
proof -
  have "frames_ok r \<Longrightarrow> frames_ok (step_vehicle dt r)" by (simp add: step_vehicle_def Let_def)
  then show "frames_ok r \<Longrightarrow> frames_ok r2" unfolding r2_def by (intro publish_frame_ok)
qed (simp_all add: r2_def publish_frame_def step_vehicle_def Let_def split: option.splits sum.splits)

lemma robot_update_line:
  assumes "line_at c d as r" "in_order as" "event_ok (Update trees dt)"
  shows "\<exists>r'. robot_update ei trees dt r = Some (Inr (), r') \<and> line_at c d as r' \<and> rb_sim_time r' = rb_sim_time r + dt \<and>
    current_cmd r' = last (default_command # map (scaled_cmd c) (filter (due d (rb_sim_time r + dt)) as)) \<and>
    mset (delayed_actions r') = mset (map (entry c d) (filter (\<lambda>a. \<not> due d (rb_sim_time r + dt) a) as))"
proof -
  define r1 where "r1 = process_delayed_actions ei (r\<lparr>rb_sim_time := rb_sim_time r + dt\<rparr>)"
  define r2 where "r2 = publish_frame (step_vehicle dt r1)"
  have "rb_sim_time r \<le> rb_sim_time r + dt" using assms(3) by simp
  note p = process_delayed_line[OF assms(1,2) this, of ei, folded r1_def]
  note k = step_publish_keeps[where r=r1 and dt=dt, folded r2_def]
  have t: "rb_sim_time r1 = rb_sim_time r + dt" by (simp add: r1_def process_delayed_actions_def case_prod_beta)
  have f: "frames_ok r2" using p k(6) by (simp add: line_at_def)
  have "env_ok \<lparr>scene_trees = trees, thread_pool = rb_pool r2, tf_frames = rb_frames r2\<rparr>"
    using f assms(3) by (auto simp: env_ok_def frames_ok_def split: option.splits)
  from update_sensors_ends[OF this] obtain ss where ss: "update_sensors
      \<lparr>scene_trees = trees, thread_pool = rb_pool r2, tf_frames = rb_frames r2\<rparr> dt (rb_sim_time r2) (rb_sensors r2) = Some ss" by blast
  let ?r' = "r2\<lparr>rb_sensors := ss, info_pose := rb_pose r2, info_vel := rb_vel r2\<rparr>"
  have "robot_update ei trees dt r = Some (Inr (), ?r')"
    unfolding robot_update_def Let_def r1_def[symmetric] r2_def[symmetric] ss by simp
  moreover have "line_at c d as ?r'"
    by (rule line_at_same[OF _ _ _ _ _ _ p[THEN conjunct2, THEN conjunct2]]) (use k f in simp_all)
  ultimately show ?thesis using p k t by simp
qed

lemma rb_step_line:
  assumes "line_at c d (as @ requests [e]) (case e of Request a \<Rightarrow> snd (set_action a r) | _ \<Rightarrow> r)" "in_order (as @ requests [e])" "event_ok e"
  shows "\<exists>r'. rb_step ei e r = Some r' \<and> line_at c d (as @ requests [e]) r'"
proof (cases e)
  case (Update trees dt)
  then show ?thesis using robot_update_line[of c d as r trees dt ei] assms by auto
next
  case (Contact cs)
  then show ?thesis using assms(1) by (simp add: notify_collision_def line_at_def)
next
  case ClearContact
  then show ?thesis using assms(1) by (simp add: clear_collision_state_def line_at_def)
qed (use assms(1) in simp)

lemma request_line: "line_at c d as r \<Longrightarrow> line_at c d (as @ [a]) (snd (set_action a r))"
proof -
  assume "line_at c d as r"
  then obtain n where n: "mset (delayed_actions r) = mset (map (entry c d) (drop n as))"
    "current_cmd r = last (default_command # map (scaled_cmd c) (take n as))" "\<forall>a\<in>set (take n as). due d (rb_sim_time r) a"
    and c: "kinematics (rb_profile r) = c" "action_delay_s (rb_config r) = d" "frames_ok r" by (auto simp: line_at_def)
  let ?n = "min n (length as)"
  have "mset (delayed_actions (snd (set_action a r))) = mset (map (entry c d) (drop ?n (as @ [a])))"
    using n(1) c(1,2) by (simp add: set_action_def Let_def entry_def min_def)
  moreover have "take ?n (as @ [a]) = take n as" by (simp add: min_def)
  ultimately show ?thesis using n(2,3) c unfolding line_at_def
    by (intro conjI exI[of _ ?n]) (simp_all add: set_action_def Let_def)
qed

lemma rb_run_line:
  assumes "line_at c d [] r" "in_order (requests es)" "\<forall>e\<in>set es. event_ok e"
  shows "\<exists>r'. rb_run ei es r = Some r' \<and> line_at c d (requests es) r'"
  using assms(2,3)
proof (induction es rule: rev_induct)
  case Nil
  then show ?case using assms(1) by simp
next
  case (snoc e es)
  then have o: "in_order (requests es)" by (simp add: in_order_def sorted_wrt_append)
  with snoc obtain r' where r': "rb_run ei es r = Some r'" "line_at c d (requests es) r'" by auto
  have "line_at c d (requests es @ requests [e]) (case e of Request a \<Rightarrow> snd (set_action a r') | _ \<Rightarrow> r')"
    using r'(2) request_line by (cases e) simp_all
  from rb_step_line[OF this, of ei] snoc.prems r'(1) show ?case by (auto simp: rb_run_append bind_eq_Some_conv)
qed

section \<open>Properties\<close>

lemma make_robot_line: "make_robot p = Inr r \<Longrightarrow> frames_ok r \<Longrightarrow> line_at (kinematics (rb_profile r)) (action_delay_s (rb_config r)) [] r"
  by (auto simp: make_robot_def line_at_def split: option.splits)


definition demo_params :: robot_params where
  "demo_params = \<lparr>pr_config = \<lparr>robot_name = ''r'', robot_profile_id = ''p'', action_delay_s = 1\<rparr>,
     pr_profile = Some \<lparr>rp_name = ''p'', rp_model_id = ''m'', kinematics = demo_caps, profile_sensors = []\<rparr>,
     pr_pool = None, pr_frames = None, pr_model = \<lparr>profile_name = ''m'', parts = []\<rparr>, pr_base_frame = ''base_link'',
     pr_entity_id = 0, pr_sim_id = 0, pr_initial_pose = zero_pose, pr_sensor_tapes = (\<lambda>i. (sconst 0, sconst 0))\<rparr>"

definition demo_robot :: robot where
  "demo_robot = projr (make_robot demo_params)"

lemma demo_robot_made: "make_robot demo_params = Inr demo_robot"
  by (simp add: demo_robot_def make_robot_def demo_params_def)

lemma demo_robot_frames: "frames_ok demo_robot"
  by (simp add: demo_robot_def make_robot_def demo_params_def frames_ok_def)

definition demo_request :: "real \<Rightarrow> real \<Rightarrow> action" where
  "demo_request t v = default_action\<lparr>act_timestamp := t, act_cmd := \<lparr>cmd_steer = 0, cmd_speed = v, cmd_reverse = False\<rparr>\<rparr>"


section \<open>Collisions\<close>

lemma target_speed_gear: "reverse_gear m \<Longrightarrow> 0 \<le> d \<Longrightarrow> caps_ok (caps m) \<Longrightarrow> target_speed_of d m \<le> 0"
  by (simp add: target_speed_of_def clamp_def caps_ok_def Let_def)

lemma target_speed_zero: "caps_ok (caps m) \<Longrightarrow> target_speed_of 0 m = 0"
  by (simp add: target_speed_of_def clamp_def caps_ok_def Let_def)

text \<open>When a held-back command meets the vehicle, and when it does not.\<close>

lemma gate_target:
  assumes "caps_ok (caps m)" "cmd_reverse cmd \<or> cmd_speed cmd \<le> 0"
  defines "d \<equiv> max 0 (cmd_speed cmd)"
  shows "target_speed_of d (select_gear dt d (cmd_reverse cmd) m) \<le> 0 \<or>
    (0 < d \<and> cmd_reverse cmd \<and> \<not> reverse_gear m \<and> 0 < gear_hold_remaining_s (select_gear dt d (cmd_reverse cmd) m))"
proof (cases "d = 0")
  case True
  then show ?thesis using target_speed_zero[of "select_gear dt d (cmd_reverse cmd) m"] assms(1) by simp
next
  case False
  then have d: "0 < d" "cmd_reverse cmd" using assms(2) by (auto simp: d_def)
  show ?thesis
  proof (cases "reverse_gear (select_gear dt d (cmd_reverse cmd) m)")
    case True
    then show ?thesis using target_speed_gear[OF True, of d] d assms(1) by simp
  next
    case g: False
    then have "\<not> reverse_gear m \<and> 0 < gear_hold_remaining_s (select_gear dt d (cmd_reverse cmd) m)"
      using d by (auto simp: select_gear_def Let_def split: if_splits)
    with d show ?thesis by blast
  qed
qed

lemma step_publish_vehicle:
  "vehicle (publish_frame (step_vehicle dt r)) = ackermann_step dt (effective_cmd r) (vehicle r)"
  "last_applied_cmd (publish_frame (step_vehicle dt r)) = effective_cmd r"
  by (simp_all add: publish_frame_def step_vehicle_def Let_def split: option.splits sum.splits)

lemma robot_update_vehicle:
  assumes "robot_update ei trees dt r = Some (res, r')"
  defines "r1 \<equiv> process_delayed_actions ei (r\<lparr>rb_sim_time := rb_sim_time r + dt\<rparr>)"
  shows "vehicle r' = ackermann_step dt (effective_cmd r1) (vehicle r)" "last_applied_cmd r' = effective_cmd r1"
    "current_cmd r' = current_cmd r1" "is_collided r1 = is_collided r"
proof -
  have v: "vehicle r1 = vehicle r" "is_collided r1 = is_collided r" by (simp_all add: r1_def process_delayed_actions_def case_prod_beta)
  show "vehicle r' = ackermann_step dt (effective_cmd r1) (vehicle r)" "last_applied_cmd r' = effective_cmd r1"
    "current_cmd r' = current_cmd r1" "is_collided r1 = is_collided r"
    using assms(1) unfolding robot_update_def Let_def r1_def[symmetric]
    by (auto simp: step_publish_vehicle v step_publish_keeps split: option.splits)
qed

lemma effective_gate: "is_collided r \<Longrightarrow> cmd_reverse (effective_cmd r) \<or> cmd_speed (effective_cmd r) \<le> 0"
  by (auto simp: effective_cmd_def)

text \<open>C25: In an update of a colliding robot the forward speed does not grow above its value before the
  update, with one gap: a command to reverse that is in force while the vehicle is in forward gear
  and the hold time of the gear runs passes the gate (and can drive the robot forward into the
  obstacle, as the witness shows).\<close>

theorem robot_collision_gate:
  assumes "robot_update ei trees dt r = Some (Inr (), r')" "is_collided r" "0 < dt"
    "caps_ok (caps (vehicle r))" "ackermann_inv (vehicle r)"
  shows "speed (state (vehicle r')) \<le> max 0 (speed (state (vehicle r))) \<or>
    (cmd_reverse (current_cmd r') \<and> 0 < cmd_speed (current_cmd r') \<and> \<not> reverse_gear (vehicle r) \<and> 0 < rb_gear_hold r')"
proof -
  define r1 where "r1 = process_delayed_actions ei (r\<lparr>rb_sim_time := rb_sim_time r + dt\<rparr>)"
  note v = robot_update_vehicle[OF assms(1), folded r1_def]
  let ?m = "vehicle r" and ?c = "effective_cmd r1"
  let ?d = "max 0 (cmd_speed ?c)"
  let ?g = "select_gear dt ?d (cmd_reverse ?c) ?m"
  have gate: "cmd_reverse ?c \<or> cmd_speed ?c \<le> 0" using effective_gate v(4) assms(2) by blast
  have m: "- max_speed (caps_rev (caps ?m)) \<le> speed (state ?m)" "speed (state ?m) \<le> max_speed (caps_fwd (caps ?m))"
    using assms(5) by (auto simp: ackermann_inv_def)
  have w: "speed (state (vehicle r')) \<le> max (speed (state ?m)) (target_speed_of ?d ?g)"
    using apply_speed_spec[OF assms(4,3) m, of "cmd_speed ?c" "cmd_reverse ?c"] by (simp add: v(1) ackermann_step_def)
  have hold: "rb_gear_hold r' = max 0 (gear_hold_remaining_s ?g)"
    by (simp add: rb_gear_hold_def gear_hold_time_remaining_def v(1) ackermann_step_def)
  from gate_target[OF assms(4) gate, of dt] show ?thesis
  proof
    assume "target_speed_of ?d ?g \<le> 0"
    with w show ?thesis by linarith
  next
    assume h: "0 < ?d \<and> cmd_reverse ?c \<and> \<not> reverse_gear ?m \<and> 0 < gear_hold_remaining_s ?g"
    then have "?c = current_cmd r'" by (auto simp: effective_cmd_def v(3) split: if_splits)
    with h hold show ?thesis by (auto simp: max_def split: if_splits)
  qed
qed

definition stuck_robot :: robot where
  "stuck_robot = demo_robot\<lparr>is_collided := True, current_cmd := \<lparr>cmd_steer = 0, cmd_speed = 1, cmd_reverse = True\<rparr>,
     vehicle := (make_model demo_caps)\<lparr>gear_hold_remaining_s := 1\<rparr>\<rparr>"

lemma stuck_robot_update:
  "\<exists>r'. robot_update earliest_first None (1 / 2) stuck_robot = Some (Inr (), r')"
  by (simp add: robot_update_def Let_def process_delayed_actions_def case_prod_beta stuck_robot_def demo_robot_def
      make_robot_def demo_params_def publish_frame_def step_vehicle_def apply_due.simps)

text \<open>A robot in collision that asks for the reverse gear during the hold time speeds up forward.\<close>

theorem robot_collision_gate_witness:
  "\<exists>r'. robot_update earliest_first None (1 / 2) stuck_robot = Some (Inr (), r') \<and> is_collided stuck_robot \<and>
     0 < speed (state (vehicle r')) \<and> 0 < rb_gear_hold r'"
proof -
  obtain r' where r': "robot_update earliest_first None (1 / 2) stuck_robot = Some (Inr (), r')" using stuck_robot_update by blast
  have c: "is_collided stuck_robot" "caps_ok (caps (vehicle stuck_robot))" "ackermann_inv (vehicle stuck_robot)"
    "speed (state (vehicle stuck_robot)) = 0"
    using demo_caps_ok make_model_inv[OF demo_caps_ok] by (simp_all add: stuck_robot_def make_model_def ackermann_inv_def)
  have e: "effective_cmd (process_delayed_actions earliest_first (stuck_robot\<lparr>rb_sim_time := rb_sim_time stuck_robot + 1 / 2\<rparr>)) =
      \<lparr>cmd_steer = 0, cmd_speed = 1, cmd_reverse = True\<rparr>"
    by (simp add: process_delayed_actions_def stuck_robot_def demo_robot_def make_robot_def demo_params_def apply_due.simps effective_cmd_def)
  have "speed (state (vehicle r')) = 1 / 2"
    unfolding robot_update_vehicle(1)[OF r'] e
    by (simp add: ackermann_step_def apply_speed_command_def select_gear_def target_speed_of_def stuck_robot_def
        make_model_def demo_caps_def clamp_def Let_def)
  with robot_collision_gate[OF r' c(1) _ c(2,3)] r' c show ?thesis by auto
qed

section \<open>Frames\<close>

definition sensor_frames_ok :: "string \<Rightarrow> sensor_config list \<Rightarrow> bool" where
  "sensor_frames_ok frame cfgs \<longleftrightarrow> frame \<noteq> '''' \<and> frame \<noteq> ''world'' \<and>
     (\<forall>c\<in>set cfgs. frame_id (base_config c) \<notin> {frame, ''world'', ''''} \<and> rigid (pose_rel_base (base_config c)))"

text \<open>Every frame is a root or hangs from the base of the robot.\<close>

definition star :: "string \<Rightarrow> tf_buffer \<Rightarrow> bool" where
  "star frame b \<longleftrightarrow> tf_ok b \<and> (\<exists>n. b ''world'' = Some n \<and> tf_parent n = '''') \<and>
     (\<forall>f n. b f = Some n \<longrightarrow> f \<in> {frame, ''world'', ''''} \<or> tf_parent n = frame)"

lemma star_static:
  assumes "star frame b" "frame \<noteq> ''''" "frame \<noteq> ''world''" "f \<notin> {frame, ''world'', ''''}" "rigid t"
  shows "star frame (set_static_transform frame f t b)"
proof -
  have "tf_op_ok (SetStatic frame f t) b" using assms by (auto simp: star_def edge_ok_def split: option.splits)
  then have "tf_ok (set_static_transform frame f t b)" using assms(1) tf_apply_ok[of b "SetStatic frame f t"] by (simp add: star_def)
  then show ?thesis using assms by (auto simp: star_def set_static_transform_def try_emplace_def split: if_splits)
qed

lemma sensor_frames_star: "star frame b \<Longrightarrow> sensor_frames_ok frame cfgs \<Longrightarrow> star frame (sensor_frames frame cfgs b)"
proof (induction cfgs arbitrary: b)
  case (Cons c cfgs)
  then have "star frame (set_static_transform frame (frame_id (base_config c)) (pose_rel_base (base_config c)) b)"
    by (intro star_static) (auto simp: sensor_frames_ok_def)
  with Cons show ?case by (simp add: sensor_frames_def sensor_frames_ok_def)
qed (simp add: sensor_frames_def)

text \<open>The buffer of a world, before the robot is made.\<close>

lemma world_frame_star: "star frame (register_frame '''' ''world'' Map.empty)"
  by (auto simp: star_def register_frame_def try_emplace_def node_at_def tf_ok_def ranked_def ran_def node_ok_parent new_node_def[THEN arg_cong, of tf_parent])

lemma make_robot_frames:
  assumes "make_robot p = Inr r" "pr_frames p = Some (register_frame '''' ''world'' Map.empty)"
    "pr_profile p = Some prof" "sensor_frames_ok (pr_base_frame p) (profile_sensors prof)"
  shows "frames_ok r"
  using assms sensor_frames_star[OF world_frame_star assms(4)]
  by (auto simp: make_robot_def frames_ok_def star_def sensor_frames_ok_def)

end
