(* ===== verification/Clearance.thy ===== *)
theory Clearance
  imports Encoding Robot
begin

text \<open>
  The clearance ahead of the robot: \<^verbatim>\<open>compute_forward_clearance_scan_like\<close> of
  \<^verbatim>\<open>sim/world.cpp\<close>. The points of the sensors are sorted into 72 bins by their direction, and the
  clearance is the least range in the bins whose centre lies in the cone. A range without points
  is infinite, which is \<open>None\<close>.
\<close>

definition k_scan_bins :: nat where "k_scan_bins = 72"

definition min_range_of :: "real option \<Rightarrow> real \<Rightarrow> real option" where
  "min_range_of m r = (case m of None \<Rightarrow> Some r | Some x \<Rightarrow> Some (min x r))"

definition min_ranges :: "real option \<Rightarrow> real option \<Rightarrow> real option" where
  "min_ranges a b = (case b of None \<Rightarrow> a | Some r \<Rightarrow> min_range_of a r)"

definition scan_bin :: "vec2 \<Rightarrow> nat" where
  "scan_bin e =
     (let wrapped = (atan2 (vy e) (vx e) + pi) / (2 * pi)
      in nat (min (max \<lfloor>wrapped * real k_scan_bins\<rfloor> 0) (int k_scan_bins - 1)))"

definition relative_to :: "pose2 \<Rightarrow> point3 \<Rightarrow> vec2" where
  "relative_to p q = ego (yaw p) (vec (p3x q - px (pos p)) (p3y q - py (pos p)))"

definition add_range :: "pose2 \<Rightarrow> point3 \<Rightarrow> real option list \<Rightarrow> real option list" where
  "add_range p q ranges =
     (let e = relative_to p q; range = vec_length e
      in if range \<le> 1 / 1000000 then ranges
         else ranges[scan_bin e := min_range_of (ranges ! scan_bin e) range])"

definition sensor_points :: "sensor list \<Rightarrow> point3 list" where
  "sensor_points ss =
     concat (map (\<lambda>s. if has_data s then (case cached_cloud s of None \<Rightarrow> [] | Some c \<Rightarrow> c) else []) ss)"

definition bin_center :: "nat \<Rightarrow> real" where
  "bin_center i = - pi + (real i + 5 / 10) * (2 * pi / real k_scan_bins)"

definition forward_clearance :: "sensor list \<Rightarrow> pose2 \<Rightarrow> real \<Rightarrow> real option" where
  "forward_clearance sensors robot_pose half_angle_rad =
     (if sensors = [] then None
      else let cone = clamp half_angle_rad (1 / 1000) pi;
               scan_ranges = fold (add_range robot_pose) (sensor_points sensors) (replicate k_scan_bins None)
           in fold (\<lambda>i m. if \<bar>bin_center i\<bar> > cone then m else min_ranges m (scan_ranges ! i)) [0..<length scan_ranges] None)"

section \<open>The least range in the cone\<close>

text \<open>\<open>least m rs\<close>: the option is the minimum of a set of ranges.\<close>

definition least :: "real option \<Rightarrow> real set \<Rightarrow> bool" where
  "least m rs \<longleftrightarrow> (case m of None \<Rightarrow> rs = {} | Some x \<Rightarrow> x \<in> rs \<and> (\<forall>y\<in>rs. x \<le> y))"

lemma least_add: "least m rs \<Longrightarrow> least (min_range_of m r) (insert r rs)"
  by (auto simp: least_def min_range_of_def min_def split: option.splits)

lemma least_join: "least a rs \<Longrightarrow> least b ss \<Longrightarrow> least (min_ranges a b) (rs \<union> ss)"
  by (cases a; cases b) (auto simp: least_def min_ranges_def min_range_of_def min_def not_le intro: order_trans less_imp_le)

lemma scan_bin_less: "scan_bin e < k_scan_bins"
  by (simp add: scan_bin_def Let_def k_scan_bins_def nat_less_iff)

text \<open>The points that count, and their ranges.\<close>

definition counts :: "pose2 \<Rightarrow> point3 \<Rightarrow> bool" where
  "counts p q \<longleftrightarrow> 1 / 1000000 < vec_length (relative_to p q)"

lemma add_ranges_least:
  assumes "length ranges = k_scan_bins" "\<forall>i < k_scan_bins. least (ranges ! i) (rs i)"
  shows "length (fold (add_range p) qs ranges) = k_scan_bins \<and>
    (\<forall>i < k_scan_bins. least (fold (add_range p) qs ranges ! i)
       (rs i \<union> (\<lambda>q. vec_length (relative_to p q)) ` {q \<in> set qs. counts p q \<and> scan_bin (relative_to p q) = i}))"
  using assms
proof (induction qs arbitrary: ranges rs)
  case (Cons q qs)
  let ?r = "vec_length (relative_to p q)" and ?b = "scan_bin (relative_to p q)"
  define rs' where "rs' i = (if counts p q \<and> ?b = i then insert ?r (rs i) else rs i)" for i
  have b: "?b < length ranges" using Cons.prems(1) scan_bin_less by simp
  have 1: "\<forall>i < k_scan_bins. least (add_range p q ranges ! i) (rs' i)"
    using Cons.prems b by (auto simp: add_range_def rs'_def counts_def Let_def nth_list_update intro: least_add)
  have "length (add_range p q ranges) = k_scan_bins" using Cons.prems(1) by (simp add: add_range_def Let_def)
  note Cons.IH[OF this 1]
  moreover have "rs' i \<union> (\<lambda>q. vec_length (relative_to p q)) ` {q \<in> set qs. counts p q \<and> scan_bin (relative_to p q) = i} =
      rs i \<union> (\<lambda>q. vec_length (relative_to p q)) ` {x \<in> set (q # qs). counts p x \<and> scan_bin (relative_to p x) = i}" for i
    by (auto simp: rs'_def)
  ultimately show ?case by simp
qed simp

lemma fold_least:
  assumes "least m rs" "\<forall>i\<in>set is. least (g i) (ss i)"
  shows "least (fold (\<lambda>i m. if P i then m else min_ranges m (g i)) is m) (rs \<union> \<Union> (ss ` {i \<in> set is. \<not> P i}))"
  using assms
proof (induction "is" arbitrary: m rs)
  case (Cons i "is")
  have "least (if P i then m else min_ranges m (g i)) (if P i then rs else rs \<union> ss i)"
    using Cons.prems by (simp add: least_join)
  from Cons.IH[OF this] Cons.prems(2)
  have "least (fold (\<lambda>i m. if P i then m else min_ranges m (g i)) (i # is) m)
      ((if P i then rs else rs \<union> ss i) \<union> \<Union> (ss ` {i \<in> set is. \<not> P i}))" by simp
  moreover have "(if P i then rs else rs \<union> ss i) \<union> \<Union> (ss ` {i \<in> set is. \<not> P i}) = rs \<union> \<Union> (ss ` {x \<in> set (i # is). \<not> P x})"
    by auto
  ultimately show ?case by simp
qed simp

text \<open>The clearance is the least range of the points whose bin lies in the cone.\<close>

lemma forward_clearance_least:
  "least (forward_clearance sensors p half)
     ((\<lambda>q. vec_length (relative_to p q)) ` {q \<in> set (sensor_points sensors). counts p q \<and>
        \<bar>bin_center (scan_bin (relative_to p q))\<bar> \<le> clamp half (1 / 1000) pi})"
proof (cases "sensors = []")
  case True
  then show ?thesis by (simp add: forward_clearance_def least_def sensor_points_def)
next
  case False
  let ?f = "\<lambda>q. vec_length (relative_to p q)" and ?qs = "sensor_points sensors" and ?cone = "clamp half (1 / 1000) pi"
  let ?ranges = "fold (add_range p) ?qs (replicate k_scan_bins None)"
  let ?ss = "\<lambda>i. ?f ` {q \<in> set ?qs. counts p q \<and> scan_bin (relative_to p q) = i}"
  have r: "length ?ranges = k_scan_bins" "\<forall>i < k_scan_bins. least (?ranges ! i) (?ss i)"
    using add_ranges_least[of "replicate k_scan_bins None" "\<lambda>i. {}" p ?qs] by (simp_all add: least_def)
  have "least (fold (\<lambda>i m. if \<bar>bin_center i\<bar> > ?cone then m else min_ranges m (?ranges ! i)) [0..<length ?ranges] None)
      ({} \<union> \<Union> (?ss ` {i \<in> set [0..<length ?ranges]. \<not> \<bar>bin_center i\<bar> > ?cone}))"
    by (rule fold_least) (use r in \<open>simp_all add: least_def[of None]\<close>)
  moreover have "{} \<union> \<Union> (?ss ` {i \<in> set [0..<length ?ranges]. \<not> \<bar>bin_center i\<bar> > ?cone}) =
      ?f ` {q \<in> set ?qs. counts p q \<and> \<bar>bin_center (scan_bin (relative_to p q))\<bar> \<le> ?cone}"
    using scan_bin_less unfolding r(1) by (auto simp: not_less)
  ultimately show ?thesis using False by (simp add: forward_clearance_def Let_def)
qed

end
