(* ===== verification/DynObject.thy ===== *)
theory DynObject
  imports RL
begin

text \<open>
  Dynamic objects: \<^verbatim>\<open>sim/object.hpp\<close> and \<^verbatim>\<open>object.cpp\<close>, with the follow profile of
  \<^verbatim>\<open>config/dynamic_profile.hpp\<close>. The state machine has the states active, stopped and
  inactive; the pseudo-random draws come from a tape. Of the follow configurations the fields
  the object reads are kept.
\<close>

datatype object_state = ACTIVE | STOPPED | INACTIVE

record linear_cfg =
  lin_caps :: motion_caps
  lin_speed_min :: real
  lin_speed_max :: real

record ackermann_follow_cfg =
  acker_caps :: ackermann_caps
  cruise_speed_min :: real
  cruise_speed_max :: real

datatype follow_cfg = LinearConst linear_cfg | LinearPID linear_cfg | AckermannFollow ackermann_follow_cfg

record dynamic_profile =
  dp_name :: string
  follow :: follow_cfg
  local_points :: "pose2 list"
  reached_pos_tol :: real
  wp_loop :: bool

record dyn_object =
  object_id :: nat
  profile :: dynamic_profile
  fsm :: object_state
  current_pose :: pose2
  current_vel :: twist2
  sim_time :: real
  stop_start_time :: real
  current_waypoint_idx :: nat
  current_speed :: real
  target_speed :: real
  waypoints_world :: "point2 list"
  waypoint_reached_tol :: real
  waypoints_loop :: bool
  in_collision :: bool
  collision_start_time :: real
  obj_rng :: rng
  next_random_stop_time :: real

definition stop_dwell_random :: real where "stop_dwell_random = 3 / 2"
definition stop_dwell_collision :: real where "stop_dwell_collision = 3"

fun speed_range :: "follow_cfg \<Rightarrow> real \<times> real" where
  "speed_range (LinearConst c) = (lin_speed_min c, lin_speed_max c)"
| "speed_range (LinearPID c) = (lin_speed_min c, lin_speed_max c)"
| "speed_range (AckermannFollow c) = (cruise_speed_min c, cruise_speed_max c)"

fun follow_caps :: "follow_cfg \<Rightarrow> motion_caps" where
  "follow_caps (LinearConst c) = lin_caps c"
| "follow_caps (LinearPID c) = lin_caps c"
| "follow_caps (AckermannFollow c) = caps_fwd (acker_caps c)"

definition motion_caps_max_accel :: "dyn_object \<Rightarrow> real" where
  "motion_caps_max_accel ob = max_accel (follow_caps (follow (profile ob)))"

definition motion_caps_max_decel :: "dyn_object \<Rightarrow> real" where
  "motion_caps_max_decel ob = max_decel (follow_caps (follow (profile ob)))"

definition clamp_heading_rate :: "real \<Rightarrow> real" where
  "clamp_heading_rate desired_rate = clamp desired_rate (- 1) 1"

definition sample_new_target_speed :: "dyn_object \<Rightarrow> dyn_object" where
  "sample_new_target_speed ob =
     (let (lo, hi) = speed_range (follow (profile ob)); (v, r) = draw_uniform lo hi (obj_rng ob)
      in ob\<lparr>target_speed := v, obj_rng := r\<rparr>)"

definition schedule_next_random_stop :: "dyn_object \<Rightarrow> dyn_object" where
  "schedule_next_random_stop ob =
     (let (d, r) = draw_exponential (1 / 20) (obj_rng ob)
      in ob\<lparr>next_random_stop_time := sim_time ob + d, obj_rng := r\<rparr>)"

definition resample :: "dyn_object \<Rightarrow> dyn_object" where
  "resample ob = schedule_next_random_stop (sample_new_target_speed ob)"

definition make_dyn_object :: "nat \<Rightarrow> pose2 \<Rightarrow> dynamic_profile \<Rightarrow> rng \<Rightarrow> dyn_object" where
  "make_dyn_object oid pose prof r =
     resample
       \<lparr>object_id = oid, profile = prof, fsm = INACTIVE, current_pose = pose, current_vel = zero_twist,
        sim_time = 0, stop_start_time = - 1, current_waypoint_idx = 0, current_speed = 0, target_speed = 0,
        waypoints_world = map (\<lambda>w. transform_point pose (pos w)) (local_points prof),
        waypoint_reached_tol = reached_pos_tol prof, waypoints_loop = wp_loop prof, in_collision = False,
        collision_start_time = 0, obj_rng = r, next_random_stop_time = - 1\<rparr>"

section \<open>Motion\<close>

definition along :: "real \<Rightarrow> pose2 \<Rightarrow> vec2" where
  "along v p = vec (v * cos (yaw p)) (v * sin (yaw p))"

definition update_waypoint_following :: "dyn_object \<Rightarrow> dyn_object" where
  "update_waypoint_following ob =
     (if waypoints_world ob = []
      then ob\<lparr>current_vel := \<lparr>linear = along (current_speed ob) (current_pose ob), angular = 0\<rparr>\<rparr>
      else if current_waypoint_idx ob \<ge> length (waypoints_world ob)
      then ob\<lparr>current_vel := zero_twist, current_speed := 0\<rparr>
      else let wp = waypoints_world ob ! current_waypoint_idx ob;
               dx = px wp - px (pos (current_pose ob)); dy = py wp - py (pos (current_pose ob));
               yaw_error = normalize_angle (atan2 dy dx - yaw (current_pose ob));
               lin = along (current_speed ob) (current_pose ob);
               ang = (case follow (profile ob) of
                        LinearConst _ \<Rightarrow> clamp_heading_rate (yaw_error * 2)
                      | LinearPID _ \<Rightarrow> clamp_heading_rate (yaw_error * 2)
                      | AckermannFollow cfg \<Rightarrow>
                          let lim = max_steer_angle (acker_caps cfg);
                              steering = clamp yaw_error (- lim) lim;
                              turn_radius = (if \<bar>steering\<bar> > 1 / 1000000
                                             then wheel_base (acker_caps cfg) / tan steering else 1000000)
                          in if \<bar>turn_radius\<bar> > 1 / 1000000 then current_speed ob / turn_radius else 0)
           in ob\<lparr>current_vel := \<lparr>linear = lin, angular = ang\<rparr>\<rparr>)"

definition check_waypoint_reached :: "dyn_object \<Rightarrow> bool" where
  "check_waypoint_reached ob \<longleftrightarrow>
     waypoints_world ob \<noteq> [] \<and> current_waypoint_idx ob < length (waypoints_world ob) \<and>
     distance (pos (current_pose ob)) (waypoints_world ob ! current_waypoint_idx ob) < waypoint_reached_tol ob"

definition advance_to_next_waypoint :: "dyn_object \<Rightarrow> dyn_object" where
  "advance_to_next_waypoint ob =
     (let o1 = ob\<lparr>current_waypoint_idx := current_waypoint_idx ob + 1\<rparr>
      in if current_waypoint_idx o1 \<ge> length (waypoints_world o1)
         then if waypoints_loop o1 then sample_new_target_speed (o1\<lparr>current_waypoint_idx := 0\<rparr>)
              else o1\<lparr>fsm := INACTIVE\<rparr>
         else o1)"

definition integrate_motion :: "real \<Rightarrow> dyn_object \<Rightarrow> dyn_object" where
  "integrate_motion dt ob =
     (let p = current_pose ob; v = current_vel ob
      in ob\<lparr>current_pose :=
             \<lparr>pos = pt (px (pos p) + vx (linear v) * dt) (py (pos p) + vy (linear v) * dt),
              yaw = normalize_angle (yaw p + angular v * dt)\<rparr>\<rparr>)"

definition approach_target :: "real \<Rightarrow> dyn_object \<Rightarrow> dyn_object" where
  "approach_target dt ob =
     (if current_speed ob < target_speed ob
      then ob\<lparr>current_speed := min (target_speed ob) (current_speed ob + motion_caps_max_accel ob * dt)\<rparr>
      else if current_speed ob > target_speed ob
      then ob\<lparr>current_speed := max (target_speed ob) (current_speed ob - motion_caps_max_decel ob * dt)\<rparr>
      else ob)"

definition update_motion :: "real \<Rightarrow> dyn_object \<Rightarrow> dyn_object" where
  "update_motion dt ob =
     (if next_random_stop_time ob > 0 \<and> sim_time ob \<ge> next_random_stop_time ob
      then schedule_next_random_stop
             (ob\<lparr>fsm := STOPPED, in_collision := False, stop_start_time := sim_time ob\<rparr>)
      else let o1 = approach_target dt (update_waypoint_following ob)
           in if check_waypoint_reached o1 then advance_to_next_waypoint o1 else o1)"

definition resume_motion :: "dyn_object \<Rightarrow> dyn_object" where
  "resume_motion ob =
     (let o2 = sample_new_target_speed
            (ob\<lparr>fsm := ACTIVE, in_collision := False, stop_start_time := - 1,
                current_waypoint_idx :=
                  (if current_waypoint_idx ob \<ge> length (waypoints_world ob) then 0
                   else current_waypoint_idx ob)\<rparr>)
      in o2\<lparr>current_vel := (current_vel o2)\<lparr>linear := along (current_speed o2) (current_pose o2)\<rparr>\<rparr>)"

definition object_update :: "real \<Rightarrow> dyn_object \<Rightarrow> dyn_object" where
  "object_update dt o0 =
     (let ob = o0\<lparr>sim_time := sim_time o0 + dt\<rparr>
      in case fsm ob of
           INACTIVE \<Rightarrow> ob\<lparr>current_vel := zero_twist, current_speed := 0\<rparr>
         | STOPPED \<Rightarrow>
             (let decel = max 15 (motion_caps_max_decel ob);
                  v = max 0 (current_speed ob - decel * dt);
                  o1 = integrate_motion dt
                         (ob\<lparr>current_speed := v,
                            current_vel := \<lparr>linear = along v (current_pose ob), angular = 0\<rparr>\<rparr>);
                  dwell = (if in_collision o1 then stop_dwell_collision else stop_dwell_random)
              in if stop_start_time o1 \<ge> 0 \<and> sim_time o1 - stop_start_time o1 \<ge> dwell
                 then resume_motion o1 else o1)
         | ACTIVE \<Rightarrow> integrate_motion dt (update_motion dt ob))"

section \<open>Calls of the world and the spawn manager\<close>

definition object_on_collision :: "dyn_object \<Rightarrow> dyn_object" where
  "object_on_collision ob =
     (if fsm ob = ACTIVE
      then ob\<lparr>fsm := STOPPED, in_collision := True, collision_start_time := sim_time ob,
             stop_start_time := sim_time ob\<rparr>
      else ob)"

definition object_teleport :: "pose2 \<Rightarrow> dyn_object \<Rightarrow> dyn_object" where
  "object_teleport p ob =
     resample (ob\<lparr>current_pose := p, current_vel := zero_twist, current_speed := 0,
                 current_waypoint_idx := 0, in_collision := False, stop_start_time := - 1\<rparr>)"

definition object_deactivate :: "dyn_object \<Rightarrow> dyn_object" where
  "object_deactivate ob =
     ob\<lparr>fsm := INACTIVE, current_vel := zero_twist, current_speed := 0, stop_start_time := - 1\<rparr>"

definition object_activate :: "dyn_object \<Rightarrow> dyn_object" where
  "object_activate ob =
     resample (ob\<lparr>fsm := ACTIVE, current_waypoint_idx := 0, in_collision := False, stop_start_time := - 1\<rparr>)"

definition override_waypoints :: "point2 list \<Rightarrow> bool \<Rightarrow> dyn_object \<Rightarrow> dyn_object" where
  "override_waypoints wps lp ob =
     resample (ob\<lparr>waypoints_world := wps, waypoints_loop := lp, current_waypoint_idx := 0, fsm := ACTIVE,
                 stop_start_time := - 1, in_collision := False, current_speed := 0\<rparr>)"

definition object_is_active :: "dyn_object \<Rightarrow> bool" where
  "object_is_active ob \<longleftrightarrow> fsm ob \<noteq> INACTIVE"

definition object_is_stuck :: "dyn_object \<Rightarrow> bool" where
  "object_is_stuck ob \<longleftrightarrow> fsm ob = STOPPED"

section \<open>The invariant of an object\<close>

datatype obj_event =
  Update real | Collide | Teleport pose2 | Deactivate | Activate | Reroute "point2 list" bool

fun obj_step :: "obj_event \<Rightarrow> dyn_object \<Rightarrow> dyn_object" where
  "obj_step (Update dt) ob = object_update dt ob"
| "obj_step Collide ob = object_on_collision ob"
| "obj_step (Teleport p) ob = object_teleport p ob"
| "obj_step Deactivate ob = object_deactivate ob"
| "obj_step Activate ob = object_activate ob"
| "obj_step (Reroute wps lp) ob = override_waypoints wps lp ob"

definition follow_ok :: "follow_cfg \<Rightarrow> bool" where
  "follow_ok f \<longleftrightarrow> 0 \<le> fst (speed_range f) \<and> fst (speed_range f) \<le> snd (speed_range f) \<and>
     0 \<le> max_accel (follow_caps f) \<and> 0 \<le> max_decel (follow_caps f)"

definition obj_inv :: "dyn_object \<Rightarrow> bool" where
  "obj_inv ob \<longleftrightarrow>
     follow_ok (follow (profile ob)) \<and> unit_tape (obj_rng ob) \<and>
     0 \<le> current_speed ob \<and> current_speed ob \<le> snd (speed_range (follow (profile ob))) \<and>
     fst (speed_range (follow (profile ob))) \<le> target_speed ob \<and>
     target_speed ob \<le> snd (speed_range (follow (profile ob))) \<and>
     0 \<le> sim_time ob \<and>
     (fsm ob = STOPPED \<longrightarrow> 0 \<le> stop_start_time ob \<and> stop_start_time ob \<le> sim_time ob)"

lemma sample_facts:
  assumes "follow_ok (follow (profile ob))" "unit_tape (obj_rng ob)"
  shows "fst (speed_range (follow (profile ob))) \<le> target_speed (sample_new_target_speed ob)"
    "target_speed (sample_new_target_speed ob) \<le> snd (speed_range (follow (profile ob)))"
    "unit_tape (obj_rng (sample_new_target_speed ob))"
  using assms draw_uniform_bounds[of "obj_rng ob" "fst (speed_range (follow (profile ob)))"
      "snd (speed_range (follow (profile ob)))"]
  by (auto simp: sample_new_target_speed_def follow_ok_def draw_uniform_def case_prod_beta)

lemma sample_keeps [simp]:
  "profile (sample_new_target_speed ob) = profile ob" "fsm (sample_new_target_speed ob) = fsm ob"
  "current_speed (sample_new_target_speed ob) = current_speed ob"
  "sim_time (sample_new_target_speed ob) = sim_time ob"
  "stop_start_time (sample_new_target_speed ob) = stop_start_time ob"
  "current_pose (sample_new_target_speed ob) = current_pose ob"
  "in_collision (sample_new_target_speed ob) = in_collision ob"
  "object_id (sample_new_target_speed ob) = object_id ob"
  by (simp_all add: sample_new_target_speed_def case_prod_beta Let_def)

lemma schedule_keeps [simp]:
  "profile (schedule_next_random_stop ob) = profile ob" "fsm (schedule_next_random_stop ob) = fsm ob"
  "current_speed (schedule_next_random_stop ob) = current_speed ob"
  "target_speed (schedule_next_random_stop ob) = target_speed ob"
  "sim_time (schedule_next_random_stop ob) = sim_time ob"
  "stop_start_time (schedule_next_random_stop ob) = stop_start_time ob"
  "current_pose (schedule_next_random_stop ob) = current_pose ob"
  "in_collision (schedule_next_random_stop ob) = in_collision ob"
  "object_id (schedule_next_random_stop ob) = object_id ob"
  "unit_tape (obj_rng ob) \<Longrightarrow> unit_tape (obj_rng (schedule_next_random_stop ob))"
  by (auto simp: schedule_next_random_stop_def draw_exponential_def case_prod_beta Let_def)

lemma integrate_keeps [simp]:
  "profile (integrate_motion dt ob) = profile ob" "fsm (integrate_motion dt ob) = fsm ob"
  "current_speed (integrate_motion dt ob) = current_speed ob"
  "target_speed (integrate_motion dt ob) = target_speed ob"
  "sim_time (integrate_motion dt ob) = sim_time ob"
  "stop_start_time (integrate_motion dt ob) = stop_start_time ob"
  "in_collision (integrate_motion dt ob) = in_collision ob"
  "obj_rng (integrate_motion dt ob) = obj_rng ob"
  "object_id (integrate_motion dt ob) = object_id ob"
  by (simp_all add: integrate_motion_def Let_def)

lemma following_keeps [simp]:
  "profile (update_waypoint_following ob) = profile ob" "fsm (update_waypoint_following ob) = fsm ob"
  "target_speed (update_waypoint_following ob) = target_speed ob"
  "sim_time (update_waypoint_following ob) = sim_time ob"
  "stop_start_time (update_waypoint_following ob) = stop_start_time ob"
  "obj_rng (update_waypoint_following ob) = obj_rng ob"
  "object_id (update_waypoint_following ob) = object_id ob"
  by (simp_all add: update_waypoint_following_def Let_def)

lemma following_speed:
  "0 \<le> current_speed ob \<Longrightarrow> 0 \<le> current_speed (update_waypoint_following ob) \<and>
     current_speed (update_waypoint_following ob) \<le> current_speed ob"
  by (simp add: update_waypoint_following_def Let_def)

lemma resample_inv:
  assumes "follow_ok (follow (profile ob))" "unit_tape (obj_rng ob)" "0 \<le> current_speed ob"
    "current_speed ob \<le> snd (speed_range (follow (profile ob)))" "0 \<le> sim_time ob" "fsm ob \<noteq> STOPPED"
  shows "obj_inv (resample ob)"
  using assms sample_facts[OF assms(1,2)] by (simp add: resample_def obj_inv_def)

text \<open>Teleporting a stopped object leaves it stopped with no start time; the callers deactivate it next.\<close>

lemma obj_inv_calls [inv_intros]:
  assumes "obj_inv ob"
  shows "obj_inv (object_on_collision ob)" "obj_inv (object_deactivate ob)" "obj_inv (object_activate ob)"
    "obj_inv (override_waypoints wps lp ob)" "fsm ob \<noteq> STOPPED \<Longrightarrow> obj_inv (object_teleport p ob)"
  using assms
  by (auto simp: object_on_collision_def object_deactivate_def object_activate_def override_waypoints_def
      object_teleport_def obj_inv_def[of ob] follow_ok_def intro!: resample_inv)
    (auto simp: obj_inv_def follow_ok_def)

lemma approach_inv:
  assumes "obj_inv ob" "0 \<le> dt" "fsm ob = ACTIVE"
  shows "obj_inv (approach_target dt (update_waypoint_following ob))"
proof -
  let ?o = "update_waypoint_following ob"
  have a: "0 \<le> motion_caps_max_accel ?o * dt" "0 \<le> motion_caps_max_decel ?o * dt"
    using assms by (auto simp: obj_inv_def follow_ok_def motion_caps_max_accel_def motion_caps_max_decel_def)
  have s: "0 \<le> current_speed ?o" "current_speed ?o \<le> current_speed ob"
    using following_speed[of ob] assms(1) by (auto simp: obj_inv_def)
  have lo: "0 \<le> fst (speed_range (follow (profile ob)))" using assms(1) by (simp add: obj_inv_def follow_ok_def)
  show ?thesis using assms(1,3) a s lo unfolding obj_inv_def approach_target_def by auto
qed

lemma advance_inv:
  assumes "obj_inv ob" "fsm ob = ACTIVE" shows "obj_inv (advance_to_next_waypoint ob)"
  using assms sample_facts[of "ob\<lparr>current_waypoint_idx := 0\<rparr>"]
  by (auto simp: advance_to_next_waypoint_def obj_inv_def Let_def)

lemma approach_fsm [simp]: "fsm (approach_target dt ob) = fsm ob" "sim_time (approach_target dt ob) = sim_time ob"
  by (simp_all add: approach_target_def)

lemma update_motion_inv:
  assumes "obj_inv ob" "0 \<le> dt" "fsm ob = ACTIVE" shows "obj_inv (update_motion dt ob)"
proof (cases "next_random_stop_time ob > 0 \<and> sim_time ob \<ge> next_random_stop_time ob")
  case True
  then show ?thesis using assms(1) by (simp add: update_motion_def obj_inv_def)
next
  case False
  have inv: "obj_inv (approach_target dt (update_waypoint_following ob))" by (rule approach_inv[OF assms])
  moreover have "fsm (approach_target dt (update_waypoint_following ob)) = ACTIVE" using assms(3) by simp
  ultimately show ?thesis using advance_inv by (simp add: update_motion_def Let_def if_not_P[OF False])
qed

lemma obj_inv_integrate: "obj_inv (integrate_motion dt ob) = obj_inv ob"
  by (simp add: obj_inv_def)

lemma resume_facts [simp]:
  "fsm (resume_motion ob) = ACTIVE" "sim_time (resume_motion ob) = sim_time ob"
  by (simp_all add: resume_motion_def Let_def)

lemma update_stopped_eqs:
  assumes "fsm ob = STOPPED"
  shows "sim_time (object_update dt ob) = sim_time ob + dt"
    and "fsm (object_update dt ob) = (if 0 \<le> stop_start_time ob \<and>
        (if in_collision ob then stop_dwell_collision else stop_dwell_random) \<le> sim_time ob + dt - stop_start_time ob
      then ACTIVE else STOPPED)"
    and "fsm (object_update dt ob) = STOPPED \<Longrightarrow>
      stop_start_time (object_update dt ob) = stop_start_time ob \<and> in_collision (object_update dt ob) = in_collision ob"
  using assms by (auto simp: object_update_def Let_def split: if_splits)

lemma resume_inv:
  assumes "obj_inv ob" shows "obj_inv (resume_motion ob)"
proof -
  have "obj_inv (sample_new_target_speed
      (ob\<lparr>fsm := ACTIVE, in_collision := False, stop_start_time := - 1, current_waypoint_idx := k\<rparr>))" for k
    using assms sample_facts[of "ob\<lparr>fsm := ACTIVE, in_collision := False, stop_start_time := - 1,
        current_waypoint_idx := k\<rparr>"]
    by (simp add: obj_inv_def)
  then show ?thesis unfolding resume_motion_def Let_def by (simp only: obj_inv_def, simp)
qed

lemma object_update_inv [inv_intros]:
  assumes "obj_inv ob" "0 \<le> dt" shows "obj_inv (object_update dt ob)"
proof (cases "fsm ob")
  case ACTIVE
  have "obj_inv (ob\<lparr>sim_time := sim_time ob + dt\<rparr>)" using assms ACTIVE by (simp add: obj_inv_def)
  from update_motion_inv[OF this assms(2)] ACTIVE show ?thesis
    by (simp add: object_update_def obj_inv_integrate)
next
  case INACTIVE
  then show ?thesis using assms by (auto simp: object_update_def obj_inv_def follow_ok_def)
next
  case STOPPED
  have pos: "0 \<le> max 15 (motion_caps_max_decel ob) * dt" using assms(2) by (simp add: max_def)
  define v where "v = max 0 (current_speed ob - max 15 (motion_caps_max_decel ob) * dt)"
  have v: "0 \<le> v" "v \<le> snd (speed_range (follow (profile ob)))"
    using assms(1) pos by (auto simp: obj_inv_def v_def)
  have d: "motion_caps_max_decel (ob\<lparr>sim_time := t\<rparr>) = motion_caps_max_decel ob" for t
    by (simp add: motion_caps_max_decel_def)
  define o1 where "o1 = integrate_motion dt (ob\<lparr>sim_time := sim_time ob + dt, current_speed := v,
      current_vel := \<lparr>linear = along v (current_pose ob), angular = 0\<rparr>\<rparr>)"
  have o1: "obj_inv o1" using assms STOPPED v by (auto simp: o1_def obj_inv_def)
  have "object_update dt ob = o1 \<or> object_update dt ob = resume_motion o1"
    using STOPPED by (simp add: object_update_def Let_def d v_def[symmetric] o1_def[symmetric])
  with o1 resume_inv[OF o1] show ?thesis by auto
qed

section \<open>Waiting ends\<close>

lemma stopped_resumes:
  assumes "obj_inv ob" "fsm ob = STOPPED" "0 < dt" "stop_dwell_collision \<le> real n * dt"
  shows "\<exists>k\<le>n. fsm ((object_update dt ^^ k) ob) = ACTIVE"
proof (rule ccontr)
  assume never: "\<not> ?thesis"
  have run: "fsm ((object_update dt ^^ k) ob) = STOPPED \<and>
      stop_start_time ((object_update dt ^^ k) ob) = stop_start_time ob \<and>
      sim_time ((object_update dt ^^ k) ob) = sim_time ob + real k * dt" if "k \<le> n" for k
    using that
  proof (induction k)
    case (Suc k)
    let ?o = "(object_update dt ^^ k) ob"
    have o: "fsm ?o = STOPPED" "stop_start_time ?o = stop_start_time ob"
      "sim_time ?o = sim_time ob + real k * dt" using Suc by auto
    have "fsm (object_update dt ?o) \<noteq> ACTIVE" using never Suc.prems by (auto dest: spec[of _ "Suc k"])
    then have "fsm (object_update dt ?o) = STOPPED" using update_stopped_eqs(2)[OF o(1)] by (auto split: if_splits)
    with update_stopped_eqs(1,3)[OF o(1)] o show ?case by (simp add: algebra_simps)
  qed (use assms(2) in simp)
  from run[of n] have st: "fsm ((object_update dt ^^ n) ob) = STOPPED"
    "stop_start_time ((object_update dt ^^ n) ob) = stop_start_time ob"
    "sim_time ((object_update dt ^^ n) ob) = sim_time ob + real n * dt" by auto
  show False
  proof (cases n)
    case 0
    then show ?thesis using assms(4) by (simp add: stop_dwell_collision_def)
  next
    case (Suc m)
    let ?o = "(object_update dt ^^ m) ob"
    have prev: "fsm ?o = STOPPED \<and> stop_start_time ?o = stop_start_time ob \<and> sim_time ?o = sim_time ob + real m * dt"
      using run[of m] Suc by simp
    have "stop_start_time ob \<le> sim_time ob" "0 \<le> stop_start_time ob"
      using assms(1,2) by (auto simp: obj_inv_def)
    moreover have "real n * dt = real m * dt + dt" by (simp add: Suc algebra_simps)
    ultimately have "fsm (object_update dt ?o) = ACTIVE"
      using update_stopped_eqs(2)[of ?o dt] prev assms(4)
      by (auto simp: stop_dwell_collision_def stop_dwell_random_def)
    then show False using st(1) Suc by simp
  qed
qed

lemma inactive_stays:
  assumes "fsm ob = INACTIVE"
  shows "fsm (object_update dt ob) = INACTIVE" "current_pose (object_update dt ob) = current_pose ob"
    "object_on_collision ob = ob"
  using assms by (simp_all add: object_update_def object_on_collision_def Let_def)

section \<open>Properties\<close>

text \<open>The object of the examples.\<close>

definition demo_profile :: dynamic_profile where
  "demo_profile = \<lparr>dp_name = ''walker'', follow = LinearConst \<lparr>lin_caps = \<lparr>max_speed = 2, max_accel = 1, max_decel = 1,
       cmd_rate_hz = 10, cmd_delay_s = 0, accel_noise_std = 0, steer_noise_std = 0\<rparr>,
       lin_speed_min = 1, lin_speed_max = 2\<rparr>, local_points = [], reached_pos_tol = 1 / 2, wp_loop = False\<rparr>"

definition demo_object :: dyn_object where
  "demo_object = make_dyn_object 0 zero_pose demo_profile (sconst (1 / 2))"

lemma demo_object_inactive: "fsm demo_object = INACTIVE"
  by (simp add: demo_object_def make_dyn_object_def resample_def)

lemma demo_object_inv: "obj_inv demo_object"
  unfolding demo_object_def make_dyn_object_def
  by (rule resample_inv) (simp_all add: follow_ok_def demo_profile_def)

definition obj_run :: "obj_event list \<Rightarrow> dyn_object \<Rightarrow> dyn_object" where
  "obj_run es ob = fold obj_step es ob"

definition obj_event_ok :: "obj_event \<Rightarrow> dyn_object \<Rightarrow> bool" where
  "obj_event_ok e ob \<longleftrightarrow> (case e of Update dt \<Rightarrow> 0 \<le> dt | Teleport p \<Rightarrow> fsm ob \<noteq> STOPPED | _ \<Rightarrow> True)"

fun obj_run_ok :: "obj_event list \<Rightarrow> dyn_object \<Rightarrow> bool" where
  "obj_run_ok [] ob = True"
| "obj_run_ok (e # es) ob = (obj_event_ok e ob \<and> obj_run_ok es (obj_step e ob))"

lemma obj_step_inv: "obj_inv ob \<Longrightarrow> obj_event_ok e ob \<Longrightarrow> obj_inv (obj_step e ob)"
  by (cases e) (auto simp: obj_event_ok_def intro: inv_intros)

lemma obj_run_inv: "obj_inv ob \<Longrightarrow> obj_run_ok es ob \<Longrightarrow> obj_inv (obj_run es ob)"
  unfolding obj_run_def by (induction es arbitrary: ob) (auto intro: obj_step_inv)

text \<open>Whatever happens to a dynamic object, its speed stays between zero and the upper speed of its
  profile and its target speed within the range of the profile.\<close>

theorem object_speed_bounded:
  assumes "follow_ok (follow prof)" "unit_tape r" "obj_run_ok events (make_dyn_object oid pose prof r)"
  shows "let ob = obj_run events (make_dyn_object oid pose prof r); lim = speed_range (follow (profile ob))
    in 0 \<le> current_speed ob \<and> current_speed ob \<le> snd lim \<and> fst lim \<le> target_speed ob \<and> target_speed ob \<le> snd lim"
proof -
  have "obj_inv (make_dyn_object oid pose prof r)" unfolding make_dyn_object_def
    using assms(1,2) by (intro resample_inv) (auto simp: follow_ok_def)
  from obj_run_inv[OF this assms(3)] show ?thesis by (simp add: obj_inv_def Let_def)
qed

theorem object_speed_bounded_witness:
  "current_speed (obj_run [Activate, Update 1, Collide, Update 3] demo_object) \<le>
     snd (speed_range (follow (profile (obj_run [Activate, Update 1, Collide, Update 3] demo_object))))"
proof -
  have "follow_ok (follow demo_profile)" by (simp add: follow_ok_def demo_profile_def)
  moreover have "obj_run_ok [Activate, Update 1, Collide, Update 3] (make_dyn_object 0 zero_pose demo_profile (sconst (1 / 2)))"
    by (simp add: obj_event_ok_def)
  ultimately show ?thesis
    using object_speed_bounded[where r = "sconst (1 / 2)" and prof = demo_profile] by (simp add: Let_def demo_object_def)
qed



end
