(* ===== verification/SpawnManager.thy ===== *)
theory SpawnManager
  imports DynObject
begin

text \<open>
  The ego-centric spawning of dynamic objects: \<^verbatim>\<open>sim/spawn_manager.hpp\<close> and
  \<^verbatim>\<open>spawn_manager.cpp\<close>, with its configuration (\<^verbatim>\<open>config/simulator.hpp\<close>). The set of active
  objects is kept as a list without repetitions, in the order of insertion; the hash tables are
  maps. The invariant is that every object is either active or waiting in exactly one queue.
\<close>

section \<open>Configuration and state\<close>

record angular_bias =
  front_angle_deg :: real
  flank_angle_deg :: real
  rear_angle_deg :: real
  front_weight :: real
  flank_weight :: real
  rear_weight :: real

record distance_bias =
  near_distance :: real
  far_distance :: real
  near_weight_slow :: real
  near_weight_fast :: real
  far_weight_slow :: real
  far_weight_fast :: real
  slow_speed_mps :: real
  fast_speed_mps :: real

record occlusion_settings =
  allow_in_fov :: bool
  static_blocker_radius :: real
  dynamic_blocker_radius :: real

record spawn_cfg =
  min_spawn_distance :: real
  max_spawn_distance :: real
  min_inter_object_distance :: real
  fov_angle_deg :: real
  fov_distance :: real
  max_sensor_range :: real
  max_despawn_distance :: real
  stuck_timeout :: real
  avoid_fov :: bool
  angular :: angular_bias
  dist_bias :: distance_bias
  occlusion :: occlusion_settings
  respect_map_geometry :: bool
  max_spawns_per_frame :: nat
  max_spawn_attempts_per_frame :: nat
  min_active_objects :: nat
  max_active_objects :: nat
  max_position_samples :: nat

text \<open>Of the map the manager reads the bounds and the positions of the static instances.\<close>

record spawn_map =
  map_bounds :: aabb2
  static_positions :: "point2 list"

datatype spawn_priority = HIGH | NORMAL | LOW
datatype despawn_type = COLLISION | TOO_FAR | TOO_CLOSE | STUCK | MANUAL | INITIAL

record queued_object =
  object_index :: nat
  priority :: spawn_priority
  queued_since :: real
  last_despawn_reason :: "despawn_type \<times> real"

record sector_sample =
  sec_center :: real
  half_angle :: real
  sec_weight :: real

record distance_band =
  band_min :: real
  band_max :: real
  band_weight :: real

record spawn_mgr =
  cfg :: spawn_cfg
  smap :: spawn_map
  objects :: "dyn_object list"
  q_high :: "queued_object list"
  q_normal :: "queued_object list"
  q_low :: "queued_object list"
  active_objects :: "nat list"
  stuck_since :: "nat \<rightharpoonup> real"
  reroute_next_attempt :: "nat \<rightharpoonup> real"
  total_spawns :: nat
  total_despawns :: nat
  failed_spawn_attempts :: nat
  queue_clock :: real
  current_min_spawn_dist :: real
  current_max_spawn_dist :: real
  last_robot_pose :: "pose2 option"
  robot_speed_mps :: real
  sm_rng :: rng
  sectors :: "sector_sample list"
  bands :: "distance_band list"
  sector_dist :: "real list option"
  band_dist :: "real list option"

section \<open>Queries\<close>

definition total_queued :: "spawn_mgr \<Rightarrow> nat" where
  "total_queued sm = length (q_high sm) + length (q_normal sm) + length (q_low sm)"

definition is_in_fov :: "spawn_cfg \<Rightarrow> pose2 \<Rightarrow> point2 \<Rightarrow> bool" where
  "is_in_fov c robot_pose point =
     (let dx = px point - px (pos robot_pose); dy = py point - py (pos robot_pose);
          dist = sqrt (dx * dx + dy * dy)
      in if dist > fov_distance c then False
         else let angle_to_point = atan2 dy dx;
                  angle_diff = \<bar>normalize_angle (angle_to_point - yaw robot_pose)\<bar>;
                  half_fov = (fov_angle_deg c * pi / 180) * (1/2)
              in angle_diff < half_fov)"

definition active_positions :: "spawn_mgr \<Rightarrow> point2 list" where
  "active_positions sm =
     map (\<lambda>i. pos (current_pose (objects sm ! i)))
       (filter (\<lambda>i. i < length (objects sm) \<and> object_is_active (objects sm ! i)) (active_objects sm))"

definition is_occluded :: "spawn_mgr \<Rightarrow> pose2 \<Rightarrow> point2 \<Rightarrow> bool" where
  "is_occluded sm robot_pose candidate_pos =
     (let occ = occlusion (cfg sm)
      in if \<not> allow_in_fov occ then False
         else let radius_static = max 0 (static_blocker_radius occ);
                  radius_dyn = max 0 (dynamic_blocker_radius occ)
              in if radius_static \<le> 0 \<and> radius_dyn \<le> 0 then False
                 else (radius_static > 0 \<and> respect_map_geometry (cfg sm) \<and>
                       list_ex (\<lambda>p. segment_intersects_circle (pos robot_pose) candidate_pos p radius_static)
                         (static_positions (smap sm))) \<or>
                      (radius_dyn > 0 \<and>
                       list_ex (\<lambda>p. segment_intersects_circle (pos robot_pose) candidate_pos p radius_dyn)
                         (active_positions sm)))"

definition is_visible_to_robot :: "spawn_mgr \<Rightarrow> pose2 \<Rightarrow> pose2 \<Rightarrow> bool" where
  "is_visible_to_robot sm robot_pose obj_pose \<longleftrightarrow>
     is_in_fov (cfg sm) robot_pose (pos obj_pose) \<and> \<not> is_occluded sm robot_pose (pos obj_pose)"

definition check_separation :: "spawn_mgr \<Rightarrow> point2 \<Rightarrow> bool" where
  "check_separation sm candidate_pos =
     list_all (\<lambda>p. distance candidate_pos p \<ge> min_inter_object_distance (cfg sm)) (active_positions sm)"

definition check_static_collision :: "spawn_mgr \<Rightarrow> point2 \<Rightarrow> bool" where
  "check_static_collision sm candidate_pos =
     (if \<not> respect_map_geometry (cfg sm) then False
      else list_ex (\<lambda>p. distance candidate_pos p < 5 / 2) (static_positions (smap sm)))"

section \<open>Sampling\<close>

definition push_sector :: "real \<Rightarrow> real \<Rightarrow> real \<Rightarrow> sector_sample list \<Rightarrow> sector_sample list" where
  "push_sector c half w secs =
     (if half \<le> 0 \<or> w \<le> 0 then secs else secs @ [\<lparr>sec_center = c, half_angle = half, sec_weight = w\<rparr>])"

definition build_sector_bias :: "angular_bias \<Rightarrow> sector_sample list" where
  "build_sector_bias b =
     (let front_half = (clamp (front_angle_deg b) 0 360 * pi / 180) * (1/2);
          flank_half = (clamp (flank_angle_deg b) 0 360 * pi / 180) * (1/2);
          rear_half = (clamp (rear_angle_deg b) 0 360 * pi / 180) * (1/2);
          left_center = front_half + flank_half;
          right_center = - (front_half + flank_half)
      in push_sector pi rear_half (rear_weight b)
           (push_sector right_center flank_half (flank_weight b)
              (push_sector left_center flank_half (flank_weight b)
                 (push_sector 0 front_half (front_weight b) []))))"

definition blend_weight :: "distance_bias \<Rightarrow> real \<Rightarrow> real \<Rightarrow> real \<Rightarrow> real" where
  "blend_weight d spd slow_weight fast_weight =
     (let slow = slow_speed_mps d; fast = max (fast_speed_mps d) (slow + 1)
      in if spd \<le> slow then slow_weight
         else if spd \<ge> fast then fast_weight
         else slow_weight + ((spd - slow) / (fast - slow)) * (fast_weight - slow_weight))"

definition add_band :: "real \<Rightarrow> real \<Rightarrow> real \<Rightarrow> distance_band list \<Rightarrow> distance_band list" where
  "add_band lo hi w bs =
     (if hi - lo \<le> 1 / 1000 \<or> w \<le> 0 then bs else bs @ [\<lparr>band_min = lo, band_max = hi, band_weight = w\<rparr>])"

definition build_distance_bands :: "spawn_mgr \<Rightarrow> distance_band list" where
  "build_distance_bands sm =
     (let min_dist = current_min_spawn_dist sm; max_dist = current_max_spawn_dist sm
      in if max_dist \<le> min_dist then []
         else let d = dist_bias (cfg sm);
                  near_max = clamp (near_distance d) min_dist max_dist;
                  far_min = max (clamp (far_distance d) min_dist max_dist) near_max;
                  near_weight = blend_weight d (robot_speed_mps sm) (near_weight_slow d) (near_weight_fast d);
                  far_weight = blend_weight d (robot_speed_mps sm) (far_weight_slow d) (far_weight_fast d);
                  bs = add_band far_min max_dist far_weight
                         (add_band near_max far_min 1 (add_band min_dist near_max near_weight []))
              in if bs = [] then [\<lparr>band_min = min_dist, band_max = max_dist, band_weight = 1\<rparr>] else bs)"

definition build_distribution :: "real list \<Rightarrow> real list option" where
  "build_distribution weights =
     (if weights = [] then None else if sum_list weights \<le> 0 then None else Some weights)"

definition prepare_spawn_bias :: "spawn_mgr \<Rightarrow> spawn_mgr" where
  "prepare_spawn_bias sm =
     (let secs = build_sector_bias (angular (cfg sm)); bs = build_distance_bands sm
      in sm\<lparr>sectors := secs, bands := bs,
            sector_dist := build_distribution (map (\<lambda>s. max 0 (sec_weight s)) secs),
            band_dist := build_distribution (map (\<lambda>b. max 0 (band_weight b)) bs)\<rparr>)"

text \<open>One candidate: the draws in the order of the code, and its tests.\<close>

definition sample_candidate :: "spawn_mgr \<Rightarrow> real list \<Rightarrow> pose2 \<Rightarrow> rng \<Rightarrow> point2 \<times> rng" where
  "sample_candidate sm bd robot_pose r0 =
     (let (fallback, r1) = draw_uniform (- pi) pi r0;
          (relative_angle, r2) =
            (case sector_dist sm of
               None \<Rightarrow> (fallback, r1)
             | Some sd \<Rightarrow>
                 if sectors sm = [] then (fallback, r1)
                 else let (i, r') = draw_discrete sd r1; s = sectors sm ! i;
                          (off, r'') = draw_uniform (- half_angle s) (half_angle s) r'
                      in (sec_center s + off, r''));
          (j, r3) = draw_discrete bd r2;
          b = bands sm ! j;
          (u, r4) = draw_unit r3;
          radius = band_min b + (band_max b - band_min b) * u;
          world_angle = normalize_angle (yaw robot_pose + relative_angle)
      in (pt (px (pos robot_pose) + radius * cos world_angle) (py (pos robot_pose) + radius * sin world_angle),
          r4))"

definition candidate_ok :: "spawn_mgr \<Rightarrow> pose2 \<Rightarrow> point2 \<Rightarrow> bool" where
  "candidate_ok sm robot_pose p =
     (if \<not> aabb_contains (map_bounds (smap sm)) p then False
      else if check_static_collision sm p then False
      else if avoid_fov (cfg sm) \<and> is_in_fov (cfg sm) robot_pose p \<and>
              \<not> (allow_in_fov (occlusion (cfg sm)) \<and> is_occluded sm robot_pose p) then False
      else check_separation sm p)"

fun find_spawn_loop :: "nat \<Rightarrow> spawn_mgr \<Rightarrow> real list \<Rightarrow> pose2 \<Rightarrow> rng \<Rightarrow> pose2 option \<times> rng" where
  "find_spawn_loop 0 sm bd robot_pose r = (None, r)"
| "find_spawn_loop (Suc n) sm bd robot_pose r =
     (let (p, r') = sample_candidate sm bd robot_pose r
      in if candidate_ok sm robot_pose p
         then (Some \<lparr>pos = p, yaw = atan2 (py (pos robot_pose) - py p) (px (pos robot_pose) - px p)\<rparr>, r')
         else find_spawn_loop n sm bd robot_pose r')"

definition find_spawn_pose :: "pose2 \<Rightarrow> spawn_mgr \<Rightarrow> pose2 option \<times> spawn_mgr" where
  "find_spawn_pose robot_pose sm =
     (case band_dist sm of
        None \<Rightarrow> (None, sm)
      | Some bd \<Rightarrow>
          if bands sm = [] then (None, sm)
          else let (res, r) = find_spawn_loop (max_position_samples (cfg sm)) sm bd robot_pose (sm_rng sm)
               in (res, sm\<lparr>sm_rng := r\<rparr>))"

section \<open>Spawning and despawning\<close>

definition enqueue_object :: "nat \<Rightarrow> spawn_priority \<Rightarrow> despawn_type \<Rightarrow> spawn_mgr \<Rightarrow> spawn_mgr" where
  "enqueue_object i prio reason sm =
     (let e = \<lparr>object_index = i, priority = prio, queued_since = queue_clock sm,
               last_despawn_reason = (reason, queue_clock sm)\<rparr>
      in case prio of
           HIGH \<Rightarrow> sm\<lparr>q_high := q_high sm @ [e]\<rparr>
         | NORMAL \<Rightarrow> sm\<lparr>q_normal := q_normal sm @ [e]\<rparr>
         | LOW \<Rightarrow> sm\<lparr>q_low := q_low sm @ [e]\<rparr>)"

definition set_object :: "nat \<Rightarrow> dyn_object \<Rightarrow> spawn_mgr \<Rightarrow> spawn_mgr" where
  "set_object i ob sm = sm\<lparr>objects := (objects sm)[i := ob]\<rparr>"

definition out_of_bounds_pose :: "aabb2 \<Rightarrow> pose2" where
  "out_of_bounds_pose b =
     (let map_diagonal = sqrt ((px (bmax b) - px (bmin b))\<^sup>2 + (py (bmax b) - py (bmin b))\<^sup>2);
          offset = map_diagonal * 10
      in \<lparr>pos = pt (px (bmax b) + offset) (py (bmax b) + offset), yaw = 0\<rparr>)"

definition move_object_out_of_bounds :: "nat \<Rightarrow> spawn_mgr \<Rightarrow> spawn_mgr" where
  "move_object_out_of_bounds i sm =
     (if i \<ge> length (objects sm) then sm
      else set_object i (object_teleport (out_of_bounds_pose (map_bounds (smap sm))) (objects sm ! i)) sm)"

definition despawn_object :: "nat \<Rightarrow> despawn_type \<Rightarrow> spawn_mgr \<Rightarrow> spawn_mgr" where
  "despawn_object i reason sm =
     (if i \<ge> length (objects sm) \<or> i \<notin> set (active_objects sm) then sm
      else let sm1 = move_object_out_of_bounds i sm;
               sm2 = set_object i (object_deactivate (objects sm1 ! i)) sm1
           in enqueue_object i HIGH reason
                (sm2\<lparr>active_objects := remove1 i (active_objects sm2), stuck_since := (stuck_since sm2)(i := None),
                     reroute_next_attempt := (reroute_next_attempt sm2)(i := None),
                     total_despawns := total_despawns sm2 + 1\<rparr>))"

definition reroute_points :: "pose2 \<Rightarrow> point2 \<Rightarrow> real \<Rightarrow> point2 \<times> point2" where
  "reroute_points obj_pose rel lateral_sign =
     (let rel_n = sqrt (px rel * px rel + py rel * py rel);
          side_n = sqrt (- py rel * - py rel + px rel * px rel);
          side = pt (- py rel / side_n) (px rel / side_n);
          fwd = pt (px rel / rel_n) (py rel / rel_n);
          wp1 = pt (px (pos obj_pose) + lateral_sign * px side * (5/2))
                   (py (pos obj_pose) + lateral_sign * py side * (5/2))
      in (wp1, pt (px wp1 + px fwd * 5) (py wp1 + py fwd * 5)))"

definition reroute_ok :: "spawn_mgr \<Rightarrow> point2 \<times> point2 \<Rightarrow> bool" where
  "reroute_ok sm w =
     (aabb_contains (map_bounds (smap sm)) (fst w) \<and> aabb_contains (map_bounds (smap sm)) (snd w) \<and>
      \<not> (check_static_collision sm (fst w) \<or> check_static_collision sm (snd w)) \<and>
      check_separation sm (fst w) \<and> check_separation sm (snd w))"

definition try_reroute_object :: "nat \<Rightarrow> pose2 \<Rightarrow> spawn_mgr \<Rightarrow> bool \<times> spawn_mgr" where
  "try_reroute_object i robot_pose sm =
     (let ob = objects sm ! i; p = current_pose ob;
          rel = pt (px (pos p) - px (pos robot_pose)) (py (pos p) - py (pos robot_pose));
          rel_n = sqrt (px rel * px rel + py rel * py rel);
          side_n = sqrt (- py rel * - py rel + px rel * px rel)
      in if side_n < 1 / 10000 \<or> rel_n < 1 / 10000 then (False, sm)
         else case filter (reroute_ok sm) (map (reroute_points p rel) [1, - 1]) of
                [] \<Rightarrow> (False, sm)
              | (w1, w2) # _ \<Rightarrow> (True, set_object i (override_waypoints [w1, w2] False ob) sm))"

text \<open>The pass over one active object: the list collects what is to be despawned after the loop.\<close>

definition check_object ::
    "pose2 \<Rightarrow> nat \<Rightarrow> spawn_mgr \<times> (nat \<times> despawn_type) list \<Rightarrow> spawn_mgr \<times> (nat \<times> despawn_type) list" where
  "check_object robot_pose i st =
     (let (sm, out) = st
      in if i \<ge> length (objects sm) then st
         else let ob = objects sm ! i; p = current_pose ob;
                  visible = is_visible_to_robot sm robot_pose p;
                  dist = distance (pos p) (pos robot_pose)
              in if \<not> object_is_active ob \<and> \<not> visible
                 then (sm\<lparr>stuck_since := (stuck_since sm)(i := None)\<rparr>, out @ [(i, MANUAL)])
                 else if dist > max_despawn_distance (cfg sm) \<and> \<not> visible then (sm, out @ [(i, TOO_FAR)])
                 else if \<not> object_is_stuck ob
                 then (sm\<lparr>stuck_since := (stuck_since sm)(i := None),
                          reroute_next_attempt := (reroute_next_attempt sm)(i := None)\<rparr>, out)
                 else let since = (case stuck_since sm i of Some t \<Rightarrow> t | None \<Rightarrow> queue_clock sm);
                          sm1 = sm\<lparr>stuck_since := (stuck_since sm)(i \<mapsto> since)\<rparr>;
                          reroute_ready = (case reroute_next_attempt sm i of None \<Rightarrow> True | Some t \<Rightarrow> queue_clock sm \<ge> t);
                          stuck_duration = max 0 (queue_clock sm - since);
                          timeout = max 0 (stuck_timeout (cfg sm));
                          timed_out = (timeout > 0 \<and> stuck_duration \<ge> timeout);
                          attempt = (stuck_duration \<ge> 35 / 100 \<and> reroute_ready \<and> visible \<and> dist \<le> 30);
                          (rerouted, sm2) = (if attempt then try_reroute_object i robot_pose sm1 else (False, sm1))
                      in if rerouted then (sm2\<lparr>reroute_next_attempt := (reroute_next_attempt sm2)(i := None)\<rparr>, out)
                         else let sm3 = (if attempt
                                         then sm2\<lparr>reroute_next_attempt := (reroute_next_attempt sm2)(i \<mapsto> queue_clock sm + 1)\<rparr>
                                         else sm2)
                              in if dist > max 1 (max_sensor_range (cfg sm)) \<or> (timed_out \<and> \<not> visible)
                                 then (sm3, out @ [(i, STUCK)]) else (sm3, out))"

definition check_and_despawn_objects :: "pose2 \<Rightarrow> spawn_mgr \<Rightarrow> spawn_mgr" where
  "check_and_despawn_objects robot_pose sm =
     (let (sm1, to_despawn) = fold (check_object robot_pose) (active_objects sm) (sm, [])
      in fold (\<lambda>(i, reason) s. despawn_object i reason s) to_despawn sm1)"

text \<open>
  The loop over one queue. The counters are the spawns and the attempts of this frame; the
  guard on the attempts bounds it.
\<close>

function try_queue ::
    "nat \<Rightarrow> nat \<Rightarrow> pose2 \<Rightarrow> queued_object list \<Rightarrow> nat \<times> nat \<Rightarrow> spawn_mgr
     \<Rightarrow> queued_object list \<times> (nat \<times> nat) \<times> spawn_mgr" where
  "try_queue max_spawns max_attempts robot_pose queue cnt sm =
     (case queue of
        [] \<Rightarrow> (queue, cnt, sm)
      | entry # rest \<Rightarrow>
          if fst cnt < max_spawns \<and> snd cnt < max_attempts \<and>
             length (active_objects sm) < max_active_objects (cfg sm)
          then let i = object_index entry; cnt1 = (fst cnt, snd cnt + 1)
               in if i < length (objects sm)
                  then case find_spawn_pose robot_pose sm of
                         (Some pose, sm1) \<Rightarrow>
                           try_queue max_spawns max_attempts robot_pose rest (fst cnt1 + 1, snd cnt1)
                             ((set_object i (object_activate (object_teleport pose (objects sm1 ! i))) sm1)
                                \<lparr>active_objects := List.insert i (active_objects sm1),
                                 total_spawns := total_spawns sm1 + 1\<rparr>)
                       | (None, sm1) \<Rightarrow>
                           try_queue max_spawns max_attempts robot_pose (rest @ [entry]) cnt1
                             (sm1\<lparr>failed_spawn_attempts := failed_spawn_attempts sm1 + 1\<rparr>)
                  else try_queue max_spawns max_attempts robot_pose (rest @ [entry]) cnt1 sm
          else (queue, cnt, sm))"
  by pat_completeness auto
termination
  by (relation "measure (\<lambda>(ms, ma, p, q, cnt, sm). ma - snd cnt)") auto

declare try_queue.simps [simp del]

definition frame_done :: "nat \<Rightarrow> nat \<Rightarrow> nat \<times> nat \<Rightarrow> spawn_mgr \<Rightarrow> bool" where
  "frame_done max_spawns max_attempts cnt sm \<longleftrightarrow>
     fst cnt \<ge> max_spawns \<or> snd cnt \<ge> max_attempts \<or>
     length (active_objects sm) \<ge> max_active_objects (cfg sm)"

definition spawn_from_queue :: "pose2 \<Rightarrow> nat \<Rightarrow> nat \<Rightarrow> spawn_mgr \<Rightarrow> spawn_mgr" where
  "spawn_from_queue robot_pose max_spawns max_attempts sm =
     (if max_spawns = 0 \<or> max_attempts = 0 then sm
      else if length (active_objects sm) \<ge> max_active_objects (cfg sm) \<or> total_queued sm = 0 then sm
      else if band_dist sm = None then sm
      else let (qh, c1, s1) = try_queue max_spawns max_attempts robot_pose (q_high sm) (0, 0) sm;
               s1 = s1\<lparr>q_high := qh\<rparr>
           in if frame_done max_spawns max_attempts c1 s1 then s1
              else let (qn, c2, s2) = try_queue max_spawns max_attempts robot_pose (q_normal s1) c1 s1;
                       s2 = s2\<lparr>q_normal := qn\<rparr>
                   in if frame_done max_spawns max_attempts c2 s2 then s2
                      else let (ql, c3, s3) = try_queue max_spawns max_attempts robot_pose (q_low s2) c2 s2
                           in s3\<lparr>q_low := ql\<rparr>)"

definition ensure_minimum_active :: "pose2 \<Rightarrow> spawn_mgr \<Rightarrow> spawn_mgr" where
  "ensure_minimum_active robot_pose sm =
     (if length (active_objects sm) \<ge> min_active_objects (cfg sm) then sm
      else if total_queued sm = 0 then sm
      else let needed = min_active_objects (cfg sm) - length (active_objects sm);
               base_attempts = max 1 (max_spawn_attempts_per_frame (cfg sm));
               extra_attempts = max (needed * 20) base_attempts
           in if needed = 0 then sm else spawn_from_queue robot_pose needed extra_attempts sm)"

definition update_robot_motion :: "real \<Rightarrow> pose2 \<Rightarrow> spawn_mgr \<Rightarrow> spawn_mgr" where
  "update_robot_motion dt robot_pose sm =
     sm\<lparr>robot_speed_mps := (case last_robot_pose sm of
            Some p \<Rightarrow> if dt > 1 / 10000 then distance (pos robot_pose) (pos p) / dt else 0
          | None \<Rightarrow> 0),
        last_robot_pose := Some robot_pose\<rparr>"

definition update_curriculum_distances :: "spawn_mgr \<Rightarrow> spawn_mgr" where
  "update_curriculum_distances sm =
     sm\<lparr>current_min_spawn_dist := min_spawn_distance (cfg sm),
        current_max_spawn_dist := max_spawn_distance (cfg sm)\<rparr>"

definition sm_update :: "real \<Rightarrow> pose2 \<Rightarrow> spawn_mgr \<Rightarrow> spawn_mgr" where
  "sm_update dt robot_pose sm0 =
     (if objects sm0 = [] then sm0
      else let sm1 = update_curriculum_distances (update_robot_motion dt robot_pose sm0);
               sm2 = sm1\<lparr>queue_clock := queue_clock sm1 + dt\<rparr>;
               sm3 = prepare_spawn_bias (check_and_despawn_objects robot_pose sm2);
               sm4 = spawn_from_queue robot_pose (max_spawns_per_frame (cfg sm3))
                       (max_spawn_attempts_per_frame (cfg sm3)) sm3
           in ensure_minimum_active robot_pose sm4)"

text \<open>The constructor; a missing configuration or map is an exception.\<close>

definition make_spawn_manager ::
    "spawn_cfg option \<Rightarrow> spawn_map option \<Rightarrow> dyn_object list \<Rightarrow> rng \<Rightarrow> string + spawn_mgr" where
  "make_spawn_manager c m objs r =
     (case c of None \<Rightarrow> Inl ''SpawnManager requires spawn configuration''
      | Some c \<Rightarrow> (case m of None \<Rightarrow> Inl ''SpawnManager requires map configuration''
        | Some m \<Rightarrow>
            Inr (fold (\<lambda>i s. move_object_out_of_bounds i (enqueue_object i LOW INITIAL s)) [0..<length objs]
              \<lparr>cfg = c, smap = m, objects = objs, q_high = [], q_normal = [], q_low = [], active_objects = [],
               stuck_since = Map.empty, reroute_next_attempt = Map.empty, total_spawns = 0, total_despawns = 0,
               failed_spawn_attempts = 0, queue_clock = 0, current_min_spawn_dist = min_spawn_distance c,
               current_max_spawn_dist = max_spawn_distance c, last_robot_pose = None, robot_speed_mps = 0,
               sm_rng = r, sectors = [], bands = [], sector_dist = None, band_dist = None\<rparr>)))"

section \<open>Every object is active or queued\<close>

definition waiting_idx :: "queued_object list \<Rightarrow> nat list" where
  "waiting_idx q = map object_index q"

definition split_inv :: "nat list \<Rightarrow> spawn_mgr \<Rightarrow> bool" where
  "split_inv waits sm \<longleftrightarrow>
     mset (active_objects sm @ waits) = mset [0..<length (objects sm)] \<and>
     length (active_objects sm) \<le> max_active_objects (cfg sm) \<and>
     total_spawns sm = total_despawns sm + length (active_objects sm) \<and>
     (\<forall>i \<in> set waits. fsm (objects sm ! i) = INACTIVE)"

definition queued_idx :: "spawn_mgr \<Rightarrow> nat list" where
  "queued_idx sm = waiting_idx (q_high sm) @ waiting_idx (q_normal sm) @ waiting_idx (q_low sm)"

definition sm_inv :: "spawn_mgr \<Rightarrow> bool" where
  "sm_inv sm \<longleftrightarrow> split_inv (queued_idx sm) sm"

lemma waiting_idx_simps [simp]:
  "waiting_idx [] = []" "waiting_idx (e # q) = object_index e # waiting_idx q"
  "waiting_idx (q @ r) = waiting_idx q @ waiting_idx r"
  by (simp_all add: waiting_idx_def)

lemma split_inv_facts:
  assumes "split_inv waits sm"
  shows "distinct (active_objects sm @ waits)" "set (active_objects sm) \<subseteq> {..<length (objects sm)}"
    "set waits \<subseteq> {..<length (objects sm)}"
  using assms mset_eq_imp_distinct_iff[of "active_objects sm @ waits" "[0..<length (objects sm)]"]
    mset_eq_setD[of "active_objects sm @ waits" "[0..<length (objects sm)]"]
  by (auto simp: split_inv_def)

lemma split_inv_perm: "mset waits = mset waits' \<Longrightarrow> split_inv waits sm = split_inv waits' sm"
  using mset_eq_setD[of waits waits'] by (auto simp: split_inv_def)

lemma find_spawn_pose_only_rng:
  "\<exists>r. find_spawn_pose p sm = (fst (find_spawn_pose p sm), sm\<lparr>sm_rng := r\<rparr>)"
proof -
  have id: "\<exists>r. sm = sm\<lparr>sm_rng := r\<rparr>" by (rule exI[of _ "sm_rng sm"]) simp
  then show ?thesis
    by (auto simp: find_spawn_pose_def case_prod_beta split: option.splits)
qed

lemma split_inv_rng [simp]: "split_inv w (sm\<lparr>sm_rng := r\<rparr>) = split_inv w sm"
  "split_inv w (sm\<lparr>failed_spawn_attempts := n\<rparr>) = split_inv w sm"
  by (simp_all add: split_inv_def)

lemma object_activate_fsm [simp]: "fsm (object_activate ob) = ACTIVE"
  by (simp add: object_activate_def resample_def)

text \<open>One spawn moves an index from the waiting to the active objects.\<close>

lemma split_inv_spawn:
  assumes "split_inv (i # waits) sm" "length (active_objects sm) < max_active_objects (cfg sm)"
  shows "split_inv waits ((set_object i ob sm)
      \<lparr>active_objects := List.insert i (active_objects sm), total_spawns := total_spawns sm + 1\<rparr>)"
proof -
  have d: "i \<notin> set (active_objects sm)" "i \<notin> set waits"
    using split_inv_facts(1)[OF assms(1)] by auto
  have "(objects sm)[i := ob] ! j = objects sm ! j" if "j \<in> set waits" for j
    using that d by (metis nth_list_update_neq)
  with assms d show ?thesis
    by (auto simp: split_inv_def set_object_def List.insert_def)
qed

lemma try_queue_spec:
  assumes "try_queue ms ma p q cnt sm = (q', cnt', sm')" "split_inv (waiting_idx q @ others) sm"
  shows "split_inv (waiting_idx q' @ others) sm' \<and> cfg sm' = cfg sm \<and> length (objects sm') = length (objects sm) \<and>
    q_high sm' = q_high sm \<and> q_normal sm' = q_normal sm \<and> q_low sm' = q_low sm \<and> smap sm' = smap sm \<and>
    fst cnt \<le> fst cnt' \<and> fst cnt' \<le> max (fst cnt) ms \<and> snd cnt' \<le> max (snd cnt) ma \<and>
    total_spawns sm' = total_spawns sm + (fst cnt' - fst cnt)"
  using assms
proof (induction ms ma p q cnt sm rule: try_queue.induct)
  case (1 ms ma p q cnt sm)
  show ?case
  proof (cases q)
    case Nil
    with 1(4,5) show ?thesis by (subst (asm) try_queue.simps) auto
  next
    case (Cons e rest)
    show ?thesis
    proof (cases "fst cnt < ms \<and> snd cnt < ma \<and> length (active_objects sm) < max_active_objects (cfg sm)")
      case False
      with 1(4,5) Cons show ?thesis by (subst (asm) try_queue.simps) (auto split: if_splits)
    next
      case go: True
      let ?i = "object_index e"
      let ?cnt1 = "(fst cnt, snd cnt + 1)"
      have i: "?i < length (objects sm)" using split_inv_facts(3)[OF 1(5)] Cons by simp
      obtain r where r: "find_spawn_pose p sm = (fst (find_spawn_pose p sm), sm\<lparr>sm_rng := r\<rparr>)"
        using find_spawn_pose_only_rng by blast
      show ?thesis
      proof (cases "fst (find_spawn_pose p sm)")
        case None
        then have f: "find_spawn_pose p sm = (None, sm\<lparr>sm_rng := r\<rparr>)" using r by simp
        let ?sm1 = "sm\<lparr>sm_rng := r, failed_spawn_attempts := failed_spawn_attempts sm + 1\<rparr>"
        have run: "try_queue ms ma p (rest @ [e]) ?cnt1 ?sm1 = (q', cnt', sm')"
          using 1(4) Cons go i f by (subst (asm) try_queue.simps) (simp add: Let_def)
        have "split_inv (waiting_idx (rest @ [e]) @ others) ?sm1"
          using 1(5) Cons split_inv_perm[of "waiting_idx (rest @ [e]) @ others" "waiting_idx q @ others" ?sm1]
          by simp
        from 1(1)[OF Cons go refl refl i f[symmetric] refl] run this go
        show ?thesis by auto
      next
        case (Some pose)
        then have f: "find_spawn_pose p sm = (Some pose, sm\<lparr>sm_rng := r\<rparr>)" using r by simp
        let ?sm1 = "sm\<lparr>sm_rng := r\<rparr>"
        let ?ob = "object_activate (object_teleport pose (objects ?sm1 ! ?i))"
        let ?sm2 = "(set_object ?i ?ob ?sm1)\<lparr>active_objects := List.insert ?i (active_objects ?sm1),
            total_spawns := total_spawns ?sm1 + 1\<rparr>"
        have run: "try_queue ms ma p rest (fst ?cnt1 + 1, snd ?cnt1) ?sm2 = (q', cnt', sm')"
          using 1(4) Cons go i f by (subst (asm) try_queue.simps) (simp add: Let_def)
        have "split_inv (waiting_idx rest @ others) ?sm2"
          using 1(5) Cons go by (intro split_inv_spawn) auto
        from 1(2)[OF Cons go refl refl i f[symmetric] refl] run this go
        show ?thesis by (auto simp: set_object_def)
      qed
    qed
  qed
qed

lemma split_inv_frame [simp]:
  "split_inv w (sm\<lparr>q_high := q\<rparr>) = split_inv w sm" "split_inv w (sm\<lparr>q_normal := q\<rparr>) = split_inv w sm"
  "split_inv w (sm\<lparr>q_low := q\<rparr>) = split_inv w sm" "split_inv w (sm\<lparr>stuck_since := st\<rparr>) = split_inv w sm"
  "split_inv w (sm\<lparr>reroute_next_attempt := st\<rparr>) = split_inv w sm"
  "split_inv w (sm\<lparr>queue_clock := x\<rparr>) = split_inv w sm"
  by (simp_all add: split_inv_def)

definition frame_eq :: "spawn_mgr \<Rightarrow> spawn_mgr \<Rightarrow> bool" where
  "frame_eq sm sm' \<longleftrightarrow> cfg sm' = cfg sm \<and> smap sm' = smap sm \<and> length (objects sm') = length (objects sm)"

lemma frame_eq_refl [simp]: "frame_eq sm sm"
  and frame_eq_trans: "frame_eq a b \<Longrightarrow> frame_eq b c \<Longrightarrow> frame_eq a c"
  by (auto simp: frame_eq_def)

lemma sm_inv_iff: "mset ws = mset (queued_idx sm) \<Longrightarrow> sm_inv sm = split_inv ws sm"
  unfolding sm_inv_def by (rule split_inv_perm) simp

lemma spawn_from_queue_inv [inv_intros]:
  assumes "sm_inv sm"
  shows "sm_inv (spawn_from_queue p ms ma sm) \<and> frame_eq sm (spawn_from_queue p ms ma sm) \<and>
    total_spawns sm \<le> total_spawns (spawn_from_queue p ms ma sm) \<and>
    total_spawns (spawn_from_queue p ms ma sm) \<le> total_spawns sm + ms"
proof (cases "ms = 0 \<or> ma = 0 \<or> length (active_objects sm) \<ge> max_active_objects (cfg sm) \<or> total_queued sm = 0 \<or>
    band_dist sm = None")
  case True
  then show ?thesis using assms by (auto simp: spawn_from_queue_def)
next
  case False
  obtain qh c1 t1 where r1: "try_queue ms ma p (q_high sm) (0, 0) sm = (qh, c1, t1)" by (metis prod_cases3)
  define s1 where "s1 = t1\<lparr>q_high := qh\<rparr>"
  have "split_inv (waiting_idx (q_high sm) @ (waiting_idx (q_normal sm) @ waiting_idx (q_low sm))) sm"
    using assms by (simp add: sm_inv_def queued_idx_def)
  from try_queue_spec[OF r1 this] have s1: "sm_inv s1" "frame_eq sm s1" "fst c1 \<le> ms"
    "total_spawns s1 = total_spawns sm + fst c1"
    by (auto simp: sm_inv_def queued_idx_def s1_def frame_eq_def)
  obtain qn c2 t2 where r2: "try_queue ms ma p (q_normal s1) c1 s1 = (qn, c2, t2)" by (metis prod_cases3)
  define s2 where "s2 = t2\<lparr>q_normal := qn\<rparr>"
  have "split_inv (waiting_idx (q_normal s1) @ (waiting_idx (q_high s1) @ waiting_idx (q_low s1))) s1"
    using s1(1) by (subst (asm) sm_inv_iff) (auto simp: queued_idx_def add_ac)
  from try_queue_spec[OF r2 this]
  have t2: "split_inv (waiting_idx qn @ waiting_idx (q_high s1) @ waiting_idx (q_low s1)) t2" "frame_eq s1 t2"
    "q_high t2 = q_high s1" "q_low t2 = q_low s1" and c2: "fst c1 \<le> fst c2" "fst c2 \<le> ms"
    "total_spawns t2 = total_spawns sm + fst c2"
    using s1(3,4) by (auto simp: frame_eq_def)
  have s2: "sm_inv s2"
    using t2 by (subst sm_inv_iff[of "waiting_idx qn @ waiting_idx (q_high s1) @ waiting_idx (q_low s1)"])
      (auto simp: queued_idx_def s2_def add_ac)
  have f2: "frame_eq s1 s2" using t2(2) by (simp add: s2_def frame_eq_def)
  obtain ql c3 t3 where r3: "try_queue ms ma p (q_low s2) c2 s2 = (ql, c3, t3)" by (metis prod_cases3)
  have "split_inv (waiting_idx (q_low s2) @ (waiting_idx (q_high s2) @ waiting_idx (q_normal s2))) s2"
    using s2 by (subst (asm) sm_inv_iff) (auto simp: queued_idx_def add_ac)
  from try_queue_spec[OF r3 this]
  have t3: "split_inv (waiting_idx ql @ waiting_idx (q_high s2) @ waiting_idx (q_normal s2)) t3" "frame_eq s2 t3"
    "q_high t3 = q_high s2" "q_normal t3 = q_normal s2" and c3: "fst c3 \<le> ms" 
    "total_spawns t3 = total_spawns sm + fst c3"
    using c2 by (auto simp: frame_eq_def s2_def)
  have s3: "sm_inv (t3\<lparr>q_low := ql\<rparr>)"
    using t3 by (subst sm_inv_iff[of "waiting_idx ql @ waiting_idx (q_high s2) @ waiting_idx (q_normal s2)"])
      (auto simp: queued_idx_def add_ac)
  have f3: "frame_eq sm s2" "frame_eq sm (t3\<lparr>q_low := ql\<rparr>)"
    using s1(2) f2 t3(2) by (simp_all add: frame_eq_def)
  have "spawn_from_queue p ms ma sm = (if frame_done ms ma c1 s1 then s1
      else if frame_done ms ma c2 s2 then s2 else t3\<lparr>q_low := ql\<rparr>)"
    using False r1 r2 r3 by (auto simp add: spawn_from_queue_def Let_def s1_def[symmetric] s2_def[symmetric])
  then show ?thesis using s1 s2 s3 f3 c2 c3 by (auto simp: s2_def)
qed

lemma split_inv_active_object:
  assumes "split_inv w sm" "i \<in> set (active_objects sm)"
  shows "split_inv w (set_object i ob sm)"
proof -
  have "(objects sm)[i := ob] ! j = objects sm ! j" if "j \<in> set w" for j
    using that split_inv_facts(1)[OF assms(1)] assms(2) by (metis Int_iff distinct_append empty_iff nth_list_update_neq)
  with assms(1) show ?thesis by (auto simp: split_inv_def set_object_def)
qed

lemma set_object_simps [simp]:
  "active_objects (set_object i ob sm) = active_objects sm" "queued_idx (set_object i ob sm) = queued_idx sm"
  "cfg (set_object i ob sm) = cfg sm" "spawn_mgr.smap (set_object i ob sm) = spawn_mgr.smap sm"
  "length (objects (set_object i ob sm)) = length (objects sm)" "total_spawns (set_object i ob sm) = total_spawns sm"
  "total_despawns (set_object i ob sm) = total_despawns sm"
  by (simp_all add: set_object_def queued_idx_def)

definition pass_ok :: "spawn_mgr \<Rightarrow> spawn_mgr \<Rightarrow> bool" where
  "pass_ok sm sm' \<longleftrightarrow> sm_inv sm' \<and> frame_eq sm sm' \<and> active_objects sm' = active_objects sm \<and>
     total_spawns sm' = total_spawns sm"

lemma try_reroute_pass:
  assumes "sm_inv sm" "i \<in> set (active_objects sm)"
  shows "pass_ok sm (snd (try_reroute_object i p sm))"
proof -
  have "pass_ok sm (set_object i ob sm)" for ob
    using assms split_inv_active_object[of "queued_idx sm" sm i] by (simp add: pass_ok_def sm_inv_def frame_eq_def)
  moreover have "pass_ok sm sm" using assms(1) by (simp add: pass_ok_def)
  ultimately show ?thesis
    by (simp add: try_reroute_object_def Let_def case_prod_beta split: list.split)
qed

lemma check_object_pass:
  assumes "sm_inv sm" "i \<in> set (active_objects sm)"
  shows "pass_ok sm (fst (check_object p i (sm, acc)))"
proof -
  have frame: "pass_ok sm (s\<lparr>reroute_next_attempt := m\<rparr>) = pass_ok sm s"
    "pass_ok sm (s\<lparr>stuck_since := m'\<rparr>) = pass_ok sm s" "pass_ok (sm\<lparr>stuck_since := m'\<rparr>) s = pass_ok sm s" for s :: spawn_mgr and m m'
    by (auto simp: pass_ok_def frame_eq_def sm_inv_def queued_idx_def)
  have self: "pass_ok sm sm" using assms(1) by (simp add: pass_ok_def)
  have "pass_ok sm (snd (try_reroute_object i p (sm\<lparr>stuck_since := m\<rparr>)))" for m
    using try_reroute_pass[of "sm\<lparr>stuck_since := m\<rparr>" i p] assms frame(2)[where s = sm and m' = m] self
    by (simp add: frame(3)) (simp add: pass_ok_def)
  then show ?thesis
    by (simp add: check_object_def Let_def frame self case_prod_beta)
qed

lemma check_pass:
  assumes "sm_inv sm"
  shows "set is \<subseteq> set (active_objects sm) \<Longrightarrow> pass_ok sm (fst (fold (check_object p) is (sm, acc)))"
  using assms
proof (induction "is" arbitrary: sm acc)
  case (Cons i "is")
  obtain sm' acc' where c: "check_object p i (sm, acc) = (sm', acc')" by (cases "check_object p i (sm, acc)")
  have ok: "pass_ok sm sm'" using check_object_pass[of sm i p acc] Cons.prems c by simp
  then have "pass_ok sm' (fst (fold (check_object p) is (sm', acc')))"
    using Cons.prems(1) by (intro Cons.IH) (auto simp: pass_ok_def)
  with ok c show ?case by (auto simp: pass_ok_def intro: frame_eq_trans)
qed (simp add: pass_ok_def)

lemma deactivate_fsm [simp]: "fsm (object_deactivate ob) = INACTIVE"
  by (simp add: object_deactivate_def)

text \<open>One despawn moves an index back.\<close>

lemma split_inv_despawn:
  assumes inv: "split_inv w s" and i: "i \<in> set (active_objects s)" "fsm (objects s ! i) = INACTIVE"
  shows "split_inv (i # w) (s\<lparr>active_objects := remove1 i (active_objects s), stuck_since := st,
    reroute_next_attempt := rr, total_despawns := total_despawns s + 1\<rparr>)"
proof -
  have m: "add_mset i (mset (remove1 i (active_objects s))) = mset (active_objects s)" using i by simp
  have "mset (remove1 i (active_objects s) @ i # w) = mset (active_objects s @ w)"
    using m by (metis mset.simps(2) mset_append union_mset_add_mset_left union_mset_add_mset_right)
  also have "\<dots> = mset [0..<length (objects s)]" using inv by (simp only: split_inv_def)
  finally have "mset (remove1 i (active_objects s) @ i # w) = mset [0..<length (objects s)]" .
  moreover have "length (active_objects s) = Suc (length (remove1 i (active_objects s)))"
    using m by (metis size_add_mset size_mset)
  ultimately show ?thesis using inv i
    by (simp add: split_inv_def del: mset_remove1 mset_append mset.simps mset_upt)
qed

lemma despawn_object_inv [inv_intros]:
  assumes "sm_inv sm"
  shows "sm_inv (despawn_object i reason sm) \<and> frame_eq sm (despawn_object i reason sm) \<and>
    total_spawns (despawn_object i reason sm) = total_spawns sm"
proof (cases "i < length (objects sm) \<and> i \<in> set (active_objects sm)")
  case True
  let ?sm1 = "move_object_out_of_bounds i sm"
  let ?sm2 = "set_object i (object_deactivate (objects ?sm1 ! i)) ?sm1"
  have sm1: "?sm1 = set_object i (object_teleport (out_of_bounds_pose (map_bounds (spawn_mgr.smap sm))) (objects sm ! i)) sm"
    using True by (simp add: move_object_out_of_bounds_def)
  have inv: "split_inv (queued_idx sm) ?sm1" using assms True unfolding sm1
    by (intro split_inv_active_object) (auto simp: sm_inv_def)
  then have inv2: "split_inv (queued_idx sm) ?sm2" "i \<in> set (active_objects sm)"
    using True by (auto intro!: split_inv_active_object simp: sm1)
  have i: "fsm (objects ?sm2 ! i) = INACTIVE" using True by (simp add: set_object_def sm1)
  have a: "active_objects ?sm2 = active_objects sm" "queued_idx ?sm2 = queued_idx sm" "frame_eq sm ?sm2"
    "total_spawns ?sm2 = total_spawns sm"
    by (simp_all add: sm1 frame_eq_def)
  define sm3 where "sm3 = ?sm2\<lparr>active_objects := remove1 i (active_objects ?sm2),
      stuck_since := (stuck_since ?sm2)(i := None),
      reroute_next_attempt := (reroute_next_attempt ?sm2)(i := None), total_despawns := total_despawns ?sm2 + 1\<rparr>"
  have sm3: "split_inv (i # queued_idx sm) sm3" "queued_idx sm3 = queued_idx sm" "frame_eq sm sm3"
    "total_spawns sm3 = total_spawns sm"
    using split_inv_despawn[OF inv2(1), of i] inv2(2) i a by (auto simp: sm3_def queued_idx_def frame_eq_def)
  have desp: "despawn_object i reason sm = enqueue_object i HIGH reason sm3"
    using True by (simp add: despawn_object_def Let_def sm3_def)
  have "mset (i # queued_idx sm) = mset (queued_idx (enqueue_object i HIGH reason sm3))"
    using arg_cong[OF sm3(2), of mset] by (simp add: enqueue_object_def queued_idx_def)
  from sm_inv_iff[OF this] have "sm_inv (despawn_object i reason sm)"
    using sm3(1) desp by (simp add: enqueue_object_def)
  with sm3(3,4) desp show ?thesis by (simp add: enqueue_object_def frame_eq_def)
qed (use assms in \<open>auto simp: despawn_object_def\<close>)

lemma despawn_all_inv:
  assumes "sm_inv sm"
  shows "sm_inv (fold (\<lambda>(i, reason) s. despawn_object i reason s) ds sm) \<and>
    frame_eq sm (fold (\<lambda>(i, reason) s. despawn_object i reason s) ds sm)"
  using assms
proof (induction ds arbitrary: sm)
  case (Cons d ds)
  obtain i r where d: "d = (i, r)" by (cases d)
  from despawn_object_inv[OF Cons.prems, of i r] Cons.IH[of "despawn_object i r sm"] d show ?case
    by (auto intro: frame_eq_trans)
qed simp

lemma check_and_despawn_inv [inv_intros]:
  assumes "sm_inv sm"
  shows "sm_inv (check_and_despawn_objects p sm) \<and> frame_eq sm (check_and_despawn_objects p sm)"
proof -
  obtain sm1 ds where c: "fold (check_object p) (active_objects sm) (sm, []) = (sm1, ds)"
    by (cases "fold (check_object p) (active_objects sm) (sm, [])")
  from check_pass[OF assms, of "active_objects sm" p "[]"] c have "sm_inv sm1" "frame_eq sm sm1"
    by (auto simp: pass_ok_def)
  with despawn_all_inv[of sm1 ds] c show ?thesis
    by (auto simp: check_and_despawn_objects_def intro: frame_eq_trans)
qed

lemma sm_inv_frame:
  "sm_inv (sm\<lparr>queue_clock := x\<rparr>) = sm_inv sm" "sm_inv (prepare_spawn_bias sm) = sm_inv sm"
  "sm_inv (update_robot_motion dt p sm) = sm_inv sm" "sm_inv (update_curriculum_distances sm) = sm_inv sm"
  by (simp_all add: sm_inv_def split_inv_def queued_idx_def prepare_spawn_bias_def update_robot_motion_def
      update_curriculum_distances_def Let_def)

lemma ensure_minimum_inv [inv_intros]:
  "sm_inv sm \<Longrightarrow> sm_inv (ensure_minimum_active p sm)"
  using spawn_from_queue_inv[of sm p] by (simp add: ensure_minimum_active_def Let_def)

lemma sm_update_inv [inv_intros]:
  assumes "sm_inv sm" shows "sm_inv (sm_update dt p sm)"
  using assms ensure_minimum_inv spawn_from_queue_inv check_and_despawn_inv
  by (simp add: sm_update_def Let_def sm_inv_frame)

lemma make_spawn_manager_inv:
  assumes "make_spawn_manager c m objs r = Inr sm" "\<forall>ob \<in> set objs. fsm ob = INACTIVE"
  shows "sm_inv sm"
proof -
  let ?f = "\<lambda>i s. move_object_out_of_bounds i (enqueue_object i LOW INITIAL s)"
  let ?P = "\<lambda>k s :: spawn_mgr. active_objects s = [] \<and> q_high s = [] \<and> q_normal s = [] \<and>
     waiting_idx (q_low s) = [0..<k] \<and> length (objects s) = length objs \<and> total_spawns s = 0 \<and>
     total_despawns s = 0 \<and> (\<forall>ob \<in> set (objects s). fsm ob = INACTIVE)"
  have step: "?P (Suc k) (?f k s)" if "?P k s" "k < length objs" for k s
    using that set_update_subset_insert[of "objects s" k]
    by (auto simp: move_object_out_of_bounds_def enqueue_object_def set_object_def object_teleport_def
        resample_def dest!: subsetD[OF set_update_subset_insert])
  have all: "?P k (fold ?f [0..<k] s)" if "?P 0 s" "k \<le> length objs" for k s
    using that by (induction k) (use step in auto)
  obtain c' m' where c: "c = Some c'" "m = Some m'"
    using assms(1) by (auto simp: make_spawn_manager_def split: option.splits)
  show ?thesis
    using all[of "\<lparr>cfg = c', smap = m', objects = objs, q_high = [], q_normal = [], q_low = [], active_objects = [],
        stuck_since = Map.empty, reroute_next_attempt = Map.empty, total_spawns = 0, total_despawns = 0,
        failed_spawn_attempts = 0, queue_clock = 0, current_min_spawn_dist = min_spawn_distance c',
        current_max_spawn_dist = max_spawn_distance c', last_robot_pose = None, robot_speed_mps = 0,
        sm_rng = r, sectors = [], bands = [], sector_dist = None, band_dist = None\<rparr>" "length objs"] assms c
    by (simp add: make_spawn_manager_def sm_inv_def split_inv_def queued_idx_def)
qed

section \<open>Where objects appear\<close>

definition band_ok :: "real \<Rightarrow> real \<Rightarrow> distance_band \<Rightarrow> bool" where
  "band_ok lo hi b \<longleftrightarrow> lo \<le> band_min b \<and> band_min b \<le> band_max b \<and> band_max b \<le> hi"

lemma add_band_ok:
  "\<forall>b \<in> set bs. band_ok lo hi b \<Longrightarrow> lo \<le> a \<Longrightarrow> c \<le> hi \<Longrightarrow> \<forall>b \<in> set (add_band a c w bs). band_ok lo hi b"
  by (auto simp: add_band_def band_ok_def)

lemma distance_bands_ok:
  "\<forall>b \<in> set (build_distance_bands sm). band_ok (current_min_spawn_dist sm) (current_max_spawn_dist sm) b"
proof (cases "current_max_spawn_dist sm \<le> current_min_spawn_dist sm")
  case False
  let ?lo = "current_min_spawn_dist sm" and ?hi = "current_max_spawn_dist sm" and ?d = "dist_bias (cfg sm)"
  let ?n = "clamp (near_distance ?d) ?lo ?hi" and ?f = "clamp (far_distance ?d) ?lo ?hi"
  have le: "?lo \<le> ?hi" using False by simp
  have b: "?lo \<le> ?n" "?n \<le> ?hi" "?lo \<le> max ?f ?n" "max ?f ?n \<le> ?hi"
    using clamp_bounds[OF le, of "near_distance ?d"] clamp_bounds[OF le, of "far_distance ?d"] by auto
  show ?thesis using False b le
    by (auto simp: build_distance_bands_def Let_def band_ok_def[of _ _ "\<lparr>band_min = _, band_max = _, band_weight = _\<rparr>"]
        simp del: max.bounded_iff dest!: add_band_ok[THEN bspec, rotated -1])
qed (simp add: build_distance_bands_def Let_def)

lemma unit_tape_draws:
  "unit_tape r \<Longrightarrow> unit_tape (snd (draw_uniform a b r))" "unit_tape r \<Longrightarrow> unit_tape (snd (draw_discrete ws r))"
  "unit_tape r \<Longrightarrow> unit_tape (snd (draw_unit r))"
  by (auto simp: draw_uniform_def draw_discrete_def draw_unit_def)

text \<open>A candidate lies at a radius of one of the bands.\<close>

lemma sample_candidate_distance:
  assumes "unit_tape r" "bd \<noteq> []" "length bd = length (bands sm)" "\<forall>b \<in> set (bands sm). band_ok lo hi b" "0 \<le> lo"
  shows "lo \<le> distance (fst (sample_candidate sm bd p r)) (pos p) \<and>
    distance (fst (sample_candidate sm bd p r)) (pos p) \<le> hi \<and> unit_tape (snd (sample_candidate sm bd p r))"
proof -
  obtain ang r2 where ar: "(case sector_dist sm of
        None \<Rightarrow> draw_uniform (- pi) pi r
      | Some sd \<Rightarrow>
          if sectors sm = [] then draw_uniform (- pi) pi r
          else let (i, r') = draw_discrete sd (snd (draw_uniform (- pi) pi r)); s = sectors sm ! i;
                   (off, r'') = draw_uniform (- half_angle s) (half_angle s) r'
               in (sec_center s + off, r'')) = (ang, r2)" by (rule that[OF surjective_pairing])
  have t2: "unit_tape r2"
    using ar assms(1) by (auto simp: draw_uniform_def draw_discrete_def Let_def split: option.splits if_splits)
  define j where "j = fst (draw_discrete bd r2)"
  define r3 where "r3 = snd (draw_discrete bd r2)"
  define rad where "rad = band_min (bands sm ! j) + (band_max (bands sm ! j) - band_min (bands sm ! j)) * shd r3"
  have t3: "unit_tape r3" using t2 unit_tape_draws by (auto simp: r3_def)
  have "j < length (bands sm)" using pick_weighted_less[OF assms(2)] assms(3) by (simp add: j_def draw_discrete_def)
  then have b: "band_ok lo hi (bands sm ! j)" using assms(4) by simp
  have u: "0 \<le> shd r3" "shd r3 < 1" using unit_tape_shd[OF t3] by auto
  have "0 \<le> (band_max (bands sm ! j) - band_min (bands sm ! j)) * shd r3" using b u by (simp add: band_ok_def)
  moreover have "(band_max (bands sm ! j) - band_min (bands sm ! j)) * shd r3 \<le> band_max (bands sm ! j) - band_min (bands sm ! j)"
    using b u by (intro mult_left_le) (auto simp: band_ok_def)
  ultimately have rad: "lo \<le> rad" "rad \<le> hi" using b by (auto simp: rad_def band_ok_def)
  define w where "w = normalize_angle (yaw p + ang)"
  have samp: "sample_candidate sm bd p r =
      (pt (px (pos p) + rad * cos w) (py (pos p) + rad * sin w), stl r3)"
    using ar unfolding sample_candidate_def Let_def
    by (auto simp: case_prod_beta draw_unit_def j_def r3_def rad_def w_def Let_def split: option.splits if_splits)
  have "rad * cos w * (rad * cos w) + rad * sin w * (rad * sin w) = rad * rad * (cos w * cos w + sin w * sin w)"
    by algebra
  then have "distance (fst (sample_candidate sm bd p r)) (pos p) = sqrt (rad * rad)"
    by (simp add: samp distance_def distance_sq_def point_sub_def vec_dot_def cos_sin_one)
  also have "\<dots> = rad" using rad(1) assms(5) by simp
  finally show ?thesis using rad samp t3 by auto
qed

lemma find_spawn_loop_sound:
  assumes "find_spawn_loop n sm bd p r = (Some q, r')"
    and "unit_tape r" "bd \<noteq> []" "length bd = length (bands sm)" "\<forall>b \<in> set (bands sm). band_ok lo hi b" "0 \<le> lo"
  shows "candidate_ok sm p (pos q) \<and> lo \<le> distance (pos q) (pos p) \<and> distance (pos q) (pos p) \<le> hi \<and>
    yaw q = atan2 (py (pos p) - py (pos q)) (px (pos p) - px (pos q))"
  using assms(1,2)
proof (induction n arbitrary: r)
  case (Suc n)
  note c = sample_candidate_distance[OF Suc.prems(2) assms(3-6), of p]
  show ?case
  proof (cases "candidate_ok sm p (fst (sample_candidate sm bd p r))")
    case True
    with Suc.prems c show ?thesis by (auto simp: case_prod_beta Let_def)
  next
    case False
    with Suc.prems(1) have "find_spawn_loop n sm bd p (snd (sample_candidate sm bd p r)) = (Some q, r')"
      by (simp add: case_prod_beta Let_def)
    with Suc.IH c show ?thesis by blast
  qed
qed simp

lemma prepare_keeps [simp]:
  "cfg (prepare_spawn_bias sm) = cfg sm" "spawn_mgr.smap (prepare_spawn_bias sm) = spawn_mgr.smap sm"
  "objects (prepare_spawn_bias sm) = objects sm" "active_objects (prepare_spawn_bias sm) = active_objects sm"
  "sm_rng (prepare_spawn_bias sm) = sm_rng sm" "bands (prepare_spawn_bias sm) = build_distance_bands sm"
  by (simp_all add: prepare_spawn_bias_def Let_def)

lemma candidate_ok_prepare: "candidate_ok (prepare_spawn_bias sm) p q = candidate_ok sm p q"
  by (simp only: candidate_ok_def check_static_collision_def is_occluded_def active_positions_def
      check_separation_def prepare_keeps)

lemma find_spawn_pose_sound:
  assumes "find_spawn_pose p (prepare_spawn_bias sm) = (Some q, sm')" "unit_tape (sm_rng sm)"
    and "0 \<le> current_min_spawn_dist sm"
  shows "candidate_ok sm p (pos q) \<and> current_min_spawn_dist sm \<le> distance (pos q) (pos p) \<and>
    distance (pos q) (pos p) \<le> current_max_spawn_dist sm \<and>
    yaw q = atan2 (py (pos p) - py (pos q)) (px (pos p) - px (pos q))"
proof -
  let ?sm = "prepare_spawn_bias sm"
  obtain bd r where bd: "band_dist ?sm = Some bd" "bands ?sm \<noteq> []"
    "find_spawn_loop (max_position_samples (cfg ?sm)) ?sm bd p (sm_rng ?sm) = (Some q, r)"
    using assms(1) by (auto simp: find_spawn_pose_def case_prod_beta prod_eq_iff split: option.splits if_splits)
  have len: "bd \<noteq> []" "length bd = length (bands ?sm)"
    using bd(1) by (auto simp: prepare_spawn_bias_def Let_def build_distribution_def split: if_splits)
  show ?thesis
    using find_spawn_loop_sound[OF bd(3) _ len, of "current_min_spawn_dist sm" "current_max_spawn_dist sm"]
      distance_bands_ok[of sm] assms(2,3) by (simp add: candidate_ok_prepare)
qed

section \<open>Runs\<close>

text \<open>Between two frames the world updates the objects and reports their collisions.\<close>

datatype sm_event = Frame real pose2 | ObjectUpdate nat real | ObjectCollision nat

fun sm_step :: "sm_event \<Rightarrow> spawn_mgr \<Rightarrow> spawn_mgr" where
  "sm_step (Frame dt p) sm = sm_update dt p sm"
| "sm_step (ObjectUpdate i dt) sm =
     (if i < length (objects sm) then set_object i (object_update dt (objects sm ! i)) sm else sm)"
| "sm_step (ObjectCollision i) sm =
     (if i < length (objects sm) then set_object i (object_on_collision (objects sm ! i)) sm else sm)"

definition sm_run :: "sm_event list \<Rightarrow> spawn_mgr \<Rightarrow> spawn_mgr" where
  "sm_run es sm = fold sm_step es sm"

lemma split_inv_set_object:
  assumes "split_inv w sm" "i < length (objects sm)" "fsm (objects sm ! i) = INACTIVE \<Longrightarrow> fsm ob = INACTIVE"
  shows "split_inv w (set_object i ob sm)"
proof -
  have "fsm ((objects sm)[i := ob] ! j) = INACTIVE" if "j \<in> set w" for j
    using that assms by (cases "j = i") (auto simp: split_inv_def)
  with assms(1) show ?thesis by (auto simp: split_inv_def set_object_def)
qed

lemma sm_step_inv [inv_intros]: "sm_inv sm \<Longrightarrow> sm_inv (sm_step e sm)"
  by (cases e) (auto simp: sm_inv_def inactive_stays intro: sm_update_inv[unfolded sm_inv_def] split_inv_set_object)

lemma sm_run_inv: "sm_inv sm \<Longrightarrow> sm_inv (sm_run es sm)"
  unfolding sm_run_def by (induction es arbitrary: sm) (auto intro: sm_step_inv)

section \<open>Properties\<close>

definition demo_cfg :: spawn_cfg where
  "demo_cfg = \<lparr>min_spawn_distance = 4, max_spawn_distance = 6, min_inter_object_distance = 1, fov_angle_deg = 90,
     fov_distance = 10, max_sensor_range = 20, max_despawn_distance = 30, stuck_timeout = 5, avoid_fov = False,
     angular = \<lparr>front_angle_deg = 90, flank_angle_deg = 90, rear_angle_deg = 90, front_weight = 0,
       flank_weight = 0, rear_weight = 0\<rparr>,
     dist_bias = \<lparr>near_distance = 0, far_distance = 100, near_weight_slow = 1, near_weight_fast = 1,
       far_weight_slow = 1, far_weight_fast = 1, slow_speed_mps = 1, fast_speed_mps = 3\<rparr>,
     occlusion = \<lparr>allow_in_fov = False, static_blocker_radius = 0, dynamic_blocker_radius = 0\<rparr>,
     respect_map_geometry = True, max_spawns_per_frame = 1, max_spawn_attempts_per_frame = 4,
     min_active_objects = 0, max_active_objects = 1, max_position_samples = 3\<rparr>"

definition demo_map :: spawn_map where
  "demo_map = \<lparr>map_bounds = \<lparr>bmin = pt (- 10) (- 10), bmax = pt 10 10\<rparr>, static_positions = [pt 0 8]\<rparr>"

definition demo_manager :: spawn_mgr where
  "demo_manager =
     (case make_spawn_manager (Some demo_cfg) (Some demo_map) [demo_object] (sconst (1 / 2)) of Inr sm \<Rightarrow> sm)"

lemma demo_manager_made:
  "make_spawn_manager (Some demo_cfg) (Some demo_map) [demo_object] (sconst (1 / 2)) = Inr demo_manager"
  by (simp add: demo_manager_def make_spawn_manager_def)

text \<open>C9: Whatever frames, object updates and collisions a spawn manager goes through, every object is
  either active or waiting in exactly one of the three queues, at most the configured number is
  active, a waiting object is inactive, and the active objects are the spawns less the despawns.\<close>

theorem spawn_manager_partition:
  assumes "\<forall>ob \<in> set objs. fsm ob = INACTIVE" "make_spawn_manager c m objs r = Inr sm0"
  shows "let sm = sm_run events sm0 in
     mset (active_objects sm @ queued_idx sm) = mset [0..<length (objects sm)] \<and>
     length (active_objects sm) \<le> max_active_objects (cfg sm) \<and>
     total_spawns sm = total_despawns sm + length (active_objects sm) \<and>
     (\<forall>i \<in> set (queued_idx sm). fsm (objects sm ! i) = INACTIVE)"
  using sm_run_inv[OF make_spawn_manager_inv[OF assms(2,1)], of events]
  unfolding sm_inv_def split_inv_def Let_def .

theorem spawn_manager_partition_witness:
  "mset (active_objects (sm_run [Frame 1 zero_pose, ObjectUpdate 0 1, Frame 1 zero_pose] demo_manager) @
      queued_idx (sm_run [Frame 1 zero_pose, ObjectUpdate 0 1, Frame 1 zero_pose] demo_manager)) =
   mset [0..<length (objects (sm_run [Frame 1 zero_pose, ObjectUpdate 0 1, Frame 1 zero_pose] demo_manager))]"
  using spawn_manager_partition[OF _ demo_manager_made] demo_object_inactive
  by (simp only: Let_def) simp


lemma demo_spawn:
  "find_spawn_pose zero_pose (prepare_spawn_bias demo_manager) =
     (Some \<lparr>pos = pt 5 0, yaw = pi\<rparr>, (prepare_spawn_bias demo_manager)\<lparr>sm_rng := sconst (1 / 2)\<rparr>)"
proof -
  have [simp]: "cfg demo_manager = demo_cfg" "spawn_mgr.smap demo_manager = demo_map" "active_objects demo_manager = []"
    "sm_rng demo_manager = sconst (1 / 2)" "current_min_spawn_dist demo_manager = 4"
    "current_max_spawn_dist demo_manager = 6"
    by (simp_all add: demo_manager_def make_spawn_manager_def enqueue_object_def move_object_out_of_bounds_def
        set_object_def demo_cfg_def)
  have b: "build_distance_bands demo_manager = [\<lparr>band_min = 4, band_max = 6, band_weight = 1\<rparr>]"
    by (simp add: build_distance_bands_def demo_cfg_def clamp_def add_band_def blend_weight_def Let_def)
  have s: "sectors (prepare_spawn_bias demo_manager) = []" "band_dist (prepare_spawn_bias demo_manager) = Some [1]"
    "sector_dist (prepare_spawn_bias demo_manager) = None"
    by (simp_all add: prepare_spawn_bias_def build_sector_bias_def demo_cfg_def push_sector_def Let_def
        b build_distribution_def)
  have n: "normalize_angle 0 = 0" by (rule normalize_angle_id) simp_all
  have at: "atan2 0 (- 5) = pi" by (simp add: atan2_def)
  have m: "max_position_samples demo_cfg = 3" by (simp add: demo_cfg_def)
  have "5 / 2 \<le> sqrt 89" by (rule real_le_rsqrt) (simp add: power2_eq_square)
  then have far: "5 \<le> sqrt 89 * 2" by simp
  have "sample_candidate (prepare_spawn_bias demo_manager) [1] zero_pose (sconst (1 / 2)) = (pt 5 0, sconst (1 / 2))"
    by (simp add: sample_candidate_def s b draw_uniform_def draw_discrete_def draw_unit_def zero_pose_def n)
  moreover have "candidate_ok (prepare_spawn_bias demo_manager) zero_pose (pt 5 0)"
    by (simp add: candidate_ok_def demo_cfg_def demo_map_def aabb_contains_def check_static_collision_def
        check_separation_def active_positions_def distance_def distance_sq_def point_sub_def vec_dot_def not_less far)
  ultimately show ?thesis
    by (simp add: find_spawn_pose_def s b m zero_pose_def at numeral_3_eq_3)
qed


end
