(* ===== verification/World.thy ===== *)
theory World
  imports Names Severity Clearance SpawnManager
begin

text \<open>
  The world of one simulation: \<^verbatim>\<open>sim/world.hpp\<close> and \<^verbatim>\<open>world.cpp\<close>, with its configuration
  (\<^verbatim>\<open>config/world.hpp\<close>, \<^verbatim>\<open>config/map.hpp\<close>). The constructor assigns the entities, chooses
  the route and builds the broad phase; an update runs the spawn manager, the objects and the robot,
  moves the instances and resolves the collisions; the telemetry advances the route. The vector of
  dynamic objects is shared with the spawn manager, so the model keeps it there.
\<close>

section \<open>Configuration\<close>

record static_instance_cfg =
  si_name :: string
  si_model_id :: string
  si_pose :: pose2

record robot_waypoint =
  wp_name :: string
  wp_pos :: point2
  wp_tolerance :: real

record robot_route =
  rt_name :: string
  rt_start :: pose2
  rt_waypoints :: "robot_waypoint list"

record map_config =
  mc_name :: string
  mc_statics :: "static_instance_cfg list"
  mc_routes :: "robot_route list"
  mc_bounds :: aabb2

record dynamic_instance_cfg =
  di_name :: string
  di_model_id :: string
  di_profile_id :: string
  di_pose :: pose2

record random_instances_cfg =
  ri_name :: string
  ri_model_id :: string
  ri_profile_id :: string
  ri_count :: nat

datatype world_kind = DeterministicWorld "dynamic_instance_cfg list" | RandomWorld "random_instances_cfg list"

record world_config =
  model_profiles :: "string \<Rightarrow> model_profile option"
  dynamic_profiles :: "string \<Rightarrow> dynamic_profile option"
  robot_profiles :: "string \<Rightarrow> robot_profile option"
  world_kind :: world_kind
  collision_categories :: "collision_filter list"
  robot_instance :: robot_cfg

section \<open>The entity tables\<close>

datatype entity_type = StaticEntity | DynamicEntity | RobotEntity

record entity_ref =
  er_type :: entity_type
  er_index :: nat
  er_name :: string

record entities =
  next_id :: entity_id
  entity_registry :: "entity_ref option list"
  instance_lookup :: "tlas_leaf option list"
  lookup_touched :: "entity_id list"

definition no_entities :: entities where
  "no_entities = \<lparr>next_id = 0, entity_registry = [], instance_lookup = [], lookup_touched = []\<rparr>"

definition resize_to :: "nat \<Rightarrow> 'a option list \<Rightarrow> 'a option list" where
  "resize_to n xs = (if length xs < n then xs @ replicate (n - length xs) None else xs)"

definition ensure_entity_slot :: "entity_id \<Rightarrow> entities \<Rightarrow> entities" where
  "ensure_entity_slot e t =
     t\<lparr>entity_registry := resize_to (unat e + 1) (entity_registry t),
       instance_lookup := resize_to (unat e + 1) (instance_lookup t)\<rparr>"

definition register_entity :: "entity_id \<Rightarrow> entity_ref \<Rightarrow> entities \<Rightarrow> entities" where
  "register_entity e r t0 =
     (let t = ensure_entity_slot e t0 in t\<lparr>entity_registry := (entity_registry t)[unat e := Some r]\<rparr>)"

definition find_entity :: "entity_id \<Rightarrow> entities \<Rightarrow> entity_ref option" where
  "find_entity e t = (if unat e \<ge> length (entity_registry t) then None else entity_registry t ! unat e)"

definition reset_instance_cache :: "entities \<Rightarrow> entities" where
  "reset_instance_cache t =
     t\<lparr>instance_lookup := fold (\<lambda>e l. if unat e < length l then l[unat e := None] else l) (lookup_touched t) (instance_lookup t),
       lookup_touched := []\<rparr>"

definition cache_instance :: "tlas_leaf \<Rightarrow> entities \<Rightarrow> entities" where
  "cache_instance inst t0 =
     (let t = ensure_entity_slot (tl_entity inst) t0
      in t\<lparr>instance_lookup := (instance_lookup t)[unat (tl_entity inst) := Some inst],
           lookup_touched := lookup_touched t @ [tl_entity inst]\<rparr>)"

definition instance_for :: "entity_id \<Rightarrow> entities \<Rightarrow> tlas_leaf option" where
  "instance_for e t = (if unat e \<ge> length (instance_lookup t) then None else instance_lookup t ! unat e)"

section \<open>The route\<close>

record route_state =
  active_route_name :: string
  active_route_start_pose :: pose2
  active_route :: "robot_waypoint list"
  active_waypoint_index :: nat
  final_goal :: bool

definition select_route :: "map_config \<Rightarrow> bool \<Rightarrow> rng \<Rightarrow> string + route_state \<times> rng" where
  "select_route m randomize r0 =
     (if mc_routes m = [] then Inl ''Map requires at least one robot route''
      else let (i, r1) = (if randomize \<and> length (mc_routes m) > 1 then draw_index (length (mc_routes m)) r0 else (0, r0));
               route = mc_routes m ! i
           in if rt_waypoints route = [] then Inl (''Robot route has no waypoints: '' @ rt_name route)
              else let (start, r2) = (if randomize then let (y, r) = draw_uniform (- pi) pi r1 in ((rt_start route)\<lparr>yaw := y\<rparr>, r)
                                      else (rt_start route, r1))
                   in Inr (\<lparr>active_route_name = rt_name route, active_route_start_pose = start,
                            active_route = rt_waypoints route, active_waypoint_index = 0, final_goal = False\<rparr>, r2))"

text \<open>The exception for an empty route cannot occur: \<open>select_route\<close> rejects it.\<close>

definition current_waypoint :: "route_state \<Rightarrow> robot_waypoint" where
  "current_waypoint rs = active_route rs ! min (active_waypoint_index rs) (length (active_route rs) - 1)"

definition is_current_waypoint_reached :: "point2 \<Rightarrow> route_state \<Rightarrow> bool" where
  "is_current_waypoint_reached p rs \<longleftrightarrow> distance p (wp_pos (current_waypoint rs)) \<le> wp_tolerance (current_waypoint rs)"

definition populate_route_observation :: "route_state \<Rightarrow> observation \<Rightarrow> observation" where
  "populate_route_observation rs ob =
     (let w = current_waypoint rs; p = pos (est_pose ob)
      in ob\<lparr>waypoint_pos_world := wp_pos w, obs_distance_to_waypoint := distance p (wp_pos w),
            obs_heading_to_waypoint := atan2 (py (wp_pos w) - py p) (px (wp_pos w) - px p),
            obs_waypoint_reached := final_goal rs \<or> is_current_waypoint_reached p rs,
            obs_final_goal_reached := final_goal rs, obs_waypoint_index := active_waypoint_index rs,
            obs_waypoint_count := length (active_route rs)\<rparr>)"

text \<open>The part of \<open>reward_telemetry\<close> that moves along the route: the flags, and the route after it.\<close>

definition advance_route :: "point2 \<Rightarrow> route_state \<Rightarrow> (bool \<times> bool) \<times> route_state" where
  "advance_route p rs =
     (if \<not> final_goal rs \<and> is_current_waypoint_reached p rs
      then if active_waypoint_index rs + 1 \<ge> length (active_route rs)
           then ((True, True), rs\<lparr>final_goal := True\<rparr>)
           else ((True, final_goal rs), rs\<lparr>active_waypoint_index := active_waypoint_index rs + 1\<rparr>)
      else ((False, final_goal rs), rs))"

section \<open>State\<close>

record static_object =
  so_id :: entity_id
  so_cfg :: static_instance_cfg

record collision_report =
  rep_timestamp :: real
  rep_severity :: collision_severity
  rep_contacts :: "collision_contact list"

record object_snapshot =
  os_id :: entity_id
  os_name :: string
  os_model_id :: string
  os_pose :: pose2
  os_velocity :: twist2
  os_state_name :: string

record world_snapshot =
  ws_robot_model :: string
  ws_robot_pose :: pose2
  ws_robot_velocity :: twist2
  ws_robot_collided :: bool
  ws_objects :: "object_snapshot list"
  ws_time :: real
  ws_map :: string
  ws_route_name :: string
  ws_waypoint_index :: nat
  ws_waypoint_count :: nat
  ws_clouds :: "point3 list option list"

record world =
  wd_config :: world_config
  wd_map :: map_config
  wd_weights :: "reward_weights option"
  wd_time :: real
  wd_last_dt :: real
  wd_entities :: entities
  wd_names :: name_table
  wd_statics :: "static_object list"
  wd_dyn_cfgs :: "dynamic_instance_cfg list"
  wd_spawner :: spawn_mgr
  wd_bp :: broad_phase
  wd_robot :: robot
  wd_robot_entity :: entity_id
  wd_start_pose :: pose2
  wd_route :: route_state
  wd_report :: "collision_report option"
  wd_snapshot :: world_snapshot
  wd_snapshot_dirty :: bool

abbreviation wd_objects :: "world \<Rightarrow> dyn_object list" where
  "wd_objects w \<equiv> objects (wd_spawner w)"

definition set_objects :: "dyn_object list \<Rightarrow> world \<Rightarrow> world" where
  "set_objects obs w = w\<lparr>wd_spawner := (wd_spawner w)\<lparr>objects := obs\<rparr>\<rparr>"

definition obj_entity :: "dyn_object \<Rightarrow> entity_id" where
  "obj_entity ob = of_nat (object_id ob)"

section \<open>Construction\<close>

record world_params =
  wp_config :: "world_config option"
  wp_map :: "map_config option"
  wp_spawn :: "spawn_cfg option"
  wp_pool :: "(nat \<times> nat) option"
  wp_weights :: "reward_weights option"
  wp_sim_id :: "32 word"
  wp_route_tape :: rng
  wp_spawn_tape :: rng
  wp_object_tapes :: "nat \<Rightarrow> rng"
  wp_sensor_tapes :: "nat \<Rightarrow> rng \<times> rng"

text \<open>The members that the constructor fills while it walks over the configuration.\<close>

record world_parts =
  b_entities :: entities
  b_names :: name_table
  b_statics :: "static_object list"
  b_objects :: "dyn_object list"
  b_dyn_cfgs :: "dynamic_instance_cfg list"

definition take_id :: "world_parts \<Rightarrow> entity_id \<times> world_parts" where
  "take_id b = (next_id (b_entities b), b\<lparr>b_entities := (b_entities b)\<lparr>next_id := next_id (b_entities b) + 1\<rparr>\<rparr>)"

definition add_static :: "static_instance_cfg \<Rightarrow> world_parts \<Rightarrow> world_parts" where
  "add_static c b0 =
     (let (e, b) = take_id b0
      in b\<lparr>b_statics := b_statics b @ [\<lparr>so_id = e, so_cfg = c\<rparr>],
           b_entities := register_entity e \<lparr>er_type = StaticEntity, er_index = length (b_statics b), er_name = si_name c\<rparr> (b_entities b),
           b_names := register_existing_name (si_name c) (b_names b)\<rparr>)"

text \<open>A dynamic object; the name in the registry is an argument of its own.\<close>

definition add_dynamic :: "(nat \<Rightarrow> rng) \<Rightarrow> dynamic_profile \<Rightarrow> dynamic_instance_cfg \<Rightarrow> string \<Rightarrow> world_parts \<Rightarrow> world_parts" where
  "add_dynamic tapes prof c ref_name b0 =
     (let (e, b) = take_id b0; i = length (b_objects b)
      in b\<lparr>b_objects := b_objects b @ [make_dyn_object (unat e) (di_pose c) prof (tapes i)],
           b_dyn_cfgs := b_dyn_cfgs b @ [c],
           b_entities := register_entity e \<lparr>er_type = DynamicEntity, er_index = i, er_name = ref_name\<rparr> (b_entities b),
           b_names := register_existing_name ref_name (b_names b)\<rparr>)"

definition profile_not_found :: "string \<Rightarrow> string" where
  "profile_not_found i = ''Dynamic profile not found: '' @ i"

fun add_deterministic :: "world_config \<Rightarrow> (nat \<Rightarrow> rng) \<Rightarrow> dynamic_instance_cfg list \<Rightarrow> world_parts \<Rightarrow> string + world_parts" where
  "add_deterministic wc tapes [] b = Inr b"
| "add_deterministic wc tapes (c # cs) b =
     (case dynamic_profiles wc (di_profile_id c) of
        None \<Rightarrow> Inl (profile_not_found (di_profile_id c))
      | Some prof \<Rightarrow> add_deterministic wc tapes cs (add_dynamic tapes prof c (di_name c) b))"

text \<open>
  The configuration is moved into the object before its name is used again for the registry: the
  name read there is that of a moved-from string, which is empty.
\<close>

definition moved_from_name :: string where
  "moved_from_name = []"

text \<open>The objects of one group, from index \<open>i\<close> on; \<open>None\<close> is a search for a name that never ends.\<close>

fun add_group :: "(nat \<Rightarrow> rng) \<Rightarrow> dynamic_profile \<Rightarrow> random_instances_cfg \<Rightarrow> nat list \<Rightarrow> world_parts \<Rightarrow> world_parts option" where
  "add_group tapes prof g [] b = Some b"
| "add_group tapes prof g (i # is) b =
     (case make_instance_name (ri_name g @ ''_'' @ digits4 i) (b_names b) of
        None \<Rightarrow> None
      | Some (name, names) \<Rightarrow>
          add_group tapes prof g is
            (add_dynamic tapes prof \<lparr>di_name = name, di_model_id = ri_model_id g, di_profile_id = ri_profile_id g, di_pose = zero_pose\<rparr>
               moved_from_name (b\<lparr>b_names := names\<rparr>)))"

fun add_random :: "world_config \<Rightarrow> (nat \<Rightarrow> rng) \<Rightarrow> random_instances_cfg list \<Rightarrow> world_parts \<Rightarrow> (string + world_parts) option" where
  "add_random wc tapes [] b = Some (Inr b)"
| "add_random wc tapes (g # gs) b =
     (case dynamic_profiles wc (ri_profile_id g) of
        None \<Rightarrow> Some (Inl (profile_not_found (ri_profile_id g)))
      | Some prof \<Rightarrow>
          (case add_group tapes prof g [0..<ri_count g] b of
             None \<Rightarrow> None
           | Some b' \<Rightarrow> add_random wc tapes gs b'))"

text \<open>The dynamic objects and the route; the two kinds of world do it in opposite orders.\<close>

definition populate :: "world_config \<Rightarrow> map_config \<Rightarrow> world_params \<Rightarrow> world_parts \<Rightarrow> (string + world_parts \<times> route_state) option" where
  "populate wc m p b =
     (case world_kind wc of
        DeterministicWorld cs \<Rightarrow>
          Some (and_then (select_route m False (wp_route_tape p))
                 (\<lambda>(rs, r). and_then (add_deterministic wc (wp_object_tapes p) cs b) (\<lambda>b'. Inr (b', rs))))
      | RandomWorld gs \<Rightarrow>
          map_option (\<lambda>res. and_then res (\<lambda>b'. and_then (select_route m True (wp_route_tape p)) (\<lambda>(rs, r). Inr (b', rs))))
            (add_random wc (wp_object_tapes p) gs b))"

definition is_tile :: "model_profile \<Rightarrow> bool" where
  "is_tile m \<longleftrightarrow> take 5 (profile_name m) = ''tile_''"

definition static_instance :: "world_config \<Rightarrow> static_object \<Rightarrow> bp_instance list" where
  "static_instance wc so =
     (case model_profiles wc (si_model_id (so_cfg so)) of
        None \<Rightarrow> []
      | Some m \<Rightarrow> if is_tile m then []
          else [\<lparr>bi_name = si_name (so_cfg so), bi_pose = si_pose (so_cfg so), bi_model = Some m, bi_static = True,
                 bi_entity = so_id so\<rparr>])"

definition dynamic_instance :: "world_config \<Rightarrow> dyn_object \<times> dynamic_instance_cfg \<Rightarrow> bp_instance list" where
  "dynamic_instance wc x =
     (case model_profiles wc (di_model_id (snd x)) of
        None \<Rightarrow> []
      | Some m \<Rightarrow> [\<lparr>bi_name = di_name (snd x), bi_pose = di_pose (snd x), bi_model = Some m, bi_static = False,
                    bi_entity = obj_entity (fst x)\<rparr>])"

definition scene_instances :: "world_config \<Rightarrow> world_parts \<Rightarrow> bp_instance list" where
  "scene_instances wc b =
     concat (map (static_instance wc) (b_statics b)) @ concat (map (dynamic_instance wc) (zip (b_objects b) (b_dyn_cfgs b)))"

fun state_name :: "object_state \<Rightarrow> string" where
  "state_name ACTIVE = ''ACTIVE''"
| "state_name STOPPED = ''STOPPED''"
| "state_name INACTIVE = ''INACTIVE''"

definition snapshot_object :: "dyn_object \<times> dynamic_instance_cfg \<Rightarrow> object_snapshot" where
  "snapshot_object x =
     \<lparr>os_id = obj_entity (fst x), os_name = di_name (snd x), os_model_id = di_model_id (snd x),
      os_pose = DynObject.current_pose (fst x), os_velocity = DynObject.current_vel (fst x), os_state_name = state_name (fsm (fst x))\<rparr>"

definition spawn_map_of :: "map_config \<Rightarrow> spawn_map" where
  "spawn_map_of m = \<lparr>map_bounds = mc_bounds m, static_positions = map (\<lambda>c. pos (si_pose c)) (mc_statics m)\<rparr>"

definition empty_parts :: world_parts where
  "empty_parts = \<lparr>b_entities = no_entities, b_names = empty_names, b_statics = [], b_objects = [], b_dyn_cfgs = []\<rparr>"

text \<open>The constructor after the population: the robot, the broad phase, the snapshot, the spawn manager.\<close>

definition finish_world :: "nth_element_impl \<Rightarrow> world_params \<Rightarrow> world_config \<Rightarrow> map_config \<Rightarrow> robot_profile \<Rightarrow> model_profile
    \<Rightarrow> world_parts \<Rightarrow> route_state \<Rightarrow> string + world" where
  "finish_world ne p wc m prof model b0 rs =
     (let (e, b) = take_id b0;
          cfg = robot_instance wc; start = active_route_start_pose rs;
          ents = register_entity e \<lparr>er_type = RobotEntity, er_index = 0, er_name = robot_name cfg\<rparr> (b_entities b);
          insts = scene_instances wc b @ [\<lparr>bi_name = robot_name cfg, bi_pose = start, bi_model = Some model,
                    bi_static = False, bi_entity = e\<rparr>]
      in and_then (make_broad_phase ne insts (collision_categories wc))
        (\<lambda>bp0. and_then (make_robot \<lparr>pr_config = cfg, pr_profile = Some prof, pr_pool = wp_pool p,
              pr_frames = Some (register_frame '''' ''world'' Map.empty), pr_model = model, pr_base_frame = ''base_link'',
              pr_entity_id = e, pr_sim_id = wp_sim_id p, pr_initial_pose = start, pr_sensor_tapes = wp_sensor_tapes p\<rparr>)
        (\<lambda>robot. and_then (make_spawn_manager (wp_spawn p) (Some (spawn_map_of m)) (b_objects b) (wp_spawn_tape p))
        (\<lambda>sm. Inr
          \<lparr>wd_config = wc, wd_map = m, wd_weights = wp_weights p, wd_time = 0, wd_last_dt = 0, wd_entities = ents,
           wd_names = b_names b, wd_statics = b_statics b, wd_dyn_cfgs = b_dyn_cfgs b, wd_spawner = sm,
           wd_bp = build ne bp0, wd_robot = robot, wd_robot_entity = e, wd_start_pose = start, wd_route = rs,
           wd_report = None,
           wd_snapshot = \<lparr>ws_robot_model = profile_name model, ws_robot_pose = rb_pose robot, ws_robot_velocity = rb_vel robot,
             ws_robot_collided = False, ws_objects = map snapshot_object (zip (b_objects b) (b_dyn_cfgs b)), ws_time = 0,
             ws_map = mc_name m, ws_route_name = [], ws_waypoint_index = 0, ws_waypoint_count = 0, ws_clouds = []\<rparr>,
           wd_snapshot_dirty = False\<rparr>))))"

definition make_world :: "nth_element_impl \<Rightarrow> world_params \<Rightarrow> (string + world) option" where
  "make_world ne p =
     (case (wp_config p, wp_map p, wp_pool p, wp_spawn p) of
        (Some wc, Some m, Some pool, Some sc) \<Rightarrow>
          (let b = fold add_static (mc_statics m) empty_parts
           in case robot_profiles wc (robot_profile_id (robot_instance wc)) of
                None \<Rightarrow> Some (Inl (''Robot profile not found: '' @ robot_profile_id (robot_instance wc)))
              | Some prof \<Rightarrow>
                  (case model_profiles wc (rp_model_id prof) of
                     None \<Rightarrow> Some (Inl (''Robot model profile not found: '' @ rp_model_id prof))
                   | Some model \<Rightarrow>
                       map_option (\<lambda>res. and_then res (\<lambda>(b', rs). finish_world ne p wc m prof model b' rs)) (populate wc m p b)))
      | _ \<Rightarrow> Some (Inl ''World requires config, map, spawn config, and thread pool''))"

end
