(* ===== verification/WorldUpdate.thy ===== *)
theory WorldUpdate
  imports World
begin

text \<open>
  One update of the world (\<^verbatim>\<open>sim/world.cpp\<close>): the spawn manager, the objects, the robot, the
  scene trees and the collisions; then what the simulator asks of the world between two updates. A
  result is \<open>None\<close> where a loop of the code never ends. The pointers to the broad phase and to the
  robot are set by the constructor, so their null checks are left out.
\<close>

section \<open>Collision utilities\<close>

definition model_bounds :: "model_profile \<Rightarrow> pose2 \<Rightarrow> aabb2" where
  "model_bounds model world_pose =
     (case parts model of
        [] \<Rightarrow> \<lparr>bmin = pos world_pose, bmax = pos world_pose\<rparr>
      | first # rest \<Rightarrow>
          fold (\<lambda>part bounds. aabb_merge bounds (aabb_transform (get_bounds (base (part_geom part))) (pose_compose world_pose (rel_pose part))))
            rest (aabb_transform (get_bounds (base (part_geom first))) (pose_compose world_pose (rel_pose first))))"

text \<open>The first pair of parts that collides.\<close>

definition narrow_phase_intersect_check :: "model_profile \<Rightarrow> pose2 \<Rightarrow> model_profile \<Rightarrow> pose2 \<Rightarrow> collision_result" where
  "narrow_phase_intersect_check a_model a_pose b_model b_pose =
     (case List.find intersects
        (concat (map (\<lambda>a. map (\<lambda>b. collide_shapes (part_geom a) (pose_compose a_pose (rel_pose a))
                                     (part_geom b) (pose_compose b_pose (rel_pose b))) (parts b_model)) (parts a_model))) of
        Some result \<Rightarrow> result
      | None \<Rightarrow> no_collision)"

section \<open>The scene trees\<close>

definition move_entity :: "entity_id \<times> pose2 \<Rightarrow> broad_phase option \<Rightarrow> broad_phase option" where
  "move_entity x bp = Option.bind bp (update_dynamics (fst x) (snd x))"

definition update_scene_trees :: "world \<Rightarrow> ((error + unit) \<times> world) option" where
  "update_scene_trees w =
     (let bp1 = fold move_entity (map (\<lambda>ob. (obj_entity ob, DynObject.current_pose ob)) (wd_objects w)) (Some (wd_bp w));
          bp2 = (if wd_robot_entity w \<noteq> - 1 then move_entity (wd_robot_entity w, rb_pose (wd_robot w)) bp1 else bp1)
      in map_option (\<lambda>bp. (Inr (), w\<lparr>wd_bp := refit_dynamics bp\<rparr>)) bp2)"

section \<open>Collisions of the robot\<close>

text \<open>Where a candidate is, and which dynamic object it is; \<open>None\<close> is a \<^verbatim>\<open>continue\<close>.\<close>

definition candidate_pose :: "entity_ref \<Rightarrow> world \<Rightarrow> (pose2 \<times> nat option) option" where
  "candidate_pose ref w =
     (case er_type ref of
        StaticEntity \<Rightarrow> if er_index ref \<ge> length (wd_statics w) then None
          else Some (si_pose (so_cfg (wd_statics w ! er_index ref)), None)
      | DynamicEntity \<Rightarrow> if er_index ref \<ge> length (wd_objects w) then None
          else if \<not> object_is_active (wd_objects w ! er_index ref) then None
          else Some (DynObject.current_pose (wd_objects w ! er_index ref), Some (er_index ref))
      | RobotEntity \<Rightarrow> None)"

definition collide_object :: "nat \<Rightarrow> world \<Rightarrow> world" where
  "collide_object i w = set_objects ((wd_objects w)[i := object_on_collision (wd_objects w ! i)]) w"

type_synonym contact_list = "(collision_contact \<times> collision_result) list"

definition robot_candidate :: "entity_id \<Rightarrow> world \<times> contact_list \<Rightarrow> world \<times> contact_list" where
  "robot_candidate e = (\<lambda>(w, hits).
     if e = wd_robot_entity w then (w, hits)
     else case find_entity e (wd_entities w) of None \<Rightarrow> (w, hits)
     | Some ref \<Rightarrow>
       (case Option.bind (instance_for e (wd_entities w)) tl_model of None \<Rightarrow> (w, hits)
        | Some model \<Rightarrow>
          (case candidate_pose ref w of None \<Rightarrow> (w, hits)
           | Some (opose, dyn) \<Rightarrow>
             let res = narrow_phase_intersect_check (rb_model (wd_robot w)) (rb_pose (wd_robot w)) model opose
             in if intersects res
                then (case dyn of None \<Rightarrow> w | Some i \<Rightarrow> collide_object i w,
                      hits @ [(\<lparr>other_name = er_name ref, other_pose = opose, other_is_dynamic = (dyn \<noteq> None)\<rparr>, res)])
                else (w, hits))))"

definition resolve_robot_collisions :: "world \<Rightarrow> ((error + unit) \<times> world) option" where
  "resolve_robot_collisions w0 =
     map_option
       (\<lambda>candidate_ids.
          let (w, hits) = fold robot_candidate candidate_ids (w0, []); contacts = map fst hits
          in if hits \<noteq> []
             then (case notify_collision contacts (wd_robot w) of
                (Inl e, r) \<Rightarrow> (Inl (make_error_from e WORLD (make_context ''World::Impl::run_collisions_detection'' [])), w\<lparr>wd_robot := r\<rparr>)
              | (Inr u, r) \<Rightarrow> (Inr (), w\<lparr>wd_robot := r, wd_report := Some
                   \<lparr>rep_timestamp = wd_time w,
                    rep_severity = compute_collision_severity contacts (map snd hits) (rb_vel r) (rb_pose r),
                    rep_contacts = contacts\<rparr>\<rparr>))
             else (Inr (), w\<lparr>wd_robot := clear_collision_state (wd_robot w), wd_report := None\<rparr>))
       (query_entity_ids (model_bounds (rb_model (wd_robot w0)) (rb_pose (wd_robot w0))) True True (wd_bp w0))"

section \<open>Collisions of the objects\<close>

text \<open>Object \<open>i\<close>, whose instance has the model, against one dynamic candidate.\<close>

definition pair_candidate :: "nat \<Rightarrow> model_profile \<Rightarrow> pose2 \<Rightarrow> entity_id \<Rightarrow> entity_id \<Rightarrow> world \<Rightarrow> world" where
  "pair_candidate i self_model self_pose self e w =
     (if e = self then w
      else case find_entity e (wd_entities w) of None \<Rightarrow> w
      | Some ref \<Rightarrow>
          let j = er_index ref
          in if j \<ge> length (wd_objects w) \<or> j \<le> i then w
             else if \<not> object_is_active (wd_objects w ! j) then w
             else case Option.bind (instance_for e (wd_entities w)) tl_model of None \<Rightarrow> w
             | Some model \<Rightarrow>
                 if intersects (narrow_phase_intersect_check self_model self_pose model (DynObject.current_pose (wd_objects w ! j)))
                 then collide_object j (collide_object i w) else w)"

text \<open>An object with a static candidate; the lookup in the static objects is not checked by the code.\<close>

definition static_candidate :: "nat \<Rightarrow> model_profile \<Rightarrow> pose2 \<Rightarrow> entity_id \<Rightarrow> world \<Rightarrow> world" where
  "static_candidate i self_model self_pose e w =
     (case find_entity e (wd_entities w) of None \<Rightarrow> w
      | Some ref \<Rightarrow>
          (case Option.bind (instance_for e (wd_entities w)) tl_model of None \<Rightarrow> w
           | Some model \<Rightarrow>
               if intersects (narrow_phase_intersect_check self_model self_pose model (si_pose (so_cfg (wd_statics w ! er_index ref))))
               then collide_object i w else w))"

text \<open>Both loops look up the instance of an active object and query with its box.\<close>

definition against_candidates :: "bool \<Rightarrow> (model_profile \<Rightarrow> pose2 \<Rightarrow> entity_id \<Rightarrow> entity_id \<Rightarrow> world \<Rightarrow> world) \<Rightarrow> nat
    \<Rightarrow> world \<Rightarrow> world option" where
  "against_candidates statics check i w =
     (let ob = wd_objects w ! i
      in if \<not> object_is_active ob then Some w
         else case instance_for (obj_entity ob) (wd_entities w) of None \<Rightarrow> Some w
         | Some inst \<Rightarrow>
             (case tl_model inst of None \<Rightarrow> Some w
              | Some model \<Rightarrow>
                  map_option (\<lambda>ids. fold (check model (DynObject.current_pose ob) (obj_entity ob)) ids w)
                    (query_entity_ids (tl_bounds inst) statics (\<not> statics) (wd_bp w))))"

definition each_object :: "(nat \<Rightarrow> world \<Rightarrow> world option) \<Rightarrow> world \<Rightarrow> world option" where
  "each_object f w = fold (\<lambda>i x. Option.bind x (f i)) [0..<length (wd_objects w)] (Some w)"

definition resolve_dynamic_object_collisions :: "world \<Rightarrow> ((error + unit) \<times> world) option" where
  "resolve_dynamic_object_collisions w =
     map_option (\<lambda>w'. (Inr (), w'))
       (Option.bind (each_object (\<lambda>i. against_candidates False (pair_candidate i) i) w)
          (each_object (\<lambda>i. against_candidates True (\<lambda>m p self. static_candidate i m p) i)))"

definition cache_instances :: "world \<Rightarrow> world" where
  "cache_instances w =
     w\<lparr>wd_entities := fold cache_instance (static_instances (wd_bp w) @ dynamic_instances (wd_bp w))
         (reset_instance_cache (wd_entities w))\<rparr>"

text \<open>The next step of an update: it runs on the state left, unless the last one failed or never ended.\<close>

definition then_world :: "(world \<Rightarrow> ((error + unit) \<times> world) option) \<Rightarrow> ((error + unit) \<times> world) option
    \<Rightarrow> ((error + unit) \<times> world) option" where
  "then_world f x =
     (case x of None \<Rightarrow> None | Some (Inl e, w) \<Rightarrow> Some (Inl e, w) | Some (Inr u, w) \<Rightarrow> f w)"

definition with_context :: "string \<Rightarrow> ((error + unit) \<times> world) option \<Rightarrow> ((error + unit) \<times> world) option" where
  "with_context ctx x =
     map_option (\<lambda>(res, w). (case res of Inl e \<Rightarrow> Inl (make_error_from e WORLD (make_context ctx [])) | Inr u \<Rightarrow> Inr u, w)) x"

definition run_collisions_detection :: "world \<Rightarrow> ((error + unit) \<times> world) option" where
  "run_collisions_detection w =
     with_context ''World::Impl::run_collisions_detection''
       (then_world resolve_dynamic_object_collisions (resolve_robot_collisions (cache_instances w)))"

section \<open>The update\<close>

definition update_robot :: "earliest_impl \<Rightarrow> real \<Rightarrow> world \<Rightarrow> ((error + unit) \<times> world) option" where
  "update_robot ei dt w =
     map_option (\<lambda>(res, r). (res, w\<lparr>wd_robot := r\<rparr>)) (robot_update ei (Some (pair (wd_bp w))) dt (wd_robot w))"

text \<open>The clock, the spawn manager and the objects; the update of an object has no error of its own.\<close>

definition update_objects :: "real \<Rightarrow> world \<Rightarrow> world" where
  "update_objects dt w0 =
     (let w = w0\<lparr>wd_time := wd_time w0 + dt, wd_last_dt := dt, wd_spawner := sm_update dt (rb_pose (wd_robot w0)) (wd_spawner w0)\<rparr>
      in set_objects (map (object_update dt) (wd_objects w)) w)"

definition world_update :: "earliest_impl \<Rightarrow> real \<Rightarrow> world \<Rightarrow> ((error + unit) \<times> world) option" where
  "world_update ei dt w0 =
     then_world (\<lambda>w. Some (Inr (), w\<lparr>wd_snapshot_dirty := True\<rparr>))
       (with_context ''World::Impl::update''
         (then_world run_collisions_detection (then_world update_scene_trees (update_robot ei dt (update_objects dt w0)))))"

section \<open>Between two updates\<close>

definition on_decision_tick :: "real \<Rightarrow> real \<Rightarrow> real \<Rightarrow> bool \<Rightarrow> world \<Rightarrow> error + observation" where
  "on_decision_tick tick_time tick_dt rew terminal w =
     and_then (build_observation tick_time tick_dt rew terminal (wd_robot w))
       (\<lambda>ob. Inr (populate_route_observation (wd_route w) ob))"

definition build_initial_observation :: "real \<Rightarrow> world \<Rightarrow> error + observation" where
  "build_initial_observation t w =
     and_then (build_observation t 0 0 False (wd_robot w)) (\<lambda>ob. Inr (populate_route_observation (wd_route w) ob))"

definition apply_action :: "action \<Rightarrow> world \<Rightarrow> (error + unit) \<times> world" where
  "apply_action a w = (let (res, r) = set_action a (wd_robot w) in (res, w\<lparr>wd_robot := r\<rparr>))"

definition sensor_clouds :: "sensor list \<Rightarrow> point3 list option list" where
  "sensor_clouds ss = map cached_cloud (filter has_data ss)"

definition rebuild_world_snapshot :: "world \<Rightarrow> world" where
  "rebuild_world_snapshot w =
     w\<lparr>wd_snapshot :=
         \<lparr>ws_robot_model = ws_robot_model (wd_snapshot w), ws_robot_pose = rb_pose (wd_robot w),
          ws_robot_velocity = rb_vel (wd_robot w), ws_robot_collided = is_collided (wd_robot w),
          ws_objects = map snapshot_object (zip (wd_objects w) (wd_dyn_cfgs w)), ws_time = wd_time w,
          ws_map = mc_name (wd_map w), ws_route_name = active_route_name (wd_route w),
          ws_waypoint_index = active_waypoint_index (wd_route w), ws_waypoint_count = length (active_route (wd_route w)),
          ws_clouds = sensor_clouds (rb_sensors (wd_robot w))\<rparr>\<rparr>"

definition capture_snapshot :: "world \<Rightarrow> world_snapshot \<times> world" where
  "capture_snapshot w =
     (let w' = (if wd_snapshot_dirty w then (rebuild_world_snapshot w)\<lparr>wd_snapshot_dirty := False\<rparr> else w)
      in (wd_snapshot w', w'))"

definition consume_collision_report :: "world \<Rightarrow> collision_report option \<times> world" where
  "consume_collision_report w = (wd_report w, w\<lparr>wd_report := None\<rparr>)"

definition world_telemetry :: "world \<Rightarrow> reward_telemetry \<times> world" where
  "world_telemetry w =
     (let r = wd_robot w; a = last_requested_action r; wpt = current_waypoint (wd_route w); p = pos (rb_pose r);
          ((reached, goal), route) = advance_route p (wd_route w)
      in (default_telemetry\<lparr>tel_pose := rb_pose r, tel_velocity := rb_vel r, tel_command := last_applied_cmd r,
            tel_has_raw_policy_action := has_raw_policy_action a,
            tel_normalized_speed_action := normalized_speed_action a, tel_normalized_steer_action := normalized_steer_action a,
            tel_raw_speed_action := raw_speed_action a, tel_raw_steer_action := raw_steer_action a,
            tel_reverse_gear := rb_reverse_gear r, tel_gear_hold_time_s := rb_gear_hold r,
            requested_reverse_gear := cmd_reverse (last_requested_cmd r),
            waypoint_position := wp_pos wpt, distance_to_waypoint := distance p (wp_pos wpt),
            heading_to_waypoint := atan2 (py (wp_pos wpt) - py p) (px (wp_pos wpt) - px p),
            waypoint_index := active_waypoint_index (wd_route w), waypoint_count := length (active_route (wd_route w)),
            final_goal_reached := goal, waypoint_reached := reached,
            forward_clearance_m := forward_clearance (rb_sensors r) (rb_pose r)
              (case wd_weights w of Some x \<Rightarrow> clearance_gate_half_angle_rad x | None \<Rightarrow> 45 / 100)\<rparr>,
          w\<lparr>wd_route := route\<rparr>))"

section \<open>Every update returns\<close>

text \<open>What the loops of an update need to end: sound trees over the instances, and frames that form a forest.\<close>

definition world_live :: "world \<Rightarrow> bool" where
  "world_live w \<longleftrightarrow> bp_inv (wd_bp w) \<and> bp_synced (wd_bp w) \<and> frames_ok (wd_robot w)"

lemma robot_update_live:
  assumes "frames_ok r" "event_ok (rb_event.Update trees dt)"
  shows "\<exists>r'. robot_update ei trees dt r = Some (Inr (), r') \<and> frames_ok r'"
proof -
  define r1 where "r1 = process_delayed_actions ei (r\<lparr>rb_sim_time := rb_sim_time r + dt\<rparr>)"
  define r2 where "r2 = publish_frame (step_vehicle dt r1)"
  have "frames_ok r1" using assms(1) by (simp add: r1_def process_delayed_actions_def case_prod_beta)
  then have f: "frames_ok r2" unfolding r2_def by (rule step_publish_keeps(6))
  have "env_ok \<lparr>scene_trees = trees, thread_pool = rb_pool r2, tf_frames = rb_frames r2\<rparr>"
    using f assms(2) by (auto simp: env_ok_def frames_ok_def split: option.splits)
  from update_sensors_ends[OF this] obtain ss where ss: "update_sensors
      \<lparr>scene_trees = trees, thread_pool = rb_pool r2, tf_frames = rb_frames r2\<rparr> dt (rb_sim_time r2) (rb_sensors r2) = Some ss" by blast
  have "robot_update ei trees dt r = Some (Inr (), r2\<lparr>rb_sensors := ss, info_pose := rb_pose r2, info_vel := rb_vel r2\<rparr>)"
    unfolding robot_update_def Let_def r1_def[symmetric] r2_def[symmetric] ss by simp
  with f show ?thesis by simp
qed

lemma robot_update_keeps:
  assumes "robot_update ei trees dt r = Some (res, r')"
  shows "rb_model r' = rb_model r" "is_collided r' = is_collided r" "last_contacts r' = last_contacts r"
  using assms by (auto simp: robot_update_def publish_frame_def step_vehicle_def process_delayed_actions_def Let_def case_prod_beta
      split: option.splits sum.splits)

lemma collision_state_frames [simp]:
  "frames_ok (snd (notify_collision cs r)) = frames_ok r" "frames_ok (clear_collision_state r) = frames_ok r"
  by (simp_all add: notify_collision_def clear_collision_state_def)

text \<open>The moves of an update are a run of the broad phase.\<close>

lemma move_entity_simps [simp]:
  "move_entity x None = None" "move_entity x (Some bp) = update_dynamics (fst x) (snd x) bp"
  by (simp_all add: move_entity_def)

lemma move_entities_run: "fold move_entity xs (Some bp) = bp_run (map (\<lambda>(e, p). Move e p) xs) bp"
proof (induction xs arbitrary: bp)
  case (Cons x xs)
  have none: "fold move_entity ys None = None" for ys by (induction ys) simp_all
  show ?case by (cases "update_dynamics (fst x) (snd x) bp") (simp_all add: none Cons case_prod_beta)
qed simp

definition scene_moves :: "world \<Rightarrow> bp_move list" where
  "scene_moves w = map (\<lambda>ob. Move (obj_entity ob) (DynObject.current_pose ob)) (wd_objects w) @
     (if wd_robot_entity w \<noteq> - 1 then [Move (wd_robot_entity w) (rb_pose (wd_robot w))] else []) @ [Refit]"

lemma bp_run_append: "bp_run (ms @ ns) bp = Option.bind (bp_run ms bp) (bp_run ns)"
  by (induction ms arbitrary: bp) (auto split: Option.bind_splits)

lemma update_scene_trees_run:
  "update_scene_trees w = map_option (\<lambda>bp. (Inr (), w\<lparr>wd_bp := bp\<rparr>)) (bp_run (scene_moves w) (wd_bp w))"
proof -
  let ?bp = "bp_run (map (\<lambda>ob. Move (obj_entity ob) (DynObject.current_pose ob)) (wd_objects w)) (wd_bp w)"
  have "fold move_entity (map (\<lambda>ob. (obj_entity ob, DynObject.current_pose ob)) (wd_objects w)) (Some (wd_bp w)) = ?bp"
    by (simp add: move_entities_run comp_def)
  then show ?thesis
    by (cases ?bp) (auto simp: update_scene_trees_def scene_moves_def bp_run_append Let_def map_option_case split: option.splits)
qed

lemma update_scene_trees_live:
  assumes "bp_inv (wd_bp w)" "bp_synced (wd_bp w)"
  shows "\<exists>bp. update_scene_trees w = Some (Inr (), w\<lparr>wd_bp := bp\<rparr>) \<and> bp_inv bp \<and> bp_synced bp \<and>
    static_instances bp = static_instances (wd_bp w) \<and>
    dynamic_instances bp = fold (\<lambda>m. move_spec m (entity_to_dynamic (wd_bp w))) (scene_moves w) (dynamic_instances (wd_bp w))"
  using bp_run_refines[OF assms, of "scene_moves w"] by (auto simp: update_scene_trees_run)

section \<open>Collisions change the state of objects only\<close>

definition bumped :: "world \<Rightarrow> world \<Rightarrow> bool" where
  "bumped w w' \<longleftrightarrow> (\<exists>obs. w' = set_objects obs w \<and> list_all2 (\<lambda>a b. b = a \<or> b = object_on_collision a) (wd_objects w) obs)"

lemma set_objects_simps [simp]:
  "wd_objects (set_objects obs w) = obs" "wd_entities (set_objects obs w) = wd_entities w" "wd_bp (set_objects obs w) = wd_bp w"
  "wd_robot (set_objects obs w) = wd_robot w" "wd_statics (set_objects obs w) = wd_statics w"
  "wd_robot_entity (set_objects obs w) = wd_robot_entity w" "wd_time (set_objects obs w) = wd_time w"
  "wd_route (set_objects obs w) = wd_route w" "wd_dyn_cfgs (set_objects obs w) = wd_dyn_cfgs w"
  "wd_report (set_objects obs w) = wd_report w" "wd_names (set_objects obs w) = wd_names w" "wd_map (set_objects obs w) = wd_map w"
  "wd_config (set_objects obs w) = wd_config w" "wd_weights (set_objects obs w) = wd_weights w"
  "set_objects obs' (set_objects obs w) = set_objects obs' w"
  by (simp_all add: set_objects_def)

lemma set_objects_id [simp]: "set_objects (wd_objects w) w = w"
  by (simp add: set_objects_def)

lemma on_collision_idem [simp]: "object_on_collision (object_on_collision ob) = object_on_collision ob"
  by (simp add: object_on_collision_def)

lemma on_collision_keeps [simp]:
  "DynObject.current_pose (object_on_collision ob) = DynObject.current_pose ob" "object_id (object_on_collision ob) = object_id ob"
  "object_is_active (object_on_collision ob) = object_is_active ob" "obj_entity (object_on_collision ob) = obj_entity ob"
  by (simp_all add: object_on_collision_def object_is_active_def obj_entity_def)

lemma bumped_refl [simp]: "bumped w w"
  by (auto simp: bumped_def intro!: exI[of _ "wd_objects w"] list_all2_refl)

lemma bumped_trans: "bumped w w1 \<Longrightarrow> bumped w1 w2 \<Longrightarrow> bumped w w2"
proof -
  assume "bumped w w1" "bumped w1 w2"
  then obtain os1 os2 where o1: "w1 = set_objects os1 w" "list_all2 (\<lambda>a b. b = a \<or> b = object_on_collision a) (wd_objects w) os1"
    and o2: "w2 = set_objects os2 w1" "list_all2 (\<lambda>a b. b = a \<or> b = object_on_collision a) os1 os2"
    by (auto simp: bumped_def)
  have "list_all2 (\<lambda>a b. b = a \<or> b = object_on_collision a) (wd_objects w) os2"
    using o1(2) o2(2) by (auto simp: list_all2_conv_all_nth) (metis on_collision_idem)+
  with o1(1) o2(1) show ?thesis by (auto simp: bumped_def)
qed

lemma bumped_collide: "bumped w (collide_object i w)"
proof (cases "i < length (wd_objects w)")
  case True
  then show ?thesis by (auto simp: bumped_def collide_object_def list_all2_conv_all_nth nth_list_update intro!: exI)
next
  case False
  then show ?thesis by (simp add: collide_object_def list_update_beyond)
qed

lemma bumped_fold: "(\<And>e w. bumped w (f e w)) \<Longrightarrow> bumped w (fold f es w)"
proof (induction es arbitrary: w)
  case (Cons e es)
  then show ?case by (auto intro: bumped_trans)
qed simp

lemma bumped_keeps:
  assumes "bumped w w'"
  shows "wd_entities w' = wd_entities w" "wd_bp w' = wd_bp w" "wd_robot w' = wd_robot w" "wd_statics w' = wd_statics w"
    "wd_robot_entity w' = wd_robot_entity w" "wd_route w' = wd_route w" "length (wd_objects w') = length (wd_objects w)"
    "wd_dyn_cfgs w' = wd_dyn_cfgs w" "wd_report w' = wd_report w" "wd_names w' = wd_names w" "wd_time w' = wd_time w"
    "map DynObject.current_pose (wd_objects w') = map DynObject.current_pose (wd_objects w)"
    "map obj_entity (wd_objects w') = map obj_entity (wd_objects w)"
    "map object_is_active (wd_objects w') = map object_is_active (wd_objects w)"
    "wd_config w' = wd_config w" "wd_map w' = wd_map w" "wd_weights w' = wd_weights w"
  using assms by (auto simp: bumped_def list_all2_conv_all_nth list_eq_iff_nth_eq)

lemma bumped_object:
  assumes "bumped w w'" "i < length (wd_objects w)"
  shows "DynObject.current_pose (wd_objects w' ! i) = DynObject.current_pose (wd_objects w ! i)"
    "object_is_active (wd_objects w' ! i) = object_is_active (wd_objects w ! i)"
    "obj_entity (wd_objects w' ! i) = obj_entity (wd_objects w ! i)"
  using bumped_keeps(7,12,13,14)[OF assms(1)] assms(2) by (metis nth_map)+

text \<open>The contact that a candidate gives, if any, in terms of the world before the collisions are resolved.\<close>

definition robot_hit :: "world \<Rightarrow> entity_id \<Rightarrow> contact_list" where
  "robot_hit w e = snd (robot_candidate e (w, []))"

lemma candidate_pose_bumped:
  assumes "bumped w w'" shows "candidate_pose ref w' = candidate_pose ref w"
proof (cases "er_type ref")
  case DynamicEntity
  show ?thesis
  proof (cases "er_index ref < length (wd_objects w)")
    case True
    then show ?thesis using DynamicEntity bumped_object[OF assms True] bumped_keeps(7)[OF assms] by (simp add: candidate_pose_def)
  next
    case False
    then show ?thesis using DynamicEntity bumped_keeps(7)[OF assms] by (simp add: candidate_pose_def)
  qed
qed (simp_all add: candidate_pose_def bumped_keeps[OF assms])

lemma robot_candidate_hit:
  assumes "bumped w w'"
  shows "snd (robot_candidate e (w', hits)) = hits @ robot_hit w e" "bumped w (fst (robot_candidate e (w', hits)))"
proof -
  have k: "wd_entities w' = wd_entities w" "wd_robot w' = wd_robot w" "wd_robot_entity w' = wd_robot_entity w"
    by (simp_all add: bumped_keeps[OF assms])
  show "snd (robot_candidate e (w', hits)) = hits @ robot_hit w e"
    by (simp add: robot_hit_def robot_candidate_def candidate_pose_bumped[OF assms] k Let_def split: option.split)
  show "bumped w (fst (robot_candidate e (w', hits)))"
    using assms by (auto simp: robot_candidate_def Let_def split: option.split intro: bumped_trans[OF _ bumped_collide])
qed

lemma robot_candidates_hits:
  "bumped w w' \<Longrightarrow> snd (fold robot_candidate es (w', hits)) = hits @ concat (map (robot_hit w) es) \<and>
     bumped w (fst (fold robot_candidate es (w', hits)))"
proof (induction es arbitrary: w' hits)
  case (Cons e es)
  obtain w1 hits1 where r: "robot_candidate e (w', hits) = (w1, hits1)" by fastforce
  from robot_candidate_hit[OF Cons.prems, of e hits] r have "bumped w w1" "hits1 = hits @ robot_hit w e" by simp_all
  with Cons.IH[of w1 hits1] r show ?case by simp
qed simp

text \<open>The outcome of the collisions of the robot, in terms of the contacts.\<close>

lemma resolve_robot_collisions_spec:
  assumes "query_entity_ids (model_bounds (rb_model (wd_robot w)) (rb_pose (wd_robot w))) True True (wd_bp w) = Some ids"
  defines "hits \<equiv> concat (map (robot_hit w) ids)"
  shows "\<exists>w1. bumped w w1 \<and> resolve_robot_collisions w = Some (Inr (),
    if hits = [] then w1\<lparr>wd_robot := clear_collision_state (wd_robot w), wd_report := None\<rparr>
    else w1\<lparr>wd_robot := snd (notify_collision (map fst hits) (wd_robot w)), wd_report := Some
       \<lparr>rep_timestamp = wd_time w, rep_severity = compute_collision_severity (map fst hits) (map snd hits) (rb_vel (wd_robot w)) (rb_pose (wd_robot w)),
        rep_contacts = map fst hits\<rparr>\<rparr>)"
proof -
  define w1 where "w1 = fst (fold robot_candidate ids (w, []))"
  have h: "snd (fold robot_candidate ids (w, [])) = hits" "bumped w w1"
    using robot_candidates_hits[OF bumped_refl[of w], where es = ids and hits = "[]"] by (simp_all add: hits_def w1_def)
  have eq: "fold robot_candidate ids (w, []) = (w1, hits)" using h(1) by (simp add: w1_def prod_eq_iff)
  have k: "wd_robot w1 = wd_robot w" "wd_time w1 = wd_time w" using h(2) bumped_keeps by auto
  show ?thesis
    by (intro exI[of _ w1] conjI h(2)) (simp add: resolve_robot_collisions_def assms(1) eq k notify_collision_def Let_def)
qed

lemma against_candidates_live:
  assumes "bp_inv (wd_bp w)" "bp_synced (wd_bp w)" "\<And>m p s e w. bumped w (check m p s e w)"
  shows "\<exists>w'. against_candidates st check i w = Some w' \<and> bumped w w'"
proof -
  let ?ob = "wd_objects w ! i"
  have q: "\<exists>hits. query_entity_ids b st (\<not> st) (wd_bp w) = Some hits" for b
    using query_exact[OF assms(1,2), of b st "\<not> st"] by blast
  have f: "bumped w (fold (check m p s) ids w)" for m p s ids
    by (rule bumped_fold) (rule assms(3))
  show ?thesis
  proof (cases "object_is_active ?ob \<and> Option.bind (instance_for (obj_entity ?ob) (wd_entities w)) tl_model \<noteq> None")
    case False
    then have "against_candidates st check i w = Some w" by (auto simp: against_candidates_def Let_def split: option.split)
    then show ?thesis by simp
  next
    case True
    then obtain inst m where "instance_for (obj_entity ?ob) (wd_entities w) = Some inst" "tl_model inst = Some m"
      by (auto simp: bind_eq_Some_conv)
    moreover obtain ids where "query_entity_ids (tl_bounds inst) st (\<not> st) (wd_bp w) = Some ids" using q by blast
    ultimately show ?thesis using True f by (simp add: against_candidates_def Let_def)
  qed
qed

lemma each_object_live:
  assumes "world_live w" "\<And>i w. world_live w \<Longrightarrow> \<exists>w'. f i w = Some w' \<and> bumped w w'"
  shows "\<exists>w'. each_object f w = Some w' \<and> bumped w w'"
proof -
  have live: "world_live w1 \<Longrightarrow> bumped w1 w2 \<Longrightarrow> world_live w2" for w1 w2 by (simp add: world_live_def bumped_keeps)
  have "world_live w1 \<Longrightarrow> \<exists>w'. fold (\<lambda>i x. Option.bind x (f i)) is (Some w1) = Some w' \<and> bumped w1 w'" for "is" w1
  proof (induction "is" arbitrary: w1)
    case (Cons i "is")
    obtain w2 where w2: "f i w1 = Some w2" "bumped w1 w2" using assms(2)[OF Cons.prems] by blast
    with Cons.IH[OF live[OF Cons.prems w2(2)]] show ?case by (auto intro: bumped_trans)
  qed simp
  from this[OF assms(1)] show ?thesis by (simp add: each_object_def)
qed

lemma pair_candidate_bumped: "bumped w (pair_candidate i m p s e w)"
  by (auto simp: pair_candidate_def Let_def split: option.split intro: bumped_trans[OF bumped_collide bumped_collide])

lemma static_candidate_bumped: "bumped w (static_candidate i m p e w)"
  by (auto simp: static_candidate_def split: option.split intro: bumped_collide)

lemma resolve_dynamic_live:
  assumes "world_live w"
  shows "\<exists>w'. resolve_dynamic_object_collisions w = Some (Inr (), w') \<and> bumped w w'"
proof -
  have a: "\<exists>w'. each_object (\<lambda>i. against_candidates st (check i) i) w = Some w' \<and> bumped w w'"
    if "world_live w" "\<And>i m p s e w. bumped w (check i m p s e w)" for st check w
    using that by (intro each_object_live against_candidates_live) (simp_all add: world_live_def)
  obtain w1 where w1: "each_object (\<lambda>i. against_candidates False (pair_candidate i) i) w = Some w1" "bumped w w1"
    using a[OF assms, where check = pair_candidate] pair_candidate_bumped by blast
  have "world_live w1" using assms w1(2) by (simp add: world_live_def bumped_keeps)
  from a[OF this, where check = "\<lambda>i m p self. static_candidate i m p"] static_candidate_bumped obtain w2 where
    "each_object (\<lambda>i. against_candidates True (\<lambda>m p self. static_candidate i m p) i) w1 = Some w2" "bumped w1 w2" by blast
  with w1 show ?thesis by (auto simp: resolve_dynamic_object_collisions_def intro: bumped_trans)
qed

lemma update_objects_simps [simp]:
  "wd_bp (update_objects dt w) = wd_bp w" "wd_robot (update_objects dt w) = wd_robot w" "wd_entities (update_objects dt w) = wd_entities w"
  "wd_statics (update_objects dt w) = wd_statics w" "wd_robot_entity (update_objects dt w) = wd_robot_entity w"
  "wd_route (update_objects dt w) = wd_route w" "wd_dyn_cfgs (update_objects dt w) = wd_dyn_cfgs w"
  "wd_time (update_objects dt w) = wd_time w + dt" "wd_map (update_objects dt w) = wd_map w"
  "wd_config (update_objects dt w) = wd_config w" "wd_weights (update_objects dt w) = wd_weights w"
  "wd_objects (update_objects dt w) = map (object_update dt) (objects (sm_update dt (rb_pose (wd_robot w)) (wd_spawner w)))"
  by (simp_all add: update_objects_def Let_def set_objects_def)

lemma cache_instances_simps [simp]:
  "wd_bp (cache_instances w) = wd_bp w" "wd_robot (cache_instances w) = wd_robot w" "wd_objects (cache_instances w) = wd_objects w"
  "wd_statics (cache_instances w) = wd_statics w" "wd_robot_entity (cache_instances w) = wd_robot_entity w"
  "wd_route (cache_instances w) = wd_route w" "wd_dyn_cfgs (cache_instances w) = wd_dyn_cfgs w" "wd_time (cache_instances w) = wd_time w"
  "wd_map (cache_instances w) = wd_map w" "wd_config (cache_instances w) = wd_config w" "wd_weights (cache_instances w) = wd_weights w"
  by (simp_all add: cache_instances_def)

text \<open>The state in which the collisions are resolved: objects, robot and trees updated, instances cached.\<close>

definition before_collisions :: "robot \<Rightarrow> broad_phase \<Rightarrow> real \<Rightarrow> world \<Rightarrow> world" where
  "before_collisions r bp dt w0 = cache_instances ((update_objects dt w0)\<lparr>wd_robot := r, wd_bp := bp\<rparr>)"

definition hit_list :: "world \<Rightarrow> entity_id list \<Rightarrow> contact_list" where
  "hit_list w ids = concat (map (robot_hit w) ids)"

text \<open>One update in one statement: it returns without an error, and its outcome in terms of the contacts.\<close>

lemma world_update_spec:
  assumes "world_live w0" "0 < dt"
  obtains r bp ids w' where
    "robot_update ei (Some (pair (wd_bp w0))) dt (wd_robot w0) = Some (Inr (), r)" "frames_ok r"
    "bp_run (scene_moves ((update_objects dt w0)\<lparr>wd_robot := r\<rparr>)) (wd_bp w0) = Some bp" "bp_inv bp" "bp_synced bp"
    "static_instances bp = static_instances (wd_bp w0)"
    "dynamic_instances bp = fold (\<lambda>m. move_spec m (entity_to_dynamic (wd_bp w0))) (scene_moves ((update_objects dt w0)\<lparr>wd_robot := r\<rparr>))
       (dynamic_instances (wd_bp w0))"
    "query_entity_ids (model_bounds (rb_model r) (rb_pose r)) True True bp = Some ids"
    "world_update ei dt w0 = Some (Inr (), w')"
    "wd_robot w' = (if hit_list (before_collisions r bp dt w0) ids = [] then clear_collision_state r
       else snd (notify_collision (map fst (hit_list (before_collisions r bp dt w0) ids)) r))"
    "wd_report w' = (if hit_list (before_collisions r bp dt w0) ids = [] then None
       else Some \<lparr>rep_timestamp = wd_time w0 + dt,
         rep_severity = compute_collision_severity (map fst (hit_list (before_collisions r bp dt w0) ids))
            (map snd (hit_list (before_collisions r bp dt w0) ids)) (rb_vel r) (rb_pose r),
         rep_contacts = map fst (hit_list (before_collisions r bp dt w0) ids)\<rparr>)"
    "wd_bp w' = bp" "wd_entities w' = wd_entities (before_collisions r bp dt w0)" "wd_statics w' = wd_statics w0"
    "wd_robot_entity w' = wd_robot_entity w0" "wd_route w' = wd_route w0" "wd_dyn_cfgs w' = wd_dyn_cfgs w0" "wd_time w' = wd_time w0 + dt"
    "length (wd_objects w') = length (wd_objects (update_objects dt w0))"
    "map DynObject.current_pose (wd_objects w') = map DynObject.current_pose (wd_objects (update_objects dt w0))"
    "map obj_entity (wd_objects w') = map obj_entity (wd_objects (update_objects dt w0))"
    "map object_is_active (wd_objects w') = map object_is_active (wd_objects (update_objects dt w0))"
    "wd_config w' = wd_config w0" "wd_map w' = wd_map w0" "wd_weights w' = wd_weights w0"
proof -
  note live = assms(1)[unfolded world_live_def]
  have "event_ok (rb_event.Update (Some (pair (wd_bp w0))) dt)" using live assms(2) by (simp add: bp_inv_def)
  from robot_update_live[OF _ this] live obtain r where
    r: "robot_update ei (Some (pair (wd_bp w0))) dt (wd_robot w0) = Some (Inr (), r)" "frames_ok r" by blast
  let ?w2 = "(update_objects dt w0)\<lparr>wd_robot := r\<rparr>"
  obtain bp where bp: "bp_run (scene_moves ?w2) (wd_bp w0) = Some bp" "bp_inv bp" "bp_synced bp"
    "static_instances bp = static_instances (wd_bp w0)"
    "dynamic_instances bp = fold (\<lambda>m. move_spec m (entity_to_dynamic (wd_bp w0))) (scene_moves ?w2) (dynamic_instances (wd_bp w0))"
    using bp_run_refines[of "wd_bp w0" "scene_moves ?w2"] live by auto
  obtain ids where ids: "query_entity_ids (model_bounds (rb_model r) (rb_pose r)) True True bp = Some ids"
    using query_exact[OF bp(2,3), of "model_bounds (rb_model r) (rb_pose r)" True True] by blast
  let ?w3 = "before_collisions r bp dt w0" and ?w2b = "?w2\<lparr>wd_bp := bp\<rparr>"
  have w3: "?w3 = cache_instances ?w2b" by (simp add: before_collisions_def)
  have k3: "wd_robot ?w3 = r" "wd_bp ?w3 = bp" "wd_time ?w3 = wd_time w0 + dt" by (simp_all add: before_collisions_def)
  obtain w1 where w1: "bumped ?w3 w1" and res: "resolve_robot_collisions ?w3 = Some (Inr (),
      if hit_list ?w3 ids = [] then w1\<lparr>wd_robot := clear_collision_state r, wd_report := None\<rparr>
      else w1\<lparr>wd_robot := snd (notify_collision (map fst (hit_list ?w3 ids)) r), wd_report := Some
        \<lparr>rep_timestamp = wd_time w0 + dt, rep_severity = compute_collision_severity (map fst (hit_list ?w3 ids)) (map snd (hit_list ?w3 ids))
           (rb_vel r) (rb_pose r), rep_contacts = map fst (hit_list ?w3 ids)\<rparr>\<rparr>)" (is "_ = Some (Inr (), ?w4)")
    using resolve_robot_collisions_spec[of ?w3 ids] ids unfolding k3 hit_list_def by blast
  have k4: "wd_bp ?w4 = bp" "frames_ok (wd_robot ?w4)" using w1 r(2) by (simp_all add: bumped_keeps k3)
  obtain w5 where w5: "resolve_dynamic_object_collisions ?w4 = Some (Inr (), w5)" "bumped ?w4 w5"
    using resolve_dynamic_live[of ?w4] k4 bp(2,3) unfolding world_live_def by metis
  have run: "run_collisions_detection ?w2b = Some (Inr (), w5)"
    unfolding run_collisions_detection_def w3[symmetric] res by (simp only: then_world_def option.case prod.case sum.case w5(1)) (simp add: with_context_def)
  have trees: "update_scene_trees ?w2 = Some (Inr (), ?w2b)" by (simp add: update_scene_trees_run bp(1))
  have rob: "update_robot ei dt (update_objects dt w0) = Some (Inr (), ?w2)" by (simp add: update_robot_def r(1))
  have upd: "world_update ei dt w0 = Some (Inr (), w5\<lparr>wd_snapshot_dirty := True\<rparr>)"
    unfolding world_update_def rob by (simp add: then_world_def trees run with_context_def)
  note k5 = bumped_keeps[OF w5(2)] and k1 = bumped_keeps[OF w1]
  show thesis
    by (rule that[OF r bp ids upd]) (simp_all add: k5 k1, simp_all add: before_collisions_def)
qed

lemma world_update_live:
  assumes "world_live w" "0 < dt"
  shows "\<exists>w'. world_update ei dt w = Some (Inr (), w') \<and> world_live w' \<and> wd_route w' = wd_route w \<and> wd_time w' = wd_time w + dt"
  using world_update_spec[OF assms, of ei] by (metis collision_state_frames world_live_def)

end
