(* ===== verification/WorldInv.thy ===== *)
theory WorldInv
  imports WorldUpdate
begin

text \<open>
  What holds of every world that the constructor makes, and after every update: the entity tables,
  the objects and the instances of the broad phase name the same things, with the poses of the
  objects. From this follows that the collisions of the robot are those with the obstacles of the world.
\<close>

section \<open>Objects keep their identifiers\<close>

abbreviation object_ids :: "spawn_mgr \<Rightarrow> nat list" where
  "object_ids sm \<equiv> map object_id (objects sm)"

lemma object_id_motion [simp]:
  "object_id (resample ob) = object_id ob" "object_id (approach_target dt ob) = object_id ob"
  "object_id (advance_to_next_waypoint ob) = object_id ob" "object_id (resume_motion ob) = object_id ob"
  by (simp_all add: resample_def approach_target_def advance_to_next_waypoint_def resume_motion_def Let_def case_prod_beta)

lemma object_id_update_motion [simp]: "object_id (update_motion dt ob) = object_id ob"
  by (simp add: update_motion_def Let_def)

lemma object_id_calls [simp]:
  "object_id (object_teleport p ob) = object_id ob" "object_id (object_deactivate ob) = object_id ob"
  "object_id (object_activate ob) = object_id ob" "object_id (override_waypoints ws l ob) = object_id ob"
  by (simp_all add: object_teleport_def object_deactivate_def object_activate_def override_waypoints_def)

lemma object_id_update [simp]: "object_id (object_update dt ob) = object_id ob"
  by (simp add: object_update_def Let_def split: object_state.split)

lemma set_object_ids:
  "object_id ob = object_id (objects sm ! i) \<Longrightarrow> object_ids (set_object i ob sm) = object_ids sm"
  by (cases "i < length (objects sm)")
    (auto simp: set_object_def list_eq_iff_nth_eq nth_list_update list_update_beyond)

lemma move_out_ids [simp]: "object_ids (move_object_out_of_bounds i sm) = object_ids sm"
  by (simp add: move_object_out_of_bounds_def set_object_ids)

lemma enqueue_ids [simp]: "objects (enqueue_object i p r sm) = objects sm"
  by (cases p) (simp_all add: enqueue_object_def)

lemma despawn_ids [simp]: "object_ids (despawn_object i r sm) = object_ids sm"
  by (simp add: despawn_object_def Let_def set_object_ids)

lemma reroute_ids [simp]: "object_ids (snd (try_reroute_object i p sm)) = object_ids sm"
  by (simp add: try_reroute_object_def Let_def case_prod_beta set_object_ids split: list.split)

lemma check_ids [simp]: "object_ids (fst (check_object p i (sm, acc))) = object_ids sm"
  using reroute_ids[of i p] by (simp add: check_object_def Let_def case_prod_beta)

lemma fold_ids:
  "(\<And>x s. object_ids (g (f x s)) = object_ids (g s)) \<Longrightarrow> object_ids (g (fold f xs s)) = object_ids (g s)"
  by (induction xs arbitrary: s) simp_all

lemma check_and_despawn_ids [simp]: "object_ids (check_and_despawn_objects p sm) = object_ids sm"
proof -
  have "object_ids (fst (fold (check_object p) is (sm, acc))) = object_ids sm" for "is" acc
    using fold_ids[of fst "check_object p" "is" "(sm, acc)"] by (metis check_ids fst_conv surj_pair)
  moreover have "object_ids (fold (\<lambda>(i, reason) s. despawn_object i reason s) xs s) = object_ids s" for xs s
    using fold_ids[of "\<lambda>s. s" "\<lambda>(i, reason) s. despawn_object i reason s"] by auto
  ultimately show ?thesis by (simp add: check_and_despawn_objects_def case_prod_beta)
qed

lemma try_queue_ids: "object_ids (snd (snd (try_queue ms ma p q cnt sm))) = object_ids sm"
proof (induction ms ma p q cnt sm rule: try_queue.induct)
  case (1 ms ma p q cnt sm)
  obtain r where r: "find_spawn_pose p sm = (fst (find_spawn_pose p sm), sm\<lparr>sm_rng := r\<rparr>)"
    using find_spawn_pose_only_rng by blast
  show ?case
  proof (cases q)
    case Nil
    then show ?thesis by (subst try_queue.simps) simp
  next
    case (Cons e rest)
    show ?thesis
    proof (cases "fst cnt < ms \<and> snd cnt < ma \<and> length (active_objects sm) < max_active_objects (cfg sm)")
      case False
      then show ?thesis using Cons by (subst try_queue.simps) auto
    next
      case go: True
      show ?thesis
      proof (cases "object_index e < length (objects sm)")
        case False
        then show ?thesis using 1(3)[OF Cons go refl refl False] Cons go by (subst try_queue.simps) (simp add: Let_def)
      next
        case i: True
        show ?thesis
        proof (cases "fst (find_spawn_pose p sm)")
          case None
          then have f: "find_spawn_pose p sm = (None, sm\<lparr>sm_rng := r\<rparr>)" using r by simp
          from 1(1)[OF Cons go refl refl i f[symmetric] refl] show ?thesis
            using Cons go i f by (subst try_queue.simps) (simp add: Let_def)
        next
          case (Some pose)
          then have f: "find_spawn_pose p sm = (Some pose, sm\<lparr>sm_rng := r\<rparr>)" using r by simp
          from 1(2)[OF Cons go refl refl i f[symmetric] refl] show ?thesis
            using Cons go i f by (subst try_queue.simps) (simp add: Let_def set_object_ids)
        qed
      qed
    qed
  qed
qed

lemma spawn_from_queue_ids [simp]: "object_ids (spawn_from_queue p ms ma sm) = object_ids sm"
  using try_queue_ids by (simp add: spawn_from_queue_def Let_def case_prod_beta)

lemma sm_update_ids [simp]: "object_ids (sm_update dt p sm) = object_ids sm"
  by (simp add: sm_update_def Let_def ensure_minimum_active_def update_curriculum_distances_def update_robot_motion_def)

lemma make_spawn_manager_ids:
  assumes "make_spawn_manager c m obs r = Inr sm" shows "object_ids sm = map object_id obs"
proof -
  have "object_ids (fold (\<lambda>i s. move_object_out_of_bounds i (enqueue_object i LOW INITIAL s)) is s) = object_ids s" for "is" s
    using fold_ids[of "\<lambda>s. s" "\<lambda>i s. move_object_out_of_bounds i (enqueue_object i LOW INITIAL s)"] by simp
  then show ?thesis using assms by (auto simp: make_spawn_manager_def split: option.splits)
qed

lemma update_objects_entities [simp]: "map obj_entity (wd_objects (update_objects dt w)) = map obj_entity (wd_objects w)"
proof -
  have e: "obj_entity = (\<lambda>ob. of_nat (object_id ob))" by (simp add: fun_eq_iff obj_entity_def)
  have "map object_id (wd_objects (update_objects dt w)) = map object_id (wd_objects w)"
    using sm_update_ids by (simp add: comp_def)
  then show ?thesis unfolding e by (metis (no_types, lifting) map_map comp_def map_eq_conv)
qed

section \<open>The entity tables\<close>

lemma resize_to_nth: "i < length xs \<Longrightarrow> resize_to n xs ! i = xs ! i"
  by (simp add: resize_to_def nth_append)

lemma resize_to_length: "length (resize_to n xs) = max n (length xs)"
  by (simp add: resize_to_def)

lemma resize_to_new: "length xs \<le> i \<Longrightarrow> i < length (resize_to n xs) \<Longrightarrow> resize_to n xs ! i = None"
  by (auto simp: resize_to_def nth_append split: if_splits)

lemma find_entity_register: "find_entity e' (register_entity e r t) = (if e' = e then Some r else find_entity e' t)"
proof -
  let ?xs = "resize_to (unat e + 1) (entity_registry t)"
  have l: "unat e < length ?xs" by (simp add: resize_to_length)
  have "find_entity e' (register_entity e r t) = (if unat e' \<ge> length ?xs then None else (?xs[unat e := Some r]) ! unat e')"
    by (simp add: find_entity_def register_entity_def ensure_entity_slot_def Let_def)
  moreover have "unat e' = unat e \<longleftrightarrow> e' = e" by (simp add: word_unat_eq_iff)
  moreover have "(if unat e' \<ge> length ?xs then None else ?xs ! unat e') = find_entity e' t"
    using resize_to_nth[of "unat e'" "entity_registry t"] resize_to_new[of "entity_registry t" "unat e'"]
    by (auto simp: find_entity_def resize_to_length)
  ultimately show ?thesis using l by (auto simp: nth_list_update)
qed

lemma find_entity_next_id [simp]: "find_entity e (t\<lparr>next_id := n\<rparr>) = find_entity e t"
  by (simp add: find_entity_def)

text \<open>Caching leaves the registry alone; an instance is found afterwards if its entity occurs once.\<close>

lemma instance_for_cache: "instance_for e (cache_instance l t) = (if e = tl_entity l then Some l else instance_for e t)"
proof -
  let ?xs = "resize_to (unat (tl_entity l) + 1) (instance_lookup t)"
  have l: "unat (tl_entity l) < length ?xs" by (simp add: resize_to_length)
  have "instance_for e (cache_instance l t) = (if unat e \<ge> length ?xs then None else (?xs[unat (tl_entity l) := Some l]) ! unat e)"
    by (simp add: instance_for_def cache_instance_def ensure_entity_slot_def Let_def)
  moreover have "unat e = unat (tl_entity l) \<longleftrightarrow> e = tl_entity l" by (simp add: word_unat_eq_iff)
  moreover have "(if unat e \<ge> length ?xs then None else ?xs ! unat e) = instance_for e t"
    using resize_to_nth[of "unat e" "instance_lookup t"] resize_to_new[of "instance_lookup t" "unat e"]
    by (auto simp: instance_for_def resize_to_length)
  ultimately show ?thesis using l by (auto simp: nth_list_update)
qed

lemma find_entity_cache [simp]: "find_entity e (cache_instance l t) = find_entity e t"
proof -
  have "entity_registry (cache_instance l t) = resize_to (unat (tl_entity l) + 1) (entity_registry t)"
    by (simp add: cache_instance_def ensure_entity_slot_def Let_def)
  then show ?thesis
    using resize_to_nth[of "unat e" "entity_registry t"] resize_to_new[of "entity_registry t" "unat e"]
    by (auto simp: find_entity_def resize_to_length)
qed

lemma find_entity_cached [simp]: "find_entity e (fold cache_instance ls (reset_instance_cache t)) = find_entity e t"
proof -
  have "find_entity e (fold cache_instance ls t') = find_entity e t'" for t' by (induction ls arbitrary: t') simp_all
  then show ?thesis by (simp add: find_entity_def reset_instance_cache_def)
qed

lemma instance_for_cached:
  "distinct (map tl_entity ls) \<Longrightarrow> l \<in> set ls \<Longrightarrow> instance_for (tl_entity l) (fold cache_instance ls t) = Some l"
proof (induction ls arbitrary: t)
  case (Cons k ls)
  show ?case
  proof (cases "l = k")
    case True
    then have "tl_entity k \<notin> tl_entity ` set ls" using Cons.prems by auto
    then have "instance_for (tl_entity k) (fold cache_instance ls t') = instance_for (tl_entity k) t'" for t'
      by (induction ls arbitrary: t') (auto simp: instance_for_cache)
    then show ?thesis using True by (simp add: instance_for_cache)
  next
    case False
    then show ?thesis using Cons by auto
  qed
qed simp

section \<open>Construction\<close>

text \<open>The tables while the constructor fills them: identifiers are given in order, statics first.\<close>

definition parts_ok :: "world_parts \<Rightarrow> bool" where
  "parts_ok b \<longleftrightarrow>
     (let ns = length (b_statics b); nd = length (b_objects b)
      in next_id (b_entities b) = of_nat (ns + nd) \<and>
         (\<forall>i<ns. so_id (b_statics b ! i) = of_nat i \<and>
            (\<exists>n. find_entity (of_nat i) (b_entities b) = Some \<lparr>er_type = StaticEntity, er_index = i, er_name = n\<rparr>)) \<and>
         (\<forall>j<nd. obj_entity (b_objects b ! j) = of_nat (ns + j) \<and>
            (\<exists>n. find_entity (of_nat (ns + j)) (b_entities b) = Some \<lparr>er_type = DynamicEntity, er_index = j, er_name = n\<rparr>)) \<and>
         length (b_dyn_cfgs b) = nd \<and> finite (used_names (b_names b)) \<and> card (used_names (b_names b)) \<le> ns + nd)"

definition parts_count :: "world_parts \<Rightarrow> nat" where
  "parts_count b = length (b_statics b) + length (b_objects b)"

lemma of_nat_inj32: "m < 2 ^ 32 \<Longrightarrow> n < 2 ^ 32 \<Longrightarrow> (of_nat m :: 32 word) = of_nat n \<longleftrightarrow> m = n"
  by (auto dest!: arg_cong[of _ _ unat] simp: unat_of_nat)

lemma register_existing_names:
  "finite (used_names t) \<Longrightarrow> finite (used_names (register_existing_name n t)) \<and>
     card (used_names (register_existing_name n t)) \<le> card (used_names t) + 1"
  by (simp add: register_existing_name_def card_insert_if)

lemma add_static_ok:
  assumes "parts_ok b" "b_objects b = []" "parts_count b < 2 ^ 32"
  shows "parts_ok (add_static c b)" "b_objects (add_static c b) = []" "b_statics (add_static c b) = b_statics b @ [\<lparr>so_id = of_nat (length (b_statics b)), so_cfg = c\<rparr>]"
proof -
  let ?n = "length (b_statics b)"
  have id: "next_id (b_entities b) = of_nat ?n" using assms(1,2) by (simp add: parts_ok_def Let_def)
  have ne: "(of_nat i :: 32 word) \<noteq> of_nat ?n" if "i < ?n" for i
    using that assms(3) of_nat_inj32[of i ?n] by (simp add: parts_count_def)
  have names: "finite (used_names (b_names b))" "card (used_names (b_names b)) \<le> ?n" "length (b_dyn_cfgs b) = 0"
    using assms(1,2) by (auto simp: parts_ok_def Let_def)
  show st: "b_statics (add_static c b) = b_statics b @ [\<lparr>so_id = of_nat ?n, so_cfg = c\<rparr>]" "b_objects (add_static c b) = []"
    using assms(2) by (simp_all add: add_static_def take_id_def id)
  have ents: "find_entity e (b_entities (add_static c b)) = (if e = of_nat ?n
      then Some \<lparr>er_type = StaticEntity, er_index = ?n, er_name = si_name c\<rparr> else find_entity e (b_entities b))" for e
    by (simp add: add_static_def take_id_def id find_entity_register)
  have rest: "next_id (b_entities (add_static c b)) = of_nat (?n + 1)" "b_dyn_cfgs (add_static c b) = b_dyn_cfgs b"
    "b_names (add_static c b) = register_existing_name (si_name c) (b_names b)"
    by (simp_all add: add_static_def take_id_def id register_entity_def ensure_entity_slot_def Let_def)
  have old: "so_id (b_statics b ! i) = of_nat i \<and> (\<exists>n. find_entity (of_nat i) (b_entities b) = Some \<lparr>er_type = StaticEntity, er_index = i, er_name = n\<rparr>)"
    if "i < ?n" for i using assms(1) that by (auto simp: parts_ok_def Let_def)
  show "parts_ok (add_static c b)"
    unfolding parts_ok_def Let_def st rest ents
    using old ne names register_existing_names[OF names(1), of "si_name c"] by (auto simp: nth_append less_Suc_eq)
qed

text \<open>A dynamic object; the name table may hold the name that the search has just reserved for it.\<close>

lemma add_dynamic_ok:
  fixes b tapes prof c n t
  assumes "parts_ok b" "parts_count b < 2 ^ 32" "finite (used_names (register_existing_name n t))"
    "card (used_names (register_existing_name n t)) \<le> parts_count b + 1"
  defines "b' \<equiv> add_dynamic tapes prof c n (b\<lparr>b_names := t\<rparr>)"
  shows "parts_ok b'" "b_statics b' = b_statics b"
    "b_objects b' = b_objects b @ [make_dyn_object (parts_count b) (di_pose c) prof (tapes (length (b_objects b)))]"
    "b_dyn_cfgs b' = b_dyn_cfgs b @ [c]"
proof -
  let ?s = "length (b_statics b)" and ?d = "length (b_objects b)"
  have cnt: "parts_count b = ?s + ?d" by (simp add: parts_count_def)
  have id: "next_id (b_entities b) = of_nat (?s + ?d)" using assms(1) by (simp add: parts_ok_def Let_def)
  have un: "unat (of_nat (?s + ?d) :: 32 word) = ?s + ?d"
    unfolding unat_of_nat using assms(2) by (simp add: cnt)
  have oid: "obj_entity (make_dyn_object (?s + ?d) p prof r) = of_nat (?s + ?d)" for p r
    by (simp add: obj_entity_def make_dyn_object_def)
  have ne: "(of_nat i :: 32 word) \<noteq> of_nat (?s + ?d)" if "i < ?s + ?d" for i
    using that assms(2) of_nat_inj32[of i "?s + ?d"] by (simp add: cnt)
  have names: "length (b_dyn_cfgs b) = ?d"
    using assms(1) by (auto simp: parts_ok_def Let_def)
  show st: "b_statics b' = b_statics b" "b_dyn_cfgs b' = b_dyn_cfgs b @ [c]"
    "b_objects b' = b_objects b @ [make_dyn_object (parts_count b) (di_pose c) prof (tapes ?d)]"
    by (simp_all add: b'_def add_dynamic_def take_id_def id un un[unfolded of_nat_add] Let_def cnt)
  have ents: "find_entity e (b_entities b') = (if e = of_nat (?s + ?d)
      then Some \<lparr>er_type = DynamicEntity, er_index = ?d, er_name = n\<rparr> else find_entity e (b_entities b))" for e
    by (simp add: b'_def add_dynamic_def take_id_def id find_entity_register Let_def)
  have rest: "next_id (b_entities b') = of_nat (?s + ?d + 1)" "b_names b' = register_existing_name n t"
    by (simp_all add: b'_def add_dynamic_def take_id_def id register_entity_def ensure_entity_slot_def Let_def)
  have olds: "so_id (b_statics b ! i) = of_nat i \<and> (\<exists>n. find_entity (of_nat i) (b_entities b) = Some \<lparr>er_type = StaticEntity, er_index = i, er_name = n\<rparr>)"
    if "i < ?s" for i using assms(1) that by (auto simp: parts_ok_def Let_def)
  have oldd: "obj_entity (b_objects b ! j) = of_nat (?s + j) \<and> (\<exists>n. find_entity (of_nat (?s + j)) (b_entities b) = Some \<lparr>er_type = DynamicEntity, er_index = j, er_name = n\<rparr>)"
    if "j < ?d" for j using assms(1) that by (auto simp: parts_ok_def Let_def)
  have n1: "(of_nat i :: 32 word) \<noteq> of_nat (?s + ?d)" if "i < ?s" for i using ne that by simp
  have n2: "(of_nat (?s + j) :: 32 word) \<noteq> of_nat (?s + ?d)" if "j < ?d" for j by (rule ne) (use that in simp)
  show "parts_ok b'"
    unfolding parts_ok_def Let_def
  proof (intro conjI allI impI)
    fix i assume "i < length (b_statics b')"
    then show "so_id (b_statics b' ! i) = of_nat i" "\<exists>n. find_entity (of_nat i) (b_entities b') = Some \<lparr>er_type = StaticEntity, er_index = i, er_name = n\<rparr>"
      using olds n1 by (auto simp only: st ents if_False)
  next
    fix j assume "j < length (b_objects b')"
    then consider (old) "j < ?d" | (new) "j = ?d" by (auto simp: st less_Suc_eq)
    then have "obj_entity (b_objects b' ! j) = of_nat (?s + j) \<and>
      (\<exists>n. find_entity (of_nat (?s + j)) (b_entities b') = Some \<lparr>er_type = DynamicEntity, er_index = j, er_name = n\<rparr>)"
    proof cases
      case old
      then have "b_objects b' ! j = b_objects b ! j" by (simp add: st nth_append)
      moreover have "find_entity (of_nat (?s + j)) (b_entities b') = find_entity (of_nat (?s + j)) (b_entities b)"
        using n2[OF old] by (simp only: ents if_False)
      ultimately show ?thesis using oldd[OF old] by simp
    next
      case new
      have "b_objects b' ! j = make_dyn_object (?s + ?d) (di_pose c) prof (tapes ?d)" by (simp add: st new cnt)
      moreover have "find_entity (of_nat (?s + j)) (b_entities b') = Some \<lparr>er_type = DynamicEntity, er_index = j, er_name = n\<rparr>"
        by (simp only: ents new simp_thms if_True)
      ultimately show ?thesis using oid new by simp
    qed
    then show "obj_entity (b_objects b' ! j) = of_nat (length (b_statics b') + j)"
      "\<exists>n. find_entity (of_nat (length (b_statics b') + j)) (b_entities b') = Some \<lparr>er_type = DynamicEntity, er_index = j, er_name = n\<rparr>"
      by (simp_all only: st)
  qed (use names assms(3,4) in \<open>simp_all add: st rest cnt add_ac\<close>)
qed

lemma add_deterministic_ok:
  "add_deterministic wc tapes cs b = Inr b' \<Longrightarrow> parts_ok b \<Longrightarrow> parts_count b + length cs \<le> 2 ^ 32 \<Longrightarrow>
   parts_ok b' \<and> parts_count b' = parts_count b + length cs \<and> b_statics b' = b_statics b"
proof (induction cs arbitrary: b)
  case (Cons c cs)
  obtain prof where prof: "dynamic_profiles wc (di_profile_id c) = Some prof"
    "add_deterministic wc tapes cs (add_dynamic tapes prof c (di_name c) b) = Inr b'"
    using Cons.prems(1) by (auto split: option.splits)
  have fin: "finite (used_names (b_names b))" "card (used_names (b_names b)) \<le> parts_count b"
    using Cons.prems(2) by (auto simp: parts_ok_def parts_count_def Let_def)
  have "parts_count b < 2 ^ 32" using Cons.prems(3) by simp
  from add_dynamic_ok[OF Cons.prems(2) this, of "di_name c" "b_names b" tapes prof c] register_existing_names[OF fin(1), of "di_name c"] fin(2)
  have 1: "parts_ok (add_dynamic tapes prof c (di_name c) b)" "b_statics (add_dynamic tapes prof c (di_name c) b) = b_statics b"
    "parts_count (add_dynamic tapes prof c (di_name c) b) = parts_count b + 1" by (simp_all add: parts_count_def)
  from Cons.IH[OF prof(2) 1(1)] 1(2,3) Cons.prems(3) show ?case by simp
qed simp

lemma add_group_ok:
  "parts_ok b \<Longrightarrow> parts_count b + length is \<le> 2 ^ 32 - 1 \<Longrightarrow>
   \<exists>b'. add_group tapes prof g is b = Some b' \<and> parts_ok b' \<and> parts_count b' = parts_count b + length is \<and> b_statics b' = b_statics b"
proof (induction "is" arbitrary: b)
  case (Cons i "is")
  have fin: "finite (used_names (b_names b))" "card (used_names (b_names b)) \<le> parts_count b"
    using Cons.prems(1) by (auto simp: parts_ok_def parts_count_def Let_def)
  have "card (used_names (b_names b)) < 2 ^ 32" using fin(2) Cons.prems(2) by simp
  from make_instance_name_new[OF fin(1) this] obtain n t where
    n: "make_instance_name (ri_name g @ ''_'' @ digits4 i) (b_names b) = Some (n, t)" "used_names t = insert n (used_names (b_names b))"
    "n \<notin> used_names (b_names b)" by blast
  have t: "finite (used_names (register_existing_name moved_from_name t))"
    "card (used_names (register_existing_name moved_from_name t)) \<le> parts_count b + 1"
    using n(2,3) fin by (simp_all add: register_existing_name_def moved_from_name_def)
  let ?c = "\<lparr>di_name = n, di_model_id = ri_model_id g, di_profile_id = ri_profile_id g, di_pose = zero_pose\<rparr>"
  let ?b = "add_dynamic tapes prof ?c moved_from_name (b\<lparr>b_names := t\<rparr>)"
  have "parts_count b < 2 ^ 32" using Cons.prems(2) by simp
  from add_dynamic_ok[OF Cons.prems(1) this t, of tapes prof ?c]
  have 1: "parts_ok ?b" "b_statics ?b = b_statics b" "parts_count ?b = parts_count b + 1" by (simp_all add: parts_count_def)
  from Cons.IH[OF 1(1)] 1(2,3) Cons.prems(2) n(1) show ?case by simp
qed simp

lemma add_random_ok:
  "parts_ok b \<Longrightarrow> parts_count b + sum_list (map ri_count gs) \<le> 2 ^ 32 - 1 \<Longrightarrow>
   \<exists>res. add_random wc tapes gs b = Some res \<and>
     (\<forall>b'. res = Inr b' \<longrightarrow> parts_ok b' \<and> parts_count b' = parts_count b + sum_list (map ri_count gs) \<and> b_statics b' = b_statics b)"
proof (induction gs arbitrary: b)
  case (Cons g gs)
  show ?case
  proof (cases "dynamic_profiles wc (ri_profile_id g)")
    case (Some prof)
    obtain b1 where b1: "add_group tapes prof g [0..<ri_count g] b = Some b1" "parts_ok b1"
      "parts_count b1 = parts_count b + ri_count g" "b_statics b1 = b_statics b"
      using add_group_ok[OF Cons.prems(1), of "[0..<ri_count g]" tapes prof g] Cons.prems(2) by auto
    from Cons.IH[OF b1(2)] b1 Cons.prems(2) Some show ?thesis by (auto simp: add_ac)
  qed simp
qed simp

section \<open>The population\<close>

lemma parts_ok_empty: "parts_ok empty_parts" "parts_count empty_parts = 0" "b_statics empty_parts = []" "b_objects empty_parts = []"
  by (simp_all add: parts_ok_def parts_count_def empty_parts_def no_entities_def empty_names_def)

lemma add_statics_ok:
  "parts_ok b \<Longrightarrow> b_objects b = [] \<Longrightarrow> parts_count b + length cs \<le> 2 ^ 32 \<Longrightarrow>
   parts_ok (fold add_static cs b) \<and> b_objects (fold add_static cs b) = [] \<and>
   map so_cfg (b_statics (fold add_static cs b)) = map so_cfg (b_statics b) @ cs"
proof (induction cs arbitrary: b)
  case (Cons c cs)
  have "parts_count b < 2 ^ 32" using Cons.prems(3) by simp
  note add = add_static_ok[OF Cons.prems(1,2) this, of c]
  have 1: "parts_ok (add_static c b)" "b_objects (add_static c b) = []" by (rule add)+
  have 2: "map so_cfg (b_statics (add_static c b)) = map so_cfg (b_statics b) @ [c]" "parts_count (add_static c b) = parts_count b + 1"
    using Cons.prems(2) by (simp_all add: add(2,3) parts_count_def)
  from Cons.IH[OF 1] 2 Cons.prems(3) show ?case by simp
qed simp

text \<open>The entities that a configuration asks for, with the robot.\<close>

definition entity_total :: "world_config \<Rightarrow> map_config \<Rightarrow> nat" where
  "entity_total wc m = length (mc_statics m) +
     (case world_kind wc of DeterministicWorld cs \<Rightarrow> length cs | RandomWorld gs \<Rightarrow> sum_list (map ri_count gs)) + 1"

lemma select_route_ok:
  "select_route m rnd r = Inr (rs, r') \<Longrightarrow> active_route rs \<noteq> [] \<and> active_waypoint_index rs = 0 \<and> \<not> final_goal rs"
  by (auto simp: select_route_def Let_def case_prod_beta split: if_splits)

lemma add_deterministic_statics: "add_deterministic wc tapes cs b = Inr b' \<Longrightarrow> b_statics b' = b_statics b"
proof (induction cs arbitrary: b)
  case (Cons c cs)
  then show ?case by (auto simp: add_dynamic_def take_id_def Let_def split: option.splits)
qed simp

lemma populate_ok:
  assumes "entity_total wc m < 2 ^ 32"
  shows "\<exists>res. populate wc m p (fold add_static (mc_statics m) empty_parts) = Some res \<and>
    (\<forall>b rs. res = Inr (b, rs) \<longrightarrow> parts_ok b \<and> parts_count b + 1 = entity_total wc m \<and> map so_cfg (b_statics b) = mc_statics m \<and>
       active_route rs \<noteq> [] \<and> active_waypoint_index rs = 0 \<and> \<not> final_goal rs)"
proof -
  let ?b = "fold add_static (mc_statics m) empty_parts"
  have "parts_ok ?b \<and> b_objects ?b = [] \<and> map so_cfg (b_statics ?b) = mc_statics m"
    using add_statics_ok[OF parts_ok_empty(1), of "mc_statics m"] assms by (simp add: entity_total_def parts_ok_empty)
  then have b: "parts_ok ?b" "map so_cfg (b_statics ?b) = mc_statics m" "parts_count ?b = length (mc_statics m)"
    by (auto simp: parts_count_def dest: arg_cong[of _ _ length])
  show ?thesis
  proof (cases "world_kind wc")
    case (DeterministicWorld cs)
    have "parts_count ?b + length cs \<le> 2 ^ 32" using assms DeterministicWorld b(3) by (simp add: entity_total_def)
    from add_deterministic_ok[OF _ b(1) this] b(2,3) DeterministicWorld select_route_ok show ?thesis
      by (fastforce simp: populate_def and_then_eq_Inr entity_total_def)
  next
    case (RandomWorld gs)
    have "parts_count ?b + sum_list (map ri_count gs) \<le> 2 ^ 32 - 1" using assms RandomWorld b(3) by (simp add: entity_total_def)
    from add_random_ok[OF b(1) this, of wc "wp_object_tapes p"] obtain res where
      r: "add_random wc (wp_object_tapes p) gs ?b = Some res"
      "\<And>b'. res = Inr b' \<Longrightarrow> parts_ok b' \<and> parts_count b' = parts_count ?b + sum_list (map ri_count gs) \<and> b_statics b' = b_statics ?b"
      by blast
    show ?thesis using r b(2,3) RandomWorld select_route_ok
      by (fastforce simp: populate_def and_then_eq_Inr entity_total_def)
  qed
qed

section \<open>The instances that the constructor adds\<close>

definition leaf_key :: "tlas_leaf \<Rightarrow> entity_id \<times> model_profile option \<times> pose2" where
  "leaf_key l = (tl_entity l, tl_model l, tl_pose l)"

definition instance_key :: "bp_instance \<Rightarrow> entity_id \<times> model_profile option \<times> pose2" where
  "instance_key i = (bi_entity i, bi_model i, bi_pose i)"

definition indexed :: "broad_phase \<Rightarrow> bool" where
  "indexed bp \<longleftrightarrow> (\<forall>k<length (dynamic_instances bp). entity_to_dynamic bp (tl_entity (dynamic_instances bp ! k)) = Some k)"

lemma add_all_keys:
  "add_all ne is bp = Inr bp' \<Longrightarrow> indexed bp \<Longrightarrow>
   distinct (map tl_entity (dynamic_instances bp) @ map bi_entity (filter (\<lambda>i. \<not> bi_static i) is)) \<Longrightarrow>
   indexed bp' \<and> map leaf_key (static_instances bp') = map leaf_key (static_instances bp) @ map instance_key (filter bi_static is) \<and>
   map leaf_key (dynamic_instances bp') = map leaf_key (dynamic_instances bp) @ map instance_key (filter (\<lambda>i. \<not> bi_static i) is)"
proof (induction "is" arbitrary: bp)
  case (Cons i "is")
  obtain m where m: "bi_model i = Some m" "add_all ne is (snd (add_instance ne i bp)) = Inr bp'"
    using Cons.prems(1) by (cases "bi_model i") (auto simp: add_instance_def init_instance_info_def Let_def case_prod_beta split: sum.splits if_splits)
  let ?bp = "snd (add_instance ne i bp)"
  obtain b z0 z1 where cb: "compute_bounds m (bi_pose i) = (b, z0, z1)" by (metis prod_cases3)
  let ?l = "\<lparr>tl_model = Some m, tl_blas = Some (blas_build ne m), tl_pose = bi_pose i, tl_bounds = b, tl_z_min = z0, tl_z_max = z1,
     tl_entity = bi_entity i\<rparr>"
  have key: "leaf_key ?l = instance_key i" by (simp add: leaf_key_def instance_key_def m(1))
  show ?case
  proof (cases "bi_static i")
    case True
    have s: "static_instances ?bp = static_instances bp @ [?l]" "dynamic_instances ?bp = dynamic_instances bp" "entity_to_dynamic ?bp = entity_to_dynamic bp"
      using True m(1) cb by (simp_all add: add_instance_def init_instance_info_def)
    have "indexed ?bp" using Cons.prems(2) s by (simp add: indexed_def)
    from Cons.IH[OF m(2) this] Cons.prems(3) True s key show ?thesis by simp
  next
    case False
    have s: "static_instances ?bp = static_instances bp" "dynamic_instances ?bp = dynamic_instances bp @ [?l]"
      "entity_to_dynamic ?bp = (entity_to_dynamic bp)(bi_entity i \<mapsto> length (dynamic_instances bp))"
      using False m(1) cb by (simp_all add: add_instance_def init_instance_info_def Let_def)
    have "bi_entity i \<notin> tl_entity ` set (dynamic_instances bp)" using Cons.prems(3) False by simp
    then have "tl_entity (dynamic_instances bp ! k) \<noteq> bi_entity i" if "k < length (dynamic_instances bp)" for k
      using nth_mem[OF that] by (metis imageI)
    then have "indexed ?bp" using Cons.prems(2) unfolding indexed_def s by (auto simp: nth_append less_Suc_eq)
    from Cons.IH[OF m(2) this] Cons.prems(3) False s key show ?thesis by simp
  qed
qed simp

lemma make_broad_phase_keys:
  assumes "make_broad_phase ne is fs = Inr bp" "distinct (map bi_entity (filter (\<lambda>i. \<not> bi_static i) is))"
  shows "indexed (build ne bp)" "map leaf_key (static_instances (build ne bp)) = map instance_key (filter bi_static is)"
    "map leaf_key (dynamic_instances (build ne bp)) = map instance_key (filter (\<lambda>i. \<not> bi_static i) is)"
proof -
  obtain bp0 ms where bp0: "add_all ne is empty_bp = Inr bp0" "bp = bp0\<lparr>collision_masks := ms\<rparr>"
    using assms(1) by (auto simp: make_broad_phase_def and_then_eq_Inr)
  note k = add_all_keys[OF bp0(1)]
  have "indexed bp0 \<and> map leaf_key (static_instances bp0) = map instance_key (filter bi_static is) \<and>
      map leaf_key (dynamic_instances bp0) = map instance_key (filter (\<lambda>i. \<not> bi_static i) is)"
    using k assms(2) by (simp add: empty_bp_def indexed_def)
  then show "indexed (build ne bp)" "map leaf_key (static_instances (build ne bp)) = map instance_key (filter bi_static is)"
    "map leaf_key (dynamic_instances (build ne bp)) = map instance_key (filter (\<lambda>i. \<not> bi_static i) is)"
    by (simp_all add: bp0(2) indexed_def build_def synchronize_dynamic_states_def)
qed

section \<open>The invariant of a world\<close>

definition tables_ok :: "entities \<Rightarrow> static_object list \<Rightarrow> dyn_object list \<Rightarrow> bool" where
  "tables_ok t sts obs \<longleftrightarrow>
     (let ns = length sts
      in (\<forall>i<ns. so_id (sts ! i) = of_nat i \<and>
            (\<exists>n. find_entity (of_nat i) t = Some \<lparr>er_type = StaticEntity, er_index = i, er_name = n\<rparr>)) \<and>
         (\<forall>j<length obs. obj_entity (obs ! j) = of_nat (ns + j) \<and>
            (\<exists>n. find_entity (of_nat (ns + j)) t = Some \<lparr>er_type = DynamicEntity, er_index = j, er_name = n\<rparr>)))"

definition scene_objects :: "world \<Rightarrow> (dyn_object \<times> dynamic_instance_cfg) list" where
  "scene_objects w = zip (wd_objects w) (wd_dyn_cfgs w)"

definition world_linked :: "world \<Rightarrow> bool" where
  "world_linked w \<longleftrightarrow>
     length (wd_dyn_cfgs w) = length (wd_objects w) \<and> length (wd_statics w) + length (wd_objects w) + 1 < 2 ^ 32 \<and>
     wd_robot_entity w = of_nat (length (wd_statics w) + length (wd_objects w)) \<and>
     tables_ok (wd_entities w) (wd_statics w) (wd_objects w) \<and> indexed (wd_bp w) \<and>
     map leaf_key (static_instances (wd_bp w)) = map instance_key (concat (map (static_instance (wd_config w)) (wd_statics w))) \<and>
     map (\<lambda>l. (tl_entity l, tl_model l)) (dynamic_instances (wd_bp w)) =
       map (\<lambda>i. (bi_entity i, bi_model i)) (concat (map (dynamic_instance (wd_config w)) (scene_objects w)))
         @ [(wd_robot_entity w, Some (rb_model (wd_robot w)))]"

definition world_ok :: "world \<Rightarrow> bool" where
  "world_ok w \<longleftrightarrow> world_live w \<and> world_linked w \<and> active_route (wd_route w) \<noteq> [] \<and>
     active_waypoint_index (wd_route w) < length (active_route (wd_route w)) \<and>
     (final_goal (wd_route w) \<longrightarrow> active_waypoint_index (wd_route w) + 1 = length (active_route (wd_route w)))"

text \<open>What the constructor needs of the configuration for the world to be sound.\<close>

definition world_config_ok :: "world_config \<Rightarrow> bool" where
  "world_config_ok wc \<longleftrightarrow>
     (\<forall>i m. model_profiles wc i = Some m \<longrightarrow> model_wf m) \<and>
     (\<forall>prof. robot_profiles wc (robot_profile_id (robot_instance wc)) = Some prof \<longrightarrow> sensor_frames_ok ''base_link'' (profile_sensors prof))"

lemma scene_static: "filter bi_static (scene_instances wc b) = concat (map (static_instance wc) (b_statics b))"
  "filter (\<lambda>i. \<not> bi_static i) (scene_instances wc b) = concat (map (dynamic_instance wc) (zip (b_objects b) (b_dyn_cfgs b)))"
proof -
  have s: "filter bi_static (static_instance wc so) = static_instance wc so" "filter (\<lambda>i. \<not> bi_static i) (static_instance wc so) = []" for so
    by (simp_all add: static_instance_def split: option.split)
  have d: "filter bi_static (dynamic_instance wc x) = []" "filter (\<lambda>i. \<not> bi_static i) (dynamic_instance wc x) = dynamic_instance wc x" for x
    by (simp_all add: dynamic_instance_def split: option.split)
  show "filter bi_static (scene_instances wc b) = concat (map (static_instance wc) (b_statics b))"
    "filter (\<lambda>i. \<not> bi_static i) (scene_instances wc b) = concat (map (dynamic_instance wc) (zip (b_objects b) (b_dyn_cfgs b)))"
    by (simp_all add: scene_instances_def filter_concat comp_def s d)
qed

lemma scene_models: "i \<in> set (scene_instances wc b) \<Longrightarrow> \<exists>k. bi_model i = model_profiles wc k"
  by (auto simp: scene_instances_def static_instance_def dynamic_instance_def split: option.splits if_splits)

text \<open>The entities of dynamic instances are those of the objects, in order, without the objects that have no model.\<close>

lemma dynamic_instance_entities: "map bi_entity (concat (map (dynamic_instance wc) xs)) =
    map (\<lambda>x. obj_entity (fst x)) (filter (\<lambda>x. model_profiles wc (di_model_id (snd x)) \<noteq> None) xs)"
  by (induction xs) (auto simp: dynamic_instance_def)

lemma static_instance_entities: "map bi_entity (concat (map (static_instance wc) xs)) =
    map so_id (filter (\<lambda>x. \<exists>m. model_profiles wc (si_model_id (so_cfg x)) = Some m \<and> \<not> is_tile m) xs)"
  by (induction xs) (auto simp: static_instance_def split: option.split)

lemma tables_distinct:
  assumes "tables_ok t sts obs" "length sts + length obs < 2 ^ 32"
  shows "distinct (map so_id sts @ map obj_entity obs @ [of_nat (length sts + length obs)])"
proof -
  let ?n = "length sts + length obs"
  have "map so_id sts @ map obj_entity obs @ [of_nat ?n] = map of_nat [0..<?n + 1]"
    using assms(1) by (auto simp: list_eq_iff_nth_eq tables_ok_def nth_append Let_def less_Suc_eq simp del: of_nat_add upt_Suc)
  moreover have "inj_on (of_nat :: nat \<Rightarrow> 32 word) {0..<?n + 1}"
    using assms(2) by (intro inj_onI) (simp add: of_nat_inj32 del: of_nat_add)
  then have "distinct (map (of_nat :: nat \<Rightarrow> 32 word) [0..<?n + 1])" by (simp only: distinct_map distinct_upt set_upt simp_thms)
  ultimately show ?thesis by (simp only:)
qed

lemma distinct_filter_map: "distinct (map f xs) \<Longrightarrow> distinct (map f (filter P xs))"
  by (induction xs) auto

text \<open>Only the entities of the objects matter for the instances, up to the poses.\<close>

lemma scene_of_ids:
  assumes "map obj_entity xs = map obj_entity ys"
  shows "map (\<lambda>i. (bi_entity i, bi_model i)) (concat (map (dynamic_instance wc) (zip xs cs))) =
    map (\<lambda>i. (bi_entity i, bi_model i)) (concat (map (dynamic_instance wc) (zip ys cs)))"
  using map_eq_imp_length_eq[OF assms] assms
proof (induction xs ys arbitrary: cs rule: list_induct2)
  case (Cons x xs y ys)
  then show ?case by (cases cs) (auto simp: dynamic_instance_def split: option.split)
qed simp

lemma finish_world_ok:
  assumes "finish_world ne p wc m prof model b rs = Inr w" "parts_ok b" "parts_count b + 1 < 2 ^ 32" "world_config_ok wc"
    "robot_profiles wc (robot_profile_id (robot_instance wc)) = Some prof" "model_profiles wc (rp_model_id prof) = Some model"
    "active_route rs \<noteq> []" "active_waypoint_index rs = 0" "\<not> final_goal rs"
  shows "world_ok w \<and> wd_config w = wc \<and> wd_map w = m \<and> wd_time w = 0 \<and> wd_route w = rs"
proof -
  define e where "e = fst (take_id b)"
  define b1 where "b1 = snd (take_id b)"
  define insts where "insts = scene_instances wc b1 @ [\<lparr>bi_name = robot_name (robot_instance wc), bi_pose = active_route_start_pose rs,
      bi_model = Some model, bi_static = False, bi_entity = e\<rparr>]"
  define pr where "pr = \<lparr>pr_config = robot_instance wc, pr_profile = Some prof, pr_pool = wp_pool p,
      pr_frames = Some (register_frame '''' ''world'' Map.empty), pr_model = model, pr_base_frame = ''base_link'',
      pr_entity_id = e, pr_sim_id = wp_sim_id p, pr_initial_pose = active_route_start_pose rs, pr_sensor_tapes = wp_sensor_tapes p\<rparr>"
  obtain bp0 robot sm where mk: "make_broad_phase ne insts (collision_categories wc) = Inr bp0" "make_robot pr = Inr robot"
    "make_spawn_manager (wp_spawn p) (Some (spawn_map_of m)) (b_objects b1) (wp_spawn_tape p) = Inr sm"
    and w: "wd_config w = wc" "wd_map w = m" "wd_time w = 0" "wd_route w = rs" "wd_statics w = b_statics b1" "wd_dyn_cfgs w = b_dyn_cfgs b1"
      "wd_spawner w = sm" "wd_bp w = build ne bp0" "wd_robot w = robot" "wd_robot_entity w = e"
      "wd_entities w = register_entity e \<lparr>er_type = RobotEntity, er_index = 0, er_name = robot_name (robot_instance wc)\<rparr> (b_entities b1)"
    using assms(1) by (auto simp: finish_world_def and_then_eq_Inr e_def b1_def insts_def pr_def Let_def case_prod_beta)
  let ?ns = "length (b_statics b)" and ?nd = "length (b_objects b)"
  have b1: "b_statics b1 = b_statics b" "b_objects b1 = b_objects b" "b_dyn_cfgs b1 = b_dyn_cfgs b" "find_entity x (b_entities b1) = find_entity x (b_entities b)" for x
    by (simp_all add: b1_def take_id_def)
  have e: "e = of_nat (?ns + ?nd)" using assms(2) by (simp add: e_def take_id_def parts_ok_def Let_def)
  have lt: "?ns + ?nd + 1 < 2 ^ 32" using assms(3) by (simp add: parts_count_def)
  have ids: "map object_id (wd_objects w) = map object_id (b_objects b)" using make_spawn_manager_ids[OF mk(3)] by (simp add: w b1)
  then have ents: "map obj_entity (wd_objects w) = map obj_entity (b_objects b)"
    by (simp add: obj_entity_def list_eq_iff_nth_eq)
  have nd: "length (wd_objects w) = ?nd" using ids by (metis length_map)
  have parts: "tables_ok (b_entities b) (b_statics b) (b_objects b)" "length (b_dyn_cfgs b) = ?nd"
    using assms(2) by (auto simp: parts_ok_def tables_ok_def Let_def)
  have ne: "(of_nat i :: 32 word) \<noteq> of_nat (?ns + ?nd)" if "i < ?ns + ?nd" for i
    using of_nat_inj32[of i "?ns + ?nd"] that lt by simp
  have tables: "tables_ok (wd_entities w) (wd_statics w) (wd_objects w)"
  proof -
    have "find_entity (of_nat i) (wd_entities w) = find_entity (of_nat i) (b_entities b)" if "i < ?ns + ?nd" for i
      using ne[OF that] by (simp add: w find_entity_register e b1 del: of_nat_add)
    moreover have "obj_entity (wd_objects w ! j) = obj_entity (b_objects b ! j)" if "j < ?nd" for j
      using ents nd that by (metis nth_map)
    ultimately show ?thesis using parts(1) nd by (auto simp: tables_ok_def w b1 Let_def simp del: of_nat_add)
  qed
  have dist: "distinct (map so_id (b_statics b) @ map obj_entity (b_objects b) @ [e])"
    unfolding e by (rule tables_distinct[OF parts(1)]) (use lt in simp)
  have filt: "filter bi_static insts = concat (map (static_instance wc) (b_statics b))"
    "filter (\<lambda>i. \<not> bi_static i) insts = concat (map (dynamic_instance wc) (zip (b_objects b) (b_dyn_cfgs b))) @
       [\<lparr>bi_name = robot_name (robot_instance wc), bi_pose = active_route_start_pose rs, bi_model = Some model, bi_static = False, bi_entity = e\<rparr>]"
    by (simp_all add: insts_def scene_static b1)
  have zm: "map (\<lambda>x. obj_entity (fst x)) (zip (b_objects b) (b_dyn_cfgs b)) = map obj_entity (b_objects b)"
    using parts(2) by (simp add: list_eq_iff_nth_eq)
  have "distinct (map (\<lambda>x. obj_entity (fst x)) (zip (b_objects b) (b_dyn_cfgs b)) @ [e])" unfolding zm using dist by simp
  then have "distinct (map bi_entity (filter (\<lambda>i. \<not> bi_static i) insts))"
    unfolding filt map_append dynamic_instance_entities by (auto simp: distinct_filter_map)
  note keys = make_broad_phase_keys[OF mk(1) this]
  have dyn: "map (\<lambda>i. (bi_entity i, bi_model i)) (concat (map (dynamic_instance wc) (zip (b_objects b) cs))) =
      map (\<lambda>i. (bi_entity i, bi_model i)) (concat (map (dynamic_instance wc) (zip (wd_objects w) cs)))" for cs
    using scene_of_ids[OF ents[symmetric]] .
  have rm: "rb_model robot = model" using mk(2) by (auto simp: make_robot_def pr_def split: option.splits)
  have "\<forall>i\<in>set insts. \<forall>m. bi_model i = Some m \<longrightarrow> model_wf m"
    using scene_models[of _ wc b1] assms(4,6) by (fastforce simp: insts_def world_config_ok_def)
  note inv = make_broad_phase_inv[OF this mk(1)]
  have "frames_ok robot" using make_robot_frames[OF mk(2)] assms(4,5) by (simp add: pr_def world_config_ok_def)
  then have live: "world_live w" using build_inv[OF inv] by (simp add: world_live_def w)
  have "map (\<lambda>l. (tl_entity l, tl_model l)) (dynamic_instances (wd_bp w)) = map (\<lambda>(e, m, p). (e, m)) (map leaf_key (dynamic_instances (wd_bp w)))"
    by (simp add: leaf_key_def comp_def)
  also have "\<dots> = map (\<lambda>i. (bi_entity i, bi_model i)) (filter (\<lambda>i. \<not> bi_static i) insts)"
    unfolding w keys by (simp add: instance_key_def comp_def)
  finally have "world_linked w"
    using keys(1,2) tables nd lt parts(2) dyn rm by (simp add: world_linked_def filt w b1 e scene_objects_def)
  with live assms(7-9) show ?thesis by (simp add: world_ok_def w)
qed

lemma make_world_ok:
  assumes "wp_config p = Some wc" "wp_map p = Some m" "world_config_ok wc" "entity_total wc m < 2 ^ 32"
  shows "\<exists>res. make_world ne p = Some res \<and>
    (\<forall>w. res = Inr w \<longrightarrow> world_ok w \<and> wd_config w = wc \<and> wd_map w = m \<and> wd_time w = 0 \<and>
       active_waypoint_index (wd_route w) = 0 \<and> \<not> final_goal (wd_route w) \<and> wd_weights w = wp_weights p)"
proof -
  obtain res where r: "populate wc m p (fold add_static (mc_statics m) empty_parts) = Some res"
    "\<And>b rs. res = Inr (b, rs) \<Longrightarrow> parts_ok b \<and> parts_count b + 1 = entity_total wc m \<and>
       active_route rs \<noteq> [] \<and> active_waypoint_index rs = 0 \<and> \<not> final_goal rs"
    using populate_ok[OF assms(4), of p] by blast
  have fin: "world_ok w \<and> wd_config w = wc \<and> wd_map w = m \<and> wd_time w = 0 \<and>
      active_waypoint_index (wd_route w) = 0 \<and> \<not> final_goal (wd_route w) \<and> wd_weights w = wp_weights p"
    if A: "and_then res (\<lambda>(b', rs). finish_world ne p wc m prof model b' rs) = Inr w"
      and B: "robot_profiles wc (robot_profile_id (robot_instance wc)) = Some prof" "model_profiles wc (rp_model_id prof) = Some model" for w prof model
  proof -
    obtain b rs where b: "res = Inr (b, rs)" "finish_world ne p wc m prof model b rs = Inr w"
      using A by (cases res) auto
    have "wd_weights w = wp_weights p" using b(2) by (auto simp: finish_world_def and_then_eq_Inr Let_def case_prod_beta)
    with finish_world_ok[OF b(2) _ _ assms(3) B] r(2)[OF b(1)] assms(4) show ?thesis by auto
  qed
  show ?thesis
    using fin by (auto simp: make_world_def assms(1,2) r(1) Let_def split: option.split)
qed

section \<open>The operations keep the invariant\<close>

lemma scene_moves_spec:
  assumes "distinct (map fst xs)" "\<forall>k<length ls. idx (tl_entity (ls ! k)) = Some k" "\<forall>e i. idx e = Some i \<longrightarrow> i < length ls \<and> tl_entity (ls ! i) = e"
    "k < length ls"
  shows "fold (\<lambda>m. move_spec m idx) (map (\<lambda>(e, p). Move e p) xs) ls ! k =
    (case map_of xs (tl_entity (ls ! k)) of None \<Rightarrow> ls ! k | Some p \<Rightarrow> move_instance p (ls ! k))"
  using assms
proof (induction xs arbitrary: ls)
  case (Cons x xs)
  obtain e p where x: "x = (e, p)" by (cases x)
  let ?ls = "move_spec (Move e p) idx ls"
  have len: "length ?ls = length ls" by (simp add: move_spec_def split: option.split)
  have ent: "tl_entity (?ls ! i) = tl_entity (ls ! i)" if "i < length ls" for i
    using that by (cases "idx e = Some i") (auto simp: move_spec_def split: option.split)
  have "\<forall>i<length ?ls. idx (tl_entity (?ls ! i)) = Some i" using Cons.prems(2) ent len by simp
  moreover have "\<forall>e i. idx e = Some i \<longrightarrow> i < length ?ls \<and> tl_entity (?ls ! i) = e" using Cons.prems(3) ent len by simp
  ultimately have IH: "fold (\<lambda>m. move_spec m idx) (map (\<lambda>(e, p). Move e p) xs) ?ls ! k =
      (case map_of xs (tl_entity (ls ! k)) of None \<Rightarrow> ?ls ! k | Some p \<Rightarrow> move_instance p (?ls ! k))"
    using Cons.IH[of ?ls] Cons.prems by (simp add: len ent)
  show ?case
  proof (cases "tl_entity (ls ! k) = e")
    case True
    then have "idx e = Some k" using Cons.prems(2,4) by auto
    then have "?ls ! k = move_instance p (ls ! k)" using Cons.prems(4) by (simp add: move_spec_def)
    moreover have "map_of xs e = None" using Cons.prems(1) x by (auto simp: map_of_eq_None_iff)
    ultimately show ?thesis using IH True x by simp
  next
    case False
    then have k: "?ls ! k = ls ! k" using Cons.prems(3,4) by (auto simp: move_spec_def nth_list_update split: option.split)
    show ?thesis using IH[unfolded k] False x by simp
  qed
qed simp

lemma leaf_key_move: "leaf_key (move_instance p l) = (tl_entity l, tl_model l, p)"
  by (simp add: leaf_key_def move_instance_def split: option.split prod.split)

text \<open>The instance of an object, as the constructor makes it, but where the object is now.\<close>

definition current_instance :: "world_config \<Rightarrow> dyn_object \<times> dynamic_instance_cfg \<Rightarrow> (entity_id \<times> model_profile option \<times> pose2) list" where
  "current_instance wc x = map (\<lambda>i. (bi_entity i, bi_model i, DynObject.current_pose (fst x))) (dynamic_instance wc x)"

lemma poses_of_objects:
  fixes obs e p ob
  assumes "distinct (map obj_entity obs @ [e])"
  defines "xs \<equiv> map (\<lambda>ob. (obj_entity ob, DynObject.current_pose ob)) obs @ [(e, p)]"
  shows "distinct (map fst xs)" "map_of xs e = Some p" "ob \<in> set obs \<Longrightarrow> map_of xs (obj_entity ob) = Some (DynObject.current_pose ob)"
proof -
  show d: "distinct (map fst xs)" using assms by (simp add: comp_def)
  show "map_of xs e = Some p" by (rule map_of_is_SomeI[OF d]) (simp add: xs_def)
  show "map_of xs (obj_entity ob) = Some (DynObject.current_pose ob)" if "ob \<in> set obs"
    by (rule map_of_is_SomeI[OF d]) (use that in \<open>auto simp: xs_def\<close>)
qed

lemma current_of_poses:
  assumes "map obj_entity xs = map obj_entity ys" "map DynObject.current_pose xs = map DynObject.current_pose ys"
  shows "map (current_instance wc) (zip xs cs) = map (current_instance wc) (zip ys cs)"
  using map_eq_imp_length_eq[OF assms(1)] assms
proof (induction xs ys arbitrary: cs rule: list_induct2)
  case (Cons x xs y ys)
  then show ?case by (cases cs) (auto simp: current_instance_def dynamic_instance_def split: option.split)
qed simp

lemma distinct_sublists:
  "distinct (map f xs @ map g ys @ [e]) \<Longrightarrow> distinct (map f (filter P xs) @ map g (filter Q ys) @ [e])"
  by (auto intro: distinct_filter_map)

lemma current_instance_entities:
  "map (\<lambda>(e, m, p). (e, m)) (concat (map (current_instance wc) xs)) = map (\<lambda>i. (bi_entity i, bi_model i)) (concat (map (dynamic_instance wc) xs))"
  by (induction xs) (simp_all add: current_instance_def comp_def)

lemma linked_entities:
  assumes "world_linked w"
  shows "distinct (map so_id (wd_statics w) @ map obj_entity (wd_objects w) @ [wd_robot_entity w])" "wd_robot_entity w \<noteq> - 1"
proof -
  have l: "tables_ok (wd_entities w) (wd_statics w) (wd_objects w)" "length (wd_statics w) + length (wd_objects w) < 2 ^ 32"
    "wd_robot_entity w = of_nat (length (wd_statics w) + length (wd_objects w))"
    using assms by (auto simp: world_linked_def)
  show "distinct (map so_id (wd_statics w) @ map obj_entity (wd_objects w) @ [wd_robot_entity w])"
    unfolding l(3) by (rule tables_distinct[OF l(1,2)])
  have m: "(- 1 :: 32 word) = of_nat (2 ^ 32 - 1)" by simp
  have "length (wd_statics w) + length (wd_objects w) + 1 < 2 ^ 32" using assms by (simp add: world_linked_def)
  then show "wd_robot_entity w \<noteq> - 1" unfolding l(3) m using of_nat_inj32[of "length (wd_statics w) + length (wd_objects w)" "2 ^ 32 - 1"]
    by (simp del: of_nat_add)
qed

text \<open>After the moves of an update the dynamic instances are where the objects and the robot are.\<close>

lemma moved_instances:
  assumes "bp_inv bp0" "indexed bp0" "distinct (map obj_entity obs @ [e])" "e \<noteq> - 1"
    "map (\<lambda>l. (tl_entity l, tl_model l)) (dynamic_instances bp0) =
       map (\<lambda>i. (bi_entity i, bi_model i)) (concat (map (dynamic_instance wc) (zip obs cs))) @ [(e, Some model)]"
    "scene_moves w = map (\<lambda>ob. Move (obj_entity ob) (DynObject.current_pose ob)) obs @ [Move e p] @ [Refit]"
  defines "dyn \<equiv> fold (\<lambda>m. move_spec m (entity_to_dynamic bp0)) (scene_moves w) (dynamic_instances bp0)"
  shows "map leaf_key dyn = concat (map (current_instance wc) (zip obs cs)) @ [(e, Some model, p)]"
    "map tl_entity dyn = map tl_entity (dynamic_instances bp0)"
proof -
  let ?xs = "map (\<lambda>ob. (obj_entity ob, DynObject.current_pose ob)) obs @ [(e, p)]" and ?d = "dynamic_instances bp0"
  note poses = poses_of_objects[OF assms(3), where p = p]
  have idx: "\<forall>k<length ?d. entity_to_dynamic bp0 (tl_entity (?d ! k)) = Some k"
    "\<forall>e i. entity_to_dynamic bp0 e = Some i \<longrightarrow> i < length ?d \<and> tl_entity (?d ! i) = e"
    using assms(1,2) by (auto simp: indexed_def bp_inv_def)
  have dyn: "dyn = fold (\<lambda>m. move_spec m (entity_to_dynamic bp0)) (map (\<lambda>(e, p). Move e p) ?xs) ?d"
    by (simp add: dyn_def assms(6) comp_def move_spec_def)
  have lenf: "length (fold (\<lambda>m. move_spec m idx) ms ls) = length ls" for ms idx and ls :: "tlas_leaf list"
    by (induction ms arbitrary: ls) (auto simp: move_spec_def split: bp_move.split option.split)
  have len: "length dyn = length ?d" unfolding dyn by (rule lenf)
  have known: "map_of ?xs (tl_entity l) \<noteq> None" if "l \<in> set ?d" for l
  proof -
    have "(tl_entity l, tl_model l) \<in> set (map (\<lambda>l. (tl_entity l, tl_model l)) ?d)" using that by auto
    then have "tl_entity l = e \<or> (\<exists>ob\<in>set obs. tl_entity l = obj_entity ob)"
      unfolding assms(5) by (auto simp: dynamic_instance_def split: option.splits dest: set_zip_leftD)
    then show ?thesis
    proof (elim disjE bexE)
      fix ob assume "ob \<in> set obs" and l: "tl_entity l = obj_entity ob"
      from poses(3)[OF this(1)] show ?thesis unfolding l by (simp only: option.distinct not_False_eq_True)
    qed (simp only: poses(2) option.distinct not_False_eq_True)
  qed
  have at: "dyn ! k = move_instance (the (map_of ?xs (tl_entity (?d ! k)))) (?d ! k)" if k: "k < length ?d" for k
  proof -
    obtain q where "map_of ?xs (tl_entity (?d ! k)) = Some q" using known[OF nth_mem[OF k]] unfolding not_None_eq by (rule exE)
    then show ?thesis unfolding dyn scene_moves_spec[OF poses(1) idx k] by (simp only: option.case option.sel)
  qed
  have "map leaf_key dyn = map (\<lambda>(e, m). (e, m, the (map_of ?xs e))) (map (\<lambda>l. (tl_entity l, tl_model l)) ?d)"
  proof (rule nth_equalityI)
    fix k assume "k < length (map leaf_key dyn)"
    then have k: "k < length ?d" "k < length dyn" by (simp_all add: len)
    show "map leaf_key dyn ! k = map (\<lambda>(e, m). (e, m, the (map_of ?xs e))) (map (\<lambda>l. (tl_entity l, tl_model l)) ?d) ! k"
      using k by (simp only: nth_map length_map prod.case at leaf_key_move)
  qed (simp add: len)
  also have "\<dots> = map (\<lambda>i. (bi_entity i, bi_model i, the (map_of ?xs (bi_entity i)))) (concat (map (dynamic_instance wc) (zip obs cs)))
      @ [(e, Some model, the (map_of ?xs e))]"
    unfolding assms(5) by simp
  also have "map (\<lambda>i. (bi_entity i, bi_model i, the (map_of ?xs (bi_entity i)))) (concat (map (dynamic_instance wc) (zip obs cs))) =
      concat (map (\<lambda>x. map (\<lambda>i. (bi_entity i, bi_model i, the (map_of ?xs (bi_entity i)))) (dynamic_instance wc x)) (zip obs cs))"
    by (simp add: map_concat comp_def)
  also have "\<dots> = concat (map (current_instance wc) (zip obs cs))"
  proof (rule arg_cong[of _ _ concat], rule map_cong[OF refl])
    fix x assume "x \<in> set (zip obs cs)"
    then have "fst x \<in> set obs" by (metis prod.collapse set_zip_leftD)
    from poses(3)[OF this]
    show "map (\<lambda>i. (bi_entity i, bi_model i, the (map_of ?xs (bi_entity i)))) (dynamic_instance wc x) = current_instance wc x"
      by (cases "model_profiles wc (di_model_id (snd x))") (simp_all add: current_instance_def dynamic_instance_def)
  qed
  finally show "map leaf_key dyn = concat (map (current_instance wc) (zip obs cs)) @ [(e, Some model, p)]" using poses(2) by simp
  show "map tl_entity dyn = map tl_entity ?d"
    by (rule nth_equalityI) (simp_all only: len length_map nth_map at move_instance_entity)
qed

lemma tables_cong:
  "tables_ok t sts obs \<Longrightarrow> map obj_entity obs' = map obj_entity obs \<Longrightarrow> (\<And>e. find_entity e t' = find_entity e t) \<Longrightarrow> tables_ok t' sts obs'"
proof -
  assume a: "tables_ok t sts obs" "map obj_entity obs' = map obj_entity obs" "\<And>e. find_entity e t' = find_entity e t"
  then have "length obs' = length obs" "\<And>j. j < length obs \<Longrightarrow> obj_entity (obs' ! j) = obj_entity (obs ! j)" by (metis length_map, metis length_map nth_map)
  with a show ?thesis by (simp add: tables_ok_def Let_def)
qed

lemma bp_run_entities:
  "bp_inv bp \<Longrightarrow> bp_synced bp \<Longrightarrow> bp_run ms bp = Some bp' \<Longrightarrow> entity_to_dynamic bp' = entity_to_dynamic bp"
proof (induction ms arbitrary: bp)
  case (Cons m ms)
  obtain bp1 where bp1: "(case m of Move e p \<Rightarrow> update_dynamics e p bp | Refit \<Rightarrow> Some (refit_dynamics bp)) = Some bp1" "bp_run ms bp1 = Some bp'"
    using Cons.prems(3) by (auto simp: bind_eq_Some_conv)
  have "bp_run [m] bp = Some bp1" using bp1(1) by simp
  with bp_run_refines[OF Cons.prems(1,2), of "[m]"] have inv: "bp_inv bp1" "bp_synced bp1" by auto
  have "entity_to_dynamic bp1 = entity_to_dynamic bp"
  proof (cases m)
    case (Move e p)
    then show ?thesis
      using bp1(1) update_dynamics_spec[OF Cons.prems(1), of e _ p] by (cases "entity_to_dynamic bp e") (auto simp: update_dynamics_def)
  qed (use bp1(1) refit_dynamics_id[OF Cons.prems(1)] in simp)
  with Cons.IH[OF inv bp1(2)] show ?case by simp
qed simp

text \<open>One update from a sound world: the world after it is sound, its instances are where its objects are,
  and the contacts of the robot are those that the candidates give in that state.\<close>

lemma world_update_ok:
  assumes "world_ok w0" "0 < dt"
  obtains r bp ids w' w3 where
    "world_update ei dt w0 = Some (Inr (), w')" "world_ok w'" "w3 = before_collisions r bp dt w0"
    "wd_route w' = wd_route w0" "wd_config w' = wd_config w0" "wd_time w' = wd_time w0 + dt" "wd_weights w' = wd_weights w0" "wd_map w' = wd_map w0"
    "wd_bp w' = bp" "wd_statics w' = wd_statics w3" "wd_entities w' = wd_entities w3" "wd_robot w3 = r" "wd_robot_entity w3 = wd_robot_entity w'"
    "map DynObject.current_pose (wd_objects w') = map DynObject.current_pose (wd_objects w3)"
    "map obj_entity (wd_objects w') = map obj_entity (wd_objects w3)"
    "map object_is_active (wd_objects w') = map object_is_active (wd_objects w3)"
    "rb_pose (wd_robot w') = rb_pose r" "rb_model (wd_robot w') = rb_model r"
    "is_collided (wd_robot w') \<longleftrightarrow> hit_list w3 ids \<noteq> []"
    "wd_report w' = (if hit_list w3 ids = [] then None
       else Some \<lparr>rep_timestamp = wd_time w', rep_severity = compute_collision_severity (map fst (hit_list w3 ids)) (map snd (hit_list w3 ids)) (rb_vel r) (rb_pose r),
         rep_contacts = map fst (hit_list w3 ids)\<rparr>)"
    "query_entity_ids (model_bounds (rb_model r) (rb_pose r)) True True bp = Some ids" "bp_inv bp" "bp_synced bp"
    "map leaf_key (static_instances bp) = map instance_key (concat (map (static_instance (wd_config w')) (wd_statics w')))"
    "map leaf_key (dynamic_instances bp) = concat (map (current_instance (wd_config w')) (scene_objects w')) @ [(wd_robot_entity w', Some (rb_model r), rb_pose r)]"
    "\<And>l. l \<in> set (static_instances bp @ dynamic_instances bp) \<Longrightarrow> instance_for (tl_entity l) (wd_entities w3) = Some l"
proof -
  note live = assms(1)[unfolded world_ok_def, THEN conjunct1] and linked = assms(1)[unfolded world_ok_def, THEN conjunct2, THEN conjunct1]
  from world_update_spec[OF live assms(2), of ei] obtain r bp ids w' where
    r: "robot_update ei (Some (pair (wd_bp w0))) dt (wd_robot w0) = Some (Inr (), r)" "frames_ok r"
    and bp: "bp_run (scene_moves ((update_objects dt w0)\<lparr>wd_robot := r\<rparr>)) (wd_bp w0) = Some bp" "bp_inv bp" "bp_synced bp"
      "static_instances bp = static_instances (wd_bp w0)"
      "dynamic_instances bp = fold (\<lambda>m. move_spec m (entity_to_dynamic (wd_bp w0))) (scene_moves ((update_objects dt w0)\<lparr>wd_robot := r\<rparr>))
         (dynamic_instances (wd_bp w0))"
    and ids: "query_entity_ids (model_bounds (rb_model r) (rb_pose r)) True True bp = Some ids"
    and upd: "world_update ei dt w0 = Some (Inr (), w')"
    and w': "wd_robot w' = (if hit_list (before_collisions r bp dt w0) ids = [] then clear_collision_state r
         else snd (notify_collision (map fst (hit_list (before_collisions r bp dt w0) ids)) r))"
      "wd_report w' = (if hit_list (before_collisions r bp dt w0) ids = [] then None
         else Some \<lparr>rep_timestamp = wd_time w0 + dt,
           rep_severity = compute_collision_severity (map fst (hit_list (before_collisions r bp dt w0) ids))
              (map snd (hit_list (before_collisions r bp dt w0) ids)) (rb_vel r) (rb_pose r),
           rep_contacts = map fst (hit_list (before_collisions r bp dt w0) ids)\<rparr>)"
      "wd_bp w' = bp" "wd_entities w' = wd_entities (before_collisions r bp dt w0)" "wd_statics w' = wd_statics w0"
      "wd_robot_entity w' = wd_robot_entity w0" "wd_route w' = wd_route w0" "wd_dyn_cfgs w' = wd_dyn_cfgs w0" "wd_time w' = wd_time w0 + dt"
    and ob: "length (wd_objects w') = length (wd_objects (update_objects dt w0))"
      "map DynObject.current_pose (wd_objects w') = map DynObject.current_pose (wd_objects (update_objects dt w0))"
      "map obj_entity (wd_objects w') = map obj_entity (wd_objects (update_objects dt w0))"
      "map object_is_active (wd_objects w') = map object_is_active (wd_objects (update_objects dt w0))"
    and cfg: "wd_config w' = wd_config w0" "wd_map w' = wd_map w0" "wd_weights w' = wd_weights w0"
    by blast
  define w3 where "w3 = before_collisions r bp dt w0"
  have w3: "wd_robot w3 = r" "wd_bp w3 = bp" "wd_statics w3 = wd_statics w0" "wd_robot_entity w3 = wd_robot_entity w0"
    "wd_objects w3 = wd_objects (update_objects dt w0)"
    "wd_entities w3 = fold cache_instance (static_instances bp @ dynamic_instances bp) (reset_instance_cache (wd_entities w0))"
    by (simp_all add: w3_def before_collisions_def) (simp add: cache_instances_def)
  have L: "length (wd_dyn_cfgs w0) = length (wd_objects w0)" "tables_ok (wd_entities w0) (wd_statics w0) (wd_objects w0)" "indexed (wd_bp w0)"
    "map leaf_key (static_instances (wd_bp w0)) = map instance_key (concat (map (static_instance (wd_config w0)) (wd_statics w0)))"
    "map (\<lambda>l. (tl_entity l, tl_model l)) (dynamic_instances (wd_bp w0)) =
       map (\<lambda>i. (bi_entity i, bi_model i)) (concat (map (dynamic_instance (wd_config w0)) (zip (wd_objects w0) (wd_dyn_cfgs w0))))
         @ [(wd_robot_entity w0, Some (rb_model (wd_robot w0)))]"
    using linked by (auto simp: world_linked_def scene_objects_def)
  let ?obs = "wd_objects (update_objects dt w0)" and ?w2 = "(update_objects dt w0)\<lparr>wd_robot := r\<rparr>" and ?e = "wd_robot_entity w0"
  have ents: "map obj_entity ?obs = map obj_entity (wd_objects w0)" by (rule update_objects_entities)
  have rm: "rb_model r = rb_model (wd_robot w0)" by (rule robot_update_keeps(1)[OF r(1)])
  have binv: "bp_inv (wd_bp w0)" "bp_synced (wd_bp w0)" using live by (simp_all add: world_live_def)
  have dist: "distinct (map so_id (wd_statics w0) @ map obj_entity ?obs @ [?e])" unfolding ents by (rule linked_entities(1)[OF linked])
  then have dist': "distinct (map obj_entity ?obs @ [?e])" by simp
  have keys0: "map (\<lambda>l. (tl_entity l, tl_model l)) (dynamic_instances (wd_bp w0)) =
       map (\<lambda>i. (bi_entity i, bi_model i)) (concat (map (dynamic_instance (wd_config w0)) (zip ?obs (wd_dyn_cfgs w0)))) @ [(?e, Some (rb_model r))]"
    unfolding L(5) rm scene_of_ids[OF ents] ..
  have sm: "scene_moves ?w2 = map (\<lambda>ob. Move (obj_entity ob) (DynObject.current_pose ob)) ?obs @ [Move ?e (rb_pose r)] @ [Refit]"
    using linked_entities(2)[OF linked] by (simp add: scene_moves_def)
  note moved = moved_instances[OF binv(1) L(3) dist' linked_entities(2)[OF linked] keys0 sm, folded bp(5)]
  have keys: "map leaf_key (dynamic_instances bp) = concat (map (current_instance (wd_config w')) (scene_objects w')) @ [(wd_robot_entity w', Some (rb_model r), rb_pose r)]"
    using moved(1) current_of_poses[OF ob(3,2), of "wd_config w0" "wd_dyn_cfgs w0"] by (simp add: scene_objects_def cfg w')
  have skeys: "map leaf_key (static_instances bp) = map instance_key (concat (map (static_instance (wd_config w')) (wd_statics w')))"
    using L(4) by (simp add: bp(4) cfg w')
  have lens: "length (wd_objects w') = length (wd_objects w0)" using ob(1) ents by (metis length_map)
  have ent_key: "map tl_entity ls = map fst (map leaf_key ls)" "map bi_entity is = map fst (map instance_key is)" for ls "is"
    by (simp_all add: leaf_key_def instance_key_def comp_def)
  have se: "map tl_entity (static_instances bp) = map so_id (filter (\<lambda>x. \<exists>m. model_profiles (wd_config w0) (si_model_id (so_cfg x)) = Some m \<and> \<not> is_tile m) (wd_statics w0))"
    unfolding ent_key(1) skeys ent_key(2)[symmetric] static_instance_entities by (simp add: cfg w')
  have "map tl_entity (dynamic_instances bp) = map fst (map (\<lambda>l. (tl_entity l, tl_model l)) (dynamic_instances (wd_bp w0)))"
    using moved(2) by (simp add: comp_def)
  also have "\<dots> = map bi_entity (concat (map (dynamic_instance (wd_config w0)) (zip ?obs (wd_dyn_cfgs w0)))) @ [?e]"
    unfolding keys0 by simp
  finally have de: "map tl_entity (dynamic_instances bp) =
      map (\<lambda>x. obj_entity (fst x)) (filter (\<lambda>x. model_profiles (wd_config w0) (di_model_id (snd x)) \<noteq> None) (zip ?obs (wd_dyn_cfgs w0))) @ [?e]"
    unfolding dynamic_instance_entities .
  have zm: "map (\<lambda>x. obj_entity (fst x)) (zip ?obs (wd_dyn_cfgs w0)) = map obj_entity ?obs"
    using L(1) ents by (auto simp: list_eq_iff_nth_eq dest: map_eq_imp_length_eq)
  have "distinct (map tl_entity (static_instances bp @ dynamic_instances bp))"
    unfolding map_append se de by (rule distinct_sublists) (use dist zm in \<open>simp only:\<close>)
  then have cached: "instance_for (tl_entity l) (wd_entities w3) = Some l" if "l \<in> set (static_instances bp @ dynamic_instances bp)" for l
    unfolding w3(6) by (rule instance_for_cached) (rule that)
  have ix: "indexed bp"
  proof -
    have "entity_to_dynamic bp = entity_to_dynamic (wd_bp w0)" by (rule bp_run_entities[OF binv bp(1)])
    moreover have "length (dynamic_instances bp) = length (dynamic_instances (wd_bp w0))" using moved(2) by (rule map_eq_imp_length_eq)
    ultimately show ?thesis using L(3) moved(2) by (metis indexed_def nth_map)
  qed
  have tabs: "tables_ok (wd_entities w') (wd_statics w') (wd_objects w')"
    unfolding w'(4,5) w3_def[symmetric] w3(6) by (rule tables_cong[OF L(2)], simp only: ob(3) ents, simp only: find_entity_cached)
  have rb: "rb_pose (wd_robot w') = rb_pose r" "rb_model (wd_robot w') = rb_model r" "is_collided (wd_robot w') \<longleftrightarrow> hit_list w3 ids \<noteq> []"
    "frames_ok (wd_robot w')"
    using r(2) by (auto simp: w'(1) w3_def notify_collision_def clear_collision_state_def)
  have "map (\<lambda>l. (tl_entity l, tl_model l)) (dynamic_instances bp) = map (\<lambda>(e, m, p). (e, m)) (map leaf_key (dynamic_instances bp))"
    by (simp add: leaf_key_def comp_def)
  also have "\<dots> = map (\<lambda>i. (bi_entity i, bi_model i)) (concat (map (dynamic_instance (wd_config w')) (scene_objects w'))) @ [(?e, Some (rb_model r))]"
    unfolding keys map_append current_instance_entities by (simp add: w')
  finally have linked': "world_linked w'"
    using tabs ix skeys lens linked L(1) rb(2) by (simp add: world_linked_def w')
  have ok: "world_ok w'" using assms(1) linked' bp(2,3) rb(4) by (simp add: world_ok_def world_live_def w')
  show thesis
    by (rule that[OF upd ok w3_def w'(7) cfg(1) w'(9) cfg(3,2) w'(3) _ _ w3(1) _ _ _ _ rb(1-3) _ ids bp(2,3) skeys keys cached])
      (simp_all add: w' w3 ob w3_def[symmetric])
qed

end
