(* ===== verification/WorldContacts.thy ===== *)
theory WorldContacts
  imports WorldInv
begin

text \<open>
  What an update says of the collisions of the robot, in terms of the obstacles of the world: the
  static objects that are no tiles and the active dynamic objects, with their models and poses. The
  tables, the cache and the trees of \<^verbatim>\<open>world.cpp\<close> do not occur in the statement.
\<close>

section \<open>The obstacles of a world\<close>

definition registered_name :: "entity_id \<Rightarrow> world \<Rightarrow> string" where
  "registered_name e w = (case find_entity e (wd_entities w) of Some ref \<Rightarrow> er_name ref | None \<Rightarrow> [])"

text \<open>A static object is an obstacle unless it is a tile of the floor, a dynamic one if it is active.\<close>

definition static_obstacle :: "world \<Rightarrow> static_object \<Rightarrow> (collision_contact \<times> model_profile) list" where
  "static_obstacle w so =
     (case model_profiles (wd_config w) (si_model_id (so_cfg so)) of
        None \<Rightarrow> []
      | Some m \<Rightarrow> if is_tile m then []
          else [(\<lparr>other_name = registered_name (so_id so) w, other_pose = si_pose (so_cfg so), other_is_dynamic = False\<rparr>, m)])"

definition dynamic_obstacle :: "world \<Rightarrow> dyn_object \<times> dynamic_instance_cfg \<Rightarrow> (collision_contact \<times> model_profile) list" where
  "dynamic_obstacle w x =
     (case model_profiles (wd_config w) (di_model_id (snd x)) of
        None \<Rightarrow> []
      | Some m \<Rightarrow> if \<not> object_is_active (fst x) then []
          else [(\<lparr>other_name = registered_name (obj_entity (fst x)) w, other_pose = DynObject.current_pose (fst x), other_is_dynamic = True\<rparr>, m)])"

definition obstacles :: "world \<Rightarrow> (collision_contact \<times> model_profile) list" where
  "obstacles w = concat (map (static_obstacle w) (wd_statics w)) @ concat (map (dynamic_obstacle w) (scene_objects w))"

text \<open>The boxes meet, and a part of the robot collides with a part of the obstacle.\<close>

definition in_contact :: "robot \<Rightarrow> collision_contact \<times> model_profile \<Rightarrow> bool" where
  "in_contact r ob \<longleftrightarrow>
     aabb_intersects (model_bounds (snd ob) (other_pose (fst ob))) (model_bounds (rb_model r) (rb_pose r)) \<and>
     intersects (narrow_phase_intersect_check (rb_model r) (rb_pose r) (snd ob) (other_pose (fst ob)))"

lemma model_bounds_eq: "model_bounds m p = fst (compute_bounds m p)"
proof -
  have eq: "fst (fold (\<lambda>part (b, z0, z1). (aabb_merge b (f part), min z0 (z_min (part_geom part)), max z1 (z_max (part_geom part)))) ps (b, z0, z1)) =
      fold (\<lambda>part b. aabb_merge b (f part)) ps b" for f ps b z0 z1
    by (induction ps arbitrary: b z0 z1) simp_all
  show ?thesis
  proof (cases "parts m")
    case (Cons q ps)
    show ?thesis unfolding model_bounds_def compute_bounds_def Cons list.case by (rule eq[symmetric])
  qed (simp add: model_bounds_def compute_bounds_def)
qed

lemma mset_concat_map: "mset (concat (map f xs)) = (\<Sum>x\<in>#mset xs. mset (f x))"
  by (induction xs) simp_all

lemma concat_filter: "concat (map f (map g (filter P xs))) = concat (map (\<lambda>x. if P x then f (g x) else []) xs)"
  by (induction xs) simp_all

lemma concat_concat_map: "concat (map f (concat (map g xs))) = concat (map (\<lambda>x. concat (map f (g x))) xs)"
  by (induction xs) simp_all

text \<open>The contact that a candidate gives, from its entry in the tables and its instance.\<close>

lemma robot_hit_eq:
  assumes "e \<noteq> wd_robot_entity w" "find_entity e (wd_entities w) = Some ref" "instance_for e (wd_entities w) = Some l" "tl_model l = Some m"
    "candidate_pose ref w = Some (p, d)"
  shows "map fst (robot_hit w e) =
    (if intersects (narrow_phase_intersect_check (rb_model (wd_robot w)) (rb_pose (wd_robot w)) m p)
     then [\<lparr>other_name = er_name ref, other_pose = p, other_is_dynamic = (d \<noteq> None)\<rparr>] else [])"
  using assms by (simp add: robot_hit_def robot_candidate_def Let_def)

lemma robot_hit_none:
  "e = wd_robot_entity w \<or> (\<exists>ref. find_entity e (wd_entities w) = Some ref \<and> candidate_pose ref w = None) \<Longrightarrow> robot_hit w e = []"
  by (auto simp: robot_hit_def robot_candidate_def Let_def split: option.split)

text \<open>The contacts of the candidates that the query returns, over the keys of the instances.\<close>

definition key_contacts :: "world \<Rightarrow> aabb2 \<Rightarrow> entity_id \<times> model_profile option \<times> pose2 \<Rightarrow> collision_contact list" where
  "key_contacts w q k =
     (case k of (e, m, p) \<Rightarrow> if aabb_intersects (model_bounds (the m) p) q then map fst (robot_hit w e) else [])"

lemma key_contacts_leaf:
  "inst_current l \<Longrightarrow> key_contacts w q (leaf_key l) = (if aabb_intersects (tl_bounds l) q then map fst (robot_hit w (tl_entity l)) else [])"
  by (auto simp: key_contacts_def leaf_key_def inst_current_def model_bounds_eq prod_eq_iff)

lemma overlapping_contacts:
  assumes "\<forall>l\<in>set ls. inst_current l"
  shows "concat (map (\<lambda>e. map fst (robot_hit w e)) (overlapping q ls)) = concat (map (key_contacts w q) (map leaf_key ls))"
  using assms unfolding overlapping_def concat_filter by (auto simp: key_contacts_leaf intro!: arg_cong[of _ _ concat])

lemma hit_list_contacts:
  assumes "bp_inv bp" "bp_synced bp" "query_entity_ids q True True bp = Some ids"
  shows "mset (map fst (hit_list w ids)) =
    mset (concat (map (key_contacts w q) (map leaf_key (static_instances bp) @ map leaf_key (dynamic_instances bp))))"
proof -
  have cur: "\<forall>l\<in>set (static_instances bp). inst_current l" "\<forall>l\<in>set (dynamic_instances bp). inst_current l"
    using assms(1) by (auto simp: bp_inv_def)
  have ids: "mset ids = mset (overlapping q (static_instances bp) @ overlapping q (dynamic_instances bp))"
    using query_exact[OF assms(1,2), of q True True] assms(3) by auto
  have "map fst (hit_list w ids) = concat (map (\<lambda>e. map fst (robot_hit w e)) ids)"
    by (simp add: hit_list_def map_concat comp_def)
  also have "mset \<dots> = mset (concat (map (\<lambda>e. map fst (robot_hit w e)) (overlapping q (static_instances bp) @ overlapping q (dynamic_instances bp))))"
    unfolding mset_concat_map ids ..
  finally show ?thesis using overlapping_contacts[OF cur(1)] overlapping_contacts[OF cur(2)] by simp
qed

text \<open>What an update leaves in the tables, for one static object, one dynamic object and the robot.\<close>

definition scene_cached :: "world \<Rightarrow> world \<Rightarrow> broad_phase \<Rightarrow> bool" where
  "scene_cached w' w3 bp \<longleftrightarrow>
     world_linked w' \<and> wd_statics w' = wd_statics w3 \<and> wd_entities w' = wd_entities w3 \<and> wd_robot_entity w3 = wd_robot_entity w' \<and>
     map DynObject.current_pose (wd_objects w') = map DynObject.current_pose (wd_objects w3) \<and>
     map object_is_active (wd_objects w') = map object_is_active (wd_objects w3) \<and>
     rb_pose (wd_robot w') = rb_pose (wd_robot w3) \<and> rb_model (wd_robot w') = rb_model (wd_robot w3) \<and>
     map leaf_key (static_instances bp) = map instance_key (concat (map (static_instance (wd_config w')) (wd_statics w'))) \<and>
     map leaf_key (dynamic_instances bp) = concat (map (current_instance (wd_config w')) (scene_objects w')) @
       [(wd_robot_entity w', Some (rb_model (wd_robot w3)), rb_pose (wd_robot w3))] \<and>
     (\<forall>l\<in>set (static_instances bp @ dynamic_instances bp). instance_for (tl_entity l) (wd_entities w3) = Some l)"

lemma cached_model:
  assumes "scene_cached w' w3 bp" "(e, m, p) \<in> set (map leaf_key (static_instances bp @ dynamic_instances bp))"
  shows "\<exists>l. instance_for e (wd_entities w3) = Some l \<and> tl_model l = m"
proof -
  have "\<forall>l\<in>set (static_instances bp @ dynamic_instances bp). instance_for (tl_entity l) (wd_entities w3) = Some l"
    using assms(1) unfolding scene_cached_def by blast
  with assms(2) show ?thesis by (auto simp only: set_map leaf_key_def prod.inject)
qed

abbreviation robot_box :: "world \<Rightarrow> aabb2" where
  "robot_box w \<equiv> model_bounds (rb_model (wd_robot w)) (rb_pose (wd_robot w))"

lemma static_contacts:
  assumes "scene_cached w' w3 bp" "so \<in> set (wd_statics w')"
  shows "concat (map (key_contacts w3 (robot_box w')) (map instance_key (static_instance (wd_config w') so))) =
    map fst (filter (in_contact (wd_robot w')) (static_obstacle w' so))"
proof (cases "\<exists>m. model_profiles (wd_config w') (si_model_id (so_cfg so)) = Some m \<and> \<not> is_tile m")
  case False
  then show ?thesis by (auto simp: static_instance_def static_obstacle_def split: option.split)
next
  case True
  then obtain m where m: "model_profiles (wd_config w') (si_model_id (so_cfg so)) = Some m" "\<not> is_tile m" by blast
  note c = assms(1)[unfolded scene_cached_def]
  have link: "world_linked w'" using c by blast
  obtain i where i: "i < length (wd_statics w')" "wd_statics w' ! i = so" using assms(2) by (metis in_set_conv_nth)
  obtain n where n: "so_id so = of_nat i" "find_entity (so_id so) (wd_entities w') = Some \<lparr>er_type = StaticEntity, er_index = i, er_name = n\<rparr>"
    using link i unfolding world_linked_def tables_ok_def by metis
  have "so_id so \<in> so_id ` set (wd_statics w')" using assms(2) by simp
  then have ne: "so_id so \<noteq> wd_robot_entity w'" using linked_entities(1)[OF link] by auto
  have inst: "static_instance (wd_config w') so = [\<lparr>bi_name = si_name (so_cfg so), bi_pose = si_pose (so_cfg so), bi_model = Some m,
      bi_static = True, bi_entity = so_id so\<rparr>]" by (simp add: static_instance_def m)
  then have "(so_id so, Some m, si_pose (so_cfg so)) \<in> set (map instance_key (concat (map (static_instance (wd_config w')) (wd_statics w'))))"
    using assms(2) by (force simp: instance_key_def)
  then have "(so_id so, Some m, si_pose (so_cfg so)) \<in> set (map leaf_key (static_instances bp @ dynamic_instances bp))"
    using c by auto
  from cached_model[OF assms(1) this] obtain l where l: "instance_for (so_id so) (wd_entities w3) = Some l" "tl_model l = Some m" by blast
  have cp: "candidate_pose \<lparr>er_type = StaticEntity, er_index = i, er_name = n\<rparr> w3 = Some (si_pose (so_cfg so), None)"
    using i c by (simp add: candidate_pose_def)
  have "map fst (robot_hit w3 (so_id so)) =
     (if intersects (narrow_phase_intersect_check (rb_model (wd_robot w')) (rb_pose (wd_robot w')) m (si_pose (so_cfg so)))
      then [\<lparr>other_name = n, other_pose = si_pose (so_cfg so), other_is_dynamic = False\<rparr>] else [])"
    using robot_hit_eq[OF _ _ l cp] ne n(2) c by simp
  then show ?thesis
    by (simp add: inst instance_key_def key_contacts_def static_obstacle_def m in_contact_def registered_name_def n(2))
qed

lemma dynamic_contacts:
  assumes "scene_cached w' w3 bp" "x \<in> set (scene_objects w')"
  shows "concat (map (key_contacts w3 (robot_box w')) (current_instance (wd_config w') x)) =
    map fst (filter (in_contact (wd_robot w')) (dynamic_obstacle w' x))"
proof (cases "model_profiles (wd_config w') (di_model_id (snd x))")
  case None
  then show ?thesis by (simp add: current_instance_def dynamic_instance_def dynamic_obstacle_def)
next
  case (Some m)
  note c = assms(1)[unfolded scene_cached_def]
  have link: "world_linked w'" using c by blast
  obtain j where j: "j < length (wd_objects w')" "wd_objects w' ! j = fst x"
    using assms(2) by (metis fst_conv in_set_zip scene_objects_def)
  let ?e = "obj_entity (fst x)"
  obtain n where n: "find_entity ?e (wd_entities w') = Some \<lparr>er_type = DynamicEntity, er_index = j, er_name = n\<rparr>"
    using link j unfolding world_linked_def tables_ok_def by metis
  have "?e \<in> obj_entity ` set (wd_objects w')" using j by (metis imageI nth_mem)
  then have ne: "?e \<noteq> wd_robot_entity w'" using linked_entities(1)[OF link] by auto
  have inst: "current_instance (wd_config w') x = [(?e, Some m, DynObject.current_pose (fst x))]"
    by (simp add: current_instance_def dynamic_instance_def Some)
  then have "(?e, Some m, DynObject.current_pose (fst x)) \<in> set (map leaf_key (static_instances bp @ dynamic_instances bp))"
    using c assms(2) by (force simp: map_append)
  from cached_model[OF assms(1) this] obtain l where l: "instance_for ?e (wd_entities w3) = Some l" "tl_model l = Some m" by blast
  have len: "length (wd_objects w3) = length (wd_objects w')" using c by (metis length_map)
  have ob: "DynObject.current_pose (wd_objects w3 ! j) = DynObject.current_pose (fst x)" "object_is_active (wd_objects w3 ! j) = object_is_active (fst x)"
    using c j len by (metis nth_map)+
  show ?thesis
  proof (cases "object_is_active (fst x)")
    case False
    then have "candidate_pose \<lparr>er_type = DynamicEntity, er_index = j, er_name = n\<rparr> w3 = None" using ob(2) by (simp add: candidate_pose_def)
    then have "robot_hit w3 ?e = []" using n c by (intro robot_hit_none) auto
    then show ?thesis using False by (simp add: inst key_contacts_def dynamic_obstacle_def Some)
  next
    case True
    then have cp: "candidate_pose \<lparr>er_type = DynamicEntity, er_index = j, er_name = n\<rparr> w3 = Some (DynObject.current_pose (fst x), Some j)"
      using ob j(1) len by (simp add: candidate_pose_def)
    have "map fst (robot_hit w3 ?e) =
       (if intersects (narrow_phase_intersect_check (rb_model (wd_robot w')) (rb_pose (wd_robot w')) m (DynObject.current_pose (fst x)))
        then [\<lparr>other_name = n, other_pose = DynObject.current_pose (fst x), other_is_dynamic = True\<rparr>] else [])"
      using robot_hit_eq[OF _ _ l cp] ne n c by simp
    then show ?thesis using True
      by (simp add: inst key_contacts_def dynamic_obstacle_def Some in_contact_def registered_name_def n)
  qed
qed

lemma scene_contacts:
  assumes "scene_cached w' w3 bp"
  shows "concat (map (key_contacts w3 (robot_box w')) (map leaf_key (static_instances bp) @ map leaf_key (dynamic_instances bp))) =
    map fst (filter (in_contact (wd_robot w')) (obstacles w'))"
proof -
  have k: "map leaf_key (static_instances bp) = map instance_key (concat (map (static_instance (wd_config w')) (wd_statics w')))"
    "map leaf_key (dynamic_instances bp) = concat (map (current_instance (wd_config w')) (scene_objects w')) @
       [(wd_robot_entity w', Some (rb_model (wd_robot w3)), rb_pose (wd_robot w3))]" "wd_robot_entity w3 = wd_robot_entity w'"
    using assms by (auto simp: scene_cached_def)
  have "robot_hit w3 (wd_robot_entity w') = []" using k(3) by (intro robot_hit_none) simp
  then have rob: "key_contacts w3 (robot_box w') (wd_robot_entity w', m, p) = []" for m p by (simp add: key_contacts_def)
  have s: "concat (map (key_contacts w3 (robot_box w')) (map instance_key (concat (map (static_instance (wd_config w')) (wd_statics w'))))) =
      concat (map (\<lambda>so. map fst (filter (in_contact (wd_robot w')) (static_obstacle w' so))) (wd_statics w'))"
    unfolding map_map concat_concat_map
    by (rule arg_cong[of _ _ concat], rule map_cong[OF refl]) (simp add: static_contacts[OF assms, symmetric])
  have d: "concat (map (key_contacts w3 (robot_box w')) (concat (map (current_instance (wd_config w')) (scene_objects w')))) =
      concat (map (\<lambda>x. map fst (filter (in_contact (wd_robot w')) (dynamic_obstacle w' x))) (scene_objects w'))"
    unfolding concat_concat_map
    by (rule arg_cong[of _ _ concat], rule map_cong[OF refl]) (simp add: dynamic_contacts[OF assms, symmetric])
  show ?thesis unfolding k map_append concat_append s d
    by (simp add: obstacles_def filter_concat map_concat comp_def rob)
qed

text \<open>A part of the robot and a part of the obstacle do not meet: not in height, or a line separates them.\<close>

definition parts_apart :: "model_part \<Rightarrow> pose2 \<Rightarrow> model_part \<Rightarrow> pose2 \<Rightarrow> bool" where
  "parts_apart a pa b pb \<longleftrightarrow>
     \<not> z_ranges_overlap (z_min (part_geom a)) (z_max (part_geom a)) (z_min (part_geom b)) (z_max (part_geom b)) \<or>
     separated (shape_region (base (part_geom a)) (pose_compose pa (rel_pose a))) (shape_region (base (part_geom b)) (pose_compose pb (rel_pose b)))"

lemma boxes_separate:
  assumes "\<not> aabb_intersects B A" "\<And>p. P p \<Longrightarrow> aabb_contains A p" "\<And>p. Q p \<Longrightarrow> aabb_contains B p"
  shows "separated P Q"
proof -
  consider "px (bmax A) < px (bmin B)" | "px (bmax B) < px (bmin A)" | "py (bmax A) < py (bmin B)" | "py (bmax B) < py (bmin A)"
    using assms(1) by (auto simp: aabb_intersects_def)
  then show ?thesis
  proof cases
    case 1
    have "\<forall>p. P p \<longrightarrow> px p \<le> px (bmax A)" "\<forall>q. Q q \<longrightarrow> px (bmax A) \<le> px q"
      using assms(2,3) 1 by (force simp: aabb_contains_def)+
    then show ?thesis unfolding separated_def by (intro exI[of _ "vec 1 0"] exI[of _ "px (bmax A)"]) (simp add: vec_length_sq_def vec_dot_def)
  next
    case 2
    have "\<forall>p. P p \<longrightarrow> - px p \<le> - px (bmin A)" "\<forall>q. Q q \<longrightarrow> - px (bmin A) \<le> - px q"
      using assms(2,3) 2 by (force simp: aabb_contains_def)+
    then show ?thesis unfolding separated_def by (intro exI[of _ "vec (- 1) 0"] exI[of _ "- px (bmin A)"]) (simp add: vec_length_sq_def vec_dot_def)
  next
    case 3
    have "\<forall>p. P p \<longrightarrow> py p \<le> py (bmax A)" "\<forall>q. Q q \<longrightarrow> py (bmax A) \<le> py q"
      using assms(2,3) 3 by (force simp: aabb_contains_def)+
    then show ?thesis unfolding separated_def by (intro exI[of _ "vec 0 1"] exI[of _ "py (bmax A)"]) (simp add: vec_length_sq_def vec_dot_def)
  next
    case 4
    have "\<forall>p. P p \<longrightarrow> - py p \<le> - py (bmin A)" "\<forall>q. Q q \<longrightarrow> - py (bmin A) \<le> - py q"
      using assms(2,3) 4 by (force simp: aabb_contains_def)+
    then show ?thesis unfolding separated_def by (intro exI[of _ "vec 0 (- 1)"] exI[of _ "- py (bmin A)"]) (simp add: vec_length_sq_def vec_dot_def)
  qed
qed

lemma region_in_bounds:
  assumes "model_wf m" "part \<in> set (parts m)" "shape_region (base (part_geom part)) (pose_compose pose (rel_pose part)) q"
  shows "aabb_contains (model_bounds m pose) q"
proof -
  obtain a where a: "shape_covers (base (part_geom part)) a" "q = transform_point (pose_compose pose (rel_pose part)) a"
    using assms(3) by (auto simp: shape_region_def)
  have "shape_wf (base (part_geom part))" using assms(1,2) by (auto simp: model_wf_def part_wf_def)
  from world_bounds_cover_shape[OF this a(1)] have "aabb_contains (part_box pose part) q" by (simp add: part_box_def a(2))
  with compute_bounds_ok[OF assms(1)] assms(2) show ?thesis unfolding model_bounds_eq by (auto intro: contains_box_contains)
qed

lemma narrow_phase_none:
  assumes "\<not> intersects (narrow_phase_intersect_check ma pa mb pb)" "a \<in> set (parts ma)" "b \<in> set (parts mb)"
  shows "\<not> intersects (collide_shapes (part_geom a) (pose_compose pa (rel_pose a)) (part_geom b) (pose_compose pb (rel_pose b)))"
proof -
  let ?c = "\<lambda>a b. collide_shapes (part_geom a) (pose_compose pa (rel_pose a)) (part_geom b) (pose_compose pb (rel_pose b))"
  let ?rs = "concat (map (\<lambda>a. map (?c a) (parts mb)) (parts ma))"
  have "List.find intersects ?rs = None"
    using assms(1) by (auto simp: narrow_phase_intersect_check_def find_Some_iff split: option.splits)
  then have "\<forall>x\<in>set ?rs. \<not> intersects x" by (auto simp only: find_None_iff)
  moreover have "?c a b \<in> set ?rs" using assms(2,3) by auto
  ultimately show ?thesis by blast
qed

text \<open>Without a contact, no part of the robot meets a part of the obstacle.\<close>

lemma no_contact_apart:
  assumes "\<not> in_contact r (c, m)" "model_wf (rb_model r)" "model_wf m" "a \<in> set (parts (rb_model r))" "b \<in> set (parts m)"
    "solid (base (part_geom a))" "solid (base (part_geom b))"
  shows "parts_apart a (rb_pose r) b (other_pose c)"
proof (cases "aabb_intersects (model_bounds m (other_pose c)) (model_bounds (rb_model r) (rb_pose r))")
  case False
  from boxes_separate[OF this region_in_bounds[OF assms(2,4)] region_in_bounds[OF assms(3,5)]] show ?thesis
    by (simp add: parts_apart_def)
next
  case True
  then have "\<not> intersects (narrow_phase_intersect_check (rb_model r) (rb_pose r) m (other_pose c))"
    using assms(1) by (simp add: in_contact_def)
  from narrow_phase_none[OF this assms(4,5)] collide_shapes_cases_sound[OF assms(6,7)] show ?thesis
    by (auto simp: parts_apart_def)
qed

text \<open>The models of the robot and of the obstacles are those of instances, which are well formed.\<close>

lemma scene_models_wf:
  assumes "scene_cached w' w3 bp" "bp_inv bp"
  shows "model_wf (rb_model (wd_robot w'))" "(c, m) \<in> set (obstacles w') \<Longrightarrow> model_wf m"
proof -
  have k: "map leaf_key (static_instances bp) = map instance_key (concat (map (static_instance (wd_config w')) (wd_statics w')))"
    "map leaf_key (dynamic_instances bp) = concat (map (current_instance (wd_config w')) (scene_objects w')) @
       [(wd_robot_entity w', Some (rb_model (wd_robot w3)), rb_pose (wd_robot w3))]" "rb_model (wd_robot w') = rb_model (wd_robot w3)"
    using assms(1) by (auto simp: scene_cached_def)
  have wf: "model_wf m" if k: "(e, Some m, p) \<in> set (map leaf_key (static_instances bp)) \<union> set (map leaf_key (dynamic_instances bp))" for e m p
  proof -
    obtain l where "l \<in> set (static_instances bp) \<union> set (dynamic_instances bp)" "leaf_key l = (e, Some m, p)"
      using k unfolding set_map image_Un[symmetric] by (metis imageE)
    moreover from this(1) have "inst_current l" using assms(2) by (simp add: bp_inv_def)
    ultimately show ?thesis by (auto simp: inst_current_def leaf_key_def)
  qed
  show "model_wf (rb_model (wd_robot w'))" by (rule wf[of "wd_robot_entity w'" _ "rb_pose (wd_robot w3)"]) (simp add: k)
  show "model_wf m" if ob: "(c, m) \<in> set (obstacles w')"
  proof -
    consider (s) so where "so \<in> set (wd_statics w')" "(c, m) \<in> set (static_obstacle w' so)"
      | (d) x where "x \<in> set (scene_objects w')" "(c, m) \<in> set (dynamic_obstacle w' x)"
      using ob by (auto simp: obstacles_def)
    then show ?thesis
    proof cases
      case s
      then have "model_profiles (wd_config w') (si_model_id (so_cfg so)) = Some m \<and> \<not> is_tile m"
        by (auto simp: static_obstacle_def split: option.splits if_splits)
      then have "(so_id so, Some m, si_pose (so_cfg so)) \<in> set (map instance_key (static_instance (wd_config w') so))"
        by (simp add: static_instance_def instance_key_def)
      with s(1) have "(so_id so, Some m, si_pose (so_cfg so)) \<in> set (map leaf_key (static_instances bp))" unfolding k by force
      then show ?thesis using wf by blast
    next
      case d
      then have "model_profiles (wd_config w') (di_model_id (snd x)) = Some m" by (auto simp: dynamic_obstacle_def split: option.splits if_splits)
      then have "(obj_entity (fst x), Some m, DynObject.current_pose (fst x)) \<in> set (current_instance (wd_config w') x)"
        by (simp add: current_instance_def dynamic_instance_def)
      with d(1) have "(obj_entity (fst x), Some m, DynObject.current_pose (fst x)) \<in> set (map leaf_key (dynamic_instances bp))" unfolding k by force
      then show ?thesis using wf by blast
    qed
  qed
qed

text \<open>The outcome of an update for the robot, in terms of the obstacles of the world after it.\<close>

definition contacts_exact :: "world \<Rightarrow> bool" where
  "contacts_exact w \<longleftrightarrow>
     (let hits = filter (in_contact (wd_robot w)) (obstacles w)
      in (is_collided (wd_robot w) \<longleftrightarrow> hits \<noteq> []) \<and>
         (case wd_report w of None \<Rightarrow> hits = []
          | Some rep \<Rightarrow> hits \<noteq> [] \<and> mset (rep_contacts rep) = mset (map fst hits) \<and> rep_timestamp rep = wd_time w))"

definition free_parts_apart :: "world \<Rightarrow> bool" where
  "free_parts_apart w \<longleftrightarrow>
     (\<forall>(c, m) \<in> set (obstacles w). \<not> in_contact (wd_robot w) (c, m) \<longrightarrow>
        (\<forall>a \<in> set (parts (rb_model (wd_robot w))). \<forall>b \<in> set (parts m).
           solid (base (part_geom a)) \<longrightarrow> solid (base (part_geom b)) \<longrightarrow> parts_apart a (rb_pose (wd_robot w)) b (other_pose c)))"

lemma world_update_contacts:
  assumes "world_ok w" "0 < dt"
  shows "\<exists>w'. world_update ei dt w = Some (Inr (), w') \<and> world_ok w' \<and> wd_config w' = wd_config w \<and> wd_map w' = wd_map w \<and>
    wd_weights w' = wd_weights w \<and> wd_route w' = wd_route w \<and> wd_time w' = wd_time w + dt \<and> contacts_exact w' \<and> free_parts_apart w'"
  using assms
proof (rule world_update_ok[where ei = ei])
  fix r bp ids w' w3
  assume u: "world_update ei dt w = Some (Inr (), w')" "world_ok w'"
      "wd_route w' = wd_route w" "wd_config w' = wd_config w" "wd_time w' = wd_time w + dt" "wd_weights w' = wd_weights w" "wd_map w' = wd_map w"
    and k: "wd_statics w' = wd_statics w3" "wd_entities w' = wd_entities w3" "wd_robot w3 = r" "wd_robot_entity w3 = wd_robot_entity w'"
      "map DynObject.current_pose (wd_objects w') = map DynObject.current_pose (wd_objects w3)"
      "map object_is_active (wd_objects w') = map object_is_active (wd_objects w3)"
      "rb_pose (wd_robot w') = rb_pose r" "rb_model (wd_robot w') = rb_model r"
    and hit: "is_collided (wd_robot w') \<longleftrightarrow> hit_list w3 ids \<noteq> []"
      "wd_report w' = (if hit_list w3 ids = [] then None
         else Some \<lparr>rep_timestamp = wd_time w', rep_severity = compute_collision_severity (map fst (hit_list w3 ids)) (map snd (hit_list w3 ids)) (rb_vel r) (rb_pose r),
           rep_contacts = map fst (hit_list w3 ids)\<rparr>)"
    and q: "query_entity_ids (model_bounds (rb_model r) (rb_pose r)) True True bp = Some ids" "bp_inv bp" "bp_synced bp"
    and keys: "map leaf_key (static_instances bp) = map instance_key (concat (map (static_instance (wd_config w')) (wd_statics w')))"
      "map leaf_key (dynamic_instances bp) = concat (map (current_instance (wd_config w')) (scene_objects w')) @ [(wd_robot_entity w', Some (rb_model r), rb_pose r)]"
    and cached: "\<And>l. l \<in> set (static_instances bp @ dynamic_instances bp) \<Longrightarrow> instance_for (tl_entity l) (wd_entities w3) = Some l"
  have sc: "scene_cached w' w3 bp"
    unfolding scene_cached_def using u(2) k keys cached by (simp add: world_ok_def)
  have hits: "mset (map fst (hit_list w3 ids)) = mset (map fst (filter (in_contact (wd_robot w')) (obstacles w')))"
    unfolding hit_list_contacts[OF q(2,3,1), of w3] scene_contacts[OF sc, unfolded k(7,8)] ..
  then have "hit_list w3 ids = [] \<longleftrightarrow> filter (in_contact (wd_robot w')) (obstacles w') = []"
    by (metis Nil_is_map_conv mset_zero_iff)
  with hits hit have "contacts_exact w'" by (simp add: contacts_exact_def Let_def)
  moreover have "free_parts_apart w'"
    using no_contact_apart[of "wd_robot w'"] scene_models_wf[OF sc q(2)] by (fastforce simp: free_parts_apart_def)
  ultimately show ?thesis using u by blast
qed

section \<open>Runs of a world\<close>

text \<open>What a simulator does with a world, in any order; an error leaves the state that the operation returned.\<close>

datatype world_op = Advance real | Request_Action action | Telemetry | Consume_Report | Capture

fun world_do :: "earliest_impl \<Rightarrow> world_op \<Rightarrow> world \<Rightarrow> world option" where
  "world_do ei (Advance dt) w = map_option snd (world_update ei dt w)"
| "world_do ei (Request_Action a) w = Some (snd (apply_action a w))"
| "world_do ei Telemetry w = Some (snd (world_telemetry w))"
| "world_do ei Consume_Report w = Some (snd (consume_collision_report w))"
| "world_do ei Capture w = Some (snd (capture_snapshot w))"

fun world_run :: "earliest_impl \<Rightarrow> world_op list \<Rightarrow> world \<Rightarrow> world option" where
  "world_run ei [] w = Some w"
| "world_run ei (a # as) w = Option.bind (world_do ei a w) (world_run ei as)"

fun forward_op :: "world_op \<Rightarrow> bool" where
  "forward_op (Advance dt) = (0 < dt)"
| "forward_op _ = True"

text \<open>The fields that no operation of a run changes.\<close>

definition same_setting :: "world \<Rightarrow> world \<Rightarrow> bool" where
  "same_setting w w' \<longleftrightarrow> wd_config w' = wd_config w \<and> wd_map w' = wd_map w \<and> wd_weights w' = wd_weights w"

lemma apply_action_ok: "world_ok w \<Longrightarrow> fst (apply_action a w) = Inr () \<and> world_ok (snd (apply_action a w)) \<and> same_setting w (snd (apply_action a w))"
  by (simp add: apply_action_def set_action_def Let_def world_ok_def world_live_def world_linked_def scene_objects_def same_setting_def)

lemma telemetry_ok: "world_ok w \<Longrightarrow> world_ok (snd (world_telemetry w)) \<and> same_setting w (snd (world_telemetry w))"
  by (auto simp: world_telemetry_def advance_route_def Let_def case_prod_beta world_ok_def world_live_def world_linked_def scene_objects_def same_setting_def)

lemma consume_ok: "world_ok w \<Longrightarrow> world_ok (snd (consume_collision_report w)) \<and> same_setting w (snd (consume_collision_report w))"
  by (simp add: consume_collision_report_def world_ok_def world_live_def world_linked_def scene_objects_def same_setting_def)

lemma capture_ok: "world_ok w \<Longrightarrow> world_ok (snd (capture_snapshot w)) \<and> same_setting w (snd (capture_snapshot w))"
  by (simp add: capture_snapshot_def rebuild_world_snapshot_def Let_def world_ok_def world_live_def world_linked_def scene_objects_def same_setting_def)

lemma world_do_ok:
  assumes "world_ok w" "forward_op a" shows "\<exists>w'. world_do ei a w = Some w' \<and> world_ok w' \<and> same_setting w w'"
proof (cases a)
  case (Advance dt)
  then show ?thesis using world_update_contacts[OF assms(1), of dt ei] assms(2) by (auto simp: same_setting_def)
qed (use assms(1) apply_action_ok telemetry_ok consume_ok capture_ok in simp_all)

lemma world_run_ok:
  "world_ok w \<Longrightarrow> \<forall>a\<in>set as. forward_op a \<Longrightarrow> \<exists>w'. world_run ei as w = Some w' \<and> world_ok w' \<and> same_setting w w'"
proof (induction as arbitrary: w)
  case (Cons a as)
  obtain w1 where w1: "world_do ei a w = Some w1" "world_ok w1" "same_setting w w1" using world_do_ok[OF Cons.prems(1)] Cons.prems(2) by fastforce
  with Cons.IH[OF w1(2)] Cons.prems(2) show ?case by (auto simp: same_setting_def)
qed (simp add: same_setting_def)

section \<open>Properties\<close>

text \<open>C3: The collisions of the robot are those with the obstacles of the world: whatever happened to
  the world since its construction, an update returns, the robot is collided if and only if it is in
  contact with some static object that is no tile or some active dynamic object, the report lists
  exactly these contacts, and no part of the robot meets a part of any other obstacle.\<close>

theorem robot_collisions_exact:
  assumes "wp_config p = Some wc" "wp_map p = Some m" "world_config_ok wc" "entity_total wc m < 2 ^ 32"
    "make_world ne p = Some (Inr w0)" "\<forall>a\<in>set as. forward_op a" "0 < dt"
  shows "\<exists>w w'. world_run ei as w0 = Some w \<and> world_update ei dt w = Some (Inr (), w') \<and> contacts_exact w' \<and> free_parts_apart w'"
proof -
  have "world_ok w0" using make_world_ok[OF assms(1-4), of ne] assms(5) by auto
  from world_run_ok[OF this assms(6)] obtain w where w: "world_run ei as w0 = Some w" "world_ok w" by blast
  from world_update_contacts[OF w(2) assms(7)] w(1) show ?thesis by blast
qed

text \<open>A world with one static disc, and a robot that is a disc, with a route of one waypoint.\<close>

definition demo_world_config :: world_config where
  "demo_world_config =
     \<lparr>model_profiles = [''disc'' \<mapsto> unit_disc], dynamic_profiles = Map.empty,
      robot_profiles = [''p'' \<mapsto> \<lparr>rp_name = ''p'', rp_model_id = ''disc'', kinematics = demo_caps, profile_sensors = []\<rparr>],
      world_kind = DeterministicWorld [], collision_categories = [],
      robot_instance = \<lparr>robot_name = ''r'', robot_profile_id = ''p'', action_delay_s = 0\<rparr>\<rparr>"

definition demo_world_map :: map_config where
  "demo_world_map =
     \<lparr>mc_name = ''m'', mc_statics = [\<lparr>si_name = ''pillar'', si_model_id = ''disc'', si_pose = zero_pose\<rparr>],
      mc_routes = [\<lparr>rt_name = ''route'', rt_start = \<lparr>pos = pt 1 0, yaw = 0\<rparr>,
        rt_waypoints = [\<lparr>wp_name = ''goal'', wp_pos = pt 5 0, wp_tolerance = 1 / 2\<rparr>]\<rparr>],
      mc_bounds = \<lparr>bmin = pt (- 10) (- 10), bmax = pt 10 10\<rparr>\<rparr>"

definition demo_world_params :: world_params where
  "demo_world_params =
     \<lparr>wp_config = Some demo_world_config, wp_map = Some demo_world_map, wp_spawn = Some demo_cfg, wp_pool = Some (1, 1),
      wp_weights = None, wp_sim_id = 0, wp_route_tape = sconst 0, wp_spawn_tape = sconst 0, wp_object_tapes = (\<lambda>i. sconst 0),
      wp_sensor_tapes = (\<lambda>i. (sconst 0, sconst 0))\<rparr>"

lemma demo_world_config_ok: "world_config_ok demo_world_config" "entity_total demo_world_config demo_world_map < 2 ^ 32"
  by (auto simp: world_config_ok_def demo_world_config_def demo_world_map_def unit_disc_wf sensor_frames_ok_def entity_total_def split: if_splits)

lemma add_all_total:
  "\<forall>i\<in>set is. bi_model i \<noteq> None \<Longrightarrow> \<exists>bp'. add_all ne is bp = Inr bp'"
proof (induction "is" arbitrary: bp)
  case (Cons i "is")
  obtain m where m: "bi_model i = Some m" using Cons.prems by auto
  have "fst (add_instance ne i bp) = Inr ()"
    by (simp add: add_instance_def init_instance_info_def m Let_def case_prod_beta)
  then obtain bp1 where "add_instance ne i bp = (Inr (), bp1)" by (cases "add_instance ne i bp") simp
  with Cons show ?case by simp
qed simp

lemma demo_world_made_with:
  assumes "wp_config p = Some demo_world_config" "wp_map p = Some demo_world_map" "wp_pool p \<noteq> None" "wp_spawn p \<noteq> None"
  shows "\<exists>w. make_world ne p = Some (Inr w)"
proof -
  have bp: "\<exists>bp. make_broad_phase ne is [] = Inr bp" if "\<forall>i\<in>set is. bi_model i \<noteq> None" for "is"
    using add_all_total[OF that, of ne empty_bp] by (auto simp: make_broad_phase_def build_collision_masks_def filter_names_def)
  have route: "\<exists>rs r. select_route demo_world_map False (wp_route_tape p) = Inr (rs, r)"
    by (simp add: select_route_def demo_world_map_def)
  have fin: "\<exists>w. finish_world ne p demo_world_config demo_world_map prof model b rs = Inr w" for prof model b rs
  proof -
    have "\<forall>i\<in>set (scene_instances demo_world_config (snd (take_id b)) @ [\<lparr>bi_name = robot_name (robot_instance demo_world_config),
        bi_pose = active_route_start_pose rs, bi_model = Some model, bi_static = False, bi_entity = fst (take_id b)\<rparr>]). bi_model i \<noteq> None"
      by (auto simp: scene_instances_def static_instance_def dynamic_instance_def split: option.splits if_splits) (metis)+
    from bp[OF this] obtain bp0 where "make_broad_phase ne (scene_instances demo_world_config (snd (take_id b)) @ [\<lparr>bi_name = robot_name (robot_instance demo_world_config),
        bi_pose = active_route_start_pose rs, bi_model = Some model, bi_static = False, bi_entity = fst (take_id b)\<rparr>]) [] = Inr bp0" by blast
    moreover have "collision_categories demo_world_config = []" by (simp add: demo_world_config_def)
    moreover obtain sc where "wp_spawn p = Some sc" using assms(4) by auto
    ultimately show ?thesis
      unfolding finish_world_def Let_def case_prod_beta by (simp add: make_robot_def make_spawn_manager_def)
  qed
  obtain rs r where rs: "select_route demo_world_map False (wp_route_tape p) = Inr (rs, r)" using route by blast
  have pop: "populate demo_world_config demo_world_map p b = Some (Inr (b, rs))" for b
    using rs by (simp add: populate_def demo_world_config_def)
  have "\<exists>prof model. robot_profiles demo_world_config (robot_profile_id (robot_instance demo_world_config)) = Some prof \<and>
      model_profiles demo_world_config (rp_model_id prof) = Some model"
    by (simp add: demo_world_config_def)
  then obtain prof model where pm: "robot_profiles demo_world_config (robot_profile_id (robot_instance demo_world_config)) = Some prof"
      "model_profiles demo_world_config (rp_model_id prof) = Some model" by blast
  obtain pool sc where p: "wp_pool p = Some pool" "wp_spawn p = Some sc" using assms(3,4) by auto
  show ?thesis unfolding make_world_def p assms(1,2) using fin by (simp add: Let_def pm pop)
qed

lemma demo_world_made: "\<exists>w. make_world ne demo_world_params = Some (Inr w)"
  by (rule demo_world_made_with) (simp_all add: demo_world_params_def)


theorem robot_collisions_exact_witness:
  "\<exists>w0 w w'. make_world nth_by_sort demo_world_params = Some (Inr w0) \<and>
     world_run earliest_first [Advance (1 / 10), Telemetry, Consume_Report] w0 = Some w \<and>
     world_update earliest_first (1 / 10) w = Some (Inr (), w') \<and> contacts_exact w' \<and> free_parts_apart w'"
proof -
  obtain w0 where w0: "make_world nth_by_sort demo_world_params = Some (Inr w0)" using demo_world_made by blast
  have "wp_config demo_world_params = Some demo_world_config" "wp_map demo_world_params = Some demo_world_map"
    by (simp_all add: demo_world_params_def)
  from robot_collisions_exact[OF this demo_world_config_ok w0, of "[Advance (1 / 10), Telemetry, Consume_Report]" "1 / 10" earliest_first] w0
  show ?thesis by auto
qed

section \<open>The route\<close>

text \<open>What the calls for the telemetry return in a run, in order.\<close>

fun telemetries :: "earliest_impl \<Rightarrow> world_op list \<Rightarrow> world \<Rightarrow> reward_telemetry list" where
  "telemetries ei [] w = []"
| "telemetries ei (a # as) w =
     (if a = Telemetry then [fst (world_telemetry w)] else []) @
     (case world_do ei a w of None \<Rightarrow> [] | Some w' \<Rightarrow> telemetries ei as w')"

text \<open>The waypoints of the route that lie behind the robot.\<close>

definition passed :: "route_state \<Rightarrow> nat" where
  "passed rs = active_waypoint_index rs + (if final_goal rs then 1 else 0)"

lemma telemetry_route:
  assumes "world_ok w"
  defines "tm \<equiv> fst (world_telemetry w)" and "w' \<equiv> snd (world_telemetry w)"
  shows "passed (wd_route w') = passed (wd_route w) + (if waypoint_reached tm then 1 else 0)"
    "final_goal_reached tm = final_goal (wd_route w')" "final_goal (wd_route w) \<Longrightarrow> final_goal (wd_route w')"
    "active_route (wd_route w') = active_route (wd_route w)"
  using assms(1) by (auto simp: tm_def w'_def world_telemetry_def advance_route_def Let_def case_prod_beta passed_def world_ok_def)

lemma world_do_route:
  "world_ok w \<Longrightarrow> forward_op a \<Longrightarrow> a \<noteq> Telemetry \<Longrightarrow> world_do ei a w = Some w' \<Longrightarrow> wd_route w' = wd_route w"
  using world_update_contacts[of w _ ei]
  by (cases a) (auto simp: apply_action_def consume_collision_report_def capture_snapshot_def rebuild_world_snapshot_def case_prod_beta Let_def, force)

lemma run_route:
  "world_ok w \<Longrightarrow> \<forall>a\<in>set as. forward_op a \<Longrightarrow> world_run ei as w = Some w' \<Longrightarrow>
   passed (wd_route w') = passed (wd_route w) + length (filter waypoint_reached (telemetries ei as w)) \<and>
   sorted_wrt (\<longrightarrow>) (map final_goal_reached (telemetries ei as w)) \<and>
   (final_goal (wd_route w) \<longrightarrow> (\<forall>tm\<in>set (telemetries ei as w). final_goal_reached tm)) \<and>
   active_route (wd_route w') = active_route (wd_route w)"
proof (induction as arbitrary: w)
  case (Cons a as)
  obtain w1 where w1: "world_do ei a w = Some w1" "world_ok w1" using world_do_ok[OF Cons.prems(1)] Cons.prems(2) by fastforce
  have IH: "passed (wd_route w') = passed (wd_route w1) + length (filter waypoint_reached (telemetries ei as w1))"
    "sorted_wrt (\<longrightarrow>) (map final_goal_reached (telemetries ei as w1))"
    "final_goal (wd_route w1) \<longrightarrow> (\<forall>tm\<in>set (telemetries ei as w1). final_goal_reached tm)"
    "active_route (wd_route w') = active_route (wd_route w1)"
    using Cons.IH[OF w1(2)] Cons.prems(2,3) w1(1) by auto
  show ?case
  proof (cases "a = Telemetry")
    case True
    then have "w1 = snd (world_telemetry w)" using w1(1) by simp
    with IH telemetry_route[OF Cons.prems(1)] True w1(1) show ?thesis by auto
  next
    case False
    have "wd_route w1 = wd_route w" using world_do_route[OF Cons.prems(1) _ False w1(1)] Cons.prems(2) by simp
    with IH False w1(1) show ?thesis by simp
  qed
qed simp

text \<open>C13: The route of a world: in every run the waypoints are passed one by one, each reported as
  reached once; the index stays in the route, the goal is the last waypoint, and it is reached when
  the number of reports equals the number of waypoints; from then on every telemetry says so.\<close>

theorem route_in_order:
  assumes "wp_config p = Some wc" "wp_map p = Some m" "world_config_ok wc" "entity_total wc m < 2 ^ 32"
    "make_world ne p = Some (Inr w0)" "\<forall>a\<in>set as. forward_op a"
  shows "\<exists>w. world_run ei as w0 = Some w \<and> active_route (wd_route w) = active_route (wd_route w0) \<and>
    active_waypoint_index (wd_route w) < length (active_route (wd_route w)) \<and>
    length (filter waypoint_reached (telemetries ei as w0)) = active_waypoint_index (wd_route w) + (if final_goal (wd_route w) then 1 else 0) \<and>
    (final_goal (wd_route w) \<longleftrightarrow> length (filter waypoint_reached (telemetries ei as w0)) = length (active_route (wd_route w))) \<and>
    sorted_wrt (\<longrightarrow>) (map final_goal_reached (telemetries ei as w0))"
proof -
  have w0: "world_ok w0" "passed (wd_route w0) = 0" using make_world_ok[OF assms(1-4), of ne] assms(5) by (auto simp: passed_def)
  obtain w where w: "world_run ei as w0 = Some w" "world_ok w" using world_run_ok[OF w0(1) assms(6)] by blast
  have "active_waypoint_index (wd_route w) < length (active_route (wd_route w))"
    "final_goal (wd_route w) \<longrightarrow> active_waypoint_index (wd_route w) + 1 = length (active_route (wd_route w))"
    using w(2) by (auto simp: world_ok_def)
  with run_route[OF w0(1) assms(6) w(1)] w0(2) w(1) show ?thesis by (cases "final_goal (wd_route w)") (auto simp: passed_def)
qed

theorem route_in_order_witness:
  "\<exists>w0 w. make_world nth_by_sort demo_world_params = Some (Inr w0) \<and>
     world_run earliest_first [Telemetry, Advance (1 / 10), Telemetry] w0 = Some w \<and>
     active_waypoint_index (wd_route w) < length (active_route (wd_route w)) \<and>
     length (telemetries earliest_first [Telemetry, Advance (1 / 10), Telemetry] w0) = 2"
proof -
  let ?as = "[Telemetry, Advance (1 / 10), Telemetry]"
  obtain w0 where w0: "make_world nth_by_sort demo_world_params = Some (Inr w0)" using demo_world_made by blast
  have p: "wp_config demo_world_params = Some demo_world_config" "wp_map demo_world_params = Some demo_world_map"
    by (simp_all add: demo_world_params_def)
  obtain w where w: "world_run earliest_first ?as w0 = Some w" "active_waypoint_index (wd_route w) < length (active_route (wd_route w))"
    using route_in_order[OF p demo_world_config_ok w0, of ?as earliest_first] by auto
  then have "length (telemetries earliest_first ?as w0) = 2"
    by (auto simp: bind_eq_Some_conv split: option.splits)
  with w0 w show ?thesis by blast
qed

end
