(* ===== verification/MapManager.thy ===== *)
theory MapManager
  imports World
begin

text \<open>
  The map manager, \<^verbatim>\<open>sim/map_manager.cpp\<close>: it parses the maps of a directory, adds to each a
  static instance of four walls around its bounds and hands the maps out by name or at random. The
  file system and the parser are parameters: the directory is what listing and parsing its \<^verbatim>\<open>.yaml\<close>
  files gives, the file stem and the result for each. The names and the material of the wall parts are
  left out.
\<close>

datatype map_directory = NoDirectory | InvalidDirectory | Directory "(string \<times> (error + map_config)) list"

record map_manager =
  mm_models :: "string \<Rightarrow> model_profile option"
  available_map_names :: "string list"
  directory_maps :: "string \<Rightarrow> map_config option"

section \<open>The walls\<close>

definition wall_thickness :: real where "wall_thickness = 2"

definition wall :: "real \<Rightarrow> real \<Rightarrow> real \<Rightarrow> real \<Rightarrow> model_part" where
  "wall hx hy x y = \<lparr>part_geom = \<lparr>base = Box2 hx hy, z_min = 0, z_max = 10\<rparr>, rel_pose = \<lparr>pos = pt x y, yaw = 0\<rparr>\<rparr>"

definition bounds_walls :: "aabb2 \<Rightarrow> model_part list" where
  "bounds_walls b =
     (let cx = (px (bmin b) + px (bmax b)) / 2; cy = (py (bmin b) + py (bmax b)) / 2;
          hx = (px (bmax b) - px (bmin b)) / 2; hy = (py (bmax b) - py (bmin b)) / 2;
          ht = wall_thickness / 2
      in [wall ht (hy + wall_thickness) (px (bmin b) - ht) cy, wall ht (hy + wall_thickness) (px (bmax b) + ht) cy,
          wall (hx + wall_thickness) ht cx (py (bmin b) - ht), wall (hx + wall_thickness) ht cx (py (bmax b) + ht)])"

definition bounds_model_id :: "string \<Rightarrow> string" where
  "bounds_model_id stem = stem @ ''_bounds_model''"

text \<open>\<^verbatim>\<open>emplace\<close> keeps an entry that is already there.\<close>

definition emplace :: "string \<Rightarrow> 'a \<Rightarrow> (string \<Rightarrow> 'a option) \<Rightarrow> string \<Rightarrow> 'a option" where
  "emplace k v m = (case m k of None \<Rightarrow> m(k \<mapsto> v) | Some _ \<Rightarrow> m)"

definition enrich_map_bounds :: "map_config \<Rightarrow> string \<Rightarrow> map_manager \<Rightarrow> map_config \<times> map_manager" where
  "enrich_map_bounds m stem mm =
     (m\<lparr>mc_statics := mc_statics m @
          [\<lparr>si_name = stem @ ''_bounds'', si_model_id = bounds_model_id stem, si_pose = \<lparr>pos = pt 0 0, yaw = 0\<rparr>\<rparr>]\<rparr>,
      mm\<lparr>mm_models := emplace (bounds_model_id stem)
           \<lparr>profile_name = bounds_model_id stem, parts = bounds_walls (mc_bounds m)\<rparr> (mm_models mm)\<rparr>)"

section \<open>Construction\<close>

definition add_map_file :: "string \<times> (error + map_config) \<Rightarrow> map_manager \<Rightarrow> map_manager" where
  "add_map_file f mm0 =
     (case snd f of
        Inl e \<Rightarrow> mm0
      | Inr parsed \<Rightarrow>
          let (m, mm) = enrich_map_bounds parsed (fst f) mm0
          in mm\<lparr>available_map_names := available_map_names mm @ [mc_name m],
                directory_maps := emplace (mc_name m) m (directory_maps mm)\<rparr>)"

text \<open>The world configuration is optional as the parser is: without them the constructor throws.\<close>

definition make_map_manager :: "bool \<Rightarrow> (string \<Rightarrow> model_profile option) option \<Rightarrow> map_directory \<Rightarrow> string + map_manager" where
  "make_map_manager has_parser models dir =
     (if \<not> has_parser then Inl ''MapManager requires a valid ConfigParser''
      else case models of
        None \<Rightarrow> Inl ''MapManager requires a valid WorldConfig''
      | Some ms \<Rightarrow>
          (let mm0 = \<lparr>mm_models = ms, available_map_names = [], directory_maps = Map.empty\<rparr>
           in case dir of
                NoDirectory \<Rightarrow> Inr mm0
              | InvalidDirectory \<Rightarrow> Inr mm0
              | Directory files \<Rightarrow>
                  (let mm = fold add_map_file files mm0
                   in if available_map_names mm = [] then Inl ''No valid map files found in directory'' else Inr mm)))"

section \<open>Selection\<close>

definition get_map_by_name :: "string \<Rightarrow> map_manager \<Rightarrow> map_config option" where
  "get_map_by_name name mm = (if name \<noteq> [] then directory_maps mm name else None)"

text \<open>
  The table is empty exactly when the list of names is; the second, identical test of the code is
  never reached with maps present.
\<close>

definition get_map_random :: "rng \<Rightarrow> map_manager \<Rightarrow> map_config option \<times> rng" where
  "get_map_random r0 mm =
     (if available_map_names mm \<noteq> []
      then let (i, r) = draw_index (length (available_map_names mm)) r0 in (directory_maps mm (available_map_names mm ! i), r)
      else (None, r0))"

section \<open>The invariant\<close>

text \<open>The walls of a map in a table of models: a static instance at the origin whose model they are.\<close>

definition walled :: "(string \<Rightarrow> model_profile option) \<Rightarrow> map_config \<Rightarrow> bool" where
  "walled models m \<longleftrightarrow>
     (\<exists>c model. c \<in> set (mc_statics m) \<and> si_pose c = \<lparr>pos = pt 0 0, yaw = 0\<rparr> \<and> models (si_model_id c) = Some model \<and>
        parts model = bounds_walls (mc_bounds m))"

definition mm_inv :: "string set \<Rightarrow> map_manager \<Rightarrow> bool" where
  "mm_inv stems mm \<longleftrightarrow>
     (\<forall>n m. directory_maps mm n = Some m \<longrightarrow> mc_name m = n \<and> walled (mm_models mm) m) \<and>
     (\<forall>n \<in> set (available_map_names mm). directory_maps mm n \<noteq> None) \<and>
     dom (directory_maps mm) = set (available_map_names mm) \<and>
     (\<forall>stem. stem \<notin> stems \<longrightarrow> mm_models mm (bounds_model_id stem) = None)"

lemma bounds_model_id_inj: "bounds_model_id a = bounds_model_id b \<longleftrightarrow> a = b"
  by (simp add: bounds_model_id_def)

lemma walled_mono: "walled ms m \<Longrightarrow> (\<And>i x. ms i = Some x \<Longrightarrow> ms' i = Some x) \<Longrightarrow> walled ms' m"
  unfolding walled_def by blast

lemma add_map_inv:
  assumes "mm_inv stems mm" "fst f \<notin> stems"
  shows "mm_inv (insert (fst f) stems) (add_map_file f mm)"
proof (cases "snd f")
  case (Inl e)
  then show ?thesis using assms(1) by (auto simp: mm_inv_def add_map_file_def)
next
  case (Inr parsed)
  let ?id = "bounds_model_id (fst f)" and ?w = "\<lparr>profile_name = bounds_model_id (fst f), parts = bounds_walls (mc_bounds parsed)\<rparr>"
  let ?m = "parsed\<lparr>mc_statics := mc_statics parsed @ [\<lparr>si_name = fst f @ ''_bounds'', si_model_id = ?id, si_pose = \<lparr>pos = pt 0 0, yaw = 0\<rparr>\<rparr>]\<rparr>"
  let ?ms = "(mm_models mm)(?id \<mapsto> ?w)"
  have new: "mm_models mm ?id = None" using assms by (simp add: mm_inv_def)
  then have eq: "add_map_file f mm = mm\<lparr>mm_models := ?ms, available_map_names := available_map_names mm @ [mc_name parsed],
      directory_maps := emplace (mc_name parsed) ?m (directory_maps mm)\<rparr>"
    using Inr by (simp add: add_map_file_def enrich_map_bounds_def emplace_def[of ?id])
  have w: "walled ?ms ?m" by (auto simp: walled_def intro!: exI)
  have old: "walled (mm_models mm) m \<Longrightarrow> walled ?ms m" for m
    using new by (auto elim!: walled_mono)
  show ?thesis unfolding eq using assms(1) w old
    by (auto simp: mm_inv_def emplace_def bounds_model_id_inj dom_def split: option.splits if_splits)
qed

lemma add_maps_inv:
  "mm_inv stems mm \<Longrightarrow> distinct (map fst fs) \<Longrightarrow> set (map fst fs) \<inter> stems = {} \<Longrightarrow>
   mm_inv (set (map fst fs) \<union> stems) (fold add_map_file fs mm)"
proof (induction fs arbitrary: mm stems)
  case (Cons f fs)
  from Cons.IH[OF add_map_inv[OF Cons.prems(1), of f]] Cons.prems(2,3) show ?case by (auto simp: Un_commute)
qed simp

text \<open>A point at the height of the walls meets one of them exactly in the ring around the bounds.\<close>

lemma wall_covers:
  "shape_covers (base (part_geom (wall hx hy x y))) a \<and> w = transform_point zero_pose (transform_point (rel_pose (wall hx hy x y)) a)
   \<longleftrightarrow> (a = pt (px w - x) (py w - y) \<and> \<bar>px w - x\<bar> \<le> hx \<and> \<bar>py w - y\<bar> \<le> hy)"
  by (cases w; cases a) (auto simp: wall_def transform_point_def zero_pose_def)

text \<open>The ring: the bounds widened by the thickness, less what lies strictly inside the bounds.\<close>

definition in_wall_ring :: "aabb2 \<Rightarrow> point2 \<Rightarrow> bool" where
  "in_wall_ring b w \<longleftrightarrow>
     px (bmin b) - wall_thickness \<le> px w \<and> px w \<le> px (bmax b) + wall_thickness \<and>
     py (bmin b) - wall_thickness \<le> py w \<and> py w \<le> py (bmax b) + wall_thickness \<and>
     \<not> (px (bmin b) < px w \<and> px w < px (bmax b) \<and> py (bmin b) < py w \<and> py w < py (bmax b))"

definition part_covers :: "pose2 \<Rightarrow> model_part \<Rightarrow> point2 \<Rightarrow> bool" where
  "part_covers pose part w \<longleftrightarrow>
     (\<exists>a. shape_covers (base (part_geom part)) a \<and> w = transform_point pose (transform_point (rel_pose part) a))"

lemma wall_covers_iff: "part_covers zero_pose (wall hx hy x y) w \<longleftrightarrow> \<bar>px w - x\<bar> \<le> hx \<and> \<bar>py w - y\<bar> \<le> hy"
  unfolding part_covers_def wall_covers by simp

lemma mid_abs: "\<bar>x - (a + b) / 2\<bar> \<le> (b - a) / 2 + c \<longleftrightarrow> a - c \<le> x \<and> x \<le> b + (c::real)"
  by (auto simp: abs_le_iff field_simps)

lemma bounds_walls_ring:
  assumes "aabb_valid b"
  shows "(\<exists>part \<in> set (bounds_walls b). part_covers zero_pose part w) \<longleftrightarrow> in_wall_ring b w"
proof -
  have side: "\<bar>x - (a - 1)\<bar> \<le> 1 \<longleftrightarrow> a - 2 \<le> x \<and> x \<le> a" "\<bar>x - (a + 1)\<bar> \<le> 1 \<longleftrightarrow> a \<le> x \<and> x \<le> a + 2" for x a :: real
    by (auto simp: abs_le_iff)
  have v: "px (bmin b) \<le> px (bmax b)" "py (bmin b) \<le> py (bmax b)" using assms by (auto simp: aabb_valid_def)
  have eq: "(\<exists>part \<in> set (bounds_walls b). part_covers zero_pose part w) \<longleftrightarrow>
    (px (bmin b) - 2 \<le> px w \<and> px w \<le> px (bmin b) \<and> py (bmin b) - 2 \<le> py w \<and> py w \<le> py (bmax b) + 2) \<or>
    (px (bmax b) \<le> px w \<and> px w \<le> px (bmax b) + 2 \<and> py (bmin b) - 2 \<le> py w \<and> py w \<le> py (bmax b) + 2) \<or>
    (px (bmin b) - 2 \<le> px w \<and> px w \<le> px (bmax b) + 2 \<and> py (bmin b) - 2 \<le> py w \<and> py w \<le> py (bmin b)) \<or>
    (px (bmin b) - 2 \<le> px w \<and> px w \<le> px (bmax b) + 2 \<and> py (bmax b) \<le> py w \<and> py w \<le> py (bmax b) + 2)"
    by (simp add: bounds_walls_def Let_def wall_covers_iff wall_thickness_def mid_abs side)
  show ?thesis unfolding eq in_wall_ring_def wall_thickness_def using v by argo
qed

section \<open>Properties\<close>

lemma make_map_manager_inv:
  assumes "make_map_manager True (Some ms) (Directory fs) = Inr mm" "distinct (map fst fs)"
    "\<forall>stem. ms (bounds_model_id stem) = None"
  shows "mm_inv (set (map fst fs)) mm"
proof -
  let ?mm0 = "\<lparr>mm_models = ms, available_map_names = [], directory_maps = Map.empty\<rparr>"
  have "mm_inv {} ?mm0" using assms(3) by (simp add: mm_inv_def)
  from add_maps_inv[OF this assms(2)] assms(1) show ?thesis
    by (auto simp: make_map_manager_def Let_def split: if_splits)
qed

text \<open>C40: Every map that the manager hands out has the name asked for and a static instance whose model
  covers exactly the ring of two metres around the bounds of the map.\<close>

theorem map_walls_enclose:
  assumes "make_map_manager True (Some ms) (Directory files) = Inr mm" "distinct (map fst files)"
    "\<forall>stem. ms (bounds_model_id stem) = None" "get_map_by_name name mm = Some m"
  shows "mc_name m = name \<and> name \<in> set (available_map_names mm) \<and>
    (\<exists>c model. c \<in> set (mc_statics m) \<and> mm_models mm (si_model_id c) = Some model \<and>
       (aabb_valid (mc_bounds m) \<longrightarrow>
          (\<forall>w. (\<exists>part \<in> set (parts model). part_covers (si_pose c) part w) \<longleftrightarrow> in_wall_ring (mc_bounds m) w)))"
proof -
  have inv: "mm_inv (set (map fst files)) mm" by (rule make_map_manager_inv[OF assms(1-3)])
  have m: "directory_maps mm name = Some m" using assms(4) by (simp add: get_map_by_name_def split: if_splits)
  then have "mc_name m = name" "walled (mm_models mm) m" "name \<in> set (available_map_names mm)"
    using inv by (auto simp: mm_inv_def)
  moreover from this obtain c model where "c \<in> set (mc_statics m)" "si_pose c = zero_pose" "mm_models mm (si_model_id c) = Some model"
    "parts model = bounds_walls (mc_bounds m)" by (auto simp: walled_def zero_pose_def)
  ultimately show ?thesis using bounds_walls_ring by (intro conjI exI[of _ c] exI[of _ model]) simp_all
qed

definition demo_square :: map_config where
  "demo_square = \<lparr>mc_name = ''square'', mc_statics = [], mc_routes = [], mc_bounds = \<lparr>bmin = pt 0 0, bmax = pt 10 10\<rparr>\<rparr>"

text \<open>A parse error is skipped; the map of the other file gets its walls.\<close>

theorem map_walls_enclose_witness:
  "\<exists>mm m. make_map_manager True (Some Map.empty) (Directory [(''bad'', Inl (make_error CONFIG ''bad file'' ''parse_map_config'')), (''a'', Inr demo_square)]) = Inr mm \<and>
     get_map_by_name ''square'' mm = Some m \<and>
     (\<exists>c model. c \<in> set (mc_statics m) \<and> mm_models mm (si_model_id c) = Some model \<and>
        (\<exists>part \<in> set (parts model). part_covers (si_pose c) part (pt (- 1) 5)) \<and>
        \<not> (\<exists>part \<in> set (parts model). part_covers (si_pose c) part (pt 5 5)))"
proof -
  let ?fs = "[(''bad'', Inl (make_error CONFIG ''bad file'' ''parse_map_config'')), (''a'', Inr demo_square)]"
  obtain mm m where mm: "make_map_manager True (Some Map.empty) (Directory ?fs) = Inr mm" "get_map_by_name ''square'' mm = Some m"
    "mc_bounds m = mc_bounds demo_square"
    by (simp add: make_map_manager_def add_map_file_def enrich_map_bounds_def emplace_def get_map_by_name_def demo_square_def)
  have "aabb_valid (mc_bounds m)" by (simp add: mm(3) demo_square_def aabb_valid_def)
  moreover have "in_wall_ring (mc_bounds m) (pt (- 1) 5)" "\<not> in_wall_ring (mc_bounds m) (pt 5 5)"
    by (simp_all add: mm(3) demo_square_def in_wall_ring_def wall_thickness_def)
  ultimately show ?thesis using map_walls_enclose[OF mm(1) _ _ mm(2)] mm(1,2) by (simp (no_asm_use)) blast
qed

end
