(* ===== verification/Reward.thy ===== *)
theory Reward
  imports RL
begin

text \<open>
  The reward of \<^verbatim>\<open>core/rl/reward.hpp\<close> with \<^verbatim>\<open>rl/reward.cpp\<close>: the interface
  \<^verbatim>\<open>RewardFunction\<close> as a locale, and \<^verbatim>\<open>DefaultRewardFunction\<close> block by block.
  A distance beyond every obstacle is \<open>None\<close>; the sample count of a window is an unbounded
  integer.
\<close>

section \<open>Terms\<close>

definition add_term :: "string \<Rightarrow> real \<Rightarrow> real \<Rightarrow> reward_step_result \<Rightarrow> reward_step_result" where
  "add_term n a b r =
     (let t = (case terms r n of None \<Rightarrow> \<lparr>raw = 0, weighted = 0\<rparr> | Some t \<Rightarrow> t)
      in r\<lparr>terms := (terms r)(n \<mapsto> \<lparr>raw = raw t + a, weighted = weighted t + b\<rparr>),
           total := total r + b\<rparr>)"

definition ema_update :: "real \<Rightarrow> real \<Rightarrow> real \<Rightarrow> real \<Rightarrow> real" where
  "ema_update safe_dt prev_value sample tau_s =
     (let tau = max tau_s safe_dt; alpha = 1 - exp (- safe_dt / tau)
      in prev_value + alpha * (sample - prev_value))"

definition safe_dt_of :: "real \<Rightarrow> real" where
  "safe_dt_of dt = max dt (1 / 1000000)"

text \<open>The deque of a window: one sample is pushed, and one dropped when there are too many.\<close>

definition push_hist :: "int \<Rightarrow> 'a \<Rightarrow> 'a list \<Rightarrow> 'a list" where
  "push_hist max_samples x h =
     (let h1 = h @ [x] in if int (length h1) > max_samples then tl h1 else h1)"

definition window_samples :: "real \<Rightarrow> real \<Rightarrow> int" where
  "window_samples window_s safe_dt = max 2 \<lceil>window_s / safe_dt\<rceil>"

section \<open>The default reward\<close>

record default_reward =
  weights :: reward_weights
  has_prev_requested_reverse :: bool
  prev_requested_reverse :: bool
  reverse_penalty_ema :: real
  steer_persistence_ema :: real
  stall_ema :: real
  stall_terminal :: bool
  goal_dist_hist :: "real list"
  motion_pos_hist :: "point2 list"
  last_waypoint_index :: "nat option"

definition make_default_reward :: "reward_weights \<Rightarrow> default_reward" where
  "make_default_reward w = \<lparr>weights = w, has_prev_requested_reverse = False,
     prev_requested_reverse = False, reverse_penalty_ema = 0, steer_persistence_ema = 0, stall_ema = 0,
     stall_terminal = False, goal_dist_hist = [], motion_pos_hist = [], last_waypoint_index = None\<rparr>"

definition default_reset :: "default_reward \<Rightarrow> default_reward" where
  "default_reset f = f\<lparr>has_prev_requested_reverse := False, prev_requested_reverse := False,
     reverse_penalty_ema := 0, goal_dist_hist := [], motion_pos_hist := [], last_waypoint_index := None,
     steer_persistence_ema := 0, stall_ema := 0, stall_terminal := False\<rparr>"

definition default_should_terminate :: "default_reward \<Rightarrow> bool" where
  "default_should_terminate f = stall_terminal f"

text \<open>The blocks of \<^verbatim>\<open>compute\<close>, in the order of the code.\<close>

definition enter_waypoint :: "reward_telemetry \<Rightarrow> default_reward \<Rightarrow> default_reward" where
  "enter_waypoint tm f =
     (if last_waypoint_index f \<noteq> Some (waypoint_index tm)
      then f\<lparr>goal_dist_hist := [], motion_pos_hist := [], reverse_penalty_ema := 0,
             steer_persistence_ema := 0, stall_ema := 0, stall_terminal := False,
             last_waypoint_index := Some (waypoint_index tm)\<rparr>
      else f)"

definition clearance_gate :: "reward_weights \<Rightarrow> real option \<Rightarrow> real" where
  "clearance_gate w clearance =
     (let clearance_min_m = max 0 (clearance_gate_dist_min_m w);
          clearance_max_m = max (clearance_min_m + 1 / 1000000) (clearance_gate_dist_max_m w)
      in case clearance of
           Some c \<Rightarrow> clamp ((c - clearance_min_m) / (clearance_max_m - clearance_min_m)) 0 1
         | None \<Rightarrow> 1)"

definition push_windows :: "real \<Rightarrow> reward_telemetry \<Rightarrow> default_reward \<Rightarrow> default_reward" where
  "push_windows dt tm f =
     (let safe_dt = safe_dt_of dt;
          max_samples = window_samples (max (stall_window_s (weights f)) safe_dt) safe_dt
      in f\<lparr>goal_dist_hist := push_hist max_samples (distance_to_waypoint tm) (goal_dist_hist f),
           motion_pos_hist := push_hist max_samples (pos (tel_pose tm)) (motion_pos_hist f)\<rparr>)"

definition net_progress_rate :: "real \<Rightarrow> default_reward \<Rightarrow> real" where
  "net_progress_rate window_s f =
     (if length (goal_dist_hist f) \<ge> 2 then hd (goal_dist_hist f) - last (goal_dist_hist f) else 0)
       / window_s"

definition net_motion_rate :: "real \<Rightarrow> default_reward \<Rightarrow> real" where
  "net_motion_rate window_s f =
     (if length (motion_pos_hist f) \<ge> 2
      then distance (last (motion_pos_hist f)) (hd (motion_pos_hist f)) else 0) / window_s"

definition time_block :: "real \<Rightarrow> reward_telemetry \<Rightarrow> default_reward \<Rightarrow> reward_step_result \<Rightarrow> reward_step_result" where
  "time_block dt tm f r =
     (let r1 = add_term ''time_penalty'' dt (time_penalty (weights f) * dt) r
      in if time_limit_reached tm
         then add_term ''time_limit_penalty'' 1 (time_limit_penalty (weights f)) r1 else r1)"

definition progress_raw :: "real \<Rightarrow> real \<Rightarrow> default_reward \<Rightarrow> real" where
  "progress_raw dt rate f =
     (let w = weights f; eps = max 0 (progress_gate_epsilon_m_s w);
          gated_rate = (if rate > eps then rate else if rate < - eps then rate else 0);
          denom = max (1 / 1000000) (progress_norm_speed_m_s w);
          v_norm = clamp (gated_rate / denom) (- 1) 1;
          steer_gate_min = clamp (progress_steer_gate_min w) 0 1;
          steer_gate_power = max (progress_steer_gate_power w) (1 / 1000000);
          steer_gate_shape = clamp \<bar>steer_persistence_ema f\<bar> 0 1 powr steer_gate_power;
          progress_steer_gate = 1 - (1 - steer_gate_min) * steer_gate_shape
      in v_norm * progress_steer_gate * dt)"

definition progress_block :: "real \<Rightarrow> real \<Rightarrow> default_reward \<Rightarrow> reward_step_result \<Rightarrow> reward_step_result" where
  "progress_block dt rate f r =
     add_term ''progress'' (progress_raw dt rate f) (w_progress (weights f) * progress_raw dt rate f) r"

definition effort_raw :: "real \<Rightarrow> reward_telemetry \<Rightarrow> default_reward \<Rightarrow> real" where
  "effort_raw dt tm f =
     (let v = linear (tel_velocity tm); speed_m_s = vec_length v;
          goal_dist = distance_to_waypoint tm;
          to_goal = point_sub (waypoint_position tm) (pos (tel_pose tm));
          v_toward_inst = (if goal_dist > 1 / 1000000 \<and> speed_m_s > 1 / 1000000
                           then vec_dot v (vec_scale to_goal (1 / goal_dist)) else 0);
          v_toward_pos = clamp v_toward_inst 0 speed_m_s;
          lateral_m_s = max 0 (speed_m_s - v_toward_pos);
          denom = max (1 / 1000000) (progress_norm_speed_m_s (weights f));
          lateral_norm = clamp (lateral_m_s / denom) 0 1
      in lateral_norm * dt)"

definition effort_block :: "real \<Rightarrow> reward_telemetry \<Rightarrow> default_reward \<Rightarrow> reward_step_result \<Rightarrow> reward_step_result" where
  "effort_block dt tm f r =
     add_term ''effort_penalty'' (effort_raw dt tm f) (effort_penalty (weights f) * effort_raw dt tm f) r"

definition steer_ema_block :: "real \<Rightarrow> real \<Rightarrow> reward_telemetry \<Rightarrow> default_reward \<Rightarrow> default_reward" where
  "steer_ema_block dt gate tm f =
     (let denom = max (1 / 1000000) (steer_norm_abs (weights f));
          steer_signed_norm = clamp (cmd_steer (tel_command tm) / denom) (- 1) 1 * gate
      in f\<lparr>steer_persistence_ema := ema_update (safe_dt_of dt) (steer_persistence_ema f) steer_signed_norm
             (steer_penalty_tau_s (weights f))\<rparr>)"

definition steer_block :: "real \<Rightarrow> default_reward \<Rightarrow> reward_step_result \<Rightarrow> reward_step_result" where
  "steer_block dt f r =
     (let steer_raw = \<bar>steer_persistence_ema f\<bar> * dt
      in add_term ''steer_penalty'' steer_raw (steer_penalty (weights f) * steer_raw) r)"

definition heading_block :: "real \<Rightarrow> reward_telemetry \<Rightarrow> default_reward \<Rightarrow> reward_step_result \<Rightarrow> reward_step_result" where
  "heading_block dt tm f r =
     (let heading_error = normalize_angle (heading_to_waypoint tm - yaw (tel_pose tm));
          heading_raw = max 0 (cos heading_error) * dt
      in add_term ''heading_to_goal'' heading_raw (heading_to_goal_reward (weights f) * heading_raw) r)"

definition proximity_block :: "real \<Rightarrow> real \<Rightarrow> default_reward \<Rightarrow> reward_step_result \<Rightarrow> reward_step_result" where
  "proximity_block dt gate f r =
     (let proximity_signal = 1 - gate; proximity_raw = proximity_signal * dt
      in add_term ''proximity'' proximity_raw (proximity_reward (weights f) * proximity_raw) r)"

definition collision_block :: "real \<Rightarrow> collision_severity \<Rightarrow> bool \<Rightarrow> default_reward \<Rightarrow> reward_step_result \<Rightarrow> reward_step_result" where
  "collision_block dt sev collision_active f r =
     (if collision_active
      then let score = clamp (sev_score sev) 0 1; collision_raw = score * dt
           in add_term ''collision'' collision_raw (collision_penalty_scale (weights f) * collision_raw) r
      else r)"

definition reverse_ema_block :: "real \<Rightarrow> real \<Rightarrow> reward_telemetry \<Rightarrow> default_reward \<Rightarrow> default_reward" where
  "reverse_ema_block dt gate tm f =
     (let reverse_sample = (if requested_reverse_gear tm then 1 else 0) * gate
      in f\<lparr>reverse_penalty_ema := ema_update (safe_dt_of dt) (reverse_penalty_ema f) reverse_sample
             (reverse_penalty_tau_s (weights f))\<rparr>)"

definition reverse_block :: "real \<Rightarrow> default_reward \<Rightarrow> reward_step_result \<Rightarrow> reward_step_result" where
  "reverse_block dt f r =
     (let reverse_raw = reverse_penalty_ema f * dt
      in add_term ''reverse_penalty'' reverse_raw (reverse_penalty (weights f) * reverse_raw) r)"

definition gear_block :: "reward_telemetry \<Rightarrow> default_reward \<Rightarrow> reward_step_result \<Rightarrow> reward_step_result" where
  "gear_block tm f r =
     (if has_prev_requested_reverse f \<and> requested_reverse_gear tm \<noteq> prev_requested_reverse f
      then add_term ''gear_switch_penalty'' 1 (gear_switch_penalty (weights f)) r else r)"

definition remember_gear :: "reward_telemetry \<Rightarrow> default_reward \<Rightarrow> default_reward" where
  "remember_gear tm f = f\<lparr>prev_requested_reverse := requested_reverse_gear tm,
     has_prev_requested_reverse := True\<rparr>"

definition stall_ema_block :: "real \<Rightarrow> real \<Rightarrow> real \<Rightarrow> default_reward \<Rightarrow> default_reward" where
  "stall_ema_block dt gate motion_rate f =
     (let progress_eps = max (stall_progress_epsilon (weights f)) (1 / 1000000);
          stall_sample = clamp ((progress_eps - motion_rate) / progress_eps) 0 1 * gate
      in f\<lparr>stall_ema := ema_update (safe_dt_of dt) (stall_ema f) stall_sample (stall_tau_s (weights f))\<rparr>)"

definition stall_fires :: "default_reward \<Rightarrow> bool" where
  "stall_fires f \<longleftrightarrow> \<not> stall_terminal f \<and> stall_limit (weights f) > 0 \<and> stall_ema f \<ge> stall_limit (weights f)"

definition stall_block :: "real \<Rightarrow> default_reward \<Rightarrow> reward_step_result \<Rightarrow> reward_step_result" where
  "stall_block dt f r =
     (let stall_raw = stall_ema f * dt;
          r1 = add_term ''stall_penalty'' stall_raw (stall_penalty_scale (weights f) * stall_raw) r
      in if stall_fires f
         then add_term ''stall_terminal_penalty'' 1 (stall_terminal_penalty (weights f)) r1 else r1)"

definition stall_flag_block :: "default_reward \<Rightarrow> default_reward" where
  "stall_flag_block f = (if stall_fires f then f\<lparr>stall_terminal := True\<rparr> else f)"

definition goal_block :: "reward_telemetry \<Rightarrow> default_reward \<Rightarrow> reward_step_result \<Rightarrow> reward_step_result" where
  "goal_block tm f r =
     (let r1 = (if waypoint_reached tm \<and> \<not> final_goal_reached tm
                then add_term ''waypoint_bonus'' 1 (waypoint_reached_bonus (weights f)) r else r)
      in if final_goal_reached tm
         then add_term ''goal_bonus'' 1 (goal_reached_bonus (weights f)) r1 else r1)"

definition default_compute :: "reward_telemetry \<Rightarrow> real \<Rightarrow> collision_severity \<Rightarrow> bool \<Rightarrow> default_reward
    \<Rightarrow> default_reward \<times> reward_step_result" where
  "default_compute tm dt sev collision_active f0 =
     (let f1 = push_windows dt tm (enter_waypoint tm f0);
          gate = clearance_gate (weights f1) (forward_clearance_m tm);
          window_s = max (stall_window_s (weights f1)) (safe_dt_of dt);
          r1 = time_block dt tm f1 empty_result;
          r2 = progress_block dt (net_progress_rate window_s f1) f1 r1;
          r3 = effort_block dt tm f1 r2;
          f2 = steer_ema_block dt gate tm f1;
          r4 = proximity_block dt gate f2 (heading_block dt tm f2 (steer_block dt f2 r3));
          r5 = collision_block dt sev collision_active f2 r4;
          f3 = reverse_ema_block dt gate tm f2;
          r6 = gear_block tm f3 (reverse_block dt f3 r5);
          f4 = stall_ema_block dt gate (net_motion_rate window_s f1) (remember_gear tm f3);
          r7 = stall_block dt f4 r6;
          f5 = stall_flag_block f4
      in (f5, goal_block tm f5 r7))"

section \<open>Laws of the terms\<close>

text \<open>The total of a result is the sum of its weighted terms.\<close>

definition total_is_sum :: "reward_step_result \<Rightarrow> bool" where
  "total_is_sum r \<longleftrightarrow> finite (dom (terms r)) \<and> total r = (\<Sum>n\<in>dom (terms r). weighted (the (terms r n)))"

lemma empty_total_is_sum [inv_intros]: "total_is_sum empty_result"
  by (simp add: total_is_sum_def empty_result_def)

lemma add_term_total_is_sum [inv_intros]:
  assumes "total_is_sum r" shows "total_is_sum (add_term n a b r)"
proof -
  have fin: "finite (dom (terms r))" and tot: "total r = (\<Sum>m\<in>dom (terms r). weighted (the (terms r m)))"
    using assms by (auto simp: total_is_sum_def)
  have ext: "terms (add_term n a b r) m = terms r m" if "m \<noteq> n" for m
    using that by (simp add: add_term_def Let_def)
  have same: "(\<Sum>m\<in>dom (terms r) - {n}. weighted (the (terms (add_term n a b r) m)))
      = (\<Sum>m\<in>dom (terms r) - {n}. weighted (the (terms r m)))"
    by (rule sum.cong) (auto simp: ext)
  have d: "dom (terms (add_term n a b r)) = insert n (dom (terms r) - {n})"
    by (auto simp: add_term_def Let_def split: if_splits)
  have "(\<Sum>m\<in>dom (terms (add_term n a b r)). weighted (the (terms (add_term n a b r) m)))
      = weighted (the (terms (add_term n a b r) n)) + (\<Sum>m\<in>dom (terms r) - {n}. weighted (the (terms r m)))"
    unfolding d by (subst sum.insert) (use fin same in auto)
  also have "\<dots> = total r + b"
  proof (cases "terms r n")
    case None
    then have "dom (terms r) - {n} = dom (terms r)" by auto
    with None tot show ?thesis by (simp add: add_term_def Let_def)
  next
    case (Some t)
    then have "total r = weighted t + (\<Sum>m\<in>dom (terms r) - {n}. weighted (the (terms r m)))"
      using fin unfolding tot by (subst sum.remove[of _ n]) auto
    with Some show ?thesis by (simp add: add_term_def Let_def)
  qed
  finally show ?thesis using fin d by (simp add: total_is_sum_def add_term_def Let_def)
qed

lemma add_term_fresh:
  "terms r n = None \<Longrightarrow> terms (add_term n a b r) = (terms r)(n \<mapsto> \<lparr>raw = a, weighted = b\<rparr>)"
  by (simp add: add_term_def Let_def)

lemma add_term_other [simp]: "m \<noteq> n \<Longrightarrow> terms (add_term n a b r) m = terms r m"
  by (simp add: add_term_def Let_def)

lemma add_term_present [simp]: "terms (add_term n a b r) n \<noteq> None"
  by (simp add: add_term_def Let_def)

section \<open>Exponential averages\<close>

lemma ema_alpha:
  assumes "0 < s" shows "0 < 1 - exp (- s / max tau s)" "1 - exp (- s / max tau s) \<le> (1::real)"
proof -
  have "0 < s / max tau s" using assms by (simp add: less_max_iff_disj)
  then show "0 < 1 - exp (- s / max tau s)" by simp
qed simp

lemma safe_dt_pos: "0 < safe_dt_of dt"
  by (simp add: safe_dt_of_def less_max_iff_disj)

text \<open>The average lies between its old value and the sample.\<close>

lemma ema_update_between:
  assumes "0 < s" "lo \<le> p" "p \<le> hi" "lo \<le> x" "x \<le> hi"
  shows "lo \<le> ema_update s p x tau \<and> ema_update s p x tau \<le> hi"
proof -
  define a where "a = 1 - exp (- s / max tau s)"
  have a: "0 \<le> a" "a \<le> 1" using ema_alpha[OF assms(1), of tau] by (auto simp: a_def)
  have e: "ema_update s p x tau = (1 - a) * p + a * x"
    by (simp add: ema_update_def Let_def a_def algebra_simps)
  have "(1 - a) * lo \<le> (1 - a) * p" "a * lo \<le> a * x" "(1 - a) * p \<le> (1 - a) * hi" "a * x \<le> a * hi"
    using a assms by (auto intro: mult_left_mono)
  then show ?thesis unfolding e by (auto simp: algebra_simps)
qed

lemma clearance_gate_unit: "0 \<le> clearance_gate w c \<and> clearance_gate w c \<le> 1"
  using clamp_bounds[of 0 1] by (simp add: clearance_gate_def Let_def split: option.split)

section \<open>The interface\<close>

type_synonym reward_input = "reward_telemetry \<times> real \<times> collision_severity \<times> bool"

text \<open>An episode: the results of \<^verbatim>\<open>compute\<close> on a sequence of inputs.\<close>

fun reward_run :: "(reward_telemetry \<Rightarrow> real \<Rightarrow> collision_severity \<Rightarrow> bool \<Rightarrow> 'f \<Rightarrow> 'f \<times> reward_step_result)
    \<Rightarrow> reward_input list \<Rightarrow> 'f \<Rightarrow> 'f \<times> reward_step_result list" where
  "reward_run compute [] f = (f, [])"
| "reward_run compute ((tm, dt, sev, hit) # is) f =
     (let (f1, r) = compute tm dt sev hit f; (f2, rs) = reward_run compute is f1 in (f2, r # rs))"

definition term_sum :: "reward_step_result \<Rightarrow> real" where
  "term_sum r = (\<Sum>n\<in>dom (terms r). weighted (the (terms r n)))"

locale reward_function =
  fixes compute :: "reward_telemetry \<Rightarrow> real \<Rightarrow> collision_severity \<Rightarrow> bool \<Rightarrow> 'f \<Rightarrow> 'f \<times> reward_step_result"
    and reset :: "'f \<Rightarrow> 'f"
    and terminate :: "'f \<Rightarrow> bool"
  assumes compute_total: "total_is_sum (snd (compute tm dt sev hit f))"
    and reset_compute: "reset (fst (compute tm dt sev hit f)) = reset f"
    and reset_reset: "reset (reset f) = reset f"
    and reset_continues: "\<not> terminate (reset f)"
begin

lemma reset_run: "reset (fst (reward_run compute is f)) = reset f"
proof (induction "is" arbitrary: f)
  case (Cons i "is")
  obtain tm dt sev hit where i: "i = (tm, dt, sev, hit)" by (cases i)
  show ?case using Cons[of "fst (compute tm dt sev hit f)"]
    by (simp add: i case_prod_beta Let_def reset_compute)
qed simp

lemma run_after_reset: "reward_run compute is (reset (fst (reward_run compute js f))) = reward_run compute is (reset f)"
  by (simp add: reset_run)

lemma run_totals: "list_all total_is_sum (snd (reward_run compute is f))"
proof (induction "is" arbitrary: f)
  case (Cons i "is")
  obtain tm dt sev hit where i: "i = (tm, dt, sev, hit)" by (cases i)
  show ?case using Cons[of "fst (compute tm dt sev hit f)"]
    by (simp add: i case_prod_beta Let_def compute_total)
qed simp

lemma run_return: "sum_list (map total (snd (reward_run compute is f))) = sum_list (map term_sum (snd (reward_run compute is f)))"
  by (rule arg_cong[where f = sum_list], rule map_cong[OF refl])
    (use run_totals[of "is" f] in \<open>auto simp: list_all_iff total_is_sum_def term_sum_def\<close>)

end

lemma default_blocks_total [inv_intros]:
  assumes "total_is_sum r"
  shows "total_is_sum (time_block dt tm f r)" "total_is_sum (progress_block dt rate f r)"
    "total_is_sum (effort_block dt tm f r)" "total_is_sum (steer_block dt f r)"
    "total_is_sum (heading_block dt tm f r)" "total_is_sum (proximity_block dt gate f r)"
    "total_is_sum (collision_block dt sev hit f r)" "total_is_sum (reverse_block dt f r)"
    "total_is_sum (gear_block tm f r)" "total_is_sum (stall_block dt f r)" "total_is_sum (goal_block tm f r)"
  using assms
  by (simp_all add: time_block_def progress_block_def effort_block_def steer_block_def heading_block_def
      proximity_block_def collision_block_def reverse_block_def gear_block_def stall_block_def goal_block_def
      Let_def add_term_total_is_sum)

lemma default_compute_total: "total_is_sum (snd (default_compute tm dt sev hit f))"
  unfolding default_compute_def Let_def snd_conv by (intro inv_intros)

text \<open>The state blocks, and the fields each of them leaves alone.\<close>

lemmas default_state_defs = enter_waypoint_def push_windows_def steer_ema_block_def reverse_ema_block_def
  remember_gear_def stall_ema_block_def stall_flag_block_def Let_def

lemma blocks_weights [simp]:
  "weights (enter_waypoint tm f) = weights f" "weights (push_windows dt tm f) = weights f"
  "weights (steer_ema_block dt g tm f) = weights f" "weights (reverse_ema_block dt g tm f) = weights f"
  "weights (remember_gear tm f) = weights f" "weights (stall_ema_block dt g m f) = weights f"
  "weights (stall_flag_block f) = weights f"
  by (simp_all add: default_state_defs)

definition state_after :: "reward_telemetry \<Rightarrow> real \<Rightarrow> default_reward \<Rightarrow> default_reward" where
  "state_after tm dt f =
     (let f1 = push_windows dt tm (enter_waypoint tm f);
          gate = clearance_gate (weights f) (forward_clearance_m tm);
          window_s = max (stall_window_s (weights f)) (safe_dt_of dt)
      in stall_ema_block dt gate (net_motion_rate window_s f1)
           (remember_gear tm (reverse_ema_block dt gate tm (steer_ema_block dt gate tm f1))))"

lemma default_compute_state:
  "fst (default_compute tm dt sev hit f) = stall_flag_block (state_after tm dt f)"
  by (simp only: default_compute_def state_after_def Let_def fst_conv blocks_weights)

lemma default_compute_weights [simp]: "weights (fst (default_compute tm dt sev hit f)) = weights f"
  by (simp add: default_compute_state state_after_def Let_def)

lemma default_reset_eq: "default_reset f = make_default_reward (weights f)"
  by (simp add: default_reset_def make_default_reward_def)

interpretation default_fn: reward_function default_compute default_reset default_should_terminate
proof unfold_locales
  fix tm dt sev hit f
  show "total_is_sum (snd (default_compute tm dt sev hit f))" by (rule default_compute_total)
  show "default_reset (fst (default_compute tm dt sev hit f)) = default_reset f"
    by (simp add: default_reset_eq)
  show "default_reset (default_reset f) = default_reset f" by (simp add: default_reset_def)
  show "\<not> default_should_terminate (default_reset f)"
    by (simp add: default_reset_def default_should_terminate_def)
qed

section \<open>The averages stay in range\<close>

definition default_inv :: "default_reward \<Rightarrow> bool" where
  "default_inv f \<longleftrightarrow> 0 \<le> reverse_penalty_ema f \<and> reverse_penalty_ema f \<le> 1 \<and>
     - 1 \<le> steer_persistence_ema f \<and> steer_persistence_ema f \<le> 1 \<and>
     0 \<le> stall_ema f \<and> stall_ema f \<le> 1 \<and>
     length (goal_dist_hist f) = length (motion_pos_hist f)"

lemma gated_sample: "lo \<le> x \<Longrightarrow> x \<le> hi \<Longrightarrow> lo \<le> 0 \<Longrightarrow> 0 \<le> hi \<Longrightarrow> 0 \<le> g \<Longrightarrow> g \<le> (1::real)
    \<Longrightarrow> lo \<le> x * g \<and> x * g \<le> hi"
proof -
  assume h: "lo \<le> x" "x \<le> hi" "lo \<le> 0" "0 \<le> hi" "0 \<le> g" "g \<le> 1"
  have "lo * g \<le> x * g" "x * g \<le> hi * g" using h by (auto intro: mult_right_mono)
  moreover have "lo * 1 \<le> lo * g" using h(6,3) by (rule mult_left_mono_neg)
  moreover have "hi * g \<le> hi * 1" using h(6,4) by (rule mult_left_mono)
  ultimately show ?thesis by linarith
qed

lemmas ema_ge = ema_update_between[THEN conjunct1] and ema_le = ema_update_between[THEN conjunct2]

lemma default_inv_blocks [inv_intros]:
  "default_inv (make_default_reward w)"
  "default_inv f \<Longrightarrow> default_inv (enter_waypoint tm f)"
  "default_inv f \<Longrightarrow> default_inv (push_windows dt tm f)"
  "default_inv f \<Longrightarrow> 0 \<le> g \<Longrightarrow> g \<le> 1 \<Longrightarrow> default_inv (steer_ema_block dt g tm f)"
  "default_inv f \<Longrightarrow> 0 \<le> g \<Longrightarrow> g \<le> 1 \<Longrightarrow> default_inv (reverse_ema_block dt g tm f)"
  "default_inv f \<Longrightarrow> 0 \<le> g \<Longrightarrow> g \<le> 1 \<Longrightarrow> default_inv (stall_ema_block dt g m f)"
  "default_inv f \<Longrightarrow> default_inv (remember_gear tm f)"
  "default_inv f \<Longrightarrow> default_inv (stall_flag_block f)"
proof -
  show "default_inv (make_default_reward w)" by (simp add: default_inv_def make_default_reward_def)
next
  assume inv: "default_inv f"
  then show "default_inv (enter_waypoint tm f)" "default_inv (remember_gear tm f)"
    "default_inv (stall_flag_block f)" "default_inv (push_windows dt tm f)"
    by (simp_all add: default_inv_def default_state_defs push_hist_def)
  assume g: "0 \<le> g" "g \<le> 1"
  have "- 1 \<le> clamp x (- 1) 1 * g \<and> clamp x (- 1) 1 * g \<le> 1" for x
    using clamp_bounds[of "- 1" 1 x] g by (intro gated_sample) auto
  then show "default_inv (steer_ema_block dt g tm f)"
    using inv safe_dt_pos[of dt] unfolding default_inv_def steer_ema_block_def Let_def
    by (auto intro!: ema_ge[where hi = 1] ema_le[where lo = "- 1"] simp del: minus_mult_right)
  have "0 \<le> (if requested_reverse_gear tm then 1 else 0) * g \<and> (if requested_reverse_gear tm then 1 else 0) * g \<le> 1"
    using g by simp
  then show "default_inv (reverse_ema_block dt g tm f)"
    using inv safe_dt_pos[of dt] unfolding default_inv_def reverse_ema_block_def Let_def
    by (auto intro!: ema_ge[where hi = 1] ema_le[where lo = 0] simp del: minus_mult_right)
  have "0 \<le> clamp x 0 1 * g \<and> clamp x 0 1 * g \<le> 1" for x
    using clamp_bounds[of 0 1 x] g by (intro gated_sample) auto
  then show "default_inv (stall_ema_block dt g m f)"
    using inv safe_dt_pos[of dt] unfolding default_inv_def stall_ema_block_def Let_def
    by (auto intro!: ema_ge[where hi = 1] ema_le[where lo = 0] simp del: minus_mult_right)
qed

lemma default_compute_inv:
  assumes "default_inv f" shows "default_inv (fst (default_compute tm dt sev hit f))"
  unfolding default_compute_state state_after_def Let_def
  by (intro inv_intros assms conjunct1[OF clearance_gate_unit] conjunct2[OF clearance_gate_unit])

lemma default_run_inv: "default_inv f \<Longrightarrow> default_inv (fst (reward_run default_compute is f))"
proof (induction "is" arbitrary: f)
  case (Cons i "is")
  obtain tm dt sev hit where i: "i = (tm, dt, sev, hit)" by (cases i)
  show ?case using Cons.IH[OF default_compute_inv[OF Cons.prems]] by (simp add: i case_prod_beta Let_def)
qed simp

lemma default_run_weights: "weights (fst (reward_run default_compute is f)) = weights f"
proof (induction "is" arbitrary: f)
  case (Cons i "is")
  obtain tm dt sev hit where i: "i = (tm, dt, sev, hit)" by (cases i)
  show ?case by (simp add: i case_prod_beta Let_def Cons)
qed simp

section \<open>What each term is\<close>

text \<open>The terms per second, the terms of events, and the weight of each.\<close>

definition rate_terms :: "reward_weights \<Rightarrow> (string \<times> real) list" where
  "rate_terms w = [(''time_penalty'', time_penalty w), (''progress'', w_progress w),
     (''effort_penalty'', effort_penalty w), (''steer_penalty'', steer_penalty w),
     (''heading_to_goal'', heading_to_goal_reward w), (''proximity'', proximity_reward w),
     (''collision'', collision_penalty_scale w), (''reverse_penalty'', reverse_penalty w),
     (''stall_penalty'', stall_penalty_scale w)]"

definition event_terms :: "reward_weights \<Rightarrow> (string \<times> real) list" where
  "event_terms w = [(''time_limit_penalty'', time_limit_penalty w), (''gear_switch_penalty'', gear_switch_penalty w),
     (''stall_terminal_penalty'', stall_terminal_penalty w), (''waypoint_bonus'', waypoint_reached_bonus w),
     (''goal_bonus'', goal_reached_bonus w)]"

definition term_ok :: "real \<Rightarrow> reward_weights \<Rightarrow> string \<Rightarrow> reward_term_value \<Rightarrow> bool" where
  "term_ok dt w n t \<longleftrightarrow>
     (case map_of (rate_terms w) n of
        Some c \<Rightarrow> \<bar>raw t\<bar> \<le> dt \<and> weighted t = c * raw t
      | None \<Rightarrow> map_of (event_terms w) n = Some (weighted t) \<and> raw t = 1)"

definition terms_ok :: "real \<Rightarrow> reward_weights \<Rightarrow> string list \<Rightarrow> reward_step_result \<Rightarrow> bool" where
  "terms_ok dt w used r \<longleftrightarrow> (\<forall>n t. terms r n = Some t \<longrightarrow> n \<in> set used \<and> term_ok dt w n t)"

lemma terms_ok_add:
  assumes "terms_ok dt w used r" "n \<notin> set used" "term_ok dt w n \<lparr>raw = a, weighted = b\<rparr>"
  shows "terms_ok dt w (n # used) (add_term n a b r)"
proof -
  have "terms r n = None" using assms(1,2) by (cases "terms r n") (auto simp: terms_ok_def)
  then show ?thesis using assms by (auto simp: terms_ok_def add_term_fresh split: if_splits)
qed

lemma terms_ok_skip: "terms_ok dt w used r \<Longrightarrow> terms_ok dt w (n # used) r"
  by (auto simp: terms_ok_def)

lemma term_ok_rate:
  "map_of (rate_terms w) n = Some c \<Longrightarrow> \<bar>a\<bar> \<le> dt \<Longrightarrow> term_ok dt w n \<lparr>raw = a, weighted = c * a\<rparr>"
  by (simp add: term_ok_def)

lemma term_ok_event:
  "map_of (rate_terms w) n = None \<Longrightarrow> map_of (event_terms w) n = Some c \<Longrightarrow> term_ok dt w n \<lparr>raw = 1, weighted = c\<rparr>"
  by (simp add: term_ok_def)

lemma unit_rate: "\<bar>x\<bar> \<le> 1 \<Longrightarrow> 0 \<le> dt \<Longrightarrow> \<bar>x * dt\<bar> \<le> (dt::real)"
  by (simp add: abs_mult mult_left_le_one_le)

lemma progress_raw_bound:
  assumes "0 \<le> dt" shows "\<bar>progress_raw dt rate f\<bar> \<le> dt"
proof -
  define p where "p = max (progress_steer_gate_power (weights f)) (1 / 1000000)"
  define s where "s = clamp \<bar>steer_persistence_ema f\<bar> 0 1 powr p"
  define m where "m = clamp (progress_steer_gate_min (weights f)) 0 1"
  have m: "0 \<le> m" "m \<le> 1" using clamp_bounds[of 0 1] by (auto simp: m_def)
  have "0 < p" by (simp add: p_def less_max_iff_disj)
  then have s: "0 \<le> s" "s \<le> 1"
    using clamp_bounds[of 0 1 "\<bar>steer_persistence_ema f\<bar>"] by (auto simp: s_def intro: powr_le1)
  have "0 \<le> (1 - m) * s" "(1 - m) * s \<le> 1" using m s by (auto intro: mult_le_one)
  then have g: "0 \<le> 1 - (1 - m) * s" "1 - (1 - m) * s \<le> 1" by auto
  have "\<bar>clamp x (- 1) 1 * (1 - (1 - m) * s)\<bar> \<le> 1" for x
    using gated_sample[of "- 1" "clamp x (- 1) 1" 1] clamp_bounds[of "- 1" 1 x] g by fastforce
  then show ?thesis using assms by (simp add: progress_raw_def Let_def unit_rate m_def s_def p_def)
qed

lemma effort_raw_bound: "0 \<le> dt \<Longrightarrow> \<bar>effort_raw dt tm f\<bar> \<le> dt"
proof -
  assume dt: "0 \<le> dt"
  have "\<bar>clamp x 0 1\<bar> \<le> 1" for x using clamp_bounds[of 0 1 x] by auto
  then show ?thesis using dt by (simp add: effort_raw_def Let_def unit_rate)
qed

lemma default_blocks_ok:
  assumes "terms_ok dt (weights f) used r" "0 \<le> dt"
  shows "''time_penalty'' \<notin> set used \<Longrightarrow> ''time_limit_penalty'' \<notin> set used \<Longrightarrow>
      terms_ok dt (weights f) (''time_limit_penalty'' # ''time_penalty'' # used) (time_block dt tm f r)"
    and "''progress'' \<notin> set used \<Longrightarrow> terms_ok dt (weights f) (''progress'' # used) (progress_block dt rate f r)"
    and "''effort_penalty'' \<notin> set used \<Longrightarrow> terms_ok dt (weights f) (''effort_penalty'' # used) (effort_block dt tm f r)"
    and "''heading_to_goal'' \<notin> set used \<Longrightarrow> terms_ok dt (weights f) (''heading_to_goal'' # used) (heading_block dt tm f r)"
    and "''collision'' \<notin> set used \<Longrightarrow> terms_ok dt (weights f) (''collision'' # used) (collision_block dt sev hit f r)"
    and "''gear_switch_penalty'' \<notin> set used \<Longrightarrow> terms_ok dt (weights f) (''gear_switch_penalty'' # used) (gear_block tm f r)"
    and "''waypoint_bonus'' \<notin> set used \<Longrightarrow> ''goal_bonus'' \<notin> set used \<Longrightarrow>
      terms_ok dt (weights f) (''goal_bonus'' # ''waypoint_bonus'' # used) (goal_block tm f r)"
proof -
  show "terms_ok dt (weights f) (''time_limit_penalty'' # ''time_penalty'' # used) (time_block dt tm f r)"
    if "''time_penalty'' \<notin> set used" "''time_limit_penalty'' \<notin> set used"
  proof -
    have "terms_ok dt (weights f) (''time_penalty'' # used) (add_term ''time_penalty'' dt (time_penalty (weights f) * dt) r)"
      using that assms by (intro terms_ok_add term_ok_rate) (auto simp: rate_terms_def)
    then show ?thesis unfolding time_block_def Let_def using that
      by (cases "time_limit_reached tm")
        (simp_all add: terms_ok_add terms_ok_skip term_ok_event rate_terms_def event_terms_def)
  qed
  show "terms_ok dt (weights f) (''progress'' # used) (progress_block dt rate f r)" if "''progress'' \<notin> set used"
    unfolding progress_block_def using that assms
    by (auto intro!: terms_ok_add term_ok_rate progress_raw_bound simp: rate_terms_def)
  show "terms_ok dt (weights f) (''effort_penalty'' # used) (effort_block dt tm f r)" if "''effort_penalty'' \<notin> set used"
    unfolding effort_block_def using that assms
    by (auto intro!: terms_ok_add term_ok_rate effort_raw_bound simp: rate_terms_def)
  have "\<bar>max 0 (cos x)\<bar> \<le> 1" for x :: real by simp
  then show "terms_ok dt (weights f) (''heading_to_goal'' # used) (heading_block dt tm f r)" if "''heading_to_goal'' \<notin> set used"
    unfolding heading_block_def Let_def using that assms
    by (intro terms_ok_add term_ok_rate unit_rate) (auto simp: rate_terms_def)
  have "\<bar>clamp x 0 1\<bar> \<le> 1" for x using clamp_bounds[of 0 1 x] by auto
  then show "terms_ok dt (weights f) (''collision'' # used) (collision_block dt sev hit f r)" if "''collision'' \<notin> set used"
    unfolding collision_block_def Let_def using that assms
    by (cases hit) (simp_all add: terms_ok_add terms_ok_skip term_ok_rate unit_rate rate_terms_def)
  show "terms_ok dt (weights f) (''gear_switch_penalty'' # used) (gear_block tm f r)" if "''gear_switch_penalty'' \<notin> set used"
    unfolding gear_block_def using that assms
    by (simp add: terms_ok_add terms_ok_skip term_ok_event rate_terms_def event_terms_def)
  show "terms_ok dt (weights f) (''goal_bonus'' # ''waypoint_bonus'' # used) (goal_block tm f r)"
    if "''waypoint_bonus'' \<notin> set used" "''goal_bonus'' \<notin> set used"
    unfolding goal_block_def Let_def using that assms
    by (cases "final_goal_reached tm"; cases "waypoint_reached tm")
      (simp_all add: terms_ok_add terms_ok_skip term_ok_event rate_terms_def event_terms_def)
qed

lemma default_ema_blocks_ok:
  assumes "terms_ok dt (weights f) used r" "0 \<le> dt" "default_inv f"
  shows "''steer_penalty'' \<notin> set used \<Longrightarrow> terms_ok dt (weights f) (''steer_penalty'' # used) (steer_block dt f r)"
    and "''reverse_penalty'' \<notin> set used \<Longrightarrow> terms_ok dt (weights f) (''reverse_penalty'' # used) (reverse_block dt f r)"
    and "''stall_penalty'' \<notin> set used \<Longrightarrow> ''stall_terminal_penalty'' \<notin> set used \<Longrightarrow>
      terms_ok dt (weights f) (''stall_terminal_penalty'' # ''stall_penalty'' # used) (stall_block dt f r)"
    and "''proximity'' \<notin> set used \<Longrightarrow> 0 \<le> g \<Longrightarrow> g \<le> 1 \<Longrightarrow>
      terms_ok dt (weights f) (''proximity'' # used) (proximity_block dt g f r)"
proof -
  have b: "\<bar>\<bar>steer_persistence_ema f\<bar>\<bar> \<le> 1" "\<bar>reverse_penalty_ema f\<bar> \<le> 1" "\<bar>stall_ema f\<bar> \<le> 1"
    using assms(3) by (auto simp: default_inv_def)
  show "terms_ok dt (weights f) (''steer_penalty'' # used) (steer_block dt f r)" if "''steer_penalty'' \<notin> set used"
    unfolding steer_block_def Let_def using that assms b
    by (intro terms_ok_add term_ok_rate unit_rate) (auto simp: rate_terms_def)
  show "terms_ok dt (weights f) (''reverse_penalty'' # used) (reverse_block dt f r)" if "''reverse_penalty'' \<notin> set used"
    unfolding reverse_block_def Let_def using that assms b
    by (intro terms_ok_add term_ok_rate unit_rate) (auto simp: rate_terms_def)
  have st: "terms_ok dt (weights f) (''stall_penalty'' # used)
      (add_term ''stall_penalty'' (stall_ema f * dt) (stall_penalty_scale (weights f) * (stall_ema f * dt)) r)"
    if "''stall_penalty'' \<notin> set used"
    using that assms b by (intro terms_ok_add term_ok_rate unit_rate) (auto simp: rate_terms_def)
  show "terms_ok dt (weights f) (''stall_terminal_penalty'' # ''stall_penalty'' # used) (stall_block dt f r)"
    if "''stall_penalty'' \<notin> set used" "''stall_terminal_penalty'' \<notin> set used"
    unfolding stall_block_def Let_def using that st
    by (cases "stall_fires f")
      (simp_all add: terms_ok_add terms_ok_skip term_ok_event rate_terms_def event_terms_def)
  show "terms_ok dt (weights f) (''proximity'' # used) (proximity_block dt g f r)"
    if "''proximity'' \<notin> set used" "0 \<le> g" "g \<le> 1"
    unfolding proximity_block_def Let_def using that assms
    by (intro terms_ok_add term_ok_rate unit_rate) (auto simp: rate_terms_def)
qed

text \<open>The names, latest first, in the order in which the blocks add them.\<close>

definition term_names :: "string list" where
  "term_names = [''goal_bonus'', ''waypoint_bonus'', ''stall_terminal_penalty'', ''stall_penalty'',
     ''gear_switch_penalty'', ''reverse_penalty'', ''collision'', ''proximity'', ''heading_to_goal'',
     ''steer_penalty'', ''effort_penalty'', ''progress'', ''time_limit_penalty'', ''time_penalty'']"

lemma empty_terms_ok: "terms_ok dt w [] empty_result"
  by (simp add: terms_ok_def empty_result_def)

lemma default_compute_terms_ok:
  assumes "default_inv f" "0 \<le> dt"
  shows "terms_ok dt (weights f) term_names (snd (default_compute tm dt sev hit f))"
proof -
  define f1 where "f1 = push_windows dt tm (enter_waypoint tm f)"
  define g where "g = clearance_gate (weights f1) (forward_clearance_m tm)"
  define f2 where "f2 = steer_ema_block dt g tm f1"
  define f3 where "f3 = reverse_ema_block dt g tm f2"
  define f4 where "f4 = stall_ema_block dt g (net_motion_rate (max (stall_window_s (weights f1)) (safe_dt_of dt)) f1) (remember_gear tm f3)"
  have g: "0 \<le> g" "g \<le> 1" using clearance_gate_unit by (auto simp: g_def)
  have w: "weights f1 = weights f" "weights f2 = weights f" "weights f3 = weights f" "weights f4 = weights f"
    by (simp_all add: f1_def f2_def f3_def f4_def)
  have i2: "default_inv f2" unfolding f2_def f1_def by (intro inv_intros assms g)
  have i3: "default_inv f3" unfolding f3_def by (intro inv_intros i2 g)
  have i4: "default_inv f4" unfolding f4_def by (intro inv_intros i3 g)
  note ok = default_blocks_ok[OF _ assms(2)] default_ema_blocks_ok[OF _ assms(2)]
  have s: "fst (default_compute tm dt sev hit f) = stall_flag_block f4"
    by (simp add: default_compute_def Let_def f1_def f2_def f3_def f4_def g_def)
  show ?thesis
    unfolding default_compute_def Let_def snd_conv f1_def[symmetric] g_def[symmetric] f2_def[symmetric]
      f3_def[symmetric] f4_def[symmetric] term_names_def
    apply (rule ok(7)[where f = "stall_flag_block f4", unfolded blocks_weights w])
      apply (rule default_ema_blocks_ok(3)[OF _ assms(2) i4, unfolded w])
        apply (rule ok(6)[where f = f3, unfolded w])
         apply (rule default_ema_blocks_ok(2)[OF _ assms(2) i3, unfolded w])
          apply (rule ok(5)[where f = f2, unfolded w])
           apply (rule default_ema_blocks_ok(4)[OF _ assms(2) i2, unfolded w])
              apply (rule ok(4)[where f = f2, unfolded w])
               apply (rule default_ema_blocks_ok(1)[OF _ assms(2) i2, unfolded w])
                apply (rule ok(3)[where f = f1, unfolded w])
                 apply (rule ok(2)[where f = f1, unfolded w])
                  apply (rule ok(1)[where f = f1, unfolded w])
                    apply (rule empty_terms_ok)
    by (simp_all add: g)
qed

lemma terms_ok_bound:
  assumes "terms_ok dt w term_names r" "total_is_sum r" "0 \<le> dt"
  shows "\<bar>total r\<bar> \<le> dt * (\<Sum>(n, c)\<leftarrow>rate_terms w. \<bar>c\<bar>) + (\<Sum>(n, c)\<leftarrow>event_terms w. \<bar>c\<bar>)"
proof -
  define bnd where "bnd n = (case map_of (rate_terms w) n of Some c \<Rightarrow> \<bar>c\<bar> * dt
    | None \<Rightarrow> (case map_of (event_terms w) n of Some c \<Rightarrow> \<bar>c\<bar> | None \<Rightarrow> 0))" for n
  have each: "\<bar>weighted (the (terms r n))\<bar> \<le> bnd n" if "n \<in> dom (terms r)" for n
  proof -
    from that obtain t where t: "terms r n = Some t" by blast
    then have "term_ok dt w n t" using assms(1) by (auto simp: terms_ok_def)
    then show ?thesis using t assms(3)
      by (cases "map_of (rate_terms w) n") (simp_all add: term_ok_def bnd_def abs_mult mult_left_mono)
  qed
  have nonneg: "0 \<le> bnd n" for n using assms(3) by (simp add: bnd_def split: option.split)
  have sub: "dom (terms r) \<subseteq> set term_names" using assms(1) by (auto simp: terms_ok_def)
  have "\<bar>total r\<bar> \<le> (\<Sum>n\<in>dom (terms r). \<bar>weighted (the (terms r n))\<bar>)"
    using assms(2) by (simp add: total_is_sum_def)
  also have "\<dots> \<le> (\<Sum>n\<in>dom (terms r). bnd n)" by (rule sum_mono) (rule each)
  also have "\<dots> \<le> (\<Sum>n\<in>set term_names. bnd n)" using sub nonneg by (intro sum_mono2) auto
  also have "\<dots> = dt * (\<Sum>(n, c)\<leftarrow>rate_terms w. \<bar>c\<bar>) + (\<Sum>(n, c)\<leftarrow>event_terms w. \<bar>c\<bar>)"
    by (simp add: term_names_def bnd_def rate_terms_def event_terms_def algebra_simps)
  finally show ?thesis .
qed

section \<open>The stall penalty and the window\<close>

definition pays_stall_terminal :: "reward_step_result \<Rightarrow> bool" where
  "pays_stall_terminal r \<longleftrightarrow> terms r ''stall_terminal_penalty'' \<noteq> None"

lemma other_blocks_stall [simp]:
  "pays_stall_terminal (time_block dt tm f r) = pays_stall_terminal r"
  "pays_stall_terminal (progress_block dt rate f r) = pays_stall_terminal r"
  "pays_stall_terminal (effort_block dt tm f r) = pays_stall_terminal r"
  "pays_stall_terminal (steer_block dt f r) = pays_stall_terminal r"
  "pays_stall_terminal (heading_block dt tm f r) = pays_stall_terminal r"
  "pays_stall_terminal (proximity_block dt g f r) = pays_stall_terminal r"
  "pays_stall_terminal (collision_block dt sev hit f r) = pays_stall_terminal r"
  "pays_stall_terminal (reverse_block dt f r) = pays_stall_terminal r"
  "pays_stall_terminal (gear_block tm f r) = pays_stall_terminal r"
  "pays_stall_terminal (goal_block tm f r) = pays_stall_terminal r"
  "pays_stall_terminal (stall_block dt f r) \<longleftrightarrow> pays_stall_terminal r \<or> stall_fires f"
  "\<not> pays_stall_terminal empty_result"
  by (simp_all add: pays_stall_terminal_def time_block_def progress_block_def effort_block_def steer_block_def
      heading_block_def proximity_block_def collision_block_def reverse_block_def gear_block_def
      stall_block_def goal_block_def empty_result_def Let_def del: not_None_eq)

lemma compute_pays_stall: "pays_stall_terminal (snd (default_compute tm dt sev hit f)) \<longleftrightarrow> stall_fires (state_after tm dt f)"
  by (simp add: default_compute_def state_after_def Let_def)

lemma state_after_stall:
  "stall_terminal (state_after tm dt f) \<longleftrightarrow> stall_terminal f \<and> last_waypoint_index f = Some (waypoint_index tm)"
  "last_waypoint_index (state_after tm dt f) = Some (waypoint_index tm)"
  by (simp_all add: state_after_def steer_ema_block_def reverse_ema_block_def stall_ema_block_def
      remember_gear_def push_windows_def enter_waypoint_def Let_def)

lemma compute_stall:
  "stall_terminal (fst (default_compute tm dt sev hit f)) \<longleftrightarrow>
     stall_terminal f \<and> last_waypoint_index f = Some (waypoint_index tm) \<or>
     pays_stall_terminal (snd (default_compute tm dt sev hit f))"
  "last_waypoint_index (fst (default_compute tm dt sev hit f)) = Some (waypoint_index tm)"
  unfolding compute_pays_stall default_compute_state
  by (auto simp: stall_flag_block_def state_after_stall)

lemma compute_stall_quiet:
  "stall_terminal f \<Longrightarrow> last_waypoint_index f = Some (waypoint_index tm) \<Longrightarrow>
     \<not> pays_stall_terminal (snd (default_compute tm dt sev hit f))"
  unfolding compute_pays_stall by (simp add: stall_fires_def state_after_stall)

lemma run_stall:
  assumes "\<forall>i\<in>set is. waypoint_index (fst i) = k" "last_waypoint_index f = Some k \<or> \<not> stall_terminal f"
    "(f1, rs) = reward_run default_compute is f"
  shows "length (filter pays_stall_terminal rs) \<le> (if stall_terminal f then 0 else 1) \<and>
    (stall_terminal f1 \<longleftrightarrow> stall_terminal f \<or> filter pays_stall_terminal rs \<noteq> [])"
  using assms
proof (induction "is" arbitrary: f rs)
  case (Cons i "is")
  obtain tm dt sev hit where i: "i = (tm, dt, sev, hit)" by (cases i)
  define g where "g = fst (default_compute tm dt sev hit f)"
  define r where "r = snd (default_compute tm dt sev hit f)"
  have k: "waypoint_index tm = k" using Cons.prems(1) by (simp add: i)
  obtain rs' where rs': "(f1, rs') = reward_run default_compute is g" "rs = r # rs'"
    using Cons.prems(3) by (simp add: i g_def r_def case_prod_beta Let_def prod_eq_iff)
  have g: "stall_terminal g \<longleftrightarrow> stall_terminal f \<or> pays_stall_terminal r" "last_waypoint_index g = Some k"
    using compute_stall[of tm dt sev hit f] Cons.prems(2) k by (auto simp: g_def r_def)
  have q: "stall_terminal f \<Longrightarrow> \<not> pays_stall_terminal r"
    using compute_stall_quiet[of f tm dt sev hit] Cons.prems(2) k by (auto simp: r_def)
  show ?case using Cons.IH[OF _ _ rs'(1)] Cons.prems(1) g q by (auto simp: rs'(2) split: if_splits)
qed simp

text \<open>With one time step throughout, the windows hold at most \<^verbatim>\<open>max_samples\<close> samples.\<close>

lemma push_hist_length: "int (length h) \<le> n \<Longrightarrow> 1 \<le> n \<Longrightarrow> int (length (push_hist n x h)) \<le> n"
  by (simp add: push_hist_def Let_def)

lemma window_samples_ge: "2 \<le> window_samples w d"
  by (simp add: window_samples_def)

definition window_of :: "real \<Rightarrow> reward_weights \<Rightarrow> int" where
  "window_of dt w = window_samples (max (stall_window_s w) (safe_dt_of dt)) (safe_dt_of dt)"

lemma compute_window:
  assumes "int (length (goal_dist_hist f)) \<le> window_of dt (weights f)"
  shows "int (length (goal_dist_hist (fst (default_compute tm dt sev hit f)))) \<le> window_of dt (weights f)"
proof -
  have "goal_dist_hist (fst (default_compute tm dt sev hit f)) =
      push_hist (window_of dt (weights f)) (distance_to_waypoint tm) (goal_dist_hist (enter_waypoint tm f))"
    unfolding default_compute_state
    by (simp add: state_after_def stall_flag_block_def steer_ema_block_def reverse_ema_block_def
        stall_ema_block_def remember_gear_def push_windows_def Let_def window_of_def)
  moreover have "int (length (goal_dist_hist (enter_waypoint tm f))) \<le> window_of dt (weights f)"
    using assms window_samples_ge[of "max (stall_window_s (weights f)) (safe_dt_of dt)" "safe_dt_of dt"]
    by (simp add: enter_waypoint_def window_of_def)
  ultimately show ?thesis
    using window_samples_ge[of "max (stall_window_s (weights f)) (safe_dt_of dt)" "safe_dt_of dt"]
    by (simp add: push_hist_length window_of_def)
qed

lemma run_window:
  "\<forall>i\<in>set is. fst (snd i) = dt \<Longrightarrow> int (length (goal_dist_hist f)) \<le> window_of dt (weights f) \<Longrightarrow>
    int (length (goal_dist_hist (fst (reward_run default_compute is f)))) \<le> window_of dt (weights f)"
proof (induction "is" arbitrary: f)
  case (Cons i "is")
  obtain tm dt' sev hit where i: "i = (tm, dt', sev, hit)" by (cases i)
  have d: "dt' = dt" using Cons.prems(1) by (simp add: i)
  show ?case using Cons.IH[of "fst (default_compute tm dt sev hit f)"] compute_window[OF Cons.prems(2), of tm sev hit] Cons.prems(1)
    by (simp add: i d case_prod_beta Let_def)
qed simp

section \<open>Properties\<close>

text \<open>C27: In every reachable state each term of the default reward is its weight times its raw value,
  the raw value of a rate is at most the time step and that of an event is one; the total is the sum
  of the terms and is bounded by the weights.\<close>

theorem default_reward_terms:
  assumes "0 \<le> dt" and "f = fst (reward_run default_compute history (make_default_reward w))"
    and "r = snd (default_compute tm dt sev hit f)"
  shows "(\<forall>n t. terms r n = Some t \<longrightarrow> term_ok dt w n t) \<and> total r = term_sum r \<and>
    \<bar>total r\<bar> \<le> dt * (\<Sum>(n, c)\<leftarrow>rate_terms w. \<bar>c\<bar>) + (\<Sum>(n, c)\<leftarrow>event_terms w. \<bar>c\<bar>)"
proof -
  have w: "weights f = w" by (simp add: assms(2) default_run_weights make_default_reward_def)
  have "default_inv f" unfolding assms(2) by (intro default_run_inv inv_intros)
  then have ok: "terms_ok dt w term_names r"
    using default_compute_terms_ok[OF _ assms(1)] by (simp add: assms(3) w[symmetric])
  have tot: "total_is_sum r" by (simp add: assms(3) default_compute_total)
  show ?thesis using ok tot terms_ok_bound[OF ok tot assms(1)]
    by (auto simp: terms_ok_def total_is_sum_def term_sum_def)
qed

definition demo_inputs :: "reward_input list" where
  "demo_inputs = [(default_telemetry\<lparr>distance_to_waypoint := 5, requested_reverse_gear := True\<rparr>, 1 / 10, no_severity, False),
     (default_telemetry\<lparr>distance_to_waypoint := 4\<rparr>, 1 / 10, no_severity\<lparr>sev_score := 2\<rparr>, True)]"

theorem default_reward_terms_witness:
  "\<bar>total (snd (default_compute default_telemetry (1 / 10) no_severity True
      (fst (reward_run default_compute demo_inputs (make_default_reward default_weights)))))\<bar>
   \<le> 1 / 10 * (\<Sum>(n, c)\<leftarrow>rate_terms default_weights. \<bar>c\<bar>) + (\<Sum>(n, c)\<leftarrow>event_terms default_weights. \<bar>c\<bar>)"
  apply (insert default_reward_terms[where dt = "1 / 10", OF _ refl refl, where history = demo_inputs and w = default_weights
      and tm = default_telemetry and sev = no_severity and hit = True])
  apply (drule meta_mp)
   apply simp
  by (erule conjE)+

text \<open>C28: While the robot heads for one waypoint, the terminal stall penalty is paid at most once, and
  the reward function asks for termination exactly when it has been paid.\<close>

theorem default_stall_paid_once:
  assumes "\<forall>i\<in>set is. waypoint_index (fst i) = k"
    and "(f, rs) = reward_run default_compute is (make_default_reward w)"
  shows "length (filter pays_stall_terminal rs) \<le> 1 \<and>
    (default_should_terminate f \<longleftrightarrow> (\<exists>r\<in>set rs. pays_stall_terminal r))"
  using run_stall[OF assms(1) _ assms(2)]
  by (auto simp: make_default_reward_def default_should_terminate_def filter_empty_conv)


text \<open>With a stall limit below the first average, the penalty is paid at the first step.\<close>

definition touchy_weights :: reward_weights where
  "touchy_weights = default_weights\<lparr>stall_limit := 1 / 100000000\<rparr>"

lemma first_step_stalls:
  assumes "0 < stall_limit w" "stall_limit w \<le> 1 / 16" "stall_tau_s w = 3 / 2" "0 < stall_progress_epsilon w"
    "forward_clearance_m tm = None"
  shows "pays_stall_terminal (snd (default_compute tm (1 / 10) sev hit (make_default_reward w)))"
proof -
  have "exp (- (1 / 15)) * exp (1 / 15) = (1::real)" by (simp add: exp_minus)
  moreover have "16 / 15 \<le> exp (1 / 15 :: real)" using exp_ge_add_one_self[of "1 / 15"] by simp
  ultimately have "exp (- (1 / 15)) * (16 / 15) \<le> (1::real)" by (metis exp_ge_zero mult_left_mono)
  then have e: "stall_limit w \<le> 1 - exp (- (1 / 15))" using assms(2) by simp
  have tau: "stall_tau_s w = 3 / 2" "1 / (10 * stall_tau_s w) = 1 / 15" using assms(3) by simp_all
  show ?thesis
    unfolding compute_pays_stall using assms(1,4,5) e tau(2)
    by (simp add: stall_fires_def state_after_def make_default_reward_def enter_waypoint_def push_windows_def
        steer_ema_block_def reverse_ema_block_def remember_gear_def stall_ema_block_def Let_def clearance_gate_def
        net_motion_rate_def push_hist_def window_samples_def clamp_def ema_update_def safe_dt_of_def max_def tau(1) del: One_nat_def)
qed

theorem default_stall_paid_once_witness:
  "let p = reward_run default_compute (replicate 3 (default_telemetry, 1 / 10, no_severity, False)) (make_default_reward touchy_weights)
   in length (filter pays_stall_terminal (snd p)) = 1 \<and> default_should_terminate (fst p)"
proof -
  define p where "p = reward_run default_compute (replicate 3 (default_telemetry, 1 / 10, no_severity, False)) (make_default_reward touchy_weights)"
  have "pays_stall_terminal (hd (snd p))"
    unfolding p_def numeral_3_eq_3 replicate_Suc
    by (simp add: case_prod_beta Let_def first_step_stalls touchy_weights_def default_weights_def default_telemetry_def)
  moreover have "snd p \<noteq> []" by (simp add: p_def numeral_3_eq_3 case_prod_beta Let_def)
  ultimately have ex: "\<exists>r\<in>set (snd p). pays_stall_terminal r" by (metis list.set_sel(1))
  have "length (filter pays_stall_terminal (snd p)) \<le> 1 \<and> (default_should_terminate (fst p) \<longleftrightarrow> (\<exists>r\<in>set (snd p). pays_stall_terminal r))"
    by (rule default_stall_paid_once[of "replicate 3 (default_telemetry, 1 / 10, no_severity, False)" 0 _ _ touchy_weights])
      (auto simp: p_def default_telemetry_def)
  moreover have "filter pays_stall_terminal (snd p) \<noteq> []" using ex by (auto simp: filter_empty_conv)
  ultimately show ?thesis using ex unfolding p_def[symmetric] Let_def
    by (cases "filter pays_stall_terminal (snd p)") auto
qed

end
