(* ===== verification/RewardDeprecated.thy ===== *)
theory RewardDeprecated
  imports Reward
begin

text \<open>
  The legacy reward of \<^verbatim>\<open>rl/reward_deprecated.cpp\<close>, block by block, and
  \<^verbatim>\<open>create_reward_function\<close>: a reward function is one of the two classes, and a virtual call is a
  case distinction. Both classes, and the dispatch, satisfy the interface \<open>reward_function\<close>.
\<close>

section \<open>State\<close>

record deprecated_reward =
  dep_weights :: reward_weights
  prev_cmd :: "ackermann_command option"
  stall_time_s :: real
  dep_stall_ema :: real
  dep_stall_terminal :: bool
  strike_timer_s :: real
  prev_reverse_gear :: bool
  has_prev_gear :: bool
  elapsed_time_s :: real
  gear_switch_times :: "real list"
  steer_hold_time_s :: real
  reverse_hold_time_s :: real
  has_prev_goal_dist :: bool
  prev_goal_dist :: real
  dep_goal_dist_hist :: "real list"

definition make_deprecated_reward :: "reward_weights \<Rightarrow> deprecated_reward" where
  "make_deprecated_reward w = \<lparr>dep_weights = w, prev_cmd = None, stall_time_s = 0, dep_stall_ema = 0,
     dep_stall_terminal = False, strike_timer_s = 0, prev_reverse_gear = False, has_prev_gear = False,
     elapsed_time_s = 0, gear_switch_times = [], steer_hold_time_s = 0, reverse_hold_time_s = 0,
     has_prev_goal_dist = False, prev_goal_dist = 0, dep_goal_dist_hist = []\<rparr>"

definition deprecated_reset :: "deprecated_reward \<Rightarrow> deprecated_reward" where
  "deprecated_reset f = f\<lparr>prev_cmd := None, has_prev_goal_dist := False, prev_goal_dist := 0,
     dep_goal_dist_hist := [], stall_time_s := 0, dep_stall_ema := 0, dep_stall_terminal := False,
     strike_timer_s := 0, prev_reverse_gear := False, has_prev_gear := False, elapsed_time_s := 0,
     gear_switch_times := [], steer_hold_time_s := 0, reverse_hold_time_s := 0\<rparr>"

definition deprecated_should_terminate :: "deprecated_reward \<Rightarrow> bool" where
  "deprecated_should_terminate f = dep_stall_terminal f"

section \<open>The blocks of the computation\<close>

type_synonym dep_acc = "deprecated_reward \<times> reward_step_result"

text \<open>The raw value that is logged for a weighted one: divided by its weight unless that is zero.\<close>

definition unweigh :: "real \<Rightarrow> real \<Rightarrow> real \<Rightarrow> real" where
  "unweigh w weighted_value otherwise = (if w \<noteq> 0 then weighted_value / w else otherwise)"

definition decayed :: "nat \<Rightarrow> real \<Rightarrow> real" where
  "decayed steps decay_steps = max 0 (1 - real steps / decay_steps)"

definition dep_time :: "reward_telemetry \<Rightarrow> real \<Rightarrow> dep_acc \<Rightarrow> dep_acc" where
  "dep_time tm dt = (\<lambda>(f, r).
     let w = dep_weights f;
         r1 = add_term ''time_penalty'' dt (time_penalty w * dt) r;
         elapsed = elapsed_time_s f + dt;
         time_scale = (if time_penalty_scale_decay_steps w > 0
                       then time_penalty_scale w * decayed (episode_step_count tm) (time_penalty_scale_decay_steps w)
                       else time_penalty_scale w);
         r2 = add_term ''time_penalty_scale'' (elapsed * dt) (time_scale * elapsed * dt) r1;
         r3 = (if time_limit_reached tm then add_term ''time_limit_penalty'' 1 (time_limit_penalty w) r2 else r2)
     in (f\<lparr>elapsed_time_s := elapsed\<rparr>, r3))"

definition dep_progress :: "reward_telemetry \<Rightarrow> real \<Rightarrow> dep_acc \<Rightarrow> dep_acc" where
  "dep_progress tm goal_dist = (\<lambda>(f, r).
     let w = dep_weights f;
         prev_dist = (if has_prev_goal_dist f then prev_goal_dist f else goal_dist);
         delta_d = prev_dist - goal_dist;
         progress_weight = (if progress_decay_steps w > 0
            then progress_min w + (w_progress w - progress_min w) * decayed (episode_step_count tm) (progress_decay_steps w)
            else w_progress w);
         progress_m = max 0 delta_d;
         progress_reward = progress_weight * progress_m
     in (f\<lparr>has_prev_goal_dist := True, prev_goal_dist := goal_dist\<rparr>,
         add_term ''progress'' (unweigh progress_weight progress_reward progress_m) progress_reward r))"

definition dep_effort :: "reward_telemetry \<Rightarrow> real \<Rightarrow> dep_acc \<Rightarrow> dep_acc" where
  "dep_effort tm dt = (\<lambda>(f, r).
     let speed_m_s = vec_length (linear (tel_velocity tm))
     in (f, add_term ''effort_penalty'' (speed_m_s * dt) (effort_penalty (dep_weights f) * speed_m_s * dt) r))"

definition dep_window :: "real \<Rightarrow> real \<Rightarrow> deprecated_reward \<Rightarrow> deprecated_reward" where
  "dep_window dt goal_dist f =
     (let safe_dt = safe_dt_of dt;
          max_window = window_samples (max (stall_window_s (dep_weights f)) safe_dt) safe_dt
      in f\<lparr>dep_goal_dist_hist := push_hist max_window goal_dist (dep_goal_dist_hist f)\<rparr>)"

definition is_stalled :: "deprecated_reward \<Rightarrow> bool" where
  "is_stalled f \<longleftrightarrow> length (dep_goal_dist_hist f) \<ge> 2 \<and>
     hd (dep_goal_dist_hist f) - last (dep_goal_dist_hist f) < stall_progress_epsilon (dep_weights f)"

definition dep_stall :: "real \<Rightarrow> dep_acc \<Rightarrow> dep_acc" where
  "dep_stall dt = (\<lambda>(f, r).
     let w = dep_weights f; stalled = is_stalled f;
         f1 = (if \<not> stalled then f\<lparr>dep_stall_terminal := False, strike_timer_s := 0\<rparr> else f);
         f2 = f1\<lparr>stall_time_s := (if stalled then stall_time_s f1 + dt else 0)\<rparr>;
         f3 = f2\<lparr>dep_stall_ema := ema_update (safe_dt_of dt) (dep_stall_ema f2) (if stalled then 1 else 0) (stall_tau_s w)\<rparr>;
         stall_growth = exp (stall_penalty_growth w * dep_stall_ema f3);
         stall_reward = stall_penalty_scale w * stall_growth * dep_stall_ema f3 * dt;
         r1 = add_term ''stall_penalty''
                (if stall_growth \<noteq> 0 \<and> stall_penalty_scale w \<noteq> 0 then stall_reward / stall_penalty_scale w
                 else dep_stall_ema f3 * dt) stall_reward r
     in if \<not> dep_stall_terminal f3 \<and> stall_limit w > 0 \<and> dep_stall_ema f3 \<ge> stall_limit w
        then (f3\<lparr>dep_stall_terminal := True\<rparr>, add_term ''stall_terminal_penalty'' 1 (stall_terminal_penalty w) r1)
        else (f3, r1))"

definition dep_reverse :: "reward_telemetry \<Rightarrow> real \<Rightarrow> dep_acc \<Rightarrow> dep_acc" where
  "dep_reverse tm dt = (\<lambda>(f, r).
     let w = dep_weights f; scale = (if is_stalled f then 1 / 4 else 1);
         reverse_speed_reward = reverse_speed_penalty w * dt * scale;
         r1 = (if tel_reverse_gear tm
               then add_term ''reverse_speed_penalty'' (unweigh (reverse_speed_penalty w) reverse_speed_reward (dt * scale))
                      reverse_speed_reward r else r);
         hold = (if tel_reverse_gear tm then reverse_hold_time_s f + dt else 0);
         reverse_hold_reward = reverse_hold_penalty w * hold
     in (f\<lparr>reverse_hold_time_s := hold\<rparr>,
         add_term ''reverse_hold_penalty'' (unweigh (reverse_hold_penalty w) reverse_hold_reward hold) reverse_hold_reward r1))"

definition switch_value :: "nat \<Rightarrow> real" where
  "switch_value switch_count = (if switch_count \<ge> 2 then min (2 powr (real switch_count - 1)) 4 else 1)"

definition dep_gear :: "reward_telemetry \<Rightarrow> dep_acc \<Rightarrow> dep_acc" where
  "dep_gear tm = (\<lambda>(f, r).
     let w = dep_weights f;
         (f1, r1) = (if has_prev_gear f \<and> requested_reverse_gear tm \<noteq> prev_reverse_gear f
            then let times = dropWhile (\<lambda>t. elapsed_time_s f - t > 10) (gear_switch_times f @ [elapsed_time_s f]);
                     v = switch_value (length times);
                     gear_switch_reward = gear_switch_penalty w * v
                 in (f\<lparr>gear_switch_times := times\<rparr>,
                     add_term ''gear_switch_penalty'' (unweigh (gear_switch_penalty w) gear_switch_reward v) gear_switch_reward r)
            else (f, r))
     in (f1\<lparr>prev_reverse_gear := requested_reverse_gear tm, has_prev_gear := True\<rparr>, r1))"

definition dep_collision :: "real \<Rightarrow> collision_severity \<Rightarrow> bool \<Rightarrow> dep_acc \<Rightarrow> dep_acc" where
  "dep_collision dt sev collision_active = (\<lambda>(f, r).
     if collision_active
     then let w = dep_weights f; v = collision_penalty_scale w * sev_score sev * dt
          in (f, add_term ''collision'' (unweigh (collision_penalty_scale w) v (sev_score sev * dt)) v r)
     else (f, r))"

definition jerk_speed :: "ackermann_command \<Rightarrow> real" where
  "jerk_speed c = (if cmd_reverse c then - cmd_speed c else cmd_speed c)"

definition dep_smoothness :: "reward_telemetry \<Rightarrow> real \<Rightarrow> dep_acc \<Rightarrow> dep_acc" where
  "dep_smoothness tm dt = (\<lambda>(f, r).
     let w = dep_weights f; c = tel_command tm; safe_dt = safe_dt_of dt;
         r1 = (case prev_cmd f of None \<Rightarrow> r
               | Some p \<Rightarrow>
                   let speed_jerk = \<bar>jerk_speed c - jerk_speed p\<bar> / safe_dt;
                       steer_jerk = \<bar>cmd_steer c - cmd_steer p\<bar> / safe_dt;
                       v = min (speed_jerk + steer_jerk) 50;
                       control_smoothness_reward = control_smoothness w * v * dt
                   in add_term ''control_smoothness''
                        (unweigh (control_smoothness w) control_smoothness_reward (v * dt)) control_smoothness_reward r)
     in (f\<lparr>prev_cmd := Some c\<rparr>, r1))"

definition dep_steer :: "reward_telemetry \<Rightarrow> real \<Rightarrow> dep_acc \<Rightarrow> dep_acc" where
  "dep_steer tm dt = (\<lambda>(f, r).
     let w = dep_weights f; steer_value = cmd_steer (tel_command tm);
         r1 = add_term ''steer_penalty'' (\<bar>steer_value\<bar> * dt) (steer_penalty w * \<bar>steer_value\<bar> * dt) r
     in if \<bar>steer_value\<bar> > steer_hold_threshold w
        then let hold = steer_hold_time_s f + dt;
                 steer_hold_reward = steer_hold_penalty w * hold;
                 f1 = f\<lparr>steer_hold_time_s := hold\<rparr>;
                 r2 = add_term ''steer_hold_penalty'' (unweigh (steer_hold_penalty w) steer_hold_reward hold) steer_hold_reward r1
             in if steer_hold_terminate_s w > 0 \<and> hold \<ge> steer_hold_terminate_s w
                then (f1\<lparr>dep_stall_terminal := True\<rparr>,
                      add_term ''steer_hold_terminal_penalty'' 1 (steer_hold_terminal_penalty w) r2)
                else (f1, r2)
        else (f\<lparr>steer_hold_time_s := max 0 (steer_hold_time_s f - dt / max (1 / 1000000) (steer_hold_decay_s w))\<rparr>, r1))"

definition dep_yaw :: "reward_telemetry \<Rightarrow> real \<Rightarrow> real \<Rightarrow> dep_acc \<Rightarrow> dep_acc" where
  "dep_yaw tm dt goal_dist = (\<lambda>(f, r).
     let w = dep_weights f; near_goal_yaw = (goal_dist > 1 / 1000 \<and> goal_dist < yaw_rate_near_goal_dist w);
         v = \<bar>angular (tel_velocity tm)\<bar>
     in (f, if is_stalled f \<or> near_goal_yaw
            then add_term ''yaw_rate_penalty'' (v * dt) (yaw_rate_penalty w * v * dt) r else r))"

definition dep_heading :: "reward_telemetry \<Rightarrow> real \<Rightarrow> vec2 \<Rightarrow> real \<Rightarrow> dep_acc \<Rightarrow> dep_acc" where
  "dep_heading tm dt to_goal goal_dist = (\<lambda>(f, r).
     let w = dep_weights f in
     if goal_dist > 1 / 1000 \<and> goal_dist < 10
     then let goal_heading = atan2 (vy to_goal) (vx to_goal);
              heading_error = \<bar>normalize_angle (goal_heading - yaw (tel_pose tm))\<bar>;
              heading_alignment = max 0 (1 - heading_error / pi);
              v = heading_alignment_bonus w * heading_alignment * dt
          in (f, add_term ''heading_alignment'' (unweigh (heading_alignment_bonus w) v (heading_alignment * dt)) v r)
     else (f, r))"

definition dep_goal :: "reward_telemetry \<Rightarrow> dep_acc \<Rightarrow> dep_acc" where
  "dep_goal tm = (\<lambda>(f, r).
     let w = dep_weights f in
     if final_goal_reached tm
     then let goal_bonus = (if goal_reached_bonus_decay_steps w > 0
                then goal_reached_bonus_min w + (goal_reached_bonus w - goal_reached_bonus_min w) *
                       decayed (episode_step_count tm) (goal_reached_bonus_decay_steps w)
                else goal_reached_bonus w)
          in (f, add_term ''goal_bonus'' 1 goal_bonus r)
     else (f, r))"

definition deprecated_compute :: "reward_telemetry \<Rightarrow> real \<Rightarrow> collision_severity \<Rightarrow> bool \<Rightarrow> deprecated_reward
    \<Rightarrow> deprecated_reward \<times> reward_step_result" where
  "deprecated_compute tm dt sev collision_active f0 =
     (let to_goal = point_sub (waypoint_position tm) (pos (tel_pose tm));
          goal_dist = vec_length to_goal;
          a1 = dep_effort tm dt (dep_progress tm goal_dist (dep_time tm dt (f0, empty_result)));
          a2 = (dep_window dt goal_dist (fst a1), snd a1);
          a3 = dep_gear tm (dep_reverse tm dt (dep_stall dt a2));
          a4 = dep_steer tm dt (dep_smoothness tm dt (dep_collision dt sev collision_active a3))
      in dep_goal tm (dep_heading tm dt to_goal goal_dist (dep_yaw tm dt goal_dist a4)))"

section \<open>The factory\<close>

datatype reward_fn = DefaultRewardFunction default_reward | DeprecatedRewardFunction deprecated_reward

definition create_reward_function :: "string \<Rightarrow> reward_weights \<Rightarrow> reward_fn" where
  "create_reward_function ty w =
     (let t = (if ty = [] then ''default'' else ty)
      in if t = ''default'' then DefaultRewardFunction (make_default_reward w)
         else if t = ''deprecated'' \<or> t = ''legacy'' then DeprecatedRewardFunction (make_deprecated_reward w)
         else DefaultRewardFunction (make_default_reward w))"

fun reward_compute :: "reward_telemetry \<Rightarrow> real \<Rightarrow> collision_severity \<Rightarrow> bool \<Rightarrow> reward_fn \<Rightarrow> reward_fn \<times> reward_step_result" where
  "reward_compute tm dt sev hit (DefaultRewardFunction f) =
     map_prod DefaultRewardFunction id (default_compute tm dt sev hit f)"
| "reward_compute tm dt sev hit (DeprecatedRewardFunction f) =
     map_prod DeprecatedRewardFunction id (deprecated_compute tm dt sev hit f)"

fun reward_reset :: "reward_fn \<Rightarrow> reward_fn" where
  "reward_reset (DefaultRewardFunction f) = DefaultRewardFunction (default_reset f)"
| "reward_reset (DeprecatedRewardFunction f) = DeprecatedRewardFunction (deprecated_reset f)"

fun reward_should_terminate :: "reward_fn \<Rightarrow> bool" where
  "reward_should_terminate (DefaultRewardFunction f) = default_should_terminate f"
| "reward_should_terminate (DeprecatedRewardFunction f) = deprecated_should_terminate f"

section \<open>Laws\<close>

text \<open>Every block keeps the weights and the sum of the terms.\<close>

definition dep_ok :: "reward_weights \<Rightarrow> dep_acc \<Rightarrow> bool" where
  "dep_ok w a \<longleftrightarrow> dep_weights (fst a) = w \<and> total_is_sum (snd a)"

lemma dep_ok_blocks:
  assumes "dep_ok w a"
  shows "dep_ok w (dep_time tm dt a)" "dep_ok w (dep_progress tm gd a)" "dep_ok w (dep_effort tm dt a)"
    "dep_ok w (dep_stall dt a)" "dep_ok w (dep_reverse tm dt a)" "dep_ok w (dep_gear tm a)"
    "dep_ok w (dep_collision dt sev hit a)" "dep_ok w (dep_smoothness tm dt a)" "dep_ok w (dep_steer tm dt a)"
    "dep_ok w (dep_yaw tm dt gd a)" "dep_ok w (dep_heading tm dt tg gd a)" "dep_ok w (dep_goal tm a)"
    "dep_ok w (dep_window dt gd (fst a), snd a)"
  using assms
  by (cases a; simp add: dep_ok_def dep_time_def dep_progress_def dep_effort_def dep_stall_def dep_reverse_def
      dep_gear_def dep_collision_def dep_smoothness_def dep_steer_def dep_yaw_def dep_heading_def dep_goal_def
      dep_window_def Let_def add_term_total_is_sum split: option.split; fail)+

lemma deprecated_compute_ok: "dep_ok (dep_weights f) (deprecated_compute tm dt sev hit f)"
proof -
  have "dep_ok (dep_weights f) (f, empty_result)" by (simp add: dep_ok_def empty_total_is_sum)
  then show ?thesis unfolding deprecated_compute_def Let_def by (intro dep_ok_blocks)
qed

lemma deprecated_reset_eq: "deprecated_reset f = make_deprecated_reward (dep_weights f)"
  by (simp add: deprecated_reset_def make_deprecated_reward_def)

interpretation deprecated_fn: reward_function deprecated_compute deprecated_reset deprecated_should_terminate
proof unfold_locales
  fix tm dt sev hit f
  have ok: "dep_ok (dep_weights f) (deprecated_compute tm dt sev hit f)" by (rule deprecated_compute_ok)
  then show "total_is_sum (snd (deprecated_compute tm dt sev hit f))" by (simp add: dep_ok_def)
  show "deprecated_reset (fst (deprecated_compute tm dt sev hit f)) = deprecated_reset f"
    using ok by (simp add: deprecated_reset_eq dep_ok_def)
  show "deprecated_reset (deprecated_reset f) = deprecated_reset f" by (simp add: deprecated_reset_def)
  show "\<not> deprecated_should_terminate (deprecated_reset f)"
    by (simp add: deprecated_reset_def deprecated_should_terminate_def)
qed

interpretation reward_virtual: reward_function reward_compute reward_reset reward_should_terminate
proof unfold_locales
  fix tm dt sev hit f
  show "total_is_sum (snd (reward_compute tm dt sev hit f))"
    by (cases f) (simp_all add: default_fn.compute_total deprecated_fn.compute_total)
  show "reward_reset (fst (reward_compute tm dt sev hit f)) = reward_reset f"
    by (cases f) (simp_all add: default_fn.reset_compute deprecated_fn.reset_compute)
  show "reward_reset (reward_reset f) = reward_reset f"
    by (cases f) (simp_all add: default_fn.reset_reset deprecated_fn.reset_reset)
  show "\<not> reward_should_terminate (reward_reset f)"
    by (cases f) (simp_all add: default_fn.reset_continues deprecated_fn.reset_continues)
qed

section \<open>Properties\<close>

lemma create_reset: "reward_reset (create_reward_function ty w) = create_reward_function ty w"
  by (simp add: create_reward_function_def Let_def default_reset_eq deprecated_reset_eq
      make_default_reward_def make_deprecated_reward_def)

text \<open>After a reset every reward function that the factory makes behaves as a new one, whatever the
  episodes before: it gives the same results on every episode and does not ask for termination; and
  the return of an episode is the sum of all logged weighted terms.\<close>

theorem reward_episodes_independent:
  "reward_run reward_compute episode
      (reward_reset (fst (reward_run reward_compute history (create_reward_function ty w))))
    = reward_run reward_compute episode (create_reward_function ty w) \<and>
   \<not> reward_should_terminate (create_reward_function ty w) \<and>
   sum_list (map total (snd (reward_run reward_compute episode (create_reward_function ty w))))
    = sum_list (map term_sum (snd (reward_run reward_compute episode (create_reward_function ty w))))"
  using reward_virtual.run_after_reset[of episode history "create_reward_function ty w"]
    reward_virtual.reset_continues[of "create_reward_function ty w"]
    reward_virtual.run_return[of episode "create_reward_function ty w"]
  by (simp add: create_reset)

end
