(* ===== verification/EventBus.thy ===== *)
theory EventBus
  imports CoreBase "HOL-Library.Word"
begin

text \<open>
  The event bus, \<^verbatim>\<open>events/event_bus.hpp\<close>, for one message type (one \<^verbatim>\<open>Channel<T>\<close>).
  The single-producer single-consumer queue is a third-party class: its operations are the
  argument \<open>ops\<close>, and \<open>spsc_laws\<close> states what its documentation promises. Each call takes
  effect atomically, as the locks and the queue provide for one producer and one consumer.
\<close>

type_synonym bus_id = "32 word"

record ('m, 'q) queue_ops =
  q_new :: "nat \<Rightarrow> 'q"
  q_try_enqueue :: "'m \<Rightarrow> 'q \<Rightarrow> 'q option"
  q_try_dequeue :: "'q \<Rightarrow> ('m \<times> 'q) option"

definition spsc_laws :: "('m, 'q) queue_ops \<Rightarrow> ('q \<Rightarrow> 'm list) \<Rightarrow> ('q \<Rightarrow> nat) \<Rightarrow> bool" where
  "spsc_laws ops contents capacity \<longleftrightarrow>
     (\<forall>cap. contents (q_new ops cap) = [] \<and> cap \<le> capacity (q_new ops cap)) \<and>
     (\<forall>m q q'. q_try_enqueue ops m q = Some q' \<longrightarrow>
        contents q' = contents q @ [m] \<and> capacity q' = capacity q) \<and>
     (\<forall>m q. length (contents q) < capacity q \<longrightarrow> q_try_enqueue ops m q \<noteq> None) \<and>
     (\<forall>q. q_try_dequeue ops q = None \<longleftrightarrow> contents q = []) \<and>
     (\<forall>q m q'. q_try_dequeue ops q = Some (m, q') \<longrightarrow>
        contents q = m # contents q' \<and> capacity q' = capacity q)"

text \<open>A queue that keeps the laws: a list with a bound.\<close>

definition list_queue :: "('m, nat \<times> 'm list) queue_ops" where
  "list_queue = \<lparr>q_new = (\<lambda>cap. (cap, [])),
     q_try_enqueue = (\<lambda>m (cap, ms). if length ms < cap then Some (cap, ms @ [m]) else None),
     q_try_dequeue = (\<lambda>(cap, ms). case ms of [] \<Rightarrow> None | m # r \<Rightarrow> Some (m, (cap, r)))\<rparr>"

lemma list_queue_laws: "spsc_laws list_queue snd fst"
  by (auto simp: spsc_laws_def list_queue_def split: if_splits list.splits)

section \<open>Channels\<close>

datatype ('m, 'q) storage = Queue 'q | Mailbox "'m option"

record ('m, 'q) bus_entry =
  storage :: "('m, 'q) storage"
  keep_last :: nat

type_synonym ('m, 'q) channel = "bus_id \<Rightarrow> ('m, 'q) bus_entry option"

definition bus_context :: "string \<Rightarrow> string" where
  "bus_context func = make_context func [(''entity_id'', ''id'')]"

definition not_found_err :: "string \<Rightarrow> error" where
  "not_found_err ctx = make_error EVENT_BUS ''Queue not registered to the event bus.'' ctx"

definition queue_overflow_err :: "string \<Rightarrow> error" where
  "queue_overflow_err ctx = make_error EVENT_BUS ''Failed to publish/enqueue message: queue overflow'' ctx"

definition already_registered_err :: "string \<Rightarrow> error" where
  "already_registered_err ctx = make_error EVENT_BUS_REGISTERED ''Queue already registered to the event bus.'' ctx"

definition no_message_available_err :: "string \<Rightarrow> error" where
  "no_message_available_err ctx = make_error EVENT_BUS ''No message available'' ctx"

text \<open>\<^verbatim>\<open>std::get\<close> on the other alternative throws; \<open>chan_wf\<close> rules that branch out.\<close>

definition bad_variant_access :: error where
  "bad_variant_access = make_error UNKNOWN ''std::bad_variant_access'' ''std::get''"

definition register_queue ::
    "('m, 'q) queue_ops \<Rightarrow> bus_id \<Rightarrow> nat \<Rightarrow> nat \<Rightarrow> ('m, 'q) channel \<Rightarrow> (error + unit) \<times> ('m, 'q) channel" where
  "register_queue ops eid cap keep ch =
     (case ch eid of
        Some _ \<Rightarrow> (Inl (already_registered_err (bus_context ''Channel<T>::register_queue'')), ch)
      | None \<Rightarrow>
          if keep = 1 then (Inr (), ch(eid \<mapsto> \<lparr>storage = Mailbox None, keep_last = keep\<rparr>))
          else (Inr (), ch(eid \<mapsto> \<lparr>storage = Queue (q_new ops cap), keep_last = keep\<rparr>)))"

definition unregister_queue :: "bus_id \<Rightarrow> ('m, 'q) channel \<Rightarrow> (error + unit) \<times> ('m, 'q) channel" where
  "unregister_queue eid ch =
     (case ch eid of
        None \<Rightarrow> (Inl (not_found_err (bus_context ''Channel<T>::unregister_queue'')), ch)
      | Some _ \<Rightarrow> (Inr (), ch(eid := None)))"

definition is_registered :: "bus_id \<Rightarrow> ('m, 'q) channel \<Rightarrow> bool" where
  "is_registered eid ch \<longleftrightarrow> ch eid \<noteq> None"

definition clear_channel :: "('m, 'q) channel \<Rightarrow> ('m, 'q) channel" where
  "clear_channel ch = Map.empty"

text \<open>\<^verbatim>\<open>publish(EntityId, const T&)\<close>.\<close>

definition publish_copy ::
    "('m, 'q) queue_ops \<Rightarrow> bus_id \<Rightarrow> 'm \<Rightarrow> ('m, 'q) channel \<Rightarrow> (error + unit) \<times> ('m, 'q) channel" where
  "publish_copy ops eid v ch =
     (let ctx = bus_context ''Channel<T>::publish''
      in case ch eid of
           None \<Rightarrow> (Inl (not_found_err ctx), ch)
         | Some entry \<Rightarrow>
             if keep_last entry = 1
             then (case storage entry of
                     Mailbox _ \<Rightarrow> (Inr (), ch(eid \<mapsto> entry\<lparr>storage := Mailbox (Some v)\<rparr>))
                   | Queue _ \<Rightarrow> (Inl bad_variant_access, ch))
             else (case storage entry of
                     Mailbox _ \<Rightarrow> (Inl bad_variant_access, ch)
                   | Queue q \<Rightarrow>
                       (case q_try_enqueue ops v q of
                          Some q' \<Rightarrow> (Inr (), ch(eid \<mapsto> entry\<lparr>storage := Queue q'\<rparr>))
                        | None \<Rightarrow>
                            if keep_last entry > 0
                            then (let q1 = (case q_try_dequeue ops q of None \<Rightarrow> q | Some (_, q') \<Rightarrow> q')
                                  in case q_try_enqueue ops v q1 of
                                       Some q2 \<Rightarrow> (Inr (), ch(eid \<mapsto> entry\<lparr>storage := Queue q2\<rparr>))
                                     | None \<Rightarrow> (Inl (queue_overflow_err ctx),
                                                ch(eid \<mapsto> entry\<lparr>storage := Queue q1\<rparr>)))
                            else (Inl (queue_overflow_err ctx), ch))))"

text \<open>\<^verbatim>\<open>publish(EntityId, T&&)\<close>: it makes space before it knows that space is needed.\<close>

definition publish_move ::
    "('m, 'q) queue_ops \<Rightarrow> bus_id \<Rightarrow> 'm \<Rightarrow> ('m, 'q) channel \<Rightarrow> (error + unit) \<times> ('m, 'q) channel" where
  "publish_move ops eid v ch =
     (let ctx = bus_context ''Channel<T>::publish''
      in case ch eid of
           None \<Rightarrow> (Inl (not_found_err ctx), ch)
         | Some entry \<Rightarrow>
             if keep_last entry = 1
             then (case storage entry of
                     Mailbox _ \<Rightarrow> (Inr (), ch(eid \<mapsto> entry\<lparr>storage := Mailbox (Some v)\<rparr>))
                   | Queue _ \<Rightarrow> (Inl bad_variant_access, ch))
             else (case storage entry of
                     Mailbox _ \<Rightarrow> (Inl bad_variant_access, ch)
                   | Queue q \<Rightarrow>
                       (let q1 = (if keep_last entry > 0
                                  then (case q_try_dequeue ops q of None \<Rightarrow> q | Some (_, q') \<Rightarrow> q')
                                  else q)
                        in case q_try_enqueue ops v q1 of
                             Some q2 \<Rightarrow> (Inr (), ch(eid \<mapsto> entry\<lparr>storage := Queue q2\<rparr>))
                           | None \<Rightarrow> (Inl (queue_overflow_err ctx),
                                      ch(eid \<mapsto> entry\<lparr>storage := Queue q1\<rparr>)))))"

definition try_dequeue ::
    "('m, 'q) queue_ops \<Rightarrow> bus_id \<Rightarrow> ('m, 'q) channel \<Rightarrow> (error + 'm) \<times> ('m, 'q) channel" where
  "try_dequeue ops eid ch =
     (let ctx = bus_context ''Channel<T>::try_dequeue''
      in case ch eid of
           None \<Rightarrow> (Inl (not_found_err ctx), ch)
         | Some entry \<Rightarrow>
             if keep_last entry = 1
             then (case storage entry of
                     Mailbox None \<Rightarrow> (Inl (no_message_available_err ctx), ch(eid \<mapsto> entry))
                   | Mailbox (Some m) \<Rightarrow> (Inr m, ch(eid \<mapsto> entry\<lparr>storage := Mailbox None\<rparr>))
                   | Queue _ \<Rightarrow> (Inl bad_variant_access, ch))
             else (case storage entry of
                     Mailbox _ \<Rightarrow> (Inl bad_variant_access, ch)
                   | Queue q \<Rightarrow>
                       (case q_try_dequeue ops q of
                          None \<Rightarrow> (Inl (no_message_available_err ctx), ch)
                        | Some (m, q') \<Rightarrow> (Inr m, ch(eid \<mapsto> entry\<lparr>storage := Queue q'\<rparr>)))))"

section \<open>What a channel holds\<close>

definition entry_wf :: "('m, 'q) bus_entry \<Rightarrow> bool" where
  "entry_wf e \<longleftrightarrow> (keep_last e = 1 \<longleftrightarrow> (case storage e of Mailbox _ \<Rightarrow> True | Queue _ \<Rightarrow> False))"

definition chan_wf :: "('m, 'q) channel \<Rightarrow> bool" where
  "chan_wf ch \<longleftrightarrow> (\<forall>eid e. ch eid = Some e \<longrightarrow> entry_wf e)"

definition waiting :: "('q \<Rightarrow> 'm list) \<Rightarrow> bus_id \<Rightarrow> ('m, 'q) channel \<Rightarrow> 'm list" where
  "waiting contents eid ch =
     (case ch eid of None \<Rightarrow> []
      | Some e \<Rightarrow> (case storage e of Mailbox None \<Rightarrow> [] | Mailbox (Some m) \<Rightarrow> [m] | Queue q \<Rightarrow> contents q))"

definition mode :: "bus_id \<Rightarrow> ('m, 'q) channel \<Rightarrow> nat option" where
  "mode eid ch = map_option keep_last (ch eid)"

lemma spsc_laws_new: "spsc_laws ops c k \<Longrightarrow> c (q_new ops n) = []"
  and spsc_laws_enq: "spsc_laws ops c k \<Longrightarrow> q_try_enqueue ops m q = Some q' \<Longrightarrow> c q' = c q @ [m]"
  and spsc_laws_deq: "spsc_laws ops c k \<Longrightarrow> q_try_dequeue ops q = Some (m, q') \<Longrightarrow> c q = m # c q'"
  and spsc_laws_none: "spsc_laws ops c k \<Longrightarrow> q_try_dequeue ops q = None \<longleftrightarrow> c q = []"
  by (simp_all add: spsc_laws_def)

lemmas spsc_laws_facts = spsc_laws_new spsc_laws_enq spsc_laws_deq spsc_laws_none

lemmas channel_splits = option.splits storage.splits if_splits prod.splits

lemma register_wf [inv_intros]: "chan_wf ch \<Longrightarrow> chan_wf (snd (register_queue ops eid cap keep ch))"
  by (auto simp: chan_wf_def register_queue_def entry_wf_def split: channel_splits)

lemma publish_copy_wf [inv_intros]: "chan_wf ch \<Longrightarrow> chan_wf (snd (publish_copy ops eid v ch))"
  by (auto simp: chan_wf_def publish_copy_def entry_wf_def Let_def split: channel_splits)

lemma publish_move_wf [inv_intros]: "chan_wf ch \<Longrightarrow> chan_wf (snd (publish_move ops eid v ch))"
  by (auto simp: chan_wf_def publish_move_def entry_wf_def Let_def split: channel_splits)

lemma try_dequeue_wf [inv_intros]: "chan_wf ch \<Longrightarrow> chan_wf (snd (try_dequeue ops eid ch))"
  by (auto simp: chan_wf_def try_dequeue_def entry_wf_def Let_def split: channel_splits)

lemma publish_copy_waiting:
  assumes "chan_wf ch" "spsc_laws ops contents capacity" "mode eid ch = Some keep"
  shows "case fst (publish_copy ops eid v ch) of
      Inr _ \<Rightarrow> waiting contents eid (snd (publish_copy ops eid v ch)) =
          (if keep = 1 then [v] else waiting contents eid ch @ [v]) \<or>
        keep > 1 \<and> waiting contents eid (snd (publish_copy ops eid v ch)) = tl (waiting contents eid ch) @ [v]
    | Inl e \<Rightarrow> keep \<noteq> 1 \<and> e = queue_overflow_err (bus_context ''Channel<T>::publish'')"
  using assms
  by (auto simp: mode_def publish_copy_def waiting_def chan_wf_def entry_wf_def Let_def spsc_laws_facts
      split: channel_splits sum.splits)

lemma try_dequeue_waiting:
  assumes "chan_wf ch" "spsc_laws ops contents capacity" "mode eid ch \<noteq> None"
  shows "case waiting contents eid ch of
      [] \<Rightarrow> fst (try_dequeue ops eid ch) = Inl (no_message_available_err (bus_context ''Channel<T>::try_dequeue'')) \<and>
            waiting contents eid (snd (try_dequeue ops eid ch)) = []
    | m # ms \<Rightarrow> fst (try_dequeue ops eid ch) = Inr m \<and> waiting contents eid (snd (try_dequeue ops eid ch)) = ms"
  using assms
  by (auto simp: mode_def try_dequeue_def waiting_def chan_wf_def entry_wf_def Let_def
      spsc_laws_facts(4)[OF assms(2)] dest: spsc_laws_facts(3)[OF assms(2)] split: channel_splits list.splits)

lemma mode_publish_copy [simp]: "mode eid (snd (publish_copy ops e v ch)) = mode eid ch"
  by (auto simp: mode_def publish_copy_def Let_def split: channel_splits)

lemma mode_publish_move [simp]: "mode eid (snd (publish_move ops e v ch)) = mode eid ch"
  by (auto simp: mode_def publish_move_def Let_def split: channel_splits)

lemma mode_try_dequeue [simp]: "mode eid (snd (try_dequeue ops e ch)) = mode eid ch"
  by (auto simp: mode_def try_dequeue_def Let_def split: channel_splits)

text \<open>An entity's messages do not depend on what is published to or taken from another.\<close>

lemma bus_frame:
  assumes "e \<noteq> eid"
  shows "waiting contents eid (snd (publish_copy ops e v ch)) = waiting contents eid ch"
    and "waiting contents eid (snd (publish_move ops e v ch)) = waiting contents eid ch"
    and "waiting contents eid (snd (try_dequeue ops e ch)) = waiting contents eid ch"
  using assms
  by (auto simp: waiting_def publish_copy_def publish_move_def try_dequeue_def Let_def split: channel_splits)

section \<open>Runs of one producer and one consumer\<close>

datatype 'm bus_op = Publish 'm | PublishMove 'm | Take | Elsewhere bus_id 'm

text \<open>The run keeps what was accepted and what was delivered for the entity.\<close>

fun bus_step ::
    "('m, 'q) queue_ops \<Rightarrow> bus_id \<Rightarrow> 'm bus_op \<Rightarrow> ('m, 'q) channel \<times> 'm list \<times> 'm list
     \<Rightarrow> ('m, 'q) channel \<times> 'm list \<times> 'm list" where
  "bus_step ops eid (Publish v) (ch, acc, del) =
     (case publish_copy ops eid v ch of (r, ch') \<Rightarrow> (ch', (case r of Inr _ \<Rightarrow> acc @ [v] | Inl _ \<Rightarrow> acc), del))"
| "bus_step ops eid (PublishMove v) (ch, acc, del) =
     (case publish_move ops eid v ch of (r, ch') \<Rightarrow> (ch', (case r of Inr _ \<Rightarrow> acc @ [v] | Inl _ \<Rightarrow> acc), del))"
| "bus_step ops eid Take (ch, acc, del) =
     (case try_dequeue ops eid ch of (r, ch') \<Rightarrow> (ch', acc, (case r of Inr m \<Rightarrow> del @ [m] | Inl _ \<Rightarrow> del)))"
| "bus_step ops eid (Elsewhere e v) (ch, acc, del) =
     (if e = eid then (ch, acc, del) else (snd (publish_copy ops e v ch), acc, del))"

definition bus_run ::
    "('m, 'q) queue_ops \<Rightarrow> bus_id \<Rightarrow> 'm bus_op list \<Rightarrow> ('m, 'q) channel \<Rightarrow> ('m, 'q) channel \<times> 'm list \<times> 'm list" where
  "bus_run ops eid os ch = fold (bus_step ops eid) os (ch, [], [])"

definition fifo_state :: "('q \<Rightarrow> 'm list) \<Rightarrow> bus_id \<Rightarrow> ('m, 'q) channel \<times> 'm list \<times> 'm list \<Rightarrow> bool" where
  "fifo_state contents eid st \<longleftrightarrow>
     chan_wf (fst st) \<and> mode eid (fst st) = Some 0 \<and>
     fst (snd st) = snd (snd st) @ waiting contents eid (fst st)"

lemma publish_move_unlimited:
  "mode eid ch = Some 0 \<Longrightarrow> chan_wf ch \<Longrightarrow> publish_move ops eid v ch = publish_copy ops eid v ch"
  by (auto simp: publish_move_def publish_copy_def mode_def chan_wf_def entry_wf_def Let_def
      split: channel_splits)

lemma publish_copy_unlimited:
  assumes "chan_wf ch" "spsc_laws ops contents capacity" "mode eid ch = Some 0"
  shows "waiting contents eid (snd (publish_copy ops eid v ch)) =
      waiting contents eid ch @ (case fst (publish_copy ops eid v ch) of Inr _ \<Rightarrow> [v] | Inl _ \<Rightarrow> [])"
proof -
  obtain e q where e: "ch eid = Some e" "storage e = Queue q" "keep_last e = 0"
  proof -
    obtain e where e: "ch eid = Some e" "keep_last e = 0" using assms(3) by (auto simp: mode_def)
    then have "entry_wf e" using assms(1) by (simp add: chan_wf_def)
    with e that show thesis by (cases "storage e") (auto simp: entry_wf_def)
  qed
  show ?thesis
  proof (cases "q_try_enqueue ops v q")
    case None
    with e show ?thesis by (simp add: publish_copy_def waiting_def Let_def)
  next
    case (Some q')
    with e spsc_laws_facts(2)[OF assms(2) Some] show ?thesis
      by (simp add: publish_copy_def waiting_def Let_def)
  qed
qed

lemma bus_step_fifo:
  assumes "spsc_laws ops contents capacity" "fifo_state contents eid (ch, acc, del)"
  shows "fifo_state contents eid (bus_step ops eid p (ch, acc, del))"
proof -
  have wf: "chan_wf ch" and m: "mode eid ch = Some 0" and eq: "acc = del @ waiting contents eid ch"
    using assms(2) by (simp_all add: fifo_state_def)
  have copy: "fifo_state contents eid (bus_step ops eid (Publish v) (ch, acc, del))" for v
    using publish_copy_unlimited[OF wf assms(1) m, of v] publish_copy_wf[OF wf, of ops eid v]
      mode_publish_copy[of eid ops eid v ch] m eq
    by (cases "publish_copy ops eid v ch") (simp add: fifo_state_def split: sum.splits)
  show ?thesis
  proof (cases p)
    case (Publish v) then show ?thesis using copy by simp
  next
    case (PublishMove v)
    then show ?thesis using copy[of v] by (simp add: publish_move_unlimited[OF m wf])
  next
    case Take
    have "mode eid ch \<noteq> None" using m by simp
    from try_dequeue_waiting[OF wf assms(1) this] try_dequeue_wf[OF wf, of ops eid]
      mode_try_dequeue[of eid ops eid ch]
    show ?thesis using Take m eq
      by (cases "try_dequeue ops eid ch") (simp add: fifo_state_def split: sum.splits list.splits)
  next
    case (Elsewhere e v)
    then show ?thesis
      using wf m eq publish_copy_wf[OF wf, of ops e v] by (simp add: fifo_state_def bus_frame(1))
  qed
qed

lemma register_fresh:
  assumes "spsc_laws ops contents capacity" "chan_wf ch" "\<not> is_registered eid ch"
  shows "fst (register_queue ops eid cap keep ch) = Inr ()"
    and "mode eid (snd (register_queue ops eid cap keep ch)) = Some keep"
    and "waiting contents eid (snd (register_queue ops eid cap keep ch)) = []"
  using assms spsc_laws_facts(1)[OF assms(1)]
  by (auto simp: register_queue_def is_registered_def mode_def waiting_def)

lemma bus_run_fifo:
  fixes os :: "'m bus_op list" and cap :: nat
  assumes laws: "spsc_laws ops contents capacity" and "chan_wf ch" "\<not> is_registered eid ch"
  defines "st \<equiv> bus_run ops eid os (snd (register_queue ops eid cap 0 ch))"
  shows "fst (snd st) = snd (snd st) @ waiting contents eid (fst st)"
proof -
  have "fifo_state contents eid (fold (bus_step ops eid) os (c, acc, del))"
    if "fifo_state contents eid (c, acc, del)" for c acc del
    using that
  proof (induction os arbitrary: c acc del)
    case (Cons p ps)
    obtain c' acc' del' where "bus_step ops eid p (c, acc, del) = (c', acc', del')" by (metis prod_cases3)
    with bus_step_fifo[OF laws Cons.prems, of p] Cons.IH show ?case by simp
  qed simp
  moreover have "fifo_state contents eid (snd (register_queue ops eid cap 0 ch), [], [])"
    using register_fresh[OF assms(1-3)] register_wf[OF assms(2)] by (simp add: fifo_state_def)
  ultimately have "fifo_state contents eid st" unfolding st_def bus_run_def by blast
  then show ?thesis by (simp add: fifo_state_def)
qed

section \<open>The keep-last modes\<close>

lemma mailbox_publish:
  assumes "chan_wf ch" "mode eid ch = Some 1"
  shows "publish_copy ops eid v ch = publish_move ops eid v ch" "fst (publish_copy ops eid v ch) = Inr ()"
    "waiting contents eid (snd (publish_copy ops eid v ch)) = [v]"
  using assms
  by (auto simp: mode_def chan_wf_def entry_wf_def publish_copy_def publish_move_def waiting_def Let_def
      split: channel_splits)

text \<open>A queue entry of a capacity, read through the laws.\<close>

definition queue_of :: "bus_id \<Rightarrow> ('m, 'q) channel \<Rightarrow> 'q option" where
  "queue_of eid ch = (case ch eid of None \<Rightarrow> None
     | Some e \<Rightarrow> (case storage e of Queue q \<Rightarrow> Some q | Mailbox _ \<Rightarrow> None))"

lemma waiting_queue_of: "queue_of eid ch = Some q \<Longrightarrow> waiting contents eid ch = contents q"
  by (auto simp: queue_of_def waiting_def split: channel_splits)

lemma publish_move_keep:
  assumes laws: "spsc_laws ops contents capacity" and "mode eid ch = Some keep" "1 < keep"
    and q: "queue_of eid ch = Some q" "0 < capacity q" "length (contents q) \<le> 1"
  shows "\<exists>q'. fst (publish_move ops eid v ch) = Inr () \<and>
      queue_of eid (snd (publish_move ops eid v ch)) = Some q' \<and>
      contents q' = [v] \<and> capacity q' = capacity q"
proof -
  obtain e where e: "ch eid = Some e" "storage e = Queue q" "keep_last e = keep"
    using assms(2) q(1) by (auto simp: mode_def queue_of_def split: channel_splits)
  define q1 where "q1 = (case q_try_dequeue ops q of None \<Rightarrow> q | Some (_, q') \<Rightarrow> q')"
  have q1: "contents q1 = []" "capacity q1 = capacity q"
    using laws q(3) unfolding spsc_laws_def q1_def
    by (auto split: option.splits)
  then have "q_try_enqueue ops v q1 \<noteq> None" using laws q(2) by (simp add: spsc_laws_def)
  then obtain q2 where q2: "q_try_enqueue ops v q1 = Some q2" by blast
  then have "contents q2 = [v]" "capacity q2 = capacity q" using laws q1 by (auto simp: spsc_laws_def)
  moreover have "publish_move ops eid v ch = (Inr (), ch(eid \<mapsto> e\<lparr>storage := Queue q2\<rparr>))"
    using e q2 assms(3) by (simp add: publish_move_def Let_def q1_def)
  ultimately show ?thesis by (simp add: queue_of_def)
qed

lemma publish_copy_room:
  assumes laws: "spsc_laws ops contents capacity" and "mode eid ch = Some keep" "keep \<noteq> 1"
    and q: "queue_of eid ch = Some q" "length (contents q) < capacity q"
  shows "\<exists>q'. fst (publish_copy ops eid v ch) = Inr () \<and>
      queue_of eid (snd (publish_copy ops eid v ch)) = Some q' \<and>
      contents q' = contents q @ [v] \<and> capacity q' = capacity q"
proof -
  obtain e where e: "ch eid = Some e" "storage e = Queue q" "keep_last e = keep"
    using assms(2) q(1) by (auto simp: mode_def queue_of_def split: channel_splits)
  obtain q2 where q2: "q_try_enqueue ops v q = Some q2"
    using laws q(2) unfolding spsc_laws_def by blast
  then have "contents q2 = contents q @ [v]" "capacity q2 = capacity q" using laws by (auto simp: spsc_laws_def)
  moreover have "publish_copy ops eid v ch = (Inr (), ch(eid \<mapsto> e\<lparr>storage := Queue q2\<rparr>))"
    using e q2 assms(3) by (simp add: publish_copy_def Let_def)
  ultimately show ?thesis by (simp add: queue_of_def)
qed

lemma register_queue_of:
  assumes "\<not> is_registered eid ch" "keep \<noteq> 1"
  shows "queue_of eid (snd (register_queue ops eid cap keep ch)) = Some (q_new ops cap)"
  using assms by (simp add: register_queue_def is_registered_def queue_of_def)

lemma fold_publish_move:
  assumes laws: "spsc_laws ops contents capacity" and "1 < keep"
  shows "mode eid ch = Some keep \<Longrightarrow> queue_of eid ch = Some q \<Longrightarrow> 0 < capacity q \<Longrightarrow>
      length (contents q) \<le> 1 \<Longrightarrow> vs \<noteq> [] \<Longrightarrow>
      waiting contents eid (fold (\<lambda>v c. snd (publish_move ops eid v c)) vs ch) = [last vs]"
proof (induction vs arbitrary: ch q)
  case (Cons v vs)
  obtain q' where q': "queue_of eid (snd (publish_move ops eid v ch)) = Some q'" "contents q' = [v]"
    "capacity q' = capacity q"
    using publish_move_keep[OF laws Cons.prems(1) assms(2) Cons.prems(2-4)] by blast
  show ?case
  proof (cases "vs = []")
    case True
    then show ?thesis using waiting_queue_of[OF q'(1)] q'(2) by simp
  next
    case False
    with Cons.IH[of "snd (publish_move ops eid v ch)" q'] Cons.prems q' show ?thesis by simp
  qed
qed simp

lemma fold_publish_copy:
  assumes laws: "spsc_laws ops contents capacity" and "keep \<noteq> 1"
  shows "mode eid ch = Some keep \<Longrightarrow> queue_of eid ch = Some q \<Longrightarrow>
      length (contents q) + length vs \<le> capacity q \<Longrightarrow>
      waiting contents eid (fold (\<lambda>v c. snd (publish_copy ops eid v c)) vs ch) = contents q @ vs"
proof (induction vs arbitrary: ch q)
  case Nil
  then show ?case using waiting_queue_of by simp
next
  case (Cons v vs)
  have "length (contents q) < capacity q" using Cons.prems(3) by simp
  from publish_copy_room[OF laws Cons.prems(1) assms(2) Cons.prems(2) this]
  obtain q' where q': "queue_of eid (snd (publish_copy ops eid v ch)) = Some q'" "contents q' = contents q @ [v]"
    "capacity q' = capacity q" by blast
  from Cons.IH[OF _ q'(1)] q' Cons.prems show ?case by simp
qed

section \<open>Properties\<close>

text \<open>C18: For a queue without a keep-last limit, whatever is published to it or to others and taken
  from it, the messages accepted are exactly those delivered followed by those waiting: nothing is
  lost, repeated or reordered.\<close>

theorem event_bus_fifo:
  assumes "spsc_laws ops contents capacity" "chan_wf ch" "\<not> is_registered eid ch"
  shows "let (ch', accepted, delivered) = bus_run ops eid calls (snd (register_queue ops eid cap 0 ch))
    in accepted = delivered @ waiting contents eid ch'"
  using bus_run_fifo[OF assms, of calls cap] by (simp add: case_prod_beta Let_def)

theorem event_bus_fifo_witness:
  "bus_run list_queue 7 [Publish ''a'', PublishMove ''b'', Take, Publish ''c'', Elsewhere 8 ''d'']
       (snd (register_queue list_queue 7 2 0 Map.empty)) =
     ([7 \<mapsto> \<lparr>storage = Queue (2, [''b'', ''c'']), keep_last = 0\<rparr>], [''a'', ''b'', ''c''], [''a'']) \<and>
   [''a'', ''b'', ''c''] = [''a''] @ waiting snd 7 (fst (bus_run list_queue 7
       [Publish ''a'', PublishMove ''b'', Take, Publish ''c'', Elsewhere 8 ''d'']
       (snd (register_queue list_queue 7 2 0 Map.empty))))"
proof -
  let ?ops = "[Publish ''a'', PublishMove ''b'', Take, Publish ''c'', Elsewhere 8 ''d'']"
  have run: "bus_run list_queue 7 ?ops (snd (register_queue list_queue 7 2 0 Map.empty)) =
     ([7 \<mapsto> \<lparr>storage = Queue (2, [''b'', ''c'']), keep_last = 0\<rparr>], [''a'', ''b'', ''c''], [''a''])"
    by (simp add: bus_run_def list_queue_def register_queue_def publish_copy_def publish_move_def
        try_dequeue_def Let_def)
  have "chan_wf Map.empty" "\<not> is_registered 7 Map.empty" by (simp_all add: chan_wf_def is_registered_def)
  from event_bus_fifo[OF list_queue_laws this, of ?ops 2] run show ?thesis by simp
qed

text \<open>Publishing by move to an entity with a keep-last limit above one keeps a single message, the
  last one, however large the limit and the queue are: the old message is taken out before the code
  knows that the queue is full.\<close>

theorem publish_move_keeps_only_last:
  assumes laws: "spsc_laws ops contents capacity" and fresh: "\<not> is_registered eid ch"
    and "1 < keep" "0 < cap" "vs \<noteq> []"
  shows "waiting contents eid
      (fold (\<lambda>v c. snd (publish_move ops eid v c)) vs (snd (register_queue ops eid cap keep ch))) = [last vs]"
proof -
  have q: "mode eid (snd (register_queue ops eid cap keep ch)) = Some keep"
    "queue_of eid (snd (register_queue ops eid cap keep ch)) = Some (q_new ops cap)"
    using fresh assms(3) by (simp_all add: register_queue_def is_registered_def mode_def queue_of_def)
  have "contents (q_new ops cap) = []" "cap \<le> capacity (q_new ops cap)"
    using laws by (auto simp: spsc_laws_def)
  with fold_publish_move[OF laws assms(3) q] assms(4,5) show ?thesis by simp
qed

theorem publish_move_keeps_only_last_witness:
  "waiting snd 7 (fold (\<lambda>v c. snd (publish_move list_queue 7 v c)) [''a'', ''b'', ''c'']
     (snd (register_queue list_queue 7 8 5 Map.empty))) = [''c'']"
  using publish_move_keeps_only_last[OF list_queue_laws, of 7 Map.empty 5 8 "[''a'', ''b'', ''c'']"]
  by (simp add: is_registered_def)

text \<open>Publishing by copy to an entity with a keep-last limit keeps every message while the queue has
  room.\<close>

theorem publish_copy_keeps_all:
  assumes laws: "spsc_laws ops contents capacity" and fresh: "\<not> is_registered eid ch"
    and "keep \<noteq> 1" "length vs \<le> cap"
  shows "waiting contents eid
      (fold (\<lambda>v c. snd (publish_copy ops eid v c)) vs (snd (register_queue ops eid cap keep ch))) = vs"
proof -
  have q: "mode eid (snd (register_queue ops eid cap keep ch)) = Some keep"
    "queue_of eid (snd (register_queue ops eid cap keep ch)) = Some (q_new ops cap)"
    using fresh assms(3) by (simp_all add: register_queue_def is_registered_def mode_def queue_of_def)
  have "contents (q_new ops cap) = []" "cap \<le> capacity (q_new ops cap)"
    using laws by (auto simp: spsc_laws_def)
  with fold_publish_copy[OF laws assms(3) q, of vs] assms(4) show ?thesis by simp
qed

theorem publish_copy_keeps_all_witness:
  "waiting snd 7 (fold (\<lambda>v c. snd (publish_copy list_queue 7 v c)) [''a'', ''b'', ''c'']
     (snd (register_queue list_queue 7 8 5 Map.empty))) = [''a'', ''b'', ''c'']"
  using publish_copy_keeps_all[OF list_queue_laws, of 7 Map.empty 5 "[''a'', ''b'', ''c'']" 8]
  by (simp add: is_registered_def)

end
