(* ===== verification/Simulator.thy ===== *)
theory Simulator
  imports WorldContacts MapManager RewardDeprecated EventBus
begin

text \<open>
  The simulator, \<^verbatim>\<open>sim/simulator.cpp\<close>: it creates a world for each episode, integrates the physics
  up to the next decision, accumulates the reward, ends episodes, and walks through the curriculum.
  The wall clock, the generators seeded for a new world and the queue of the event bus are parameters.
  A result is \<open>None\<close> where a loop of the code never ends, or a null pointer is followed.
\<close>

section \<open>Configuration\<close>

record spawn_overrides =
  ov_min_spawn_distance :: "real option"
  ov_max_spawn_distance :: "real option"
  ov_min_active_objects :: "nat option"
  ov_max_active_objects :: "nat option"

record curriculum_phase =
  ph_name :: string
  ph_maps :: "string list"
  promote_on_success_rate :: "real option"
  success_rate_window :: nat
  ph_spawn :: spawn_overrides

record sim_config =
  fixed_dt :: real
  decision_dt :: real
  max_decision_steps :: nat
  max_sim_seconds :: real
  collision_timeout :: real
  sc_spawn :: spawn_cfg
  curriculum_enabled :: bool
  curriculum_phases :: "curriculum_phase list"
  rng_seed :: "64 word"

record reward_config =
  reward_type :: string
  terminate_on_goal :: bool
  rc_weights :: reward_weights

section \<open>Seeds\<close>

definition mix_seed :: "64 word \<Rightarrow> 64 word \<Rightarrow> 64 word" where
  "mix_seed base_seed salt =
     (let x0 = base_seed + 0x9e3779b97f4a7c15 + push_bit 6 salt + drop_bit 2 salt;
          x1 = (xor x0 (drop_bit 30 x0)) * 0xbf58476d1ce4e5b9;
          x2 = (xor x1 (drop_bit 27 x1)) * 0x94d049bb133111eb
      in xor x2 (drop_bit 31 x2))"

text \<open>What a generator seeded with a number yields, for each use that a world makes of its seed.\<close>

record world_tapes =
  route_tape :: rng
  spawn_tape :: rng
  object_tapes :: "nat \<Rightarrow> rng"
  sensor_tapes :: "nat \<Rightarrow> rng \<times> rng"

definition draw_word :: "rng \<Rightarrow> 64 word \<times> rng" where
  "draw_word r0 = (let (n, r) = draw_index (2 ^ 32) r0 in (of_nat n, r))"

section \<open>State\<close>

record world_state_event =
  ev_sim_id :: "32 word"
  ev_timestamp :: real
  ev_state :: world_snapshot

text \<open>The environment of the code: the seeded generators, the heap of a delayed action, the median, the queues.\<close>

record 'q sim_env =
  seeded :: "64 word \<Rightarrow> world_tapes"
  seeded_rng :: "32 word \<Rightarrow> rng"
  env_nth :: nth_element_impl
  env_earliest :: earliest_impl
  env_queue :: "(world_state_event, 'q) queue_ops"

record 'q simulator =
  sim_cfg :: sim_config
  sim_world_cfg :: world_config
  sim_reward_cfg :: reward_config
  sim_pool :: "nat \<times> nat"
  sim_bus :: "(world_state_event, 'q) channel"
  sim_maps :: "map_manager option"
  sim_world :: "world option"
  current_map :: "map_config option"
  active_spawn_config :: "spawn_cfg option"
  reward_fn :: reward_fn
  sim_id :: "32 word"
  sim_rng :: rng
  sim_time_s :: real
  viz_publish_period :: "real option"
  next_viz_publish_time :: real
  visualization_enabled :: bool
  accumulated_reward :: real
  accumulated_terms :: reward_term_values
  episode_terminal :: bool
  initialized :: bool
  collision_timeout_s :: real
  collision_dwell_time :: real
  ep_return :: real
  episode_steps :: nat
  episode_index :: nat
  last_episode_success :: bool
  have_last_result :: bool
  phase_idx :: nat
  episodes_in_phase :: nat
  successes_in_phase :: nat
  success_window :: "bool list"
  step_time_accum :: real
  step_time_samples :: nat
  step_severity :: collision_severity
  step_contacts :: "collision_contact list"
  step_waypoint_reached :: bool
  step_goal_reached :: bool

text \<open>An operation that may fail: an error or a value, and the state it leaves.\<close>

type_synonym ('q, 'a) sim_op = "'q simulator \<Rightarrow> ((error + 'a) \<times> 'q simulator) option"

definition sim_then :: "('q, 'a) sim_op \<Rightarrow> ('a \<Rightarrow> ('q, 'b) sim_op) \<Rightarrow> ('q, 'b) sim_op" where
  "sim_then f g s = (case f s of None \<Rightarrow> None | Some (Inl e, s') \<Rightarrow> Some (Inl e, s') | Some (Inr x, s') \<Rightarrow> g x s')"

definition sim_error :: "string \<Rightarrow> string \<Rightarrow> error" where
  "sim_error what ctx = make_error SIM what (make_context ctx [])"

definition sim_error_from :: "error \<Rightarrow> string \<Rightarrow> error" where
  "sim_error_from e ctx = make_error_from e SIM (make_context ctx [])"

section \<open>Construction and destruction\<close>

record 'q sim_params =
  sp_config :: "sim_config option"
  sp_world_config :: "world_config option"
  sp_reward :: "reward_config option"
  sp_pool :: "(nat \<times> nat) option"
  sp_bus :: "(world_state_event, 'q) channel option"
  sp_initial_map :: "map_config option"
  sp_maps :: "map_manager option"
  sp_rate_hz :: real
  sp_sim_id :: "32 word"

text \<open>The queue may be registered already, for a simulator that is constructed again.\<close>

definition initial_simulator :: "'q sim_env \<Rightarrow> 'q sim_params \<Rightarrow> sim_config \<Rightarrow> world_config \<Rightarrow> reward_config \<Rightarrow> nat \<times> nat
    \<Rightarrow> (world_state_event, 'q) channel \<Rightarrow> 'q simulator" where
  "initial_simulator env p sc wc rc pool bus =
     \<lparr>sim_cfg = sc, sim_world_cfg = wc, sim_reward_cfg = rc, sim_pool = pool, sim_bus = bus,
      sim_maps = sp_maps p, sim_world = None, current_map = sp_initial_map p, active_spawn_config = None,
      reward_fn = create_reward_function (reward_type rc) (rc_weights rc), sim_id = sp_sim_id p,
      sim_rng = seeded_rng env (ucast (mix_seed (rng_seed sc) (ucast (sp_sim_id p)))), sim_time_s = 0,
      viz_publish_period = (if sp_rate_hz p > 0 then Some (1 / sp_rate_hz p) else None), next_viz_publish_time = 0,
      visualization_enabled = (sp_rate_hz p > 0), accumulated_reward = 0, accumulated_terms = Map.empty,
      episode_terminal = False, initialized = False, collision_timeout_s = collision_timeout sc,
      collision_dwell_time = 0, ep_return = 0, episode_steps = 0, episode_index = 0,
      last_episode_success = False, have_last_result = False, phase_idx = 0, episodes_in_phase = 0,
      successes_in_phase = 0, success_window = [], step_time_accum = 0, step_time_samples = 0,
      step_severity = no_severity, step_contacts = [], step_waypoint_reached = False, step_goal_reached = False\<rparr>"

definition make_simulator :: "'q sim_env \<Rightarrow> 'q sim_params \<Rightarrow> string + 'q simulator" where
  "make_simulator env p =
     (case (sp_config p, sp_world_config p) of
        (Some sc, Some wc) \<Rightarrow>
          (case sp_reward p of None \<Rightarrow> Inl ''Simulator RL configuration is null''
           | Some rc \<Rightarrow>
             (case sp_pool p of None \<Rightarrow> Inl ''Thread pool is null for Simulator''
              | Some pool \<Rightarrow>
                (case sp_bus p of None \<Rightarrow> Inl ''Event bus is null for Simulator''
                 | Some bus0 \<Rightarrow>
                   (case register_queue (env_queue env) (sp_sim_id p) 1024 1 bus0 of
                      (Inr u, bus) \<Rightarrow> Inr (initial_simulator env p sc wc rc pool bus)
                    | (Inl e, bus) \<Rightarrow>
                        if code e \<noteq> EVENT_BUS_REGISTERED
                        then Inl (''Failed to register world state event queue: '' @ error_to_string e)
                        else Inr (initial_simulator env p sc wc rc pool bus)))))
      | _ \<Rightarrow> Inl ''Simulator configuration or world configuration is null'')"

definition destroy_simulator :: "'q simulator \<Rightarrow> (world_state_event, 'q) channel" where
  "destroy_simulator s = snd (unregister_queue (sim_id s) (sim_bus s))"

section \<open>The curriculum\<close>

definition current_phase :: "'q simulator \<Rightarrow> curriculum_phase option" where
  "current_phase s =
     (let c = sim_cfg s
      in if \<not> curriculum_enabled c \<or> curriculum_phases c = [] \<or> phase_idx s \<ge> length (curriculum_phases c) then None
         else Some (curriculum_phases c ! phase_idx s))"

definition record_episode_outcome :: "bool \<Rightarrow> 'q simulator \<Rightarrow> 'q simulator" where
  "record_episode_outcome success s0 =
     (let s = s0\<lparr>episodes_in_phase := episodes_in_phase s0 + 1,
                 successes_in_phase := (if success then successes_in_phase s0 + 1 else successes_in_phase s0)\<rparr>;
          window = (case current_phase s of Some ph \<Rightarrow> success_rate_window ph | None \<Rightarrow> 0);
          w1 = success_window s @ [success]
      in s\<lparr>success_window := (if window > 0 then drop (length w1 - window) w1 else [])\<rparr>)"

definition success_rate :: "bool list \<Rightarrow> real" where
  "success_rate w = real (count_list w True) / real (length w)"

definition maybe_advance_curriculum :: "'q simulator \<Rightarrow> 'q simulator" where
  "maybe_advance_curriculum s =
     (let c = sim_cfg s; ph = curriculum_phases c ! phase_idx s
      in if \<not> curriculum_enabled c \<or> curriculum_phases c = [] then s
         else if phase_idx s + 1 \<ge> length (curriculum_phases c) then s
         else (case promote_on_success_rate ph of
                 None \<Rightarrow> s
               | Some r \<Rightarrow>
                   if success_rate_window ph > 0 \<and> length (success_window s) \<ge> success_rate_window ph \<and>
                      success_rate (success_window s) \<ge> r
                   then s\<lparr>phase_idx := phase_idx s + 1, episodes_in_phase := 0, successes_in_phase := 0, success_window := []\<rparr>
                   else s))"

text \<open>The outer option is a null map manager that is followed.\<close>

definition pick_phase_map :: "curriculum_phase option \<Rightarrow> 'q simulator \<Rightarrow> (map_config option \<times> 'q simulator) option" where
  "pick_phase_map phase s =
     (case phase of None \<Rightarrow> Some (None, s)
      | Some ph \<Rightarrow>
          if ph_maps ph = [] then Some (None, s)
          else let (i, r) = draw_index (length (ph_maps ph)) (sim_rng s)
               in map_option (\<lambda>mm. (get_map_by_name (ph_maps ph ! i) mm, s\<lparr>sim_rng := r\<rparr>)) (sim_maps s))"

definition widest_sensor :: "sensor_config \<Rightarrow> real \<times> real \<Rightarrow> real \<times> real" where
  "widest_sensor c = (\<lambda>(max_r, max_fov).
     (max max_r (max_range (base_config c)),
      case c of
        Lidar3D l \<Rightarrow> max max_fov (hfov l)
      | Lidar2D l \<Rightarrow> max max_fov (fov l)
      | DepthCamera cam \<Rightarrow> if fx cam > 1 / 1000000 then max max_fov (2 * arctan (real (width cam) / (2 * fx cam))) else max_fov))"

definition derive_perception_from_profile :: "robot_profile \<Rightarrow> spawn_cfg \<Rightarrow> spawn_cfg" where
  "derive_perception_from_profile prof c0 =
     (let (max_r, max_fov) = fold widest_sensor (profile_sensors prof) (0, 0);
          c1 = (if max_r > 1 / 1000 then c0\<lparr>fov_distance := max_r, max_sensor_range := max_r\<rparr> else c0)
      in if max_fov > 1 / 1000 then c1\<lparr>fov_angle_deg := clamp (max_fov * 180 / pi) 0 360\<rparr> else c1)"

definition override_with :: "'a option \<Rightarrow> 'a \<Rightarrow> 'a" where
  "override_with ov x = (case ov of Some v \<Rightarrow> v | None \<Rightarrow> x)"

definition apply_overrides :: "spawn_overrides \<Rightarrow> spawn_cfg \<Rightarrow> spawn_cfg" where
  "apply_overrides ov c =
     c\<lparr>min_spawn_distance := override_with (ov_min_spawn_distance ov) (min_spawn_distance c),
       max_spawn_distance := override_with (ov_max_spawn_distance ov) (max_spawn_distance c),
       min_active_objects := override_with (ov_min_active_objects ov) (min_active_objects c),
       max_active_objects := override_with (ov_max_active_objects ov) (max_active_objects c)\<rparr>"

text \<open>The result is never null.\<close>

definition build_spawn_config :: "curriculum_phase option \<Rightarrow> 'q simulator \<Rightarrow> spawn_cfg" where
  "build_spawn_config phase s =
     (let c0 = sc_spawn (sim_cfg s);
          c = (case robot_profiles (sim_world_cfg s) (robot_profile_id (robot_instance (sim_world_cfg s))) of
                 Some prof \<Rightarrow> derive_perception_from_profile prof c0 | None \<Rightarrow> c0)
      in (case phase of None \<Rightarrow> c | Some ph \<Rightarrow> apply_overrides (ph_spawn ph) c))"

section \<open>Publishing\<close>

definition publish_world_snapshot :: "'q sim_env \<Rightarrow> real \<Rightarrow> bool \<Rightarrow> ('q, unit) sim_op" where
  "publish_world_snapshot env t force s0 =
     (case (visualization_enabled s0, sim_world s0) of
        (True, Some w0) \<Rightarrow>
          if \<not> force \<and> t + k_eps < next_viz_publish_time s0 then Some (Inr (), s0)
          else let (snapshot, w) = capture_snapshot w0;
                   s1 = s0\<lparr>sim_world := Some w\<rparr>;
                   (res, bus) = publish_move (env_queue env) (sim_id s1)
                     \<lparr>ev_sim_id = sim_id s1, ev_timestamp = t, ev_state = snapshot\<rparr> (sim_bus s1);
                   s = s1\<lparr>sim_bus := bus\<rparr>
               in (case res of
                     Inl e \<Rightarrow> Some (Inl (sim_error_from e ''Simulator::publish_world_snapshot''), s)
                   | Inr u \<Rightarrow> Some (Inr (), (case viz_publish_period s of
                       Some d \<Rightarrow> s\<lparr>next_viz_publish_time := t + d\<rparr> | None \<Rightarrow> s)))
      | _ \<Rightarrow> Some (Inr (), s0))"

text \<open>The wall-clock time of a step goes into a window for the log.\<close>

definition step_timing_log_interval :: nat where "step_timing_log_interval = 120"

definition log_step_timing :: "real \<Rightarrow> 'q simulator \<Rightarrow> 'q simulator" where
  "log_step_timing secs s0 =
     (let s = s0\<lparr>step_time_accum := step_time_accum s0 + secs, step_time_samples := step_time_samples s0 + 1\<rparr>
      in if step_time_samples s < step_timing_log_interval then s else s\<lparr>step_time_accum := 0, step_time_samples := 0\<rparr>)"

section \<open>Results\<close>

record step_result =
  sr_observation :: observation
  sr_sim_time :: real
  sr_episode_done :: bool
  sr_time_limit_reached :: bool
  md_episode_index :: nat
  md_episode_step_count :: nat
  md_step_reward :: real
  md_episode_return :: real
  md_goal_reached :: bool
  md_reward_terms :: reward_term_values

section \<open>Reset\<close>

definition reset_episode_counters :: "'q simulator \<Rightarrow> 'q simulator" where
  "reset_episode_counters s0 =
     (let s = (if initialized s0 then s0\<lparr>episode_index := episode_index s0 + 1\<rparr> else s0\<lparr>initialized := True\<rparr>)
      in s\<lparr>ep_return := 0, episode_steps := 0\<rparr>)"

definition finish_episode :: "'q simulator \<Rightarrow> 'q simulator" where
  "finish_episode s =
     (if have_last_result s
      then (maybe_advance_curriculum (record_episode_outcome (last_episode_success s) s))\<lparr>have_last_result := False\<rparr>
      else s)"

definition params_of_world :: "'q sim_env \<Rightarrow> map_config \<Rightarrow> 64 word \<Rightarrow> 'q simulator \<Rightarrow> world_params" where
  "params_of_world env m seed s =
     (let tapes = seeded env seed
      in \<lparr>wp_config = Some (sim_world_cfg s), wp_map = Some m, wp_spawn = active_spawn_config s, wp_pool = Some (sim_pool s),
          wp_weights = Some (rc_weights (sim_reward_cfg s)), wp_sim_id = sim_id s, wp_route_tape = route_tape tapes,
          wp_spawn_tape = spawn_tape tapes, wp_object_tapes = object_tapes tapes, wp_sensor_tapes = sensor_tapes tapes\<rparr>)"

text \<open>The spawn configuration is moved into the world, whether its construction succeeds or throws.\<close>

definition create_world :: "'q sim_env \<Rightarrow> map_config \<Rightarrow> ('q, unit) sim_op" where
  "create_world env m s0 =
     (let (word, r) = draw_word (sim_rng s0); seed = mix_seed word (of_nat (episode_index s0 + 1));
          s = s0\<lparr>sim_rng := r, active_spawn_config := None\<rparr>
      in case make_world (env_nth env) (params_of_world env m seed s0) of
           None \<Rightarrow> None
         | Some (Inl what) \<Rightarrow> Some (Inl (sim_error (''Failed to create world: '' @ what) ''Simulator::create_world''), s)
         | Some (Inr w) \<Rightarrow> Some (Inr (), s\<lparr>sim_world := Some w, current_map := Some m\<rparr>))"

definition clear_step :: "'q simulator \<Rightarrow> 'q simulator" where
  "clear_step s =
     s\<lparr>step_severity := no_severity, step_contacts := [], step_waypoint_reached := False, step_goal_reached := False\<rparr>"

definition start_episode :: "'q simulator \<Rightarrow> 'q simulator" where
  "start_episode s =
     reset_episode_counters
       (clear_step (s\<lparr>sim_time_s := 0, next_viz_publish_time := 0, accumulated_reward := 0, accumulated_terms := Map.empty,
          episode_terminal := False, collision_dwell_time := 0, reward_fn := reward_reset (reward_fn s)\<rparr>))"

definition initial_result :: "observation \<Rightarrow> 'q simulator \<Rightarrow> step_result" where
  "initial_result ob s =
     \<lparr>sr_observation = ob, sr_sim_time = sim_time_s s, sr_episode_done = obs_is_terminal ob, sr_time_limit_reached = False,
      md_episode_index = episode_index s, md_episode_step_count = episode_steps s, md_step_reward = 0,
      md_episode_return = ep_return s, md_goal_reached = False, md_reward_terms = Map.empty\<rparr>"

text \<open>The first observation of the new world; the world exists here, and a missing one would be followed.\<close>

definition observe_start :: "('q, observation) sim_op" where
  "observe_start s =
     map_option (\<lambda>w. case build_initial_observation (sim_time_s s) w of
         Inl e \<Rightarrow> (Inl (sim_error_from e ''Simulator::reset''), s)
       | Inr ob \<Rightarrow> (Inr ob, s)) (sim_world s)"

definition sim_reset :: "'q sim_env \<Rightarrow> ('q, step_result) sim_op" where
  "sim_reset env s0 =
     (let s1 = finish_episode s0; phase = current_phase s1
      in case pick_phase_map phase s1 of
           None \<Rightarrow> None
         | Some (None, s2) \<Rightarrow> Some (Inl (sim_error ''Map configuration is null'' ''Simulator::reset''), s2)
         | Some (Some m, s2) \<Rightarrow>
             sim_then (create_world env m)
               (\<lambda>u s3. sim_then observe_start
                  (\<lambda>ob s4. sim_then (publish_world_snapshot env (sim_time_s s4) True) (\<lambda>u s5. Some (Inr (initial_result ob s5), s5)) s4)
                  (start_episode s3))
               (s2\<lparr>active_spawn_config := Some (build_spawn_config phase s2)\<rparr>))"

section \<open>Integration\<close>

instantiation severity_level :: linorder
begin

definition level_rank :: "severity_level \<Rightarrow> nat" where
  "level_rank l = (case l of NONE \<Rightarrow> 0 | MINOR \<Rightarrow> 1 | MODERATE \<Rightarrow> 2 | SEVERE \<Rightarrow> 3 | CRITICAL \<Rightarrow> 4)"

definition less_eq_severity_level :: "severity_level \<Rightarrow> severity_level \<Rightarrow> bool" where
  "less_eq_severity_level a b \<longleftrightarrow> level_rank a \<le> level_rank b"

definition less_severity_level :: "severity_level \<Rightarrow> severity_level \<Rightarrow> bool" where
  "less_severity_level a b \<longleftrightarrow> level_rank a < level_rank b"

instance
  by standard (auto simp: less_eq_severity_level_def less_severity_level_def level_rank_def split: severity_level.splits)

end

text \<open>One consumed report: the worst severity, the contacts, the end by severity or by the time in contact.\<close>

definition track_collision :: "real \<Rightarrow> collision_report option \<Rightarrow> 'q simulator \<Rightarrow> 'q simulator" where
  "track_collision dt report s0 =
     (case report of
        None \<Rightarrow> s0\<lparr>collision_dwell_time := 0\<rparr>
      | Some rep \<Rightarrow>
          (let sev = rep_severity rep;
               worse = (step_contacts s0 = [] \<or> severity_level sev > severity_level (step_severity s0));
               s1 = s0\<lparr>step_severity := (if worse then sev else step_severity s0), step_contacts := rep_contacts rep\<rparr>;
               s2 = (if severity_level sev \<ge> SEVERE then s1\<lparr>episode_terminal := True\<rparr> else s1)
           in if severity_is_active sev
              then let dwell = collision_dwell_time s2 + dt; s3 = s2\<lparr>collision_dwell_time := dwell\<rparr>
                   in if collision_timeout_s s3 > 0 \<and> dwell \<ge> collision_timeout_s s3 then s3\<lparr>episode_terminal := True\<rparr> else s3
              else s2\<lparr>collision_dwell_time := 0\<rparr>))"

definition add_terms :: "reward_term_values \<Rightarrow> reward_term_values \<Rightarrow> reward_term_values" where
  "add_terms acc new = (\<lambda>n. case new n of
       None \<Rightarrow> acc n
     | Some v \<Rightarrow> (case acc n of
           None \<Rightarrow> Some v
         | Some a \<Rightarrow> Some \<lparr>raw = raw a + raw v, weighted = weighted a + weighted v\<rparr>))"

text \<open>
  The telemetry of a substep: the step count and, when the episode has a time limit, whether the time
  after one more step is past it, although the time has been advanced already.
\<close>

definition substep_telemetry :: "real \<Rightarrow> reward_telemetry \<Rightarrow> 'q simulator \<Rightarrow> reward_telemetry" where
  "substep_telemetry dt tm s =
     (let limit = max_sim_seconds (sim_cfg s)
      in tm\<lparr>episode_step_count := episode_steps s,
            time_limit_reached := (if limit > 0 then sim_time_s s + dt \<ge> limit - k_eps else time_limit_reached tm)\<rparr>)"

definition reward_substep :: "real \<Rightarrow> reward_telemetry \<Rightarrow> 'q simulator \<Rightarrow> 'q simulator" where
  "reward_substep dt tm0 s0 =
     (let tm = substep_telemetry dt tm0 s0;
          s1 = (if waypoint_reached tm then s0\<lparr>step_waypoint_reached := True\<rparr> else s0);
          s2 = (if final_goal_reached tm
                then s1\<lparr>step_goal_reached := True,
                        episode_terminal := (terminate_on_goal (sim_reward_cfg s1) \<or> episode_terminal s1)\<rparr> else s1);
          (f, res) = reward_compute tm dt (step_severity s2) (severity_is_active (step_severity s2)) (reward_fn s2);
          s3 = s2\<lparr>reward_fn := f, accumulated_reward := accumulated_reward s2 + total res,
                  accumulated_terms := add_terms (accumulated_terms s2) (terms res)\<rparr>
      in if \<not> episode_terminal s3 \<and> reward_should_terminate f then s3\<lparr>episode_terminal := True\<rparr> else s3)"

text \<open>What follows the update of the world in a substep, up to publishing.\<close>

definition after_update :: "real \<Rightarrow> world \<Rightarrow> 'q simulator \<Rightarrow> 'q simulator" where
  "after_update dt w0 s0 =
     (let (report, w1) = consume_collision_report w0;
          s1 = track_collision dt report (s0\<lparr>sim_time_s := sim_time_s s0 + dt\<rparr>);
          (tm, w2) = world_telemetry w1
      in reward_substep dt tm (s1\<lparr>sim_world := Some w2\<rparr>))"

definition substep :: "'q sim_env \<Rightarrow> real \<Rightarrow> ('q, unit) sim_op" where
  "substep env target s0 =
     (case sim_world s0 of None \<Rightarrow> None
      | Some w0 \<Rightarrow>
          (let dt = min (fixed_dt (sim_cfg s0)) (target - sim_time_s s0)
           in case world_update (env_earliest env) dt w0 of
                None \<Rightarrow> None
              | Some (Inl e, w) \<Rightarrow> Some (Inl (sim_error_from e ''Simulator::integrate_until''), s0\<lparr>sim_world := Some w\<rparr>)
              | Some (Inr u, w) \<Rightarrow> (let s = after_update dt w s0 in publish_world_snapshot env (sim_time_s s) False s)))"

partial_function (option) substeps :: "'q sim_env \<Rightarrow> real \<Rightarrow> ('q, unit) sim_op" where
  "substeps env target s =
     (if sim_time_s s + k_eps < target
      then (case substep env target s of
              None \<Rightarrow> None
            | Some (Inl e, s') \<Rightarrow> Some (Inl e, s')
            | Some (Inr u, s') \<Rightarrow> substeps env target s')
      else Some (Inr (), s))"

definition integrate_until :: "'q sim_env \<Rightarrow> real \<Rightarrow> ('q, unit) sim_op" where
  "integrate_until env target s =
     (if fixed_dt (sim_cfg s) \<le> 0
      then Some (Inl (sim_error ''Physics fixed_dt must be positive'' ''Simulator::integrate_until''), s)
      else substeps env target s)"

section \<open>Step\<close>

definition apply_action_if_requested :: "action option \<Rightarrow> ('q, unit) sim_op" where
  "apply_action_if_requested request s =
     (case (request, sim_world s) of
        (None, _) \<Rightarrow> Some (Inr (), s)
      | (Some a, None) \<Rightarrow> None
      | (Some a0, Some w0) \<Rightarrow>
          (let a = (if act_timestamp a0 \<le> 0 then a0\<lparr>act_timestamp := sim_time_s s\<rparr> else a0);
               (res, w) = apply_action a w0
           in Some (case res of Inl e \<Rightarrow> Inl (sim_error_from e ''Simulator::apply_action_if_requested'') | Inr u \<Rightarrow> Inr (),
                    s\<lparr>sim_world := Some w\<rparr>)))"

definition step_limit_reached :: "'q simulator \<Rightarrow> bool" where
  "step_limit_reached s \<longleftrightarrow> max_decision_steps (sim_cfg s) > 0 \<and> episode_steps s + 1 \<ge> max_decision_steps (sim_cfg s)"

definition past_time_limit :: "real \<Rightarrow> 'q simulator \<Rightarrow> bool" where
  "past_time_limit target s \<longleftrightarrow> max_sim_seconds (sim_cfg s) > 0 \<and> target \<ge> max_sim_seconds (sim_cfg s) - k_eps"

text \<open>The end of a step: the limits, the observation, the books of the episode, the timing.\<close>

definition finish_step :: "real \<Rightarrow> real \<Rightarrow> ('q, step_result) sim_op" where
  "finish_step target secs s0 =
     (let time_up = past_time_limit target s0;
          s1 = (if step_limit_reached s0 \<or> time_up then s0\<lparr>episode_terminal := True\<rparr> else s0)
      in map_option
          (\<lambda>w. case on_decision_tick target (decision_dt (sim_cfg s1)) (accumulated_reward s1) (episode_terminal s1) w of
             Inl e \<Rightarrow> (Inl (sim_error_from e ''Simulator::step''), s1)
           | Inr ob \<Rightarrow>
               let finished = obs_is_terminal ob;
                   s2 = s1\<lparr>episode_terminal := finished, accumulated_reward := 0, accumulated_terms := Map.empty,
                           ep_return := ep_return s1 + obs_reward ob, episode_steps := episode_steps s1 + 1\<rparr>;
                   s3 = (if finished then s2\<lparr>last_episode_success := step_goal_reached s2, have_last_result := True\<rparr> else s2)
               in (Inr \<lparr>sr_observation = ob, sr_sim_time = target, sr_episode_done = finished, sr_time_limit_reached = time_up,
                        md_episode_index = episode_index s3, md_episode_step_count = episode_steps s3,
                        md_step_reward = obs_reward ob, md_episode_return = ep_return s3,
                        md_goal_reached = step_goal_reached s3, md_reward_terms = accumulated_terms s1\<rparr>,
                   log_step_timing secs s3))
          (sim_world s1))"

definition sim_step :: "'q sim_env \<Rightarrow> real \<Rightarrow> action option \<Rightarrow> ('q, step_result) sim_op" where
  "sim_step env secs request s0 =
     (if sim_world s0 = None then Some (Inl (sim_error ''Simulator world not initialized'' ''Simulator::step''), s0)
      else sim_then (apply_action_if_requested request)
        (\<lambda>u s1. let s2 = clear_step s1; target = sim_time_s s2 + decision_dt (sim_cfg s2)
           in sim_then (integrate_until env target) (\<lambda>u. finish_step target secs) s2) s0)"

end
