(* ===== verification/SimInv.thy ===== *)
theory SimInv
  imports Simulator
begin

text \<open>
  The calls of a simulator always return: the worlds it makes are sound, an update of a sound world
  returns, and the integration loop ends. What the episodes, the errors and the curriculum amount to.
\<close>

section \<open>The invariant of a simulator\<close>

definition maps_ok :: "world_config \<Rightarrow> map_manager \<Rightarrow> bool" where
  "maps_ok wc mm \<longleftrightarrow> (\<forall>n m. get_map_by_name n mm = Some m \<longrightarrow> entity_total wc m < 2 ^ 32)"

definition sim_ok :: "'q simulator \<Rightarrow> bool" where
  "sim_ok s \<longleftrightarrow> (\<exists>mm. sim_maps s = Some mm \<and> maps_ok (sim_world_cfg s) mm) \<and> world_config_ok (sim_world_cfg s) \<and>
     (\<forall>w. sim_world s = Some w \<longrightarrow> world_ok w)"

text \<open>What no call of a simulator changes, and the books of the episode.\<close>

definition settled :: "'q simulator \<Rightarrow> 'q simulator \<Rightarrow> bool" where
  "settled s s' \<longleftrightarrow> sim_maps s' = sim_maps s \<and> sim_world_cfg s' = sim_world_cfg s \<and> sim_cfg s' = sim_cfg s \<and>
     sim_reward_cfg s' = sim_reward_cfg s \<and> visualization_enabled s' = visualization_enabled s"

definition same_books :: "'q simulator \<Rightarrow> 'q simulator \<Rightarrow> bool" where
  "same_books s s' \<longleftrightarrow> ep_return s' = ep_return s \<and> episode_steps s' = episode_steps s \<and> episode_index s' = episode_index s \<and>
     have_last_result s' = have_last_result s \<and> last_episode_success s' = last_episode_success s \<and>
     phase_idx s' = phase_idx s \<and> success_window s' = success_window s"

lemma settled_refl [simp]: "settled s s" "same_books s s"
  by (simp_all add: settled_def same_books_def)

lemma settled_trans: "settled s s1 \<Longrightarrow> settled s1 s2 \<Longrightarrow> settled s s2" "same_books s s1 \<Longrightarrow> same_books s1 s2 \<Longrightarrow> same_books s s2"
  by (auto simp: settled_def same_books_def)

lemma sim_ok_cong: "sim_ok s \<Longrightarrow> settled s s' \<Longrightarrow> (\<And>w. sim_world s' = Some w \<Longrightarrow> world_ok w) \<Longrightarrow> sim_ok s'"
  by (simp add: sim_ok_def settled_def)

section \<open>Publishing and rewards\<close>

lemma publish_snapshot_ok:
  assumes "sim_ok s"
  shows "\<exists>res s'. publish_world_snapshot env t force s = Some (res, s') \<and> sim_ok s' \<and> settled s s' \<and> same_books s s' \<and>
    sim_time_s s' = sim_time_s s \<and> (sim_world s \<noteq> None \<longrightarrow> sim_world s' \<noteq> None) \<and>
    accumulated_reward s' = accumulated_reward s \<and> episode_terminal s' = episode_terminal s \<and> initialized s' = initialized s \<and>
    (\<not> visualization_enabled s \<longrightarrow> res = Inr ())"
proof (cases "visualization_enabled s \<and> sim_world s \<noteq> None \<and> \<not> (\<not> force \<and> t + k_eps < next_viz_publish_time s)")
  case False
  then have "publish_world_snapshot env t force s = Some (Inr (), s)"
    by (auto simp: publish_world_snapshot_def split: option.split bool.split)
  with assms show ?thesis by simp
next
  case True
  then obtain w0 where w0: "sim_world s = Some w0" by auto
  obtain snap w where c: "capture_snapshot w0 = (snap, w)" by fastforce
  have w: "world_ok w" using capture_ok[of w0] assms w0 c by (simp add: sim_ok_def)
  obtain res bus where p: "publish_move (env_queue env) (sim_id s) \<lparr>ev_sim_id = sim_id s, ev_timestamp = t, ev_state = snap\<rparr> (sim_bus s) = (res, bus)" by fastforce
  have pub: "publish_world_snapshot env t force s = (let s1 = s\<lparr>sim_world := Some w, sim_bus := bus\<rparr> in
      case res of Inl e \<Rightarrow> Some (Inl (sim_error_from e ''Simulator::publish_world_snapshot''), s1)
      | Inr u \<Rightarrow> Some (Inr (), (case viz_publish_period s of Some d \<Rightarrow> s1\<lparr>next_viz_publish_time := t + d\<rparr> | None \<Rightarrow> s1)))"
    using True w0 c p by (cases res; cases "viz_publish_period s") (auto simp: publish_world_snapshot_def Let_def)
  have ok: "sim_ok (s\<lparr>sim_world := Some w, sim_bus := bus\<rparr>)" "sim_ok (s\<lparr>sim_world := Some w, sim_bus := bus, next_viz_publish_time := x\<rparr>)" for x
    using assms w by (simp_all add: sim_ok_def)
  show ?thesis unfolding pub
    by (cases res; cases "viz_publish_period s") (use ok w0 True in \<open>simp_all add: Let_def settled_def same_books_def\<close>)
qed

lemma track_collision_keeps:
  "settled s (track_collision dt rep s)" "same_books s (track_collision dt rep s)" "sim_time_s (track_collision dt rep s) = sim_time_s s"
  "sim_world (track_collision dt rep s) = sim_world s"
  by (auto simp: track_collision_def Let_def settled_def same_books_def split: option.split)

lemma reward_substep_keeps:
  "settled s (reward_substep dt tm s)" "same_books s (reward_substep dt tm s)" "sim_time_s (reward_substep dt tm s) = sim_time_s s"
  "sim_world (reward_substep dt tm s) = sim_world s"
  by (auto simp: reward_substep_def Let_def case_prod_beta settled_def same_books_def)

lemma after_update_ok:
  assumes "sim_ok s" "world_ok w"
  shows "sim_ok (after_update dt w s) \<and> settled s (after_update dt w s) \<and> same_books s (after_update dt w s) \<and>
    sim_time_s (after_update dt w s) = sim_time_s s + dt \<and> sim_world (after_update dt w s) \<noteq> None"
proof -
  define w1 where "w1 = snd (consume_collision_report w)"
  define s1 where "s1 = track_collision dt (fst (consume_collision_report w)) (s\<lparr>sim_time_s := sim_time_s s + dt\<rparr>)"
  define s2 where "s2 = s1\<lparr>sim_world := Some (snd (world_telemetry w1))\<rparr>"
  have eq: "after_update dt w s = reward_substep dt (fst (world_telemetry w1)) s2"
    by (simp add: after_update_def w1_def s1_def s2_def case_prod_beta Let_def)
  have w2: "world_ok (snd (world_telemetry w1))" using assms(2) consume_ok telemetry_ok by (auto simp: w1_def)
  have k1: "settled s s1" "same_books s s1" "sim_time_s s1 = sim_time_s s + dt"
    using track_collision_keeps[where s = "s\<lparr>sim_time_s := sim_time_s s + dt\<rparr>" and dt = dt and rep = "fst (consume_collision_report w)"]
    by (simp_all add: s1_def settled_def same_books_def)
  have k2: "settled s s2" "same_books s s2" "sim_time_s s2 = sim_time_s s + dt" "sim_world s2 = Some (snd (world_telemetry w1))"
    using k1 by (simp_all add: s2_def settled_def same_books_def)
  note r = reward_substep_keeps[where s = s2 and dt = dt and tm = "fst (world_telemetry w1)"]
  have "settled s (after_update dt w s)" "same_books s (after_update dt w s)"
    unfolding eq using settled_trans k2 r by blast+
  moreover have "sim_ok (after_update dt w s)"
    by (rule sim_ok_cong[OF assms(1) calculation(1)]) (use r k2 w2 in \<open>simp add: eq\<close>)
  ultimately show ?thesis using r k2 by (simp add: eq)
qed

section \<open>Integration ends\<close>

lemma substep_ok:
  assumes "sim_ok s" "sim_world s \<noteq> None" "0 < fixed_dt (sim_cfg s)" "sim_time_s s < target"
  shows "\<exists>res s'. substep env target s = Some (res, s') \<and> sim_ok s' \<and> settled s s' \<and> same_books s s' \<and> sim_world s' \<noteq> None \<and>
    sim_time_s s' = sim_time_s s + min (fixed_dt (sim_cfg s)) (target - sim_time_s s) \<and> (\<not> visualization_enabled s \<longrightarrow> res = Inr ())"
proof -
  obtain w0 where w0: "sim_world s = Some w0" "world_ok w0" using assms(1,2) by (auto simp: sim_ok_def)
  let ?dt = "min (fixed_dt (sim_cfg s)) (target - sim_time_s s)"
  have "0 < ?dt" using assms(3,4) by simp
  from world_update_contacts[OF w0(2) this, of "env_earliest env"] obtain w where
    w: "world_update (env_earliest env) ?dt w0 = Some (Inr (), w)" "world_ok w" by blast
  let ?s = "after_update ?dt w s"
  note a = after_update_ok[OF assms(1) w(2), of ?dt]
  obtain res s' where p: "publish_world_snapshot env (sim_time_s ?s) False ?s = Some (res, s')" "sim_ok s'" "settled ?s s'" "same_books ?s s'"
    "sim_time_s s' = sim_time_s ?s" "sim_world s' \<noteq> None" "\<not> visualization_enabled ?s \<longrightarrow> res = Inr ()"
    using publish_snapshot_ok[OF a[THEN conjunct1], of env "sim_time_s ?s" False] a by blast
  have "substep env target s = Some (res, s')" using w0 w p(1) by (simp add: substep_def Let_def)
  moreover have "settled s s'" "same_books s s'" using a p(3,4) settled_trans by blast+
  ultimately show ?thesis using p a by (simp add: settled_def)
qed

text \<open>The number of substeps is at most the time left over the length of a substep.\<close>

lemma substeps_ends:
  "sim_ok s \<Longrightarrow> sim_world s \<noteq> None \<Longrightarrow> 0 < fixed_dt (sim_cfg s) \<Longrightarrow> sim_time_s s \<le> target \<Longrightarrow> target - sim_time_s s \<le> real n * fixed_dt (sim_cfg s) \<Longrightarrow>
   \<exists>res s'. substeps env target s = Some (res, s') \<and> sim_ok s' \<and> settled s s' \<and> same_books s s' \<and> sim_world s' \<noteq> None \<and>
     sim_time_s s' \<le> target \<and> (res = Inr () \<longrightarrow> target - k_eps \<le> sim_time_s s') \<and>
     (\<not> visualization_enabled s \<longrightarrow> res = Inr ())"
proof (induction n arbitrary: s)
  case 0
  then show ?case by (subst substeps.simps) (simp add: k_eps_def)
next
  case (Suc n)
  show ?case
  proof (cases "sim_time_s s + k_eps < target")
    case False
    then show ?thesis using Suc.prems by (subst substeps.simps) simp
  next
    case True
    then have lt: "sim_time_s s < target" by (simp add: k_eps_def)
    from substep_ok[OF Suc.prems(1-3) this, of env] obtain res s1 where
      s1: "substep env target s = Some (res, s1)" "sim_ok s1" "settled s s1" "same_books s s1" "sim_world s1 \<noteq> None"
      "sim_time_s s1 = sim_time_s s + min (fixed_dt (sim_cfg s)) (target - sim_time_s s)" "\<not> visualization_enabled s \<longrightarrow> res = Inr ()" by blast
    show ?thesis
    proof (cases res)
      case (Inl e)
      then show ?thesis using True s1 lt by (subst substeps.simps) simp
    next
      case (Inr u)
      have eq: "substeps env target s = substeps env target s1" using True s1(1) Inr by (subst substeps.simps) simp
      have c: "sim_cfg s1 = sim_cfg s" using s1(3) by (simp add: settled_def)
      have "target - sim_time_s s1 \<le> real n * fixed_dt (sim_cfg s1)" using Suc.prems(3,5) s1(6) by (simp add: c min_def algebra_simps)
      moreover have "sim_time_s s1 \<le> target" "0 < fixed_dt (sim_cfg s1)" using s1(6) Suc.prems(3) by (simp_all add: c min_def)
      ultimately obtain res' s' where
        r: "substeps env target s1 = Some (res', s')" "sim_ok s'" "settled s1 s'" "same_books s1 s'" "sim_world s' \<noteq> None"
        "sim_time_s s' \<le> target \<and> (res' = Inr () \<longrightarrow> target - k_eps \<le> sim_time_s s') \<and> (\<not> visualization_enabled s1 \<longrightarrow> res' = Inr ())"
        using Suc.IH[of s1] s1(2,5) by blast
      have v: "visualization_enabled s1 = visualization_enabled s" using s1(3) by (simp add: settled_def)
      note settled_trans(1)[OF s1(3) r(3)] settled_trans(2)[OF s1(4) r(4)]
      then show ?thesis unfolding eq using r v by simp
    qed
  qed
qed

section \<open>Every call returns\<close>

lemma integrate_until_ok:
  assumes "sim_ok s" "sim_world s \<noteq> None"
  shows "\<exists>res s'. integrate_until env target s = Some (res, s') \<and> sim_ok s' \<and> settled s s' \<and> same_books s s' \<and> sim_world s' \<noteq> None \<and>
    (fixed_dt (sim_cfg s) \<le> 0 \<longrightarrow> res = Inl (sim_error ''Physics fixed_dt must be positive'' ''Simulator::integrate_until'') \<and> s' = s) \<and>
    (res = Inr () \<and> sim_time_s s \<le> target \<longrightarrow> sim_time_s s' \<le> target \<and> target - k_eps \<le> sim_time_s s') \<and>
    (\<not> visualization_enabled s \<and> 0 < fixed_dt (sim_cfg s) \<longrightarrow> res = Inr ())"
proof (cases "fixed_dt (sim_cfg s) \<le> 0")
  case True
  with assms show ?thesis by (simp add: integrate_until_def)
next
  case False
  then have pos: "0 < fixed_dt (sim_cfg s)" by simp
  show ?thesis
  proof (cases "sim_time_s s \<le> target")
    case True
    obtain n where "(target - sim_time_s s) / fixed_dt (sim_cfg s) \<le> real n" using real_arch_simple by blast
    then have "target - sim_time_s s \<le> real n * fixed_dt (sim_cfg s)" using pos by (simp add: field_simps)
    from substeps_ends[OF assms pos True this, of env] obtain res s' where
      "substeps env target s = Some (res, s')" "sim_ok s' \<and> settled s s' \<and> same_books s s' \<and> sim_world s' \<noteq> None \<and>
       sim_time_s s' \<le> target \<and> (res = Inr () \<longrightarrow> target - k_eps \<le> sim_time_s s') \<and> (\<not> visualization_enabled s \<longrightarrow> res = Inr ())" by blast
    with False show ?thesis by (simp add: integrate_until_def)
  next
    case False2: False
    then have "substeps env target s = Some (Inr (), s)" by (subst substeps.simps) (simp add: k_eps_def)
    with False False2 assms show ?thesis by (simp add: integrate_until_def)
  qed
qed

lemma tick_result:
  "on_decision_tick t d rew terminal w = Inr ob \<Longrightarrow> obs_reward ob = rew \<and> obs_is_terminal ob = terminal"
  "\<exists>ob. on_decision_tick t d rew terminal w = Inr ob"
  "\<exists>ob. build_initial_observation t w = Inr ob \<and> obs_is_terminal ob = False"
  by (auto simp: on_decision_tick_def build_initial_observation_def build_observation_def populate_route_observation_def Let_def)

lemma log_step_timing_keeps [simp]:
  "settled s (log_step_timing secs s')  = settled s s'" "same_books s (log_step_timing secs s') = same_books s s'"
  "sim_world (log_step_timing secs s') = sim_world s'" "sim_time_s (log_step_timing secs s') = sim_time_s s'"
  "ep_return (log_step_timing secs s') = ep_return s'" "episode_steps (log_step_timing secs s') = episode_steps s'"
  "episode_index (log_step_timing secs s') = episode_index s'" "have_last_result (log_step_timing secs s') = have_last_result s'"
  "last_episode_success (log_step_timing secs s') = last_episode_success s'"
  "phase_idx (log_step_timing secs s') = phase_idx s'" "success_window (log_step_timing secs s') = success_window s'"
  by (simp_all add: log_step_timing_def Let_def settled_def same_books_def)

text \<open>The books after a step that the simulator has taken.\<close>

definition step_booked :: "'q simulator \<Rightarrow> real \<Rightarrow> step_result \<Rightarrow> 'q simulator \<Rightarrow> bool" where
  "step_booked s target r s' \<longleftrightarrow>
     sr_sim_time r = target \<and> sr_episode_done r = obs_is_terminal (sr_observation r) \<and> md_step_reward r = obs_reward (sr_observation r) \<and>
     ep_return s' = ep_return s + md_step_reward r \<and> md_episode_return r = ep_return s' \<and>
     episode_steps s' = episode_steps s + 1 \<and> md_episode_step_count r = episode_steps s' \<and>
     episode_index s' = episode_index s \<and> md_episode_index r = episode_index s' \<and>
     (max_decision_steps (sim_cfg s) > 0 \<and> episode_steps s' \<ge> max_decision_steps (sim_cfg s) \<longrightarrow> sr_episode_done r) \<and>
     (sr_time_limit_reached r \<longleftrightarrow> max_sim_seconds (sim_cfg s) > 0 \<and> target \<ge> max_sim_seconds (sim_cfg s) - k_eps) \<and>
     (sr_time_limit_reached r \<longrightarrow> sr_episode_done r) \<and>
     (have_last_result s' \<longleftrightarrow> sr_episode_done r \<or> have_last_result s) \<and>
     last_episode_success s' = (if sr_episode_done r then md_goal_reached r else last_episode_success s) \<and>
     phase_idx s' = phase_idx s \<and> success_window s' = success_window s"

lemma step_booked_cong: "settled s s1 \<Longrightarrow> same_books s s1 \<Longrightarrow> step_booked s1 t r s' = step_booked s t r s'"
  by (simp add: step_booked_def settled_def same_books_def)

lemma finish_step_ok:
  assumes "sim_ok s" "sim_world s \<noteq> None"
  shows "\<exists>r s'. finish_step target secs s = Some (Inr r, s') \<and> sim_ok s' \<and> settled s s' \<and> sim_world s' \<noteq> None \<and>
    sim_time_s s' = sim_time_s s \<and> step_booked s target r s'"
proof -
  obtain w where w: "sim_world s = Some w" "world_ok w" using assms by (auto simp: sim_ok_def)
  define s1 where "s1 = (if step_limit_reached s \<or> past_time_limit target s then s\<lparr>episode_terminal := True\<rparr> else s)"
  obtain ob where ob: "on_decision_tick target (decision_dt (sim_cfg s1)) (accumulated_reward s1) (episode_terminal s1) w = Inr ob"
    using tick_result(2) by blast
  have k: "sim_world s1 = Some w" "settled s s1" "same_books s s1" "sim_time_s s1 = sim_time_s s"
    "step_limit_reached s \<or> past_time_limit target s \<longrightarrow> episode_terminal s1" "obs_is_terminal ob = episode_terminal s1"
    using w tick_result(1)[OF ob] by (auto simp: s1_def settled_def same_books_def)
  define s2 where "s2 = s1\<lparr>episode_terminal := obs_is_terminal ob, accumulated_reward := 0, accumulated_terms := Map.empty,
      ep_return := ep_return s1 + obs_reward ob, episode_steps := episode_steps s1 + 1\<rparr>"
  define s3 where "s3 = (if obs_is_terminal ob then s2\<lparr>last_episode_success := step_goal_reached s2, have_last_result := True\<rparr> else s2)"
  define r where "r = \<lparr>sr_observation = ob, sr_sim_time = target, sr_episode_done = obs_is_terminal ob,
      sr_time_limit_reached = past_time_limit target s, md_episode_index = episode_index s3, md_episode_step_count = episode_steps s3,
      md_step_reward = obs_reward ob, md_episode_return = ep_return s3, md_goal_reached = step_goal_reached s3,
      md_reward_terms = accumulated_terms s1\<rparr>"
  have fin: "finish_step target secs s = Some (Inr r, log_step_timing secs s3)"
    by (simp only: finish_step_def Let_def s1_def[symmetric] k(1) option.map ob sum.case s2_def[symmetric] s3_def[symmetric] r_def)
  have k2: "settled s s2" "sim_world s2 = Some w" "sim_time_s s2 = sim_time_s s" "ep_return s2 = ep_return s + obs_reward ob"
    "episode_steps s2 = episode_steps s + 1" "episode_index s2 = episode_index s" "have_last_result s2 = have_last_result s"
    "last_episode_success s2 = last_episode_success s" "phase_idx s2 = phase_idx s" "success_window s2 = success_window s"
    using k by (simp_all add: s2_def settled_def same_books_def)
  have k3: "settled s s3" "sim_world s3 = Some w" "sim_time_s s3 = sim_time_s s" "ep_return s3 = ep_return s + obs_reward ob"
    "episode_steps s3 = episode_steps s + 1" "episode_index s3 = episode_index s" "have_last_result s3 \<longleftrightarrow> obs_is_terminal ob \<or> have_last_result s"
    "last_episode_success s3 = (if obs_is_terminal ob then step_goal_reached s3 else last_episode_success s)"
    "phase_idx s3 = phase_idx s" "success_window s3 = success_window s"
    using k2 by (simp_all add: s3_def settled_def)
  have "settled s (log_step_timing secs s3)" using k3 by simp
  moreover have "sim_ok (log_step_timing secs s3)" by (rule sim_ok_cong[OF assms(1) calculation]) (use k3 w in simp)
  moreover have "step_booked s target r (log_step_timing secs s3)"
    using k3 k(5,6) by (simp add: step_booked_def r_def step_limit_reached_def past_time_limit_def)
  moreover have "sim_world (log_step_timing secs s3) \<noteq> None" "sim_time_s (log_step_timing secs s3) = sim_time_s s" using k3 by simp_all
  ultimately show ?thesis using fin by blast
qed

text \<open>A step that fails leaves the books as they were.\<close>

lemma sim_step_ok:
  assumes "sim_ok s"
  shows "\<exists>res s'. sim_step env secs a s = Some (res, s') \<and> sim_ok s' \<and> settled s s' \<and>
    (case res of Inl e \<Rightarrow> same_books s s'
     | Inr r \<Rightarrow> sim_world s' \<noteq> None \<and> step_booked s (sim_time_s s + decision_dt (sim_cfg s)) r s' \<and>
         (0 \<le> decision_dt (sim_cfg s) \<longrightarrow> sim_time_s s' \<le> sr_sim_time r \<and> sr_sim_time r - k_eps \<le> sim_time_s s')) \<and>
    (sim_world s = None \<longrightarrow> res = Inl (sim_error ''Simulator world not initialized'' ''Simulator::step'')) \<and>
    (sim_world s \<noteq> None \<and> fixed_dt (sim_cfg s) \<le> 0 \<longrightarrow> res = Inl (sim_error ''Physics fixed_dt must be positive'' ''Simulator::integrate_until'')) \<and>
    (sim_world s \<noteq> None \<and> 0 < fixed_dt (sim_cfg s) \<and> \<not> visualization_enabled s \<longrightarrow> (\<exists>r. res = Inr r))"
proof (cases "sim_world s")
  case None
  with assms show ?thesis by (simp add: sim_step_def)
next
  case (Some w)
  have w: "world_ok w" using assms Some by (simp add: sim_ok_def)
  obtain w1 where req: "apply_action_if_requested a s = Some (Inr (), s\<lparr>sim_world := Some w1\<rparr>)" "world_ok w1"
  proof (cases a)
    case None
    then show ?thesis using that[of w] w Some by (simp add: apply_action_if_requested_def)
  next
    case act: (Some b)
    let ?b = "if act_timestamp b \<le> 0 then b\<lparr>act_timestamp := sim_time_s s\<rparr> else b"
    obtain x w2 where x: "apply_action ?b w = (x, w2)" by fastforce
    then show ?thesis using that[of w2] apply_action_ok[OF w, of ?b] act Some
      by (simp add: apply_action_if_requested_def Let_def)
  qed
  define s2 where "s2 = clear_step (s\<lparr>sim_world := Some w1\<rparr>)"
  let ?t = "sim_time_s s + decision_dt (sim_cfg s)"
  have k2: "sim_world s2 = Some w1" "settled s s2" "same_books s s2" "sim_time_s s2 = sim_time_s s" "sim_cfg s2 = sim_cfg s"
    "visualization_enabled s2 = visualization_enabled s"
    by (simp_all add: s2_def clear_step_def settled_def same_books_def)
  have ok2: "sim_ok s2" by (rule sim_ok_cong[OF assms k2(2)]) (use k2 req in simp)
  have "sim_step env secs a s = sim_then (apply_action_if_requested a)
      (\<lambda>u s1. let s2 = clear_step s1; target = sim_time_s s2 + decision_dt (sim_cfg s2)
         in sim_then (integrate_until env target) (\<lambda>u. finish_step target secs) s2) s"
    using Some by (simp add: sim_step_def)
  also have "\<dots> = sim_then (integrate_until env ?t) (\<lambda>u. finish_step ?t secs) s2"
    unfolding sim_then_def[of "apply_action_if_requested a"] req(1) by (simp only: option.case prod.case sum.case Let_def s2_def[symmetric] k2(4,5))
  finally have step: "sim_step env secs a s = sim_then (integrate_until env ?t) (\<lambda>u. finish_step ?t secs) s2" .
  obtain res s3 where i: "integrate_until env ?t s2 = Some (res, s3)" "sim_ok s3" "settled s2 s3" "same_books s2 s3" "sim_world s3 \<noteq> None"
    "res = Inr () \<and> sim_time_s s2 \<le> ?t \<longrightarrow> sim_time_s s3 \<le> ?t \<and> ?t - k_eps \<le> sim_time_s s3"
    "fixed_dt (sim_cfg s) \<le> 0 \<longrightarrow> res = Inl (sim_error ''Physics fixed_dt must be positive'' ''Simulator::integrate_until'')"
    "\<not> visualization_enabled s \<and> 0 < fixed_dt (sim_cfg s) \<longrightarrow> res = Inr ()"
    using integrate_until_ok[OF ok2, of env ?t] k2(1,5,6) by auto
  have k3: "settled s s3" "same_books s s3" using k2 i settled_trans by blast+
  show ?thesis
  proof (cases res)
    case (Inl e)
    then show ?thesis using step i k3 Some by (auto simp: sim_then_def)
  next
    case (Inr u)
    obtain r s4 where f: "finish_step ?t secs s3 = Some (Inr r, s4)" "sim_ok s4" "settled s3 s4" "sim_world s4 \<noteq> None"
      "sim_time_s s4 = sim_time_s s3" "step_booked s3 ?t r s4" using finish_step_ok[OF i(2,5), of ?t secs] by blast
    have "step_booked s ?t r s4" using f(6) unfolding step_booked_cong[OF k3] .
    moreover have "sr_sim_time r = ?t" using f(6) by (simp add: step_booked_def)
    moreover have "settled s s4" using k3 f(3) settled_trans by blast
    ultimately show ?thesis using step i f Inr k2 Some by (auto simp: sim_then_def)
  qed
qed

section \<open>Reset\<close>

lemma record_outcome_keeps:
  fixes s b defines "s' \<equiv> record_episode_outcome b s"
  shows "settled s s'" "sim_world s' = sim_world s" "episode_index s' = episode_index s" "initialized s' = initialized s" "phase_idx s' = phase_idx s"
  by (simp_all add: s'_def record_episode_outcome_def Let_def settled_def)

lemma advance_curriculum_keeps:
  fixes s defines "s' \<equiv> maybe_advance_curriculum s"
  shows "settled s s'" "sim_world s' = sim_world s" "episode_index s' = episode_index s" "initialized s' = initialized s"
  unfolding s'_def maybe_advance_curriculum_def Let_def
  by (simp_all add: settled_def split: option.split)

lemma finish_episode_keeps:
  "settled s (finish_episode s)" "sim_world (finish_episode s) = sim_world s" "episode_index (finish_episode s) = episode_index s"
  "initialized (finish_episode s) = initialized s" "\<not> have_last_result (finish_episode s)"
  using record_outcome_keeps[where s = s and b = "last_episode_success s"] advance_curriculum_keeps[where s = "record_episode_outcome (last_episode_success s) s"]
  by (simp_all add: finish_episode_def settled_def)

lemma pick_phase_map_ok:
  assumes "sim_maps s = Some mm"
  shows "\<exists>m r. pick_phase_map ph s = Some (m, s\<lparr>sim_rng := r\<rparr>) \<and> (\<forall>c. m = Some c \<longrightarrow> (\<exists>n. get_map_by_name n mm = Some c)) \<and> (ph = None \<longrightarrow> m = None)"
proof (cases "ph = None \<or> (\<exists>p. ph = Some p \<and> ph_maps p = [])")
  case True
  then have "pick_phase_map ph s = Some (None, s\<lparr>sim_rng := sim_rng s\<rparr>)" by (auto simp: pick_phase_map_def)
  then show ?thesis by blast
next
  case False
  then show ?thesis using assms by (auto simp: pick_phase_map_def Let_def case_prod_beta)
qed

definition reset_booked :: "'q simulator \<Rightarrow> step_result \<Rightarrow> 'q simulator \<Rightarrow> bool" where
  "reset_booked s r s' \<longleftrightarrow>
     sr_sim_time r = 0 \<and> sim_time_s s' = 0 \<and> \<not> sr_episode_done r \<and> obs_is_terminal (sr_observation r) = sr_episode_done r \<and>
     md_episode_step_count r = 0 \<and> episode_steps s' = 0 \<and> md_episode_return r = 0 \<and> ep_return s' = 0 \<and>
     initialized s' \<and> episode_index s' = (if initialized s then episode_index s + 1 else episode_index s) \<and>
     md_episode_index r = episode_index s' \<and> \<not> have_last_result s'"

lemma sim_reset_ok:
  assumes "sim_ok s"
  shows "\<exists>res s'. sim_reset env s = Some (res, s') \<and> sim_ok s' \<and> settled s s' \<and>
    phase_idx s' = phase_idx (finish_episode s) \<and> success_window s' = success_window (finish_episode s) \<and> \<not> have_last_result s' \<and>
    (\<forall>r. res = Inr r \<longrightarrow> sim_world s' \<noteq> None \<and> reset_booked s r s') \<and>
    (current_phase (finish_episode s) = None \<longrightarrow> res = Inl (sim_error ''Map configuration is null'' ''Simulator::reset''))"
proof -
  define s1 where "s1 = finish_episode s"
  obtain mm where mm: "sim_maps s = Some mm" "maps_ok (sim_world_cfg s) mm" "world_config_ok (sim_world_cfg s)"
    using assms by (auto simp: sim_ok_def)
  note f = finish_episode_keeps[of s, folded s1_def]
  have "sim_maps s1 = Some mm" using mm(1) f(1) by (simp add: settled_def)
  from pick_phase_map_ok[OF this, of "current_phase s1"] obtain m r where
    p: "pick_phase_map (current_phase s1) s1 = Some (m, s1\<lparr>sim_rng := r\<rparr>)" "\<forall>c. m = Some c \<longrightarrow> (\<exists>n. get_map_by_name n mm = Some c)"
    "current_phase s1 = None \<longrightarrow> m = None" by metis
  have reset: "sim_reset env s = (case m of None \<Rightarrow> Some (Inl (sim_error ''Map configuration is null'' ''Simulator::reset''), s1\<lparr>sim_rng := r\<rparr>)
      | Some c \<Rightarrow> sim_then (create_world env c)
               (\<lambda>u s3. sim_then observe_start
                  (\<lambda>ob s4. sim_then (publish_world_snapshot env (sim_time_s s4) True) (\<lambda>u s5. Some (Inr (initial_result ob s5), s5)) s4)
                  (start_episode s3))
               ((s1\<lparr>sim_rng := r\<rparr>)\<lparr>active_spawn_config := Some (build_spawn_config (current_phase s1) (s1\<lparr>sim_rng := r\<rparr>))\<rparr>))"
    unfolding sim_reset_def Let_def s1_def[symmetric] p(1) by (simp split: option.split)
  show ?thesis
  proof (cases m)
    case None
    have "sim_ok (s1\<lparr>sim_rng := r\<rparr>)"
      by (rule sim_ok_cong[OF assms]) (use f assms in \<open>simp_all add: settled_def sim_ok_def\<close>)
    then show ?thesis using reset None f by (simp add: s1_def[symmetric] settled_def)
  next
    case (Some c)
    define s2 where "s2 = (s1\<lparr>sim_rng := r\<rparr>)\<lparr>active_spawn_config := Some (build_spawn_config (current_phase s1) (s1\<lparr>sim_rng := r\<rparr>))\<rparr>"
    have k2: "settled s s2" "sim_world s2 = sim_world s" "episode_index s2 = episode_index s" "initialized s2 = initialized s"
      "\<not> have_last_result s2" "phase_idx s2 = phase_idx s1" "success_window s2 = success_window s1"
      using f by (simp_all add: s2_def settled_def)
    obtain phase where ph: "current_phase s1 = Some phase" using p(3) Some by (cases "current_phase s1") auto
    have tot: "entity_total (sim_world_cfg s2) c < 2 ^ 32" using p(2) Some mm(2) k2(1) by (auto simp: maps_ok_def settled_def)
    obtain seed rr where seed: "create_world env c s2 = (case make_world (env_nth env) (params_of_world env c seed s2) of
           None \<Rightarrow> None
         | Some (Inl what) \<Rightarrow> Some (Inl (sim_error (''Failed to create world: '' @ what) ''Simulator::create_world''), s2\<lparr>sim_rng := rr, active_spawn_config := None\<rparr>)
         | Some (Inr w) \<Rightarrow> Some (Inr (), (s2\<lparr>sim_rng := rr, active_spawn_config := None\<rparr>)\<lparr>sim_world := Some w, current_map := Some c\<rparr>))"
      by (simp add: create_world_def Let_def case_prod_beta)
    have par: "wp_config (params_of_world env c seed s2) = Some (sim_world_cfg s2)" "wp_map (params_of_world env c seed s2) = Some c"
      by (simp_all add: params_of_world_def Let_def)
    have "world_config_ok (sim_world_cfg s2)" using mm(3) k2(1) by (simp add: settled_def)
    from make_world_ok[OF par this tot, of "env_nth env"] obtain res where
      mk: "make_world (env_nth env) (params_of_world env c seed s2) = Some res" "\<And>w. res = Inr w \<Longrightarrow> world_ok w" by blast
    show ?thesis
    proof (cases res)
      case (Inl what)
      let ?s3 = "s2\<lparr>sim_rng := rr, active_spawn_config := None\<rparr>"
      have "sim_ok ?s3" by (rule sim_ok_cong[OF assms]) (use k2 assms in \<open>simp_all add: settled_def sim_ok_def\<close>)
      moreover have "sim_reset env s = Some (Inl (sim_error (''Failed to create world: '' @ what) ''Simulator::create_world''), ?s3)"
        unfolding reset Some option.case s2_def[symmetric] sim_then_def[of "create_world env c"] seed mk(1) Inl by simp
      ultimately show ?thesis using k2 ph by (simp add: s1_def[symmetric] settled_def)
    next
      case (Inr w)
      define s3 where "s3 = start_episode ((s2\<lparr>sim_rng := rr, active_spawn_config := None\<rparr>)\<lparr>sim_world := Some w, current_map := Some c\<rparr>)"
      have k3: "settled s s3" "sim_world s3 = Some w" "sim_time_s s3 = 0" "ep_return s3 = 0" "episode_steps s3 = 0" "initialized s3"
        "episode_index s3 = (if initialized s then episode_index s + 1 else episode_index s)" "\<not> have_last_result s3"
        "phase_idx s3 = phase_idx s1" "success_window s3 = success_window s1"
        using k2 by (auto simp: s3_def start_episode_def reset_episode_counters_def clear_step_def settled_def Let_def)
      have ok3: "sim_ok s3" by (rule sim_ok_cong[OF assms k3(1)]) (use k3 mk(2)[OF Inr] in simp)
      obtain ob where ob: "build_initial_observation (sim_time_s s3) w = Inr ob" "obs_is_terminal ob = False" using tick_result(3) by blast
      obtain pr s4 where pub: "publish_world_snapshot env (sim_time_s s3) True s3 = Some (pr, s4)" "sim_ok s4" "settled s3 s4" "same_books s3 s4"
        "sim_time_s s4 = sim_time_s s3" "sim_world s4 \<noteq> None" "initialized s4 = initialized s3"
        using publish_snapshot_ok[OF ok3, of env "sim_time_s s3" True] k3(2) by auto
      have run: "sim_reset env s = (case pr of Inl e \<Rightarrow> Some (Inl e, s4) | Inr u \<Rightarrow> Some (Inr (initial_result ob s4), s4))"
        unfolding reset Some option.case s2_def[symmetric] sim_then_def[of "create_world env c"] seed mk(1) Inr sum.case prod.case s3_def[symmetric]
        by (simp add: sim_then_def observe_start_def k3(2) ob pub(1) split: sum.split)
      have s4: "settled s s4" using k3(1) pub(3) settled_trans by blast
      have "reset_booked s (initial_result ob s4) s4"
        using pub(4,5,7) k3 ob by (simp add: reset_booked_def initial_result_def same_books_def)
      moreover have "phase_idx s4 = phase_idx s1" "success_window s4 = success_window s1" "\<not> have_last_result s4"
        using pub(4) k3 by (simp_all add: same_books_def)
      ultimately show ?thesis using run s4 pub(2,6) ph by (cases pr) (simp_all add: s1_def[symmetric])
    qed
  qed
qed

section \<open>The simulator is an episode source\<close>

text \<open>Runs of calls, as a client makes them.\<close>

datatype sim_call = Reset | Step real "action option"

fun sim_do :: "'q sim_env \<Rightarrow> sim_call \<Rightarrow> 'q simulator \<Rightarrow> ((error + step_result) \<times> 'q simulator) option" where
  "sim_do env Reset s = sim_reset env s"
| "sim_do env (Step secs a) s = sim_step env secs a s"

fun sim_calls :: "'q sim_env \<Rightarrow> sim_call list \<Rightarrow> 'q simulator \<Rightarrow> ((error + step_result) list \<times> 'q simulator) option" where
  "sim_calls env [] s = Some ([], s)"
| "sim_calls env (c # cs) s =
     (case sim_do env c s of None \<Rightarrow> None
      | Some (res, s1) \<Rightarrow> map_option (\<lambda>(rs, s2). (res # rs, s2)) (sim_calls env cs s1))"

lemma sim_do_ok: "sim_ok s \<Longrightarrow> \<exists>res s'. sim_do env c s = Some (res, s') \<and> sim_ok s' \<and> settled s s'"
  using sim_reset_ok[of s env] sim_step_ok[of s env] by (cases c) (simp_all, blast+)

lemma sim_calls_ok:
  "sim_ok s \<Longrightarrow> \<exists>rs s'. sim_calls env cs s = Some (rs, s') \<and> length rs = length cs \<and> sim_ok s' \<and> settled s s'"
proof (induction cs arbitrary: s)
  case (Cons c cs)
  obtain res s1 where s1: "sim_do env c s = Some (res, s1)" "sim_ok s1" "settled s s1" using sim_do_ok[OF Cons.prems] by blast
  obtain rs s2 where "sim_calls env cs s1 = Some (rs, s2)" "length rs = length cs" "sim_ok s2" "settled s1 s2" using Cons.IH[OF s1(2)] by blast
  with s1 show ?case using settled_trans(1) by auto
qed simp

lemma make_simulator_ok:
  assumes "make_simulator env p = Inr s" "sp_world_config p = Some wc" "sp_maps p = Some mm" "world_config_ok wc" "maps_ok wc mm"
  shows "sim_ok s"
  using assms by (auto simp: make_simulator_def initial_simulator_def sim_ok_def split: option.splits sum.splits prod.splits if_splits)

end
