(* ===== verification/Control.thy ===== *)
theory Control
  imports Boxes Planar
begin

text \<open>
  Path tracking and control: \<^verbatim>\<open>control/pure_pursuit.hpp\<close>, \<^verbatim>\<open>pure_pursuit.cpp\<close> and
  \<^verbatim>\<open>control/pid_controller.hpp\<close>. The steering of the output, NaN until a caller converts the
  curvature, is \<open>None\<close>; the squared distance of the search starts at infinity, \<open>None\<close>.
\<close>

section \<open>Pure pursuit\<close>

record pure_pursuit_caps =
  lookahead_m :: real
  min_lookahead_m :: real
  max_lookahead_m :: real
  speed_coupled_to_curvature :: bool
  pp_kv :: real

record pure_pursuit_output =
  curvature :: real
  out_steering :: "real option"
  target_speed :: real
  path_index :: nat
  valid :: bool

record closest_proj =
  seg_idx :: nat
  proj_t :: real
  proj_x :: real
  proj_y :: real
  dist2 :: "real option"

definition no_proj :: closest_proj where
  "no_proj = \<lparr>seg_idx = 0, proj_t = 0, proj_x = 0, proj_y = 0, dist2 = None\<rparr>"

definition curvature_to_steering :: "real \<Rightarrow> real \<Rightarrow> real" where
  "curvature_to_steering k wheelbase_m = arctan (wheelbase_m * k)"

definition lookahead :: "pure_pursuit_caps \<Rightarrow> real \<Rightarrow> real" where
  "lookahead cfg current_speed = clamp (lookahead_m cfg) (min_lookahead_m cfg) (max_lookahead_m cfg)"

definition world_to_body :: "real \<Rightarrow> real \<Rightarrow> pose2 \<Rightarrow> real \<times> real" where
  "world_to_body xw yw p =
     (let c = cos (yaw p); s = sin (yaw p); dx = xw - px (pos p); dy = yw - py (pos p)
      in (c * dx + s * dy, - s * dx + c * dy))"

definition curvature_from_lookahead :: "real \<Rightarrow> real \<Rightarrow> real" where
  "curvature_from_lookahead yb ld = (if ld \<le> k_eps then 0 else 2 * yb / (ld * ld))"

definition proj_step :: "point2 list \<Rightarrow> real \<Rightarrow> real \<Rightarrow> nat \<Rightarrow> closest_proj \<Rightarrow> closest_proj" where
  "proj_step path x y i best =
     (let p0 = path ! i; p1 = path ! (i + 1);
          v_x = px p1 - px p0; v_y = py p1 - py p0; wx = x - px p0; wy = y - py p0;
          vv = v_x * v_x + v_y * v_y;
          t = (if vv > 1 / 1000000000000 then clamp ((v_x * wx + v_y * wy) / vv) 0 1 else 0);
          projx = px p0 + t * v_x; projy = py p0 + t * v_y;
          dx = x - projx; dy = y - projy; d2 = dx * dx + dy * dy
      in if (case dist2 best of None \<Rightarrow> True | Some d \<Rightarrow> d2 < d)
         then \<lparr>seg_idx = i, proj_t = t, proj_x = projx, proj_y = projy, dist2 = Some d2\<rparr> else best)"

definition closest_point_on_path :: "point2 list \<Rightarrow> real \<Rightarrow> real \<Rightarrow> closest_proj" where
  "closest_point_on_path path x y =
     (if length path < 2 then no_proj
      else fold (proj_step path x y) [0..<length path - 1] no_proj)"

text \<open>
  The loop of \<^verbatim>\<open>advance_along_path\<close>, from the point \<open>cur\<close> on segment \<open>i\<close>. The guard
  \<open>i + 1 < size\<close> is the one the code keeps; outside it the code would read past the path.
\<close>

function advance_loop :: "point2 list \<Rightarrow> nat \<Rightarrow> point2 \<Rightarrow> real \<Rightarrow> (point2 \<times> nat) option" where
  "advance_loop path i cur remaining =
     (if i + 1 \<ge> length path then None
      else let n = path ! (i + 1); seg = point_sub n cur; seg_len = vec_length seg
           in if seg_len \<ge> remaining \<and> seg_len > k_eps
              then let r = remaining / seg_len in Some (pt (px cur + vx seg * r) (py cur + vy seg * r), i)
              else if i + 2 \<ge> length path then Some (last path, length path - 2)
              else advance_loop path (i + 1) (path ! (i + 1)) (remaining - seg_len))"
  by pat_completeness auto
termination by (relation "measure (\<lambda>(path, i, cur, remaining). length path - i)") auto

declare advance_loop.simps [simp del]

definition advance_along_path :: "point2 list \<Rightarrow> nat \<Rightarrow> real \<Rightarrow> real \<Rightarrow> (point2 \<times> nat) option" where
  "advance_along_path path i t d =
     (if length path < 2 then None
      else advance_loop path i
        (pt (px (path ! i) + (px (path ! (i + 1)) - px (path ! i)) * t)
            (py (path ! i) + (py (path ! (i + 1)) - py (path ! i)) * t)) d)"

definition track :: "pure_pursuit_caps \<Rightarrow> pose2 \<Rightarrow> point2 list \<Rightarrow> real \<Rightarrow> real \<Rightarrow> pure_pursuit_output" where
  "track cfg pose path current_speed nominal_speed =
     (let out = \<lparr>curvature = 0, out_steering = None, target_speed = nominal_speed, path_index = 0, valid = False\<rparr>
      in if length path < 2 then out
         else
           let proj = closest_point_on_path path (px (pos pose)) (py (pos pose));
               ld = lookahead cfg current_speed
           in case advance_along_path path (seg_idx proj) (proj_t proj) ld of
                None \<Rightarrow> out
              | Some (q, used) \<Rightarrow>
                  let (xb, yb) = world_to_body (px q) (py q) pose;
                      ld_body = max (1 / 1000000) (vec_length (vec xb yb));
                      kappa = curvature_from_lookahead yb ld_body;
                      v = (if speed_coupled_to_curvature cfg
                           then nominal_speed / (1 + max 0 (pp_kv cfg) * \<bar>kappa\<bar>) else nominal_speed)
                  in out\<lparr>valid := True, curvature := kappa, target_speed := v, path_index := used\<rparr>)"

section \<open>PID\<close>

record pid_params =
  kp :: real
  ki :: real
  kd :: real
  integral_windup_limit :: real
  d_filter_hz :: real

record pid_controller =
  pid_config :: pid_params
  setpoint :: real
  integral :: real
  prev_error :: real
  d_filtered :: real
  has_prev :: bool

definition pid_reset :: "pid_controller \<Rightarrow> pid_controller" where
  "pid_reset c = c\<lparr>integral := 0, prev_error := 0, d_filtered := 0, has_prev := False\<rparr>"

definition make_pid :: "pid_params \<Rightarrow> pid_controller" where
  "make_pid cfg = pid_reset \<lparr>pid_config = cfg, setpoint = 0, integral = 0, prev_error = 0, d_filtered = 0, has_prev = False\<rparr>"

definition update_with_error :: "real \<Rightarrow> real \<Rightarrow> pid_controller \<Rightarrow> pid_controller \<times> real" where
  "update_with_error err dt0 c =
     (let cfg = pid_config c; dt = (if dt0 \<le> 0 then k_eps else dt0);
          p_term = kp cfg * err;
          raw_integral = integral c + err * dt;
          i_max = max 0 (integral_windup_limit cfg);
          int1 = (if i_max > 0 then max (min raw_integral i_max) (- i_max) else raw_integral);
          i_term = ki cfg * int1;
          d_raw = (err - prev_error c) / dt;
          w = 2 * pi * d_filter_hz cfg; alpha = (w * dt) / (1 + w * dt);
          filtered = (if \<not> has_prev c then 0
                      else if d_filter_hz cfg > 0 then (1 - alpha) * d_filtered c + alpha * d_raw
                      else d_filtered c);
          d_term = (if \<not> has_prev c then 0
                    else kd cfg * (if d_filter_hz cfg > 0 then filtered else d_raw))
      in (c\<lparr>integral := int1, d_filtered := filtered, has_prev := True, prev_error := err\<rparr>,
          p_term + i_term + d_term))"

definition pid_update :: "real \<Rightarrow> real \<Rightarrow> pid_controller \<Rightarrow> pid_controller \<times> real" where
  "pid_update measurement dt c = update_with_error (setpoint c - measurement) dt c"

lemma pid_integral_bounded:
  assumes "0 < integral_windup_limit (pid_config c)"
  shows "\<bar>integral (fst (update_with_error err dt c))\<bar> \<le> integral_windup_limit (pid_config c)"
  using assms by (auto simp: update_with_error_def Let_def)

section \<open>The search for the closest point\<close>

text \<open>The squared distance to the nearest point of each segment that the search has seen.\<close>

definition proj_inv :: "point2 list \<Rightarrow> closest_proj \<Rightarrow> bool" where
  "proj_inv path b \<longleftrightarrow> dist2 b \<noteq> None \<longrightarrow> seg_idx b + 1 < length path \<and> 0 \<le> proj_t b \<and> proj_t b \<le> 1"

lemma proj_step_inv: "i + 1 < length path \<Longrightarrow> proj_inv path b \<Longrightarrow> proj_inv path (proj_step path x y i b)"
  using clamp_bounds[of 0 1] by (auto simp: proj_inv_def proj_step_def Let_def)

lemma proj_step_found: "dist2 (proj_step path x y i b) \<noteq> None"
  by (auto simp: proj_step_def Let_def split: option.splits)

lemma fold_proj_inv:
  "\<forall>i\<in>set is. i + 1 < length path \<Longrightarrow> proj_inv path b \<Longrightarrow>
     proj_inv path (fold (proj_step path x y) is b) \<and>
     (is \<noteq> [] \<or> dist2 b \<noteq> None \<longrightarrow> dist2 (fold (proj_step path x y) is b) \<noteq> None)"
proof (induction "is" arbitrary: b)
  case (Cons i "is")
  then have "proj_inv path (proj_step path x y i b)" by (intro proj_step_inv) auto
  with Cons.IH[of "proj_step path x y i b"] Cons.prems(1) proj_step_found[of path x y i b] show ?case by simp
qed simp

lemma closest_point_in_path:
  assumes "2 \<le> length path"
  shows "seg_idx (closest_point_on_path path x y) + 1 < length path"
    "0 \<le> proj_t (closest_point_on_path path x y)" "proj_t (closest_point_on_path path x y) \<le> 1"
proof -
  have "proj_inv path no_proj" by (simp add: proj_inv_def no_proj_def)
  moreover have "\<forall>i\<in>set [0..<length path - 1]. i + 1 < length path" by auto
  ultimately have "proj_inv path (closest_point_on_path path x y)" "dist2 (closest_point_on_path path x y) \<noteq> None"
    using assms fold_proj_inv[of "[0..<length path - 1]" path no_proj x y]
    by (simp_all add: closest_point_on_path_def)
  then show "seg_idx (closest_point_on_path path x y) + 1 < length path"
    "0 \<le> proj_t (closest_point_on_path path x y)" "proj_t (closest_point_on_path path x y) \<le> 1"
    by (auto simp: proj_inv_def)
qed

section \<open>The walk along the path\<close>

text \<open>The length of the path from a point on segment \<open>i\<close> to the end.\<close>

definition rest_length :: "point2 list \<Rightarrow> nat \<Rightarrow> point2 \<Rightarrow> real" where
  "rest_length path i cur = distance (path ! (i + 1)) cur +
     (\<Sum>j\<leftarrow>[i + 1..<length path - 1]. distance (path ! (j + 1)) (path ! j))"

lemma rest_length_step:
  "i + 2 < length path \<Longrightarrow>
     rest_length path i cur = distance (path ! (i + 1)) cur + rest_length path (i + 1) (path ! (i + 1))"
proof -
  assume "i + 2 < length path"
  then have "[i + 1..<length path - 1] = (i + 1) # [i + 2..<length path - 1]" by (simp add: upt_conv_Cons)
  then show ?thesis by (simp add: rest_length_def)
qed

lemma rest_length_nonneg: "0 \<le> rest_length path i cur"
  by (auto simp: rest_length_def intro!: add_nonneg_nonneg sum_list_nonneg)

lemma vec_length_point_sub: "vec_length (point_sub a b) = distance a b"
  by (simp add: vec_length_def distance_def distance_sq_def vec_length_sq_def)

lemma advance_loop_correct:
  assumes "i + 1 < length path" "0 \<le> remaining"
    "\<forall>j. i < j \<and> j + 1 < length path \<longrightarrow> k_eps < distance (path ! (j + 1)) (path ! j)"
    "k_eps < distance (path ! (i + 1)) cur \<or> k_eps < remaining"
  shows "\<exists>q u. advance_loop path i cur remaining = Some (q, u) \<and> i \<le> u \<and> u + 1 < length path \<and>
    (q = last path \<or>
     (\<exists>a r. (u = i \<and> a = cur \<or> i < u \<and> a = path ! u) \<and> 0 \<le> r \<and> r \<le> 1 \<and> q = segment_at a (path ! (u + 1)) r \<and>
        rest_length path i cur - rest_length path u a + r * distance (path ! (u + 1)) a = remaining))"
  using assms
proof (induction path i cur remaining rule: advance_loop.induct)
  case (1 path i cur remaining)
  note prems = "1.prems"
  define L where "L = vec_length (point_sub (path ! (i + 1)) cur)"
  have Ld: "L = distance (path ! (i + 1)) cur" by (simp add: L_def vec_length_point_sub)
  consider (here) "remaining \<le> L" "k_eps < L" | (stop) "\<not> (remaining \<le> L \<and> k_eps < L)" "length path \<le> i + 2"
    | (onward) "\<not> (remaining \<le> L \<and> k_eps < L)" "i + 2 < length path" by linarith
  then show ?case
  proof cases
    case here
    then have L: "0 < L" by (simp add: k_eps_def)
    let ?r = "remaining / L"
    have r: "0 \<le> ?r" "?r \<le> 1" using here L prems(2) by simp_all
    have "advance_loop path i cur remaining = Some (segment_at cur (path ! (i + 1)) ?r, i)"
      using here prems(1) by (subst advance_loop.simps) (simp add: Let_def L_def segment_at_def point_sub_def)
    moreover have "?r * distance (path ! (i + 1)) cur = remaining" using L Ld by simp
    ultimately show ?thesis using r prems(1) by auto
  next
    case stop
    then have "advance_loop path i cur remaining = Some (last path, length path - 2)"
      using prems(1) by (subst advance_loop.simps) (auto simp: Let_def L_def)
    then show ?thesis using prems(1) stop by auto
  next
    case onward
    have le: "L \<le> remaining" using onward(1) prems(4) Ld by linarith
    have step: "advance_loop path i cur remaining = advance_loop path (i + 1) (path ! (i + 1)) (remaining - L)"
      using onward prems(1) by (subst advance_loop.simps) (auto simp: Let_def L_def)
    have cond: "\<not> length path \<le> i + 1" "\<not> length path \<le> i + 2" using onward(2) by auto
    have seg: "k_eps < distance (path ! (i + 1 + 1)) (path ! (i + 1))" using prems(3) onward(2) by simp
    have ih: "\<exists>q u. advance_loop path (i + 1) (path ! (i + 1)) (remaining - L) = Some (q, u) \<and> i + 1 \<le> u \<and> u + 1 < length path \<and>
      (q = last path \<or>
       (\<exists>a r. (u = i + 1 \<and> a = path ! (i + 1) \<or> i + 1 < u \<and> a = path ! u) \<and> 0 \<le> r \<and> r \<le> 1 \<and>
         q = segment_at a (path ! (u + 1)) r \<and>
         rest_length path (i + 1) (path ! (i + 1)) - rest_length path u a + r * distance (path ! (u + 1)) a = remaining - L))"
      using cond onward(1) le onward(2) prems(3) seg
      by (intro "1.IH"[OF _ refl refl refl, folded L_def]) (auto simp: L_def)
    have rest: "rest_length path i cur = L + rest_length path (i + 1) (path ! (i + 1))"
      using rest_length_step[OF onward(2)] Ld by simp
    from ih obtain q u where q: "advance_loop path i cur remaining = Some (q, u)" "i + 1 \<le> u" "u + 1 < length path"
      and alt: "q = last path \<or> (\<exists>a r. (u = i + 1 \<and> a = path ! (i + 1) \<or> i + 1 < u \<and> a = path ! u) \<and> 0 \<le> r \<and> r \<le> 1 \<and>
         q = segment_at a (path ! (u + 1)) r \<and>
         rest_length path (i + 1) (path ! (i + 1)) - rest_length path u a + r * distance (path ! (u + 1)) a = remaining - L)"
      unfolding step by blast
    from alt have "q = last path \<or> (\<exists>a r. (u = i \<and> a = cur \<or> i < u \<and> a = path ! u) \<and> 0 \<le> r \<and> r \<le> 1 \<and>
         q = segment_at a (path ! (u + 1)) r \<and>
         rest_length path i cur - rest_length path u a + r * distance (path ! (u + 1)) a = remaining)"
    proof
      assume "\<exists>a r. (u = i + 1 \<and> a = path ! (i + 1) \<or> i + 1 < u \<and> a = path ! u) \<and> 0 \<le> r \<and> r \<le> 1 \<and>
         q = segment_at a (path ! (u + 1)) r \<and>
         rest_length path (i + 1) (path ! (i + 1)) - rest_length path u a + r * distance (path ! (u + 1)) a = remaining - L"
      then obtain a r where "a = path ! u" "0 \<le> r" "r \<le> 1" "q = segment_at a (path ! (u + 1)) r"
        "rest_length path (i + 1) (path ! (i + 1)) - rest_length path u a + r * distance (path ! (u + 1)) a = remaining - L"
        by auto
      then show ?thesis using rest q(2) by (intro disjI2 exI[of _ a] exI[of _ r]) auto
    qed simp
    with q show ?thesis by (intro exI[of _ q] exI[of _ u]) auto
  qed
qed

section \<open>Properties\<close>

text \<open>The point of the path that the search finds nearest to the vehicle.\<close>

definition proj_point :: "point2 list \<Rightarrow> closest_proj \<Rightarrow> point2" where
  "proj_point path b = segment_at (path ! seg_idx b) (path ! (seg_idx b + 1)) (proj_t b)"

text \<open>\<open>q\<close> is reached from the projection by walking \<open>d\<close> along the path to segment \<open>u\<close>, or is its end.\<close>

definition walked :: "point2 list \<Rightarrow> closest_proj \<Rightarrow> real \<Rightarrow> nat \<Rightarrow> point2 \<Rightarrow> bool" where
  "walked path b d u q \<longleftrightarrow> q = last path \<or>
     (\<exists>a r. (u = seg_idx b \<and> a = proj_point path b \<or> seg_idx b < u \<and> a = path ! u) \<and> 0 \<le> r \<and> r \<le> 1 \<and>
        q = segment_at a (path ! (u + 1)) r \<and>
        rest_length path (seg_idx b) (proj_point path b) - rest_length path u a + r * distance (path ! (u + 1)) a = d)"

text \<open>The arc from the vehicle, tangent to its heading, with curvature \<open>k\<close> passes through \<open>(xb, yb)\<close>.\<close>

definition on_arc :: "real \<Rightarrow> real \<Rightarrow> real \<Rightarrow> bool" where
  "on_arc k xb yb \<longleftrightarrow> k * (xb * xb + yb * yb) = 2 * yb"



end
