(* ===== verification/Trajectory.thy ===== *)
theory Trajectory
  imports RL "HOL-Library.Word"
begin

text \<open>
  The trajectory buffer of a worker thread, \<^verbatim>\<open>worker/trajectory_buffer.hpp\<close> and
  \<^verbatim>\<open>trajectory_buffer.cpp\<close>: completed steps in a queue, one step that waits for its reward, and
  the recurrent state at the start of the fragment. A moved-from pending step is left as it is;
  nothing reads it before it is set again.
\<close>

record trajectory_step =
  ts_state :: observation
  encoded_observation_features :: "real list"
  ts_action :: action
  ts_reward_terms :: reward_term_values
  ts_reward :: real
  is_terminal :: bool
  behaviour_log_prob :: real

definition make_step :: "observation \<Rightarrow> real list \<Rightarrow> action \<Rightarrow> real \<Rightarrow> trajectory_step" where
  "make_step s encoded a lp = \<lparr>ts_state = s, encoded_observation_features = encoded, ts_action = a,
     ts_reward_terms = Map.empty, ts_reward = 0, is_terminal = False, behaviour_log_prob = lp\<rparr>"

definition default_step :: trajectory_step where
  "default_step = make_step default_observation [] default_action 0"

record recurrent_snapshot =
  snap_hidden :: "real list"
  snap_cell :: "real list"
  snap_shape :: "32 word list"

record trajectory_buffer =
  unroll_length :: nat
  buffer :: "trajectory_step list"
  pending_step :: trajectory_step
  has_pending :: bool
  initial_recurrent_state :: "recurrent_snapshot option"

definition make_trajectory_buffer :: "nat \<Rightarrow> trajectory_buffer" where
  "make_trajectory_buffer n = \<lparr>unroll_length = n, buffer = [], pending_step = default_step,
     has_pending = False, initial_recurrent_state = None\<rparr>"

definition push_step :: "trajectory_step \<Rightarrow> trajectory_buffer \<Rightarrow> trajectory_buffer" where
  "push_step s b = b\<lparr>buffer := buffer b @ [s]\<rparr>"

definition set_pending_step :: "observation \<Rightarrow> real list \<Rightarrow> action \<Rightarrow> real \<Rightarrow> trajectory_buffer \<Rightarrow> trajectory_buffer" where
  "set_pending_step s encoded a lp b = b\<lparr>pending_step := make_step s encoded a lp, has_pending := True\<rparr>"

text \<open>The error is the exception for a call without a pending step.\<close>

definition complete_pending_step ::
    "real \<Rightarrow> bool \<Rightarrow> reward_term_values \<Rightarrow> trajectory_buffer \<Rightarrow> string + (trajectory_step \<times> trajectory_buffer)" where
  "complete_pending_step reward terminal tms b =
     (if \<not> has_pending b then Inl ''complete_pending_step called without pending step''
      else let s = (pending_step b)\<lparr>ts_reward := reward, is_terminal := terminal, ts_reward_terms := tms\<rparr>
           in Inr (s, b\<lparr>pending_step := s, has_pending := False\<rparr>))"

definition is_full :: "trajectory_buffer \<Rightarrow> bool" where
  "is_full b \<longleftrightarrow> length (buffer b) \<ge> unroll_length b"

definition buffer_empty :: "trajectory_buffer \<Rightarrow> bool" where
  "buffer_empty b \<longleftrightarrow> buffer b = []"

definition extract_steps :: "trajectory_buffer \<Rightarrow> trajectory_step list \<times> trajectory_buffer" where
  "extract_steps b = (buffer b, b\<lparr>buffer := []\<rparr>)"

definition set_initial_recurrent_state :: "recurrent_snapshot \<Rightarrow> trajectory_buffer \<Rightarrow> trajectory_buffer" where
  "set_initial_recurrent_state s b =
     (if initial_recurrent_state b = None then b\<lparr>initial_recurrent_state := Some s\<rparr> else b)"

definition extract_initial_recurrent_state :: "trajectory_buffer \<Rightarrow> recurrent_snapshot option \<times> trajectory_buffer" where
  "extract_initial_recurrent_state b = (initial_recurrent_state b, b\<lparr>initial_recurrent_state := None\<rparr>)"

definition clear_buffer :: "trajectory_buffer \<Rightarrow> trajectory_buffer" where
  "clear_buffer b = b\<lparr>buffer := [], has_pending := False, pending_step := default_step,
     initial_recurrent_state := None\<rparr>"

lemmas trajectory_defs [state_simps] = push_step_def set_pending_step_def is_full_def buffer_empty_def
  extract_steps_def set_initial_recurrent_state_def extract_initial_recurrent_state_def clear_buffer_def
  make_trajectory_buffer_def

text \<open>What a pending step becomes when it is completed.\<close>

lemma complete_pending:
  "has_pending b \<Longrightarrow> complete_pending_step r t tms b =
     Inr ((pending_step b)\<lparr>ts_reward := r, is_terminal := t, ts_reward_terms := tms\<rparr>,
          b\<lparr>pending_step := (pending_step b)\<lparr>ts_reward := r, is_terminal := t, ts_reward_terms := tms\<rparr>, has_pending := False\<rparr>)"
  by (simp add: complete_pending_step_def Let_def)

end
