(* ===== verification/WorkerPolicy.thy ===== *)
theory WorkerPolicy
  imports Encoding Control Trajectory
begin

text \<open>
  How a worker chooses its actions: the random, expert and neural policies of
  \<^verbatim>\<open>worker/worker.cpp\<close> and the inference wrapper of \<^verbatim>\<open>worker/policy_model.cpp\<close>. The
  network is a parameter: a session maps the inputs to a list of output tensors, or throws
  (\<open>None\<close>). Standard normal draws come from a tape of their own; single precision is read as real.
\<close>

section \<open>Commands\<close>

definition signed_speed :: "ackermann_command \<Rightarrow> real" where
  "signed_speed c = (if cmd_reverse c then - cmd_speed c else cmd_speed c)"

definition make_signed_command :: "real \<Rightarrow> real \<Rightarrow> ackermann_command" where
  "make_signed_command signed_speed_cmd steer_cmd =
     \<lparr>cmd_steer = steer_cmd, cmd_speed = \<bar>signed_speed_cmd\<bar>, cmd_reverse = (signed_speed_cmd < 0)\<rparr>"

definition set_normalized_action :: "real \<Rightarrow> real \<Rightarrow> real \<Rightarrow> action \<Rightarrow> action" where
  "set_normalized_action speed_max_fwd speed_max_rev steer_max_abs a =
     (let signed_speed_cmd = signed_speed (act_cmd a);
          speed_scale = (if signed_speed_cmd \<ge> 0 then speed_max_fwd else speed_max_rev)
      in a\<lparr>normalized_speed_action := clamp (signed_speed_cmd / max speed_scale (1 / 1000000)) (- 1) 1,
           normalized_steer_action := clamp (cmd_steer (act_cmd a) / max steer_max_abs (1 / 1000000)) (- 1) 1\<rparr>)"

record policy_eval =
  pe_action :: action
  log_prob :: real

section \<open>The random policy\<close>

definition run_random_policy :: "real \<Rightarrow> rng \<Rightarrow> policy_eval \<times> rng" where
  "run_random_policy sim_time r0 =
     (let (sp, r1) = draw_uniform (- 1) 1 r0; (st, r2) = draw_uniform (- 1) 1 r1
      in (\<lparr>pe_action = default_action\<lparr>act_timestamp := sim_time, normalized_speed_action := sp,
             normalized_steer_action := st, act_cmd := make_signed_command sp st\<rparr>, log_prob = 0\<rparr>, r2))"

section \<open>The expert policy\<close>

definition stop_dist_m :: real where "stop_dist_m = 25 / 10"
definition emergency_stop_m :: real where "emergency_stop_m = 12 / 10"

text \<open>One point of a cloud: whether it counts as an obstacle in the forward cone, and how far it is.\<close>

definition front_distance :: "pose2 \<Rightarrow> point3 \<Rightarrow> real option" where
  "front_distance p q =
     (if p3z q < 2 / 10 then None
      else let e = ego (yaw p) (vec (p3x q - px (pos p)) (p3y q - py (pos p)))
           in if vx e \<le> 0 then None
              else if \<bar>atan2 (vy e) (vx e)\<bar> > 1 / 2 then None
              else if vec_length e < 1 then None
              else Some (vec_length e))"

definition front_step :: "pose2 \<Rightarrow> point3 \<Rightarrow> real option \<times> nat \<Rightarrow> real option \<times> nat" where
  "front_step p q = (\<lambda>(min_front, close).
     case front_distance p q of
       None \<Rightarrow> (min_front, close)
     | Some d \<Rightarrow> (Some (case min_front of None \<Rightarrow> d | Some m \<Rightarrow> min m d),
                  if d < stop_dist_m then close + 1 else close))"

definition expert_should_stop :: "observation \<Rightarrow> bool" where
  "expert_should_stop ob =
     (let (min_front, close) = fold (front_step (est_pose ob)) (cloud_points ob) (None, 0)
      in obs_is_collided ob \<or>
         ((case min_front of None \<Rightarrow> False | Some m \<Rightarrow> m < emergency_stop_m) \<and> close \<ge> 2) \<or> close \<ge> 8)"

record expert_state =
  reverse_recovery_active :: bool

definition recovery_next :: "bool \<Rightarrow> real \<Rightarrow> real \<Rightarrow> real \<Rightarrow> bool \<Rightarrow> bool" where
  "recovery_next should_stop_now goal_distance goal_x_body heading_error active =
     (if should_stop_now \<or> goal_distance \<le> 75 / 100 then False
      else if \<not> active then goal_x_body < - (25 / 100) \<or> \<bar>heading_error\<bar> > 22 / 10
      else if goal_x_body > 75 / 100 \<and> \<bar>heading_error\<bar> < 7 / 10 then False else active)"

text \<open>The scales of the expert: the limits of the robot's profile, at least one.\<close>

definition expert_scales :: "ackermann_caps option \<Rightarrow> real \<times> real \<times> real \<times> real" where
  "expert_scales profile =
     (let (fwd, rv, st, wb) = (case profile of
            None \<Rightarrow> (1, 1, 1, 25 / 10)
          | Some kin \<Rightarrow> (max 1 (max_speed (caps_fwd kin)), max 1 (max_speed (caps_rev kin)), max 1 (max_steer_angle kin),
                         if wheel_base kin > 0 then wheel_base kin else 25 / 10))
      in (if fwd > 0 then fwd else 1, if rv > 0 then rv else 1, if st > 0 then st else 1, wb))"

text \<open>The command of the expert, before normalization, and whether it recovers in reverse.\<close>

definition expert_command :: "ackermann_caps option \<Rightarrow> observation \<Rightarrow> expert_state \<Rightarrow> real \<times> real \<times> bool" where
  "expert_command profile ob ex =
     (let (speed_scale_fwd, speed_scale_rev, steer_scale, wb) = expert_scales profile;
          d = point_sub (waypoint_pos_world ob) (pos (est_pose ob));
          goal_distance = vec_length d;
          goal_heading = atan2 (vy d) (vx d);
          heading_error = normalize_angle (goal_heading - yaw (est_pose ob));
          current_speed = vec_length (linear (est_vel ob));
          should_stop_now = expert_should_stop ob;
          goal_x_body = vx (ego (yaw (est_pose ob)) d);
          cfg = \<lparr>lookahead_m = clamp goal_distance (75 / 100) (25 / 10), min_lookahead_m = 75 / 100,
                 max_lookahead_m = 3, speed_coupled_to_curvature = True, pp_kv = 15 / 10\<rparr>;
          nominal_speed = 1 / 2 * speed_scale_fwd;
          pp = track cfg (est_pose ob) [pos (est_pose ob), waypoint_pos_world ob] current_speed nominal_speed;
          pp_steer = clamp (curvature_to_steering (curvature pp) wb) (- steer_scale) steer_scale;
          active = recovery_next should_stop_now goal_distance goal_x_body heading_error (reverse_recovery_active ex)
      in (if active then - max (25 / 100 * speed_scale_fwd) (6 / 10)
          else if should_stop_now then 0
          else if valid pp then Control.target_speed pp else nominal_speed,
          if active then clamp (- (8 / 10) * heading_error) (- steer_scale) steer_scale
          else if should_stop_now then 0 else if valid pp then pp_steer else 0,
          active))"

definition run_expert_policy :: "ackermann_caps option \<Rightarrow> observation \<Rightarrow> real \<Rightarrow> expert_state \<Rightarrow> policy_eval \<times> expert_state" where
  "run_expert_policy profile ob sim_time ex =
     (let (speed_scale_fwd, speed_scale_rev, steer_scale, wb) = expert_scales profile;
          (speed_cmd, steer_cmd, active) = expert_command profile ob ex;
          a1 = set_normalized_action speed_scale_fwd speed_scale_rev steer_scale
                 (default_action\<lparr>act_timestamp := sim_time, act_cmd := make_signed_command speed_cmd steer_cmd\<rparr>)
      in (\<lparr>pe_action = a1\<lparr>act_cmd := make_signed_command (normalized_speed_action a1) (normalized_steer_action a1)\<rparr>,
           log_prob = 0\<rparr>, ex\<lparr>reverse_recovery_active := active\<rparr>))"

section \<open>The neural policy\<close>

text \<open>The outputs are mean, logarithm of the deviation and, for a recurrent network, its new state.\<close>

type_synonym onnx_session = "real list \<Rightarrow> real list \<Rightarrow> real list \<Rightarrow> real list list option"

record policy_model =
  pm_version :: "64 word"
  session :: "onnx_session option"
  pm_observation_dim :: nat
  pm_action_dim :: nat
  recurrent :: bool
  recurrent_hidden_dim :: nat

record policy_context =
  hidden_state :: "real list"
  cell_state :: "real list"
  ctx_version :: "64 word"
  ctx_mean :: "real list"
  ctx_log_std :: "real list"

definition empty_context :: policy_context where
  "empty_context = \<lparr>hidden_state = [], cell_state = [], ctx_version = 0, ctx_mean = [], ctx_log_std = []\<rparr>"

definition allocate_context :: "policy_model \<Rightarrow> policy_context \<Rightarrow> policy_context" where
  "allocate_context m ctx =
     (if recurrent m
      then let n = recurrent_hidden_dim m;
               c1 = (if length (hidden_state ctx) \<noteq> n then ctx\<lparr>hidden_state := replicate n 0\<rparr> else ctx)
           in if length (cell_state c1) \<noteq> n then c1\<lparr>cell_state := replicate n 0\<rparr> else c1
      else ctx)"

definition fit_observation :: "nat \<Rightarrow> real list \<Rightarrow> real list" where
  "fit_observation n fs = take n fs @ replicate (n - length fs) 0"

definition evaluate_encoded :: "policy_model \<Rightarrow> real list \<Rightarrow> policy_context \<Rightarrow> bool \<times> policy_context" where
  "evaluate_encoded m fs ctx0 =
     (case session m of
        None \<Rightarrow> (False, ctx0)
      | Some run \<Rightarrow>
          let ctx = allocate_context m ctx0;
              ob = fit_observation (pm_observation_dim m) fs
          in case run ob (if recurrent m then hidden_state ctx else []) (if recurrent m then cell_state ctx else []) of
               None \<Rightarrow> (False, ctx)
             | Some outputs \<Rightarrow>
                 if length outputs < 2 then (False, ctx)
                 else let c1 = ctx\<lparr>ctx_mean := take (pm_action_dim m) (outputs ! 0),
                                   ctx_log_std := take (pm_action_dim m) (outputs ! 1)\<rparr>
                      in if recurrent m \<and> length outputs \<ge> 4
                         then (True, c1\<lparr>hidden_state := take (recurrent_hidden_dim m) (outputs ! 2),
                                        cell_state := take (recurrent_hidden_dim m) (outputs ! 3)\<rparr>)
                         else (True, c1))"

definition clamp_log_std_for_dim :: "nat \<Rightarrow> real \<Rightarrow> real" where
  "clamp_log_std_for_dim i log_std = clamp log_std (- 5) (if i = 0 then - 3 else - 2)"

record gaussian_sample =
  gs_x :: real
  gs_log_prob :: real
  gs_raw_u :: real

definition sample_tanh_gaussian :: "real \<Rightarrow> real \<Rightarrow> nat \<Rightarrow> rng \<Rightarrow> gaussian_sample \<times> rng" where
  "sample_tanh_gaussian mu log_std i gauss =
     (let clamped_log_std = clamp_log_std_for_dim i log_std;
          sigma = exp clamped_log_std;
          u = mu + sigma * shd gauss;
          x = tanh u; diff = u - mu;
          var = max (sigma * sigma) (1 / 1000000000);
          base_lp = - (1 / 2) * ((diff * diff) / var + 2 * clamped_log_std + ln (2 * pi));
          log_det = ln (max (1 - x * x) (1 / 1000000000000))
      in (\<lparr>gs_x = x, gs_log_prob = base_lp - log_det, gs_raw_u = u\<rparr>, stl gauss))"

definition neural_dim :: "bool \<Rightarrow> policy_context \<Rightarrow> nat \<Rightarrow> rng \<Rightarrow> real \<times> real \<times> real \<times> rng" where
  "neural_dim deterministic ctx i gauss =
     (let mu = ctx_mean ctx ! i
      in if deterministic then (tanh mu, mu, 0, gauss)
         else let (s, g1) = sample_tanh_gaussian mu (ctx_log_std ctx ! i) i gauss
              in (gs_x s, gs_raw_u s, gs_log_prob s, g1))"

definition neural_action :: "bool \<Rightarrow> policy_context \<Rightarrow> real \<Rightarrow> rng \<Rightarrow> policy_eval \<times> rng" where
  "neural_action deterministic ctx sim_time gauss =
     (let a0 = default_action\<lparr>act_timestamp := sim_time, has_raw_policy_action := True\<rparr>
      in if length (ctx_mean ctx) \<ge> 2 \<and> length (ctx_log_std ctx) \<ge> 2
         then let (x0, u0, lp0, g1) = neural_dim deterministic ctx 0 gauss;
                  a1 = a0\<lparr>act_cmd := make_signed_command x0 (cmd_steer (act_cmd a0)), normalized_speed_action := x0,
                          raw_speed_action := u0\<rparr>;
                  (x1, u1, lp1, g2) = neural_dim deterministic ctx 1 g1;
                  a2 = a1\<lparr>act_cmd := (act_cmd a1)\<lparr>cmd_steer := x1\<rparr>, normalized_steer_action := x1, raw_steer_action := u1\<rparr>
              in (\<lparr>pe_action = a2, log_prob = (if deterministic then 0 else lp0 + lp1)\<rparr>, g2)
         else (\<lparr>pe_action = a0, log_prob = 0\<rparr>, gauss))"

definition reset_policy_context :: "64 word \<Rightarrow> policy_context \<Rightarrow> policy_context" where
  "reset_policy_context version ctx = ctx\<lparr>hidden_state := [], cell_state := [], ctx_version := version\<rparr>"

text \<open>
  The model is the subscriber's, or the offline one, or missing. The two tapes are the uniform draws
  of the fallback and the normal draws of the sampling.
\<close>

definition run_neural_policy :: "policy_model option \<Rightarrow> bool \<Rightarrow> real list \<Rightarrow> real \<Rightarrow> policy_context \<Rightarrow> rng \<times> rng
    \<Rightarrow> policy_eval \<times> policy_context \<times> rng \<times> rng" where
  "run_neural_policy model deterministic fs sim_time ctx tapes =
     (let (uni, gauss) = tapes in
      case model of
        None \<Rightarrow> (let (e, uni') = run_random_policy sim_time uni in (e, ctx, uni', gauss))
      | Some m \<Rightarrow>
          let c0 = (if ctx_version ctx \<noteq> pm_version m then reset_policy_context (pm_version m) ctx else ctx);
              (ok, c1) = evaluate_encoded m fs c0
          in if \<not> ok then (let (e, uni') = run_random_policy sim_time uni in (e, c1, uni', gauss))
             else let (e, gauss') = neural_action deterministic c1 sim_time gauss in (e, c1, uni, gauss'))"

section \<open>The dispatch\<close>

datatype policy_type = RANDOM | NEURAL_NETWORK | EXPERT

text \<open>What a simulator thread owns beside its simulator: the policy context, the expert's state, the draws.\<close>

record policy_env =
  env_type :: policy_type
  env_model :: "policy_model option"
  env_deterministic :: bool
  env_profile :: "ackermann_caps option"

record policy_mem =
  mem_context :: policy_context
  mem_expert :: expert_state
  mem_tapes :: "rng \<times> rng"

definition generate_action :: "policy_env \<Rightarrow> observation \<Rightarrow> encoded_observation \<Rightarrow> real \<Rightarrow> policy_mem \<Rightarrow> policy_eval \<times> policy_mem" where
  "generate_action env ob enc sim_time m =
     (case env_type env of
        NEURAL_NETWORK \<Rightarrow>
          (let (e, ctx, tapes) = run_neural_policy (env_model env) (env_deterministic env) (features enc) sim_time
                 (mem_context m) (mem_tapes m)
           in (e, m\<lparr>mem_context := ctx, mem_tapes := tapes\<rparr>))
      | EXPERT \<Rightarrow> (let (e, ex) = run_expert_policy (env_profile env) ob sim_time (mem_expert m) in (e, m\<lparr>mem_expert := ex\<rparr>))
      | RANDOM \<Rightarrow> (let (e, uni) = run_random_policy sim_time (fst (mem_tapes m))
                    in (e, m\<lparr>mem_tapes := (uni, snd (mem_tapes m))\<rparr>)))"

section \<open>Actions are normalized\<close>

definition action_ok :: "action \<Rightarrow> bool" where
  "action_ok a \<longleftrightarrow> \<bar>normalized_speed_action a\<bar> \<le> 1 \<and> \<bar>normalized_steer_action a\<bar> \<le> 1 \<and>
     act_cmd a = make_signed_command (normalized_speed_action a) (normalized_steer_action a)"

lemma make_signed_command_roundtrip: "signed_speed (make_signed_command v s) = v"
  by (simp add: signed_speed_def make_signed_command_def)

lemma clamp_unit: "\<bar>clamp x (- 1) 1\<bar> \<le> 1"
  using clamp_bounds[of "- 1" 1 x] by auto

lemma random_action_ok:
  assumes "unit_tape r"
  shows "action_ok (pe_action (fst (run_random_policy t r)))"
    "act_timestamp (pe_action (fst (run_random_policy t r))) = t" "unit_tape (snd (run_random_policy t r))"
proof -
  have "\<bar>fst (draw_uniform (- 1) 1 r')\<bar> \<le> 1" if "unit_tape r'" for r'
    using draw_uniform_bounds[OF that, of "- 1" 1] by auto
  from this[OF assms] this[OF unit_tape_stl[OF assms]]
  show "action_ok (pe_action (fst (run_random_policy t r)))"
    by (simp add: run_random_policy_def action_ok_def Let_def draw_uniform_def)
  show "act_timestamp (pe_action (fst (run_random_policy t r))) = t"
    by (simp add: run_random_policy_def draw_uniform_def)
  show "unit_tape (snd (run_random_policy t r))"
    using assms by (simp add: run_random_policy_def draw_uniform_def unit_tape_stl)
qed

lemma expert_action_ok:
  "action_ok (pe_action (fst (run_expert_policy prof ob t ex)))"
  "act_timestamp (pe_action (fst (run_expert_policy prof ob t ex))) = t"
  by (simp_all add: run_expert_policy_def Let_def case_prod_beta action_ok_def set_normalized_action_def clamp_unit)

lemma tanh_unit: "\<bar>tanh x\<bar> \<le> (1 :: real)"
  using tanh_real_lt_1[of x] tanh_real_gt_neg1[of x] by linarith

lemma neural_dim_unit: "\<bar>fst (neural_dim det ctx i g)\<bar> \<le> 1"
  by (simp add: neural_dim_def sample_tanh_gaussian_def Let_def tanh_unit)

lemma neural_action_ok:
  "action_ok (pe_action (fst (neural_action det ctx t g)))" "act_timestamp (pe_action (fst (neural_action det ctx t g))) = t"
  by (simp_all add: neural_action_def Let_def case_prod_beta action_ok_def make_signed_command_def neural_dim_unit
      default_action_def default_command_def)

lemma neural_policy_ok:
  assumes "unit_tape (fst tapes)"
  shows "action_ok (pe_action (fst (run_neural_policy model det fs t ctx tapes)))"
    "act_timestamp (pe_action (fst (run_neural_policy model det fs t ctx tapes))) = t"
    "unit_tape (fst (snd (snd (run_neural_policy model det fs t ctx tapes))))"
  using random_action_ok[OF assms]
  by (simp_all add: run_neural_policy_def Let_def case_prod_beta neural_action_ok assms split: option.split)

lemma generate_action_ok:
  assumes "unit_tape (fst (mem_tapes m))"
  shows "action_ok (pe_action (fst (generate_action env ob enc t m)))"
    "act_timestamp (pe_action (fst (generate_action env ob enc t m))) = t"
    "unit_tape (fst (mem_tapes (snd (generate_action env ob enc t m))))"
  using random_action_ok[OF assms] neural_policy_ok[OF assms] assms
  by (simp_all add: generate_action_def case_prod_beta expert_action_ok split: policy_type.split)

section \<open>What the expert does in front of obstacles\<close>

lemma normalized_rest:
  "normalized_speed_action (set_normalized_action f r s (a\<lparr>act_cmd := make_signed_command 0 0\<rparr>)) = 0"
  "normalized_steer_action (set_normalized_action f r s (a\<lparr>act_cmd := make_signed_command 0 0\<rparr>)) = 0"
  by (simp_all add: set_normalized_action_def make_signed_command_roundtrip Let_def)
    (simp_all add: make_signed_command_def clamp_def)

lemma expert_command_stopped: "expert_should_stop ob \<Longrightarrow> expert_command prof ob ex = (0, 0, False)"
  by (simp add: expert_command_def Let_def recovery_next_def case_prod_beta)

lemma expert_stops:
  assumes "expert_should_stop ob"
  shows "act_cmd (pe_action (fst (run_expert_policy prof ob t ex))) = make_signed_command 0 0"
    "\<not> reverse_recovery_active (snd (run_expert_policy prof ob t ex))"
  by (simp_all add: run_expert_policy_def Let_def case_prod_beta expert_command_stopped[OF assms] normalized_rest)

lemma fold_front_close:
  "close \<le> snd (fold (front_step p) qs (m, close))"
proof (induction qs arbitrary: m close)
  case (Cons q qs)
  obtain m' close' where s: "front_step p q (m, close) = (m', close')" by force
  then have "close \<le> close'" by (auto simp: front_step_def split: option.splits if_splits)
  also have "close' \<le> snd (fold (front_step p) qs (m', close'))" by (rule Cons.IH)
  finally show ?case by (simp add: s)
qed simp

lemma fold_front_count:
  "snd (fold (front_step p) qs (m, close)) =
     close + length (filter (\<lambda>q. case front_distance p q of None \<Rightarrow> False | Some d \<Rightarrow> d < stop_dist_m) qs)"
  by (induction qs arbitrary: m close) (simp_all add: front_step_def split: option.split)

text \<open>Eight near points in the forward cone stop the expert, and so does a collision.\<close>

lemma expert_should_stopI:
  "obs_is_collided ob \<Longrightarrow> expert_should_stop ob"
  "8 \<le> length (filter (\<lambda>q. case front_distance (est_pose ob) q of None \<Rightarrow> False | Some d \<Rightarrow> d < stop_dist_m) (cloud_points ob))
     \<Longrightarrow> expert_should_stop ob"
  using fold_front_count[of "est_pose ob" "cloud_points ob" None 0]
  by (auto simp: expert_should_stop_def Let_def case_prod_beta)

section \<open>Properties\<close>

definition near_ahead :: "observation \<Rightarrow> point3 \<Rightarrow> bool" where
  "near_ahead ob q \<longleftrightarrow> (case front_distance (est_pose ob) q of None \<Rightarrow> False | Some d \<Rightarrow> d < stop_dist_m)"

text \<open>C23: Whichever policy a worker runs, the action is well formed: both normalized actions lie in
  [-1, 1], the signed command says the same as the normalized action, and the time is that of the
  simulation; the expert stops whenever the robot has collided or enough points lie in front of it.\<close>

theorem policy_action_correct:
  assumes "unit_tape (fst (mem_tapes m))"
  shows "let (e, m') = generate_action env ob enc t m; a = pe_action e
    in \<bar>normalized_speed_action a\<bar> \<le> 1 \<and> \<bar>normalized_steer_action a\<bar> \<le> 1 \<and>
       signed_speed (act_cmd a) = normalized_speed_action a \<and> cmd_steer (act_cmd a) = normalized_steer_action a \<and>
       act_timestamp a = t \<and> unit_tape (fst (mem_tapes m')) \<and>
       (env_type env = EXPERT \<and> (obs_is_collided ob \<or> 8 \<le> length (filter (near_ahead ob) (cloud_points ob))) \<longrightarrow>
          act_cmd a = make_signed_command 0 0 \<and> \<not> reverse_recovery_active (mem_expert m'))"
proof -
  have "act_cmd (pe_action (fst (generate_action env ob enc t m))) = make_signed_command 0 0 \<and>
      \<not> reverse_recovery_active (mem_expert (snd (generate_action env ob enc t m)))"
    if "env_type env = EXPERT" "obs_is_collided ob \<or> 8 \<le> length (filter (near_ahead ob) (cloud_points ob))"
  proof -
    have "expert_should_stop ob"
      using that(2) expert_should_stopI[of ob] unfolding near_ahead_def by blast
    from expert_stops[OF this, of "env_profile env" t "mem_expert m"] that(1)
    show ?thesis by (simp add: generate_action_def case_prod_beta)
  qed
  moreover have "signed_speed (act_cmd a) = normalized_speed_action a \<and> cmd_steer (act_cmd a) = normalized_steer_action a"
    if "action_ok a" for a
    using that make_signed_command_roundtrip by (simp add: action_ok_def) (simp add: make_signed_command_def)
  ultimately show ?thesis
    using generate_action_ok[OF assms, of env ob enc t] by (auto simp: Let_def case_prod_beta action_ok_def)
qed

definition demo_mem :: policy_mem where
  "demo_mem = \<lparr>mem_context = empty_context, mem_expert = \<lparr>reverse_recovery_active = True\<rparr>,
     mem_tapes = (sconst (1 / 2), sconst 0)\<rparr>"

definition demo_expert_env :: policy_env where
  "demo_expert_env = \<lparr>env_type = EXPERT, env_model = None, env_deterministic = False, env_profile = None\<rparr>"

theorem policy_action_correct_witness:
  "act_cmd (pe_action (fst (generate_action demo_expert_env (default_observation\<lparr>collision_objects := [''wall'']\<rparr>)
     \<lparr>features = [], representative_points_world = []\<rparr> 3 demo_mem))) = make_signed_command 0 0"
proof -
  have "unit_tape (fst (mem_tapes demo_mem))" by (simp add: demo_mem_def unit_tape_def)
  from policy_action_correct[OF this, of demo_expert_env "default_observation\<lparr>collision_objects := [''wall'']\<rparr>" "\<lparr>features = [], representative_points_world = []\<rparr>" 3]
  show ?thesis by (simp add: Let_def case_prod_beta demo_expert_env_def obs_is_collided_def)
qed

end
