(* ===== verification/Publisher.thy ===== *)
theory Publisher
  imports Trajectory
begin

text \<open>
  The rollout publisher, \<^verbatim>\<open>worker/rollout_publisher.hpp\<close> and \<^verbatim>\<open>rollout_publisher.cpp\<close>:
  producers enqueue under the lock, one thread takes batches and hands them to a handler. The steps
  are the parts between locking and unlocking, so every interleaving of producers, the thread and
  \<^verbatim>\<open>stop\<close> is a sequence of steps. The time stamp of a rollout is not modelled.
\<close>

record rollout =
  ro_sim_id :: "32 word"
  rollout_id :: "64 word"
  ro_policy_version :: "64 word"
  is_expert :: bool
  episode_return :: real
  ro_is_terminal :: bool
  ro_steps :: "trajectory_step list"
  ro_initial_recurrent_state :: "recurrent_snapshot option"

record publisher_params =
  enable_streaming :: bool
  max_queue_depth :: nat
  max_batch_rollouts :: nat

text \<open>
  The thread: not started; at the condition of its loop; waiting for work; outside the lock with a
  batch to publish; returned.
\<close>

datatype thread_at = NotStarted | AtLoop | Waiting | Publishing "rollout list" | Finished

text \<open>The last two fields record what was accepted and what the handler received, in order.\<close>

record publisher =
  pub_params :: publisher_params
  pub_running :: bool
  should_stop :: bool
  pub_queue :: "rollout list"
  pub_thread :: thread_at
  accepted :: "rollout list"
  published :: "rollout list list"

definition make_publisher :: "publisher_params \<Rightarrow> publisher" where
  "make_publisher prm = \<lparr>pub_params = prm, pub_running = False, should_stop = False, pub_queue = [],
     pub_thread = NotStarted, accepted = [], published = []\<rparr>"

definition start_publisher :: "publisher \<Rightarrow> publisher" where
  "start_publisher p =
     (if \<not> enable_streaming (pub_params p) then p
      else if pub_running p then p
      else p\<lparr>should_stop := False, pub_thread := AtLoop, pub_running := True\<rparr>)"

definition enqueue :: "rollout \<Rightarrow> publisher \<Rightarrow> bool \<times> publisher" where
  "enqueue r p =
     (if \<not> enable_streaming (pub_params p) then (False, p)
      else if length (pub_queue p) \<ge> max_queue_depth (pub_params p) then (False, p)
      else (True, p\<lparr>pub_queue := pub_queue p @ [r], accepted := accepted p @ [r]\<rparr>))"

text \<open>The inner loop of the thread: fill the batch from the front of the queue.\<close>

function take_batch :: "nat \<Rightarrow> rollout list \<Rightarrow> rollout list \<Rightarrow> rollout list \<times> rollout list" where
  "take_batch cap batch q =
     (if q \<noteq> [] \<and> length batch < cap then take_batch cap (batch @ [hd q]) (tl q) else (batch, q))"
  by pat_completeness auto
termination by (relation "measure (\<lambda>(cap, batch, q). length q)") auto

declare take_batch.simps [simp del]

definition publish_batch :: "rollout list \<Rightarrow> publisher \<Rightarrow> publisher" where
  "publish_batch batch p = (if batch = [] then p else p\<lparr>published := published p @ [batch]\<rparr>)"

inductive publisher_step :: "publisher \<Rightarrow> publisher \<Rightarrow> bool" where
  produce: "publisher_step p (snd (enqueue r p))"
| loop_exit: "pub_thread p = AtLoop \<Longrightarrow> should_stop p \<Longrightarrow> publisher_step p (p\<lparr>pub_thread := Finished\<rparr>)"
| loop_enter: "pub_thread p = AtLoop \<Longrightarrow> \<not> should_stop p \<Longrightarrow> publisher_step p (p\<lparr>pub_thread := Waiting\<rparr>)"
| wake_empty: "pub_thread p = Waiting \<Longrightarrow> pub_queue p = [] \<Longrightarrow> publisher_step p (p\<lparr>pub_thread := AtLoop\<rparr>)"
| wake_take: "pub_thread p = Waiting \<Longrightarrow> pub_queue p \<noteq> [] \<Longrightarrow>
    take_batch (max_batch_rollouts (pub_params p)) [] (pub_queue p) = (batch, rest) \<Longrightarrow>
    publisher_step p (p\<lparr>pub_queue := rest, pub_thread := Publishing batch\<rparr>)"
| publish: "pub_thread p = Publishing batch \<Longrightarrow>
    publisher_step p ((publish_batch batch p)\<lparr>pub_thread := AtLoop\<rparr>)"
| request_stop: "publisher_step p (p\<lparr>should_stop := True\<rparr>)"
| stop_joined: "should_stop p \<Longrightarrow> pub_thread p = Finished \<Longrightarrow>
    publisher_step p (p\<lparr>pub_running := False, pub_thread := NotStarted\<rparr>)"

inductive_cases publisher_stepE: "publisher_step p p'"

section \<open>Batches\<close>

lemma take_batch_split:
  "take_batch cap batch q = (batch @ take (cap - length batch) q, drop (cap - length batch) q)"
proof (induction cap batch q rule: take_batch.induct)
  case (1 cap batch q)
  show ?case
  proof (cases "q \<noteq> [] \<and> length batch < cap")
    case True
    then obtain r q' where q: "q = r # q'" by (cases q) auto
    have "cap - length batch = Suc (cap - length (batch @ [r]))" using True by (simp add: Suc_diff_Suc)
    with 1 True show ?thesis by (subst take_batch.simps) (simp add: q)
  next
    case False
    then have "q = [] \<or> cap - length batch = 0" by auto
    with False show ?thesis by (subst take_batch.simps) auto
  qed
qed

section \<open>The invariant\<close>

fun in_flight :: "thread_at \<Rightarrow> rollout list" where
  "in_flight (Publishing batch) = batch"
| "in_flight _ = []"

definition publisher_inv :: "publisher \<Rightarrow> bool" where
  "publisher_inv p \<longleftrightarrow>
     accepted p = concat (published p) @ in_flight (pub_thread p) @ pub_queue p \<and>
     length (pub_queue p) \<le> max_queue_depth (pub_params p) \<and>
     length (in_flight (pub_thread p)) \<le> max_batch_rollouts (pub_params p) \<and>
     (\<forall>b\<in>set (published p). b \<noteq> [] \<and> length b \<le> max_batch_rollouts (pub_params p))"

definition publisher_start :: "publisher_params \<Rightarrow> publisher \<Rightarrow> bool" where
  "publisher_start prm p \<longleftrightarrow> p = start_publisher (make_publisher prm)"

lemma publisher_start_inv: "publisher_start prm p \<Longrightarrow> publisher_inv p"
  by (auto simp: publisher_start_def start_publisher_def make_publisher_def publisher_inv_def)

lemma publisher_step_params: "publisher_step p p' \<Longrightarrow> pub_params p' = pub_params p"
  by (erule publisher_stepE) (auto simp: enqueue_def publish_batch_def)

lemma publisher_step_inv: "publisher_inv p \<Longrightarrow> publisher_step p p' \<Longrightarrow> publisher_inv p'"
  by (erule publisher_stepE)
    (auto simp: publisher_inv_def enqueue_def publish_batch_def take_batch_split)

interpretation publisher_sys: invariant_system "publisher_start prm" publisher_step publisher_inv
  by unfold_locales (fact publisher_start_inv, fact publisher_step_inv)

lemma publisher_run_params: "publisher_step\<^sup>*\<^sup>* p p' \<Longrightarrow> pub_params p' = pub_params p"
  by (induction rule: rtranclp_induct) (simp_all add: publisher_step_params)

lemma stopped_step:
  assumes "publisher_step p p'" "pub_thread p = Finished \<or> pub_thread p = NotStarted"
  shows "published p' = published p \<and> (pub_thread p' = Finished \<or> pub_thread p' = NotStarted)"
  using assms by (auto elim!: publisher_stepE simp: enqueue_def split: if_splits)

lemma stopped_run:
  assumes "publisher_step\<^sup>*\<^sup>* p p'" "pub_thread p = Finished \<or> pub_thread p = NotStarted"
  shows "published p' = published p \<and> (pub_thread p' = Finished \<or> pub_thread p' = NotStarted)"
  using assms by (induction rule: rtranclp_induct) (use stopped_step in fastforce)+

section \<open>Properties\<close>

text \<open>C19: In every state of the rollout publisher the accepted rollouts are, in order, those published,
  those the thread holds and those that wait; the queue and the batches respect their bounds, and
  once the thread has ended nothing more is published.\<close>

theorem publisher_fifo:
  assumes "publisher_step\<^sup>*\<^sup>* (start_publisher (make_publisher prm)) p"
  shows "accepted p = concat (published p) @ in_flight (pub_thread p) @ pub_queue p \<and>
    length (pub_queue p) \<le> max_queue_depth prm \<and>
    (\<forall>b\<in>set (published p). b \<noteq> [] \<and> length b \<le> max_batch_rollouts prm) \<and>
    (\<forall>p'. pub_thread p = Finished \<and> publisher_step\<^sup>*\<^sup>* p p' \<longrightarrow> published p' = published p)"
proof -
  have inv: "publisher_inv p"
    using publisher_sys.reachable_inv[of prm, OF _ assms] by (simp add: publisher_start_def)
  have prm: "pub_params p = prm"
    using publisher_run_params[OF assms] by (simp add: start_publisher_def make_publisher_def split: if_splits)
  note i = inv[unfolded publisher_inv_def prm]
  have "published p' = published p" if "pub_thread p = Finished \<and> publisher_step\<^sup>*\<^sup>* p p'" for p'
    using stopped_run[of p p'] that by blast
  with i show ?thesis by blast
qed

definition demo_rollout :: "64 word \<Rightarrow> rollout" where
  "demo_rollout n = \<lparr>ro_sim_id = 0, rollout_id = n, ro_policy_version = 1, is_expert = False, episode_return = 0,
     ro_is_terminal = False, ro_steps = [default_step], ro_initial_recurrent_state = None\<rparr>"

definition demo_publisher :: publisher where
  "demo_publisher = start_publisher (make_publisher
     \<lparr>enable_streaming = True, max_queue_depth = 4096, max_batch_rollouts = 1\<rparr>)"

text \<open>Two rollouts, one published; then stop: the second is accepted and lost.\<close>

lemma demo_publisher_run:
  "publisher_step\<^sup>*\<^sup>* demo_publisher
     (demo_publisher\<lparr>pub_queue := [demo_rollout 2], accepted := [demo_rollout 1, demo_rollout 2],
        published := [[demo_rollout 1]], should_stop := True, pub_thread := Finished\<rparr>)"
proof -
  define p0 where "p0 = demo_publisher"
  define p1 where "p1 = p0\<lparr>pub_queue := [demo_rollout 1], accepted := [demo_rollout 1]\<rparr>"
  define p2 where "p2 = p1\<lparr>pub_queue := [demo_rollout 1, demo_rollout 2], accepted := [demo_rollout 1, demo_rollout 2]\<rparr>"
  define p3 where "p3 = p2\<lparr>pub_thread := Waiting\<rparr>"
  define p4 where "p4 = p3\<lparr>pub_queue := [demo_rollout 2], pub_thread := Publishing [demo_rollout 1]\<rparr>"
  define p5 where "p5 = (publish_batch [demo_rollout 1] p4)\<lparr>pub_thread := AtLoop\<rparr>"
  define p6 where "p6 = p5\<lparr>should_stop := True\<rparr>"
  define p7 where "p7 = p6\<lparr>pub_thread := Finished\<rparr>"
  note defs = p1_def p2_def p3_def p4_def p5_def p6_def p7_def p0_def demo_publisher_def start_publisher_def
    make_publisher_def publish_batch_def
  have s1: "publisher_step p0 p1" using publisher_step.produce[of p0 "demo_rollout 1"] by (simp add: defs enqueue_def)
  have s2: "publisher_step p1 p2" using publisher_step.produce[of p1 "demo_rollout 2"] by (simp add: defs enqueue_def)
  have s3: "publisher_step p2 p3" unfolding p3_def by (rule publisher_step.loop_enter) (simp_all add: defs)
  have s4: "publisher_step p3 p4" unfolding p4_def
    by (rule publisher_step.wake_take) (simp_all add: defs take_batch_split)
  have s5: "publisher_step p4 p5" unfolding p5_def by (rule publisher_step.publish) (simp add: p4_def)
  have s6: "publisher_step p5 p6" unfolding p6_def by (rule publisher_step.request_stop)
  have s7: "publisher_step p6 p7" unfolding p7_def by (rule publisher_step.loop_exit) (simp_all add: p6_def p5_def)
  have "publisher_step\<^sup>*\<^sup>* p0 p7"
    using converse_rtranclp_into_rtranclp[of publisher_step] s1 s2 s3 s4 s5 s6 s7 by (metis rtranclp.rtrancl_refl)
  then show ?thesis by (simp add: defs)
qed

theorem publisher_fifo_witness:
  "\<exists>p. publisher_step\<^sup>*\<^sup>* demo_publisher p \<and> demo_rollout 2 \<in> set (accepted p) \<and>
     (\<forall>p'. publisher_step\<^sup>*\<^sup>* p p' \<longrightarrow> demo_rollout 2 \<notin> set (concat (published p')))"
proof -
  define p where "p = demo_publisher\<lparr>pub_queue := [demo_rollout 2], accepted := [demo_rollout 1, demo_rollout 2],
        published := [[demo_rollout 1]], should_stop := True, pub_thread := Finished\<rparr>"
  have run: "publisher_step\<^sup>*\<^sup>* demo_publisher p" using demo_publisher_run by (simp add: p_def)
  have "demo_rollout 2 \<noteq> demo_rollout 1" by (simp add: demo_rollout_def)
  then have "demo_rollout 2 \<notin> set (concat (published p'))" if "publisher_step\<^sup>*\<^sup>* p p'" for p'
    using publisher_fifo[OF run[unfolded demo_publisher_def]] that by (simp add: p_def)
  then show ?thesis using run by (intro exI[of _ p]) (simp add: p_def)
qed

end
