(* ===== verification/WorkerLoop.thy ===== *)
theory WorkerLoop
  imports SimInv WorkerPolicy Publisher
begin

text \<open>
  The thread of one simulator in a worker: \<^verbatim>\<open>sim_thread_main\<close> and \<^verbatim>\<open>handle_rollout_ready\<close> of
  \<^verbatim>\<open>worker/worker.cpp\<close>. A step of the model is one turn of a loop of the thread. What other threads
  and the clock contribute to a turn is its tick. The simulator is an argument, a pair of operations on
  a state. A turn has no result (\<open>None\<close>) when the simulator has none, when an empty optional is
  followed, or when an exception leaves the thread.
\<close>

section \<open>State\<close>

record 's sim_ops =
  op_reset :: "'s \<Rightarrow> ((error + step_result) \<times> 's) option"
  op_step :: "real \<Rightarrow> action option \<Rightarrow> 's \<Rightarrow> ((error + step_result) \<times> 's) option"

definition simulator_ops :: "'q sim_env \<Rightarrow> 'q simulator sim_ops" where
  "simulator_ops env = \<lparr>op_reset = sim_reset env, op_step = sim_step env\<rparr>"

record 's worker_env =
  we_ops :: "'s sim_ops"
  we_nth :: nth_element_impl
  we_policy :: policy_type
  we_deterministic :: bool
  we_profile :: "ackermann_caps option"
  we_arch :: architecture

text \<open>Stop requested; the version and the model that the subscriber offers; the clock; the duration of a step.\<close>

record tick =
  tk_stop :: bool
  tk_version :: "64 word"
  tk_model :: "policy_model option"
  tk_now :: real
  tk_secs :: real

text \<open>Before the first reset; at the condition of \<open>reseed_until_ready\<close>; at the condition of the main loop; returned.\<close>

datatype sim_thread_at = Starting | Reseeding "error + step_result" | Running | Returned

text \<open>The last two fields record the transitions the thread has completed and the rollouts it has handed over.\<close>

record 's worker_thread =
  wt_at :: sim_thread_at
  wt_sim :: 's
  wt_sim_id :: "32 word"
  wt_buffer :: trajectory_buffer
  wt_mem :: policy_mem
  wt_pacer :: pacer
  wt_next :: "policy_eval option"
  wt_sequence :: "64 word"
  wt_publisher :: "publisher option"
  wt_completed :: "trajectory_step list"
  wt_emitted :: "rollout list"

definition is_neural :: "'s worker_env \<Rightarrow> bool" where
  "is_neural env \<longleftrightarrow> we_policy env = NEURAL_NETWORK"

definition reset_context :: "'s worker_env \<Rightarrow> tick \<Rightarrow> 's worker_thread \<Rightarrow> 's worker_thread" where
  "reset_context env tk t =
     (if is_neural env
      then t\<lparr>wt_mem := (wt_mem t)\<lparr>mem_context := reset_policy_context (tk_version tk) (mem_context (wt_mem t))\<rparr>\<rparr> else t)"

section \<open>Choosing an action\<close>

definition snapshot_recurrent_state_if_fragment_start :: "'s worker_env \<Rightarrow> 's worker_thread \<Rightarrow> 's worker_thread" where
  "snapshot_recurrent_state_if_fragment_start env t =
     (let b = wt_buffer t; ctx = mem_context (wt_mem t); n = unat (lstm_hidden_dim (we_arch env))
      in if \<not> is_neural env \<or> \<not> buffer_empty b \<or> has_pending b then t
         else if hidden_state ctx \<noteq> [] \<and> length (hidden_state ctx) = length (cell_state ctx)
         then t\<lparr>wt_buffer := set_initial_recurrent_state
                  \<lparr>snap_hidden = hidden_state ctx, snap_cell = cell_state ctx, snap_shape = [1, of_nat (length (hidden_state ctx))]\<rparr> b\<rparr>
         else if policy_model (we_arch env) = ''lstm'' \<and> n > 0
         then t\<lparr>wt_buffer := set_initial_recurrent_state
                  \<lparr>snap_hidden = replicate n 0, snap_cell = replicate n 0, snap_shape = [1, of_nat n]\<rparr> b\<rparr>
         else t)"

definition choose_action :: "'s worker_env \<Rightarrow> tick \<Rightarrow> observation \<Rightarrow> real \<Rightarrow> 's worker_thread \<Rightarrow> 's worker_thread" where
  "choose_action env tk ob tm t0 =
     (let enc = encode_observation (we_nth env) ob (we_arch env);
          t = snapshot_recurrent_state_if_fragment_start env t0;
          (eval, mem) = generate_action
            \<lparr>env_type = we_policy env, env_model = tk_model tk, env_deterministic = we_deterministic env, env_profile = we_profile env\<rparr>
            ob enc tm (wt_mem t)
      in t\<lparr>wt_mem := mem, wt_buffer := set_pending_step ob (features enc) (pe_action eval) (log_prob eval) (wt_buffer t),
           wt_next := Some eval\<rparr>)"

section \<open>Rollouts\<close>

definition make_rollout :: "'s worker_env \<Rightarrow> tick \<Rightarrow> trajectory_step list \<Rightarrow> real \<Rightarrow> bool \<Rightarrow> 's worker_thread \<Rightarrow> rollout" where
  "make_rollout env tk steps ret terminal t =
     \<lparr>ro_sim_id = wt_sim_id t, rollout_id = wt_sequence t, ro_policy_version = tk_version tk, is_expert = (we_policy env = EXPERT),
      episode_return = ret, ro_is_terminal = terminal, ro_steps = steps,
      ro_initial_recurrent_state = fst (extract_initial_recurrent_state (wt_buffer t))\<rparr>"

definition handle_rollout_ready :: "'s worker_env \<Rightarrow> tick \<Rightarrow> trajectory_step list \<Rightarrow> real \<Rightarrow> bool \<Rightarrow> 's worker_thread \<Rightarrow> 's worker_thread" where
  "handle_rollout_ready env tk steps ret terminal t =
     (case wt_publisher t of
        None \<Rightarrow> t
      | Some p \<Rightarrow>
          if steps = [] then t
          else let ro = make_rollout env tk steps ret terminal t
               in t\<lparr>wt_sequence := wt_sequence t + 1, wt_buffer := snd (extract_initial_recurrent_state (wt_buffer t)),
                    wt_publisher := Some (snd (enqueue ro p)), wt_emitted := wt_emitted t @ [ro]\<rparr>)"

section \<open>The turns of the loops\<close>

definition request_reset :: "'s worker_env \<Rightarrow> 's worker_thread \<Rightarrow> 's worker_thread option" where
  "request_reset env t =
     map_option (\<lambda>(res, s). t\<lparr>wt_sim := s, wt_at := Reseeding res\<rparr>) (op_reset (we_ops env) (wt_sim t))"

definition start_turn :: "'s worker_env \<Rightarrow> tick \<Rightarrow> 's worker_thread \<Rightarrow> 's worker_thread option" where
  "start_turn env tk t = request_reset env (reset_context env tk (t\<lparr>wt_buffer := clear_buffer (wt_buffer t)\<rparr>))"

text \<open>A turn of the loop in \<open>reseed_until_ready\<close>; the thread returns when it fails or is stopped.\<close>

definition reseed_turn :: "'s worker_env \<Rightarrow> tick \<Rightarrow> error + step_result \<Rightarrow> 's worker_thread \<Rightarrow> 's worker_thread option" where
  "reseed_turn env tk res t =
     (if tk_stop tk then Some (t\<lparr>wt_at := Returned\<rparr>)
      else case res of
        Inl e \<Rightarrow> Some (t\<lparr>wt_at := Returned\<rparr>)
      | Inr r \<Rightarrow>
          if \<not> obs_is_terminal (sr_observation r)
          then Some ((choose_action env tk (sr_observation r) (sr_sim_time r) t)
                 \<lparr>wt_pacer := pacer_reset (sr_sim_time r) (tk_now tk) (wt_pacer t), wt_at := Running\<rparr>)
          else request_reset env (t\<lparr>wt_next := None\<rparr>))"

text \<open>What follows a step that the simulator has taken: the transition, the rollout, the next action.\<close>

definition flush_rollout :: "'s worker_env \<Rightarrow> tick \<Rightarrow> real \<Rightarrow> bool \<Rightarrow> 's worker_thread \<Rightarrow> 's worker_thread" where
  "flush_rollout env tk ret terminal t =
     (if (is_full (wt_buffer t) \<or> terminal) \<and> \<not> buffer_empty (wt_buffer t)
      then let (steps, b) = extract_steps (wt_buffer t) in handle_rollout_ready env tk steps ret terminal (t\<lparr>wt_buffer := b\<rparr>)
      else t)"

definition after_step :: "'s worker_env \<Rightarrow> tick \<Rightarrow> step_result \<Rightarrow> 's worker_thread \<Rightarrow> 's worker_thread option" where
  "after_step env tk r t0 =
     (let ob = sr_observation r; terminal = obs_is_terminal ob
      in case complete_pending_step (obs_reward ob) terminal (md_reward_terms r) (wt_buffer t0) of
           Inl what \<Rightarrow> None
         | Inr (s, b) \<Rightarrow>
             (let t1 = t0\<lparr>wt_pacer := snd (pace (sr_sim_time r) (tk_now tk) (wt_pacer t0)), wt_buffer := push_step s b,
                         wt_completed := wt_completed t0 @ [s]\<rparr>;
                  t2 = flush_rollout env tk (md_episode_return r) terminal t1
              in if terminal
                 then request_reset env (reset_context env tk (t2\<lparr>wt_next := None, wt_buffer := clear_buffer (wt_buffer t2)\<rparr>))
                 else Some (choose_action env tk ob (sr_sim_time r) t2)))"

definition run_turn :: "'s worker_env \<Rightarrow> tick \<Rightarrow> 's worker_thread \<Rightarrow> 's worker_thread option" where
  "run_turn env tk t =
     (if tk_stop tk then Some (t\<lparr>wt_at := Returned\<rparr>)
      else case wt_next t of None \<Rightarrow> None
      | Some eval \<Rightarrow>
          (case op_step (we_ops env) (tk_secs tk) (Some (pe_action eval)) (wt_sim t) of
             None \<Rightarrow> None
           | Some (Inl e, s) \<Rightarrow> Some (t\<lparr>wt_sim := s, wt_at := Returned\<rparr>)
           | Some (Inr r, s) \<Rightarrow> after_step env tk r (t\<lparr>wt_sim := s\<rparr>)))"

definition thread_turn :: "'s worker_env \<Rightarrow> tick \<Rightarrow> 's worker_thread \<Rightarrow> 's worker_thread option" where
  "thread_turn env tk t =
     (case wt_at t of
        Starting \<Rightarrow> start_turn env tk t
      | Reseeding res \<Rightarrow> reseed_turn env tk res t
      | Running \<Rightarrow> run_turn env tk t
      | Returned \<Rightarrow> Some t)"

fun thread_run :: "'s worker_env \<Rightarrow> tick list \<Rightarrow> 's worker_thread \<Rightarrow> 's worker_thread option" where
  "thread_run env [] t = Some t"
| "thread_run env (tk # tks) t = Option.bind (thread_turn env tk t) (thread_run env tks)"

text \<open>The thread as the constructor of the instance leaves it.\<close>

definition make_thread :: "'s \<Rightarrow> 32 word \<Rightarrow> nat \<Rightarrow> policy_mem \<Rightarrow> pacer \<Rightarrow> publisher option \<Rightarrow> 's worker_thread" where
  "make_thread s i unroll mem p pub =
     \<lparr>wt_at = Starting, wt_sim = s, wt_sim_id = i, wt_buffer = make_trajectory_buffer unroll, wt_mem = mem, wt_pacer = p,
      wt_next = None, wt_sequence = 0, wt_publisher = pub, wt_completed = [], wt_emitted = []\<rparr>"

section \<open>The simulator as the thread relies on it\<close>

text \<open>\<open>ok\<close> is an invariant under which every call returns, with an error or a result.\<close>

locale episode_source =
  fixes ops :: "'s sim_ops" and ok :: "'s \<Rightarrow> bool"
  assumes reset_returns: "ok s \<Longrightarrow> \<exists>res s'. op_reset ops s = Some (res, s') \<and> ok s'"
    and step_returns: "ok s \<Longrightarrow> \<exists>res s'. op_step ops secs a s = Some (res, s') \<and> ok s'"

section \<open>The invariant\<close>

text \<open>A rollout of fragments of \<open>n\<close> steps: only the last step may be terminal, and a rollout that does not end there is full.\<close>

definition rollout_ok :: "nat \<Rightarrow> 32 word \<Rightarrow> rollout \<Rightarrow> bool" where
  "rollout_ok n i ro \<longleftrightarrow> ro_sim_id ro = i \<and> ro_steps ro \<noteq> [] \<and> length (ro_steps ro) \<le> max 1 n \<and>
     (\<forall>s\<in>set (butlast (ro_steps ro)). \<not> is_terminal s) \<and> (ro_is_terminal ro \<longleftrightarrow> is_terminal (last (ro_steps ro))) \<and>
     (\<not> ro_is_terminal ro \<longrightarrow> length (ro_steps ro) = max 1 n)"

text \<open>What has been handed over, and what still waits in the buffer.\<close>

definition books_ok :: "nat \<Rightarrow> 32 word \<Rightarrow> 's worker_thread \<Rightarrow> bool" where
  "books_ok n i t \<longleftrightarrow> wt_sim_id t = i \<and> unroll_length (wt_buffer t) = n \<and>
     (\<forall>ro\<in>set (wt_emitted t). rollout_ok n i ro) \<and>
     map rollout_id (wt_emitted t) = map of_nat [0..<length (wt_emitted t)] \<and> wt_sequence t = of_nat (length (wt_emitted t)) \<and>
     (wt_publisher t \<noteq> None \<longrightarrow> wt_completed t = concat (map ro_steps (wt_emitted t)) @ buffer (wt_buffer t)) \<and>
     length (buffer (wt_buffer t)) < max 1 n \<and> (\<forall>s\<in>set (buffer (wt_buffer t)). \<not> is_terminal s)"

definition thread_inv :: "nat \<Rightarrow> 32 word \<Rightarrow> 's worker_thread \<Rightarrow> bool" where
  "thread_inv n i t \<longleftrightarrow> books_ok n i t \<and>
     (case wt_at t of
        Starting \<Rightarrow> buffer (wt_buffer t) = []
      | Reseeding res \<Rightarrow> buffer (wt_buffer t) = [] \<and> \<not> has_pending (wt_buffer t)
      | Running \<Rightarrow> has_pending (wt_buffer t) \<and> (\<exists>ev. wt_next t = Some ev \<and> ts_action (pending_step (wt_buffer t)) = pe_action ev)
      | Returned \<Rightarrow> True)"

text \<open>Choosing an action leaves the books alone and a step pending.\<close>

lemma books_cong:
  "books_ok n i t \<Longrightarrow> wt_sim_id t' = wt_sim_id t \<Longrightarrow> unroll_length (wt_buffer t') = unroll_length (wt_buffer t) \<Longrightarrow>
   wt_emitted t' = wt_emitted t \<Longrightarrow> wt_sequence t' = wt_sequence t \<Longrightarrow> wt_publisher t' = wt_publisher t \<Longrightarrow>
   wt_completed t' = wt_completed t \<Longrightarrow> buffer (wt_buffer t') = buffer (wt_buffer t) \<Longrightarrow> books_ok n i t'"
  by (simp add: books_ok_def)

lemma snapshot_facts:
  fixes env t defines "t' \<equiv> snapshot_recurrent_state_if_fragment_start env t"
  shows "wt_sim_id t' = wt_sim_id t" "unroll_length (wt_buffer t') = unroll_length (wt_buffer t)" "wt_emitted t' = wt_emitted t"
    "wt_sequence t' = wt_sequence t" "wt_publisher t' = wt_publisher t" "wt_completed t' = wt_completed t"
    "buffer (wt_buffer t') = buffer (wt_buffer t)" "wt_sim t' = wt_sim t" "wt_mem t' = wt_mem t" "wt_at t' = wt_at t"
  by (simp_all add: t'_def snapshot_recurrent_state_if_fragment_start_def Let_def set_initial_recurrent_state_def)

lemma choose_facts:
  fixes env tk ob tm t defines "t' \<equiv> choose_action env tk ob tm t"
  shows "wt_sim_id t' = wt_sim_id t" "unroll_length (wt_buffer t') = unroll_length (wt_buffer t)" "wt_emitted t' = wt_emitted t"
    "wt_sequence t' = wt_sequence t" "wt_publisher t' = wt_publisher t" "wt_completed t' = wt_completed t"
    "buffer (wt_buffer t') = buffer (wt_buffer t)" "wt_sim t' = wt_sim t" "wt_at t' = wt_at t" "has_pending (wt_buffer t')"
    "\<exists>ev. wt_next t' = Some ev \<and> ts_action (pending_step (wt_buffer t')) = pe_action ev" "ts_state (pending_step (wt_buffer t')) = ob"
  by (simp_all add: t'_def choose_action_def Let_def case_prod_beta snapshot_facts set_pending_step_def make_step_def)

lemma choose_books: "books_ok n i t \<Longrightarrow> books_ok n i (choose_action env tk ob tm t)"
  by (rule books_cong) (simp_all add: choose_facts)

text \<open>Flushing a buffer to which a completed step has been added.\<close>

lemma reset_context_facts [simp]:
  "wt_sim_id (reset_context env tk t) = wt_sim_id t" "wt_buffer (reset_context env tk t) = wt_buffer t"
  "wt_emitted (reset_context env tk t) = wt_emitted t" "wt_sequence (reset_context env tk t) = wt_sequence t"
  "wt_publisher (reset_context env tk t) = wt_publisher t" "wt_completed (reset_context env tk t) = wt_completed t"
  "wt_sim (reset_context env tk t) = wt_sim t"
  by (simp_all add: reset_context_def)

definition grown :: "nat \<Rightarrow> 32 word \<Rightarrow> trajectory_step \<Rightarrow> 's worker_thread \<Rightarrow> bool" where
  "grown n i s t \<longleftrightarrow> (\<exists>b. buffer (wt_buffer t) = b @ [s] \<and>
     books_ok n i (t\<lparr>wt_buffer := (wt_buffer t)\<lparr>buffer := b\<rparr>, wt_completed := butlast (wt_completed t)\<rparr>) \<and>
     wt_completed t \<noteq> [] \<and> last (wt_completed t) = s)"

lemma flush_books:
  assumes "grown n i s t"
  shows "books_ok n i (flush_rollout env tk ret (is_terminal s) t) \<and>
    (is_terminal s \<longrightarrow> buffer (wt_buffer (flush_rollout env tk ret (is_terminal s) t)) = []) \<and>
    has_pending (wt_buffer (flush_rollout env tk ret (is_terminal s) t)) = has_pending (wt_buffer t) \<and>
    wt_sim (flush_rollout env tk ret (is_terminal s) t) = wt_sim t \<and>
    wt_completed (flush_rollout env tk ret (is_terminal s) t) = wt_completed t"
proof -
  obtain b where b: "buffer (wt_buffer t) = b @ [s]" "wt_completed t \<noteq> []" "last (wt_completed t) = s"
    "books_ok n i (t\<lparr>wt_buffer := (wt_buffer t)\<lparr>buffer := b\<rparr>, wt_completed := butlast (wt_completed t)\<rparr>)"
    using assms by (auto simp: grown_def)
  have c: "wt_completed t = butlast (wt_completed t) @ [s]" using b(2,3) by (metis append_butlast_last_id)
  have k: "wt_sim_id t = i" "unroll_length (wt_buffer t) = n" "\<forall>ro\<in>set (wt_emitted t). rollout_ok n i ro"
    "map rollout_id (wt_emitted t) = map of_nat [0..<length (wt_emitted t)]" "wt_sequence t = of_nat (length (wt_emitted t))"
    "wt_publisher t \<noteq> None \<longrightarrow> butlast (wt_completed t) = concat (map ro_steps (wt_emitted t)) @ b"
    "length b < max 1 n" "\<forall>x\<in>set b. \<not> is_terminal x"
    using b(4) by (auto simp: books_ok_def)
  show ?thesis
  proof (cases "length (b @ [s]) \<ge> n \<or> is_terminal s")
    case False
    then have "flush_rollout env tk ret (is_terminal s) t = t"
      by (auto simp: flush_rollout_def is_full_def k(2) b(1))
    moreover have "books_ok n i t" using k False b(1) c by (auto simp: books_ok_def)
    ultimately show ?thesis using False by simp
  next
    case True
    have e: "flush_rollout env tk ret (is_terminal s) t =
        handle_rollout_ready env tk (b @ [s]) ret (is_terminal s) (t\<lparr>wt_buffer := (wt_buffer t)\<lparr>buffer := []\<rparr>\<rparr>)"
      using True by (auto simp: flush_rollout_def is_full_def buffer_empty_def extract_steps_def k(2) b(1))
    have full: "length (b @ [s]) = max 1 n" if "\<not> is_terminal s" using that True k(7) by auto
    show ?thesis
    proof (cases "wt_publisher t")
      case None
      then show ?thesis unfolding e using k by (auto simp: handle_rollout_ready_def books_ok_def)
    next
      case (Some p)
      have ro: "rollout_ok n i (make_rollout env tk (b @ [s]) ret (is_terminal s) (t\<lparr>wt_buffer := (wt_buffer t)\<lparr>buffer := []\<rparr>\<rparr>))"
        using k(1,7,8) full by (auto simp: rollout_ok_def make_rollout_def)
      have ids: "rollout_id (make_rollout env tk (b @ [s]) ret (is_terminal s) (t\<lparr>wt_buffer := (wt_buffer t)\<lparr>buffer := []\<rparr>\<rparr>)) =
          of_nat (length (wt_emitted t))" using k(5) by (simp add: make_rollout_def)
      have st: "ro_steps (make_rollout env tk (b @ [s]) ret (is_terminal s) (t\<lparr>wt_buffer := (wt_buffer t)\<lparr>buffer := []\<rparr>\<rparr>)) = b @ [s]"
        by (simp add: make_rollout_def)
      show ?thesis unfolding e using k c Some ro ids st
        by (simp add: handle_rollout_ready_def books_ok_def Let_def extract_initial_recurrent_state_def)
    qed
  qed
qed

lemma clear_facts [simp]:
  "unroll_length (clear_buffer b) = unroll_length b" "buffer (clear_buffer b) = []" "\<not> has_pending (clear_buffer b)"
  by (simp_all add: clear_buffer_def)

text \<open>Clearing an empty buffer, and the fields the invariant does not read.\<close>

lemma books_clear: "books_ok n i t \<Longrightarrow> buffer (wt_buffer t) = [] \<Longrightarrow> wt_sim_id t' = wt_sim_id t \<Longrightarrow>
   wt_buffer t' = clear_buffer (wt_buffer t) \<Longrightarrow> wt_emitted t' = wt_emitted t \<Longrightarrow> wt_sequence t' = wt_sequence t \<Longrightarrow>
   wt_publisher t' = wt_publisher t \<Longrightarrow> wt_completed t' = wt_completed t \<Longrightarrow> books_ok n i t'"
  by (simp add: books_ok_def)

lemma grown_after_complete:
  fixes t :: "'s worker_thread" and r e tms
  assumes "books_ok n i t" "has_pending (wt_buffer t)"
  defines "s \<equiv> (pending_step (wt_buffer t))\<lparr>ts_reward := r, is_terminal := e, ts_reward_terms := tms\<rparr>"
  shows "grown n i s (t\<lparr>wt_pacer := p, wt_buffer := push_step s ((wt_buffer t)\<lparr>pending_step := s, has_pending := False\<rparr>),
      wt_completed := wt_completed t @ [s]\<rparr>)"
  using assms(1) by (auto simp: grown_def push_step_def intro!: exI[of _ "buffer (wt_buffer t)"] elim!: books_cong)

text \<open>The transition that a turn of the main loop completes.\<close>

definition completed_step :: "step_result \<Rightarrow> 's worker_thread \<Rightarrow> trajectory_step" where
  "completed_step r t =
     (pending_step (wt_buffer t))\<lparr>ts_reward := obs_reward (sr_observation r), is_terminal := obs_is_terminal (sr_observation r),
        ts_reward_terms := md_reward_terms r\<rparr>"

context episode_source
begin

lemma request_reset_inv:
  assumes "we_ops env = ops" "ok (wt_sim t)" "books_ok n i t" "buffer (wt_buffer t) = []" "\<not> has_pending (wt_buffer t)"
  shows "\<exists>t'. request_reset env t = Some t' \<and> thread_inv n i t' \<and> ok (wt_sim t') \<and> wt_completed t' = wt_completed t \<and>
    (\<exists>res. wt_at t' = Reseeding res)"
proof -
  obtain res s' where r: "op_reset ops (wt_sim t) = Some (res, s')" "ok s'" using reset_returns[OF assms(2)] by blast
  have "books_ok n i (t\<lparr>wt_sim := s', wt_at := Reseeding res\<rparr>)" by (rule books_cong[OF assms(3)]) simp_all
  with r assms show ?thesis by (simp add: request_reset_def thread_inv_def)
qed

lemma after_step_inv:
  assumes "we_ops env = ops" "ok (wt_sim t)" "books_ok n i t" "has_pending (wt_buffer t)" "wt_at t = Running"
  shows "\<exists>t'. after_step env tk r t = Some t' \<and> thread_inv n i t' \<and> ok (wt_sim t') \<and>
    wt_completed t' = wt_completed t @ [completed_step r t] \<and>
    (if obs_is_terminal (sr_observation r) then \<exists>res. wt_at t' = Reseeding res
     else wt_at t' = Running \<and> ts_state (pending_step (wt_buffer t')) = sr_observation r)"
proof -
  let ?s = "completed_step r t" and ?e = "obs_is_terminal (sr_observation r)"
  let ?t1 = "t\<lparr>wt_pacer := snd (pace (sr_sim_time r) (tk_now tk) (wt_pacer t)),
      wt_buffer := push_step ?s ((wt_buffer t)\<lparr>pending_step := ?s, has_pending := False\<rparr>), wt_completed := wt_completed t @ [?s]\<rparr>"
  let ?t2 = "flush_rollout env tk (md_episode_return r) ?e ?t1"
  have tm: "is_terminal ?s = ?e" by (simp add: completed_step_def)
  have g: "grown n i ?s ?t1" unfolding completed_step_def by (rule grown_after_complete[OF assms(3,4)])
  note f = flush_books[OF g, of env tk "md_episode_return r", unfolded tm]
  have pend: "\<not> has_pending (wt_buffer ?t2)" using f by (simp add: push_step_def)
  have eq: "after_step env tk r t = (if ?e
      then request_reset env (reset_context env tk (?t2\<lparr>wt_next := None, wt_buffer := clear_buffer (wt_buffer ?t2)\<rparr>))
      else Some (choose_action env tk (sr_observation r) (sr_sim_time r) ?t2))"
    using assms(4) by (simp add: after_step_def Let_def complete_pending completed_step_def)
  have at: "wt_at ?t2 = Running"
    using assms(5) by (simp add: flush_rollout_def extract_steps_def handle_rollout_ready_def Let_def split: option.split)
  show ?thesis
  proof (cases ?e)
    case True
    let ?t3 = "reset_context env tk (?t2\<lparr>wt_next := None, wt_buffer := clear_buffer (wt_buffer ?t2)\<rparr>)"
    have "books_ok n i ?t3" by (rule books_clear[of n i ?t2]) (use f True in simp_all)
    from request_reset_inv[OF assms(1) _ this] f True assms(2) obtain t' where
      "request_reset env ?t3 = Some t'" "thread_inv n i t'" "ok (wt_sim t')" "wt_completed t' = wt_completed ?t3"
      "\<exists>res. wt_at t' = Reseeding res" by auto
    with f True show ?thesis by (simp add: eq)
  next
    case False
    have "thread_inv n i (choose_action env tk (sr_observation r) (sr_sim_time r) ?t2)"
      using choose_books[OF f[THEN conjunct1]] at by (simp add: thread_inv_def choose_facts)
    with f False assms(2) at show ?thesis by (simp add: eq choose_facts)
  qed
qed

text \<open>Every turn returns and keeps the invariant; a turn in which the simulator takes a step completes one transition.\<close>

lemma thread_turn_inv:
  assumes "we_ops env = ops" "ok (wt_sim t)" "thread_inv n i t"
  shows "\<exists>t'. thread_turn env tk t = Some t' \<and> thread_inv n i t' \<and> ok (wt_sim t')"
proof (cases "wt_at t")
  case Starting
  let ?t1 = "reset_context env tk (t\<lparr>wt_buffer := clear_buffer (wt_buffer t)\<rparr>)"
  have "books_ok n i ?t1" by (rule books_clear[of n i t]) (use assms(3) Starting in \<open>simp_all add: thread_inv_def\<close>)
  from request_reset_inv[OF assms(1) _ this] assms(2) show ?thesis by (auto simp: thread_turn_def Starting start_turn_def)
next
  case (Reseeding res)
  have books: "books_ok n i t" "buffer (wt_buffer t) = []" "\<not> has_pending (wt_buffer t)" using assms(3) Reseeding by (auto simp: thread_inv_def)
  have stop: "thread_inv n i (t\<lparr>wt_at := Returned\<rparr>)" using books_cong[OF books(1), of "t\<lparr>wt_at := Returned\<rparr>"] by (simp add: thread_inv_def)
  show ?thesis
  proof (cases res)
    case (Inl e)
    then show ?thesis using stop assms(2) by (simp add: thread_turn_def Reseeding reseed_turn_def)
  next
    case (Inr r)
    let ?t1 = "(choose_action env tk (sr_observation r) (sr_sim_time r) t)
        \<lparr>wt_pacer := pacer_reset (sr_sim_time r) (tk_now tk) (wt_pacer t), wt_at := Running\<rparr>"
    have "books_ok n i ?t1" by (rule books_cong[OF books(1)]) (simp_all add: choose_facts)
    then have run: "thread_inv n i ?t1" "ok (wt_sim ?t1)" using assms(2) by (simp_all add: thread_inv_def choose_facts)
    have "books_ok n i (t\<lparr>wt_next := None\<rparr>)" by (rule books_cong[OF books(1)]) simp_all
    from request_reset_inv[OF assms(1) _ this] books assms(2) obtain t2 where
      t2: "request_reset env (t\<lparr>wt_next := None\<rparr>) = Some t2" "thread_inv n i t2" "ok (wt_sim t2)" by auto
    show ?thesis using stop run t2 assms(2) Inr by (auto simp: thread_turn_def Reseeding reseed_turn_def)
  qed
next
  case Running
  have books: "books_ok n i t" "has_pending (wt_buffer t)" using assms(3) Running by (auto simp: thread_inv_def)
  obtain ev where ev: "wt_next t = Some ev" using assms(3) Running by (auto simp: thread_inv_def)
  obtain res s' where st: "op_step ops (tk_secs tk) (Some (pe_action ev)) (wt_sim t) = Some (res, s')" "ok s'"
    using step_returns[OF assms(2)] by blast
  have stop: "thread_inv n i (t\<lparr>wt_at := Returned\<rparr>)" "thread_inv n i (t\<lparr>wt_sim := s', wt_at := Returned\<rparr>)"
    using books_cong[OF books(1), of "t\<lparr>wt_at := Returned\<rparr>"] books_cong[OF books(1), of "t\<lparr>wt_sim := s', wt_at := Returned\<rparr>"]
    by (simp_all add: thread_inv_def)
  have b': "books_ok n i (t\<lparr>wt_sim := s'\<rparr>)" by (rule books_cong[OF books(1)]) simp_all
  show ?thesis
  proof (cases res)
    case (Inl e)
    then show ?thesis using stop st ev assms(1,2) by (simp add: thread_turn_def Running run_turn_def)
  next
    case (Inr r)
    from after_step_inv[OF assms(1) _ b', of tk r] books(2) Running st(2) obtain t' where
      "after_step env tk r (t\<lparr>wt_sim := s'\<rparr>) = Some t'" "thread_inv n i t'" "ok (wt_sim t')" by auto
    then show ?thesis using stop st ev Inr assms(1,2) by (auto simp: thread_turn_def Running run_turn_def)
  qed
next
  case Returned
  then show ?thesis using assms(2,3) by (simp add: thread_turn_def)
qed

lemma thread_run_inv:
  "we_ops env = ops \<Longrightarrow> ok (wt_sim t) \<Longrightarrow> thread_inv n i t \<Longrightarrow>
   \<exists>t'. thread_run env tks t = Some t' \<and> thread_inv n i t' \<and> ok (wt_sim t')"
proof (induction tks arbitrary: t)
  case (Cons tk tks)
  obtain t1 where "thread_turn env tk t = Some t1" "thread_inv n i t1" "ok (wt_sim t1)" using thread_turn_inv[OF Cons.prems] by blast
  with Cons.IH[OF Cons.prems(1)] show ?case by simp
qed simp

lemma running_step:
  assumes "we_ops env = ops" "ok (wt_sim t)" "thread_inv n i t" "wt_at t = Running" "\<not> tk_stop tk"
  shows "\<exists>ev. wt_next t = Some ev \<and>
    (\<forall>r s'. op_step ops (tk_secs tk) (Some (pe_action ev)) (wt_sim t) = Some (Inr r, s') \<longrightarrow>
       (\<exists>t'. thread_turn env tk t = Some t' \<and> wt_completed t' = wt_completed t @ [completed_step r t] \<and>
          ts_action (completed_step r t) = pe_action ev \<and>
          (if obs_is_terminal (sr_observation r) then \<exists>res. wt_at t' = Reseeding res
           else wt_at t' = Running \<and> ts_state (pending_step (wt_buffer t')) = sr_observation r)))"
proof -
  obtain ev where b: "books_ok n i t" "has_pending (wt_buffer t)" "wt_next t = Some ev" "ts_action (pending_step (wt_buffer t)) = pe_action ev"
    using assms(3,4) by (auto simp: thread_inv_def)
  have "\<exists>t'. thread_turn env tk t = Some t' \<and> wt_completed t' = wt_completed t @ [completed_step r t] \<and>
          ts_action (completed_step r t) = pe_action ev \<and>
          (if obs_is_terminal (sr_observation r) then \<exists>res. wt_at t' = Reseeding res
           else wt_at t' = Running \<and> ts_state (pending_step (wt_buffer t')) = sr_observation r)"
    if st: "op_step ops (tk_secs tk) (Some (pe_action ev)) (wt_sim t) = Some (Inr r, s')" for r s'
  proof -
    have "ok s'" using step_returns[OF assms(2), of "tk_secs tk" "Some (pe_action ev)"] st by simp
    moreover have "books_ok n i (t\<lparr>wt_sim := s'\<rparr>)" by (rule books_cong[OF b(1)]) simp_all
    moreover have "completed_step r (t\<lparr>wt_sim := s'\<rparr>) = completed_step r t" by (simp add: completed_step_def)
    ultimately obtain t' where "after_step env tk r (t\<lparr>wt_sim := s'\<rparr>) = Some t'" "wt_completed t' = wt_completed t @ [completed_step r t]"
      "if obs_is_terminal (sr_observation r) then \<exists>res. wt_at t' = Reseeding res
       else wt_at t' = Running \<and> ts_state (pending_step (wt_buffer t')) = sr_observation r"
      using after_step_inv[OF assms(1), of "t\<lparr>wt_sim := s'\<rparr>" n i tk r] b(2) assms(4) by auto
    moreover have "thread_turn env tk t = after_step env tk r (t\<lparr>wt_sim := s'\<rparr>)"
      using assms(1,4,5) b(3) st by (simp add: thread_turn_def run_turn_def)
    ultimately show ?thesis using b(4) by (simp add: completed_step_def)
  qed
  with b(3) show ?thesis by blast
qed

end

lemma make_thread_inv: "thread_inv n i (make_thread s i n mem p pub)"
  by (simp add: thread_inv_def books_ok_def make_thread_def make_trajectory_buffer_def)

text \<open>The simulator of \<open>Simulator\<close> is such a source, with the invariant of \<open>SimInv\<close>.\<close>

interpretation sim_source: episode_source "simulator_ops env" sim_ok for env :: "'q sim_env"
proof (unfold_locales, goal_cases)
  case (1 s)
  then show ?case using sim_reset_ok[of s env] by (auto simp: simulator_ops_def)
next
  case (2 s secs a)
  then show ?case using sim_step_ok[of s env secs a] by (auto simp: simulator_ops_def)
qed

end
