(* ===== verification/SimRuns.thy ===== *)
theory SimRuns
  imports SimInv
begin

text \<open>
  What runs of calls of a simulator amount to: they return, the books of an episode are those of its
  steps, errors leave the books alone, and the curriculum follows the outcomes of the episodes.
\<close>

section \<open>A simulator to try the properties on\<close>

definition demo_sim_env :: "(nat \<times> world_state_event list) sim_env" where
  "demo_sim_env = \<lparr>seeded = (\<lambda>i. \<lparr>route_tape = sconst 0, spawn_tape = sconst 0, object_tapes = (\<lambda>i. sconst 0), sensor_tapes = (\<lambda>i. (sconst 0, sconst 0))\<rparr>),
     seeded_rng = (\<lambda>i. sconst 0), env_nth = nth_by_sort, env_earliest = earliest_first, env_queue = list_queue\<rparr>"

definition demo_phase :: curriculum_phase where
  "demo_phase = \<lparr>ph_name = ''first'', ph_maps = [''m''], promote_on_success_rate = None, success_rate_window = 0,
     ph_spawn = \<lparr>ov_min_spawn_distance = None, ov_max_spawn_distance = None, ov_min_active_objects = None, ov_max_active_objects = None\<rparr>\<rparr>"

definition demo_sim_config :: sim_config where
  "demo_sim_config = \<lparr>fixed_dt = 1 / 100, decision_dt = 1 / 10, max_decision_steps = 2, max_sim_seconds = 60, collision_timeout = 0,
     sc_spawn = demo_cfg, curriculum_enabled = True, curriculum_phases = [demo_phase], rng_seed = 0\<rparr>"

definition demo_maps :: map_manager where
  "demo_maps = \<lparr>mm_models = Map.empty, available_map_names = [''m''], directory_maps = [''m'' \<mapsto> demo_world_map]\<rparr>"

definition demo_sim_params :: "sim_config \<Rightarrow> (nat \<times> world_state_event list) sim_params" where
  "demo_sim_params sc = \<lparr>sp_config = Some sc, sp_world_config = Some demo_world_config,
     sp_reward = Some \<lparr>reward_type = ''default'', terminate_on_goal = True, rc_weights = default_weights\<rparr>,
     sp_pool = Some (1, 1), sp_bus = Some Map.empty, sp_initial_map = None, sp_maps = Some demo_maps, sp_rate_hz = 0, sp_sim_id = 0\<rparr>"

lemma demo_maps_ok: "maps_ok demo_world_config demo_maps"
  using demo_world_config_ok by (auto simp: maps_ok_def demo_maps_def get_map_by_name_def split: if_splits)

lemma demo_sim_made: "\<exists>s. make_simulator demo_sim_env (demo_sim_params sc) = Inr s \<and> sim_cfg s = sc \<and> sim_world s = None \<and> phase_idx s = 0 \<and> success_window s = [] \<and>
    \<not> have_last_result s \<and> sim_maps s = Some demo_maps \<and> sim_world_cfg s = demo_world_config"
  by (auto simp: make_simulator_def demo_sim_params_def initial_simulator_def register_queue_def)

lemma demo_sim_fields: "sp_world_config (demo_sim_params sc) = Some demo_world_config" "sp_maps (demo_sim_params sc) = Some demo_maps"
  by (simp_all add: demo_sim_params_def)

section \<open>Properties\<close>

text \<open>C12: A simulator never hangs and never follows a null pointer: with sound maps and models, every
  sequence of resets and steps returns a result for each of its calls, errors included; the
  integration loop of a step ends.\<close>

theorem simulator_always_returns:
  assumes "make_simulator env p = Inr s" "sp_world_config p = Some wc" "sp_maps p = Some mm" "world_config_ok wc" "maps_ok wc mm"
  shows "\<exists>rs s'. sim_calls env cs s = Some (rs, s') \<and> length rs = length cs"
  using sim_calls_ok[OF make_simulator_ok[OF assms], of env cs] by blast

theorem simulator_always_returns_witness:
  "\<exists>s rs s'. make_simulator demo_sim_env (demo_sim_params demo_sim_config) = Inr s \<and>
     sim_calls demo_sim_env [Step 0 None, Reset, Step 0 (Some default_action), Step 0 None, Reset] s = Some (rs, s') \<and> length rs = 5"
proof -
  obtain s where s: "make_simulator demo_sim_env (demo_sim_params demo_sim_config) = Inr s" using demo_sim_made by blast
  from simulator_always_returns[OF s demo_sim_fields demo_world_config_ok(1) demo_maps_ok,
      of "[Step 0 None, Reset, Step 0 (Some default_action), Step 0 None, Reset]"] s
  show ?thesis by auto
qed

section \<open>Episodes\<close>

lemma episode_steps_books:
  assumes "sim_ok s" "0 \<le> decision_dt (sim_cfg s)"
  shows "sim_calls env (map (\<lambda>(t, a). Step t a) as) s = Some (map Inr rs, s') \<Longrightarrow> k < length rs \<Longrightarrow>
    md_episode_step_count (rs ! k) = episode_steps s + k + 1 \<and>
    md_episode_return (rs ! k) = ep_return s + sum_list (map md_step_reward (take (k + 1) rs)) \<and>
    md_episode_index (rs ! k) = episode_index s \<and>
    (max_decision_steps (sim_cfg s) > 0 \<and> episode_steps s + k + 1 \<ge> max_decision_steps (sim_cfg s) \<longrightarrow> sr_episode_done (rs ! k)) \<and>
    (max_sim_seconds (sim_cfg s) > 0 \<and> sr_sim_time (rs ! k) \<ge> max_sim_seconds (sim_cfg s) - k_eps \<longrightarrow> sr_episode_done (rs ! k)) \<and>
    sim_time_s s + real (k + 1) * decision_dt (sim_cfg s) - real k * k_eps \<le> sr_sim_time (rs ! k) \<and>
    sr_sim_time (rs ! k) \<le> sim_time_s s + real (k + 1) * decision_dt (sim_cfg s)"
  using assms
proof (induction as arbitrary: s rs k)
  case (Cons ta as)
  obtain t a where ta: "ta = (t, a)" by (cases ta)
  obtain res s1 where s1: "sim_step env t a s = Some (res, s1)" "sim_ok s1" "settled s s1"
    "case res of Inl e \<Rightarrow> same_books s s1
     | Inr r \<Rightarrow> sim_world s1 \<noteq> None \<and> step_booked s (sim_time_s s + decision_dt (sim_cfg s)) r s1 \<and>
         (0 \<le> decision_dt (sim_cfg s) \<longrightarrow> sim_time_s s1 \<le> sr_sim_time r \<and> sr_sim_time r - k_eps \<le> sim_time_s s1)"
    using sim_step_ok[OF Cons.prems(3), of env t a] by blast
  obtain ress where run: "sim_calls env (map (\<lambda>(t, a). Step t a) as) s1 = Some (ress, s')" "map Inr rs = res # ress"
    using Cons.prems(1) s1(1) ta by auto
  then obtain r rs1 where rs: "rs = r # rs1" "res = Inr r" "ress = map Inr rs1" by (cases rs) auto
  have b: "step_booked s (sim_time_s s + decision_dt (sim_cfg s)) r s1" "sim_time_s s1 \<le> sr_sim_time r" "sr_sim_time r - k_eps \<le> sim_time_s s1"
    using s1(4) rs(2) Cons.prems(4) by simp_all
  have c: "sim_cfg s1 = sim_cfg s" using s1(3) by (simp add: settled_def)
  show ?case
  proof (cases k)
    case 0
    then show ?thesis using b(1) rs by (auto simp: step_booked_def)
  next
    case (Suc j)
    have "sim_calls env (map (\<lambda>(t, a). Step t a) as) s1 = Some (map Inr rs1, s')" "j < length rs1" "0 \<le> decision_dt (sim_cfg s1)"
      using run(1) rs Cons.prems(2,4) Suc c by simp_all
    from Cons.IH[OF this(1,2) s1(2) this(3)]
    have IH: "md_episode_step_count (rs1 ! j) = episode_steps s1 + j + 1"
      "md_episode_return (rs1 ! j) = ep_return s1 + sum_list (map md_step_reward (take (j + 1) rs1))"
      "md_episode_index (rs1 ! j) = episode_index s1"
      "max_decision_steps (sim_cfg s) > 0 \<and> episode_steps s1 + j + 1 \<ge> max_decision_steps (sim_cfg s) \<longrightarrow> sr_episode_done (rs1 ! j)"
      "max_sim_seconds (sim_cfg s) > 0 \<and> sr_sim_time (rs1 ! j) \<ge> max_sim_seconds (sim_cfg s) - k_eps \<longrightarrow> sr_episode_done (rs1 ! j)"
      "sim_time_s s1 + real (j + 1) * decision_dt (sim_cfg s) - real j * k_eps \<le> sr_sim_time (rs1 ! j)"
      "sr_sim_time (rs1 ! j) \<le> sim_time_s s1 + real (j + 1) * decision_dt (sim_cfg s)"
      unfolding c by blast+
    have k: "episode_steps s1 = episode_steps s + 1" "ep_return s1 = ep_return s + md_step_reward r" "episode_index s1 = episode_index s"
      "sr_sim_time r = sim_time_s s + decision_dt (sim_cfg s)" using b(1) by (auto simp: step_booked_def)
    have "sim_time_s s + real (k + 1) * decision_dt (sim_cfg s) - real k * k_eps \<le> sr_sim_time (rs ! k)"
      "sr_sim_time (rs ! k) \<le> sim_time_s s + real (k + 1) * decision_dt (sim_cfg s)"
      using IH(6,7) b(2,3) k(4) rs(1) Suc by (simp_all add: algebra_simps)
    moreover have "md_episode_return (rs ! k) = ep_return s + sum_list (map md_step_reward (take (k + 1) rs))"
      using IH(2) k(2) rs(1) Suc by simp
    ultimately show ?thesis using IH(1,3,4,5) k(1,3) rs(1) Suc by simp
  qed
qed simp

text \<open>C1: The books of an episode: after a reset that succeeds, the result of the k-th step counts k
  steps, its return is the sum of the rewards so far, its index is that of the reset, its time is k
  decision periods up to the tolerance of the clock, and a step at the limit of steps or of time
  ends the episode.\<close>

theorem simulator_episode_books:
  assumes "make_simulator env p = Inr s" "sp_world_config p = Some wc" "sp_maps p = Some mm" "world_config_ok wc" "maps_ok wc mm"
    "0 \<le> decision_dt (sim_cfg s)" "sim_calls env cs s = Some (earlier, s1)"
    "sim_reset env s1 = Some (Inr r0, s2)" "sim_calls env (map (\<lambda>(t, a). Step t a) as) s2 = Some (map Inr rs, s3)"
  shows "md_episode_index r0 = (if initialized s1 then episode_index s1 + 1 else episode_index s1) \<and> \<not> sr_episode_done r0 \<and>
    (\<forall>k<length rs.
       md_episode_step_count (rs ! k) = k + 1 \<and>
       md_episode_return (rs ! k) = sum_list (map md_step_reward (take (k + 1) rs)) \<and>
       md_episode_index (rs ! k) = md_episode_index r0 \<and>
       (max_decision_steps (sim_cfg s) > 0 \<and> k + 1 \<ge> max_decision_steps (sim_cfg s) \<longrightarrow> sr_episode_done (rs ! k)) \<and>
       (max_sim_seconds (sim_cfg s) > 0 \<and> sr_sim_time (rs ! k) \<ge> max_sim_seconds (sim_cfg s) - k_eps \<longrightarrow> sr_episode_done (rs ! k)) \<and>
       real (k + 1) * decision_dt (sim_cfg s) - real k * k_eps \<le> sr_sim_time (rs ! k) \<and>
       sr_sim_time (rs ! k) \<le> real (k + 1) * decision_dt (sim_cfg s))"
proof -
  have s1: "sim_ok s1" "settled s s1" using sim_calls_ok[OF make_simulator_ok[OF assms(1-5)], of env cs] assms(7) by auto
  from sim_reset_ok[OF s1(1), of env] assms(8) have s2: "sim_ok s2" "settled s1 s2" "reset_booked s1 r0 s2" by auto
  have c: "sim_cfg s2 = sim_cfg s" using s1(2) s2(2) by (simp add: settled_def)
  have r: "episode_steps s2 = 0" "ep_return s2 = 0" "sim_time_s s2 = 0" "md_episode_index r0 = episode_index s2" "\<not> sr_episode_done r0"
    "md_episode_index r0 = (if initialized s1 then episode_index s1 + 1 else episode_index s1)"
    using s2(3) by (auto simp: reset_booked_def)
  have d: "0 \<le> decision_dt (sim_cfg s2)" using assms(6) c by simp
  show ?thesis
    using episode_steps_books[OF s2(1) d assms(9), unfolded c r(1-3)] r by simp
qed

text \<open>A reset succeeds when the phase has a map, a world can be made of it, and nothing is published.\<close>

lemma sim_reset_succeeds:
  assumes "pick_phase_map (current_phase (finish_episode s)) (finish_episode s) = Some (Some c, s2)" "\<not> visualization_enabled s2"
    "\<And>p. wp_config p = Some (sim_world_cfg s2) \<Longrightarrow> wp_map p = Some c \<Longrightarrow> wp_pool p \<noteq> None \<Longrightarrow> wp_spawn p \<noteq> None \<Longrightarrow>
       \<exists>w. make_world (env_nth env) p = Some (Inr w)"
  shows "\<exists>r s'. sim_reset env s = Some (Inr r, s')"
proof -
  define s3 where "s3 = s2\<lparr>active_spawn_config := Some (build_spawn_config (current_phase (finish_episode s)) s2)\<rparr>"
  obtain seed rr where seed: "create_world env c s3 = (case make_world (env_nth env) (params_of_world env c seed s3) of
         None \<Rightarrow> None
       | Some (Inl what) \<Rightarrow> Some (Inl (sim_error (''Failed to create world: '' @ what) ''Simulator::create_world''), s3\<lparr>sim_rng := rr, active_spawn_config := None\<rparr>)
       | Some (Inr w) \<Rightarrow> Some (Inr (), (s3\<lparr>sim_rng := rr, active_spawn_config := None\<rparr>)\<lparr>sim_world := Some w, current_map := Some c\<rparr>))"
    by (simp add: create_world_def Let_def case_prod_beta)
  obtain w where w: "make_world (env_nth env) (params_of_world env c seed s3) = Some (Inr w)"
    using assms(3)[of "params_of_world env c seed s3"] by (auto simp: params_of_world_def Let_def s3_def)
  define s4 where "s4 = start_episode ((s3\<lparr>sim_rng := rr, active_spawn_config := None\<rparr>)\<lparr>sim_world := Some w, current_map := Some c\<rparr>)"
  have k4: "sim_world s4 = Some w" "\<not> visualization_enabled s4"
    using assms(2) by (simp_all add: s4_def s3_def start_episode_def reset_episode_counters_def clear_step_def Let_def)
  obtain ob where ob: "build_initial_observation (sim_time_s s4) w = Inr ob" using tick_result(3) by blast
  have "publish_world_snapshot env (sim_time_s s4) True s4 = Some (Inr (), s4)" using k4(2) by (simp add: publish_world_snapshot_def)
  then have "sim_reset env s = Some (Inr (initial_result ob s4), s4)"
    unfolding sim_reset_def Let_def assms(1) option.case prod.case s3_def[symmetric] sim_then_def[of "create_world env c"] seed w sum.case s4_def[symmetric]
    using ob k4(1) by (simp add: sim_then_def observe_start_def)
  then show ?thesis by blast
qed

lemma demo_reset_succeeds:
  assumes "make_simulator demo_sim_env (demo_sim_params demo_sim_config) = Inr s"
  shows "\<exists>r s'. sim_reset demo_sim_env s = Some (Inr r, s')"
proof -
  have s: "s = initial_simulator demo_sim_env (demo_sim_params demo_sim_config) demo_sim_config demo_world_config
      \<lparr>reward_type = ''default'', terminate_on_goal = True, rc_weights = default_weights\<rparr> (1, 1) (sim_bus s)"
    using assms by (auto simp: make_simulator_def demo_sim_params_def initial_simulator_def register_queue_def)
  have f: "finish_episode s = s" by (subst s, subst (2) s) (simp add: finish_episode_def initial_simulator_def)
  have ph: "current_phase s = Some demo_phase" by (subst s) (simp add: current_phase_def initial_simulator_def demo_sim_config_def Let_def)
  have fields: "sim_rng s = sconst 0" "sim_maps s = Some demo_maps" "sim_world_cfg s = demo_world_config" "\<not> visualization_enabled s"
    by (subst s, simp add: initial_simulator_def demo_sim_env_def demo_sim_params_def)+
  have pick: "pick_phase_map (Some demo_phase) s = Some (Some demo_world_map, s\<lparr>sim_rng := sconst 0\<rparr>)"
    by (simp add: pick_phase_map_def demo_phase_def draw_index_def fields get_map_by_name_def demo_maps_def)
  show ?thesis
    by (rule sim_reset_succeeds[of s demo_world_map "s\<lparr>sim_rng := sconst 0\<rparr>"])
      (simp_all add: f ph pick fields demo_world_made_with[simplified])
qed

theorem simulator_episode_books_witness:
  "\<exists>s r0 s2 a b s3. make_simulator demo_sim_env (demo_sim_params demo_sim_config) = Inr s \<and> sim_reset demo_sim_env s = Some (Inr r0, s2) \<and>
     sim_calls demo_sim_env [Step 0 None, Step 0 (Some default_action)] s2 = Some ([Inr a, Inr b], s3) \<and>
     md_episode_step_count b = 2 \<and> sr_episode_done b \<and> md_episode_return b = md_step_reward a + md_step_reward b"
proof -
  obtain s where s: "make_simulator demo_sim_env (demo_sim_params demo_sim_config) = Inr s" "sim_cfg s = demo_sim_config" using demo_sim_made by blast
  have vis: "\<not> visualization_enabled s" using s(1)
    by (auto simp: make_simulator_def demo_sim_params_def initial_simulator_def register_queue_def)
  obtain r0 s2 where r0: "sim_reset demo_sim_env s = Some (Inr r0, s2)" using demo_reset_succeeds[OF s(1)] by blast
  have ok: "sim_ok s" by (rule make_simulator_ok[OF s(1) demo_sim_fields demo_world_config_ok(1) demo_maps_ok])
  have cfg: "fixed_dt demo_sim_config = 1 / 100" "decision_dt demo_sim_config = 1 / 10" "max_decision_steps demo_sim_config = 2"
    by (simp_all add: demo_sim_config_def)
  have s2: "sim_ok s2" "sim_world s2 \<noteq> None" "settled s s2" using sim_reset_ok[OF ok, of demo_sim_env] r0 by auto
  have st: "\<exists>r u'. sim_step demo_sim_env t act u = Some (Inr r, u') \<and> sim_ok u' \<and> sim_world u' \<noteq> None \<and> settled s u'"
    if "sim_ok u" "sim_world u \<noteq> None" "settled s u" for u t act
  proof -
    have "0 < fixed_dt (sim_cfg u)" "\<not> visualization_enabled u" using that(3) vis by (simp_all add: settled_def s(2) cfg)
    with sim_step_ok[OF that(1), of demo_sim_env t act] that(2) obtain r u' where "sim_step demo_sim_env t act u = Some (Inr r, u')" "sim_ok u'" "settled u u'" "sim_world u' \<noteq> None"
      by auto
    with settled_trans(1)[OF that(3)] show ?thesis by blast
  qed
  obtain a s4 where a: "sim_step demo_sim_env 0 None s2 = Some (Inr a, s4)" "sim_ok s4" "sim_world s4 \<noteq> None" "settled s s4" using st[OF s2] by blast
  obtain b s3 where b: "sim_step demo_sim_env 0 (Some default_action) s4 = Some (Inr b, s3)" using st[OF a(2-4)] by blast
  have run: "sim_calls demo_sim_env (map (\<lambda>(t, x). Step t x) [(0, None), (0, Some default_action)]) s2 = Some (map Inr [a, b], s3)"
    using a(1) b by simp
  have "0 \<le> decision_dt (sim_cfg s)" by (simp add: s(2) cfg)
  from simulator_episode_books[OF s(1) demo_sim_fields demo_world_config_ok(1) demo_maps_ok this, of "[]", OF _ r0 run, THEN conjunct2, THEN conjunct2, THEN spec, where x = 1]
  have "md_episode_step_count ([a, b] ! 1) = 2 \<and> md_episode_return ([a, b] ! 1) = sum_list (map md_step_reward (take 2 [a, b])) \<and> sr_episode_done ([a, b] ! 1)"
    by (simp add: s(2) cfg)
  with s r0 run show ?thesis by auto
qed

section \<open>Errors\<close>

text \<open>C15: The errors of a simulator: a step without a world and one with a physics period that is not
  positive fail with their own messages, without publishing these are the only errors of a step, a
  step that fails leaves the books alone, and without a phase every reset fails with a missing map.\<close>

theorem simulator_errors:
  assumes "make_simulator env p = Inr s0" "sp_world_config p = Some wc" "sp_maps p = Some mm" "world_config_ok wc" "maps_ok wc mm"
    "sim_calls env cs s0 = Some (rs, s)"
  shows "(\<exists>res s'. sim_step env secs a s = Some (res, s') \<and>
      (sim_world s = None \<longrightarrow> res = Inl (sim_error ''Simulator world not initialized'' ''Simulator::step'')) \<and>
      (sim_world s \<noteq> None \<and> fixed_dt (sim_cfg s0) \<le> 0 \<longrightarrow> res = Inl (sim_error ''Physics fixed_dt must be positive'' ''Simulator::integrate_until'')) \<and>
      (sim_world s \<noteq> None \<and> 0 < fixed_dt (sim_cfg s0) \<and> \<not> visualization_enabled s0 \<longrightarrow> (\<exists>r. res = Inr r)) \<and>
      ((\<exists>e. res = Inl e) \<longrightarrow> same_books s s')) \<and>
    (\<not> curriculum_enabled (sim_cfg s0) \<or> curriculum_phases (sim_cfg s0) = [] \<longrightarrow>
      (\<exists>s'. sim_reset env s = Some (Inl (sim_error ''Map configuration is null'' ''Simulator::reset''), s')))"
proof (intro conjI impI)
  have s: "sim_ok s" "settled s0 s" using sim_calls_ok[OF make_simulator_ok[OF assms(1-5)], of env cs] assms(6) by auto
  have c: "sim_cfg s = sim_cfg s0" "visualization_enabled s = visualization_enabled s0" using s(2) by (simp_all add: settled_def)
  show "\<exists>res s'. sim_step env secs a s = Some (res, s') \<and>
      (sim_world s = None \<longrightarrow> res = Inl (sim_error ''Simulator world not initialized'' ''Simulator::step'')) \<and>
      (sim_world s \<noteq> None \<and> fixed_dt (sim_cfg s0) \<le> 0 \<longrightarrow> res = Inl (sim_error ''Physics fixed_dt must be positive'' ''Simulator::integrate_until'')) \<and>
      (sim_world s \<noteq> None \<and> 0 < fixed_dt (sim_cfg s0) \<and> \<not> visualization_enabled s0 \<longrightarrow> (\<exists>r. res = Inr r)) \<and>
      ((\<exists>e. res = Inl e) \<longrightarrow> same_books s s')"
    using sim_step_ok[OF s(1), of env secs a] unfolding c by (elim exE conjE) (intro exI conjI, assumption+, auto)
  assume "\<not> curriculum_enabled (sim_cfg s0) \<or> curriculum_phases (sim_cfg s0) = []"
  moreover have "sim_cfg (finish_episode s) = sim_cfg s0" using finish_episode_keeps(1)[of s] c by (simp add: settled_def)
  ultimately have "current_phase (finish_episode s) = None" by (auto simp: current_phase_def Let_def)
  with sim_reset_ok[OF s(1), of env] show "\<exists>s'. sim_reset env s = Some (Inl (sim_error ''Map configuration is null'' ''Simulator::reset''), s')" by auto
qed

theorem simulator_errors_witness:
  "\<exists>s s'. make_simulator demo_sim_env (demo_sim_params (demo_sim_config\<lparr>curriculum_enabled := False\<rparr>)) = Inr s \<and>
     (\<exists>s1. sim_step demo_sim_env 0 None s = Some (Inl (sim_error ''Simulator world not initialized'' ''Simulator::step''), s1)) \<and>
     sim_reset demo_sim_env s = Some (Inl (sim_error ''Map configuration is null'' ''Simulator::reset''), s')"
proof -
  obtain s where s: "make_simulator demo_sim_env (demo_sim_params (demo_sim_config\<lparr>curriculum_enabled := False\<rparr>)) = Inr s"
    "sim_cfg s = demo_sim_config\<lparr>curriculum_enabled := False\<rparr>" "sim_world s = None" using demo_sim_made by blast
  have run: "sim_calls demo_sim_env [] s = Some ([], s)" by simp
  from simulator_errors[OF s(1) demo_sim_fields demo_world_config_ok(1) demo_maps_ok run, of 0 None] s show ?thesis by auto
qed

section \<open>The curriculum\<close>

text \<open>The outcomes of a sequence of episodes, as the resets after them record them.\<close>

definition finish_outcomes :: "bool list \<Rightarrow> 'q simulator \<Rightarrow> 'q simulator" where
  "finish_outcomes os s = fold (\<lambda>b s. maybe_advance_curriculum (record_episode_outcome b s)) os s"

definition last_outcomes :: "nat \<Rightarrow> bool list \<Rightarrow> bool list" where
  "last_outcomes n os = drop (length os - n) os"

text \<open>Enough episodes, and enough successes among the last ones.\<close>

definition phase_passed :: "curriculum_phase \<Rightarrow> bool list \<Rightarrow> bool" where
  "phase_passed ph os \<longleftrightarrow> success_rate_window ph > 0 \<and> length os \<ge> success_rate_window ph \<and>
     (case promote_on_success_rate ph of None \<Rightarrow> False | Some r \<Rightarrow> success_rate (last_outcomes (success_rate_window ph) os) \<ge> r)"

lemma last_outcomes_snoc: "last_outcomes n (last_outcomes n os @ [b]) = last_outcomes n (os @ [b])"
  by (cases "length os \<le> n") (auto simp: last_outcomes_def drop_append Suc_diff_le)

lemma current_phase_cong: "sim_cfg s' = sim_cfg s \<Longrightarrow> phase_idx s' = phase_idx s \<Longrightarrow> current_phase s' = current_phase s"
  unfolding current_phase_def Let_def by simp

lemma record_window:
  assumes "current_phase s = Some ph" "0 < success_rate_window ph"
  shows "success_window (record_episode_outcome b s) = last_outcomes (success_rate_window ph) (success_window s @ [b])"
    "sim_cfg (record_episode_outcome b s) = sim_cfg s" "phase_idx (record_episode_outcome b s) = phase_idx s"
proof -
  let ?s = "s\<lparr>episodes_in_phase := episodes_in_phase s + 1, successes_in_phase := (if b then successes_in_phase s + 1 else successes_in_phase s)\<rparr>"
  have "current_phase ?s = Some ph" using assms(1) current_phase_cong[of ?s s] by simp
  then show "success_window (record_episode_outcome b s) = last_outcomes (success_rate_window ph) (success_window s @ [b])"
    using assms(2) by (simp add: record_episode_outcome_def Let_def last_outcomes_def)
qed (simp_all add: record_episode_outcome_def Let_def)

lemma advance_window:
  assumes "current_phase s = Some ph" "0 < success_rate_window ph" "success_window s = last_outcomes (success_rate_window ph) os"
  shows "if phase_passed ph os \<and> phase_idx s + 1 < length (curriculum_phases (sim_cfg s))
    then phase_idx (maybe_advance_curriculum s) = phase_idx s + 1 \<and> success_window (maybe_advance_curriculum s) = [] \<and>
      episodes_in_phase (maybe_advance_curriculum s) = 0
    else maybe_advance_curriculum s = s"
proof -
  have ph: "curriculum_enabled (sim_cfg s)" "curriculum_phases (sim_cfg s) \<noteq> []" "curriculum_phases (sim_cfg s) ! phase_idx s = ph"
    using assms(1) by (auto simp: current_phase_def Let_def split: if_splits)
  have len: "length (last_outcomes n os) \<ge> n \<longleftrightarrow> length os \<ge> n" for n by (auto simp: last_outcomes_def)
  show ?thesis
    by (cases "promote_on_success_rate ph")
      (use ph assms(2,3) len in \<open>auto simp: maybe_advance_curriculum_def phase_passed_def Let_def\<close>)
qed

lemma finish_outcomes_waits:
  assumes "current_phase s = Some ph" "0 < success_rate_window ph" "success_window s = []"
  shows "\<forall>k\<le>length os. \<not> phase_passed ph (take k os) \<Longrightarrow>
    phase_idx (finish_outcomes os s) = phase_idx s \<and> sim_cfg (finish_outcomes os s) = sim_cfg s \<and>
    success_window (finish_outcomes os s) = last_outcomes (success_rate_window ph) os"
proof (induction os rule: rev_induct)
  case Nil
  then show ?case using assms(3) by (simp add: finish_outcomes_def last_outcomes_def)
next
  case (snoc b os)
  let ?s = "finish_outcomes os s" and ?n = "success_rate_window ph"
  have "\<forall>k\<le>length os. \<not> phase_passed ph (take k os)"
  proof (intro allI impI)
    fix k assume "k \<le> length os"
    then show "\<not> phase_passed ph (take k os)" using snoc.prems[rule_format, of k] by simp
  qed
  then have IH: "phase_idx ?s = phase_idx s" "sim_cfg ?s = sim_cfg s" "success_window ?s = last_outcomes ?n os" using snoc.IH by blast+
  have cur: "current_phase ?s = Some ph" using assms(1) IH current_phase_cong[of ?s s] by simp
  let ?r = "record_episode_outcome b ?s"
  have r: "success_window ?r = last_outcomes ?n (os @ [b])" "sim_cfg ?r = sim_cfg s" "phase_idx ?r = phase_idx s"
    using record_window[OF cur assms(2), of b] IH by (simp_all add: last_outcomes_snoc)
  have "\<not> phase_passed ph (os @ [b])" using snoc.prems[rule_format, of "length (os @ [b])"] by simp
  moreover have "current_phase ?r = Some ph" using assms(1) r current_phase_cong[of ?r s] by simp
  ultimately have "maybe_advance_curriculum ?r = ?r" using advance_window[OF _ assms(2) r(1)] by simp
  then show ?case using r by (simp add: finish_outcomes_def)
qed

text \<open>C14: The curriculum stays in a phase while the success rate over the last episodes of the window
  has not reached the threshold, and is promoted with the first episode after which it has, if there
  is another phase; the window is then empty again.\<close>

theorem curriculum_promotes:
  assumes "current_phase s = Some ph" "0 < success_rate_window ph" "success_window s = []"
    "\<forall>k\<le>length os. \<not> phase_passed ph (take k os)"
  shows "phase_idx (finish_outcomes os s) = phase_idx s \<and>
    success_window (finish_outcomes os s) = last_outcomes (success_rate_window ph) os \<and>
    (let s' = finish_outcomes (os @ [b]) s
     in if phase_passed ph (os @ [b]) \<and> phase_idx s + 1 < length (curriculum_phases (sim_cfg s))
        then phase_idx s' = phase_idx s + 1 \<and> success_window s' = [] \<and> episodes_in_phase s' = 0
        else phase_idx s' = phase_idx s \<and> success_window s' = last_outcomes (success_rate_window ph) (os @ [b]))"
proof -
  note w = finish_outcomes_waits[OF assms]
  let ?s = "finish_outcomes os s" and ?n = "success_rate_window ph"
  let ?r = "record_episode_outcome b ?s"
  have cur: "current_phase ?s = Some ph" using assms(1) w current_phase_cong[of ?s s] by simp
  have r: "success_window ?r = last_outcomes ?n (os @ [b])" "sim_cfg ?r = sim_cfg s" "phase_idx ?r = phase_idx s"
    using record_window[OF cur assms(2), of b] w by (simp_all add: last_outcomes_snoc)
  have "current_phase ?r = Some ph" using assms(1) r current_phase_cong[of ?r s] by simp
  note a = advance_window[OF this assms(2) r(1), unfolded r(2,3)]
  have "finish_outcomes (os @ [b]) s = maybe_advance_curriculum ?r" by (simp add: finish_outcomes_def)
  with w a r show ?thesis by (auto simp: Let_def split: if_splits)
qed

definition demo_two_phases :: sim_config where
  "demo_two_phases = demo_sim_config\<lparr>curriculum_phases := [demo_phase\<lparr>promote_on_success_rate := Some (1 / 2), success_rate_window := 2\<rparr>, demo_phase]\<rparr>"

text \<open>One success in the last two episodes is enough for half.\<close>

theorem curriculum_promotes_witness:
  "\<exists>s. make_simulator demo_sim_env (demo_sim_params demo_two_phases) = Inr s \<and>
     phase_idx (finish_outcomes [False] s) = 0 \<and> phase_idx (finish_outcomes [False, True] s) = 1"
proof -
  obtain s where s: "make_simulator demo_sim_env (demo_sim_params demo_two_phases) = Inr s" "sim_cfg s = demo_two_phases" "phase_idx s = 0" "success_window s = []"
    using demo_sim_made by blast
  let ?ph = "demo_phase\<lparr>promote_on_success_rate := Some (1 / 2), success_rate_window := 2\<rparr>"
  have ph: "current_phase s = Some ?ph"
    using s by (simp add: current_phase_def demo_two_phases_def demo_sim_config_def Let_def)
  have "\<forall>k\<le>length [False]. \<not> phase_passed ?ph (take k [False])" by (simp add: phase_passed_def)
  moreover have "phase_passed ?ph [False, True]" by (simp add: phase_passed_def last_outcomes_def success_rate_def)
  ultimately show ?thesis using curriculum_promotes[OF ph _ s(4), of "[False]" True] s
    by (auto simp: demo_two_phases_def Let_def)
qed

end
