(* ===== verification/WorkerRuns.thy ===== *)
theory WorkerRuns
  imports WorkerLoop SimRuns
begin

text \<open>
  The thread of a worker on the simulator of the library: the contract of \<open>episode_source\<close> is
  discharged, so that what the thread promises holds of the simulator that the code runs.
\<close>

section \<open>The publisher of a thread\<close>

lemma request_reset_publisher: "request_reset env t = Some t' \<Longrightarrow> wt_publisher t' = wt_publisher t"
  by (auto simp: request_reset_def)

lemma reset_context_publisher [simp]: "wt_publisher (reset_context env tk t) = wt_publisher t"
  by (simp add: reset_context_def)

lemma flush_publisher: "wt_publisher (flush_rollout env tk ret e t) = None \<longleftrightarrow> wt_publisher t = None"
  by (auto simp: flush_rollout_def case_prod_beta handle_rollout_ready_def Let_def split: option.split)

lemma flush_publisher': "None = wt_publisher (flush_rollout env tk ret e t) \<longleftrightarrow> wt_publisher t = None"
  using flush_publisher[of env tk ret e t] by auto

lemma turn_keeps_publisher:
  assumes "thread_turn env tk t = Some t'"
  shows "wt_publisher t' = None \<longleftrightarrow> wt_publisher t = None"
  using assms
  by (auto simp: thread_turn_def start_turn_def reseed_turn_def run_turn_def after_step_def Let_def choose_facts flush_publisher flush_publisher'
      split: sim_thread_at.splits sum.splits option.splits if_splits prod.splits dest!: request_reset_publisher)

lemma run_keeps_publisher: "thread_run env tks t = Some t' \<Longrightarrow> wt_publisher t' = None \<longleftrightarrow> wt_publisher t = None"
  by (induction tks arbitrary: t) (auto simp: bind_eq_Some_conv dest: turn_keeps_publisher)

section \<open>A thread to try the properties on\<close>

definition demo_worker_env :: "(nat \<times> world_state_event list) simulator worker_env" where
  "demo_worker_env = \<lparr>we_ops = simulator_ops demo_sim_env, we_nth = nth_by_sort, we_policy = EXPERT, we_deterministic = False,
     we_profile = None, we_arch = default_architecture\<rparr>"

definition demo_tick :: tick where
  "demo_tick = \<lparr>tk_stop = False, tk_version = 1, tk_model = None, tk_now = 0, tk_secs = 0\<rparr>"

definition demo_thread :: "(nat \<times> world_state_event list) simulator \<Rightarrow> (nat \<times> world_state_event list) simulator worker_thread" where
  "demo_thread s = make_thread s 0 1 demo_mem (make_pacer 1 0) (Some demo_publisher)"

text \<open>Two turns later the thread is in its main loop.\<close>

lemma demo_thread_runs:
  assumes "make_simulator demo_sim_env (demo_sim_params demo_sim_config) = Inr s"
  shows "\<exists>t. thread_run demo_worker_env [demo_tick, demo_tick] (demo_thread s) = Some t \<and> wt_at t = Running \<and> wt_completed t = [] \<and>
    wt_publisher t = Some demo_publisher \<and> thread_inv 1 0 t \<and> sim_ok (wt_sim t) \<and> sim_world (wt_sim t) \<noteq> None \<and>
    fixed_dt (sim_cfg (wt_sim t)) = 1 / 100 \<and> \<not> visualization_enabled (wt_sim t)"
proof -
  have ok: "sim_ok s" by (rule make_simulator_ok[OF assms demo_sim_fields demo_world_config_ok(1) demo_maps_ok])
  have c: "sim_cfg s = demo_sim_config" using assms demo_sim_made[of demo_sim_config] by auto
  have vis: "\<not> visualization_enabled s" using assms
    by (auto simp: make_simulator_def demo_sim_params_def initial_simulator_def register_queue_def)
  obtain r0 s2 where r0: "sim_reset demo_sim_env s = Some (Inr r0, s2)" using demo_reset_succeeds[OF assms] by blast
  have s2: "sim_ok s2" "sim_world s2 \<noteq> None" "settled s s2" "reset_booked s r0 s2" using sim_reset_ok[OF ok, of demo_sim_env] r0 by auto
  have go: "\<not> obs_is_terminal (sr_observation r0)" using s2(4) by (simp add: reset_booked_def)
  have m: "wt_sim (demo_thread s) = s" "wt_at (demo_thread s) = Starting" "wt_completed (demo_thread s) = []"
    "wt_publisher (demo_thread s) = Some demo_publisher" by (simp_all add: demo_thread_def make_thread_def)
  have e: "we_ops demo_worker_env = simulator_ops demo_sim_env" "\<not> is_neural demo_worker_env" "op_reset (simulator_ops demo_sim_env) = sim_reset demo_sim_env"
    "\<not> tk_stop demo_tick" by (simp_all add: demo_worker_env_def is_neural_def simulator_ops_def demo_tick_def)
  let ?t1 = "demo_thread s\<lparr>wt_buffer := clear_buffer (wt_buffer (demo_thread s)), wt_sim := s2, wt_at := Reseeding (Inr r0)\<rparr>"
  have t1: "thread_turn demo_worker_env demo_tick (demo_thread s) = Some ?t1"
    by (simp add: thread_turn_def m start_turn_def request_reset_def reset_context_def e r0)
  let ?t2 = "(choose_action demo_worker_env demo_tick (sr_observation r0) (sr_sim_time r0) ?t1)
      \<lparr>wt_pacer := pacer_reset (sr_sim_time r0) (tk_now demo_tick) (wt_pacer ?t1), wt_at := Running\<rparr>"
  have t2: "thread_turn demo_worker_env demo_tick ?t1 = Some ?t2"
    by (simp add: thread_turn_def reseed_turn_def e go)
  have run: "thread_run demo_worker_env [demo_tick, demo_tick] (demo_thread s) = Some ?t2"
    by (simp only: thread_run.simps t1 t2 Option.bind.bind_lunit)
  have "thread_inv 1 0 (demo_thread s)" unfolding demo_thread_def by (rule make_thread_inv)
  with sim_source.thread_run_inv[OF e(1), of "demo_thread s" 1 0 "[demo_tick, demo_tick]"] ok run m(1)
  have "thread_inv 1 0 ?t2" "sim_ok (wt_sim ?t2)" by auto
  moreover have "wt_completed ?t2 = []" "wt_publisher ?t2 = Some demo_publisher" "wt_sim ?t2 = s2" using m by (simp_all add: choose_facts)
  moreover have "fixed_dt (sim_cfg s2) = 1 / 100" "\<not> visualization_enabled s2"
    using s2(3) vis by (simp_all add: settled_def c demo_sim_config_def)
  ultimately show ?thesis using run s2(2) by (intro exI[of _ ?t2]) simp
qed

section \<open>Properties\<close>


text \<open>C11: A turn of the main loop steps the simulator with the action chosen for the last observation;
  an error ends the thread, and otherwise the turn records the transition with its observation,
  action, reward and end, and resets after an episode or chooses the next action.\<close>

theorem worker_turn_records_step:
  assumes "make_simulator senv sp = Inr s" "sp_world_config sp = Some wc" "sp_maps sp = Some mm" "world_config_ok wc" "maps_ok wc mm"
    "we_ops env = simulator_ops senv" "thread_run env tks (make_thread s i n mem p pub) = Some t" "wt_at t = Running" "\<not> tk_stop tk"
  shows "\<exists>ev res s'. wt_next t = Some ev \<and> sim_step senv (tk_secs tk) (Some (pe_action ev)) (wt_sim t) = Some (res, s') \<and>
    (case res of
       Inl e \<Rightarrow> thread_turn env tk t = Some (t\<lparr>wt_sim := s', wt_at := Returned\<rparr>)
     | Inr r \<Rightarrow>
         \<exists>x t'. thread_turn env tk t = Some t' \<and> wt_completed t' = wt_completed t @ [x] \<and>
           ts_state x = ts_state (pending_step (wt_buffer t)) \<and> ts_action x = pe_action ev \<and>
           ts_reward x = md_step_reward r \<and> ts_reward_terms x = md_reward_terms r \<and> (is_terminal x \<longleftrightarrow> sr_episode_done r) \<and>
           (if sr_episode_done r then \<exists>res'. wt_at t' = Reseeding res'
            else wt_at t' = Running \<and> ts_state (pending_step (wt_buffer t')) = sr_observation r))"
proof -
  have "sim_ok (wt_sim (make_thread s i n mem p pub))" using make_simulator_ok[OF assms(1-5)] by (simp add: make_thread_def)
  from sim_source.thread_run_inv[OF assms(6) this make_thread_inv, of tks] assms(7)
  have t: "thread_inv n i t" "sim_ok (wt_sim t)" by auto
  from sim_source.running_step[OF assms(6) t(2,1) assms(8,9)] obtain ev where ev: "wt_next t = Some ev"
    "\<And>r s'. sim_step senv (tk_secs tk) (Some (pe_action ev)) (wt_sim t) = Some (Inr r, s') \<Longrightarrow>
       \<exists>t'. thread_turn env tk t = Some t' \<and> wt_completed t' = wt_completed t @ [completed_step r t] \<and>
          ts_action (completed_step r t) = pe_action ev \<and>
          (if obs_is_terminal (sr_observation r) then \<exists>res. wt_at t' = Reseeding res
           else wt_at t' = Running \<and> ts_state (pending_step (wt_buffer t')) = sr_observation r)"
    by (auto simp: simulator_ops_def)
  obtain res s' where st: "sim_step senv (tk_secs tk) (Some (pe_action ev)) (wt_sim t) = Some (res, s')"
    "case res of Inl e \<Rightarrow> True | Inr r \<Rightarrow> step_booked (wt_sim t) (sim_time_s (wt_sim t) + decision_dt (sim_cfg (wt_sim t))) r s'"
    using sim_step_ok[OF t(2), of senv "tk_secs tk" "Some (pe_action ev)"] by (fastforce split: sum.splits)
  show ?thesis
  proof (cases res)
    case (Inl e)
    have "thread_turn env tk t = Some (t\<lparr>wt_sim := s', wt_at := Returned\<rparr>)"
      using st(1) Inl assms(6,8,9) ev(1) by (simp add: thread_turn_def run_turn_def simulator_ops_def)
    with ev(1) st(1) Inl show ?thesis by auto
  next
    case (Inr r)
    have b: "obs_is_terminal (sr_observation r) = sr_episode_done r" "obs_reward (sr_observation r) = md_step_reward r"
      using st(2) Inr by (simp_all add: step_booked_def)
    obtain t' where t': "thread_turn env tk t = Some t'" "wt_completed t' = wt_completed t @ [completed_step r t]"
      "ts_action (completed_step r t) = pe_action ev"
      "if sr_episode_done r then \<exists>res. wt_at t' = Reseeding res
       else wt_at t' = Running \<and> ts_state (pending_step (wt_buffer t')) = sr_observation r"
      using ev(2) st(1) Inr b(1) by auto
    have "ts_state (completed_step r t) = ts_state (pending_step (wt_buffer t))" "ts_reward (completed_step r t) = md_step_reward r"
      "ts_reward_terms (completed_step r t) = md_reward_terms r" "is_terminal (completed_step r t) = sr_episode_done r"
      using b by (simp_all add: completed_step_def)
    with t' ev(1) st(1) Inr show ?thesis by (intro exI[of _ ev] exI[of _ res] exI[of _ s']) auto
  qed
qed

text \<open>The first turn of the main loop completes a transition.\<close>

theorem worker_turn_records_step_witness:
  "\<exists>s t t' x. make_simulator demo_sim_env (demo_sim_params demo_sim_config) = Inr s \<and>
     thread_run demo_worker_env [demo_tick, demo_tick] (demo_thread s) = Some t \<and> thread_turn demo_worker_env demo_tick t = Some t' \<and>
     wt_completed t' = [x] \<and> ts_state x = ts_state (pending_step (wt_buffer t))"
proof -
  obtain s where s: "make_simulator demo_sim_env (demo_sim_params demo_sim_config) = Inr s" using demo_sim_made by blast
  obtain t where t: "thread_run demo_worker_env [demo_tick, demo_tick] (demo_thread s) = Some t" "wt_at t = Running" "wt_completed t = []"
    "sim_ok (wt_sim t)" "sim_world (wt_sim t) \<noteq> None" "fixed_dt (sim_cfg (wt_sim t)) = 1 / 100" "\<not> visualization_enabled (wt_sim t)"
    using demo_thread_runs[OF s] by blast
  have e: "we_ops demo_worker_env = simulator_ops demo_sim_env" "\<not> tk_stop demo_tick" by (simp_all add: demo_worker_env_def demo_tick_def)
  from worker_turn_records_step[OF s demo_sim_fields demo_world_config_ok(1) demo_maps_ok e(1) t(1)[unfolded demo_thread_def] t(2) e(2)]
  obtain ev :: policy_eval and res s' where ev: "sim_step demo_sim_env (tk_secs demo_tick) (Some (pe_action ev)) (wt_sim t) = Some (res, s')"
    "case res of Inl e \<Rightarrow> thread_turn demo_worker_env demo_tick t = Some (t\<lparr>wt_sim := s', wt_at := Returned\<rparr>)
     | Inr r \<Rightarrow> \<exists>x t'. thread_turn demo_worker_env demo_tick t = Some t' \<and> wt_completed t' = wt_completed t @ [x] \<and>
         ts_state x = ts_state (pending_step (wt_buffer t)) \<and> ts_action x = pe_action ev \<and>
         ts_reward x = md_step_reward r \<and> ts_reward_terms x = md_reward_terms r \<and> (is_terminal x \<longleftrightarrow> sr_episode_done r) \<and>
         (if sr_episode_done r then \<exists>res'. wt_at t' = Reseeding res'
          else wt_at t' = Running \<and> ts_state (pending_step (wt_buffer t')) = sr_observation r)"
    by (elim exE conjE) (rule that; assumption)
  moreover have "\<exists>r. res = Inr r"
    using sim_step_ok[OF t(4), of demo_sim_env "tk_secs demo_tick" "Some (pe_action ev)"] ev(1) t(5-7) by auto
  ultimately obtain x t' where "thread_turn demo_worker_env demo_tick t = Some t'" "wt_completed t' = [x]"
    "ts_state x = ts_state (pending_step (wt_buffer t))" using t(3) by auto
  with s t(1) show ?thesis by blast
qed


end
