(* ===== verification/Yaml.thy ===== *)
theory Yaml
  imports Names Planar
begin

text \<open>
  What the parsers of the configuration use of the YAML library and of the file system, both
  parameters, and the reading of nodes. A call that throws gives the text of its exception. A
  conversion \<^verbatim>\<open>as<T>(d)\<close> with a default never throws: it gives the default where \<^verbatim>\<open>as<T>()\<close> would
  throw. A parser is a chain of reads that each may fail.
\<close>

section \<open>The library\<close>

record 'y yaml =
  y_load_file :: "string \<Rightarrow> string + 'y"
  y_key :: "'y \<Rightarrow> string \<Rightarrow> string + 'y"
  y_index :: "'y \<Rightarrow> nat \<Rightarrow> string + 'y"
  y_defined :: "'y \<Rightarrow> bool"
  y_is_map :: "'y \<Rightarrow> string + bool"
  y_is_sequence :: "'y \<Rightarrow> string + bool"
  y_is_scalar :: "'y \<Rightarrow> string + bool"
  y_size :: "'y \<Rightarrow> string + nat"
  y_items :: "'y \<Rightarrow> string + 'y list"
  y_pairs :: "'y \<Rightarrow> string + ('y \<times> 'y) list"
  as_double :: "'y \<Rightarrow> string + real"
  as_float :: "'y \<Rightarrow> string + real"
  as_bool :: "'y \<Rightarrow> string + bool"
  as_size :: "'y \<Rightarrow> string + nat"
  as_u16 :: "'y \<Rightarrow> string + 16 word"
  as_u32 :: "'y \<Rightarrow> string + 32 word"
  as_u64 :: "'y \<Rightarrow> string + 64 word"
  as_string :: "'y \<Rightarrow> string + string"
  as_strings :: "'y \<Rightarrow> string + string list"

text \<open>Paths are strings. \<open>fs_files\<close> lists the names of the regular files of a directory, with whether
  the listing ended with an exception.\<close>

record file_system =
  fs_is_directory :: "string \<Rightarrow> bool"
  fs_files :: "string \<Rightarrow> string list \<times> bool"
  fs_absolute :: "string \<Rightarrow> string"
  fs_canonical :: "string \<Rightarrow> string + string"
  fs_weakly_canonical :: "string \<Rightarrow> string + string"
  fs_join :: "string \<Rightarrow> string \<Rightarrow> string"
  fs_parent :: "string \<Rightarrow> string"
  fs_filename :: "string \<Rightarrow> string"

section \<open>Failures\<close>

text \<open>An exception on its way to the handler, an error that is returned, or a search that never ends.\<close>

datatype parse_failure = Thrown string | Rejected error | Endless

definition thrown :: "string + 'a \<Rightarrow> parse_failure + 'a" where
  "thrown r = (case r of Inl what \<Rightarrow> Inl (Thrown what) | Inr v \<Rightarrow> Inr v)"

definition reject :: "string \<Rightarrow> string \<Rightarrow> parse_failure + 'a" where
  "reject m ctx = Inl (Rejected (make_error CONFIG m ctx))"

definition require :: "bool \<Rightarrow> string \<Rightarrow> string \<Rightarrow> parse_failure + unit" where
  "require ok m ctx = (if ok then Inr () else reject m ctx)"

text \<open>A text between single quotation marks, as the messages have it.\<close>

definition quoted :: "string \<Rightarrow> string" where
  "quoted s = CHR 0x27 # s @ [CHR 0x27]"

text \<open>The handlers around a parser: \<open>None\<close> for one that never returns.\<close>

definition caught :: "string \<Rightarrow> parse_failure + 'a \<Rightarrow> (error + 'a) option" where
  "caught ctx r =
     (case r of
        Inr v \<Rightarrow> Some (Inr v)
      | Inl (Thrown what) \<Rightarrow> Some (Inl (make_error CONFIG what ctx))
      | Inl (Rejected e) \<Rightarrow> Some (Inl e)
      | Inl Endless \<Rightarrow> None)"

section \<open>Reading a node\<close>

definition key :: "'y yaml \<Rightarrow> 'y \<Rightarrow> string \<Rightarrow> parse_failure + 'y" where
  "key y n k = thrown (y_key y n k)"

definition has :: "'y yaml \<Rightarrow> 'y \<Rightarrow> string \<Rightarrow> parse_failure + bool" where
  "has y n k = and_then (key y n k) (\<lambda>c. Inr (y_defined y c))"

text \<open>\<^verbatim>\<open>n[k].as<T>()\<close> and \<^verbatim>\<open>n[k].as<T>(d)\<close>.\<close>

definition need :: "('y yaml \<Rightarrow> 'y \<Rightarrow> string + 'a) \<Rightarrow> 'y yaml \<Rightarrow> 'y \<Rightarrow> string \<Rightarrow> parse_failure + 'a" where
  "need f y n k = and_then (key y n k) (\<lambda>c. thrown (f y c))"

definition or_else :: "string + 'a \<Rightarrow> 'a \<Rightarrow> 'a" where
  "or_else r d = (case r of Inl what \<Rightarrow> d | Inr v \<Rightarrow> v)"

definition pick :: "('y yaml \<Rightarrow> 'y \<Rightarrow> string + 'a) \<Rightarrow> 'y yaml \<Rightarrow> 'y \<Rightarrow> string \<Rightarrow> 'a \<Rightarrow> parse_failure + 'a" where
  "pick f y n k d = and_then (key y n k) (\<lambda>c. Inr (or_else (f y c) d))"

text \<open>\<^verbatim>\<open>n[i].as<T>()\<close> and \<^verbatim>\<open>n[i].as<T>(d)\<close>.\<close>

definition need_at :: "('y yaml \<Rightarrow> 'y \<Rightarrow> string + 'a) \<Rightarrow> 'y yaml \<Rightarrow> 'y \<Rightarrow> nat \<Rightarrow> parse_failure + 'a" where
  "need_at f y n i = and_then (thrown (y_index y n i)) (\<lambda>c. thrown (f y c))"

definition pick_at :: "('y yaml \<Rightarrow> 'y \<Rightarrow> string + 'a) \<Rightarrow> 'y yaml \<Rightarrow> 'y \<Rightarrow> nat \<Rightarrow> 'a \<Rightarrow> parse_failure + 'a" where
  "pick_at f y n i d = and_then (thrown (y_index y n i)) (\<lambda>c. Inr (or_else (f y c) d))"

section \<open>Chains of reads\<close>

type_synonym 's read = "'s \<Rightarrow> parse_failure + 's"

primrec reads :: "'s read list \<Rightarrow> 's read" where
  "reads [] s = Inr s"
| "reads (r # rs) s = and_then (r s) (reads rs)"

text \<open>\<^verbatim>\<open>x = n[k].as<T>(d)\<close>; the same with the old value as default; \<^verbatim>\<open>if (n[k]) x = n[k].as<T>()\<close>;
  a read whose value the model does not keep.\<close>

definition set_or :: "('y yaml \<Rightarrow> 'y \<Rightarrow> string + 'a) \<Rightarrow> 'y yaml \<Rightarrow> 'y \<Rightarrow> string \<Rightarrow> 'a \<Rightarrow> ('a \<Rightarrow> 's \<Rightarrow> 's) \<Rightarrow> 's read" where
  "set_or f y n k d upd s = and_then (pick f y n k d) (\<lambda>v. Inr (upd v s))"

definition set_own :: "('y yaml \<Rightarrow> 'y \<Rightarrow> string + 'a) \<Rightarrow> 'y yaml \<Rightarrow> 'y \<Rightarrow> string \<Rightarrow> ('s \<Rightarrow> 'a) \<Rightarrow> ('a \<Rightarrow> 's \<Rightarrow> 's) \<Rightarrow> 's read" where
  "set_own f y n k get upd s = set_or f y n k (get s) upd s"

definition set_need :: "('y yaml \<Rightarrow> 'y \<Rightarrow> string + 'a) \<Rightarrow> 'y yaml \<Rightarrow> 'y \<Rightarrow> string \<Rightarrow> ('a \<Rightarrow> 's \<Rightarrow> 's) \<Rightarrow> 's read" where
  "set_need f y n k upd s = and_then (need f y n k) (\<lambda>v. Inr (upd v s))"

definition when_has :: "'y yaml \<Rightarrow> 'y \<Rightarrow> string \<Rightarrow> 's read \<Rightarrow> 's read" where
  "when_has y n k body s = and_then (has y n k) (\<lambda>b. if b then body s else Inr s)"

definition set_if :: "('y yaml \<Rightarrow> 'y \<Rightarrow> string + 'a) \<Rightarrow> 'y yaml \<Rightarrow> 'y \<Rightarrow> string \<Rightarrow> ('a \<Rightarrow> 's \<Rightarrow> 's) \<Rightarrow> 's read" where
  "set_if f y n k upd = when_has y n k (set_need f y n k upd)"

definition skip :: "'y yaml \<Rightarrow> 'y \<Rightarrow> string \<Rightarrow> 's read" where
  "skip y n k s = and_then (key y n k) (\<lambda>c. Inr s)"

text \<open>\<^verbatim>\<open>if (n[k]) { const auto& c = n[k]; ... }\<close>, and the same for a child that is a mapping.\<close>

definition in_child :: "'y yaml \<Rightarrow> 'y \<Rightarrow> string \<Rightarrow> ('y \<Rightarrow> 's read) \<Rightarrow> 's read" where
  "in_child y n k body = when_has y n k (\<lambda>s. and_then (key y n k) (\<lambda>c. body c s))"

definition defined_and :: "'y yaml \<Rightarrow> ('y \<Rightarrow> string + bool) \<Rightarrow> 'y \<Rightarrow> parse_failure + bool" where
  "defined_and y test c = (if y_defined y c then thrown (test c) else Inr False)"

definition in_map :: "'y yaml \<Rightarrow> 'y \<Rightarrow> string \<Rightarrow> ('y \<Rightarrow> 's read) \<Rightarrow> 's read" where
  "in_map y n k body s =
     and_then (key y n k) (\<lambda>c. and_then (defined_and y (y_is_map y) c) (\<lambda>b. if b then body c s else Inr s))"

text \<open>\<^verbatim>\<open>for (i = 0; i < n.size(); ++i)\<close> over \<^verbatim>\<open>n[i]\<close>, and a loop over the children.\<close>

definition for_index :: "'y yaml \<Rightarrow> 'y \<Rightarrow> (nat \<Rightarrow> 'y \<Rightarrow> 's read) \<Rightarrow> 's read" where
  "for_index y n body s =
     and_then (thrown (y_size y n))
       (\<lambda>m. reads (map (\<lambda>i s. and_then (thrown (y_index y n i)) (\<lambda>c. body i c s)) [0..<m]) s)"

definition for_items :: "'y yaml \<Rightarrow> 'y \<Rightarrow> ('y \<Rightarrow> 's read) \<Rightarrow> 's read" where
  "for_items y n body s = and_then (thrown (y_items y n)) (\<lambda>cs. reads (map body cs) s)"

section \<open>Rules for chains\<close>

text \<open>A read preserves \<open>P\<close> when it does not fail.\<close>

definition preserves :: "('s \<Rightarrow> bool) \<Rightarrow> 's read \<Rightarrow> bool" where
  "preserves P r \<longleftrightarrow> (\<forall>s s'. P s \<longrightarrow> r s = Inr s' \<longrightarrow> P s')"

named_theorems keeps_intros \<open>reads that keep a predicate\<close>

lemma keepsI: "(\<And>s s'. P s \<Longrightarrow> r s = Inr s' \<Longrightarrow> P s') \<Longrightarrow> preserves P r"
  unfolding preserves_def by blast

lemma keepsD: "preserves P r \<Longrightarrow> P s \<Longrightarrow> r s = Inr s' \<Longrightarrow> P s'"
  unfolding preserves_def by blast

lemma keeps_and_then [keeps_intros]: "(\<And>v. preserves P (f v)) \<Longrightarrow> preserves P (\<lambda>s. and_then (m s) (\<lambda>v. f v s))"
  by (rule keepsI) (auto simp: and_then_eq_Inr dest: keepsD)

lemma keeps_if [keeps_intros]: "preserves P r \<Longrightarrow> preserves P (\<lambda>s. if b s then r s else Inr s)"
  by (rule keepsI) (auto dest: keepsD split: if_splits)

lemma reads_keep_Cons [keeps_intros]: "preserves P r \<Longrightarrow> preserves P (reads rs) \<Longrightarrow> preserves P (reads (r # rs))"
  "preserves P (reads [])"
  by (rule keepsI, auto simp: and_then_eq_Inr dest: keepsD)+

lemma reads_keep: "(\<And>r. r \<in> set rs \<Longrightarrow> preserves P r) \<Longrightarrow> preserves P (reads rs)"
proof (induction rs)
  case Nil
  show ?case by (rule reads_keep_Cons(2))
next
  case (Cons r rs)
  then show ?case by (intro reads_keep_Cons) simp_all
qed

lemma set_keeps [keeps_intros]:
  "(\<And>v s. P s \<Longrightarrow> P (upd v s)) \<Longrightarrow> preserves P (set_or f y n k d upd)"
  "(\<And>v s. P s \<Longrightarrow> P (upd v s)) \<Longrightarrow> preserves P (set_own f y n k get upd)"
  "(\<And>v s. P s \<Longrightarrow> P (upd v s)) \<Longrightarrow> preserves P (set_need f y n k upd)"
  "(\<And>v s. P s \<Longrightarrow> P (upd v s)) \<Longrightarrow> preserves P (set_if f y n k upd)"
  by (rule keepsI, auto simp: set_or_def set_own_def set_need_def set_if_def when_has_def and_then_eq_Inr split: if_splits)+

lemma skip_keeps [keeps_intros]: "preserves P (skip y n k)"
  by (rule keepsI) (auto simp: skip_def and_then_eq_Inr)

lemma child_keeps [keeps_intros]:
  "preserves P body' \<Longrightarrow> preserves P (when_has y n k body')"
  "(\<And>c. preserves P (body c)) \<Longrightarrow> preserves P (in_child y n k body)"
  "(\<And>c. preserves P (body c)) \<Longrightarrow> preserves P (in_map y n k body)"
  by (rule keepsI, auto simp: in_child_def when_has_def in_map_def and_then_eq_Inr split: if_splits dest: keepsD)+

lemma for_keeps [keeps_intros]:
  "(\<And>i c. preserves P (body i c)) \<Longrightarrow> preserves P (for_index y n body)"
  "(\<And>c. preserves P (body' c)) \<Longrightarrow> preserves P (for_items y n body')"
proof -
  assume b: "\<And>i c. preserves P (body i c)"
  have "preserves P (reads (map (\<lambda>i s. and_then (thrown (y_index y n i)) (\<lambda>c. body i c s)) is))" for "is"
    by (rule reads_keep) (use keeps_and_then[of P, OF b] in auto)
  then show "preserves P (for_index y n body)" by (intro keepsI) (auto simp: for_index_def and_then_eq_Inr dest: keepsD)
next
  assume b: "\<And>c. preserves P (body' c)"
  have "preserves P (reads (map body' cs))" for cs by (rule reads_keep) (use b in auto)
  then show "preserves P (for_items y n body')" by (intro keepsI) (auto simp: for_items_def and_then_eq_Inr dest: keepsD)
qed

lemma require_Inr [simp]: "require ok m ctx = Inr u \<longleftrightarrow> ok"
  by (simp add: require_def reject_def)

lemma reject_not_Inr [simp]: "reject m ctx \<noteq> Inr v" "Inr v \<noteq> reject m ctx"
  by (simp_all add: reject_def)

lemma thrown_Inr [simp]: "thrown r = Inr v \<longleftrightarrow> r = Inr v"
  by (cases r) (simp_all add: thrown_def)

lemma caught_Inr [simp]: "caught ctx r = Some (Inr v) \<longleftrightarrow> r = Inr v"
  by (auto simp: caught_def split: sum.splits parse_failure.splits)

text \<open>A read returns, and preserves \<open>P\<close> when it does not fail.\<close>

definition returns :: "parse_failure + 'a \<Rightarrow> bool" where
  "returns r \<longleftrightarrow> r \<noteq> Inl Endless"

named_theorems returns_intros \<open>reads that return\<close>

lemma caught_returns: "returns r \<Longrightarrow> \<exists>v. caught ctx r = Some v"
  by (auto simp: caught_def returns_def split: sum.splits parse_failure.splits)

lemma returns_basic [returns_intros]:
  "returns (Inr v)" "returns (thrown r)" "returns (reject m ctx)" "returns (require ok m ctx)" "returns (key y n k)"
  "returns (has y n k)" "returns (need f y n k)" "returns (pick f y n k d)" "returns (need_at f y n i)" "returns (pick_at f y n i d)"
  "returns (defined_and y t c)"
  by (auto simp: returns_def thrown_def reject_def require_def key_def has_def need_def pick_def need_at_def pick_at_def
      defined_and_def and_then_def split: sum.splits)

lemma returns_and_then [returns_intros]:
  "returns r \<Longrightarrow> (\<And>v. r = Inr v \<Longrightarrow> returns (f v)) \<Longrightarrow> returns (and_then r f)"
  by (auto simp: returns_def and_then_def split: sum.splits)

lemma returns_if [returns_intros]: "(b \<Longrightarrow> returns r) \<Longrightarrow> (\<not> b \<Longrightarrow> returns r') \<Longrightarrow> returns (if b then r else r')"
  by simp

lemma returns_reads: "(\<And>r s. r \<in> set rs \<Longrightarrow> returns (r s)) \<Longrightarrow> returns (reads rs s)"
proof (induction rs arbitrary: s)
  case Nil
  then show ?case by (simp add: returns_def)
next
  case (Cons r rs)
  have "returns (r s)" "\<And>s. returns (reads rs s)" using Cons by simp_all
  then show ?case by (auto intro!: returns_and_then)
qed

lemma returns_reads_Cons [returns_intros]: "returns (reads [] s)" "returns (r s) \<Longrightarrow> (\<And>s. returns (reads rs s)) \<Longrightarrow> returns (reads (r # rs) s)"
  by (auto simp: returns_def and_then_def split: sum.splits)

lemma returns_set [returns_intros]:
  "returns (set_or f y n k d upd s)" "returns (set_own f y n k get upd s)" "returns (set_need f y n k upd s)"
  "returns (set_if f y n k upd s)" "returns (skip y n k s)"
  by (auto simp: set_or_def set_own_def set_need_def set_if_def when_has_def skip_def intro!: returns_intros)

lemma returns_child [returns_intros]:
  "(\<And>s. returns (body' s)) \<Longrightarrow> returns (when_has y n k body' s)"
  "(\<And>c s. returns (body c s)) \<Longrightarrow> returns (in_child y n k body s)"
  "(\<And>c s. returns (body c s)) \<Longrightarrow> returns (in_map y n k body s)"
  by (auto simp: in_child_def when_has_def in_map_def intro!: returns_intros)

lemma returns_for [returns_intros]:
  "(\<And>i c s. returns (body i c s)) \<Longrightarrow> returns (for_index y n body s)"
  "(\<And>c s. returns (body' c s)) \<Longrightarrow> returns (for_items y n body' s)"
  by (auto simp: for_index_def for_items_def intro!: returns_intros returns_reads)

text \<open>Loops with a state: \<open>P i\<close> holds before the turn \<open>i\<close>.\<close>

lemma reads_counted:
  assumes "\<And>i s. i < m \<Longrightarrow> P i s \<Longrightarrow> returns (f i s) \<and> (\<forall>s'. f i s = Inr s' \<longrightarrow> P (Suc i) s')" "P j s" "j \<le> m"
  shows "returns (reads (map f [j..<m]) s) \<and> (\<forall>s'. reads (map f [j..<m]) s = Inr s' \<longrightarrow> P m s')"
  using assms(2,3)
proof (induction "m - j" arbitrary: j s)
  case 0
  then show ?case by (simp add: returns_def)
next
  case (Suc d)
  then have up: "[j..<m] = j # [Suc j..<m]" "j < m" by (simp_all add: upt_conv_Cons)
  note st = assms(1)[OF up(2) Suc.prems(1)]
  show ?case
  proof (cases "f j s")
    case (Inl e)
    then show ?thesis using st up by (simp add: returns_def)
  next
    case (Inr s1)
    then have "P (Suc j) s1" using st by simp
    from Suc.hyps(1)[OF _ this] Suc.hyps(2) up(2) show ?thesis using Inr up by simp
  qed
qed

lemma for_index_counted:
  assumes "\<And>i c s. i < m \<Longrightarrow> P i s \<Longrightarrow> returns (body i c s) \<and> (\<forall>s'. body i c s = Inr s' \<longrightarrow> P (Suc i) s')"
    "P 0 s" "\<And>k. y_size y n = Inr k \<Longrightarrow> k \<le> m" "\<And>i j s. P i s \<Longrightarrow> i \<le> j \<Longrightarrow> P j s"
  shows "returns (for_index y n body s) \<and> (\<forall>s'. for_index y n body s = Inr s' \<longrightarrow> P m s')"
proof (cases "y_size y n")
  case (Inl e)
  then show ?thesis by (simp add: for_index_def thrown_def returns_def)
next
  case (Inr k)
  let ?f = "\<lambda>i s. and_then (thrown (y_index y n i)) (\<lambda>c. body i c s)"
  have "returns (reads (map ?f [0..<k]) s) \<and> (\<forall>s'. reads (map ?f [0..<k]) s = Inr s' \<longrightarrow> P k s')"
    by (rule reads_counted[of k P])
      (use assms(1,2) assms(3)[OF Inr] in \<open>auto simp: and_then_eq_Inr intro!: returns_intros\<close>)
  with assms(4) assms(3)[OF Inr] show ?thesis by (auto simp: for_index_def Inr thrown_def)
qed

section \<open>Unique names\<close>

text \<open>The generator of unique names of the parser, with a fallback for an empty name.\<close>

definition generate_name :: "string \<Rightarrow> string \<Rightarrow> name_table \<Rightarrow> parse_failure + (string \<times> name_table)" where
  "generate_name fallback desired t =
     (let b = (if desired = [] then fallback else desired)
      in if b \<notin> used_names t
         then Inr (b, count_from_one b (t\<lparr>used_names := insert b (used_names t)\<rparr>))
         else let c0 = (case suffix_counts t b of None \<Rightarrow> 0 | Some c \<Rightarrow> c);
                  c = (if c0 = 0 then 1 else c0)
              in (case fresh_loop b (used_names t) c of
                    None \<Rightarrow> Inl Endless
                  | Some (candidate, c') \<Rightarrow>
                      Inr (candidate, count_from_one candidate
                        (t\<lparr>used_names := insert candidate (used_names t), suffix_counts := (suffix_counts t)(b \<mapsto> c')\<rparr>))))"

lemma suffixed_nonempty: "suffixed b c \<noteq> []"
  by (simp add: suffixed_def)

lemma generate_name_new:
  assumes "finite (used_names t)" "card (used_names t) < 2 ^ 32" "fallback \<noteq> []"
  shows "\<exists>name t'. generate_name fallback desired t = Inr (name, t') \<and> name \<noteq> [] \<and> name \<notin> used_names t \<and>
    used_names t' = insert name (used_names t) \<and> (desired \<noteq> [] \<and> desired \<notin> used_names t \<longrightarrow> name = desired)"
proof (cases "(if desired = [] then fallback else desired) \<notin> used_names t")
  case True
  then show ?thesis using assms(3) by (auto simp: generate_name_def Let_def)
next
  case False
  let ?b = "if desired = [] then fallback else desired"
  let ?c = "if (case suffix_counts t ?b of None \<Rightarrow> 0 | Some c \<Rightarrow> c) = 0 then 1 else (case suffix_counts t ?b of None \<Rightarrow> 0 | Some c \<Rightarrow> c)"
  obtain n where "suffixed ?b (?c + of_nat n) \<notin> used_names t" using fresh_exists[OF assms(1,2)] by blast
  from fresh_loop_finds[OF this] obtain m where m: "suffixed ?b (?c + of_nat m) \<notin> used_names t"
    "fresh_loop ?b (used_names t) ?c = Some (suffixed ?b (?c + of_nat m), ?c + of_nat m + 1)" by blast
  show ?thesis using False m by (auto simp: generate_name_def Let_def suffixed_nonempty split: if_splits)
qed

section \<open>A library of trees\<close>

text \<open>An instance of the library, for trees that are given as values; a file is looked up in a table.\<close>

datatype tree = TAbsent | TText string | TNum real | TFlag bool | TSeq "tree list" | TMap "(string \<times> tree) list"

fun tree_key :: "tree \<Rightarrow> string \<Rightarrow> string + tree" where
  "tree_key (TMap kvs) k = Inr (case map_of kvs k of None \<Rightarrow> TAbsent | Some t \<Rightarrow> t)"
| "tree_key (TSeq ts) k = Inr TAbsent"
| "tree_key TAbsent k = Inl ''invalid node''"
| "tree_key t k = Inl ''operator[] call on a scalar''"

fun tree_index :: "tree \<Rightarrow> nat \<Rightarrow> string + tree" where
  "tree_index (TSeq ts) i = Inr (if i < length ts then ts ! i else TAbsent)"
| "tree_index TAbsent i = Inl ''invalid node''"
| "tree_index (TMap kvs) i = Inr TAbsent"
| "tree_index t i = Inl ''operator[] call on a scalar''"

fun tree_kind :: "(tree \<Rightarrow> bool) \<Rightarrow> tree \<Rightarrow> string + bool" where
  "tree_kind P TAbsent = Inl ''invalid node''"
| "tree_kind P t = Inr (P t)"

fun tree_items :: "tree \<Rightarrow> string + tree list" where
  "tree_items (TSeq ts) = Inr ts"
| "tree_items t = Inr []"

fun tree_size :: "tree \<Rightarrow> string + nat" where
  "tree_size (TSeq ts) = (if length ts \<le> 2 ^ 32 then Inr (length ts) else Inl ''too many entries'')"
| "tree_size (TMap kvs) = (if length kvs \<le> 2 ^ 32 then Inr (length kvs) else Inl ''too many entries'')"
| "tree_size TAbsent = Inl ''invalid node''"
| "tree_size t = Inr 0"

definition conv :: "(tree \<Rightarrow> 'a option) \<Rightarrow> tree \<Rightarrow> string + 'a" where
  "conv f t = (case f t of None \<Rightarrow> Inl ''bad conversion'' | Some v \<Rightarrow> Inr v)"

fun tree_num :: "tree \<Rightarrow> real option" where
  "tree_num (TNum r) = Some r" | "tree_num t = None"

fun tree_text :: "tree \<Rightarrow> string option" where
  "tree_text (TText s) = Some s" | "tree_text t = None"

fun tree_flag :: "tree \<Rightarrow> bool option" where
  "tree_flag (TFlag b) = Some b" | "tree_flag t = None"

fun tree_texts :: "tree \<Rightarrow> string list option" where
  "tree_texts (TSeq ts) = those (map tree_text ts)" | "tree_texts t = None"

definition tree_yaml :: "(string \<Rightarrow> string + tree) \<Rightarrow> tree yaml" where
  "tree_yaml files = \<lparr>y_load_file = files, y_key = tree_key, y_index = tree_index, y_defined = (\<lambda>t. t \<noteq> TAbsent),
     y_is_map = tree_kind (\<lambda>t. case t of TMap kvs \<Rightarrow> True | _ \<Rightarrow> False),
     y_is_sequence = tree_kind (\<lambda>t. case t of TSeq ts \<Rightarrow> True | _ \<Rightarrow> False),
     y_is_scalar = tree_kind (\<lambda>t. case t of TText s \<Rightarrow> True | TNum r \<Rightarrow> True | TFlag b \<Rightarrow> True | _ \<Rightarrow> False),
     y_size = tree_size, y_items = tree_items,
     y_pairs = (\<lambda>t. Inr (case t of TMap kvs \<Rightarrow> map (\<lambda>(k, v). (TText k, v)) kvs | _ \<Rightarrow> [])),
     as_double = conv tree_num, as_float = conv tree_num, as_bool = conv tree_flag,
     as_size = conv (\<lambda>t. map_option (\<lambda>r. nat \<lfloor>r\<rfloor>) (tree_num t)),
     as_u16 = conv (\<lambda>t. map_option (\<lambda>r. of_int \<lfloor>r\<rfloor>) (tree_num t)),
     as_u32 = conv (\<lambda>t. map_option (\<lambda>r. of_int \<lfloor>r\<rfloor>) (tree_num t)),
     as_u64 = conv (\<lambda>t. map_option (\<lambda>r. of_int \<lfloor>r\<rfloor>) (tree_num t)),
     as_string = conv tree_text, as_strings = conv tree_texts\<rparr>"

lemmas read_defs = set_or_def set_own_def set_need_def set_if_def when_has_def skip_def in_child_def in_map_def for_index_def for_items_def
  defined_and_def key_def has_def need_def pick_def need_at_def pick_at_def or_else_def thrown_def require_def

lemmas tree_defs = tree_yaml_def conv_def

end
