(* ===== verification/ConfigSim.thy ===== *)
theory ConfigSim
  imports Simulator Yaml
begin

text \<open>
  The parser of the simulator configuration, \<^verbatim>\<open>parse_simulator_config\<close> of
  \<^verbatim>\<open>config/src/parsing.cpp\<close>, with the poses and points that all parsers read. A parser is a
  chain of reads of a YAML tree. A field of a configuration that no record of the model has is read
  and dropped, so that a parser fails as the code does.
\<close>

section \<open>Poses, points and polygons\<close>

definition origin_pose :: pose2 where "origin_pose = \<lparr>pos = pt 0 0, yaw = 0\<rparr>"

definition read_point :: "'y yaml \<Rightarrow> 'y \<Rightarrow> parse_failure + point2" where
  "read_point y n = and_then (need_at as_double y n 0) (\<lambda>a. and_then (need_at as_double y n 1) (\<lambda>b. Inr (pt a b)))"

definition parse_pose2 :: "'y yaml \<Rightarrow> 'y \<Rightarrow> parse_failure + pose2" where
  "parse_pose2 y n =
     reads [in_child y n ''pos'' (\<lambda>c s. and_then (read_point y c) (\<lambda>p. Inr (s\<lparr>pos := p\<rparr>))),
            set_if as_double y n ''yaw'' (\<lambda>v s. s\<lparr>yaw := v\<rparr>)] origin_pose"

definition parse_point2 :: "'y yaml \<Rightarrow> 'y \<Rightarrow> parse_failure + point2" where
  "parse_point2 y n = read_point y n"

definition parse_polygon2 :: "'y yaml \<Rightarrow> 'y \<Rightarrow> parse_failure + point2 list" where
  "parse_polygon2 y n = for_items y n (\<lambda>c vs. and_then (read_point y c) (\<lambda>p. Inr (vs @ [p]))) []"

section \<open>The simulator\<close>

definition default_angular :: angular_bias where
  "default_angular = \<lparr>front_angle_deg = 120, flank_angle_deg = 60, rear_angle_deg = 120, front_weight = 3, flank_weight = 1, rear_weight = 2 / 10\<rparr>"

definition default_distance :: distance_bias where
  "default_distance = \<lparr>near_distance = 25, far_distance = 55, near_weight_slow = 12 / 10, near_weight_fast = 4 / 10,
     far_weight_slow = 6 / 10, far_weight_fast = 14 / 10, slow_speed_mps = 2, fast_speed_mps = 10\<rparr>"

definition default_spawn :: spawn_cfg where
  "default_spawn = \<lparr>min_spawn_distance = 30, max_spawn_distance = 60, min_inter_object_distance = 8, fov_angle_deg = 120,
     fov_distance = 60, max_sensor_range = 80, max_despawn_distance = 80, stuck_timeout = 5, avoid_fov = True,
     angular = default_angular, dist_bias = default_distance,
     occlusion = \<lparr>allow_in_fov = False, static_blocker_radius = 3, dynamic_blocker_radius = 2\<rparr>,
     respect_map_geometry = False, max_spawns_per_frame = 3, max_spawn_attempts_per_frame = 10,
     min_active_objects = 5, max_active_objects = 20, max_position_samples = 50\<rparr>"

definition default_sim_config :: sim_config where
  "default_sim_config = \<lparr>fixed_dt = 5 / 1000, decision_dt = 5 / 100, max_decision_steps = 10000, max_sim_seconds = 0,
     collision_timeout = 3, sc_spawn = default_spawn, curriculum_enabled = False, curriculum_phases = [], rng_seed = 1234567\<rparr>"

definition default_phase :: curriculum_phase where
  "default_phase = \<lparr>ph_name = [], ph_maps = [], promote_on_success_rate = Some (8 / 10), success_rate_window = 20,
     ph_spawn = \<lparr>ov_min_spawn_distance = None, ov_max_spawn_distance = None, ov_min_active_objects = None, ov_max_active_objects = None\<rparr>\<rparr>"

definition parse_timing :: "'y yaml \<Rightarrow> 'y \<Rightarrow> sim_config read" where
  "parse_timing y n = reads
     [in_child y n ''physics'' (\<lambda>p. reads
        [set_or as_double y p ''fixed_dt'' (5 / 1000) (\<lambda>v s. s\<lparr>fixed_dt := v\<rparr>),
         skip y p ''max_substeps_per_step'']),
      in_child y n ''decision'' (\<lambda>d. reads
        [set_or as_double y d ''decision_dt'' (5 / 100) (\<lambda>v s. s\<lparr>decision_dt := v\<rparr>),
         skip y d ''action_delay_s'',
         skip y d ''first_order_tau_s'']),
      in_child y n ''episode'' (\<lambda>e. reads
        [set_or as_size y e ''max_decision_steps'' 10000 (\<lambda>v s. s\<lparr>max_decision_steps := v\<rparr>),
         set_or as_double y e ''max_sim_seconds'' 0 (\<lambda>v s. s\<lparr>max_sim_seconds := v\<rparr>),
         set_or as_double y e ''collision_timeout_s'' 3 (\<lambda>v s. s\<lparr>collision_timeout := v\<rparr>)]),
      set_or as_u64 y n ''rng_seed'' 1234567 (\<lambda>v s. s\<lparr>rng_seed := v\<rparr>)]"

definition parse_angular :: "'y yaml \<Rightarrow> 'y \<Rightarrow> angular_bias read" where
  "parse_angular y n = reads
     [set_if as_double y n ''front_angle_deg'' (\<lambda>v s. s\<lparr>front_angle_deg := v\<rparr>),
      set_if as_double y n ''flank_angle_deg'' (\<lambda>v s. s\<lparr>flank_angle_deg := v\<rparr>),
      set_if as_double y n ''rear_angle_deg'' (\<lambda>v s. s\<lparr>rear_angle_deg := v\<rparr>),
      set_if as_double y n ''front_weight'' (\<lambda>v s. s\<lparr>front_weight := v\<rparr>),
      set_if as_double y n ''flank_weight'' (\<lambda>v s. s\<lparr>flank_weight := v\<rparr>),
      set_if as_double y n ''rear_weight'' (\<lambda>v s. s\<lparr>rear_weight := v\<rparr>)]"

definition parse_distance :: "'y yaml \<Rightarrow> 'y \<Rightarrow> distance_bias read" where
  "parse_distance y n = reads
     [set_if as_double y n ''near_distance'' (\<lambda>v s. s\<lparr>near_distance := v\<rparr>),
      set_if as_double y n ''far_distance'' (\<lambda>v s. s\<lparr>far_distance := v\<rparr>),
      set_if as_double y n ''near_weight_slow'' (\<lambda>v s. s\<lparr>near_weight_slow := v\<rparr>),
      set_if as_double y n ''near_weight_fast'' (\<lambda>v s. s\<lparr>near_weight_fast := v\<rparr>),
      set_if as_double y n ''far_weight_slow'' (\<lambda>v s. s\<lparr>far_weight_slow := v\<rparr>),
      set_if as_double y n ''far_weight_fast'' (\<lambda>v s. s\<lparr>far_weight_fast := v\<rparr>),
      set_if as_double y n ''slow_speed_mps'' (\<lambda>v s. s\<lparr>slow_speed_mps := v\<rparr>),
      set_if as_double y n ''fast_speed_mps'' (\<lambda>v s. s\<lparr>fast_speed_mps := v\<rparr>)]"

definition parse_occlusion :: "'y yaml \<Rightarrow> 'y \<Rightarrow> occlusion_settings read" where
  "parse_occlusion y n = reads
     [set_if as_bool y n ''allow_in_fov'' (\<lambda>v s. s\<lparr>allow_in_fov := v\<rparr>),
      set_if as_double y n ''static_blocker_radius'' (\<lambda>v s. s\<lparr>static_blocker_radius := v\<rparr>),
      set_if as_double y n ''dynamic_blocker_radius'' (\<lambda>v s. s\<lparr>dynamic_blocker_radius := v\<rparr>)]"

definition parse_spawn :: "'y yaml \<Rightarrow> 'y \<Rightarrow> spawn_cfg read" where
  "parse_spawn y n = reads
     [set_if as_double y n ''min_spawn_distance'' (\<lambda>v s. s\<lparr>min_spawn_distance := v\<rparr>),
      set_if as_double y n ''max_spawn_distance'' (\<lambda>v s. s\<lparr>max_spawn_distance := v\<rparr>),
      set_if as_double y n ''min_inter_object_distance'' (\<lambda>v s. s\<lparr>min_inter_object_distance := v\<rparr>),
      set_if as_bool y n ''avoid_fov'' (\<lambda>v s. s\<lparr>avoid_fov := v\<rparr>),
      in_map y n ''angular_bias'' (\<lambda>c s. and_then (parse_angular y c (angular s)) (\<lambda>a. Inr (s\<lparr>angular := a\<rparr>))),
      in_map y n ''distance_bias'' (\<lambda>c s. and_then (parse_distance y c (dist_bias s)) (\<lambda>d. Inr (s\<lparr>dist_bias := d\<rparr>))),
      in_map y n ''occlusion'' (\<lambda>c s. and_then (parse_occlusion y c (occlusion s)) (\<lambda>d. Inr (s\<lparr>occlusion := d\<rparr>))),
      set_if as_bool y n ''respect_map_geometry'' (\<lambda>v s. s\<lparr>respect_map_geometry := v\<rparr>),
      set_if as_size y n ''max_spawns_per_frame'' (\<lambda>v s. s\<lparr>max_spawns_per_frame := v\<rparr>),
      set_if as_size y n ''max_spawn_attempts_per_frame'' (\<lambda>v s. s\<lparr>max_spawn_attempts_per_frame := v\<rparr>),
      set_if as_size y n ''min_active_objects'' (\<lambda>v s. s\<lparr>min_active_objects := v\<rparr>),
      set_if as_size y n ''max_active_objects'' (\<lambda>v s. s\<lparr>max_active_objects := v\<rparr>),
      set_if as_double y n ''max_distance_from_robot'' (\<lambda>v s. s\<lparr>max_despawn_distance := v\<rparr>),
      set_if as_double y n ''stuck_timeout'' (\<lambda>v s. s\<lparr>stuck_timeout := v\<rparr>),
      set_if as_double y n ''fov_angle_deg'' (\<lambda>v s. s\<lparr>fov_angle_deg := v\<rparr>),
      set_if as_double y n ''fov_distance'' (\<lambda>v s. s\<lparr>fov_distance := v\<rparr>),
      set_if as_double y n ''max_sensor_range'' (\<lambda>v s. s\<lparr>max_sensor_range := v\<rparr>),
      set_if as_size y n ''max_position_samples'' (\<lambda>v s. s\<lparr>max_position_samples := v\<rparr>)]"

section \<open>The curriculum\<close>

definition parse_overrides :: "'y yaml \<Rightarrow> 'y \<Rightarrow> spawn_overrides read" where
  "parse_overrides y n = reads
     [set_if as_double y n ''min_spawn_distance'' (\<lambda>v s. s\<lparr>ov_min_spawn_distance := Some v\<rparr>),
      set_if as_double y n ''max_spawn_distance'' (\<lambda>v s. s\<lparr>ov_max_spawn_distance := Some v\<rparr>),
      set_if as_size y n ''min_active_objects'' (\<lambda>v s. s\<lparr>ov_min_active_objects := Some v\<rparr>),
      set_if as_size y n ''max_active_objects'' (\<lambda>v s. s\<lparr>ov_max_active_objects := Some v\<rparr>)]"

text \<open>A child that is a sequence.\<close>

definition in_sequence :: "'y yaml \<Rightarrow> 'y \<Rightarrow> string \<Rightarrow> ('y \<Rightarrow> 's read) \<Rightarrow> 's read" where
  "in_sequence y n k body s =
     and_then (key y n k) (\<lambda>c. and_then (defined_and y (y_is_sequence y) c) (\<lambda>b. if b then body c s else Inr s))"

definition sim_context :: string where "sim_context = ''parse_simulator_config''"

definition parse_phase :: "'y yaml \<Rightarrow> bool \<Rightarrow> nat \<Rightarrow> 'y \<Rightarrow> parse_failure + curriculum_phase" where
  "parse_phase y on i n = reads
     [set_or as_string y n ''name'' (''phase_'' @ digits i) (\<lambda>v s. s\<lparr>ph_name := v\<rparr>),
      in_sequence y n ''maps'' (\<lambda>c. for_items y c
        (\<lambda>m s. and_then (thrown (as_string y m)) (\<lambda>v. Inr (s\<lparr>ph_maps := ph_maps s @ [v]\<rparr>)))),
      set_if as_double y n ''promote_on_success_rate'' (\<lambda>v s. s\<lparr>promote_on_success_rate := Some v\<rparr>),
      when_has y n ''success_rate_window'' (set_or as_size y n ''success_rate_window'' 0 (\<lambda>v s. s\<lparr>success_rate_window := v\<rparr>)),
      (\<lambda>s. and_then (has y n ''maps'')
         (\<lambda>b. if b then set_need as_strings y n ''maps'' (\<lambda>v s. s\<lparr>ph_maps := v\<rparr>) s
              else and_then (require (\<not> on) (''Curriculum phase '' @ quoted (ph_name s) @ '' is missing 'maps' list'') sim_context)
                     (\<lambda>u. Inr s))),
      (\<lambda>s. and_then (require (\<not> (on \<and> ph_maps s = []))
              (''Curriculum phase '' @ quoted (ph_name s) @ '' has an empty 'maps' list'') sim_context) (\<lambda>u. Inr s)),
      in_map y n ''spawn'' (\<lambda>c s. and_then (parse_overrides y c (ph_spawn s)) (\<lambda>v. Inr (s\<lparr>ph_spawn := v\<rparr>)))] default_phase"

definition add_phase :: "'y yaml \<Rightarrow> nat \<Rightarrow> 'y \<Rightarrow> sim_config read" where
  "add_phase y i n s =
     and_then (thrown (y_is_map y n))
       (\<lambda>m. if m then and_then (parse_phase y (curriculum_enabled s) i n) (\<lambda>ph. Inr (s\<lparr>curriculum_phases := curriculum_phases s @ [ph]\<rparr>))
            else Inr s)"

definition parse_phases :: "'y yaml \<Rightarrow> 'y \<Rightarrow> sim_config read" where
  "parse_phases y c s =
     and_then (if curriculum_enabled s then thrown (y_size y c) else Inr 1)
       (\<lambda>k. and_then (require (\<not> (curriculum_enabled s \<and> k = 0)) ''Curriculum enabled but no phases provided'' sim_context)
          (\<lambda>u. for_index y c (add_phase y) s))"

text \<open>The test of the section rejects it only when it is neither defined nor a mapping.\<close>

definition curriculum_missing :: "'y yaml \<Rightarrow> 'y \<Rightarrow> parse_failure + bool" where
  "curriculum_missing y c = (if y_defined y c then Inr False else and_then (thrown (y_is_map y c)) (\<lambda>m. Inr (\<not> m)))"

definition phases_listed :: "'y yaml \<Rightarrow> 'y \<Rightarrow> parse_failure + bool" where
  "phases_listed y c = and_then (has y c ''phases'') (\<lambda>b. if b then and_then (key y c ''phases'') (\<lambda>p. thrown (y_is_sequence y p)) else Inr False)"

definition parse_curriculum :: "'y yaml \<Rightarrow> 'y \<Rightarrow> sim_config read" where
  "parse_curriculum y sp s0 =
     and_then (key y sp ''curriculum'') (\<lambda>c.
     and_then (curriculum_missing y c) (\<lambda>missing.
     and_then (require (\<not> missing) ''Missing or invalid 'curriculum' section in spawn manager config''
                 (make_context ''ConfigParser::parse_simulator_config'' [])) (\<lambda>u.
     and_then (set_or as_bool y c ''enabled'' False (\<lambda>v s. s\<lparr>curriculum_enabled := v\<rparr>) s0) (\<lambda>s.
     and_then (if curriculum_enabled s then phases_listed y c else Inr True) (\<lambda>listed.
     and_then (require listed ''Curriculum enabled but 'phases' is missing or not a list'' sim_context) (\<lambda>u.
     in_sequence y c ''phases'' (parse_phases y) s))))))"

definition parse_simulator_config :: "'y yaml \<Rightarrow> string \<Rightarrow> (error + sim_config) option" where
  "parse_simulator_config y path = caught sim_context
     (and_then (thrown (y_load_file y path)) (\<lambda>n.
      and_then (parse_timing y n default_sim_config) (\<lambda>s.
      and_then (key y n ''spawn_manager'') (\<lambda>sp.
      and_then (defined_and y (y_is_map y) sp) (\<lambda>ok.
      and_then (require ok ''Missing or invalid 'spawn_manager' section in simulator config''
                  (make_context ''ConfigParser::parse_simulator_config'' [])) (\<lambda>u.
      and_then (parse_spawn y sp (sc_spawn s)) (\<lambda>spawn.
      parse_curriculum y sp (s\<lparr>sc_spawn := spawn\<rparr>))))))))"

section \<open>What a parsed configuration satisfies\<close>

lemma in_sequence_keeps [keeps_intros]:
  "(\<And>c. preserves P (body c)) \<Longrightarrow> preserves P (in_sequence y n k body)"
  by (rule keepsI) (auto simp: in_sequence_def and_then_eq_Inr split: if_splits dest: keepsD)

lemma returns_in_sequence [returns_intros]:
  "(\<And>c s. returns (body c s)) \<Longrightarrow> returns (in_sequence y n k body s)"
  by (auto simp: in_sequence_def intro!: returns_intros)

lemma parse_phase_maps: "parse_phase y on i n = Inr ph \<Longrightarrow> on \<Longrightarrow> ph_maps ph \<noteq> []"
  by (auto simp: parse_phase_def and_then_eq_Inr in_map_def split: if_splits)

text \<open>Every phase of an enabled curriculum has maps.\<close>

definition phases_ok :: "sim_config \<Rightarrow> bool" where
  "phases_ok s \<longleftrightarrow> (curriculum_enabled s \<longrightarrow> (\<forall>ph\<in>set (curriculum_phases s). ph_maps ph \<noteq> []))"

lemma add_phase_keeps: "preserves phases_ok (add_phase y i n)"
  by (rule keepsI) (auto simp: add_phase_def and_then_eq_Inr phases_ok_def dest: parse_phase_maps split: if_splits)

lemma parse_phases_keeps: "preserves phases_ok (parse_phases y c)"
  by (rule keepsI) (auto simp: parse_phases_def and_then_eq_Inr dest: keepsD[OF for_keeps(1)[OF add_phase_keeps]])

lemma parse_curriculum_ok:
  assumes "parse_curriculum y sp s0 = Inr s" "curriculum_phases s0 = []"
  shows "phases_ok s"
proof -
  obtain c s1 where r: "set_or as_bool y c ''enabled'' False (\<lambda>v s. s\<lparr>curriculum_enabled := v\<rparr>) s0 = Inr s1"
    "in_sequence y c ''phases'' (parse_phases y) s1 = Inr s"
    using assms(1) unfolding parse_curriculum_def and_then_eq_Inr by blast
  have "phases_ok s1" using r(1) assms(2) by (auto simp: set_or_def and_then_eq_Inr phases_ok_def)
  moreover have "preserves phases_ok (in_sequence y c ''phases'' (parse_phases y))" by (rule in_sequence_keeps) (rule parse_phases_keeps)
  ultimately show ?thesis using r(2) by (simp only: preserves_def)
qed

lemma timing_keeps: "preserves (\<lambda>s. curriculum_phases s = []) (parse_timing y n)"
  unfolding parse_timing_def by (rule reads_keep) (auto intro!: keeps_intros)

lemma parsed_phases_ok:
  assumes "parse_simulator_config y path = Some (Inr s)"
  shows "phases_ok s"
proof -
  obtain n s1 sp spawn where t: "parse_timing y n default_sim_config = Inr s1" "parse_curriculum y sp (s1\<lparr>sc_spawn := spawn\<rparr>) = Inr s"
    using assms by (auto simp: parse_simulator_config_def and_then_eq_Inr)
  have "curriculum_phases s1 = []" using keepsD[OF timing_keeps _ t(1)] by (simp add: default_sim_config_def)
  with parse_curriculum_ok[OF t(2)] show ?thesis by simp
qed

end
