(* ===== verification/ConfigProfile.thy ===== *)
theory ConfigProfile
  imports ConfigSim
begin

text \<open>
  The parsers of the profiles of models, dynamic objects and robots, \<^verbatim>\<open>parse_model_profile\<close>,
  \<^verbatim>\<open>parse_dynamic_profile\<close> and \<^verbatim>\<open>parse_robot_profile\<close> of \<^verbatim>\<open>config/src/parsing.cpp\<close>. What
  the code leaves uninitialised when a section is missing starts with the values of the environment.
\<close>

record 'y parse_env =
  pe_yaml :: "'y yaml"
  pe_fs :: file_system
  stale_caps :: motion_caps
  stale_kin :: ackermann_caps
  stale_dyn :: dynamic_profile

section \<open>Models\<close>

definition part_context :: string where "part_context = ''parse_model_part''"

definition part_error :: "string \<Rightarrow> string \<Rightarrow> string" where
  "part_error name m = ''Model part '' @ quoted name @ m"

text \<open>Of the material only the failures matter here.\<close>

definition parse_material :: "'y yaml \<Rightarrow> 'y \<Rightarrow> unit read" where
  "parse_material y n = in_child y n ''material'' (\<lambda>c. reads
     [skip y c ''name'',
      (\<lambda>s. and_then (key y c ''rgba'') (\<lambda>g.
           and_then (defined_and y (y_is_sequence y) g) (\<lambda>is_seq.
           and_then (if is_seq then thrown (y_size y g) else Inr 0) (\<lambda>m.
           if is_seq \<and> m = 4 then reads (map (\<lambda>i s. and_then (need_at as_double y g i) (\<lambda>v. Inr s)) [0..<4]) s else Inr s))))])"

definition parse_shape :: "'y yaml \<Rightarrow> string \<Rightarrow> 'y \<Rightarrow> string \<Rightarrow> parse_failure + shape2" where
  "parse_shape y name g t =
     (if t = ''circle'' then
        and_then (has y g ''radius'') (\<lambda>b.
        and_then (require b (part_error name ('' circle missing '' @ quoted ''radius'')) part_context) (\<lambda>u.
        and_then (need as_double y g ''radius'') (\<lambda>r. Inr (Circle r))))
      else if t = ''box'' then
        and_then (has y g ''hx'') (\<lambda>bx. and_then (if bx then has y g ''hy'' else Inr False) (\<lambda>b.
        and_then (require b (part_error name ('' box requires 'hx' and '' @ quoted ''hy'')) part_context) (\<lambda>u.
        and_then (need as_double y g ''hx'') (\<lambda>hx. and_then (need as_double y g ''hy'') (\<lambda>hy. Inr (Box2 hx hy))))))
      else if t = ''polygon'' then
        and_then (key y g ''vertices'') (\<lambda>v.
        and_then (defined_and y (y_is_sequence y) v) (\<lambda>b.
        and_then (require b (part_error name '' polygon geom missing 'vertices' list'') part_context) (\<lambda>u.
        and_then (thrown (y_size y v)) (\<lambda>m.
        and_then (require (3 \<le> m) (part_error name '' polygon requires at least 3 vertices'') part_context) (\<lambda>u.
        and_then (parse_polygon2 y v) (\<lambda>vs. Inr (Polygon2 vs)))))))
      else reject (''Unsupported geom type '' @ quoted t @ '' in part '' @ quoted name) part_context)"

definition parse_model_part :: "'y yaml \<Rightarrow> 'y \<Rightarrow> parse_failure + model_part" where
  "parse_model_part y n =
     and_then (pick as_string y n ''name'' ''unnamed_part'') (\<lambda>name.
     and_then (key y n ''geom'') (\<lambda>g.
     and_then (defined_and y (y_is_map y) g) (\<lambda>ok.
     and_then (require ok (part_error name '' missing 'geom' section'') part_context) (\<lambda>u.
     and_then (has y g ''type'') (\<lambda>typed.
     and_then (require typed (part_error name ('' missing '' @ quoted ''geom.type'')) part_context) (\<lambda>u.
     and_then (pick as_double y g ''z_min'' 0) (\<lambda>lo.
     and_then (pick as_double y g ''z_max'' 0) (\<lambda>hi.
     and_then (need as_string y g ''type'') (\<lambda>t.
     and_then (parse_shape y name g t) (\<lambda>shape.
     and_then (in_child y n ''rel_pose'' (\<lambda>c p. parse_pose2 y c) origin_pose) (\<lambda>p.
     and_then (parse_material y n ()) (\<lambda>u.
     Inr \<lparr>part_geom = \<lparr>base = shape, z_min = lo, z_max = hi\<rparr>, rel_pose = p\<rparr>))))))))))))"

definition parse_model_profile :: "'y yaml \<Rightarrow> string \<Rightarrow> (error + model_profile) option" where
  "parse_model_profile y path = caught ''parse_model_profile''
     (and_then (thrown (y_load_file y path)) (\<lambda>n.
      and_then (has y n ''name'') (\<lambda>named.
      and_then (require named ''Model profile missing 'name' field'' ''parse_model_profile'') (\<lambda>u.
      and_then (has y n ''parts'') (\<lambda>b.
      and_then (require b ''Model profile missing 'parts' field'' ''parse_model_profile'') (\<lambda>u.
      and_then (need as_string y n ''name'') (\<lambda>name.
      and_then (skip y n ''category'' ()) (\<lambda>u.
      and_then (key y n ''parts'') (\<lambda>c.
      and_then (for_items y c (\<lambda>p ps. and_then (parse_model_part y p) (\<lambda>part. Inr (ps @ [part]))) []) (\<lambda>ps.
      Inr \<lparr>profile_name = name, parts = ps\<rparr>))))))))))"

section \<open>Dynamic objects\<close>

definition parse_caps :: "'y yaml \<Rightarrow> 'y \<Rightarrow> motion_caps read" where
  "parse_caps y n = reads
     [set_or as_double y n ''max_speed'' 10 (\<lambda>v s. s\<lparr>max_speed := v\<rparr>),
      set_or as_double y n ''max_accel'' 3 (\<lambda>v s. s\<lparr>max_accel := v\<rparr>),
      set_or as_double y n ''max_decel'' 5 (\<lambda>v s. s\<lparr>max_decel := v\<rparr>),
      set_or as_double y n ''cmd_rate_hz'' 50 (\<lambda>v s. s\<lparr>cmd_rate_hz := v\<rparr>),
      set_or as_double y n ''cmd_delay_s'' 0 (\<lambda>v s. s\<lparr>cmd_delay_s := v\<rparr>),
      set_or as_double y n ''accel_noise_std'' 0 (\<lambda>v s. s\<lparr>accel_noise_std := v\<rparr>),
      set_or as_double y n ''steer_noise_std'' 0 (\<lambda>v s. s\<lparr>steer_noise_std := v\<rparr>)]"

definition skip_pid :: "'y yaml \<Rightarrow> 'y \<Rightarrow> string \<Rightarrow> 's read" where
  "skip_pid y n k = in_child y n k (\<lambda>c. reads
     [skip y c ''kp'', skip y c ''ki'', skip y c ''kd'', skip y c ''integral_windup_limit'', skip y c ''d_filter_hz''])"

definition parse_linear :: "'y parse_env \<Rightarrow> 'y \<Rightarrow> parse_failure + follow_cfg" where
  "parse_linear env n = (let y = pe_yaml env in
     and_then (in_child y n ''caps'' (parse_caps y) (stale_caps env)) (\<lambda>caps.
     and_then (pick as_double y n ''speed_min'' 1) (\<lambda>lo.
     and_then (pick as_double y n ''speed_max'' 2) (\<lambda>hi.
     and_then (skip y n ''brake_to_stop'' ()) (\<lambda>u.
     Inr (LinearConst \<lparr>lin_caps = caps, lin_speed_min = lo, lin_speed_max = hi\<rparr>))))))"

definition parse_linear_pid :: "'y parse_env \<Rightarrow> 'y \<Rightarrow> parse_failure + follow_cfg" where
  "parse_linear_pid env n = (let y = pe_yaml env in
     and_then (in_child y n ''caps'' (parse_caps y) (stale_caps env)) (\<lambda>caps.
     and_then (skip_pid y n ''speed_pid'' ()) (\<lambda>u.
     and_then (skip_pid y n ''lateral_pid'' ()) (\<lambda>u.
     and_then (pick as_double y n ''cruise_speed_min'' 5) (\<lambda>lo.
     and_then (pick as_double y n ''cruise_speed_max'' 10) (\<lambda>hi.
     and_then (skip y n ''max_lateral_error'' ()) (\<lambda>u.
     Inr (LinearPID \<lparr>lin_caps = caps, lin_speed_min = lo, lin_speed_max = hi\<rparr>))))))))"

text \<open>The limits of a vehicle, as the profile of a robot has them; that of an object reads the last two in the other order.\<close>

definition parse_kinematics :: "'y yaml \<Rightarrow> 'y \<Rightarrow> ackermann_caps read" where
  "parse_kinematics y n = reads
     [in_child y n ''caps_fwd'' (\<lambda>c s. and_then (parse_caps y c (caps_fwd s)) (\<lambda>v. Inr (s\<lparr>caps_fwd := v\<rparr>))),
      in_child y n ''caps_rev'' (\<lambda>c s. and_then (parse_caps y c (caps_rev s)) (\<lambda>v. Inr (s\<lparr>caps_rev := v\<rparr>))),
      set_or as_double y n ''wheel_base'' (5 / 2) (\<lambda>v s. s\<lparr>wheel_base := v\<rparr>),
      set_or as_double y n ''max_steer_angle'' (7 / 10) (\<lambda>v s. s\<lparr>max_steer_angle := v\<rparr>),
      set_or as_double y n ''max_steer_rate'' 1 (\<lambda>v s. s\<lparr>max_steer_rate := v\<rparr>),
      set_or as_double y n ''min_turn_radius'' 5 (\<lambda>v s. s\<lparr>min_turn_radius := v\<rparr>),
      set_or as_double y n ''gear_hold_time_s'' 0 (\<lambda>v s. s\<lparr>gear_hold_time_s := v\<rparr>)]"

definition parse_follow_kinematics :: "'y yaml \<Rightarrow> 'y \<Rightarrow> ackermann_caps read" where
  "parse_follow_kinematics y n = reads
     [in_child y n ''caps_fwd'' (\<lambda>c s. and_then (parse_caps y c (caps_fwd s)) (\<lambda>v. Inr (s\<lparr>caps_fwd := v\<rparr>))),
      in_child y n ''caps_rev'' (\<lambda>c s. and_then (parse_caps y c (caps_rev s)) (\<lambda>v. Inr (s\<lparr>caps_rev := v\<rparr>))),
      set_or as_double y n ''wheel_base'' (5 / 2) (\<lambda>v s. s\<lparr>wheel_base := v\<rparr>),
      set_or as_double y n ''max_steer_angle'' (7 / 10) (\<lambda>v s. s\<lparr>max_steer_angle := v\<rparr>),
      set_or as_double y n ''max_steer_rate'' 1 (\<lambda>v s. s\<lparr>max_steer_rate := v\<rparr>),
      set_or as_double y n ''gear_hold_time_s'' 0 (\<lambda>v s. s\<lparr>gear_hold_time_s := v\<rparr>),
      set_or as_double y n ''min_turn_radius'' 5 (\<lambda>v s. s\<lparr>min_turn_radius := v\<rparr>)]"

definition fresh_kinematics :: "'y parse_env \<Rightarrow> ackermann_caps" where
  "fresh_kinematics env = (stale_kin env)\<lparr>gear_hold_time_s := 0\<rparr>"

definition skip_pursuit :: "'y yaml \<Rightarrow> 'y \<Rightarrow> 's read" where
  "skip_pursuit y n = in_child y n ''pp'' (\<lambda>c. reads
     [skip y c ''lookahead_m'', skip y c ''min_lookahead_m'', skip y c ''max_lookahead_m'', skip y c ''speed_coupled_to_curvature'', skip y c ''kv''])"

definition parse_ackermann_follow :: "'y parse_env \<Rightarrow> 'y \<Rightarrow> parse_failure + follow_cfg" where
  "parse_ackermann_follow env n = (let y = pe_yaml env in
     and_then (in_child y n ''kin'' (parse_follow_kinematics y) (fresh_kinematics env)) (\<lambda>caps.
     and_then (skip_pursuit y n ()) (\<lambda>u.
     and_then (skip_pid y n ''speed_pid'' ()) (\<lambda>u.
     and_then (pick as_double y n ''cruise_speed_min'' 8) (\<lambda>lo.
     and_then (pick as_double y n ''cruise_speed_max'' 12) (\<lambda>hi.
     and_then (skip y n ''cornering_speed_min'' ()) (\<lambda>u.
     and_then (skip y n ''arrival_stop_decel_bias'' ()) (\<lambda>u.
     Inr (AckermannFollow \<lparr>acker_caps = caps, cruise_speed_min = lo, cruise_speed_max = hi\<rparr>)))))))))"

definition parse_follow :: "'y parse_env \<Rightarrow> 'y \<Rightarrow> dynamic_profile read" where
  "parse_follow env n s =
     and_then (need as_string (pe_yaml env) n ''type'') (\<lambda>t.
     and_then (if t = ''linear_const_vel'' then parse_linear env n
               else if t = ''linear_pid'' then parse_linear_pid env n
               else if t = ''ackermann_follow'' then parse_ackermann_follow env n
               else reject (''Unknown dynamic profile cfg type: '' @ t) ''parse_dynamic_profile'') (\<lambda>f.
     Inr (s\<lparr>follow := f\<rparr>)))"

definition add_waypoint :: "'y yaml \<Rightarrow> 'y \<Rightarrow> dynamic_profile read" where
  "add_waypoint y n s =
     and_then (skip y n ''wait_s'' ()) (\<lambda>u.
     and_then (in_child y n ''p_local'' (\<lambda>c p. parse_pose2 y c) origin_pose) (\<lambda>p.
     Inr (s\<lparr>local_points := local_points s @ [p]\<rparr>)))"

definition parse_waypoints :: "'y yaml \<Rightarrow> 'y \<Rightarrow> dynamic_profile read" where
  "parse_waypoints y n = reads
     [set_or as_double y n ''reached_pos_tol'' (1 / 2) (\<lambda>v s. s\<lparr>reached_pos_tol := v\<rparr>),
      skip y n ''reached_yaw_tol'',
      set_or as_bool y n ''loop'' False (\<lambda>v s. s\<lparr>wp_loop := v\<rparr>),
      in_child y n ''points'' (\<lambda>c. for_items y c (add_waypoint y))]"

text \<open>A variant starts with its first alternative, all zero; the tolerance and the loop flag are not initialised.\<close>

definition zero_caps :: motion_caps where
  "zero_caps = \<lparr>max_speed = 0, max_accel = 0, max_decel = 0, cmd_rate_hz = 0, cmd_delay_s = 0, accel_noise_std = 0, steer_noise_std = 0\<rparr>"

definition fresh_dynamic :: "'y parse_env \<Rightarrow> dynamic_profile" where
  "fresh_dynamic env = (stale_dyn env)\<lparr>dp_name := [], local_points := [],
     follow := LinearConst \<lparr>lin_caps = zero_caps, lin_speed_min = 0, lin_speed_max = 0\<rparr>\<rparr>"

definition parse_dynamic_profile :: "'y parse_env \<Rightarrow> string \<Rightarrow> (error + dynamic_profile) option" where
  "parse_dynamic_profile env path = (let y = pe_yaml env in caught ''parse_dynamic_profile''
     (and_then (thrown (y_load_file y path)) (\<lambda>n. reads
        [set_or as_string y n ''name'' ''unnamed'' (\<lambda>v s. s\<lparr>dp_name := v\<rparr>),
         in_child y n ''cfg'' (parse_follow env),
         in_child y n ''waypoints_local'' (parse_waypoints y)] (fresh_dynamic env))))"

section \<open>Robots\<close>

definition parse_mount :: "'y yaml \<Rightarrow> 'y \<Rightarrow> pose3 read" where
  "parse_mount y n = reads
     [in_child y n ''t'' (\<lambda>c s.
        and_then (pick_at as_double y c 0 0) (\<lambda>a. and_then (pick_at as_double y c 1 0) (\<lambda>b. and_then (pick_at as_double y c 2 0) (\<lambda>d.
        Inr (s\<lparr>p3_t := pt_3 a b d\<rparr>))))),
      in_child y n ''q'' (\<lambda>c s.
        and_then (pick_at as_double y c 0 1) (\<lambda>w. and_then (pick_at as_double y c 1 0) (\<lambda>a.
        and_then (pick_at as_double y c 2 0) (\<lambda>b. and_then (pick_at as_double y c 3 0) (\<lambda>d.
        Inr (s\<lparr>p3_q := quat w a b d\<rparr>))))))]"

definition parse_sensor_base :: "'y yaml \<Rightarrow> 'y \<Rightarrow> parse_failure + sensor_base" where
  "parse_sensor_base y n =
     and_then (need as_string y n ''id'') (\<lambda>i.
     and_then (pick as_float y n ''min_range'' (1 / 10)) (\<lambda>lo.
     and_then (pick as_float y n ''max_range'' 100) (\<lambda>hi.
     and_then (pick as_float y n ''noise_std'' 0) (\<lambda>noise.
     and_then (pick as_float y n ''dropout_prob'' 0) (\<lambda>drop_p.
     and_then (pick as_float y n ''update_hz'' 10) (\<lambda>hz.
     and_then (pick as_float y n ''latency_s'' 0) (\<lambda>lat.
     and_then (in_child y n ''pose_rel_base'' (parse_mount y) pose3_identity) (\<lambda>mount.
     Inr \<lparr>sb_id = i, frame_id = i @ ''_frame'', pose_rel_base = mount, min_range = lo, max_range = hi, noise_std = noise,
          dropout_prob = drop_p, update_hz = hz, latency_s = lat\<rparr>))))))))"

definition parse_lidar_3d :: "'y yaml \<Rightarrow> sensor_base \<Rightarrow> 'y \<Rightarrow> parse_failure + sensor_config" where
  "parse_lidar_3d y b n =
     and_then (pick as_double y n ''hfov'' (6283185 / 1000000)) (\<lambda>h.
     and_then (pick as_double y n ''angular_res'' (17453 / 1000000)) (\<lambda>a.
     and_then (pick as_double y n ''vfov'' (523599 / 1000000)) (\<lambda>v.
     and_then (pick as_size y n ''num_rings'' 32) (\<lambda>k.
     Inr (Lidar3D \<lparr>l3_base = b, hfov = h, l3_angular_res = a, vfov = v, num_rings = k\<rparr>)))))"

definition parse_lidar_2d :: "'y yaml \<Rightarrow> sensor_base \<Rightarrow> 'y \<Rightarrow> parse_failure + sensor_config" where
  "parse_lidar_2d y b n =
     and_then (pick as_double y n ''fov'' (314159 / 100000)) (\<lambda>f.
     and_then (pick as_double y n ''angular_res'' (17453 / 1000000)) (\<lambda>a.
     Inr (Lidar2D \<lparr>l2_base = b, fov = f, l2_angular_res = a\<rparr>)))"

definition parse_depth_camera :: "'y yaml \<Rightarrow> sensor_base \<Rightarrow> 'y \<Rightarrow> parse_failure + sensor_config" where
  "parse_depth_camera y b n =
     and_then (pick as_float y n ''fx'' 500) (\<lambda>f1.
     and_then (pick as_float y n ''fy'' 500) (\<lambda>f2.
     and_then (pick as_float y n ''cx'' 320) (\<lambda>c1.
     and_then (pick as_float y n ''cy'' 240) (\<lambda>c2.
     and_then (pick as_u16 y n ''width'' 640) (\<lambda>w.
     and_then (pick as_u16 y n ''height'' 480) (\<lambda>h.
     and_then (pick as_double y n ''near_z'' (1 / 10)) (\<lambda>z1.
     and_then (pick as_double y n ''far_z'' 50) (\<lambda>z2.
     Inr (DepthCamera \<lparr>cam_base = b, fx = f1, fy = f2, cx = c1, cy = c2, width = unat w, height = unat h, near_z = z1, far_z = z2\<rparr>)))))))))"

text \<open>A sensor of another type is left out without an error.\<close>

definition add_sensor :: "'y yaml \<Rightarrow> 'y \<Rightarrow> sensor_config list read" where
  "add_sensor y n ss =
     and_then (need as_string y n ''type'') (\<lambda>t.
     and_then (parse_sensor_base y n) (\<lambda>b.
     if t = ''lidar_3d'' then and_then (parse_lidar_3d y b n) (\<lambda>s. Inr (ss @ [s]))
     else if t = ''lidar_2d'' then and_then (parse_lidar_2d y b n) (\<lambda>s. Inr (ss @ [s]))
     else if t = ''depth_camera'' then and_then (parse_depth_camera y b n) (\<lambda>s. Inr (ss @ [s]))
     else Inr ss))"

definition parse_robot_profile :: "'y parse_env \<Rightarrow> string \<Rightarrow> (error + robot_profile) option" where
  "parse_robot_profile env path = (let y = pe_yaml env in caught ''parse_robot_profile''
     (and_then (thrown (y_load_file y path)) (\<lambda>n.
      and_then (pick as_string y n ''name'' ''unnamed'') (\<lambda>name.
      and_then (need as_string y n ''model_id'') (\<lambda>model.
      and_then (in_child y n ''kinematics'' (parse_kinematics y) (fresh_kinematics env)) (\<lambda>kin.
      and_then (in_child y n ''sensors'' (\<lambda>c. for_items y c (add_sensor y)) []) (\<lambda>ss.
      Inr \<lparr>rp_name = name, rp_model_id = model, kinematics = kin, profile_sensors = ss\<rparr>)))))))"

section \<open>What a parsed profile satisfies\<close>

text \<open>A polygon of a parsed model has as many vertices as its list has items.\<close>

definition polygon_parsed :: "model_part \<Rightarrow> bool" where
  "polygon_parsed p \<longleftrightarrow> (\<forall>vs. base (part_geom p) = Polygon2 vs \<longrightarrow> 3 \<le> length vs)"

lemma polygon_length:
  assumes "parse_polygon2 y n = Inr vs" "y_items y n = Inr cs"
  shows "length vs = length cs"
proof -
  have "reads (map (\<lambda>c ws. and_then (read_point y c) (\<lambda>p. Inr (ws @ [p]))) cs) us = Inr vs \<Longrightarrow> length vs = length us + length cs" for us
    by (induction cs arbitrary: us) (auto simp: and_then_eq_Inr)
  from this[of "[]"] show ?thesis using assms by (simp add: parse_polygon2_def for_items_def thrown_def)
qed

text \<open>The library lists as many items of a sequence as it counts.\<close>

definition counts_items :: "'y yaml \<Rightarrow> bool" where
  "counts_items y \<longleftrightarrow> (\<forall>n m cs. y_is_sequence y n = Inr True \<longrightarrow> y_size y n = Inr m \<longrightarrow> y_items y n = Inr cs \<longrightarrow> length cs = m)"

lemma parse_part_polygon:
  assumes "counts_items y" "parse_model_part y n = Inr p"
  shows "polygon_parsed p"
proof -
  obtain name g t where s: "parse_shape y name g t = Inr (base (part_geom p))"
    using assms(2) by (auto simp: parse_model_part_def and_then_eq_Inr)
  have "3 \<le> length vs" if v: "base (part_geom p) = Polygon2 vs" for vs
  proof -
    obtain c m where c: "defined_and y (y_is_sequence y) c = Inr True" "y_size y c = Inr m" "3 \<le> m" "parse_polygon2 y c = Inr vs"
      using s v by (auto simp: parse_shape_def and_then_eq_Inr split: if_splits)
    obtain cs where cs: "y_items y c = Inr cs" using c(4) by (auto simp: parse_polygon2_def for_items_def and_then_eq_Inr)
    have "y_is_sequence y c = Inr True" using c(1) by (auto simp: defined_and_def split: if_splits)
    then show ?thesis using assms(1) c cs polygon_length[OF c(4) cs] by (auto simp: counts_items_def)
  qed
  then show ?thesis by (simp add: polygon_parsed_def)
qed

lemma parse_model_polygons:
  assumes "counts_items y" "parse_model_profile y path = Some (Inr m)"
  shows "\<forall>p\<in>set (parts m). polygon_parsed p"
proof -
  obtain c where r: "for_items y c (\<lambda>p ps. and_then (parse_model_part y p) (\<lambda>part. Inr (ps @ [part]))) [] = Inr (parts m)"
    using assms(2) by (auto simp: parse_model_profile_def and_then_eq_Inr)
  have k: "preserves (\<lambda>ps. \<forall>p\<in>set ps. polygon_parsed p) (for_items y c (\<lambda>p ps. and_then (parse_model_part y p) (\<lambda>part. Inr (ps @ [part]))))"
    by (rule for_keeps, rule keepsI) (auto simp: and_then_eq_Inr dest: parse_part_polygon[OF assms(1)])
  show ?thesis using keepsD[OF k _ r] by simp
qed

text \<open>A frame of a parsed sensor ends like no frame that the world registers itself.\<close>

lemma frame_of_sensor: "i @ ''_frame'' \<notin> {''base_link'', ''world'', ''''}"
proof -
  have "last (i @ ''_frame'') \<noteq> last ''base_link''" "last (i @ ''_frame'') \<noteq> last ''world''" by simp_all
  then show ?thesis by force
qed

lemma sensor_base_frame: "parse_sensor_base y n = Inr b \<Longrightarrow> frame_id b \<notin> {''base_link'', ''world'', ''''}"
  using frame_of_sensor by (auto simp: parse_sensor_base_def and_then_eq_Inr)

lemma add_sensor_keeps: "preserves (\<lambda>ss. \<forall>s\<in>set ss. frame_id (base_config s) \<notin> {''base_link'', ''world'', ''''}) (add_sensor y n)"
proof (rule keepsI)
  fix ss ss'
  assume s: "\<forall>s\<in>set ss. frame_id (base_config s) \<notin> {''base_link'', ''world'', ''''}" "add_sensor y n ss = Inr ss'"
  obtain t b where b: "parse_sensor_base y n = Inr b"
    and r: "(if t = ''lidar_3d'' then and_then (parse_lidar_3d y b n) (\<lambda>s. Inr (ss @ [s]))
      else if t = ''lidar_2d'' then and_then (parse_lidar_2d y b n) (\<lambda>s. Inr (ss @ [s]))
      else if t = ''depth_camera'' then and_then (parse_depth_camera y b n) (\<lambda>s. Inr (ss @ [s]))
      else Inr ss) = Inr ss'"
    using s(2) unfolding add_sensor_def and_then_eq_Inr by blast
  have base: "parse_lidar_3d y b n = Inr c \<Longrightarrow> base_config c = b" "parse_lidar_2d y b n = Inr c \<Longrightarrow> base_config c = b"
    "parse_depth_camera y b n = Inr c \<Longrightarrow> base_config c = b" for c
    by (auto simp: parse_lidar_3d_def parse_lidar_2d_def parse_depth_camera_def and_then_eq_Inr)
  have "\<exists>xs. ss' = ss @ xs \<and> (\<forall>c\<in>set xs. base_config c = b)"
    using r by (auto simp: and_then_eq_Inr dest: base split: if_splits)
  with s(1) sensor_base_frame[OF b] show "\<forall>s\<in>set ss'. frame_id (base_config s) \<notin> {''base_link'', ''world'', ''''}" by auto
qed

lemma parse_robot_frames:
  assumes "parse_robot_profile env path = Some (Inr p)"
  shows "\<forall>c\<in>set (profile_sensors p). frame_id (base_config c) \<notin> {''base_link'', ''world'', ''''}"
proof -
  obtain n where r: "in_child (pe_yaml env) n ''sensors'' (\<lambda>c. for_items (pe_yaml env) c (add_sensor (pe_yaml env))) [] = Inr (profile_sensors p)"
    using assms by (auto simp: parse_robot_profile_def Let_def and_then_eq_Inr)
  have k: "preserves (\<lambda>ss. \<forall>s\<in>set ss. frame_id (base_config s) \<notin> {''base_link'', ''world'', ''''})
      (in_child (pe_yaml env) n ''sensors'' (\<lambda>c. for_items (pe_yaml env) c (add_sensor (pe_yaml env))))"
    by (intro child_keeps for_keeps add_sensor_keeps)
  show ?thesis using keepsD[OF k _ r] by simp
qed

end
