(* ===== verification/ConfigWorld.thy ===== *)
theory ConfigWorld
  imports ConfigProfile "HOL-Library.List_Lexorder" "HOL-Library.Char_ord"
begin

text \<open>
  The parsers of worlds and maps, \<^verbatim>\<open>parse_world_config\<close> and \<^verbatim>\<open>parse_map_config\<close> of
  \<^verbatim>\<open>config/src/parsing.cpp\<close>, with the expansion of file patterns and the libraries of profiles.
\<close>

section \<open>File patterns\<close>

definition regex_special :: "char set" where
  "regex_special = set ''.+()[]{}^$|'' \<union> {CHR 0x5C}"

text \<open>The text of a regular expression for a pattern.\<close>

definition regex_of_char :: "char \<Rightarrow> string" where
  "regex_of_char c =
     (if c = CHR ''*'' then ''.*'' else if c = CHR ''?'' then ''.'' else if c \<in> regex_special then [CHR 0x5C, c] else [c])"

definition glob_to_regex :: "string \<Rightarrow> string" where
  "glob_to_regex g = ''^'' @ concat (map regex_of_char g) @ ''$''"

text \<open>What \<^verbatim>\<open>std::regex\<close> makes of such a text: an escaped or plain character, any character, or any number of them.\<close>

datatype regex_item = Exactly char | AnyOne | AnyRun

fun compile_items :: "string \<Rightarrow> regex_item list" where
  "compile_items [] = []"
| "compile_items [c] = (if c = CHR ''.'' then [AnyOne] else [Exactly c])"
| "compile_items (c # d # s) =
     (if c = CHR 0x5C then Exactly d # compile_items s
      else if c = CHR ''.'' \<and> d = CHR ''*'' then AnyRun # compile_items s
      else (if c = CHR ''.'' then AnyOne else Exactly c) # compile_items (d # s))"

definition compile_regex :: "string \<Rightarrow> regex_item list" where
  "compile_regex r = compile_items (butlast (tl r))"

definition lower_char :: "char \<Rightarrow> char" where
  "lower_char c = (let n = of_char c :: nat in if 65 \<le> n \<and> n \<le> 90 then char_of (n + 32) else c)"

definition line_end :: "char \<Rightarrow> bool" where
  "line_end c \<longleftrightarrow> c = CHR 0x0A \<or> c = CHR 0x0D"

text \<open>A match of the whole text, without regard to case; a dot does not match the end of a line.\<close>

fun regex_match :: "regex_item list \<Rightarrow> string \<Rightarrow> bool" where
  "regex_match [] s = (s = [])"
| "regex_match (AnyRun # r) s = (regex_match r s \<or> (case s of [] \<Rightarrow> False | c # t \<Rightarrow> \<not> line_end c \<and> regex_match (AnyRun # r) t))"
| "regex_match (AnyOne # r) s = (case s of [] \<Rightarrow> False | c # t \<Rightarrow> \<not> line_end c \<and> regex_match r t)"
| "regex_match (Exactly d # r) s = (case s of [] \<Rightarrow> False | c # t \<Rightarrow> lower_char d = lower_char c \<and> regex_match r t)"

definition expand_glob_pattern :: "file_system \<Rightarrow> string \<Rightarrow> string list" where
  "expand_glob_pattern fs pattern =
     (if CHR ''*'' \<notin> set pattern \<and> CHR ''?'' \<notin> set pattern then [pattern]
      else let parent = fs_parent fs pattern;
               dir = (if parent = [] then ''.'' else parent);
               regex = compile_regex (glob_to_regex (fs_filename fs pattern))
           in if \<not> fs_is_directory fs dir then []
              else let (files, failed) = fs_files fs dir;
                       found = map (fs_join fs dir) (filter (regex_match regex) files)
                   in if failed then found else sort found)"

section \<open>Libraries of profiles\<close>

type_synonym 'p library = "(string \<Rightarrow> 'p option) \<times> name_table"

text \<open>How a kind of profile is loaded, and its name read and replaced; the fallback and the name of the library.\<close>

record 'p library_kind =
  lk_load :: "string \<Rightarrow> (error + 'p) option"
  lk_name :: "'p \<Rightarrow> string"
  lk_rename :: "string \<Rightarrow> 'p \<Rightarrow> 'p"
  lk_fallback :: string
  lk_library :: string

definition library_context :: string where "library_context = ''parse_profile_library''"

definition load_profile :: "'p library_kind \<Rightarrow> string \<Rightarrow> 'p library read" where
  "load_profile kind path lib = (let (dest, gen) = lib in
     case lk_load kind path of
       None \<Rightarrow> Inl Endless
     | Some (Inl e) \<Rightarrow> Inl (Rejected e)
     | Some (Inr p) \<Rightarrow>
         and_then (require (lk_name kind p \<noteq> []) (quoted (lk_library kind) @ '' profile missing name'') library_context) (\<lambda>u.
         and_then (generate_name (lk_fallback kind) (lk_name kind p) gen) (\<lambda>(name, gen').
         and_then (require (dest name = None)
             (quoted (lk_library kind) @ '' duplicate profile name '' @ quoted name @ '' even after automatic renaming'') library_context) (\<lambda>u.
         Inr (dest(name \<mapsto> lk_rename kind name p), gen')))))"

definition resolve_path :: "file_system \<Rightarrow> string \<Rightarrow> string \<Rightarrow> parse_failure + string" where
  "resolve_path fs folder p =
     (if CHR ''*'' \<in> set p
      then and_then (thrown (fs_canonical fs (fs_join fs folder (fs_parent fs p)))) (\<lambda>d. Inr (fs_join fs d (fs_filename fs p)))
      else thrown (fs_canonical fs (fs_join fs folder p)))"

definition load_entry :: "'y parse_env \<Rightarrow> 'p library_kind \<Rightarrow> string \<Rightarrow> nat \<Rightarrow> 'y \<Rightarrow> 'p library read" where
  "load_entry env kind folder i n lib = (let y = pe_yaml env in
     and_then (thrown (y_is_scalar y n)) (\<lambda>scalar.
     and_then (require scalar (quoted (lk_library kind) @ ''['' @ digits i @ ''] must be a scalar path with '' @ quoted ''file'' @ ''/'' @ quoted ''path'') library_context) (\<lambda>u.
     and_then (thrown (as_string y n)) (\<lambda>p.
     and_then (resolve_path (pe_fs env) folder p) (\<lambda>path.
     reads (map (load_profile kind) (expand_glob_pattern (pe_fs env) path)) lib)))))"

definition parse_profile_library :: "'y parse_env \<Rightarrow> 'p library_kind \<Rightarrow> string \<Rightarrow> 'y \<Rightarrow> 'p library read" where
  "parse_profile_library env kind folder n lib = (let y = pe_yaml env in
     if \<not> y_defined y n then Inr lib
     else and_then (thrown (y_is_sequence y n)) (\<lambda>is_seq.
          and_then (require is_seq (quoted (lk_library kind) @ '' must be a sequence'') library_context) (\<lambda>u.
          for_index y n (load_entry env kind folder) lib)))"

definition model_library :: "'y parse_env \<Rightarrow> model_profile library_kind" where
  "model_library env = \<lparr>lk_load = parse_model_profile (pe_yaml env), lk_name = profile_name, lk_rename = (\<lambda>n p. p\<lparr>profile_name := n\<rparr>),
     lk_fallback = ''model'', lk_library = ''model_profiles''\<rparr>"

definition dynamic_library :: "'y parse_env \<Rightarrow> dynamic_profile library_kind" where
  "dynamic_library env = \<lparr>lk_load = parse_dynamic_profile env, lk_name = dp_name, lk_rename = (\<lambda>n p. p\<lparr>dp_name := n\<rparr>),
     lk_fallback = ''dynamic_profile'', lk_library = ''dynamic_profiles''\<rparr>"

definition robot_library :: "'y parse_env \<Rightarrow> robot_profile library_kind" where
  "robot_library env = \<lparr>lk_load = parse_robot_profile env, lk_name = rp_name, lk_rename = (\<lambda>n p. p\<lparr>rp_name := n\<rparr>),
     lk_fallback = ''robot_profile'', lk_library = ''robot_profiles''\<rparr>"

section \<open>Worlds\<close>

definition add_category :: "'y yaml \<Rightarrow> nat \<Rightarrow> 'y \<Rightarrow> (collision_filter list \<times> name_table) read" where
  "add_category y i n st = (let (cats, gen) = st; ctx = ''parse_collision_categories'' in
     and_then (has y n ''category'') (\<lambda>b.
     and_then (require b (''collision_categories['' @ digits i @ ''] missing '' @ quoted ''category'') ctx) (\<lambda>u.
     and_then (need as_string y n ''category'') (\<lambda>d.
     and_then (generate_name ''category'' d gen) (\<lambda>(name, gen').
     and_then (key y n ''collides_with'') (\<lambda>c.
     and_then (if y_defined y c then
         and_then (thrown (y_is_sequence y c)) (\<lambda>is_seq.
         and_then (require is_seq (''collision_categories['' @ digits i @ ''].collides_with must be a sequence'') ctx) (\<lambda>u.
         for_items y c (\<lambda>x ns. and_then (thrown (as_string y x)) (\<lambda>v. Inr (ns @ [v]))) []))
       else Inr []) (\<lambda>with_names.
     Inr (cats @ [\<lparr>category = name, collides_with = with_names\<rparr>], gen'))))))))"

definition parse_collision_categories :: "'y yaml \<Rightarrow> 'y \<Rightarrow> parse_failure + collision_filter list" where
  "parse_collision_categories y n =
     (if \<not> y_defined y n then Inr []
      else and_then (thrown (y_is_sequence y n)) (\<lambda>is_seq.
           and_then (require is_seq (quoted ''collision_categories'' @ '' must be a sequence'') ''parse_collision_categories'') (\<lambda>u.
           and_then (for_index y n (add_category y) ([], empty_names)) (\<lambda>(cats, gen). Inr cats))))"

definition parse_robot_config :: "'y yaml \<Rightarrow> 'y \<Rightarrow> parse_failure + robot_cfg" where
  "parse_robot_config y n = (let ctx = ''parse_robot_config'' in
     and_then (require (y_defined y n) ''World config missing 'robot' section'' ctx) (\<lambda>u.
     and_then (thrown (y_is_map y n)) (\<lambda>m.
     and_then (require m (quoted ''robot'' @ '' must be a mapping'') ctx) (\<lambda>u.
     and_then (has y n ''robot_profile_id'') (\<lambda>b.
     and_then (require b (quoted ''robot.robot_profile_id'' @ '' is required'') ctx) (\<lambda>u.
     and_then (pick as_string y n ''name'' ''robot'') (\<lambda>d.
     and_then (generate_name ''robot'' d empty_names) (\<lambda>(name, gen).
     and_then (need as_string y n ''robot_profile_id'') (\<lambda>p.
     and_then (pick as_double y n ''action_delay_s'' 0) (\<lambda>delay.
     Inr \<lparr>robot_name = name, robot_profile_id = p, action_delay_s = delay\<rparr>))))))))))"

text \<open>The name of an instance, or the identifier that stands for it.\<close>

definition instance_name :: "'y yaml \<Rightarrow> 'y \<Rightarrow> string \<Rightarrow> string \<Rightarrow> parse_failure + string" where
  "instance_name y n m ctx =
     and_then (has y n ''name'') (\<lambda>b. if b then need as_string y n ''name''
     else and_then (has y n ''id'') (\<lambda>b. if b then need as_string y n ''id'' else reject m ctx))"

definition require_key :: "'y yaml \<Rightarrow> 'y \<Rightarrow> string \<Rightarrow> string \<Rightarrow> string \<Rightarrow> parse_failure + unit" where
  "require_key y n k m ctx = and_then (has y n k) (\<lambda>b. require b (m @ '' missing '' @ quoted k) ctx)"

definition add_dynamic :: "'y yaml \<Rightarrow> nat \<Rightarrow> 'y \<Rightarrow> (dynamic_instance_cfg list \<times> name_table) read" where
  "add_dynamic y i n st = (let (ds, gen) = st; ctx = ''parse_world_section'' in
     and_then (instance_name y n (''dynamic_instances['' @ digits i @ ''] missing '' @ quoted ''name'') ctx) (\<lambda>d.
     and_then (generate_name ''object'' d gen) (\<lambda>(name, gen').
     and_then (require_key y n ''model_id'' (''dynamic instance '' @ quoted name) ctx) (\<lambda>u.
     and_then (require_key y n ''dynamic_profile_id'' (''dynamic instance '' @ quoted name) ctx) (\<lambda>u.
     and_then (require_key y n ''pose_world'' (''dynamic instance '' @ quoted name) ctx) (\<lambda>u.
     and_then (need as_string y n ''model_id'') (\<lambda>model.
     and_then (need as_string y n ''dynamic_profile_id'') (\<lambda>prof.
     and_then (key y n ''pose_world'') (\<lambda>c.
     and_then (parse_pose2 y c) (\<lambda>p.
     Inr (ds @ [\<lparr>di_name = name, di_model_id = model, di_profile_id = prof, di_pose = p\<rparr>], gen')))))))))))"

definition add_random :: "'y yaml \<Rightarrow> nat \<Rightarrow> 'y \<Rightarrow> (random_instances_cfg list \<times> name_table) read" where
  "add_random y i n st = (let (gs, gen) = st; ctx = ''parse_world_section''; m = ''random_dynamic_instances['' @ digits i @ '']'' in
     and_then (require_key y n ''name'' m ctx) (\<lambda>u.
     and_then (need as_string y n ''name'') (\<lambda>d.
     and_then (generate_name ''group'' d gen) (\<lambda>(name, gen').
     and_then (require_key y n ''model_id'' m ctx) (\<lambda>u.
     and_then (require_key y n ''dynamic_profile_id'' m ctx) (\<lambda>u.
     and_then (need as_string y n ''model_id'') (\<lambda>model.
     and_then (need as_string y n ''dynamic_profile_id'') (\<lambda>prof.
     and_then (pick as_size y n ''count'' 0) (\<lambda>k.
     Inr (gs @ [\<lparr>ri_name = name, ri_model_id = model, ri_profile_id = prof, ri_count = k\<rparr>], gen'))))))))))"

text \<open>An optional sequence of a world: absent, or every entry read.\<close>

definition optional_sequence :: "'y yaml \<Rightarrow> 'y \<Rightarrow> string \<Rightarrow> string \<Rightarrow> string \<Rightarrow> (nat \<Rightarrow> 'y \<Rightarrow> 's read) \<Rightarrow> 's read" where
  "optional_sequence y n k m ctx body = in_child y n k (\<lambda>c s.
     and_then (thrown (y_is_sequence y c)) (\<lambda>is_seq. and_then (require is_seq m ctx) (\<lambda>u. for_index y c body s)))"

definition parse_world_section :: "'y yaml \<Rightarrow> 'y \<Rightarrow> parse_failure + world_kind" where
  "parse_world_section y n = (let ctx = ''parse_world_section'' in
     and_then (require (y_defined y n) ''World config missing 'world' section'' ctx) (\<lambda>u.
     and_then (thrown (y_is_map y n)) (\<lambda>m.
     and_then (require m (quoted ''world'' @ '' must be a mapping'') ctx) (\<lambda>u.
     and_then (has y n ''type'') (\<lambda>b.
     and_then (require b (quoted ''world.type'' @ '' is required'') ctx) (\<lambda>u.
     and_then (need as_string y n ''type'') (\<lambda>t.
     if t = ''deterministic'' then
       and_then (in_child y n ''robot_pose_world'' (\<lambda>c p. parse_pose2 y c) origin_pose) (\<lambda>p.
       and_then (optional_sequence y n ''dynamic_instances'' ''world.dynamic_instances must be a sequence'' ctx (add_dynamic y) ([], empty_names)) (\<lambda>(ds, gen).
       Inr (DeterministicWorld ds)))
     else if t = ''random'' then
       and_then (optional_sequence y n ''random_dynamic_instances'' ''world.random_dynamic_instances must be a sequence'' ctx (add_random y) ([], empty_names)) (\<lambda>(gs, gen).
       Inr (RandomWorld gs))
     else reject (''Unknown world type '' @ quoted t) ctx)))))))"

definition parse_world_config :: "'y parse_env \<Rightarrow> string \<Rightarrow> (error + world_config) option" where
  "parse_world_config env path = (let y = pe_yaml env; fs = pe_fs env in caught ''parse_world_config''
     (and_then (thrown (y_load_file y path)) (\<lambda>n.
      and_then (skip y n ''version'' ()) (\<lambda>u.
      and_then (key y n ''collision_categories'') (\<lambda>c.
      and_then (parse_collision_categories y c) (\<lambda>cats.
      and_then (thrown (fs_canonical fs (fs_absolute fs path))) (\<lambda>file.
      and_then (key y n ''model_profiles'') (\<lambda>c.
      and_then (parse_profile_library env (model_library env) (fs_parent fs file) c (Map.empty, empty_names)) (\<lambda>(models, g1).
      and_then (key y n ''dynamic_profiles'') (\<lambda>c.
      and_then (parse_profile_library env (dynamic_library env) (fs_parent fs file) c (Map.empty, empty_names)) (\<lambda>(dynamics, g2).
      and_then (key y n ''robot_profiles'') (\<lambda>c.
      and_then (parse_profile_library env (robot_library env) (fs_parent fs file) c (Map.empty, empty_names)) (\<lambda>(robots, g3).
      and_then (key y n ''robot'') (\<lambda>c.
      and_then (parse_robot_config y c) (\<lambda>robot.
      and_then (key y n ''world'') (\<lambda>c.
      and_then (parse_world_section y c) (\<lambda>w.
      Inr \<lparr>model_profiles = models, dynamic_profiles = dynamics, robot_profiles = robots, world_kind = w,
           collision_categories = cats, robot_instance = robot\<rparr>)))))))))))))))))"

section \<open>Maps\<close>

definition map_context :: string where "map_context = ''parse_map_config''"

definition add_static :: "'y yaml \<Rightarrow> nat \<Rightarrow> 'y \<Rightarrow> (static_instance_cfg list \<times> name_table) read" where
  "add_static y i n st = (let (ss, gen) = st in
     and_then (instance_name y n (''static_instances['' @ digits i @ ''] missing '' @ quoted ''name'') map_context) (\<lambda>d.
     and_then (generate_name ''object'' d gen) (\<lambda>(name, gen').
     and_then (require_key y n ''model_id'' (''static instance '' @ quoted name) map_context) (\<lambda>u.
     and_then (need as_string y n ''model_id'') (\<lambda>model.
     and_then (require_key y n ''pose_world'' (''static instance '' @ quoted name) map_context) (\<lambda>u.
     and_then (key y n ''pose_world'') (\<lambda>c.
     and_then (parse_pose2 y c) (\<lambda>p.
     Inr (ss @ [\<lparr>si_name = name, si_model_id = model, si_pose = p\<rparr>], gen')))))))))"

definition parse_bounds :: "'y yaml \<Rightarrow> 'y \<Rightarrow> parse_failure + aabb2" where
  "parse_bounds y n =
     and_then (has y n ''bounds'') (\<lambda>b.
     and_then (require b ''Map 'bounds' definition is required'' map_context) (\<lambda>u.
     and_then (key y n ''bounds'') (\<lambda>c. reads
       [in_child y c ''min'' (\<lambda>m s. and_then (read_point y m) (\<lambda>p. Inr (s\<lparr>bmin := p\<rparr>))),
        in_child y c ''max'' (\<lambda>m s. and_then (read_point y m) (\<lambda>p. Inr (s\<lparr>bmax := p\<rparr>)))] \<lparr>bmin = pt 0 0, bmax = pt 0 0\<rparr>)))"

definition route_error :: "string \<Rightarrow> string \<Rightarrow> string" where
  "route_error name m = ''robot route '' @ quoted name @ m"

definition add_route_waypoint :: "'y yaml \<Rightarrow> string \<Rightarrow> nat \<Rightarrow> 'y \<Rightarrow> (robot_waypoint list \<times> name_table) read" where
  "add_route_waypoint y route i n st = (let (ws, gen) = st in
     and_then (has y n ''name'') (\<lambda>a. and_then (if a then has y n ''pos'' else Inr False) (\<lambda>b.
     and_then (require b (route_error route ('' waypoint['' @ digits i @ ''] must define 'name' and '' @ quoted ''pos'')) map_context) (\<lambda>u.
     and_then (need as_string y n ''name'') (\<lambda>d.
     and_then (generate_name ''waypoint'' d gen) (\<lambda>(name, gen').
     and_then (key y n ''pos'') (\<lambda>c.
     and_then (thrown (y_is_sequence y c)) (\<lambda>is_seq.
     and_then (if is_seq then thrown (y_size y c) else Inr 0) (\<lambda>m.
     and_then (require (is_seq \<and> m = 2) (route_error route ('' waypoint '' @ quoted name @ '' pos must be [x, y]'')) map_context) (\<lambda>u.
     and_then (parse_point2 y c) (\<lambda>p.
     and_then (pick as_double y n ''tolerance'' 1) (\<lambda>tol.
     and_then (require (0 < tol) (route_error route ('' waypoint '' @ quoted name @ '' tolerance must be > 0'')) map_context) (\<lambda>u.
     Inr (ws @ [\<lparr>wp_name = name, wp_pos = p, wp_tolerance = tol\<rparr>], gen'))))))))))))))"

text \<open>A child that is defined and passes a test; its name is read again for the message.\<close>

definition route_child :: "'y yaml \<Rightarrow> ('y \<Rightarrow> string + bool) \<Rightarrow> 'y \<Rightarrow> string \<Rightarrow> string \<Rightarrow> parse_failure + unit" where
  "route_child y test n k m =
     and_then (key y n k) (\<lambda>c. and_then (defined_and y test c) (\<lambda>b.
     if b then Inr () else and_then (need as_string y n ''name'') (\<lambda>name. reject (route_error name m) map_context)))"

definition add_route :: "'y yaml \<Rightarrow> nat \<Rightarrow> 'y \<Rightarrow> (robot_route list \<times> name_table) read" where
  "add_route y i n st = (let (rs, gen) = st in
     and_then (require_key y n ''name'' (''robot_routes['' @ digits i @ '']'') map_context) (\<lambda>u.
     and_then (route_child y (y_is_map y) n ''start'' '' missing 'start' pose'') (\<lambda>u.
     and_then (route_child y (y_is_sequence y) n ''waypoints'' '' missing waypoint sequence'') (\<lambda>u.
     and_then (need as_string y n ''name'') (\<lambda>d.
     and_then (generate_name ''route'' d gen) (\<lambda>(name, gen').
     and_then (key y n ''start'') (\<lambda>c. and_then (parse_pose2 y c) (\<lambda>start.
     and_then (key y n ''waypoints'') (\<lambda>c.
     and_then (thrown (y_size y c)) (\<lambda>m.
     and_then (require (m \<noteq> 0) (route_error name '' must define at least one waypoint'') map_context) (\<lambda>u.
     and_then (for_index y c (add_route_waypoint y name) ([], empty_names)) (\<lambda>(ws, g).
     Inr (rs @ [\<lparr>rt_name = name, rt_start = start, rt_waypoints = ws\<rparr>], gen')))))))))))))"

definition parse_routes :: "'y yaml \<Rightarrow> 'y \<Rightarrow> parse_failure + robot_route list" where
  "parse_routes y n =
     and_then (has y n ''robot_routes'') (\<lambda>b.
     and_then (require b (''Map must define '' @ quoted ''robot_routes'') map_context) (\<lambda>u.
     and_then (key y n ''robot_routes'') (\<lambda>c.
     and_then (thrown (y_is_sequence y c)) (\<lambda>is_seq.
     and_then (require is_seq (quoted ''robot_routes'' @ '' must be a sequence'') map_context) (\<lambda>u.
     and_then (for_index y c (add_route y) ([], empty_names)) (\<lambda>(rs, g).
     and_then (require (rs \<noteq> []) ''At least one 'robot_routes' entry must be defined'' map_context) (\<lambda>u. Inr rs)))))))"

definition parse_map_body :: "'y yaml \<Rightarrow> 'y \<Rightarrow> string \<Rightarrow> parse_failure + map_config" where
  "parse_map_body y n name =
     and_then (skip y n ''description'' ()) (\<lambda>u.
     and_then (optional_sequence y n ''static_instances'' (quoted ''static_instances'' @ '' must be a sequence'') map_context (add_static y) ([], empty_names)) (\<lambda>(ss, g).
     and_then (parse_bounds y n) (\<lambda>b.
     and_then (parse_routes y n) (\<lambda>rs.
     Inr \<lparr>mc_name = name, mc_statics = ss, mc_routes = rs, mc_bounds = b\<rparr>))))"

text \<open>The names of maps are unique for the parser; a map that fails later has used its name.\<close>

definition parse_map_config :: "'y yaml \<Rightarrow> string \<Rightarrow> name_table \<Rightarrow> (error + map_config) option \<times> name_table" where
  "parse_map_config y path gen =
     (case and_then (thrown (y_load_file y path)) (\<lambda>n.
           and_then (skip y n ''version'' ()) (\<lambda>u.
           and_then (pick as_string y n ''name'' ''unnamed_map'') (\<lambda>d.
           and_then (generate_name ''default_map'' d gen) (\<lambda>(name, gen'). Inr (n, name, gen'))))) of
        Inl f \<Rightarrow> (caught map_context (Inl f), gen)
      | Inr (n, name, gen') \<Rightarrow> (caught map_context (parse_map_body y n name), gen'))"

end
