(* ===== verification/ConfigRL.thy ===== *)
theory ConfigRL
  imports Simulator WorkerPolicy Yaml
begin

text \<open>
  The parsers of the learning configuration, \<^verbatim>\<open>parse_rl_config\<close>, \<^verbatim>\<open>parse_policy_arch_config\<close> and
  \<^verbatim>\<open>parse_reward_config\<close> of \<^verbatim>\<open>config/src/parsing.cpp\<close>. The code reads the weights of the
  reward in two places; both are translated, and shown to agree but for the keys of an older schema.
\<close>

section \<open>Configuration\<close>

record rl_config =
  rl_policy_type :: policy_type
  rl_architecture :: architecture
  rl_reward :: reward_config

definition default_reward_config :: reward_config where
  "default_reward_config = \<lparr>reward_type = ''default'', terminate_on_goal = True, rc_weights = default_weights\<rparr>"

section \<open>The architecture\<close>

definition add_z_band :: "'y yaml \<Rightarrow> string \<Rightarrow> string \<Rightarrow> 'y \<Rightarrow> (real \<times> real) list read" where
  "add_z_band y label ctx e zs =
     and_then (thrown (y_is_sequence y e)) (\<lambda>is_seq.
     and_then (if is_seq then thrown (y_size y e) else Inr 0) (\<lambda>m.
     and_then (require (is_seq \<and> m = 2) (label @ ''.z_bands entries must be [z_min, z_max] pairs'') ctx) (\<lambda>u.
     and_then (need_at as_double y e 0) (\<lambda>lo. and_then (need_at as_double y e 1) (\<lambda>hi. Inr (zs @ [(lo, hi)]))))))"

definition parse_z_bands :: "'y yaml \<Rightarrow> string \<Rightarrow> string \<Rightarrow> 'y \<Rightarrow> architecture read" where
  "parse_z_bands y label ctx c a = and_then (for_items y c (add_z_band y label ctx) []) (\<lambda>zs. Inr (a\<lparr>z_bands := zs\<rparr>))"

definition parse_architecture :: "'y yaml \<Rightarrow> string \<Rightarrow> string \<Rightarrow> 'y \<Rightarrow> parse_failure + architecture" where
  "parse_architecture y label ctx n = reads
     [set_own as_string y n ''policy_model'' policy_model (\<lambda>v s. s\<lparr>policy_model := v\<rparr>),
      set_own as_u32 y n ''azimuth_bins'' azimuth_bins (\<lambda>v s. s\<lparr>azimuth_bins := v\<rparr>),
      set_own as_double y n ''range_max_m'' arch_range_max_m (\<lambda>v s. s\<lparr>arch_range_max_m := v\<rparr>),
      set_own as_u32 y n ''state_dim'' state_dim (\<lambda>v s. s\<lparr>state_dim := v\<rparr>),
      set_own as_u32 y n ''action_dim'' action_dim (\<lambda>v s. s\<lparr>action_dim := v\<rparr>),
      set_own as_u32 y n ''mlp_hidden_dim'' mlp_hidden_dim (\<lambda>v s. s\<lparr>mlp_hidden_dim := v\<rparr>),
      set_own as_u32 y n ''lstm_hidden_dim'' lstm_hidden_dim (\<lambda>v s. s\<lparr>lstm_hidden_dim := v\<rparr>),
      in_child y n ''z_bands'' (parse_z_bands y label ctx),
      (\<lambda>a. and_then (require (z_bands a \<noteq> []) (label @ ''.z_bands must not be empty'') ctx) (\<lambda>u. Inr a))] default_architecture"

section \<open>The reward\<close>

text \<open>The first copy of the code, in the parser of the whole learning configuration, and its reads of the
  keys of an older schema.\<close>

definition parse_rl_weights :: "'y yaml \<Rightarrow> 'y \<Rightarrow> reward_weights read" where
  "parse_rl_weights y n = reads
     [set_own as_double y n ''progress'' w_progress (\<lambda>v s. s\<lparr>w_progress := v\<rparr>),
      set_own as_double y n ''progress_min'' progress_min (\<lambda>v s. s\<lparr>progress_min := v\<rparr>),
      set_own as_double y n ''progress_decay_steps'' progress_decay_steps (\<lambda>v s. s\<lparr>progress_decay_steps := v\<rparr>),
      set_own as_double y n ''progress_norm_speed_m_s'' progress_norm_speed_m_s (\<lambda>v s. s\<lparr>progress_norm_speed_m_s := v\<rparr>),
      set_own as_double y n ''progress_gate_epsilon_m_s'' progress_gate_epsilon_m_s (\<lambda>v s. s\<lparr>progress_gate_epsilon_m_s := v\<rparr>),
      set_own as_double y n ''progress_steer_gate_min'' progress_steer_gate_min (\<lambda>v s. s\<lparr>progress_steer_gate_min := v\<rparr>),
      set_own as_double y n ''progress_steer_gate_power'' progress_steer_gate_power (\<lambda>v s. s\<lparr>progress_steer_gate_power := v\<rparr>),
      set_own as_double y n ''steer_norm_abs'' steer_norm_abs (\<lambda>v s. s\<lparr>steer_norm_abs := v\<rparr>),
      set_own as_double y n ''effort_penalty'' effort_penalty (\<lambda>v s. s\<lparr>effort_penalty := v\<rparr>),
      set_own as_double y n ''time_penalty'' time_penalty (\<lambda>v s. s\<lparr>time_penalty := v\<rparr>),
      set_own as_double y n ''waypoint_reached_bonus'' waypoint_reached_bonus (\<lambda>v s. s\<lparr>waypoint_reached_bonus := v\<rparr>),
      set_own as_double y n ''goal_reached_bonus'' goal_reached_bonus (\<lambda>v s. s\<lparr>goal_reached_bonus := v\<rparr>),
      set_own as_double y n ''goal_reached_bonus_min'' goal_reached_bonus_min (\<lambda>v s. s\<lparr>goal_reached_bonus_min := v\<rparr>),
      set_own as_double y n ''goal_reached_bonus_decay_steps'' goal_reached_bonus_decay_steps (\<lambda>v s. s\<lparr>goal_reached_bonus_decay_steps := v\<rparr>),
      set_own as_double y n ''yaw_rate_penalty'' yaw_rate_penalty (\<lambda>v s. s\<lparr>yaw_rate_penalty := v\<rparr>),
      set_own as_double y n ''reverse_penalty'' reverse_penalty (\<lambda>v s. s\<lparr>reverse_penalty := v\<rparr>),
      set_own as_double y n ''reverse_penalty_tau_s'' reverse_penalty_tau_s (\<lambda>v s. s\<lparr>reverse_penalty_tau_s := v\<rparr>),
      set_own as_double y n ''reverse_speed_penalty'' reverse_speed_penalty (\<lambda>v s. s\<lparr>reverse_speed_penalty := v\<rparr>),
      set_own as_double y n ''gear_switch_penalty'' gear_switch_penalty (\<lambda>v s. s\<lparr>gear_switch_penalty := v\<rparr>),
      set_own as_double y n ''heading_alignment_bonus'' heading_alignment_bonus (\<lambda>v s. s\<lparr>heading_alignment_bonus := v\<rparr>),
      set_own as_double y n ''heading_to_goal_reward'' heading_to_goal_reward (\<lambda>v s. s\<lparr>heading_to_goal_reward := v\<rparr>),
      set_own as_double y n ''proximity_reward'' proximity_reward (\<lambda>v s. s\<lparr>proximity_reward := v\<rparr>),
      when_has y n ''heading_to_goal_reward'' (\<lambda>s. Inr (s\<lparr>heading_alignment_bonus := heading_to_goal_reward s\<rparr>)),
      set_own as_double y n ''time_penalty_scale'' time_penalty_scale (\<lambda>v s. s\<lparr>time_penalty_scale := v\<rparr>),
      set_own as_double y n ''time_penalty_scale_decay_steps'' time_penalty_scale_decay_steps (\<lambda>v s. s\<lparr>time_penalty_scale_decay_steps := v\<rparr>),
      set_own as_double y n ''time_limit_penalty'' time_limit_penalty (\<lambda>v s. s\<lparr>time_limit_penalty := v\<rparr>),
      set_own as_double y n ''steer_penalty'' steer_penalty (\<lambda>v s. s\<lparr>steer_penalty := v\<rparr>),
      set_own as_double y n ''steer_penalty_tau_s'' steer_penalty_tau_s (\<lambda>v s. s\<lparr>steer_penalty_tau_s := v\<rparr>),
      set_own as_double y n ''steer_hold_penalty'' steer_hold_penalty (\<lambda>v s. s\<lparr>steer_hold_penalty := v\<rparr>),
      set_own as_double y n ''steer_hold_threshold'' steer_hold_threshold (\<lambda>v s. s\<lparr>steer_hold_threshold := v\<rparr>),
      set_own as_double y n ''steer_hold_terminate_s'' steer_hold_terminate_s (\<lambda>v s. s\<lparr>steer_hold_terminate_s := v\<rparr>),
      set_own as_double y n ''steer_hold_terminal_penalty'' steer_hold_terminal_penalty (\<lambda>v s. s\<lparr>steer_hold_terminal_penalty := v\<rparr>),
      set_own as_double y n ''steer_hold_decay_s'' steer_hold_decay_s (\<lambda>v s. s\<lparr>steer_hold_decay_s := v\<rparr>),
      set_own as_double y n ''yaw_rate_near_goal_dist'' yaw_rate_near_goal_dist (\<lambda>v s. s\<lparr>yaw_rate_near_goal_dist := v\<rparr>),
      set_own as_double y n ''reverse_hold_penalty'' reverse_hold_penalty (\<lambda>v s. s\<lparr>reverse_hold_penalty := v\<rparr>),
      when_has y n ''reverse_speed_penalty'' (set_own as_double y n ''reverse_speed_penalty'' reverse_penalty (\<lambda>v s. s\<lparr>reverse_penalty := v\<rparr>)),
      when_has y n ''reverse_hold_penalty'' (set_own as_double y n ''reverse_hold_penalty'' reverse_penalty (\<lambda>v s. s\<lparr>reverse_penalty := v\<rparr>)),
      set_own as_double y n ''collision_penalty_scale'' collision_penalty_scale (\<lambda>v s. s\<lparr>collision_penalty_scale := v\<rparr>),
      set_own as_double y n ''clearance_gate_dist_min_m'' clearance_gate_dist_min_m (\<lambda>v s. s\<lparr>clearance_gate_dist_min_m := v\<rparr>),
      set_own as_double y n ''clearance_gate_dist_max_m'' clearance_gate_dist_max_m (\<lambda>v s. s\<lparr>clearance_gate_dist_max_m := v\<rparr>),
      set_own as_double y n ''clearance_gate_half_angle_rad'' clearance_gate_half_angle_rad (\<lambda>v s. s\<lparr>clearance_gate_half_angle_rad := v\<rparr>),
      set_own as_double y n ''stall_penalty_scale'' stall_penalty_scale (\<lambda>v s. s\<lparr>stall_penalty_scale := v\<rparr>),
      set_own as_double y n ''stall_penalty_growth'' stall_penalty_growth (\<lambda>v s. s\<lparr>stall_penalty_growth := v\<rparr>),
      set_own as_double y n ''stall_progress_epsilon'' stall_progress_epsilon (\<lambda>v s. s\<lparr>stall_progress_epsilon := v\<rparr>),
      set_own as_double y n ''stall_window_s'' stall_window_s (\<lambda>v s. s\<lparr>stall_window_s := v\<rparr>),
      set_own as_double y n ''stall_tau_s'' stall_tau_s (\<lambda>v s. s\<lparr>stall_tau_s := v\<rparr>),
      set_own as_double y n ''stall_limit'' stall_limit (\<lambda>v s. s\<lparr>stall_limit := v\<rparr>),
      set_own as_double y n ''stall_terminal_penalty'' stall_terminal_penalty (\<lambda>v s. s\<lparr>stall_terminal_penalty := v\<rparr>)]"

definition parse_legacy_weights :: "'y yaml \<Rightarrow> 'y \<Rightarrow> reward_weights read" where
  "parse_legacy_weights y n = reads
     [when_has y n ''stagnation_penalty_scale'' (set_own as_double y n ''stagnation_penalty_scale'' stall_penalty_scale (\<lambda>v s. s\<lparr>stall_penalty_scale := v\<rparr>)),
      when_has y n ''stagnation_penalty_growth'' (set_own as_double y n ''stagnation_penalty_growth'' stall_penalty_growth (\<lambda>v s. s\<lparr>stall_penalty_growth := v\<rparr>)),
      when_has y n ''stagnation_progress_epsilon'' (set_own as_double y n ''stagnation_progress_epsilon'' stall_progress_epsilon (\<lambda>v s. s\<lparr>stall_progress_epsilon := v\<rparr>)),
      when_has y n ''stagnation_window_s'' (set_own as_double y n ''stagnation_window_s'' stall_window_s (\<lambda>v s. s\<lparr>stall_window_s := v\<rparr>)),
      when_has y n ''stagnation_ramp_s'' (set_own as_double y n ''stagnation_ramp_s'' stall_tau_s (\<lambda>v s. s\<lparr>stall_tau_s := v\<rparr>)),
      when_has y n ''stagnation_patience_s'' (set_own as_double y n ''stagnation_patience_s'' stall_tau_s (\<lambda>v s. s\<lparr>stall_tau_s := v\<rparr>)),
      when_has y n ''stagnation_strike_duration_s'' (set_own as_double y n ''stagnation_strike_duration_s'' stall_tau_s (\<lambda>v s. s\<lparr>stall_tau_s := v\<rparr>)),
      when_has y n ''stagnation_max_strikes'' (\<lambda>s. and_then (pick as_double y n ''stagnation_max_strikes'' (stall_limit s)) (\<lambda>v. Inr (s\<lparr>stall_limit := max 1 v\<rparr>))),
      when_has y n ''stagnation_terminal_penalty'' (set_own as_double y n ''stagnation_terminal_penalty'' stall_terminal_penalty (\<lambda>v s. s\<lparr>stall_terminal_penalty := v\<rparr>))]"

text \<open>The second copy, in the parser of a file for the reward alone.\<close>

definition parse_reward_weights :: "'y yaml \<Rightarrow> 'y \<Rightarrow> reward_weights read" where
  "parse_reward_weights y n = reads
     [set_own as_double y n ''progress'' w_progress (\<lambda>v s. s\<lparr>w_progress := v\<rparr>),
      set_own as_double y n ''progress_min'' progress_min (\<lambda>v s. s\<lparr>progress_min := v\<rparr>),
      set_own as_double y n ''progress_decay_steps'' progress_decay_steps (\<lambda>v s. s\<lparr>progress_decay_steps := v\<rparr>),
      set_own as_double y n ''progress_norm_speed_m_s'' progress_norm_speed_m_s (\<lambda>v s. s\<lparr>progress_norm_speed_m_s := v\<rparr>),
      set_own as_double y n ''progress_gate_epsilon_m_s'' progress_gate_epsilon_m_s (\<lambda>v s. s\<lparr>progress_gate_epsilon_m_s := v\<rparr>),
      set_own as_double y n ''progress_steer_gate_min'' progress_steer_gate_min (\<lambda>v s. s\<lparr>progress_steer_gate_min := v\<rparr>),
      set_own as_double y n ''progress_steer_gate_power'' progress_steer_gate_power (\<lambda>v s. s\<lparr>progress_steer_gate_power := v\<rparr>),
      set_own as_double y n ''steer_norm_abs'' steer_norm_abs (\<lambda>v s. s\<lparr>steer_norm_abs := v\<rparr>),
      set_own as_double y n ''effort_penalty'' effort_penalty (\<lambda>v s. s\<lparr>effort_penalty := v\<rparr>),
      set_own as_double y n ''time_penalty'' time_penalty (\<lambda>v s. s\<lparr>time_penalty := v\<rparr>),
      set_own as_double y n ''waypoint_reached_bonus'' waypoint_reached_bonus (\<lambda>v s. s\<lparr>waypoint_reached_bonus := v\<rparr>),
      set_own as_double y n ''goal_reached_bonus'' goal_reached_bonus (\<lambda>v s. s\<lparr>goal_reached_bonus := v\<rparr>),
      set_own as_double y n ''goal_reached_bonus_min'' goal_reached_bonus_min (\<lambda>v s. s\<lparr>goal_reached_bonus_min := v\<rparr>),
      set_own as_double y n ''goal_reached_bonus_decay_steps'' goal_reached_bonus_decay_steps (\<lambda>v s. s\<lparr>goal_reached_bonus_decay_steps := v\<rparr>),
      set_own as_double y n ''yaw_rate_penalty'' yaw_rate_penalty (\<lambda>v s. s\<lparr>yaw_rate_penalty := v\<rparr>),
      set_own as_double y n ''reverse_penalty'' reverse_penalty (\<lambda>v s. s\<lparr>reverse_penalty := v\<rparr>),
      set_own as_double y n ''reverse_penalty_tau_s'' reverse_penalty_tau_s (\<lambda>v s. s\<lparr>reverse_penalty_tau_s := v\<rparr>),
      set_own as_double y n ''reverse_speed_penalty'' reverse_speed_penalty (\<lambda>v s. s\<lparr>reverse_speed_penalty := v\<rparr>),
      set_own as_double y n ''gear_switch_penalty'' gear_switch_penalty (\<lambda>v s. s\<lparr>gear_switch_penalty := v\<rparr>),
      set_own as_double y n ''heading_alignment_bonus'' heading_alignment_bonus (\<lambda>v s. s\<lparr>heading_alignment_bonus := v\<rparr>),
      set_own as_double y n ''heading_to_goal_reward'' heading_to_goal_reward (\<lambda>v s. s\<lparr>heading_to_goal_reward := v\<rparr>),
      set_own as_double y n ''proximity_reward'' proximity_reward (\<lambda>v s. s\<lparr>proximity_reward := v\<rparr>),
      when_has y n ''heading_to_goal_reward'' (\<lambda>s. Inr (s\<lparr>heading_alignment_bonus := heading_to_goal_reward s\<rparr>)),
      set_own as_double y n ''time_penalty_scale'' time_penalty_scale (\<lambda>v s. s\<lparr>time_penalty_scale := v\<rparr>),
      set_own as_double y n ''time_penalty_scale_decay_steps'' time_penalty_scale_decay_steps (\<lambda>v s. s\<lparr>time_penalty_scale_decay_steps := v\<rparr>),
      set_own as_double y n ''time_limit_penalty'' time_limit_penalty (\<lambda>v s. s\<lparr>time_limit_penalty := v\<rparr>),
      set_own as_double y n ''steer_penalty'' steer_penalty (\<lambda>v s. s\<lparr>steer_penalty := v\<rparr>),
      set_own as_double y n ''steer_penalty_tau_s'' steer_penalty_tau_s (\<lambda>v s. s\<lparr>steer_penalty_tau_s := v\<rparr>),
      set_own as_double y n ''steer_hold_penalty'' steer_hold_penalty (\<lambda>v s. s\<lparr>steer_hold_penalty := v\<rparr>),
      set_own as_double y n ''steer_hold_threshold'' steer_hold_threshold (\<lambda>v s. s\<lparr>steer_hold_threshold := v\<rparr>),
      set_own as_double y n ''steer_hold_terminate_s'' steer_hold_terminate_s (\<lambda>v s. s\<lparr>steer_hold_terminate_s := v\<rparr>),
      set_own as_double y n ''steer_hold_terminal_penalty'' steer_hold_terminal_penalty (\<lambda>v s. s\<lparr>steer_hold_terminal_penalty := v\<rparr>),
      set_own as_double y n ''steer_hold_decay_s'' steer_hold_decay_s (\<lambda>v s. s\<lparr>steer_hold_decay_s := v\<rparr>),
      set_own as_double y n ''yaw_rate_near_goal_dist'' yaw_rate_near_goal_dist (\<lambda>v s. s\<lparr>yaw_rate_near_goal_dist := v\<rparr>),
      set_own as_double y n ''reverse_hold_penalty'' reverse_hold_penalty (\<lambda>v s. s\<lparr>reverse_hold_penalty := v\<rparr>),
      when_has y n ''reverse_speed_penalty'' (set_own as_double y n ''reverse_speed_penalty'' reverse_penalty (\<lambda>v s. s\<lparr>reverse_penalty := v\<rparr>)),
      when_has y n ''reverse_hold_penalty'' (set_own as_double y n ''reverse_hold_penalty'' reverse_penalty (\<lambda>v s. s\<lparr>reverse_penalty := v\<rparr>)),
      set_own as_double y n ''collision_penalty_scale'' collision_penalty_scale (\<lambda>v s. s\<lparr>collision_penalty_scale := v\<rparr>),
      set_own as_double y n ''clearance_gate_dist_min_m'' clearance_gate_dist_min_m (\<lambda>v s. s\<lparr>clearance_gate_dist_min_m := v\<rparr>),
      set_own as_double y n ''clearance_gate_dist_max_m'' clearance_gate_dist_max_m (\<lambda>v s. s\<lparr>clearance_gate_dist_max_m := v\<rparr>),
      set_own as_double y n ''clearance_gate_half_angle_rad'' clearance_gate_half_angle_rad (\<lambda>v s. s\<lparr>clearance_gate_half_angle_rad := v\<rparr>),
      set_own as_double y n ''stall_penalty_scale'' stall_penalty_scale (\<lambda>v s. s\<lparr>stall_penalty_scale := v\<rparr>),
      set_own as_double y n ''stall_penalty_growth'' stall_penalty_growth (\<lambda>v s. s\<lparr>stall_penalty_growth := v\<rparr>),
      set_own as_double y n ''stall_progress_epsilon'' stall_progress_epsilon (\<lambda>v s. s\<lparr>stall_progress_epsilon := v\<rparr>),
      set_own as_double y n ''stall_window_s'' stall_window_s (\<lambda>v s. s\<lparr>stall_window_s := v\<rparr>),
      set_own as_double y n ''stall_tau_s'' stall_tau_s (\<lambda>v s. s\<lparr>stall_tau_s := v\<rparr>),
      set_own as_double y n ''stall_limit'' stall_limit (\<lambda>v s. s\<lparr>stall_limit := v\<rparr>),
      set_own as_double y n ''stall_terminal_penalty'' stall_terminal_penalty (\<lambda>v s. s\<lparr>stall_terminal_penalty := v\<rparr>)]"

definition read_weights :: "('y \<Rightarrow> reward_weights read) \<Rightarrow> 'y yaml \<Rightarrow> 'y \<Rightarrow> reward_config read" where
  "read_weights f y n = in_child y n ''weights'' (\<lambda>c s. and_then (f c (rc_weights s)) (\<lambda>w. Inr (s\<lparr>rc_weights := w\<rparr>)))"

definition parse_rl_reward :: "'y yaml \<Rightarrow> 'y \<Rightarrow> parse_failure + reward_config" where
  "parse_rl_reward y n = reads
     [set_own as_string y n ''reward_type'' reward_type (\<lambda>v s. s\<lparr>reward_type := v\<rparr>),
      set_own as_bool y n ''terminate_on_goal'' terminate_on_goal (\<lambda>v s. s\<lparr>terminate_on_goal := v\<rparr>),
      read_weights (\<lambda>c w. and_then (parse_rl_weights y c w) (parse_legacy_weights y c)) y n] default_reward_config"

definition parse_reward_config :: "'y yaml \<Rightarrow> string \<Rightarrow> (error + reward_config) option" where
  "parse_reward_config y path = caught ''parse_reward_config''
     (and_then (thrown (y_load_file y path)) (\<lambda>file.
      and_then (has y file ''reward'') (\<lambda>b.
      and_then (if b then key y file ''reward'' else Inr file) (\<lambda>n. reads
        [set_own as_string y n ''reward_type'' reward_type (\<lambda>v s. s\<lparr>reward_type := v\<rparr>),
         set_own as_bool y n ''terminate_on_goal'' terminate_on_goal (\<lambda>v s. s\<lparr>terminate_on_goal := v\<rparr>),
         read_weights (parse_reward_weights y) y n] default_reward_config))))"

section \<open>The files\<close>

definition policy_type_of :: "string \<Rightarrow> policy_type option" where
  "policy_type_of s =
     (if s = ''random'' then Some RANDOM
      else if s = ''neural_network'' then Some NEURAL_NETWORK
      else if s = ''expert'' then Some EXPERT else None)"

definition parse_policy_kind :: "'y yaml \<Rightarrow> 'y \<Rightarrow> parse_failure + policy_type" where
  "parse_policy_kind y n =
     and_then (pick as_string y n ''type'' ''random'')
       (\<lambda>s. case policy_type_of s of None \<Rightarrow> reject (''Unknown policy.type: '' @ s) ''parse_rl_config'' | Some t \<Rightarrow> Inr t)"

text \<open>\<^verbatim>\<open>const auto c = n[k]; if (!c) return an error\<close>.\<close>

definition need_child :: "'y yaml \<Rightarrow> 'y \<Rightarrow> string \<Rightarrow> string \<Rightarrow> string \<Rightarrow> parse_failure + 'y" where
  "need_child y n k m ctx = and_then (key y n k) (\<lambda>c. and_then (require (y_defined y c) m ctx) (\<lambda>u. Inr c))"

definition parse_rl_config :: "'y yaml \<Rightarrow> string \<Rightarrow> (error + rl_config) option" where
  "parse_rl_config y path = caught ''parse_rl_config''
     (and_then (thrown (y_load_file y path)) (\<lambda>file.
      and_then (need_child y file ''policy'' ''Missing 'policy' section'' ''parse_rl_config'') (\<lambda>policy.
      and_then (parse_policy_kind y policy) (\<lambda>t.
      and_then (need_child y policy ''architecture'' ''Missing policy.architecture'' ''parse_rl_config'') (\<lambda>arch.
      and_then (parse_architecture y ''policy.architecture'' ''parse_rl_config'' arch) (\<lambda>a.
      and_then (need_child y file ''reward'' ''Missing 'reward' section'' ''parse_rl_config'') (\<lambda>n.
      and_then (parse_rl_reward y n) (\<lambda>r.
      Inr \<lparr>rl_policy_type = t, rl_architecture = a, rl_reward = r\<rparr>))))))))"

text \<open>\<^verbatim>\<open>arch\<close> stays undefined without either section, and is then rejected.\<close>

definition find_architecture :: "'y yaml \<Rightarrow> 'y \<Rightarrow> parse_failure + 'y" where
  "find_architecture y file =
     and_then (key y file ''architecture'') (\<lambda>arch.
     and_then (if y_defined y arch then Inr False else has y file ''policy'') (\<lambda>b.
     if b then and_then (key y file ''policy'') (\<lambda>p. key y p ''architecture'') else Inr arch))"

definition parse_policy_arch_config :: "'y yaml \<Rightarrow> string \<Rightarrow> (error + architecture) option" where
  "parse_policy_arch_config y path = caught ''parse_policy_arch_config''
     (and_then (thrown (y_load_file y path)) (\<lambda>file.
      and_then (find_architecture y file) (\<lambda>arch.
      and_then (require (y_defined y arch) ''Missing 'architecture' or 'policy.architecture' section'' ''parse_policy_arch_config'') (\<lambda>u.
      parse_architecture y ''architecture'' ''parse_policy_arch_config'' arch))))"

section \<open>The two copies agree\<close>

lemma weights_copies_equal: "parse_reward_weights y n = parse_rl_weights y n"
  by (simp only: parse_reward_weights_def parse_rl_weights_def)

definition legacy_keys :: "string list" where
  "legacy_keys = [''stagnation_penalty_scale'', ''stagnation_penalty_growth'', ''stagnation_progress_epsilon'', ''stagnation_window_s'',
     ''stagnation_ramp_s'', ''stagnation_patience_s'', ''stagnation_strike_duration_s'', ''stagnation_max_strikes'', ''stagnation_terminal_penalty'']"

lemma absent_read: "y_key y n k = Inr c \<Longrightarrow> \<not> y_defined y c \<Longrightarrow> when_has y n k body s = Inr s"
  by (simp add: when_has_def has_def key_def thrown_def)

lemma no_legacy:
  assumes "\<forall>k\<in>set legacy_keys. \<exists>c. y_key y n k = Inr c \<and> \<not> y_defined y c"
  shows "parse_legacy_weights y n w = Inr w"
proof -
  have "when_has y n k body s = Inr s" if "k \<in> set legacy_keys" for k s and body :: "reward_weights read"
    using assms that absent_read by fastforce
  then show ?thesis by (simp add: parse_legacy_weights_def legacy_keys_def)
qed

lemma read_weights_cong: "(\<And>c w. y_key y n ''weights'' = Inr c \<Longrightarrow> f c w = g c w) \<Longrightarrow> read_weights f y n s = read_weights g y n s"
  by (auto simp: read_weights_def in_child_def when_has_def has_def key_def thrown_def and_then_def split: sum.split)


text \<open>A file with one weight.\<close>

definition demo_rl_file :: tree where
  "demo_rl_file = TMap
     [(''policy'', TMap [(''type'', TText ''expert''), (''architecture'', TMap [(''z_bands'', TSeq [TSeq [TNum 0, TNum 2]])])]),
      (''reward'', TMap [(''weights'', TMap [(''goal_reached_bonus'', TNum 7), (''heading_to_goal_reward'', TNum 3)])])]"


end
