(* ===== verification/ConfigFacts.thy ===== *)
theory ConfigFacts
  imports ConfigWorld ConfigRL WorldInv
begin

text \<open>
  What the parsers promise: unique names, complete routes, profiles under their own names, and how far a
  parsed world is one that the simulation can use.
\<close>

section \<open>Names\<close>

lemma fresh_loop_fresh: "fresh_loop b used c = Some (n, c') \<Longrightarrow> n \<notin> used \<and> n \<noteq> []"
proof -
  assume f: "fresh_loop b used c = Some (n, c')"
  have "case y of (n, c') \<Rightarrow> n \<notin> u \<and> n \<noteq> []" if "fresh_loop b u c = Some y" for b u c y
    using that by (rule fresh_loop.raw_induct[rotated]) (auto simp: suffixed_nonempty split: if_splits)
  from this[OF f] show ?thesis by simp
qed

lemma generate_fresh:
  assumes "generate_name fallback d t = Inr (n, t')" "fallback \<noteq> []"
  shows "n \<notin> used_names t \<and> n \<noteq> [] \<and> used_names t' = insert n (used_names t)"
  using assms by (auto simp: generate_name_def Let_def dest: fresh_loop_fresh split: if_splits option.splits)

text \<open>A list with unique names, all of them taken from a table.\<close>

definition named :: "('a \<Rightarrow> string) \<Rightarrow> 'a list \<times> name_table \<Rightarrow> bool" where
  "named f st \<longleftrightarrow> distinct (map f (fst st)) \<and> (\<forall>x\<in>set (fst st). f x \<noteq> []) \<and> used_names (snd st) = f ` set (fst st)"

lemma named_empty [simp]: "named f ([], empty_names)"
  by (simp add: named_def empty_names_def)

lemma named_snoc:
  assumes "named f (xs, gen)" "generate_name fallback d gen = Inr (f x, gen')" "fallback \<noteq> []"
  shows "named f (xs @ [x], gen')"
  using assms generate_fresh[OF assms(2,3)] by (auto simp: named_def)

lemma add_static_named: "preserves (named si_name) (add_static y i n)"
  by (rule keepsI) (auto simp: add_static_def and_then_eq_Inr split: prod.splits intro!: named_snoc)

lemma add_dynamic_named: "preserves (named di_name) (add_dynamic y i n)"
  by (rule keepsI) (auto simp: add_dynamic_def and_then_eq_Inr Let_def split: prod.splits intro!: named_snoc)

lemma add_random_named: "preserves (named ri_name) (add_random y i n)"
  by (rule keepsI) (auto simp: add_random_def and_then_eq_Inr Let_def split: prod.splits intro!: named_snoc)

lemma add_waypoint_named:
  "preserves (\<lambda>st. named wp_name st \<and> (\<forall>w\<in>set (fst st). 0 < wp_tolerance w)) (add_route_waypoint y route i n)"
  by (rule keepsI) (auto simp: add_route_waypoint_def and_then_eq_Inr split: prod.splits intro!: named_snoc)

section \<open>Routes\<close>

lemma add_waypoint_grows: "add_route_waypoint y route i n st = Inr st' \<Longrightarrow> fst st' \<noteq> []"
  by (auto simp: add_route_waypoint_def and_then_eq_Inr split: prod.splits)

lemma reads_map_last: "reads (map f is) s = Inr s' \<Longrightarrow> is \<noteq> [] \<Longrightarrow> \<exists>i s1. f i s1 = Inr s'"
  by (induction "is" arbitrary: s) (auto simp: and_then_eq_Inr, metis reads.simps(1) list.simps(8) Inr_inject)

lemma for_index_last:
  assumes "for_index y n body s = Inr s'" "y_size y n = Inr m" "m \<noteq> 0"
  shows "\<exists>i c s1. body i c s1 = Inr s'"
proof -
  let ?f = "\<lambda>i s. and_then (thrown (y_index y n i)) (\<lambda>c. body i c s)"
  have "reads (map ?f [0..<m]) s = Inr s'" using assms(1,2) by (simp add: for_index_def thrown_def)
  from reads_map_last[OF this] assms(3) show ?thesis by (auto simp: and_then_eq_Inr)
qed

text \<open>A route with waypoints, each with a name of its own and a tolerance.\<close>

definition route_ok :: "robot_route \<Rightarrow> bool" where
  "route_ok r \<longleftrightarrow> rt_waypoints r \<noteq> [] \<and> distinct (map wp_name (rt_waypoints r)) \<and>
     (\<forall>w\<in>set (rt_waypoints r). wp_name w \<noteq> [] \<and> 0 < wp_tolerance w)"

lemma add_route_ok: "preserves (\<lambda>st. named rt_name st \<and> (\<forall>r\<in>set (fst st). route_ok r)) (add_route y i n)"
proof (rule keepsI)
  fix st st' assume s: "named rt_name st \<and> (\<forall>r\<in>set (fst st). route_ok r)" and r: "add_route y i n st = Inr st'"
  obtain rs gen where st: "st = (rs, gen)" by (cases st)
  obtain d name gen' p c m ws g where g: "generate_name ''route'' d gen = Inr (name, gen')" "y_size y c = Inr m" "m \<noteq> 0"
    "for_index y c (add_route_waypoint y name) ([], empty_names) = Inr (ws, g)"
    "st' = (rs @ [\<lparr>rt_name = name, rt_start = p, rt_waypoints = ws\<rparr>], gen')"
    using r by (auto simp: add_route_def st and_then_eq_Inr)
  have "ws \<noteq> []" using for_index_last[OF g(4,2,3)] add_waypoint_grows by fastforce
  moreover have "preserves (\<lambda>st. named wp_name st \<and> (\<forall>w\<in>set (fst st). 0 < wp_tolerance w)) (for_index y c (add_route_waypoint y name))"
    by (rule for_keeps(1)) (rule add_waypoint_named)
  from keepsD[OF this _ g(4)] have "named wp_name (ws, g) \<and> (\<forall>w\<in>set ws. 0 < wp_tolerance w)" by simp
  ultimately have "route_ok \<lparr>rt_name = name, rt_start = p, rt_waypoints = ws\<rparr>" by (auto simp: route_ok_def named_def)
  moreover have "named rt_name st'" using named_snoc[of rt_name rs gen "''route''" d] s g(1,5) st by simp
  ultimately show "named rt_name st' \<and> (\<forall>r\<in>set (fst st'). route_ok r)" using s st g(5) by auto
qed

section \<open>Maps\<close>

lemma optional_sequence_keeps [keeps_intros]:
  "(\<And>i c. preserves P (body i c)) \<Longrightarrow> preserves P (optional_sequence y n k m ctx body)"
proof -
  assume b: "\<And>i c. preserves P (body i c)"
  have "preserves P (\<lambda>s. and_then (thrown (y_is_sequence y c)) (\<lambda>is_seq. and_then (require is_seq m ctx) (\<lambda>u. for_index y c body s)))" for c
    by (rule keepsI) (auto simp: and_then_eq_Inr dest: keepsD[OF for_keeps(1)[OF b]])
  then show ?thesis unfolding optional_sequence_def by (rule child_keeps(2))
qed

definition map_parsed_ok :: "map_config \<Rightarrow> bool" where
  "map_parsed_ok m \<longleftrightarrow> distinct (map si_name (mc_statics m)) \<and> (\<forall>c\<in>set (mc_statics m). si_name c \<noteq> []) \<and>
     mc_routes m \<noteq> [] \<and> distinct (map rt_name (mc_routes m)) \<and> (\<forall>r\<in>set (mc_routes m). rt_name r \<noteq> [] \<and> route_ok r)"

lemma parse_map_body_ok:
  assumes "parse_map_body y n name = Inr m"
  shows "map_parsed_ok m \<and> mc_name m = name"
proof -
  obtain ss g b rs where p: "optional_sequence y n ''static_instances'' (quoted ''static_instances'' @ '' must be a sequence'') map_context
      (add_static y) ([], empty_names) = Inr (ss, g)" "parse_routes y n = Inr rs"
    "m = \<lparr>mc_name = name, mc_statics = ss, mc_routes = rs, mc_bounds = b\<rparr>"
    using assms by (auto simp: parse_map_body_def and_then_eq_Inr)
  have "preserves (named si_name) (optional_sequence y n ''static_instances'' (quoted ''static_instances'' @ '' must be a sequence'') map_context (add_static y))"
    by (rule optional_sequence_keeps) (rule add_static_named)
  from keepsD[OF this _ p(1)] have ss: "named si_name (ss, g)" by simp
  obtain c g' where r: "for_index y c (add_route y) ([], empty_names) = Inr (rs, g')" "rs \<noteq> []"
    using p(2) by (auto simp: parse_routes_def and_then_eq_Inr)
  have "preserves (\<lambda>st. named rt_name st \<and> (\<forall>r\<in>set (fst st). route_ok r)) (for_index y c (add_route y))"
    by (rule for_keeps(1)) (rule add_route_ok)
  from keepsD[OF this _ r(1)] have "named rt_name (rs, g') \<and> (\<forall>r\<in>set rs. route_ok r)" by simp
  with ss r(2) p(3) show ?thesis by (auto simp: map_parsed_ok_def named_def)
qed

text \<open>The loops of the parser of maps return.\<close>

definition few_names :: "nat \<Rightarrow> 'a list \<times> name_table \<Rightarrow> bool" where
  "few_names i st \<longleftrightarrow> finite (used_names (snd st)) \<and> card (used_names (snd st)) \<le> i"

lemma generate_returns:
  assumes "few_names i (xs, gen)" "i < 2 ^ 32" "fallback \<noteq> []"
  shows "returns (generate_name fallback d gen)"
    "generate_name fallback d gen = Inr (n, gen') \<Longrightarrow> few_names (Suc i) (ys, gen')"
proof -
  have c: "finite (used_names gen)" "card (used_names gen) < 2 ^ 32" "card (used_names gen) \<le> i" using assms by (auto simp: few_names_def)
  show "returns (generate_name fallback d gen)" using generate_name_new[OF c(1,2) assms(3), of d] by (auto simp: returns_def)
  assume "generate_name fallback d gen = Inr (n, gen')"
  from generate_fresh[OF this assms(3)] c show "few_names (Suc i) (ys, gen')" by (simp add: few_names_def)
qed

lemma returns_prod [returns_intros]: "(\<And>a b. p = (a, b) \<Longrightarrow> returns (f a b)) \<Longrightarrow> returns (case p of (a, b) \<Rightarrow> f a b)"
  by (cases p) simp

lemma returns_case_prod_bind:
  "returns r \<Longrightarrow> (\<And>a b. r = Inr (a, b) \<Longrightarrow> returns (f a b)) \<Longrightarrow> returns (and_then r (\<lambda>(a, b). f a b))"
  by (rule returns_and_then) auto

lemma small_returns [returns_intros]:
  "returns (require_key y n k m ctx)" "returns (instance_name y n m ctx)" "returns (read_point y n)" "returns (parse_point2 y n)"
  "returns (parse_pose2 y n)" "returns (route_child y t n k m)"
  by (auto simp: require_key_def instance_name_def read_point_def parse_point2_def parse_pose2_def route_child_def
      intro!: returns_intros split: if_splits)

lemma add_static_few:
  assumes "few_names i st" "i < 2 ^ 32"
  shows "returns (add_static y j n st) \<and> (\<forall>st'. add_static y j n st = Inr st' \<longrightarrow> few_names (Suc i) st')"
proof -
  obtain ss gen where st: "st = (ss, gen)" by (cases st)
  note g = generate_returns[OF assms(1)[unfolded st] assms(2), of "''object''"]
  have "returns (add_static y j n st)"
    unfolding add_static_def st by (simp add: Let_def) (intro returns_intros returns_case_prod_bind g(1), simp)
  moreover have "few_names (Suc i) st'" if "add_static y j n st = Inr st'" for st'
    using that g(2) by (auto simp: add_static_def st and_then_eq_Inr)
  ultimately show ?thesis by blast
qed

lemma add_waypoint_few:
  assumes "few_names i st" "i < 2 ^ 32"
  shows "returns (add_route_waypoint y r j n st) \<and> (\<forall>st'. add_route_waypoint y r j n st = Inr st' \<longrightarrow> few_names (Suc i) st')"
proof -
  obtain ss gen where st: "st = (ss, gen)" by (cases st)
  note g = generate_returns[OF assms(1)[unfolded st] assms(2), of "''waypoint''"]
  have "returns (add_route_waypoint y r j n st)"
    unfolding add_route_waypoint_def st by (simp add: Let_def) (intro returns_intros returns_case_prod_bind g(1), simp)
  moreover have "few_names (Suc i) st'" if "add_route_waypoint y r j n st = Inr st'" for st'
    using that g(2) by (auto simp: add_route_waypoint_def st and_then_eq_Inr)
  ultimately show ?thesis by blast
qed

text \<open>No sequence of the file has more entries than the counters have values.\<close>

definition sizes_fit :: "'y yaml \<Rightarrow> bool" where
  "sizes_fit y \<longleftrightarrow> (\<forall>n k. y_size y n = Inr k \<longrightarrow> k \<le> 2 ^ 32)"

lemma few_mono: "few_names i st \<Longrightarrow> i \<le> j \<Longrightarrow> few_names j st"
  by (auto simp: few_names_def)

lemma few_empty: "few_names 0 ([], empty_names)"
  by (simp add: few_names_def empty_names_def)

lemma for_index_few:
  assumes "sizes_fit y" "\<And>i j c st. few_names i st \<Longrightarrow> i < 2 ^ 32 \<Longrightarrow>
      returns (body j c st) \<and> (\<forall>st'. body j c st = Inr st' \<longrightarrow> few_names (Suc i) st')"
  shows "returns (for_index y n body ([], empty_names))"
  using for_index_counted[of "2 ^ 32" few_names body "([], empty_names)" y n] assms few_empty few_mono
  unfolding sizes_fit_def by blast

lemma add_route_few:
  assumes "sizes_fit y" "few_names i st" "i < 2 ^ 32"
  shows "returns (add_route y j n st) \<and> (\<forall>st'. add_route y j n st = Inr st' \<longrightarrow> few_names (Suc i) st')"
proof -
  obtain ss gen where st: "st = (ss, gen)" by (cases st)
  note g = generate_returns[OF assms(2)[unfolded st] assms(3), of "''route''"]
  have w: "returns (for_index y c (add_route_waypoint y r) ([], empty_names))" for c r
    by (rule for_index_few[OF assms(1) add_waypoint_few])
  have "returns (add_route y j n st)"
    unfolding add_route_def st by (simp add: Let_def) (intro returns_intros returns_case_prod_bind g(1) w, simp)
  moreover have "few_names (Suc i) st'" if "add_route y j n st = Inr st'" for st'
    using that g(2) by (auto simp: add_route_def st and_then_eq_Inr)
  ultimately show ?thesis by blast
qed

lemma parse_map_body_returns:
  assumes "sizes_fit y"
  shows "returns (parse_map_body y n name)"
proof -
  have s: "returns (optional_sequence y n k m ctx (add_static y) ([], empty_names))" for k m ctx
    unfolding optional_sequence_def in_child_def when_has_def
    by (intro returns_intros for_index_few[OF assms add_static_few])
  have r: "returns (for_index y c (add_route y) ([], empty_names))" for c
    by (rule for_index_few[OF assms add_route_few[OF assms]])
  have "returns (parse_bounds y n)" unfolding parse_bounds_def by (intro returns_intros)
  moreover have "returns (parse_routes y n)" unfolding parse_routes_def by (intro returns_intros returns_case_prod_bind r)
  ultimately show ?thesis unfolding parse_map_body_def by (intro returns_intros returns_case_prod_bind s)
qed

section \<open>Libraries\<close>

text \<open>Every profile is in the table under its own name.\<close>

definition library_ok :: "('p \<Rightarrow> string) \<Rightarrow> ('p \<Rightarrow> bool) \<Rightarrow> (string \<Rightarrow> 'p option) \<Rightarrow> bool" where
  "library_ok nm Q dest \<longleftrightarrow> (\<forall>n p. dest n = Some p \<longrightarrow> n \<noteq> [] \<and> nm p = n \<and> Q p)"

lemma load_profile_keeps:
  assumes "lk_fallback kind \<noteq> []"
    "\<And>path p n. lk_load kind path = Some (Inr p) \<Longrightarrow> lk_name kind (lk_rename kind n p) = n \<and> Q (lk_rename kind n p)"
  shows "preserves (\<lambda>lib. library_ok (lk_name kind) Q (fst lib)) (load_profile kind path)"
proof (rule keepsI)
  fix lib lib' :: "'a library"
  assume ok: "library_ok (lk_name kind) Q (fst lib)" and r: "load_profile kind path lib = Inr lib'"
  obtain dest gen where lib: "lib = (dest, gen)" by (cases lib)
  obtain p n gen' where p: "lk_load kind path = Some (Inr p)" "generate_name (lk_fallback kind) (lk_name kind p) gen = Inr (n, gen')"
    "lib' = (dest(n \<mapsto> lk_rename kind n p), gen')"
    using r by (auto simp: load_profile_def lib and_then_eq_Inr split: option.splits sum.splits)
  have "n \<noteq> []" using generate_fresh[OF p(2) assms(1)] by simp
  with ok assms(2)[OF p(1), of n] show "library_ok (lk_name kind) Q (fst lib')" by (auto simp: library_ok_def p(3) lib)
qed

lemma library_parsed:
  assumes "parse_profile_library env kind folder n (Map.empty, empty_names) = Inr (dest, gen)" "lk_fallback kind \<noteq> []"
    "\<And>path p n. lk_load kind path = Some (Inr p) \<Longrightarrow> lk_name kind (lk_rename kind n p) = n \<and> Q (lk_rename kind n p)"
  shows "library_ok (lk_name kind) Q dest"
proof -
  let ?P = "\<lambda>lib. library_ok (lk_name kind) Q (fst lib)"
  have "preserves ?P (load_entry env kind folder i c)" for i c
  proof (rule keepsI)
    fix s s' assume s: "?P s" "load_entry env kind folder i c s = Inr s'"
    then obtain path where "reads (map (load_profile kind) (expand_glob_pattern (pe_fs env) path)) s = Inr s'"
      by (auto simp: load_entry_def Let_def and_then_eq_Inr)
    moreover have "preserves ?P (reads (map (load_profile kind) (expand_glob_pattern (pe_fs env) path)))"
      by (rule reads_keep) (use load_profile_keeps[OF assms(2,3)] in auto)
    ultimately show "?P s'" using s(1) by (simp only: preserves_def)
  qed
  from for_keeps(1)[OF this] have k: "preserves ?P (for_index (pe_yaml env) n (load_entry env kind folder))" .
  have start: "?P (Map.empty, empty_names)" by (simp add: library_ok_def)
  show ?thesis
  proof (cases "y_defined (pe_yaml env) n")
    case True
    then have "for_index (pe_yaml env) n (load_entry env kind folder) (Map.empty, empty_names) = Inr (dest, gen)"
      using assms(1) by (auto simp: parse_profile_library_def Let_def and_then_eq_Inr)
    from keepsD[OF k start this] show ?thesis by simp
  qed (use assms(1) start in \<open>auto simp: parse_profile_library_def Let_def\<close>)
qed

section \<open>Worlds\<close>

text \<open>What the parser does not check of a part: that it has a size, and its height in order.\<close>

definition sized :: "model_part \<Rightarrow> bool" where
  "sized p \<longleftrightarrow> (case base (part_geom p) of Circle r \<Rightarrow> 0 < r | Box2 hx hy \<Rightarrow> 0 < hx \<and> 0 < hy | Polygon2 vs \<Rightarrow> True) \<and>
     z_min (part_geom p) \<le> z_max (part_geom p)"

lemma part_wf_parsed: "polygon_parsed p \<Longrightarrow> part_wf p \<longleftrightarrow> sized p"
  by (auto simp: part_wf_def sized_def polygon_parsed_def split: shape2.split)

definition world_names :: "world_kind \<Rightarrow> string list" where
  "world_names w = (case w of DeterministicWorld ds \<Rightarrow> map di_name ds | RandomWorld gs \<Rightarrow> map ri_name gs)"

lemma parse_world_section_names:
  assumes "parse_world_section y n = Inr w"
  shows "distinct (world_names w) \<and> [] \<notin> set (world_names w)"
proof -
  have k: "preserves (named di_name) (optional_sequence y n k m ctx (add_dynamic y))"
    "preserves (named ri_name) (optional_sequence y n k m ctx (add_random y))" for k m ctx
    by (rule optional_sequence_keeps, rule add_dynamic_named, rule optional_sequence_keeps, rule add_random_named)
  have "(\<exists>ds g k m ctx. w = DeterministicWorld ds \<and> optional_sequence y n k m ctx (add_dynamic y) ([], empty_names) = Inr (ds, g)) \<or>
    (\<exists>gs g k m ctx. w = RandomWorld gs \<and> optional_sequence y n k m ctx (add_random y) ([], empty_names) = Inr (gs, g))"
    using assms by (auto simp: parse_world_section_def Let_def and_then_eq_Inr split: if_splits)
  then show ?thesis
  proof (elim disjE exE conjE)
    fix ds g k m ctx
    assume w: "w = DeterministicWorld ds" "optional_sequence y n k m ctx (add_dynamic y) ([], empty_names) = Inr (ds, g)"
    from keepsD[OF k(1) _ w(2)] have "named di_name (ds, g)" by simp
    then show ?thesis by (auto simp: w(1) world_names_def named_def)
  next
    fix gs g k m ctx
    assume w: "w = RandomWorld gs" "optional_sequence y n k m ctx (add_random y) ([], empty_names) = Inr (gs, g)"
    from keepsD[OF k(2) _ w(2)] have "named ri_name (gs, g)" by simp
    then show ?thesis by (auto simp: w(1) world_names_def named_def)
  qed
qed

lemma parse_robot_named: "parse_robot_config y n = Inr r \<Longrightarrow> robot_name r \<noteq> []"
  by (auto simp: parse_robot_config_def Let_def and_then_eq_Inr dest: generate_fresh)

lemma world_parts:
  assumes "parse_world_config env path = Some (Inr wc)" "counts_items (pe_yaml env)"
  shows "library_ok profile_name (\<lambda>m. \<forall>p\<in>set (parts m). polygon_parsed p) (model_profiles wc)"
    "library_ok dp_name (\<lambda>p. True) (dynamic_profiles wc)"
    "library_ok rp_name (\<lambda>p. \<forall>c\<in>set (profile_sensors p). frame_id (base_config c) \<notin> {''base_link'', ''world'', ''''}) (robot_profiles wc)"
    "distinct (world_names (world_kind wc)) \<and> [] \<notin> set (world_names (world_kind wc))"
    "robot_name (robot_instance wc) \<noteq> []"
proof -
  obtain folder c1 g1 c2 g2 c3 g3 n w where p:
    "parse_profile_library env (model_library env) folder c1 (Map.empty, empty_names) = Inr (model_profiles wc, g1)"
    "parse_profile_library env (dynamic_library env) folder c2 (Map.empty, empty_names) = Inr (dynamic_profiles wc, g2)"
    "parse_profile_library env (robot_library env) folder c3 (Map.empty, empty_names) = Inr (robot_profiles wc, g3)"
    "parse_robot_config (pe_yaml env) n = Inr (robot_instance wc)"
    "parse_world_section (pe_yaml env) w = Inr (world_kind wc)"
    using assms(1) by (auto simp: parse_world_config_def Let_def and_then_eq_Inr)
  have nm: "lk_name (model_library env) = profile_name" "lk_name (dynamic_library env) = dp_name" "lk_name (robot_library env) = rp_name"
    by (simp_all add: model_library_def dynamic_library_def robot_library_def)
  show "library_ok profile_name (\<lambda>m. \<forall>p\<in>set (parts m). polygon_parsed p) (model_profiles wc)"
    unfolding nm(1)[symmetric] by (rule library_parsed[OF p(1)]) (auto simp: model_library_def dest: parse_model_polygons[OF assms(2)])
  show "library_ok dp_name (\<lambda>p. True) (dynamic_profiles wc)"
    unfolding nm(2)[symmetric] by (rule library_parsed[OF p(2)]) (auto simp: dynamic_library_def)
  show "library_ok rp_name (\<lambda>p. \<forall>c\<in>set (profile_sensors p). frame_id (base_config c) \<notin> {''base_link'', ''world'', ''''}) (robot_profiles wc)"
    unfolding nm(3)[symmetric] by (rule library_parsed[OF p(3)]) (use parse_robot_frames in \<open>auto simp: robot_library_def\<close>)
  show "distinct (world_names (world_kind wc)) \<and> [] \<notin> set (world_names (world_kind wc))" by (rule parse_world_section_names[OF p(5)])
  show "robot_name (robot_instance wc) \<noteq> []" by (rule parse_robot_named[OF p(4)])
qed

section \<open>Patterns\<close>

text \<open>What a pattern means, without the regular expression in between.\<close>

inductive glob_matches :: "string \<Rightarrow> string \<Rightarrow> bool" where
  nothing: "glob_matches [] []"
| run: "\<forall>c\<in>set u. \<not> line_end c \<Longrightarrow> glob_matches g s \<Longrightarrow> glob_matches (CHR ''*'' # g) (u @ s)"
| one: "\<not> line_end c \<Longrightarrow> glob_matches g s \<Longrightarrow> glob_matches (CHR ''?'' # g) (c # s)"
| exactly: "d \<notin> {CHR ''*'', CHR ''?''} \<Longrightarrow> lower_char d = lower_char c \<Longrightarrow> glob_matches g s \<Longrightarrow> glob_matches (d # g) (c # s)"

inductive_cases glob_matches_Nil: "glob_matches [] s"
inductive_cases glob_matches_Cons: "glob_matches (d # g) s"

definition item_of :: "char \<Rightarrow> regex_item" where
  "item_of c = (if c = CHR ''*'' then AnyRun else if c = CHR ''?'' then AnyOne else Exactly c)"

lemma special_chars: "CHR ''.'' \<in> regex_special" "CHR 0x5C \<in> regex_special" "CHR ''*'' \<notin> regex_special" "CHR ''?'' \<notin> regex_special"
  by (simp_all add: regex_special_def)

lemma no_star_first: "concat (map regex_of_char g) = d # s \<Longrightarrow> d \<noteq> CHR ''*''"
  using special_chars by (cases g) (auto simp: regex_of_char_def split: if_splits)

text \<open>Escaping is undone by compiling: the items of a pattern are those of its characters.\<close>

lemma compile_concat: "compile_items (concat (map regex_of_char g)) = map item_of g"
proof (induction g)
  case (Cons c g)
  let ?r = "concat (map regex_of_char g)"
  show ?case
  proof (cases "c = CHR ''*'' \<or> c \<in> regex_special")
    case True
    then show ?thesis using Cons special_chars by (auto simp: regex_of_char_def item_of_def)
  next
    case False
    let ?d = "if c = CHR ''?'' then CHR ''.'' else c"
    have d: "regex_of_char c = [?d]" "?d \<noteq> CHR 0x5C" "?d = CHR ''.'' \<longleftrightarrow> c = CHR ''?''"
      using False special_chars by (auto simp: regex_of_char_def)
    show ?thesis
    proof (cases ?r)
      case Nil
      then have "g = []" by (cases g) (auto simp: regex_of_char_def split: if_splits)
      then show ?thesis using False d special_chars by (auto simp: item_of_def)
    next
      case (Cons e s)
      then show ?thesis using False d Cons.IH no_star_first[OF Cons] special_chars by (auto simp: item_of_def)
    qed
  qed
qed simp

lemma compile_glob: "compile_regex (glob_to_regex g) = map item_of g"
  by (simp add: compile_regex_def glob_to_regex_def compile_concat butlast_append)

lemma match_run: "\<forall>c\<in>set u. \<not> line_end c \<Longrightarrow> regex_match r s \<Longrightarrow> regex_match (AnyRun # r) (u @ s)"
  by (induction u) auto

lemma match_run_iff: "regex_match (AnyRun # r) s \<longleftrightarrow> (\<exists>u t. s = u @ t \<and> (\<forall>c\<in>set u. \<not> line_end c) \<and> regex_match r t)"
proof
  show "regex_match (AnyRun # r) s \<Longrightarrow> \<exists>u t. s = u @ t \<and> (\<forall>c\<in>set u. \<not> line_end c) \<and> regex_match r t"
  proof (induction s)
    case (Cons c s)
    show ?case
    proof (cases "regex_match r (c # s)")
      case False
      with Cons obtain u t where "s = u @ t" "\<forall>c\<in>set u. \<not> line_end c" "regex_match r t" "\<not> line_end c" by auto
      then show ?thesis by (intro exI[of _ "c # u"] exI[of _ t]) simp
    qed fastforce
  qed fastforce
next
  assume "\<exists>u t. s = u @ t \<and> (\<forall>c\<in>set u. \<not> line_end c) \<and> regex_match r t"
  then show "regex_match (AnyRun # r) s" using match_run by blast
qed

lemma item_of_simps: "item_of (CHR ''*'') = AnyRun" "item_of (CHR ''?'') = AnyOne" "d \<notin> {CHR ''*'', CHR ''?''} \<Longrightarrow> item_of d = Exactly d"
  by (simp_all add: item_of_def)

lemma match_glob: "regex_match (map item_of g) s \<longleftrightarrow> glob_matches g s"
proof (induction g arbitrary: s)
  case Nil
  show ?case by (auto intro: glob_matches.nothing elim: glob_matches_Nil)
next
  case (Cons d g)
  show ?case
  proof
    assume m: "regex_match (map item_of (d # g)) s"
    consider "d = CHR ''*''" | "d = CHR ''?''" | "d \<notin> {CHR ''*'', CHR ''?''}" by auto
    then show "glob_matches (d # g) s"
    proof cases
      case 1
      then have "regex_match (AnyRun # map item_of g) s" using m by (simp add: item_of_def)
      then obtain u t where "s = u @ t" "\<forall>c\<in>set u. \<not> line_end c" "regex_match (map item_of g) t" unfolding match_run_iff by blast
      then show ?thesis using Cons 1 by (auto intro: glob_matches.run)
    next
      case 2
      then obtain c t where "s = c # t" "\<not> line_end c" "regex_match (map item_of g) t"
        using m by (cases s) (auto simp: item_of_simps)
      then show ?thesis using Cons 2 by (auto intro: glob_matches.one)
    next
      case 3
      then obtain c t where "s = c # t" "lower_char d = lower_char c" "regex_match (map item_of g) t"
        using m by (cases s) (auto simp: item_of_simps)
      then show ?thesis using Cons 3 by (auto intro: glob_matches.exactly)
    qed
  next
    assume "glob_matches (d # g) s"
    then show "regex_match (map item_of (d # g)) s"
    proof (rule glob_matches_Cons, goal_cases)
      case (1 u t)
      then have "regex_match (AnyRun # map item_of g) s" using Cons unfolding match_run_iff by blast
      with 1 show ?case by (simp add: item_of_simps)
    qed (use Cons in \<open>auto simp: item_of_simps\<close>)
  qed
qed

section \<open>Files to try the properties on\<close>

definition demo_fs :: file_system where
  "demo_fs = \<lparr>fs_is_directory = (\<lambda>d. True), fs_files = (\<lambda>d. ([''car.yaml'', ''notes.txt'', ''Bus.YAML''], False)), fs_absolute = id,
     fs_canonical = Inr, fs_weakly_canonical = Inr, fs_join = (\<lambda>d f. f), fs_parent = (\<lambda>p. []), fs_filename = id\<rparr>"

definition demo_waypoint_tree :: tree where
  "demo_waypoint_tree = TMap [(''name'', TText ''gate''), (''pos'', TSeq [TNum 3, TNum 4])]"

definition demo_map_tree :: tree where
  "demo_map_tree = TMap
     [(''name'', TText ''yard''), (''bounds'', TMap [(''max'', TSeq [TNum 9, TNum 9])]),
      (''robot_routes'', TSeq [TMap [(''name'', TText ''loop''), (''start'', TMap []), (''waypoints'', TSeq [demo_waypoint_tree, demo_waypoint_tree])]])]"

definition demo_model_tree :: tree where
  "demo_model_tree = TMap [(''name'', TText ''car''), (''parts'', TSeq [TMap [(''geom'', TMap [(''type'', TText ''circle''), (''radius'', TNum 1)])]])]"

definition demo_robot_tree :: tree where
  "demo_robot_tree = TMap [(''name'', TText ''bot''), (''model_id'', TText ''car''),
     (''sensors'', TSeq [TMap [(''type'', TText ''lidar_2d''), (''id'', TText ''front'')]])]"

definition demo_world_tree :: tree where
  "demo_world_tree = TMap
     [(''model_profiles'', TSeq [TText ''car.yaml'']), (''robot_profiles'', TSeq [TText ''bot.yaml'']),
      (''robot'', TMap [(''robot_profile_id'', TText ''bot'')]), (''world'', TMap [(''type'', TText ''random'')])]"

definition demo_yaml :: "tree yaml" where
  "demo_yaml = tree_yaml (\<lambda>p. if p = ''car.yaml'' then Inr demo_model_tree else if p = ''bot.yaml'' then Inr demo_robot_tree
     else if p = ''world.yaml'' then Inr demo_world_tree else if p = ''yard.yaml'' then Inr demo_map_tree else Inl ''bad file'')"

definition demo_parse_env :: "tree parse_env" where
  "demo_parse_env = \<lparr>pe_yaml = demo_yaml, pe_fs = demo_fs, stale_caps = zero_caps,
     stale_kin = \<lparr>caps_fwd = zero_caps, caps_rev = zero_caps, wheel_base = 1, max_steer_angle = 1, max_steer_rate = 1, min_turn_radius = 1, gear_hold_time_s = 0\<rparr>,
     stale_dyn = \<lparr>dp_name = [], follow = LinearConst \<lparr>lin_caps = zero_caps, lin_speed_min = 0, lin_speed_max = 0\<rparr>, local_points = [], reached_pos_tol = 0, wp_loop = False\<rparr>\<rparr>"

lemma demo_sizes_fit: "sizes_fit (tree_yaml files)"
  unfolding sizes_fit_def
proof (intro allI impI)
  fix n k assume "y_size (tree_yaml files) n = Inr k"
  then show "k \<le> 2 ^ 32" by (cases n) (auto simp: tree_yaml_def split: if_splits)
qed

lemma demo_counts_items: "counts_items (tree_yaml files)"
  unfolding counts_items_def
proof (intro allI impI)
  fix n m cs assume "y_is_sequence (tree_yaml files) n = Inr True" "y_size (tree_yaml files) n = Inr m" "y_items (tree_yaml files) n = Inr cs"
  then show "length cs = m" by (cases n) (auto simp: tree_yaml_def split: if_splits)
qed

section \<open>Properties\<close>

text \<open>C29: The parser of maps returns, and a map it accepts is complete: its name is new for the parser,
  it has a route, every route has a waypoint, the names of the instances, of the routes and of the
  waypoints of a route are unique and not empty, and every tolerance is positive.\<close>

theorem map_parser_correct:
  assumes "sizes_fit y" "finite (used_names gen)" "card (used_names gen) < 2 ^ 32"
  shows "\<exists>r. fst (parse_map_config y path gen) = Some r \<and>
    (\<forall>m. r = Inr m \<longrightarrow>
       mc_name m \<noteq> [] \<and> mc_name m \<notin> used_names gen \<and> used_names (snd (parse_map_config y path gen)) = insert (mc_name m) (used_names gen) \<and>
       distinct (map si_name (mc_statics m)) \<and> (\<forall>c\<in>set (mc_statics m). si_name c \<noteq> []) \<and>
       mc_routes m \<noteq> [] \<and> distinct (map rt_name (mc_routes m)) \<and>
       (\<forall>r\<in>set (mc_routes m). rt_name r \<noteq> [] \<and> rt_waypoints r \<noteq> [] \<and> distinct (map wp_name (rt_waypoints r)) \<and>
          (\<forall>w\<in>set (rt_waypoints r). wp_name w \<noteq> [] \<and> 0 < wp_tolerance w)))"
proof -
  let ?h = "and_then (thrown (y_load_file y path)) (\<lambda>n. and_then (skip y n ''version'' ()) (\<lambda>u.
      and_then (pick as_string y n ''name'' ''unnamed_map'') (\<lambda>d. and_then (generate_name ''default_map'' d gen) (\<lambda>(name, gen'). Inr (n, name, gen')))))"
  have g: "returns (generate_name ''default_map'' d gen)" for d
    using generate_name_new[OF assms(2,3), of "''default_map''" d] by (auto simp: returns_def)
  have h: "returns ?h" by (intro returns_intros returns_case_prod_bind g)
  show ?thesis
  proof (cases ?h)
    case (Inl f)
    then have p: "parse_map_config y path gen = (caught map_context (Inl f), gen)" by (simp add: parse_map_config_def)
    have "returns (Inl f :: parse_failure + map_config)" using h Inl by (simp add: returns_def)
    from caught_returns[OF this, of map_context] obtain r :: "error + map_config" where r: "caught map_context (Inl f) = Some r" by blast
    have "r \<noteq> Inr m" for m using r caught_Inr[of map_context "Inl f" m] by auto
    with p r show ?thesis by auto
  next
    case (Inr v)
    obtain n name gen' where v: "v = (n, name, gen')" by (cases v)
    then obtain d where d: "generate_name ''default_map'' d gen = Inr (name, gen')" using Inr by (auto simp: and_then_eq_Inr)
    have p: "parse_map_config y path gen = (caught map_context (parse_map_body y n name), gen')" using Inr v by (simp add: parse_map_config_def)
    obtain r where r: "caught map_context (parse_map_body y n name) = Some r" using caught_returns[OF parse_map_body_returns[OF assms(1)]] by blast
    have "map_parsed_ok m \<and> mc_name m = name" if "r = Inr m" for m using r that parse_map_body_ok[of y n name m] by simp
    with p r generate_fresh[OF d] show ?thesis by (auto simp: map_parsed_ok_def route_ok_def)
  qed
qed

text \<open>The second waypoint of the same name gets a suffix.\<close>

lemmas demo_parsers = optional_sequence_def parse_bounds_def parse_routes_def add_route_def route_child_def require_key_def
  add_route_waypoint_def parse_point2_def parse_pose2_def read_point_def Let_def

lemmas demo_world_parsers = parse_world_config_def parse_collision_categories_def parse_profile_library_def model_library_def
  dynamic_library_def robot_library_def load_entry_def resolve_path_def load_profile_def expand_glob_pattern_def parse_robot_config_def
  parse_world_section_def parse_model_profile_def parse_model_part_def parse_shape_def parse_material_def parse_robot_profile_def
  add_sensor_def parse_sensor_base_def parse_lidar_2d_def

theorem map_parser_correct_witness:
  "\<exists>m r. fst (parse_map_config demo_yaml ''yard.yaml'' empty_names) = Some (Inr m) \<and> mc_name m = ''yard'' \<and> mc_routes m = [r] \<and>
     distinct (map wp_name (rt_waypoints r)) \<and> length (rt_waypoints r) = 2"
proof -
  have e: "finite (used_names empty_names)" "card (used_names empty_names) < 2 ^ 32" by (simp_all add: empty_names_def)
  have "sizes_fit demo_yaml" unfolding demo_yaml_def by (rule demo_sizes_fit)
  from map_parser_correct[OF this e, of "''yard.yaml''"] obtain r where
    r: "fst (parse_map_config demo_yaml ''yard.yaml'' empty_names) = Some r"
    "\<And>m r'. r = Inr m \<Longrightarrow> r' \<in> set (mc_routes m) \<Longrightarrow> distinct (map wp_name (rt_waypoints r'))" by blast
  have g: "fresh_loop ''gate'' {''gate''} 1 = Some (''gate-1'', 2)"
    by (subst fresh_loop.simps) (simp add: suffixed_def digits.simps digit_char_def char_of_def bit_0)
  have "\<exists>m r'. fst (parse_map_config demo_yaml ''yard.yaml'' empty_names) = Some (Inr m) \<and> mc_name m = ''yard'' \<and> mc_routes m = [r'] \<and> length (rt_waypoints r') = 2"
    by (simp add: parse_map_config_def parse_map_body_def demo_parsers read_defs tree_defs demo_yaml_def demo_map_tree_def demo_waypoint_tree_def
        generate_name_def empty_names_def count_from_one_def g)
  with r show ?thesis by auto
qed



text \<open>C33: The expansion of a pattern gives the path itself when it has no wildcard; otherwise, with a
  directory that is listed without an error, it gives in order exactly the files of the directory
  whose names match the pattern: a star stands for any characters, a question mark for one, any
  other character for itself without regard to case. The regular expression in between, with its
  escapes, does not show.\<close>

theorem glob_expansion_exact:
  "let dir = (if fs_parent fs pat = [] then ''.'' else fs_parent fs pat)
   in if CHR ''*'' \<notin> set pat \<and> CHR ''?'' \<notin> set pat then expand_glob_pattern fs pat = [pat]
      else set (expand_glob_pattern fs pat) =
          (if fs_is_directory fs dir then {fs_join fs dir f | f. f \<in> set (fst (fs_files fs dir)) \<and> glob_matches (fs_filename fs pat) f} else {}) \<and>
        (snd (fs_files fs dir) \<or> sorted (expand_glob_pattern fs pat))"
  by (auto simp: expand_glob_pattern_def Let_def compile_glob match_glob case_prod_beta)

text \<open>The names are in the order of their bytes, upper case first.\<close>

lemma glob_example: "expand_glob_pattern demo_fs ''*.yaml'' = [''Bus.YAML'', ''car.yaml'']"
  by code_simp

lemma sim_parser_returns: "returns (parse_timing y n s)" "returns (parse_spawn y n sp)" "returns (parse_curriculum y n s)"
proof -
  show "returns (parse_timing y n s)" unfolding parse_timing_def by (intro returns_intros)
  have "returns (parse_angular y c a)" "returns (parse_distance y c d)" "returns (parse_occlusion y c oc)" "returns (parse_overrides y c ov)" for c a d oc ov
    unfolding parse_angular_def parse_distance_def parse_occlusion_def parse_overrides_def by (intro returns_intros)+
  note small = this
  show "returns (parse_spawn y n sp)" unfolding parse_spawn_def by (intro returns_intros small)
  have "returns (parse_phase y on i c)" for on i c unfolding parse_phase_def by (intro returns_intros small)
  then have "returns (add_phase y i c u)" for i c u unfolding add_phase_def by (intro returns_intros)
  then have "returns (parse_phases y c u)" for c u unfolding parse_phases_def by (intro returns_intros)
  then show "returns (parse_curriculum y n s)"
    unfolding parse_curriculum_def curriculum_missing_def phases_listed_def by (intro returns_intros)
qed

text \<open>C31: The parser of the simulator configuration returns for every file. A file that cannot be
  loaded gives an error with the text of the exception, a file without the section of the spawn
  manager an error; and in a configuration that is accepted with the curriculum enabled every phase
  has maps.\<close>

theorem simulator_parser_correct:
  "\<exists>r. parse_simulator_config y path = Some r \<and>
     (\<forall>what. y_load_file y path = Inl what \<longrightarrow> r = Inl (make_error CONFIG what ''parse_simulator_config'')) \<and>
     (\<forall>n c. y_load_file y path = Inr n \<and> y_key y n ''spawn_manager'' = Inr c \<and> \<not> y_defined y c \<longrightarrow> (\<exists>e. r = Inl e)) \<and>
     (\<forall>s. r = Inr s \<and> curriculum_enabled s \<longrightarrow> (\<forall>ph\<in>set (curriculum_phases s). ph_maps ph \<noteq> []))"
proof -
  have "\<exists>r. parse_simulator_config y path = Some r"
    unfolding parse_simulator_config_def by (intro caught_returns returns_intros sim_parser_returns)
  then obtain r where r: "parse_simulator_config y path = Some r" by blast
  have "r = Inl (make_error CONFIG what ''parse_simulator_config'')" if "y_load_file y path = Inl what" for what
    using r that by (simp add: parse_simulator_config_def thrown_def caught_def sim_context_def)
  moreover have "\<exists>e. r = Inl e" if "y_load_file y path = Inr n \<and> y_key y n ''spawn_manager'' = Inr c \<and> \<not> y_defined y c" for n c
  proof (cases r)
    case (Inr s)
    then have "parse_simulator_config y path = Some (Inr s)" using r by simp
    with that show ?thesis by (auto simp: parse_simulator_config_def and_then_eq_Inr key_def defined_and_def)
  qed simp
  moreover have "\<forall>ph\<in>set (curriculum_phases s). ph_maps ph \<noteq> []" if "r = Inr s \<and> curriculum_enabled s" for s
    using parsed_phases_ok[of y path s] r that by (simp add: phases_ok_def)
  ultimately show ?thesis using r by blast
qed

definition demo_sim_tree :: "tree list \<Rightarrow> tree" where
  "demo_sim_tree phases = TMap [(''spawn_manager'', TMap [(''curriculum'', TMap [(''enabled'', TFlag True), (''phases'', TSeq phases)])])]"

lemmas demo_sim_parsers = parse_simulator_config_def parse_timing_def parse_spawn_def parse_curriculum_def curriculum_missing_def
  phases_listed_def in_sequence_def parse_phases_def add_phase_def parse_phase_def default_sim_config_def default_phase_def
  demo_sim_tree_def read_defs tree_defs caught_def

theorem simulator_parser_correct_witness:
  "\<exists>s ph. parse_simulator_config (tree_yaml (\<lambda>p. Inr (demo_sim_tree [TMap [(''maps'', TSeq [TText ''m''])]]))) ''sim.yaml'' = Some (Inr s) \<and>
     curriculum_phases s = [ph] \<and> ph_maps ph \<noteq> []"
proof -
  let ?y = "tree_yaml (\<lambda>p. Inr (demo_sim_tree [TMap [(''maps'', TSeq [TText ''m''])]]))"
  have "\<exists>s ph. parse_simulator_config ?y ''sim.yaml'' = Some (Inr s) \<and> curriculum_enabled s \<and> curriculum_phases s = [ph]"
    by (simp add: demo_sim_parsers)
  with simulator_parser_correct[of ?y "''sim.yaml''"] show ?thesis by fastforce
qed

text \<open>A curriculum whose phases are no mappings is accepted as enabled although it has no phase; every reset then fails.\<close>

lemma empty_curriculum_accepted:
  "\<exists>s. parse_simulator_config (tree_yaml (\<lambda>p. Inr (demo_sim_tree [TText ''easy'']))) ''sim.yaml'' = Some (Inr s) \<and>
     curriculum_enabled s \<and> curriculum_phases s = []"
  by (simp add: demo_sim_parsers)

end
