(* ===== verification/WorkerConfig.thy ===== *)
theory WorkerConfig
  imports ConfigRL "HOL-Library.Signed_Division"
begin

text \<open>
  The configuration of a worker, \<^verbatim>\<open>apps/worker/src/config.cpp\<close>: environment variables in texts, the
  parser, the overrides of the command line; and the threads that \<^verbatim>\<open>Worker::init\<close> of
  \<^verbatim>\<open>worker.cpp\<close> allots. The process environment is a function from names to values.
\<close>

section \<open>Environment variables\<close>

function expand_env :: "(string \<Rightarrow> string option) \<Rightarrow> string \<Rightarrow> string" where
  "expand_env getenv [] = []"
| "expand_env getenv (c # cs) =
     (if c = CHR ''$'' \<and> cs \<noteq> [] \<and> hd cs = CHR ''{''
      then (case find_char (CHR ''}'') (tl cs) of
              Some e \<Rightarrow>
                (let k = take e (tl cs); value = (if k = [] then None else getenv k); placeholder = take (e + 3) (c # cs)
                 in (case value of Some v \<Rightarrow> v | None \<Rightarrow> placeholder) @ expand_env getenv (drop (e + 3) (c # cs)))
            | None \<Rightarrow> c # expand_env getenv cs)
      else c # expand_env getenv cs)"
  by pat_completeness auto

termination by (relation "measure (\<lambda>(g, s). length s)") auto

section \<open>Configuration\<close>

datatype demo_mode = OFF | RECORD_ONLY | STREAM_AND_RECORD

record demo_settings =
  dm_mode :: demo_mode
  dm_output_dir :: string
  dm_max_files :: "32 word"

record coordinator_cfg =
  co_target :: string
  co_identity :: string
  co_hostname :: string
  co_version :: string
  co_capabilities :: "(string \<times> string) list"
  co_labels :: "string \<Rightarrow> string option"

record worker_config =
  wk_num_sims :: "16 word"
  wk_num_raycast :: "16 word"
  wk_visualize :: bool
  wk_real_time_factor :: real
  wk_sim_path :: string
  wk_world_path :: string
  wk_viz_path :: string
  wk_standalone :: bool
  wk_map_directory :: string
  wk_unroll_length :: nat
  wk_max_batch :: nat
  wk_onnx_path :: string
  wk_deterministic :: bool
  wk_policy :: policy_type
  wk_arch_path :: string
  wk_reward_path :: string
  wk_rl_path :: string
  wk_buffer_size :: nat
  wk_coordinator :: coordinator_cfg
  wk_demos :: demo_settings

definition default_coordinator :: coordinator_cfg where
  "default_coordinator = \<lparr>co_target = ''127.0.0.1:5700'', co_identity = [], co_hostname = [], co_version = [], co_capabilities = [],
     co_labels = Map.empty\<rparr>"

definition default_worker_config :: worker_config where
  "default_worker_config = \<lparr>wk_num_sims = 0, wk_num_raycast = 0, wk_visualize = True, wk_real_time_factor = 1, wk_sim_path = [], wk_world_path = [],
     wk_viz_path = [], wk_standalone = False, wk_map_directory = ''config/map'', wk_unroll_length = 20, wk_max_batch = 32, wk_onnx_path = [],
     wk_deterministic = False, wk_policy = RANDOM, wk_arch_path = [], wk_reward_path = [], wk_rl_path = [], wk_buffer_size = 1000,
     wk_coordinator = default_coordinator, wk_demos = \<lparr>dm_mode = OFF, dm_output_dir = ''data/demos'', dm_max_files = 20000\<rparr>\<rparr>"

section \<open>The parser\<close>

definition worker_context :: string where "worker_context = make_context ''parse_worker_config'' []"

definition parse_policy_type :: "string \<Rightarrow> parse_failure + policy_type" where
  "parse_policy_type s =
     (if s = ''random'' then Inr RANDOM
      else if s = ''neural_network'' then Inr NEURAL_NETWORK
      else if s = ''expert'' then Inr EXPERT
      else reject (''Unknown policy_type: '' @ s) worker_context)"

definition parse_demo_mode :: "string \<Rightarrow> parse_failure + demo_mode" where
  "parse_demo_mode s =
     (if s = ''off'' then Inr OFF
      else if s = ''record_only'' then Inr RECORD_ONLY
      else if s = ''stream_and_record'' then Inr STREAM_AND_RECORD
      else reject (''Unknown demos.mode: '' @ s) worker_context)"

text \<open>The library, the file system and the process environment; the directory of the file.\<close>

record 'y worker_parse_env =
  wpe_yaml :: "'y yaml"
  wpe_fs :: file_system
  wpe_getenv :: "string \<Rightarrow> string option"

definition canonical_in :: "file_system \<Rightarrow> string \<Rightarrow> string \<Rightarrow> parse_failure + string" where
  "canonical_in fs dir p = thrown (fs_canonical fs (fs_join fs dir p))"

definition weakly_canonical_in :: "file_system \<Rightarrow> string \<Rightarrow> string \<Rightarrow> parse_failure + string" where
  "weakly_canonical_in fs dir p = thrown (fs_weakly_canonical fs (fs_join fs dir p))"

definition parse_worker_paths :: "'y worker_parse_env \<Rightarrow> string \<Rightarrow> 'y \<Rightarrow> worker_config read" where
  "parse_worker_paths env dir n s = (let y = wpe_yaml env; fs = wpe_fs env in
     and_then (need as_string y n ''sim_config_path'') (\<lambda>p1.
     and_then (need as_string y n ''world_config_path'') (\<lambda>p2.
     and_then (need as_string y n ''visualizer_config_path'') (\<lambda>p3.
     and_then (need as_string y n ''map_directory'') (\<lambda>p4.
     and_then (canonical_in fs dir p1) (\<lambda>c1.
     and_then (canonical_in fs dir p2) (\<lambda>c2.
     and_then (canonical_in fs dir p3) (\<lambda>c3.
     and_then (canonical_in fs dir p4) (\<lambda>c4.
     Inr (s\<lparr>wk_sim_path := c1, wk_world_path := c2, wk_viz_path := c3, wk_map_directory := c4\<rparr>))))))))))"

definition parse_onnx :: "'y worker_parse_env \<Rightarrow> string \<Rightarrow> 'y \<Rightarrow> worker_config read" where
  "parse_onnx env dir n = (let y = wpe_yaml env in when_has y n ''policy_onnx_path'' (\<lambda>s.
     and_then (need as_string y n ''policy_onnx_path'') (\<lambda>p.
     let rel = expand_env (wpe_getenv env) p
     in if rel = [] then Inr s else and_then (canonical_in (wpe_fs env) dir rel) (\<lambda>c. Inr (s\<lparr>wk_onnx_path := c\<rparr>)))))"

text \<open>The separate files are read when they are given, or when there is no file for the whole.\<close>

definition parse_learning_paths :: "'y worker_parse_env \<Rightarrow> string \<Rightarrow> 'y \<Rightarrow> worker_config read" where
  "parse_learning_paths env dir n = (let y = wpe_yaml env; fs = wpe_fs env; expand = expand_env (wpe_getenv env) in reads
     [when_has y n ''rl_config_path'' (\<lambda>s.
        and_then (need as_string y n ''rl_config_path'') (\<lambda>p.
        and_then (canonical_in fs dir (expand p)) (\<lambda>c. Inr (s\<lparr>wk_rl_path := c\<rparr>)))),
      (\<lambda>s. and_then (has y n ''policy_arch_config_path'') (\<lambda>b.
        if b \<or> wk_rl_path s = [] then
          and_then (pick as_string y n ''policy_arch_config_path'' ''policy_arch.yaml'') (\<lambda>p.
          and_then (canonical_in fs dir (expand p)) (\<lambda>c. Inr (s\<lparr>wk_arch_path := c\<rparr>)))
        else Inr s)),
      (\<lambda>s. and_then (has y n ''reward_config_path'') (\<lambda>b.
        if b \<or> wk_rl_path s = [] then
          and_then (pick as_string y n ''reward_config_path'' ''rl_reward.yaml'') (\<lambda>p.
          and_then (canonical_in fs dir (expand p)) (\<lambda>c. Inr (s\<lparr>wk_reward_path := c\<rparr>)))
        else Inr s))])"

definition parse_demos :: "'y worker_parse_env \<Rightarrow> string \<Rightarrow> 'y \<Rightarrow> demo_settings read" where
  "parse_demos env dir n s = (let y = wpe_yaml env; fs = wpe_fs env in
     and_then (has y n ''demos'') (\<lambda>b.
     if b then
       and_then (key y n ''demos'') (\<lambda>d.
       and_then (pick as_string y d ''mode'' ''off'') (\<lambda>m.
       and_then (parse_demo_mode m) (\<lambda>mode.
       and_then (has y d ''output_dir'') (\<lambda>given.
       and_then (if given then and_then (pick as_string y d ''output_dir'' (dm_output_dir s)) (\<lambda>p. Inr (expand_env (wpe_getenv env) p))
                 else Inr (dm_output_dir s)) (\<lambda>rel.
       and_then (weakly_canonical_in fs dir rel) (\<lambda>c.
       and_then (pick as_u32 y d ''max_files'' (dm_max_files s)) (\<lambda>k.
       Inr \<lparr>dm_mode = mode, dm_output_dir = c, dm_max_files = k\<rparr>)))))))
     else and_then (weakly_canonical_in fs dir (dm_output_dir s)) (\<lambda>c. Inr (s\<lparr>dm_output_dir := c\<rparr>))))"

definition set_expanded :: "'y worker_parse_env \<Rightarrow> 'y \<Rightarrow> string \<Rightarrow> ('s \<Rightarrow> string) \<Rightarrow> (string \<Rightarrow> 's \<Rightarrow> 's) \<Rightarrow> 's read" where
  "set_expanded env n k get upd = (let y = wpe_yaml env in when_has y n k (\<lambda>s.
     and_then (pick as_string y n k (get s)) (\<lambda>v. Inr (upd (expand_env (wpe_getenv env) v) s))))"

text \<open>The entries of a mapping, with their values expanded. An assignment reads the value before the key.\<close>

definition read_entry :: "'y worker_parse_env \<Rightarrow> 'y \<times> 'y \<Rightarrow> parse_failure + (string \<times> string)" where
  "read_entry env p = (let y = wpe_yaml env in
     and_then (thrown (as_string y (fst p))) (\<lambda>k.
     and_then (thrown (as_string y (snd p))) (\<lambda>v. Inr (k, expand_env (wpe_getenv env) v))))"

definition read_label :: "'y worker_parse_env \<Rightarrow> 'y \<times> 'y \<Rightarrow> parse_failure + (string \<times> string)" where
  "read_label env p = (let y = wpe_yaml env in
     and_then (thrown (as_string y (snd p))) (\<lambda>v.
     and_then (thrown (as_string y (fst p))) (\<lambda>k. Inr (k, expand_env (wpe_getenv env) v))))"

definition for_entries :: "'y worker_parse_env \<Rightarrow> 'y \<Rightarrow> string \<Rightarrow> ('y \<times> 'y \<Rightarrow> parse_failure + (string \<times> string)) \<Rightarrow>
    (string \<times> string \<Rightarrow> 's \<Rightarrow> 's) \<Rightarrow> 's read" where
  "for_entries env n k get_pair add = (let y = wpe_yaml env in in_map y n k (\<lambda>c s.
     and_then (thrown (y_pairs y c)) (\<lambda>ps. reads (map (\<lambda>p s. and_then (get_pair p) (\<lambda>kv. Inr (add kv s))) ps) s)))"

definition parse_coordinator :: "'y worker_parse_env \<Rightarrow> 'y \<Rightarrow> coordinator_cfg read" where
  "parse_coordinator env n = in_child (wpe_yaml env) n ''coordinator'' (\<lambda>c. reads
     [set_expanded env c ''target'' co_target (\<lambda>v s. s\<lparr>co_target := v\<rparr>),
      set_expanded env c ''worker_identity'' co_identity (\<lambda>v s. s\<lparr>co_identity := v\<rparr>),
      set_expanded env c ''hostname'' co_hostname (\<lambda>v s. s\<lparr>co_hostname := v\<rparr>),
      set_expanded env c ''version'' co_version (\<lambda>v s. s\<lparr>co_version := v\<rparr>),
      for_entries env c ''capabilities'' (read_entry env) (\<lambda>kv s. s\<lparr>co_capabilities := co_capabilities s @ [kv]\<rparr>),
      for_entries env c ''labels'' (read_label env) (\<lambda>kv s. s\<lparr>co_labels := (co_labels s)(fst kv \<mapsto> snd kv)\<rparr>)])"

definition parse_worker_tree :: "'y worker_parse_env \<Rightarrow> string \<Rightarrow> 'y \<Rightarrow> parse_failure + worker_config" where
  "parse_worker_tree env dir n = (let y = wpe_yaml env in reads
     [set_or as_u16 y n ''num_sim_instances'' 0 (\<lambda>v s. s\<lparr>wk_num_sims := v\<rparr>),
      set_or as_u16 y n ''num_raycast_threads'' 0 (\<lambda>v s. s\<lparr>wk_num_raycast := v\<rparr>),
      set_or as_bool y n ''enable_visualization'' True (\<lambda>v s. s\<lparr>wk_visualize := v\<rparr>),
      set_or as_double y n ''real_time_factor'' 1 (\<lambda>v s. s\<lparr>wk_real_time_factor := v\<rparr>),
      parse_worker_paths env dir n,
      set_or as_size y n ''unroll_length'' 20 (\<lambda>v s. s\<lparr>wk_unroll_length := v\<rparr>),
      set_or as_size y n ''max_batch_rollouts'' 32 (\<lambda>v s. s\<lparr>wk_max_batch := v\<rparr>),
      set_or as_bool y n ''deterministic_policy_eval'' False (\<lambda>v s. s\<lparr>wk_deterministic := v\<rparr>),
      parse_onnx env dir n,
      (\<lambda>s. and_then (pick as_string y n ''policy_type'' ''random'') (\<lambda>t. and_then (parse_policy_type t) (\<lambda>v. Inr (s\<lparr>wk_policy := v\<rparr>)))),
      parse_learning_paths env dir n,
      (\<lambda>s. and_then (parse_demos env dir n (wk_demos s)) (\<lambda>v. Inr (s\<lparr>wk_demos := v\<rparr>))),
      in_child y n ''event_bus'' (\<lambda>c. set_or as_size y c ''buffer_size'' 1000 (\<lambda>v s. s\<lparr>wk_buffer_size := v\<rparr>)),
      (\<lambda>s. and_then (parse_coordinator env n (wk_coordinator s)) (\<lambda>v. Inr (s\<lparr>wk_coordinator := v\<rparr>))),
      when_has y n ''standalone_run_enable'' (set_or as_bool y n ''standalone_run_enable'' False (\<lambda>v s. s\<lparr>wk_standalone := v\<rparr>))]
     default_worker_config)"

text \<open>The directory of the file is found outside of the handlers: an exception there leaves the parser.\<close>

definition parse_worker_config :: "'y worker_parse_env \<Rightarrow> string \<Rightarrow> (string + (error + worker_config)) option" where
  "parse_worker_config env path =
     (case fs_canonical (wpe_fs env) (fs_absolute (wpe_fs env) path) of
        Inl what \<Rightarrow> Some (Inl what)
      | Inr file \<Rightarrow> map_option Inr (caught ''worker::parse_worker_config''
          (and_then (thrown (y_load_file (wpe_yaml env) path)) (parse_worker_tree env (fs_parent (wpe_fs env) file)))))"

section \<open>Where the files are\<close>

definition get_executable_dir :: "file_system \<Rightarrow> string \<Rightarrow> string \<Rightarrow> string" where
  "get_executable_dir fs current argv0 = (case fs_canonical fs argv0 of Inl what \<Rightarrow> current | Inr p \<Rightarrow> fs_parent fs p)"

text \<open>The first candidate that exists; the resolution gives the empty path when it fails.\<close>

definition resolve_default_path :: "file_system \<Rightarrow> (string \<Rightarrow> bool) \<Rightarrow> string list \<Rightarrow> string + string" where
  "resolve_default_path fs present cs =
     (case filter (\<lambda>c. c \<noteq> [] \<and> present c) cs of
        [] \<Rightarrow> Inl (''No candidate paths resolved.'' @ [CHR 0x0A] @ concat (map (\<lambda>c. c @ [CHR 0x0A]) cs))
      | c # rest \<Rightarrow> Inr (case fs_weakly_canonical fs c of Inl what \<Rightarrow> [] | Inr p \<Rightarrow> p))"

section \<open>The configuration of the log\<close>

datatype log_level = LTRACE | LDEBUG | LINFO | LWARN | LERROR | LCRITICAL | LOFF

record logging_config =
  lg_level :: log_level
  lg_console :: bool
  lg_file :: bool
  lg_path :: string
  lg_async :: bool
  lg_queue :: nat
  lg_console_pattern :: string
  lg_file_pattern :: string
  lg_flush_on_error :: bool
  lg_max_size :: nat
  lg_max_files :: nat
  lg_backtrace :: bool
  lg_backtrace_size :: nat

definition console_pattern :: string where "console_pattern = ''[%^%l%$] [%n] [%g:%#] %v''"

definition file_pattern :: string where "file_pattern = ''[%Y-%m-%d %H:%M:%S.%e] [%l] [%n] [%g:%#] %v''"

definition default_logging_config :: logging_config where
  "default_logging_config = \<lparr>lg_level = LINFO, lg_console = True, lg_file = True, lg_path = ''ddrl.log'', lg_async = False, lg_queue = 8192,
     lg_console_pattern = console_pattern, lg_file_pattern = file_pattern, lg_flush_on_error = True, lg_max_size = 50, lg_max_files = 3,
     lg_backtrace = False, lg_backtrace_size = 32\<rparr>"

definition log_level_from_string :: "string \<Rightarrow> string + log_level" where
  "log_level_from_string s =
     (if s = ''TRACE'' then Inr LTRACE else if s = ''DEBUG'' then Inr LDEBUG else if s = ''INFO'' then Inr LINFO
      else if s = ''WARN'' then Inr LWARN else if s = ''ERROR'' then Inr LERROR else if s = ''CRITICAL'' then Inr LCRITICAL
      else if s = ''OFF'' then Inr LOFF else Inl (''Invalid log level string: '' @ quoted s))"

text \<open>The text of the level, whose conversion throws an exception that is none of the YAML library's.\<close>

definition read_log_level :: "'y yaml \<Rightarrow> 'y \<Rightarrow> parse_failure + (string + log_level)" where
  "read_log_level y n = and_then (has y n ''default_level'') (\<lambda>b.
     if b then and_then (need as_string y n ''default_level'') (\<lambda>t. Inr (log_level_from_string t)) else Inr (Inr LINFO))"

definition parse_log_settings :: "'y yaml \<Rightarrow> 'y \<Rightarrow> logging_config read" where
  "parse_log_settings y n = reads
     [set_or as_bool y n ''log_to_console'' True (\<lambda>v s. s\<lparr>lg_console := v\<rparr>),
      set_or as_bool y n ''log_to_file'' True (\<lambda>v s. s\<lparr>lg_file := v\<rparr>),
      set_or as_string y n ''log_file_path'' ''ddrl.log'' (\<lambda>v s. s\<lparr>lg_path := v\<rparr>),
      set_or as_bool y n ''async_logging'' False (\<lambda>v s. s\<lparr>lg_async := v\<rparr>),
      set_or as_size y n ''async_queue_size'' 8192 (\<lambda>v s. s\<lparr>lg_queue := v\<rparr>),
      set_or as_string y n ''console_pattern'' console_pattern (\<lambda>v s. s\<lparr>lg_console_pattern := v\<rparr>),
      set_or as_string y n ''file_pattern'' file_pattern (\<lambda>v s. s\<lparr>lg_file_pattern := v\<rparr>),
      set_or as_bool y n ''flush_on_error'' True (\<lambda>v s. s\<lparr>lg_flush_on_error := v\<rparr>),
      set_or as_size y n ''max_file_size_mb'' 50 (\<lambda>v s. s\<lparr>lg_max_size := v\<rparr>),
      set_or as_size y n ''max_files'' 3 (\<lambda>v s. s\<lparr>lg_max_files := v\<rparr>),
      set_or as_bool y n ''enable_backtrace'' False (\<lambda>v s. s\<lparr>lg_backtrace := v\<rparr>),
      set_or as_size y n ''backtrace_size'' 32 (\<lambda>v s. s\<lparr>lg_backtrace_size := v\<rparr>)]"

text \<open>Only the exceptions of the YAML library are caught: that of the level leaves the parser.\<close>

definition parse_logging_config :: "'y yaml \<Rightarrow> string \<Rightarrow> (string + (error + logging_config)) option" where
  "parse_logging_config y path =
     (let ctx = ''worker::parse_logging_config''
      in case and_then (thrown (y_load_file y path)) (\<lambda>n. and_then (read_log_level y n) (\<lambda>l. Inr (n, l))) of
           Inl f \<Rightarrow> map_option Inr (caught ctx (Inl f))
         | Inr (n, Inl what) \<Rightarrow> Some (Inl what)
         | Inr (n, Inr l) \<Rightarrow> map_option Inr (caught ctx (parse_log_settings y n (default_logging_config\<lparr>lg_level := l\<rparr>))))"

section \<open>Overrides of the command line\<close>

record cli_config =
  cli_num_sims :: "16 word option"
  cli_num_raycast :: "16 word option"
  cli_visualize :: "bool option"
  cli_real_time_factor :: "real option"
  cli_seed :: "64 word option"
  cli_target :: "string option"
  cli_identity :: "string option"
  cli_standalone :: "bool option"
  cli_deterministic :: "bool option"
  cli_onnx_path :: "string option"

definition set_opt :: "'a option \<Rightarrow> ('a \<Rightarrow> 's \<Rightarrow> 's) \<Rightarrow> 's \<Rightarrow> 's" where
  "set_opt v upd s = (case v of None \<Rightarrow> s | Some x \<Rightarrow> upd x s)"

text \<open>The seed is a signed number of 64 bits that is only checked here.\<close>

definition apply_cli_config_overrides :: "cli_config \<Rightarrow> worker_config \<Rightarrow> string + worker_config" where
  "apply_cli_config_overrides c s0 =
     (let s1 = set_opt (cli_num_sims c) (\<lambda>v s. s\<lparr>wk_num_sims := v\<rparr>) s0;
          s2 = set_opt (cli_num_raycast c) (\<lambda>v s. s\<lparr>wk_num_raycast := v\<rparr>) s1;
          s3 = set_opt (cli_visualize c) (\<lambda>v s. s\<lparr>wk_visualize := v\<rparr>) s2;
          s4 = set_opt (cli_real_time_factor c) (\<lambda>v s. s\<lparr>wk_real_time_factor := v\<rparr>) s3
      in if (case cli_seed c of None \<Rightarrow> False | Some n \<Rightarrow> sint n < -1)
         then Inl ''Worker seed override must be -1 or a non-negative integer''
         else
          (let s5 = set_opt (cli_target c) (\<lambda>v s. s\<lparr>wk_coordinator := (wk_coordinator s)\<lparr>co_target := v\<rparr>\<rparr>) s4;
               s6 = set_opt (cli_identity c) (\<lambda>v s. s\<lparr>wk_coordinator := (wk_coordinator s)\<lparr>co_identity := v\<rparr>\<rparr>) s5;
               s7 = set_opt (cli_standalone c) (\<lambda>v s. s\<lparr>wk_standalone := v\<rparr>) s6;
               s8 = set_opt (cli_deterministic c) (\<lambda>v s. s\<lparr>wk_deterministic := v\<rparr>) s7;
               s9 = set_opt (cli_onnx_path c) (\<lambda>v s. s\<lparr>wk_onnx_path := v\<rparr>) s8
           in Inr s9))"

section \<open>Threads\<close>

text \<open>The cores that are left for simulators and rays, from the number of hardware threads.\<close>

definition reserved_threads :: "32 word \<Rightarrow> bool \<Rightarrow> 32 word" where
  "reserved_threads hw viz = min hw (1 + (if viz then 1 else 0) + 1)"

definition available_threads :: "32 word \<Rightarrow> bool \<Rightarrow> 32 word" where
  "available_threads hw viz = (if hw > reserved_threads hw viz then hw - reserved_threads hw viz else 1)"

text \<open>What one side gets when the other is given.\<close>

definition threads_left :: "32 word \<Rightarrow> 32 word \<Rightarrow> 32 word \<Rightarrow> 32 word" where
  "threads_left hw reserved other = max 1 (if hw > reserved + other then hw - reserved - other else 1)"

definition wanted_threads :: "32 word \<Rightarrow> bool \<Rightarrow> 32 word \<Rightarrow> 32 word \<Rightarrow> 32 word \<times> 32 word" where
  "wanted_threads hw viz sims rays =
     (let avail = available_threads hw viz; reserved = reserved_threads hw viz
      in if sims = 0 \<and> rays = 0
         then let s = max 1 (of_nat (nat \<lfloor>real (unat avail) * (8 / 10)\<rfloor>)) in (s, max 1 (avail - s))
         else if sims > 0 \<and> rays = 0 then (sims, threads_left hw reserved sims)
         else if rays > 0 \<and> sims = 0 then (threads_left hw reserved rays, rays)
         else (sims, rays))"

definition clamp_threads :: "32 word \<Rightarrow> 32 word \<times> 32 word \<Rightarrow> 32 word \<times> 32 word" where
  "clamp_threads avail p = (let (sims, rays) = p in
     if sims + rays > avail
     then let r = max 1 (min rays (avail - 1)) in (max 1 (avail - r), r)
     else (sims, rays))"

definition allot_threads :: "32 word \<Rightarrow> bool \<Rightarrow> 16 word \<Rightarrow> 16 word \<Rightarrow> 32 word \<times> 32 word" where
  "allot_threads cores viz sims rays =
     (let hw = max 1 cores; (s, r) = clamp_threads (available_threads hw viz) (wanted_threads hw viz (ucast sims) (ucast rays))
      in (s, min 8 r))"

section \<open>Modes\<close>

text \<open>Whether rollouts are recorded and streamed; the publisher exists when either holds.\<close>

definition records_demos :: "worker_config \<Rightarrow> bool" where
  "records_demos c \<longleftrightarrow> dm_mode (wk_demos c) \<noteq> OFF"

definition streams_rollouts :: "worker_config \<Rightarrow> bool" where
  "streams_rollouts c \<longleftrightarrow> \<not> wk_standalone c \<and> dm_mode (wk_demos c) \<noteq> RECORD_ONLY"

definition has_publisher :: "worker_config \<Rightarrow> bool" where
  "has_publisher c \<longleftrightarrow> streams_rollouts c \<or> records_demos c"

section \<open>Texts with variables\<close>

text \<open>A text in pieces: characters that are no dollar sign, and variables; how it is written and what it means.\<close>

datatype env_piece = Plain string | Variable string

fun write_piece :: "env_piece \<Rightarrow> string" where
  "write_piece (Plain s) = s"
| "write_piece (Variable k) = ''${'' @ k @ ''}''"

fun piece_value :: "(string \<Rightarrow> string option) \<Rightarrow> env_piece \<Rightarrow> string" where
  "piece_value getenv (Plain s) = s"
| "piece_value getenv (Variable k) = (case (if k = [] then None else getenv k) of Some v \<Rightarrow> v | None \<Rightarrow> ''${'' @ k @ ''}'')"

fun piece_ok :: "env_piece \<Rightarrow> bool" where
  "piece_ok (Plain s) = (CHR ''$'' \<notin> set s)"
| "piece_ok (Variable k) = (CHR ''}'' \<notin> set k)"

lemma expand_plain: "CHR ''$'' \<notin> set s \<Longrightarrow> expand_env getenv (s @ t) = s @ expand_env getenv t"
  by (induction s) auto

lemma find_brace: "CHR ''}'' \<notin> set k \<Longrightarrow> find_char (CHR ''}'') (k @ CHR ''}'' # t) = Some (length k)"
  by (induction k) auto

lemma expand_variable:
  "CHR ''}'' \<notin> set k \<Longrightarrow> expand_env getenv (''${'' @ k @ ''}'' @ t) = piece_value getenv (Variable k) @ expand_env getenv t"
  by (simp add: find_brace Let_def numeral_3_eq_3 split: option.split)

text \<open>C34: Environment variables: a text that is written from plain pieces and variables is expanded
  piece by piece, every variable that is set to its value and every other one to itself; nothing
  that a value contains is expanded again.\<close>

theorem expand_env_pieces:
  assumes "\<forall>p\<in>set ps. piece_ok p"
  shows "expand_env getenv (concat (map write_piece ps)) = concat (map (piece_value getenv) ps)"
  using assms
proof (induction ps)
  case (Cons p ps)
  then have IH: "expand_env getenv (concat (map write_piece ps)) = concat (map (piece_value getenv) ps)" "piece_ok p" by simp_all
  show ?case
  proof (cases p)
    case (Plain s)
    then show ?thesis using IH expand_plain[of s getenv] by simp
  next
    case (Variable k)
    then show ?thesis using IH expand_variable[of k getenv "concat (map write_piece ps)"] by simp
  qed
qed simp

theorem expand_env_pieces_witness:
  "expand_env [''HOME'' \<mapsto> ''/root/${X}''] ''a/${HOME}/${Y}'' = ''a//root/${X}/${Y}''"
  using expand_env_pieces[of "[Plain ''a/'', Variable ''HOME'', Plain ''/'', Variable ''Y'']" "[''HOME'' \<mapsto> ''/root/${X}'']"] by simp

section \<open>How many threads\<close>

lemma unat_max: "unat (max a b) = max (unat a) (unat (b :: 'a :: len word))"
  by (simp add: max_def word_le_nat_alt)

lemma unat_min: "unat (min a b) = min (unat a) (unat (b :: 'a :: len word))"
  by (simp add: min_def word_le_nat_alt)

lemma unat16: "unat (x :: 16 word) < 65536"
proof -
  have "unat x < 2 ^ LENGTH(16)" by (rule unsigned_less)
  then show ?thesis by simp
qed

lemma unat_up: "unat (ucast (x :: 16 word) :: 32 word) = unat x"
  using unat16[of x] by (simp add: unsigned_ucast_eq take_bit_nat_eq_self)

lemma unat_difference: "b \<le> a \<Longrightarrow> unat (a - b) = unat a - unat (b :: 'a :: len word)"
  by (rule unat_sub)

lemma available_bounds:
  assumes "1 \<le> unat hw"
  shows "1 \<le> unat (available_threads hw viz) \<and> unat (available_threads hw viz) \<le> unat hw"
proof (cases "hw > reserved_threads hw viz")
  case True
  then have "unat (hw - reserved_threads hw viz) = unat hw - unat (reserved_threads hw viz)" "unat (reserved_threads hw viz) < unat hw"
    by (simp_all only: unat_difference[OF less_imp_le] word_less_nat_alt)
  then show ?thesis using True by (simp add: available_threads_def)
qed (use assms in \<open>simp add: available_threads_def\<close>)

lemma threads_left_bounds:
  assumes "1 \<le> unat hw"
  shows "1 \<le> unat (threads_left hw a b) \<and> unat (threads_left hw a b) \<le> unat hw"
proof -
  have "unat (hw - a - b) \<le> unat hw" if "hw > a + b"
    using unat_difference[OF less_imp_le[OF that]] by (simp add: diff_diff_eq)
  then show ?thesis using assms by (auto simp: threads_left_def unat_max)
qed

text \<open>The wishes stay far below the range of the type, so that their sum does not wrap.\<close>

lemma wanted_cases:
  "x \<noteq> 0 \<Longrightarrow> wanted_threads hw viz x 0 = (x, threads_left hw (reserved_threads hw viz) x)"
  "y \<noteq> 0 \<Longrightarrow> wanted_threads hw viz 0 y = (threads_left hw (reserved_threads hw viz) y, y)"
  "x \<noteq> 0 \<Longrightarrow> y \<noteq> 0 \<Longrightarrow> wanted_threads hw viz x y = (x, y)"
  by (simp_all add: wanted_threads_def Let_def word_gt_0)

lemma wanted_bounds:
  fixes sims rays :: "16 word"
  assumes "wanted_threads hw viz (ucast sims) (ucast rays) = (s, r)" "1 \<le> unat hw" "unat hw < 2 ^ 31"
  shows "1 \<le> unat s \<and> 1 \<le> unat r \<and> unat s + unat r < 2 ^ 32 \<and> (0 < sims \<and> 0 < rays \<longrightarrow> unat s = unat sims \<and> unat r = unat rays)"
proof -
  let ?A = "available_threads hw viz"
  have A: "1 \<le> unat ?A" "unat ?A \<le> unat hw" using available_bounds[OF assms(2)] by simp_all
  have zero: "(ucast x :: 32 word) = 0 \<longleftrightarrow> x = 0" for x :: "16 word"
    using unat_up[of x] by (metis unat_eq_zero)
  have pos: "x \<noteq> 0 \<Longrightarrow> 1 \<le> unat x" for x :: "16 word" using unat_eq_zero[of x] by linarith
  have share: "unat (of_nat (nat \<lfloor>real (unat ?A) * (8 / 10)\<rfloor>) :: 32 word) \<le> unat ?A"
  proof -
    have "nat \<lfloor>real (unat ?A) * (8 / 10)\<rfloor> \<le> unat ?A" by linarith
    moreover have "unat (of_nat n :: 32 word) \<le> n" for n by (simp add: unat_of_nat)
    ultimately show ?thesis by (meson order_trans)
  qed
  have rest: "unat (max 1 (?A - w)) \<le> unat hw" if "unat w \<le> unat ?A" for w
    using that A assms(2) unat_difference[of w ?A] by (simp add: unat_max word_le_nat_alt)
  consider "sims = 0" "rays = 0" | "sims \<noteq> 0" "rays = 0" | "sims = 0" "rays \<noteq> 0" | "sims \<noteq> 0" "rays \<noteq> 0" by blast
  then show ?thesis
  proof cases
    case 1
    have "s = max 1 (of_nat (nat \<lfloor>real (unat ?A) * (8 / 10)\<rfloor>))" "r = max 1 (?A - s)"
      using assms(1) 1 by (auto simp: wanted_threads_def Let_def)
    moreover from this(1) have "unat s \<le> unat ?A" using share A by (simp add: unat_max)
    ultimately have "1 \<le> unat s" "1 \<le> unat r" "unat s + unat r < 2 ^ 32"
      using rest[of s] A assms(3) by (simp_all add: unat_max)
    then show ?thesis using 1 by simp
  next
    case 2
    then have "(ucast sims :: 32 word) \<noteq> 0" "(ucast rays :: 32 word) = 0" by (simp_all only: zero) simp
    then have "s = ucast sims \<and> r = threads_left hw (reserved_threads hw viz) s"
      using assms(1) wanted_cases(1)[of "ucast sims" hw viz] by (simp only: prod.inject) metis
    then have "unat s = unat sims" "1 \<le> unat r \<and> unat r \<le> unat hw"
      using threads_left_bounds[OF assms(2)] by (auto simp only: unat_up)
    then show ?thesis using 2 assms(3) unat16[of sims] pos[OF 2(1)] by simp
  next
    case 3
    then have "(ucast rays :: 32 word) \<noteq> 0" "(ucast sims :: 32 word) = 0" by (simp_all only: zero) simp
    then have "r = ucast rays \<and> s = threads_left hw (reserved_threads hw viz) r"
      using assms(1) wanted_cases(2)[of "ucast rays" hw viz] by (simp only: prod.inject) metis
    then have "unat r = unat rays" "1 \<le> unat s \<and> unat s \<le> unat hw"
      using threads_left_bounds[OF assms(2)] by (auto simp only: unat_up)
    then show ?thesis using 3 assms(3) unat16[of rays] pos[OF 3(2)] by simp
  next
    case 4
    then have "(ucast rays :: 32 word) \<noteq> 0" "(ucast sims :: 32 word) \<noteq> 0" by (simp_all only: zero not_False_eq_True)
    then have "s = ucast sims \<and> r = ucast rays"
      using assms(1) wanted_cases(3)[of "ucast sims" "ucast rays" hw viz] by (simp only: prod.inject) metis
    then have "unat s = unat sims" "unat r = unat rays" by (simp_all only: unat_up)
    then show ?thesis using unat16[of rays] unat16[of sims] pos[OF 4(1)] pos[OF 4(2)] by simp
  qed
qed

lemma clamp_threads_bounds:
  assumes "clamp_threads avail (s, r) = (s', r')" "1 \<le> unat avail" "1 \<le> unat s" "1 \<le> unat r" "unat s + unat r < 2 ^ 32"
  shows "1 \<le> unat s' \<and> 1 \<le> unat r' \<and> unat s' + unat r' \<le> max 2 (unat avail) \<and> (unat s + unat r \<le> unat avail \<longrightarrow> s' = s \<and> r' = r)"
proof -
  have sum: "unat (s + r) = unat s + unat r" using assms(5) by (simp add: unat_word_ariths)
  show ?thesis
  proof (cases "s + r > avail")
    case False
    then have "s' = s" "r' = r" using assms(1) by (simp_all add: clamp_threads_def)
    moreover have "unat s + unat r \<le> unat avail" using False sum by (simp add: word_less_nat_alt)
    ultimately show ?thesis using assms(3,4) by simp
  next
    case True
    have d: "unat (avail - 1) = unat avail - 1" using assms(2) unat_difference[of 1 avail] by (simp add: word_le_nat_alt)
    have r: "r' = max 1 (min r (avail - 1))" "s' = max 1 (avail - r')" using assms(1) True by (auto simp: clamp_threads_def Let_def)
    have r': "unat r' = max 1 (min (unat r) (unat avail - 1))" using d by (simp add: r(1) unat_max unat_min)
    have "unat r' \<le> unat avail" using r' assms(2) by auto
    then have "unat s' = max 1 (unat avail - unat r')" using unat_difference[of r' avail] by (simp add: r(2) unat_max word_le_nat_alt)
    moreover have "\<not> unat s + unat r \<le> unat avail" using True sum by (simp add: word_less_nat_alt)
    ultimately show ?thesis using r' assms(2,4) by linarith
  qed
qed

text \<open>C35: The threads that a worker allots: there is at least one simulator and between one and eight
  threads for rays; together they are no more than the cores that are left, except that one core is
  used twice. Numbers that are both given and fit are kept, up to the limit for rays.\<close>

theorem allot_threads_bounds:
  assumes "allot_threads cores viz sims rays = (s, r)" "unat cores < 2 ^ 31"
  shows "1 \<le> unat s \<and> 1 \<le> unat r \<and> unat r \<le> 8 \<and>
    unat s + unat r \<le> max 2 (unat (available_threads (max 1 cores) viz)) \<and>
    (0 < sims \<and> 0 < rays \<and> unat sims + unat rays \<le> unat (available_threads (max 1 cores) viz) \<longrightarrow> unat s = unat sims \<and> unat r = min 8 (unat rays))"
proof -
  let ?hw = "max 1 cores"
  have hw: "1 \<le> unat ?hw" "unat ?hw < 2 ^ 31" using assms(2) by (simp_all add: unat_max)
  obtain s0 r0 where w: "wanted_threads ?hw viz (ucast sims) (ucast rays) = (s0, r0)" by fastforce
  obtain s1 r1 where c: "clamp_threads (available_threads ?hw viz) (s0, r0) = (s1, r1)" by fastforce
  have sr: "s = s1" "r = min 8 r1" using assms(1) w c by (simp_all add: allot_threads_def Let_def)
  note wb = wanted_bounds[OF w hw]
  have cb: "1 \<le> unat s1 \<and> 1 \<le> unat r1 \<and> unat s1 + unat r1 \<le> max 2 (unat (available_threads ?hw viz)) \<and>
      (unat s0 + unat r0 \<le> unat (available_threads ?hw viz) \<longrightarrow> s1 = s0 \<and> r1 = r0)"
    using clamp_threads_bounds[OF c] available_bounds[OF hw(1), of viz] wb by blast
  have "unat r = min 8 (unat r1)" by (simp add: sr(2) unat_min)
  with sr(1) cb wb show ?thesis by auto
qed

text \<open>Four cores, nothing given; and a single core, which is used twice.\<close>

theorem allot_threads_bounds_witness:
  "\<exists>s r. allot_threads 4 False 0 0 = (s, r) \<and> 1 \<le> unat s \<and> unat s + unat r \<le> 2 \<and> allot_threads 1 False 0 0 = (1, 1)"
proof -
  obtain s r where a: "allot_threads 4 False 0 0 = (s, r)" by fastforce
  have "unat (available_threads (max 1 4) False) = 2"
    by (simp add: available_threads_def reserved_threads_def min_def max_def)
  with allot_threads_bounds[OF a] have "1 \<le> unat s" "unat s + unat r \<le> 2" by simp_all
  moreover have "allot_threads 1 False 0 0 = (1, 1)"
    by (simp add: allot_threads_def wanted_threads_def clamp_threads_def available_threads_def reserved_threads_def Let_def min_def max_def word_le_nat_alt)
  ultimately show ?thesis using a by blast
qed

section \<open>A level that is not known\<close>

text \<open>The parser of the log configuration does not turn an unknown level into an error: its exception
  reaches the caller.\<close>

lemma unknown_level_escapes:
  assumes "y_load_file y path = Inr n" "y_key y n ''default_level'' = Inr c" "y_defined y c" "as_string y c = Inr t"
    "t \<notin> set [''TRACE'', ''DEBUG'', ''INFO'', ''WARN'', ''ERROR'', ''CRITICAL'', ''OFF'']"
  shows "parse_logging_config y path = Some (Inl (''Invalid log level string: '' @ quoted t))"
proof -
  have "log_level_from_string t = Inl (''Invalid log level string: '' @ quoted t)"
    using assms(5) by (simp add: log_level_from_string_def)
  then show ?thesis using assms(1-4)
    by (simp add: parse_logging_config_def read_log_level_def has_def key_def need_def thrown_def and_then_def)
qed

end
