(* ===== verification/Spec2Isabelle.thy ===== *)
theory Spec2Isabelle
  imports WorkerRuns ThreadPool ConfigFacts WorkerConfig
begin

text \<open>
  A verification development for the simulation and rollout code of ddrl-nav2d (C++).

  The program trains a navigation policy: workers run simulators of a robot among static and
  dynamic objects, encode observations, reward the steps and publish the trajectories. The parts
  are libraries under \<^verbatim>\<open>src/libs\<close> and the worker under \<^verbatim>\<open>src/apps/worker\<close>. A thread of the worker
  steps a simulator; the simulator updates its world in substeps and asks it for telemetry, from
  which the reward is computed; the world updates the objects, the robot with its sensors, and the
  broad phase, and resolves the collisions; the thread collects the transitions and hands rollouts
  to the publisher.

  Theories, from the bottom up, and the code they model:

  \<^item> \<open>Prelude\<close>: results as sums, checked vector access, the tape of pseudo-random draws, and the
    contracts \<open>invariant_system\<close> and \<open>terminating_system\<close> of components described by steps.
  \<^item> \<open>Geometry\<close>, \<open>Boxes\<close>, \<open>Planar\<close>, \<open>Shapes\<close>: \<^verbatim>\<open>core/math\<close> and \<^verbatim>\<open>core/geom\<close>. Points, poses,
    boxes, planar predicates and shapes; the box of a shape covers it at every pose.
  \<^item> \<open>Spatial\<close>, \<open>TF\<close>: \<^verbatim>\<open>core/math\<close> in space and \<^verbatim>\<open>core/src/transform/tf.cpp\<close>. Quaternions and
    rigid motions; the frame buffer with its histories, whose lookup refines the poses of a forest.
  \<^item> \<open>CoreBase\<close>: \<^verbatim>\<open>core/base\<close>. Errors, splitting and joining, the cyclic successor, the pacer.
  \<^item> \<open>BVH\<close>, \<open>TLAS\<close>: \<^verbatim>\<open>collision/src/bvh.cpp\<close>. Node vectors are equated with the preorder layout
    of an abstract tree; \<open>tlas_tight\<close> is the invariant of the top-level tree.
  \<^item> \<open>BroadPhase\<close>: \<^verbatim>\<open>collision/src/broad_phase.cpp\<close>. \<open>bp_inv\<close> ties instances, states and trees
    together; the query is exact after every run of moves and refits.
  \<^item> \<open>NarrowPhase\<close>, \<open>RayCast\<close>: \<^verbatim>\<open>collision/src/sat.cpp\<close> and \<^verbatim>\<open>ray_casting.cpp\<close>. The separating axis
    test is sound; a traced ray ends at the nearest hit of a search without trees.
  \<^item> \<open>EventBus\<close>: \<^verbatim>\<open>events/event_bus.hpp\<close>. One channel over an abstract queue with the documented
    laws of the third-party class (\<open>spsc_laws\<close>), which \<open>list_queue\<close> satisfies.
  \<^item> \<open>ThreadPool\<close>: \<^verbatim>\<open>threading/thread_pool.hpp\<close>. The pool as a step relation of its critical
    sections, an interpretation of both contracts of the prelude.
  \<^item> \<open>Ackermann\<close>, \<open>Control\<close>: \<^verbatim>\<open>kinematics/src/ackermann.cpp\<close> and \<^verbatim>\<open>control/src/pure_pursuit.cpp\<close>. The
    vehicle step and its envelope; path tracking and the PID controller.
  \<^item> \<open>RL\<close>, \<open>Reward\<close>, \<open>RewardDeprecated\<close>, \<open>Encoding\<close>: \<^verbatim>\<open>core/rl\<close>. The records of learning, the two
    reward functions as implementations of one interface, the observation encoder.
  \<^item> \<open>Sensors\<close>, \<open>Robot\<close>: \<^verbatim>\<open>sim/src/sensors\<close> and \<^verbatim>\<open>sim/src/robot.cpp\<close>. Scheduling, latency and scans;
    the robot with its queue of delayed actions, a delay line.
  \<^item> \<open>DynObject\<close>, \<open>SpawnManager\<close>: \<^verbatim>\<open>sim/src/object.cpp\<close> and \<^verbatim>\<open>spawn_manager.cpp\<close>. The state machine of
    dynamic objects; every object is active or in one queue.
  \<^item> \<open>Names\<close>, \<open>Severity\<close>, \<open>Clearance\<close>, \<open>World\<close>, \<open>WorldUpdate\<close>: \<^verbatim>\<open>sim/src/world.cpp\<close>. Unused names, the
    severity of a collision, the clearance ahead, the construction of a world with its entity
    tables and route, and its update.
  \<^item> \<open>WorldInv\<close>, \<open>WorldContacts\<close>: \<open>world_ok\<close>, the invariant that construction establishes and every
    operation on a world keeps; what it says of the robot's contacts and of the route.
  \<^item> \<open>MapManager\<close>, \<open>Simulator\<close>: \<^verbatim>\<open>sim/src/map_manager.cpp\<close> and \<^verbatim>\<open>simulator.cpp\<close>. Maps with their
    walls; reset, step, the integration loop, the rewards and the curriculum.
  \<^item> \<open>SimInv\<close>, \<open>SimRuns\<close>: \<open>sim_ok\<close>, the invariant of the simulator, with which every call returns; the
    books of episodes, the errors and the curriculum over runs of calls.
  \<^item> \<open>Trajectory\<close>, \<open>Publisher\<close>, \<open>WorkerPolicy\<close>, \<open>WorkerLoop\<close>: \<^verbatim>\<open>apps/worker/src\<close>. The trajectory
    buffer, the publisher thread, the three policies and the thread of a simulator. The thread is
    proved against the contract \<open>episode_source\<close>, of which the simulator with \<open>sim_ok\<close> is an
    interpretation; \<open>WorkerRuns\<close> states what follows for the two together.
  \<^item> \<open>Yaml\<close>, \<open>ConfigSim\<close>, \<open>ConfigRL\<close>, \<open>ConfigProfile\<close>, \<open>ConfigWorld\<close>: \<^verbatim>\<open>config/src/parsing.cpp\<close>. Parsers as
    chains of reads of nodes, for the simulator, the learning, the profiles, worlds and maps. The YAML
    library and the file system are arguments, an exception or a returned error is a left value.
  \<^item> \<open>ConfigFacts\<close>: what a parsed configuration satisfies, with rules for what a chain preserves
    and that it returns; \<open>world_config_ok\<close>, which the world needs, is there shown to hold of a parsed
    world up to what the parser does not check.
  \<^item> \<open>WorkerConfig\<close>: \<^verbatim>\<open>apps/worker/src/config.cpp\<close> and the numbers of threads of \<^verbatim>\<open>worker.cpp\<close>.

  Conventions. A \<^verbatim>\<open>double\<close> is a real number: rounding, NaN and infinities are outside the model,
  and an infinite sentinel is \<open>None\<close>. \<^verbatim>\<open>std::expected\<close> is a sum, an exception is the left value
  of a sum. A vector is a list; \<^verbatim>\<open>kInvalid\<close> indices are \<open>None\<close>. \<^verbatim>\<open>std::mt19937\<close> with its
  distributions is a tape of unit draws, and the theorems hold for every tape.
  \<^verbatim>\<open>std::nth_element\<close> is any function that rearranges the range, \<^verbatim>\<open>std::priority_queue\<close> any choice of
  an earliest entry. A hash table is a map; where the code iterates over a hash set the model
  iterates over a list in insertion order. A loop that might not end is a \<open>partial_function\<close> whose
  result is an option, and its termination is part of the theorems about it; an operation built
  from such loops returns an option too. Wall-clock readings, the stop token and what other threads
  contribute are arguments.

  Not modelled: logging and the VTK visualizer (output only) with the parser of its settings, generated
  protocol code, the network clients, model inference and the text format of YAML (calls of
  libraries), and the rest of the start-up of the worker, which wires these together.
\<close>

end
